(* ===== verification/Prelude.thy ===== *)
theory Prelude
  imports Complex_Main "HOL-Library.Sublist"
begin

text \<open>
  Shared vocabulary of the development: Python strings, JSON values, the exceptions the
  modelled code raises, and the generic facts about slices, lookups and results that the
  component theories use.

  A Python \<open>str\<close> is a list of code points (\<open>str\<close> below), so \<open>len\<close>, slicing and
  membership are the list operations and a lone surrogate is representable.  The source's
  string literals are written \<open>lit ''...''\<close>; \<open>lit\<close> is injective and stays folded in
  proofs.  A function that may raise returns a sum: \<open>Inl\<close> the exception, \<open>Inr\<close> the value.
\<close>

section \<open>Strings\<close>

type_synonym str = "nat list"

definition lit :: "string \<Rightarrow> str" where
  "lit s = map of_char s"

lemma lit_inject [simp]: "lit s = lit t \<longleftrightarrow> s = t"
proof -
  have "inj (of_char :: char \<Rightarrow> nat)" by (rule inj_of_char)
  then show ?thesis by (simp add: lit_def inj_map_eq_map)
qed

lemma lit_Nil [simp]: "lit [] = []"
  by (simp add: lit_def)

lemma lit_eq_Nil [simp]: "lit s = [] \<longleftrightarrow> s = []" "[] = lit s \<longleftrightarrow> s = []"
  by (auto simp: lit_def)

lemma length_lit [simp]: "length (lit s) = length s"
  by (simp add: lit_def)

lemma lit_append: "lit (s @ t) = lit s @ lit t"
  by (simp add: lit_def)

lemma set_lit: "c \<in> set (lit s) \<Longrightarrow> c < 256"
  by (auto simp: lit_def)

text \<open>The decimal rendering of a non-negative integer, as an f-string prints it.\<close>

fun dec :: "nat \<Rightarrow> str" where
  "dec n = (if n < 10 then [48 + n] else dec (n div 10) @ [48 + n mod 10])"

declare dec.simps [simp del]

lemma dec_nonempty [simp]: "dec n \<noteq> []"
  by (subst dec.simps) simp

lemma dec_digits: "c \<in> set (dec n) \<Longrightarrow> 48 \<le> c \<and> c \<le> 57"
proof (induction n rule: dec.induct)
  case (1 n)
  show ?case
  proof (cases "n < 10")
    case True
    with "1.prems" show ?thesis by (subst (asm) dec.simps) auto
  next
    case False
    with "1.prems" have "c \<in> set (dec (n div 10)) \<or> c = 48 + n mod 10"
      by (subst (asm) dec.simps) auto
    then show ?thesis using "1.IH" False by auto
  qed
qed

definition dec_int :: "int \<Rightarrow> str" where
  "dec_int i = (if i < 0 then lit ''-'' @ dec (nat (- i)) else dec (nat i))"

text \<open>The NUL character, refused by the validators.\<close>

definition has_nul :: "str \<Rightarrow> bool" where
  "has_nul s \<longleftrightarrow> List.member s 0"

text \<open>
  Python's slices \<open>s[:n]\<close> and \<open>s[-n:]\<close> for a non-negative \<open>n\<close>; the second one is only
  used under the guard \<open>n\<close> that the source writes, because \<open>s[-0:]\<close> is the whole string.
\<close>

definition take_last :: "nat \<Rightarrow> 'a list \<Rightarrow> 'a list" where
  "take_last n s = drop (length s - n) s"

lemma length_take_last [simp]: "length (take_last n s) = min n (length s)"
  by (simp add: take_last_def)

lemma suffix_take_last [simp]: "suffix (take_last n s) s"
  by (simp add: take_last_def suffix_drop)

text \<open>Characters that \<open>str.strip()\<close> removes and \<open>str.isspace()\<close> accepts.\<close>

definition is_space :: "nat \<Rightarrow> bool" where
  "is_space c \<longleftrightarrow> (9 \<le> c \<and> c \<le> 13) \<or> (28 \<le> c \<and> c \<le> 32) \<or> c = 133 \<or> c = 160 \<or> c = 5760
     \<or> (8192 \<le> c \<and> c \<le> 8202) \<or> c = 8232 \<or> c = 8233 \<or> c = 8239 \<or> c = 8287 \<or> c = 12288"

definition strip :: "str \<Rightarrow> str" where
  "strip s = rev (dropWhile is_space (rev (dropWhile is_space s)))"

lemma strip_eq_Nil_iff: "strip s = [] \<longleftrightarrow> (\<forall>c \<in> set s. is_space c)"
proof -
  have "strip s = [] \<longleftrightarrow> (\<forall>c \<in> set (dropWhile is_space s). is_space c)"
    by (simp add: strip_def)
  also have "\<dots> \<longleftrightarrow> (\<forall>c \<in> set s. is_space c)"
    by (induction s) auto
  finally show ?thesis .
qed

lemma strip_nonempty: "strip s \<noteq> [] \<Longrightarrow> s \<noteq> []"
  by (auto simp: strip_def)

section \<open>JSON values\<close>

text \<open>
  A decoded JSON value.  Objects keep their insertion order and hold each key once
  (\<open>json_wf\<close>), as Python's \<open>dict\<close> does.  A finite float is the rational it denotes.
\<close>

datatype pyfloat = Finite rat | PosInf | NegInf | NaN

datatype json =
    JNull
  | JBool bool
  | JInt int
  | JFloat pyfloat
  | JStr str
  | JArr "json list"
  | JObj "(str \<times> json) list"

type_synonym jobj = "(str \<times> json) list"

lemma json_induct [case_names JNull JBool JInt JFloat JStr JArr JObj]:
  assumes "P JNull" "\<And>b. P (JBool b)" "\<And>i. P (JInt i)" "\<And>f. P (JFloat f)" "\<And>s. P (JStr s)"
    and "\<And>xs. (\<And>x. x \<in> set xs \<Longrightarrow> P x) \<Longrightarrow> P (JArr xs)"
    and "\<And>d. (\<And>p. p \<in> set d \<Longrightarrow> P (snd p)) \<Longrightarrow> P (JObj d)"
  shows "P v"
proof (induction v)
  case (JObj d)
  then show ?case using assms(7) by (metis prod.collapse snds.intros)
qed (use assms in auto)

abbreviation dget :: "('k \<times> 'v) list \<Rightarrow> 'k \<Rightarrow> 'v option" where
  "dget d k \<equiv> map_of d k"

text \<open>\<open>d[k] = v\<close>: an existing key keeps its position, a new one goes to the end.\<close>

fun dset :: "('k \<times> 'v) list \<Rightarrow> 'k \<Rightarrow> 'v \<Rightarrow> ('k \<times> 'v) list" where
  "dset [] k v = [(k, v)]"
| "dset ((k', v') # d) k v = (if k' = k then (k, v) # d else (k', v') # dset d k v)"

definition has_key :: "('k \<times> 'v) list \<Rightarrow> 'k \<Rightarrow> bool" where
  "has_key d k \<longleftrightarrow> dget d k \<noteq> None"

definition ddel :: "('k \<times> 'v) list \<Rightarrow> 'k \<Rightarrow> ('k \<times> 'v) list" where
  "ddel d k = filter (\<lambda>(k', _). k' \<noteq> k) d"

lemma dget_dset [simp]: "dget (dset d k v) k' = (if k' = k then Some v else dget d k')"
  by (induction d) auto

lemma in_dset: "p \<in> set (dset d k v) \<Longrightarrow> p = (k, v) \<or> p \<in> set d"
  by (induction d k v rule: dset.induct) (auto split: if_splits)

lemma map_fst_dset:
  "map fst (dset d k v) = (if k \<in> fst ` set d then map fst d else map fst d @ [k])"
  by (induction d k v rule: dset.induct) auto

lemma keys_dset: "fst ` set (dset d k v) = insert k (fst ` set d)"
proof -
  have "set (map fst (dset d k v)) = insert k (set (map fst d))"
    unfolding map_fst_dset by auto
  then show ?thesis by simp
qed

lemma distinct_dset [simp]: "distinct (map fst d) \<Longrightarrow> distinct (map fst (dset d k v))"
  by (simp add: map_fst_dset)

lemma dget_ddel [simp]: "dget (ddel d k) k' = (if k' = k then None else dget d k')"
  by (induction d) (auto simp: ddel_def)

lemma keys_ddel: "fst ` set (ddel d k) = fst ` set d - {k}"
  by (auto simp: ddel_def image_iff)

lemma distinct_ddel [simp]: "distinct (map fst d) \<Longrightarrow> distinct (map fst (ddel d k))"
  unfolding ddel_def by (induction d) (auto simp: image_iff)

lemma has_key_iff: "has_key d k \<longleftrightarrow> k \<in> fst ` set d"
  by (metis has_key_def map_of_eq_None_iff)

section \<open>Exceptions\<close>

text \<open>
  The exception classes the modelled code raises or catches, each with the message the
  source passes.  A \<open>ToolProtocolError\<close> carries its code, message, path and details, a
  \<open>ModelClientError\<close> its category, code, reason, HTTP status and number of attempts.
\<close>

datatype exn =
    TypeError str
  | ValueError str
  | KeyError str
  | RuntimeError str
  | OSError str
  | UnicodeError str
  | TimeoutError str
  | CancellationRequested str
  | KeyboardInterrupt
  | ToolProtocolError str str str jobj
  | ModelClientError str str str "int option" int
  | ContextWindowExceeded str
  | LoopLimitReached str
  | OtherError str str

text \<open>\<open>UnicodeError\<close> and \<open>ToolProtocolError\<close> are subclasses of \<open>ValueError\<close>, \<open>TimeoutError\<close>
  of \<open>OSError\<close>; \<open>KeyboardInterrupt\<close> is no \<open>Exception\<close>.\<close>

fun is_value_error :: "exn \<Rightarrow> bool" where
  "is_value_error (ValueError _) = True"
| "is_value_error (UnicodeError _) = True"
| "is_value_error (ToolProtocolError _ _ _ _) = True"
| "is_value_error _ = False"

fun is_type_error :: "exn \<Rightarrow> bool" where
  "is_type_error (TypeError _) = True"
| "is_type_error _ = False"

fun is_exception :: "exn \<Rightarrow> bool" where
  "is_exception KeyboardInterrupt = False"
| "is_exception _ = True"

fun exn_message :: "exn \<Rightarrow> str" where
  "exn_message (TypeError m) = m"
| "exn_message (ValueError m) = m"
| "exn_message (KeyError m) = m"
| "exn_message (RuntimeError m) = m"
| "exn_message (OSError m) = m"
| "exn_message (UnicodeError m) = m"
| "exn_message (TimeoutError m) = m"
| "exn_message (CancellationRequested m) = m"
| "exn_message KeyboardInterrupt = []"
| "exn_message (ToolProtocolError _ m _ _) = m"
| "exn_message (ModelClientError category code _ status _) =
     lit ''model '' @ category @ lit '': '' @ code @
     (case status of None \<Rightarrow> [] | Some n \<Rightarrow> lit '' status='' @ dec_int n)"
| "exn_message (ContextWindowExceeded m) = m"
| "exn_message (LoopLimitReached m) = m"
| "exn_message (OtherError _ m) = m"

fun exn_class :: "exn \<Rightarrow> str" where
  "exn_class (TypeError _) = lit ''TypeError''"
| "exn_class (ValueError _) = lit ''ValueError''"
| "exn_class (KeyError _) = lit ''KeyError''"
| "exn_class (RuntimeError _) = lit ''RuntimeError''"
| "exn_class (OSError _) = lit ''OSError''"
| "exn_class (UnicodeError _) = lit ''UnicodeEncodeError''"
| "exn_class (TimeoutError _) = lit ''TimeoutError''"
| "exn_class (CancellationRequested _) = lit ''CancellationRequested''"
| "exn_class KeyboardInterrupt = lit ''KeyboardInterrupt''"
| "exn_class (ToolProtocolError _ _ _ _) = lit ''ToolProtocolError''"
| "exn_class (ModelClientError _ _ _ _ _) = lit ''ModelClientError''"
| "exn_class (ContextWindowExceeded _) = lit ''ContextWindowExceeded''"
| "exn_class (LoopLimitReached _) = lit ''_LoopLimitReached''"
| "exn_class (OtherError c _) = c"

type_synonym 'a res = "exn + 'a"

definition bindR :: "'a res \<Rightarrow> ('a \<Rightarrow> 'b res) \<Rightarrow> 'b res" where
  "bindR r f = (case r of Inl e \<Rightarrow> Inl e | Inr a \<Rightarrow> f a)"

text \<open>\<open>if not c: raise e\<close>.\<close>

definition guardR :: "bool \<Rightarrow> exn \<Rightarrow> unit res" where
  "guardR c e = (if c then Inr () else Inl e)"

lemma bindR_simps [simp]: "bindR (Inl e) f = Inl e" "bindR (Inr a) f = f a"
  by (simp_all add: bindR_def)

lemma bindR_Inr_iff: "bindR r f = Inr b \<longleftrightarrow> (\<exists>a. r = Inr a \<and> f a = Inr b)"
  by (cases r) auto

lemma bindR_Inl_iff: "bindR r f = Inl e \<longleftrightarrow> r = Inl e \<or> (\<exists>a. r = Inr a \<and> f a = Inl e)"
  by (cases r) auto

lemma guardR_Inr_iff [simp]: "guardR c e = Inr u \<longleftrightarrow> c"
  by (simp add: guardR_def)

lemma guardR_Inl_iff [simp]: "guardR c e = Inl e' \<longleftrightarrow> \<not> c \<and> e' = e"
  by (auto simp: guardR_def)

lemma bindR_guardR_True [simp]: "bindR (guardR True e) f = f ()"
  by (simp add: guardR_def)

fun is_ok :: "'a res \<Rightarrow> bool" where
  "is_ok (Inr _) = True"
| "is_ok (Inl _) = False"

lemma is_ok_iff: "is_ok r \<longleftrightarrow> (\<exists>a. r = Inr a)"
  by (cases r) auto

section \<open>Lists\<close>

text \<open>The proper-order facts the log and page components share.\<close>

lemma sorted_wrt_append_single:
  "sorted_wrt (<) (xs @ [x :: 'a :: order]) \<longleftrightarrow> sorted_wrt (<) xs \<and> (\<forall>y \<in> set xs. y < x)"
  by (auto simp: sorted_wrt_append)

lemma filter_after_last:
  fixes key :: "'a \<Rightarrow> nat"
  assumes "\<forall>x \<in> set xs. key x \<le> k"
  shows "filter (\<lambda>x. k < key x) xs = []"
  using assms by (auto simp: filter_empty_conv)

end
