(* ===== verification/Utf8.thy ===== *)
theory Utf8
  imports Prelude
begin

text \<open>
  Python's UTF-8 codec, on which every byte bound of the program rests: the strict encoder
  (which raises on a lone surrogate), and the decoder with the three error handlers the
  source names, \<open>strict\<close>, \<open>ignore\<close> and \<open>replace\<close>.  The decoder follows the interpreter's:
  an ill-formed sequence costs one error of the length of its longest well-formed start.
  A \<open>bytes\<close> value is a list of naturals below 256.
\<close>

section \<open>Encoding\<close>

definition is_surrogate :: "nat \<Rightarrow> bool" where
  "is_surrogate c \<longleftrightarrow> 55296 \<le> c \<and> c \<le> 57343"

definition valid_cp :: "nat \<Rightarrow> bool" where
  "valid_cp c \<longleftrightarrow> c < 1114112 \<and> \<not> is_surrogate c"

definition enc_cp :: "nat \<Rightarrow> nat list" where
  "enc_cp c =
     (if c < 128 then [c]
      else if c < 2048 then [192 + c div 64, 128 + c mod 64]
      else if c < 65536 then [224 + c div 4096, 128 + c div 64 mod 64, 128 + c mod 64]
      else [240 + c div 262144, 128 + c div 4096 mod 64, 128 + c div 64 mod 64, 128 + c mod 64])"

definition encodable :: "str \<Rightarrow> bool" where
  "encodable s \<longleftrightarrow> list_all valid_cp s"

definition enc_str :: "str \<Rightarrow> nat list" where
  "enc_str s = concat (map enc_cp s)"

text \<open>\<open>s.encode("utf-8")\<close> and \<open>len(s.encode("utf-8"))\<close>.\<close>

definition utf8_encode :: "str \<Rightarrow> nat list res" where
  "utf8_encode s =
     (if encodable s then Inr (enc_str s) else Inl (UnicodeError (lit ''surrogates not allowed'')))"

definition utf8_len :: "str \<Rightarrow> nat" where
  "utf8_len s = length (enc_str s)"

lemma enc_str_Nil [simp]: "enc_str [] = []"
  by (simp add: enc_str_def)

lemma enc_str_Cons [simp]: "enc_str (c # s) = enc_cp c @ enc_str s"
  by (simp add: enc_str_def)

lemma enc_str_append [simp]: "enc_str (s @ t) = enc_str s @ enc_str t"
  by (simp add: enc_str_def)

lemma encodable_Nil [simp]: "encodable []"
  by (simp add: encodable_def)

lemma encodable_Cons [simp]: "encodable (c # s) \<longleftrightarrow> valid_cp c \<and> encodable s"
  by (simp add: encodable_def)

lemma encodable_append [simp]: "encodable (s @ t) \<longleftrightarrow> encodable s \<and> encodable t"
  by (simp add: encodable_def)

lemma utf8_len_append [simp]: "utf8_len (s @ t) = utf8_len s + utf8_len t"
  by (simp add: utf8_len_def)

lemma utf8_len_Nil [simp]: "utf8_len [] = 0"
  by (simp add: utf8_len_def)

lemma utf8_len_Cons: "utf8_len (c # s) = length (enc_cp c) + utf8_len s"
  by (simp add: utf8_len_def)

lemma length_enc_ascii: "c < 128 \<Longrightarrow> length (enc_cp c) = 1"
  by (simp add: enc_cp_def)

lemma enc_cp_nonempty [simp]: "enc_cp c \<noteq> []"
  by (simp add: enc_cp_def)

lemma enc_cp_bytes: "valid_cp c \<Longrightarrow> b \<in> set (enc_cp c) \<Longrightarrow> b < 256"
  by (auto simp: enc_cp_def valid_cp_def split: if_splits)

lemma encodable_prefix: "prefix p s \<Longrightarrow> encodable s \<Longrightarrow> encodable p"
  by (auto simp: prefix_def)

lemma encodable_suffix: "suffix p s \<Longrightarrow> encodable s \<Longrightarrow> encodable p"
  by (auto simp: suffix_def)

lemma encodable_lit [simp]: "encodable (lit s)"
  by (auto simp: encodable_def list_all_iff valid_cp_def is_surrogate_def dest: set_lit)

lemma utf8_encode_Inr_iff [simp]: "utf8_encode s = Inr bs \<longleftrightarrow> encodable s \<and> bs = enc_str s"
  by (auto simp: utf8_encode_def)

lemma length_le_utf8_len: "length s \<le> utf8_len s"
proof (induction s)
  case (Cons c s)
  have "1 \<le> length (enc_cp c)" by (simp add: enc_cp_def)
  with Cons show ?case by (simp add: utf8_len_def)
qed simp

section \<open>Decoding\<close>

definition is_cont :: "nat \<Rightarrow> bool" where
  "is_cont b \<longleftrightarrow> 128 \<le> b \<and> b < 192"

text \<open>The second byte a three- or four-byte lead admits.\<close>

definition second_ok :: "nat \<Rightarrow> nat \<Rightarrow> bool" where
  "second_ok b b2 \<longleftrightarrow>
     is_cont b2 \<and> (b = 224 \<longrightarrow> 160 \<le> b2) \<and> (b = 237 \<longrightarrow> b2 < 160) \<and>
     (b = 240 \<longrightarrow> 144 \<le> b2) \<and> (b = 244 \<longrightarrow> b2 < 144)"

text \<open>One step at a non-empty input: the code point, or None for an error, and the number
  of bytes it takes.\<close>

fun dec_step :: "nat list \<Rightarrow> nat option \<times> nat" where
  "dec_step [] = (None, 1)"
| "dec_step (b # r) =
     (if b < 128 then (Some b, 1)
      else if 194 \<le> b \<and> b < 224 then
        (case r of
           b2 # _ \<Rightarrow> if is_cont b2 then (Some ((b - 192) * 64 + (b2 - 128)), 2) else (None, 1)
         | [] \<Rightarrow> (None, 1))
      else if 224 \<le> b \<and> b < 240 then
        (case r of
           b2 # r2 \<Rightarrow>
             if \<not> second_ok b b2 then (None, 1)
             else (case r2 of
                b3 # _ \<Rightarrow>
                  if is_cont b3
                  then (Some ((b - 224) * 4096 + (b2 - 128) * 64 + (b3 - 128)), 3)
                  else (None, 2)
              | [] \<Rightarrow> (None, 2))
         | [] \<Rightarrow> (None, 1))
      else if 240 \<le> b \<and> b < 245 then
        (case r of
           b2 # r2 \<Rightarrow>
             if \<not> second_ok b b2 then (None, 1)
             else (case r2 of
                b3 # r3 \<Rightarrow>
                  if \<not> is_cont b3 then (None, 2)
                  else (case r3 of
                     b4 # _ \<Rightarrow>
                       if is_cont b4
                       then (Some ((b - 240) * 262144 + (b2 - 128) * 4096 + (b3 - 128) * 64 + (b4 - 128)), 4)
                       else (None, 3)
                   | [] \<Rightarrow> (None, 3))
              | [] \<Rightarrow> (None, 2))
         | [] \<Rightarrow> (None, 1))
      else (None, 1))"

lemma dec_step_pos: "0 < snd (dec_step bs)"
  by (cases bs) (auto split: list.split)

function utf8_scan :: "nat list \<Rightarrow> nat option list" where
  "utf8_scan bs =
     (if bs = [] then []
      else fst (dec_step bs) # utf8_scan (drop (snd (dec_step bs)) bs))"
  by pat_completeness auto
termination
  by (relation "measure length") (use dec_step_pos in \<open>auto simp: diff_less\<close>)

declare utf8_scan.simps [simp del]

lemma utf8_scan_Nil [simp]: "utf8_scan [] = []"
  by (simp add: utf8_scan.simps)

lemma utf8_scan_step:
  "bs \<noteq> [] \<Longrightarrow> dec_step bs = (r, k) \<Longrightarrow> utf8_scan bs = r # utf8_scan (drop k bs)"
  by (subst utf8_scan.simps) simp

text \<open>\<open>bytes.decode("utf-8", errors=...)\<close>.\<close>

definition utf8_decode :: "nat list \<Rightarrow> str res" where
  "utf8_decode bs =
     (if None \<in> set (utf8_scan bs) then Inl (UnicodeError (lit ''invalid utf-8''))
      else Inr (map the (utf8_scan bs)))"

definition utf8_decode_ignore :: "nat list \<Rightarrow> str" where
  "utf8_decode_ignore bs = map the (filter (\<lambda>r. r \<noteq> None) (utf8_scan bs))"

definition utf8_decode_replace :: "nat list \<Rightarrow> str" where
  "utf8_decode_replace bs = map (\<lambda>r. case r of Some c \<Rightarrow> c | None \<Rightarrow> 65533) (utf8_scan bs)"

subsection \<open>Reading back what the encoder wrote\<close>

lemma dec_step_3:
  assumes "a < 16" "b < 64" "d < 64" "a = 0 \<longrightarrow> 32 \<le> b" "a = 13 \<longrightarrow> b < (32::nat)"
  shows "dec_step ((224 + a) # (128 + b) # (128 + d) # rest) = (Some (a * 4096 + b * 64 + d), 3)"
  using assms by (simp add: is_cont_def second_ok_def)

lemma dec_step_4:
  assumes "a < 5" "b < 64" "d < 64" "e < 64" "a = 0 \<longrightarrow> 16 \<le> b" "a = 4 \<longrightarrow> b < (16::nat)"
  shows "dec_step ((240 + a) # (128 + b) # (128 + d) # (128 + e) # rest)
         = (Some (a * 262144 + b * 4096 + d * 64 + e), 4)"
  using assms by (simp add: is_cont_def second_ok_def)

lemma dec_step_enc_cp:
  assumes "valid_cp c"
  shows "dec_step (enc_cp c @ rest) = (Some c, length (enc_cp c))"
proof -
  consider "c < 128" | "128 \<le> c" "c < 2048" | "2048 \<le> c" "c < 65536" | "65536 \<le> c" "c < 1114112"
    using assms unfolding valid_cp_def by linarith
  then show ?thesis
  proof cases
    case 1
    then show ?thesis by (simp add: enc_cp_def)
  next
    case 2
    have "2 \<le> c div 64" "c div 64 < 32" using 2 by auto
    moreover have "c div 64 * 64 + c mod 64 = c" by simp
    ultimately show ?thesis using 2 by (simp add: enc_cp_def is_cont_def)
  next
    case 3
    define a b d where "a = c div 4096" and "b = c div 64 mod 64" and "d = c mod 64"
    have "c div 64 = a * 64 + b"
      using div_mult_mod_eq [of "c div 64" 64] div_mult2_eq [of c 64 64] by (simp add: a_def b_def)
    then have c: "c = a * 4096 + b * 64 + d"
      using div_mult_mod_eq [of c 64] by (simp add: d_def)
    have b: "b < 64" and d: "d < 64" by (simp_all add: b_def d_def)
    have "\<not> (55296 \<le> c \<and> c \<le> 57343)" using assms by (simp add: valid_cp_def is_surrogate_def)
    then have "a < 16" "a = 0 \<longrightarrow> 32 \<le> b" "a = 13 \<longrightarrow> b < 32" using 3 c b d by linarith+
    note step = dec_step_3 [OF this(1) b d this(2,3), of rest]
    have "enc_cp c = [224 + a, 128 + b, 128 + d]"
      using 3 by (simp add: enc_cp_def a_def b_def d_def)
    then show ?thesis using step by (simp only: append_Cons append_Nil c [symmetric] list.size) simp
  next
    case 4
    define a b d e
      where "a = c div 262144" and "b = c div 4096 mod 64" and "d = c div 64 mod 64" and "e = c mod 64"
    have "c div 4096 = a * 64 + b"
      using div_mult_mod_eq [of "c div 4096" 64] div_mult2_eq [of c 4096 64] by (simp add: a_def b_def)
    moreover have "c div 64 = c div 4096 * 64 + d"
      using div_mult_mod_eq [of "c div 64" 64] div_mult2_eq [of c 64 64] by (simp add: d_def)
    ultimately have c: "c = a * 262144 + b * 4096 + d * 64 + e"
      using div_mult_mod_eq [of c 64] by (simp add: e_def)
    have b: "b < 64" and d: "d < 64" and e: "e < 64" by (simp_all add: b_def d_def e_def)
    have "a < 5" "a = 0 \<longrightarrow> 16 \<le> b" "a = 4 \<longrightarrow> b < 16" using 4 c b d e by linarith+
    note step = dec_step_4 [OF this(1) b d e this(2,3), of rest]
    have "enc_cp c = [240 + a, 128 + b, 128 + d, 128 + e]"
      using 4 by (simp add: enc_cp_def a_def b_def d_def e_def)
    then show ?thesis using step by (simp only: append_Cons append_Nil c [symmetric] list.size) simp
  qed
qed

lemma utf8_scan_enc_cp:
  "valid_cp c \<Longrightarrow> utf8_scan (enc_cp c @ rest) = Some c # utf8_scan rest"
  using utf8_scan_step [OF _ dec_step_enc_cp, of c rest] by simp

lemma utf8_scan_enc_str:
  "encodable s \<Longrightarrow> utf8_scan (enc_str s @ rest) = map Some s @ utf8_scan rest"
  by (induction s) (simp_all add: utf8_scan_enc_cp)

lemma utf8_decode_enc_str: "encodable s \<Longrightarrow> utf8_decode (enc_str s) = Inr s"
  using utf8_scan_enc_str [of s "[]"] by (auto simp: utf8_decode_def comp_def)

lemma decode_ignore_enc_append:
  "encodable s \<Longrightarrow> utf8_decode_ignore (enc_str s @ rest) = s @ utf8_decode_ignore rest"
  by (simp add: utf8_decode_ignore_def utf8_scan_enc_str comp_def filter_map)

subsection \<open>Cutting an encoding\<close>

text \<open>A proper start of one code point's bytes, and a run of continuation bytes, decode to
  errors only.\<close>

lemma enc_cp_conts:
  assumes "valid_cp c" "0 < k" "b \<in> set (drop k (enc_cp c))"
  shows "is_cont b"
proof -
  have "is_cont b" if "b \<in> set (tl (enc_cp c))"
    using that by (auto simp: enc_cp_def is_cont_def split: if_splits)
  moreover have "set (drop k (enc_cp c)) \<subseteq> set (tl (enc_cp c))"
    using assms(2) by (metis drop_Suc gr0_implies_Suc set_drop_subset)
  ultimately show ?thesis using assms(3) by blast
qed

lemma utf8_scan_conts:
  "\<forall>b \<in> set cs. is_cont b \<Longrightarrow> utf8_scan (cs @ rest) = replicate (length cs) None @ utf8_scan rest"
proof (induction cs)
  case (Cons b cs)
  then have "dec_step ((b # cs) @ rest) = (None, 1)" by (auto simp: is_cont_def)
  then have "utf8_scan ((b # cs) @ rest) = None # utf8_scan (cs @ rest)"
    by (subst utf8_scan_step) auto
  with Cons show ?case by simp
qed simp

lemma dec_step_start:
  assumes "dec_step (xs @ ys) = (Some c, length (xs @ ys))" "xs \<noteq> []" "ys \<noteq> []"
  shows "dec_step xs = (None, length xs)"
proof -
  have le: "snd (dec_step bs) \<le> 4" for bs
    by (cases bs) (auto split: list.split)
  have "length (xs @ ys) \<le> 4" using le [of "xs @ ys"] assms(1) by simp
  moreover have "0 < length ys" "0 < length xs" using assms by simp_all
  ultimately consider (one) a where "xs = [a]" | (two) a b where "xs = [a, b]"
    | (three) a b d where "xs = [a, b, d]"
    by (cases xs; cases "tl xs"; cases "tl (tl xs)"; cases "tl (tl (tl xs))") auto
  then show ?thesis
  proof cases
    case one
    obtain y ys' where "ys = y # ys'" using assms(3) by (cases ys) auto
    then show ?thesis using assms(1) one by (auto split: if_splits list.splits)
  next
    case two
    obtain y ys' where "ys = y # ys'" using assms(3) by (cases ys) auto
    then show ?thesis using assms(1) two by (auto split: if_splits list.splits)
  next
    case three
    obtain y ys' where "ys = y # ys'" using assms(3) by (cases ys) auto
    then show ?thesis using assms(1) three by (auto split: if_splits list.splits)
  qed
qed

lemma dec_step_prefix:
  assumes "valid_cp c" "k < length (enc_cp c)" "0 < k"
  shows "dec_step (take k (enc_cp c)) = (None, k)"
  using dec_step_start [of "take k (enc_cp c)" "drop k (enc_cp c)" c]
    dec_step_enc_cp [OF assms(1), of "[]"] assms(2,3) by simp

lemma utf8_scan_prefix:
  assumes "valid_cp c" "k < length (enc_cp c)"
  shows "utf8_scan (take k (enc_cp c)) = (if k = 0 then [] else [None])"
proof (cases "k = 0")
  case False
  then have "dec_step (take k (enc_cp c)) = (None, k)" using assms dec_step_prefix by simp
  with False have "utf8_scan (take k (enc_cp c)) = None # utf8_scan (drop k (take k (enc_cp c)))"
    by (intro utf8_scan_step) auto
  with False show ?thesis by simp
qed simp

lemma decode_ignore_take:
  "encodable s \<Longrightarrow>
     prefix (utf8_decode_ignore (take n (enc_str s))) s \<and>
     utf8_len (utf8_decode_ignore (take n (enc_str s))) \<le> n \<and>
     (\<forall>p. prefix p s \<and> utf8_len p \<le> n \<longrightarrow>
        length p \<le> length (utf8_decode_ignore (take n (enc_str s))))"
proof (induction s arbitrary: n)
  case Nil
  then show ?case by (simp add: utf8_decode_ignore_def)
next
  case (Cons c s)
  then have c: "valid_cp c" and s: "encodable s" by simp_all
  show ?case
  proof (cases "length (enc_cp c) \<le> n")
    case True
    define m where "m = n - length (enc_cp c)"
    have eq: "utf8_decode_ignore (take n (enc_str (c # s)))
              = c # utf8_decode_ignore (take m (enc_str s))"
      using True decode_ignore_enc_append [of "[c]"] c by (simp add: m_def)
    note IH = Cons.IH [OF s, of m]
    have "length p \<le> Suc (length (utf8_decode_ignore (take m (enc_str s))))"
      if p: "prefix p (c # s)" "utf8_len p \<le> n" for p
    proof (cases p)
      case (Cons c' p')
      then have "prefix p' s" "utf8_len p' \<le> m"
        using p True by (auto simp: utf8_len_def m_def)
      then show ?thesis using IH Cons by simp
    qed simp
    then show ?thesis using IH True unfolding eq by (auto simp: utf8_len_def m_def)
  next
    case False
    then have "utf8_scan (take n (enc_cp c)) = (if n = 0 then [] else [None])"
      using c utf8_scan_prefix by simp
    then have eq: "utf8_decode_ignore (take n (enc_str (c # s))) = []"
      using False by (simp add: utf8_decode_ignore_def)
    have "p = []" if p: "prefix p (c # s)" "utf8_len p \<le> n" for p
      using p False by (cases p) (auto simp: utf8_len_def)
    then show ?thesis unfolding eq by auto
  qed
qed

lemma decode_ignore_drop:
  "encodable s \<Longrightarrow>
     suffix (utf8_decode_ignore (drop n (enc_str s))) s \<and>
     utf8_len (utf8_decode_ignore (drop n (enc_str s))) \<le> utf8_len s - n \<and>
     (\<forall>p. suffix p s \<and> utf8_len p \<le> utf8_len s - n \<longrightarrow>
        length p \<le> length (utf8_decode_ignore (drop n (enc_str s))))"
proof (induction s arbitrary: n)
  case Nil
  then show ?case by (simp add: utf8_decode_ignore_def)
next
  case (Cons c s)
  then have c: "valid_cp c" and s: "encodable s" by simp_all
  consider "n = 0" | "0 < n" "n < length (enc_cp c)" | "length (enc_cp c) \<le> n" by linarith
  then show ?case
  proof cases
    case 1
    then have "utf8_decode_ignore (drop n (enc_str (c # s))) = c # s"
      using decode_ignore_enc_append [of "c # s" "[]"] c s by (simp add: utf8_decode_ignore_def)
    then show ?thesis using 1 by (auto dest: suffix_length_le)
  next
    case 2
    have "\<forall>b \<in> set (drop n (enc_cp c)). is_cont b" using enc_cp_conts c 2 by blast
    then have "utf8_scan (drop n (enc_cp c) @ enc_str s)
               = replicate (length (drop n (enc_cp c))) None @ utf8_scan (enc_str s)"
      by (rule utf8_scan_conts)
    then have eq: "utf8_decode_ignore (drop n (enc_str (c # s))) = s"
      using 2 utf8_scan_enc_str [OF s, of "[]"]
      by (simp add: utf8_decode_ignore_def comp_def filter_map)
    have "length p \<le> length s" if p: "suffix p (c # s)" "utf8_len p \<le> utf8_len (c # s) - n" for p
      using p 2 by (auto simp: suffix_Cons utf8_len_def dest: suffix_length_le)
    then show ?thesis using 2 unfolding eq by (auto simp: suffix_Cons utf8_len_def)
  next
    case 3
    define m where "m = n - length (enc_cp c)"
    have eq: "utf8_decode_ignore (drop n (enc_str (c # s))) = utf8_decode_ignore (drop m (enc_str s))"
      using 3 by (simp add: m_def)
    have len: "utf8_len (c # s) - n = utf8_len s - m" using 3 by (simp add: utf8_len_def m_def)
    note IH = Cons.IH [OF s, of m]
    have "length p \<le> length (utf8_decode_ignore (drop m (enc_str s)))"
      if p: "suffix p (c # s)" "utf8_len p \<le> utf8_len s - m" for p
    proof (cases "p = c # s")
      case True
      have "1 \<le> length (enc_cp c)" by (simp add: enc_cp_def)
      then have False using True p(2) by (simp add: utf8_len_def)
      then show ?thesis ..
    next
      case False
      then show ?thesis using p IH by (auto simp: suffix_Cons)
    qed
    then show ?thesis using IH unfolding eq len by (auto simp: suffix_Cons)
  qed
qed

subsection \<open>ASCII text\<close>

definition ascii :: "str \<Rightarrow> bool" where
  "ascii s \<longleftrightarrow> list_all (\<lambda>c. c < 128) s"

lemma ascii_enc_str: "ascii s \<Longrightarrow> enc_str s = s"
  by (induction s) (simp_all add: ascii_def enc_cp_def)

lemma ascii_encodable: "ascii s \<Longrightarrow> encodable s"
  by (induction s) (simp_all add: ascii_def valid_cp_def is_surrogate_def)

lemma ascii_encode: "ascii s \<Longrightarrow> utf8_encode s = Inr s"
  by (simp add: ascii_enc_str ascii_encodable)

lemma ascii_len: "ascii s \<Longrightarrow> utf8_len s = length s"
  by (simp add: utf8_len_def ascii_enc_str)

lemma ascii_decode_ignore: "ascii s \<Longrightarrow> utf8_decode_ignore s = s"
  using decode_ignore_enc_append [of s "[]"]
  by (simp add: ascii_enc_str ascii_encodable utf8_decode_ignore_def)

lemmas ascii_simps = ascii_encode ascii_len ascii_decode_ignore

section \<open>Decoded text can be encoded\<close>

lemma three_bytes_valid:
  fixes a b d :: nat
  assumes "224 \<le> a" "a < 240" "128 \<le> b" "b < 192" "128 \<le> d" "d < 192" "a = 224 \<longrightarrow> 160 \<le> b" "a = 237 \<longrightarrow> b < 160"
  shows "valid_cp ((a - 224) * 4096 + (b - 128) * 64 + d - 128)"
proof -
  consider "a \<le> 236" | "a = 237" | "238 \<le> a" by linarith
  then show ?thesis
    using assms by cases (auto simp: valid_cp_def is_surrogate_def diff_mult_distrib)
qed

lemma four_bytes_valid:
  fixes a b d e :: nat
  assumes "240 \<le> a" "a < 245" "128 \<le> b" "b < 192" "128 \<le> d" "d < 192" "128 \<le> e" "e < 192"
    "a = 240 \<longrightarrow> 144 \<le> b" "a = 244 \<longrightarrow> b < 144"
  shows "valid_cp ((a - 240) * 262144 + (b - 128) * 4096 + (d - 128) * 64 + e - 128)"
proof -
  consider "a = 240" | "a = 244" | "241 \<le> a" "a \<le> 243" using assms by linarith
  then show ?thesis
    using assms by cases (auto simp: valid_cp_def is_surrogate_def diff_mult_distrib)
qed

lemma short_valid: "c < 2048 \<Longrightarrow> valid_cp c"
  by (simp add: valid_cp_def is_surrogate_def)

lemma dec_step_valid: "dec_step bs = (Some c, k) \<Longrightarrow> valid_cp c"
  by (cases bs)
    (auto simp: second_ok_def is_cont_def short_valid split: if_splits list.splits
      intro!: three_bytes_valid four_bytes_valid)

lemma scan_valid: "Some c \<in> set (utf8_scan bs) \<Longrightarrow> valid_cp c"
proof (induction bs rule: utf8_scan.induct)
  case (1 bs)
  obtain r k where d: "dec_step bs = (r, k)" by (cases "dec_step bs")
  show ?case
  proof (cases "bs = []")
    case False
    then show ?thesis using 1 d dec_step_valid [of bs c k] by (auto simp: utf8_scan_step [OF False d])
  qed (use 1 in simp)
qed

lemma decode_replace_encodable: "encodable (utf8_decode_replace bs)"
  using scan_valid [of _ bs]
  by (auto simp: encodable_def list_all_iff utf8_decode_replace_def valid_cp_def is_surrogate_def split: option.splits)

lemma decode_encodable: "utf8_decode bs = Inr s \<Longrightarrow> encodable s"
  using scan_valid [of _ bs]
  by (auto simp: encodable_def list_all_iff utf8_decode_def split: if_splits) (metis not_None_eq option.sel)

end
