(* ===== verification/Models.thy ===== *)
theory Models
  imports Utf8
begin

text \<open>
  The data contracts of \<open>models.py\<close>: identifiers and their coercion, the status and event
  vocabularies, the environment requests with the checks of their \<open>__post_init__\<close>, tool
  calls and results, and the event envelope.

  A constructor that validates takes the value it validates as the JSON value it is in the
  program (so that "not a string" and "a boolean is no integer" are branches) and returns
  the record, whose fields have the type the check established.
\<close>

section \<open>Identifiers\<close>

datatype id_kind = AgentId | SessionId | EventId | CorrelationId | ProviderToolCallId

instantiation id_kind :: linorder
begin

fun id_kind_rank :: "id_kind \<Rightarrow> nat" where
  "id_kind_rank AgentId = 0"
| "id_kind_rank SessionId = 1"
| "id_kind_rank EventId = 2"
| "id_kind_rank CorrelationId = 3"
| "id_kind_rank ProviderToolCallId = 4"

definition less_eq_id_kind :: "id_kind \<Rightarrow> id_kind \<Rightarrow> bool" where
  "less_eq_id_kind k l \<longleftrightarrow> id_kind_rank k \<le> id_kind_rank l"

definition less_id_kind :: "id_kind \<Rightarrow> id_kind \<Rightarrow> bool" where
  "less_id_kind k l \<longleftrightarrow> id_kind_rank k < id_kind_rank l"

instance
proof
  fix k l :: id_kind
  show "k \<le> l \<Longrightarrow> l \<le> k \<Longrightarrow> k = l"
    by (cases k; cases l) (simp_all add: less_eq_id_kind_def)
qed (auto simp: less_eq_id_kind_def less_id_kind_def)

end

text \<open>A value passed where an identifier is expected: a plain string, an instance of one
  of the identifier classes, or something else.\<close>

datatype id_arg = PlainStr str | Ident id_kind str | NotStr

definition is_alnum :: "nat \<Rightarrow> bool" where
  "is_alnum c \<longleftrightarrow> (65 \<le> c \<and> c \<le> 90) \<or> (97 \<le> c \<and> c \<le> 122) \<or> (48 \<le> c \<and> c \<le> 57)"

definition id_char :: "nat \<Rightarrow> bool" where
  "id_char c \<longleftrightarrow> is_alnum c \<or> c = 95 \<or> c = 46 \<or> c = 58 \<or> c = 45"

text \<open>\<open>_IDENTIFIER_PATTERN.fullmatch\<close>.\<close>

definition identifier_pattern :: "str \<Rightarrow> bool" where
  "identifier_pattern s \<longleftrightarrow>
     (case s of [] \<Rightarrow> False | c # r \<Rightarrow> is_alnum c \<and> list_all id_char r \<and> length r \<le> 127)"

definition provider_id_ok :: "str \<Rightarrow> bool" where
  "provider_id_ok s \<longleftrightarrow> s \<noteq> [] \<and> \<not> has_nul s"

definition id_ok :: "id_kind \<Rightarrow> str \<Rightarrow> bool" where
  "id_ok k s = (if k = ProviderToolCallId then provider_id_ok s else identifier_pattern s)"

fun kind_name :: "id_kind \<Rightarrow> str" where
  "kind_name AgentId = lit ''AgentId''"
| "kind_name SessionId = lit ''SessionId''"
| "kind_name EventId = lit ''EventId''"
| "kind_name CorrelationId = lit ''CorrelationId''"
| "kind_name ProviderToolCallId = lit ''ProviderToolCallId''"

text \<open>\<open>Identifier.__new__\<close> of a class other than \<open>ProviderToolCallId\<close>, and that class's own.\<close>

fun Identifier_new :: "id_kind \<Rightarrow> id_arg \<Rightarrow> str res" where
  "Identifier_new k NotStr = Inl (TypeError (kind_name k @ lit '' must be a string''))"
| "Identifier_new k (Ident k' s) =
     (if k' \<noteq> k then Inl (TypeError (kind_name k @ lit '' cannot wrap '' @ kind_name k'))
      else if identifier_pattern s then Inr s
      else Inl (ValueError (kind_name k @ lit '' must be 1-128 characters of letters, digits, '_', '.', ':' or '-'')))"
| "Identifier_new k (PlainStr s) =
     (if identifier_pattern s then Inr s
      else Inl (ValueError (kind_name k @ lit '' must be 1-128 characters of letters, digits, '_', '.', ':' or '-'')))"

fun ProviderToolCallId_new :: "id_arg \<Rightarrow> str res" where
  "ProviderToolCallId_new NotStr = Inl (TypeError (lit ''ProviderToolCallId must be a string''))"
| "ProviderToolCallId_new (Ident k s) =
     (if k \<noteq> ProviderToolCallId
      then Inl (TypeError (lit ''ProviderToolCallId cannot wrap '' @ kind_name k))
      else if s = [] \<or> has_nul s
      then Inl (ValueError (lit ''ProviderToolCallId must be non-empty and NUL-free''))
      else Inr s)"
| "ProviderToolCallId_new (PlainStr s) =
     (if s = [] \<or> has_nul s
      then Inl (ValueError (lit ''ProviderToolCallId must be non-empty and NUL-free''))
      else Inr s)"

definition new_identifier :: "id_kind \<Rightarrow> id_arg \<Rightarrow> str res" where
  "new_identifier k v =
     (if k = ProviderToolCallId then ProviderToolCallId_new v else Identifier_new k v)"

text \<open>\<open>_coerce_identifier\<close>: an instance of the class passes unchanged, one of another
  identifier class is refused, a plain string is validated.\<close>

fun coerce_identifier :: "id_arg \<Rightarrow> id_kind \<Rightarrow> str res" where
  "coerce_identifier (Ident k' s) k =
     (if k' = k then Inr s
      else Inl (TypeError (lit ''expected '' @ kind_name k @ lit '', got '' @ kind_name k')))"
| "coerce_identifier v k = new_identifier k v"

text \<open>An instance of a class was validated when it was made.\<close>

fun id_arg_wf :: "id_arg \<Rightarrow> bool" where
  "id_arg_wf (Ident k s) = id_ok k s"
| "id_arg_wf _ = True"

lemma new_identifier_ok: "new_identifier k v = Inr s \<Longrightarrow> id_ok k s"
  by (cases v) (auto simp: new_identifier_def id_ok_def provider_id_ok_def split: if_splits)

lemma coerce_identifier_ok: "id_arg_wf v \<Longrightarrow> coerce_identifier v k = Inr s \<Longrightarrow> id_ok k s"
  by (cases v) (auto split: if_splits dest: new_identifier_ok)

lemma coerce_identifier_plain:
  "coerce_identifier (PlainStr s) k = Inr t \<longleftrightarrow> id_ok k s \<and> t = s"
  by (auto simp: new_identifier_def id_ok_def provider_id_ok_def)

lemma coerce_identifier_idem:
  "id_arg_wf v \<Longrightarrow> coerce_identifier v k = Inr s \<Longrightarrow> coerce_identifier (PlainStr s) k = Inr s"
  by (metis coerce_identifier_plain coerce_identifier_ok)

lemma coerce_identifier_class:
  "coerce_identifier (Ident k' s) k = Inr t \<longleftrightarrow> k' = k \<and> t = s"
  by auto

fun json_id_arg :: "json \<Rightarrow> id_arg" where
  "json_id_arg (JStr s) = PlainStr s"
| "json_id_arg _ = NotStr"

lemma id_arg_wf_json [simp]: "id_arg_wf (json_id_arg j)"
  by (cases j) auto

text \<open>\<open>_coerce_identifier\<close> of an optional field.\<close>

fun coerce_optional :: "json \<Rightarrow> id_kind \<Rightarrow> str option res" where
  "coerce_optional JNull k = Inr None"
| "coerce_optional v k = bindR (coerce_identifier (json_id_arg v) k) (\<lambda>s. Inr (Some s))"

lemma coerce_optional_ok:
  "coerce_optional v k = Inr r \<Longrightarrow> (case r of None \<Rightarrow> v = JNull | Some s \<Rightarrow> v = JStr s \<and> id_ok k s)"
proof (cases v)
  case (JStr s)
  then show "coerce_optional v k = Inr r \<Longrightarrow> ?thesis"
    by (auto simp: bindR_Inr_iff coerce_identifier_plain simp del: coerce_identifier.simps)
qed (auto simp: bindR_Inr_iff new_identifier_def split: if_splits)

section \<open>Vocabularies\<close>

datatype EventType =
    SESSION_START | AGENT_START | USER_MESSAGE | ASSISTANT_MESSAGE | TOOL_CALL
  | POLICY_DECISION | APPROVAL_REQUEST | TOOL_RESULT | COMPACTION | RETRY | TURN_END
  | ERROR | AGENT_END | SESSION_END

fun event_type_str :: "EventType \<Rightarrow> str" where
  "event_type_str SESSION_START = lit ''session_start''"
| "event_type_str AGENT_START = lit ''agent_start''"
| "event_type_str USER_MESSAGE = lit ''user_message''"
| "event_type_str ASSISTANT_MESSAGE = lit ''assistant_message''"
| "event_type_str TOOL_CALL = lit ''tool_call''"
| "event_type_str POLICY_DECISION = lit ''policy_decision''"
| "event_type_str APPROVAL_REQUEST = lit ''approval_request''"
| "event_type_str TOOL_RESULT = lit ''tool_result''"
| "event_type_str COMPACTION = lit ''compaction''"
| "event_type_str RETRY = lit ''retry''"
| "event_type_str TURN_END = lit ''turn_end''"
| "event_type_str ERROR = lit ''error''"
| "event_type_str AGENT_END = lit ''agent_end''"
| "event_type_str SESSION_END = lit ''session_end''"

lemma event_type_str_inject [simp]: "event_type_str s = event_type_str t \<longleftrightarrow> s = t"
  by (cases s; cases t) simp_all

datatype RuntimeState =
  RUNNING | WAITING_FOR_APPROVAL | COMPLETED_TURN | LIMIT_REACHED | INTERRUPTED | FAILED

fun runtime_state_str :: "RuntimeState \<Rightarrow> str" where
  "runtime_state_str RUNNING = lit ''RUNNING''"
| "runtime_state_str WAITING_FOR_APPROVAL = lit ''WAITING_FOR_APPROVAL''"
| "runtime_state_str COMPLETED_TURN = lit ''COMPLETED_TURN''"
| "runtime_state_str LIMIT_REACHED = lit ''LIMIT_REACHED''"
| "runtime_state_str INTERRUPTED = lit ''INTERRUPTED''"
| "runtime_state_str FAILED = lit ''FAILED''"

lemma runtime_state_str_inject [simp]: "runtime_state_str s = runtime_state_str t \<longleftrightarrow> s = t"
  by (cases s; cases t) simp_all

datatype EnvironmentStatus = EnvSuccess | EnvError | EnvCancelled | EnvTimeout

datatype ToolResultStatus =
  ResSuccess | ResError | ResDenied | ResInvalid | ResCancelled | ResTimeout

fun tool_status_str :: "ToolResultStatus \<Rightarrow> str" where
  "tool_status_str ResSuccess = lit ''success''"
| "tool_status_str ResError = lit ''error''"
| "tool_status_str ResDenied = lit ''denied''"
| "tool_status_str ResInvalid = lit ''invalid''"
| "tool_status_str ResCancelled = lit ''cancelled''"
| "tool_status_str ResTimeout = lit ''timeout''"

lemma tool_status_str_inject [simp]: "tool_status_str s = tool_status_str t \<longleftrightarrow> s = t"
  by (cases s; cases t) simp_all

section \<open>Validators\<close>

text \<open>A Python number that may be an \<open>int\<close> or a \<open>float\<close>.\<close>

datatype pynum = PInt int | PFloat pyfloat

fun json_str :: "json \<Rightarrow> str" where
  "json_str (JStr s) = s"
| "json_str _ = []"

fun json_bool :: "json \<Rightarrow> bool" where
  "json_bool (JBool b) = b"
| "json_bool _ = False"

fun json_int :: "json \<Rightarrow> int" where
  "json_int (JInt i) = i"
| "json_int _ = 0"

fun json_int_option :: "json \<Rightarrow> int option" where
  "json_int_option (JInt i) = Some i"
| "json_int_option _ = None"

fun json_num_option :: "json \<Rightarrow> pynum option" where
  "json_num_option (JInt i) = Some (PInt i)"
| "json_num_option (JFloat f) = Some (PFloat f)"
| "json_num_option _ = None"

fun is_jstr :: "json \<Rightarrow> bool" where
  "is_jstr (JStr _) = True"
| "is_jstr _ = False"

fun is_jbool :: "json \<Rightarrow> bool" where
  "is_jbool (JBool _) = True"
| "is_jbool _ = False"

text \<open>\<open>_validate_nonnegative(value, name, integer=...)\<close>; a boolean is an \<open>int\<close> for
  \<open>isinstance\<close> and is refused first.\<close>

fun validate_nonnegative :: "json \<Rightarrow> str \<Rightarrow> bool \<Rightarrow> unit res" where
  "validate_nonnegative JNull name integer = Inr ()"
| "validate_nonnegative (JInt i) name integer =
     (if i < 0 then Inl (ValueError (name @ lit '' must be non-negative'')) else Inr ())"
| "validate_nonnegative (JFloat f) name integer =
     (if integer then Inl (TypeError (name @ lit '' must be a non-negative integer or None''))
      else (case f of
          Finite q \<Rightarrow> if q < 0 then Inl (ValueError (name @ lit '' must be non-negative'')) else Inr ()
        | _ \<Rightarrow> Inl (ValueError (name @ lit '' must be finite''))))"
| "validate_nonnegative _ name integer =
     Inl (TypeError (name @ lit '' must be a non-negative '' @
          (if integer then lit ''integer'' else lit ''number'') @ lit '' or None''))"

text \<open>\<open>_validate_logical_path\<close>.\<close>

fun validate_logical_path :: "json \<Rightarrow> str \<Rightarrow> bool \<Rightarrow> unit res" where
  "validate_logical_path (JStr s) name allow_empty =
     (if \<not> allow_empty \<and> s = [] then Inl (ValueError (name @ lit '' must not be empty''))
      else if has_nul s then Inl (ValueError (name @ lit '' must not contain NUL''))
      else Inr ())"
| "validate_logical_path _ name allow_empty = Inl (TypeError (name @ lit '' must be a string''))"

definition nonneg_int_field :: "json \<Rightarrow> bool" where
  "nonneg_int_field v \<longleftrightarrow> v = JNull \<or> (\<exists>i \<ge> 0. v = JInt i)"

lemma validate_nonnegative_int [simp]:
  "validate_nonnegative v name True = Inr u \<longleftrightarrow> nonneg_int_field v"
  by (cases v) (auto simp: nonneg_int_field_def)

lemma validate_logical_path_ok [simp]:
  "validate_logical_path v name e = Inr u \<longleftrightarrow> (\<exists>s. v = JStr s \<and> (e \<or> s \<noteq> []) \<and> \<not> has_nul s)"
  by (cases v) auto

lemma nonneg_int_field_option:
  "nonneg_int_field v \<Longrightarrow> (case json_int_option v of None \<Rightarrow> v = JNull | Some i \<Rightarrow> 0 \<le> i)"
  by (auto simp: nonneg_int_field_def)

section \<open>Environment requests\<close>

record ReadFileRequest =
  rf_path :: str
  rf_start_line :: "int option"
  rf_end_line :: "int option"
  rf_max_bytes :: "int option"

definition mk_ReadFileRequest :: "json \<Rightarrow> json \<Rightarrow> json \<Rightarrow> json \<Rightarrow> ReadFileRequest res" where
  "mk_ReadFileRequest path start_line end_line max_bytes =
     bindR (validate_logical_path path (lit ''path'') False) (\<lambda>_.
     bindR (validate_nonnegative start_line (lit ''start_line'') True) (\<lambda>_.
     bindR (validate_nonnegative end_line (lit ''end_line'') True) (\<lambda>_.
     bindR (validate_nonnegative max_bytes (lit ''max_bytes'') True) (\<lambda>_.
     if start_line \<noteq> JNull \<and> end_line \<noteq> JNull \<and> json_int end_line < json_int start_line
     then Inl (ValueError (lit ''end_line must be greater than or equal to start_line''))
     else Inr \<lparr>rf_path = json_str path, rf_start_line = json_int_option start_line,
               rf_end_line = json_int_option end_line, rf_max_bytes = json_int_option max_bytes\<rparr>))))"

record ListFilesRequest =
  lf_path :: str
  lf_recursive :: bool
  lf_max_entries :: "int option"

definition mk_ListFilesRequest :: "json \<Rightarrow> json \<Rightarrow> json \<Rightarrow> ListFilesRequest res" where
  "mk_ListFilesRequest path recursive max_entries =
     bindR (validate_logical_path path (lit ''path'') True) (\<lambda>_.
     bindR (guardR (is_jbool recursive) (TypeError (lit ''recursive must be a boolean''))) (\<lambda>_.
     bindR (validate_nonnegative max_entries (lit ''max_entries'') True) (\<lambda>_.
     Inr \<lparr>lf_path = json_str path, lf_recursive = json_bool recursive,
          lf_max_entries = json_int_option max_entries\<rparr>)))"

record SearchRequest =
  sr_query :: str
  sr_path :: str
  sr_use_regex :: bool
  sr_max_results :: "int option"
  sr_max_bytes :: "int option"

definition mk_SearchRequest :: "json \<Rightarrow> json \<Rightarrow> json \<Rightarrow> json \<Rightarrow> json \<Rightarrow> SearchRequest res" where
  "mk_SearchRequest query path use_regex max_results max_bytes =
     bindR (guardR (is_jstr query \<and> json_str query \<noteq> []) (ValueError (lit ''query must not be empty''))) (\<lambda>_.
     bindR (guardR (\<not> has_nul (json_str query)) (ValueError (lit ''query must not contain NUL''))) (\<lambda>_.
     bindR (validate_logical_path path (lit ''path'') True) (\<lambda>_.
     bindR (guardR (is_jbool use_regex) (TypeError (lit ''use_regex must be a boolean''))) (\<lambda>_.
     bindR (validate_nonnegative max_results (lit ''max_results'') True) (\<lambda>_.
     bindR (validate_nonnegative max_bytes (lit ''max_bytes'') True) (\<lambda>_.
     Inr \<lparr>sr_query = json_str query, sr_path = json_str path, sr_use_regex = json_bool use_regex,
          sr_max_results = json_int_option max_results,
          sr_max_bytes = json_int_option max_bytes\<rparr>))))))"

record WriteFileRequest =
  wf_path :: str
  wf_content :: str
  wf_max_bytes :: "int option"

definition mk_WriteFileRequest :: "json \<Rightarrow> json \<Rightarrow> json \<Rightarrow> WriteFileRequest res" where
  "mk_WriteFileRequest path content max_bytes =
     bindR (validate_logical_path path (lit ''path'') False) (\<lambda>_.
     bindR (guardR (is_jstr content) (TypeError (lit ''content must be a string''))) (\<lambda>_.
     bindR (guardR (\<not> has_nul (json_str content)) (ValueError (lit ''content must not contain NUL''))) (\<lambda>_.
     bindR (validate_nonnegative max_bytes (lit ''max_bytes'') True) (\<lambda>_.
     Inr \<lparr>wf_path = json_str path, wf_content = json_str content,
          wf_max_bytes = json_int_option max_bytes\<rparr>))))"

record EditFileRequest =
  ef_path :: str
  ef_old_text :: str
  ef_new_text :: str
  ef_expected_replacements :: "int option"

definition mk_EditFileRequest :: "json \<Rightarrow> json \<Rightarrow> json \<Rightarrow> json \<Rightarrow> EditFileRequest res" where
  "mk_EditFileRequest path old_text new_text expected_replacements =
     bindR (validate_logical_path path (lit ''path'') False) (\<lambda>_.
     bindR (guardR (is_jstr old_text \<and> json_str old_text \<noteq> []) (ValueError (lit ''old_text must not be empty''))) (\<lambda>_.
     bindR (guardR (is_jstr new_text) (TypeError (lit ''new_text must be a string''))) (\<lambda>_.
     bindR (guardR (\<not> has_nul (json_str old_text) \<and> \<not> has_nul (json_str new_text))
              (ValueError (lit ''edit text must not contain NUL''))) (\<lambda>_.
     bindR (validate_nonnegative expected_replacements (lit ''expected_replacements'') True) (\<lambda>_.
     bindR (guardR (expected_replacements \<noteq> JInt 0)
              (ValueError (lit ''expected_replacements must be greater than zero''))) (\<lambda>_.
     Inr \<lparr>ef_path = json_str path, ef_old_text = json_str old_text,
          ef_new_text = json_str new_text,
          ef_expected_replacements = json_int_option expected_replacements\<rparr>))))))"

record RunCommandRequest =
  rc_command :: str
  rc_timeout_seconds :: "pynum option"
  rc_max_output_bytes :: "int option"
  rc_working_directory :: "str option"

definition mk_RunCommandRequest :: "json \<Rightarrow> json \<Rightarrow> json \<Rightarrow> json \<Rightarrow> RunCommandRequest res" where
  "mk_RunCommandRequest command timeout_seconds max_output_bytes working_directory =
     bindR (guardR (is_jstr command \<and> strip (json_str command) \<noteq> [])
              (ValueError (lit ''command must not be empty''))) (\<lambda>_.
     bindR (guardR (\<not> has_nul (json_str command)) (ValueError (lit ''command must not contain NUL''))) (\<lambda>_.
     bindR (validate_nonnegative timeout_seconds (lit ''timeout_seconds'') False) (\<lambda>_.
     bindR (validate_nonnegative max_output_bytes (lit ''max_output_bytes'') True) (\<lambda>_.
     bindR (if working_directory = JNull then Inr ()
            else validate_logical_path working_directory (lit ''working_directory'') True) (\<lambda>_.
     Inr \<lparr>rc_command = json_str command, rc_timeout_seconds = json_num_option timeout_seconds,
          rc_max_output_bytes = json_int_option max_output_bytes,
          rc_working_directory = (if working_directory = JNull then None
                                  else Some (json_str working_directory))\<rparr>)))))"

subsection \<open>What an accepted request guarantees\<close>

lemma mk_ReadFileRequest_Inr:
  "mk_ReadFileRequest p s e m = Inr r \<longleftrightarrow>
     (\<exists>path. p = JStr path \<and> path \<noteq> [] \<and> \<not> has_nul path \<and> r = \<lparr>rf_path = path,
        rf_start_line = json_int_option s, rf_end_line = json_int_option e, rf_max_bytes = json_int_option m\<rparr>) \<and>
     nonneg_int_field s \<and> nonneg_int_field e \<and> nonneg_int_field m \<and>
     \<not> (s \<noteq> JNull \<and> e \<noteq> JNull \<and> json_int e < json_int s)"
  by (auto simp: mk_ReadFileRequest_def bindR_Inr_iff)

lemma mk_EditFileRequest_Inr:
  "mk_EditFileRequest p old new n = Inr r \<Longrightarrow>
     ef_path r \<noteq> [] \<and> \<not> has_nul (ef_path r) \<and> ef_old_text r \<noteq> [] \<and> \<not> has_nul (ef_old_text r) \<and>
     \<not> has_nul (ef_new_text r) \<and>
     (case ef_expected_replacements r of None \<Rightarrow> n = JNull | Some k \<Rightarrow> 1 \<le> k)"
  by (cases n) (auto simp: mk_EditFileRequest_def bindR_Inr_iff nonneg_int_field_def split: if_splits)

lemma mk_RunCommandRequest_Inr:
  "mk_RunCommandRequest c t m w = Inr r \<Longrightarrow>
     strip (rc_command r) \<noteq> [] \<and> \<not> has_nul (rc_command r) \<and>
     (\<forall>d. rc_working_directory r = Some d \<longrightarrow> \<not> has_nul d)"
  by (auto simp: mk_RunCommandRequest_def bindR_Inr_iff split: if_splits)

section \<open>Tool calls and results\<close>

record ToolCall =
  tc_correlation_id :: str
  tc_name :: str
  tc_raw_arguments :: str
  tc_provider_tool_call_id :: "str option"
  tc_parsed_arguments :: "jobj option"

text \<open>\<open>ToolCall.__init__\<close> with the raw text of the arguments, as the agent loop calls it:
  the identifiers are coerced and the name is checked.\<close>

definition mk_ToolCall ::
  "id_arg \<Rightarrow> str \<Rightarrow> str \<Rightarrow> id_arg option \<Rightarrow> jobj option \<Rightarrow> ToolCall res" where
  "mk_ToolCall cid name raw pid parsed =
     bindR (coerce_identifier cid CorrelationId) (\<lambda>c.
     bindR (guardR (name \<noteq> []) (ValueError (lit ''tool name must not be empty''))) (\<lambda>_.
     bindR (case pid of None \<Rightarrow> Inr None
            | Some v \<Rightarrow> bindR (coerce_identifier v ProviderToolCallId) (\<lambda>s. Inr (Some s))) (\<lambda>p.
     Inr \<lparr>tc_correlation_id = c, tc_name = name, tc_raw_arguments = raw,
          tc_provider_tool_call_id = p, tc_parsed_arguments = parsed\<rparr>)))"

record ToolResult =
  tr_correlation_id :: str
  tr_status :: ToolResultStatus
  tr_text :: str
  tr_provider_tool_call_id :: "str option"
  tr_metadata :: jobj
  tr_truncated :: bool
  tr_original_length :: "int option"
  tr_duration_seconds :: "pyfloat option"
  tr_exit_code :: "int option"
  tr_timed_out :: bool
  tr_path :: "str option"

text \<open>The checks of \<open>ToolResult.__post_init__\<close> that a value of the record's type can fail.\<close>

definition ToolResult_post_init :: "ToolResult \<Rightarrow> ToolResult res" where
  "ToolResult_post_init r =
     bindR (coerce_identifier (PlainStr (tr_correlation_id r)) CorrelationId) (\<lambda>c.
     bindR (case tr_provider_tool_call_id r of None \<Rightarrow> Inr None
            | Some p \<Rightarrow> bindR (coerce_identifier (PlainStr p) ProviderToolCallId) (\<lambda>s. Inr (Some s))) (\<lambda>p.
     bindR (case tr_original_length r of None \<Rightarrow> Inr ()
            | Some n \<Rightarrow> validate_nonnegative (JInt n) (lit ''original_length'') True) (\<lambda>_.
     bindR (case tr_duration_seconds r of None \<Rightarrow> Inr ()
            | Some d \<Rightarrow> validate_nonnegative (JFloat d) (lit ''duration_seconds'') False) (\<lambda>_.
     bindR (case tr_path r of None \<Rightarrow> Inr ()
            | Some q \<Rightarrow> validate_logical_path (JStr q) (lit ''path'') False) (\<lambda>_.
     Inr (r\<lparr>tr_correlation_id := c, tr_provider_tool_call_id := p\<rparr>))))))"

definition ToolResult_ok :: "ToolResult \<Rightarrow> bool" where
  "ToolResult_ok r \<longleftrightarrow>
     id_ok CorrelationId (tr_correlation_id r) \<and>
     (\<forall>p. tr_provider_tool_call_id r = Some p \<longrightarrow> id_ok ProviderToolCallId p) \<and>
     (\<forall>n. tr_original_length r = Some n \<longrightarrow> 0 \<le> n) \<and>
     (\<forall>d. tr_duration_seconds r = Some d \<longrightarrow> (\<exists>q \<ge> 0. d = Finite q)) \<and>
     (\<forall>q. tr_path r = Some q \<longrightarrow> q \<noteq> [] \<and> \<not> has_nul q)"

lemma validate_nonnegative_float:
  "validate_nonnegative (JFloat d) name False = Inr u \<longleftrightarrow> (\<exists>q \<ge> 0. d = Finite q)"
  by (cases d) auto

lemma ToolResult_post_init_iff: "ToolResult_post_init r = Inr r' \<longleftrightarrow> ToolResult_ok r \<and> r' = r"
proof -
  have c: "coerce_identifier (PlainStr (tr_correlation_id r)) CorrelationId = Inr c
           \<longleftrightarrow> id_ok CorrelationId (tr_correlation_id r) \<and> c = tr_correlation_id r" for c
    by (rule coerce_identifier_plain)
  have p: "(case tr_provider_tool_call_id r of None \<Rightarrow> Inr None
            | Some p \<Rightarrow> bindR (coerce_identifier (PlainStr p) ProviderToolCallId) (\<lambda>s. Inr (Some s))) = Inr p
           \<longleftrightarrow> (\<forall>p. tr_provider_tool_call_id r = Some p \<longrightarrow> id_ok ProviderToolCallId p)
               \<and> p = tr_provider_tool_call_id r" for p
    by (cases "tr_provider_tool_call_id r")
      (auto simp: bindR_Inr_iff coerce_identifier_plain simp del: coerce_identifier.simps)
  have l: "(case tr_original_length r of None \<Rightarrow> Inr ()
            | Some n \<Rightarrow> validate_nonnegative (JInt n) (lit ''original_length'') True) = Inr u
           \<longleftrightarrow> (\<forall>n. tr_original_length r = Some n \<longrightarrow> 0 \<le> n)" for u
    by (cases "tr_original_length r") (auto simp: nonneg_int_field_def)
  have d: "(case tr_duration_seconds r of None \<Rightarrow> Inr ()
            | Some d \<Rightarrow> validate_nonnegative (JFloat d) (lit ''duration_seconds'') False) = Inr u
           \<longleftrightarrow> (\<forall>d. tr_duration_seconds r = Some d \<longrightarrow> (\<exists>q \<ge> 0. d = Finite q))" for u
    by (cases "tr_duration_seconds r")
      (auto simp: validate_nonnegative_float simp del: validate_nonnegative.simps)
  have q: "(case tr_path r of None \<Rightarrow> Inr ()
            | Some q \<Rightarrow> validate_logical_path (JStr q) (lit ''path'') False) = Inr u
           \<longleftrightarrow> (\<forall>q. tr_path r = Some q \<longrightarrow> q \<noteq> [] \<and> \<not> has_nul q)" for u
    by (cases "tr_path r") auto
  show ?thesis
    unfolding ToolResult_post_init_def ToolResult_ok_def bindR_Inr_iff c p l d q by auto
qed

section \<open>The event envelope\<close>

record EventEnvelope =
  ev_schema_version :: int
  ev_session_id :: str
  ev_event_id :: str
  ev_agent_id :: str
  ev_sequence :: int
  ev_type :: str
  ev_timestamp :: str
  ev_parent_agent_id :: "str option"
  ev_correlation_id :: "str option"
  ev_provider_tool_call_id :: "str option"
  ev_payload :: jobj

text \<open>The checks of \<open>EventEnvelope.__init__\<close> on values as they come from a JSON record;
  \<open>fromiso\<close> is \<open>_timestamp_to_iso\<close> on a string, which rests on the platform's date parser:
  it yields the canonical UTC text, or None where it raises \<open>ValueError\<close>.\<close>

definition mk_EventEnvelope ::
  "(str \<Rightarrow> str option) \<Rightarrow> json \<Rightarrow> json \<Rightarrow> json \<Rightarrow> json \<Rightarrow> json \<Rightarrow> json \<Rightarrow> json \<Rightarrow> json \<Rightarrow> json
     \<Rightarrow> json \<Rightarrow> jobj \<Rightarrow> EventEnvelope res" where
  "mk_EventEnvelope fromiso schema_version session_id event_id agent_id sequence type timestamp
     parent_agent_id correlation_id provider_tool_call_id payload =
     bindR (case schema_version of
              JInt v \<Rightarrow> if v < 1 then Inl (ValueError (lit ''schema_version must be a positive integer'')) else Inr v
            | _ \<Rightarrow> Inl (ValueError (lit ''schema_version must be a positive integer''))) (\<lambda>v.
     bindR (case sequence of
              JInt n \<Rightarrow> if n < 0 then Inl (ValueError (lit ''sequence must be a non-negative integer'')) else Inr n
            | _ \<Rightarrow> Inl (ValueError (lit ''sequence must be a non-negative integer''))) (\<lambda>n.
     bindR (case type of
              JStr t \<Rightarrow> if t = [] then Inl (ValueError (lit ''event type is required'')) else Inr t
            | _ \<Rightarrow> Inl (ValueError (lit ''event type is required''))) (\<lambda>t.
     bindR (guardR (timestamp \<noteq> JNull) (ValueError (lit ''timestamp is required''))) (\<lambda>_.
     bindR (coerce_identifier (json_id_arg session_id) SessionId) (\<lambda>sid.
     bindR (coerce_identifier (json_id_arg event_id) EventId) (\<lambda>eid.
     bindR (coerce_identifier (json_id_arg agent_id) AgentId) (\<lambda>aid.
     bindR (case timestamp of
              JStr s \<Rightarrow> (case fromiso s of
                  None \<Rightarrow> Inl (ValueError (lit ''timestamp must be a valid ISO 8601 datetime''))
                | Some s' \<Rightarrow> Inr s')
            | _ \<Rightarrow> Inl (TypeError (lit ''timestamp must be a datetime or ISO 8601 string''))) (\<lambda>ts.
     bindR (coerce_optional parent_agent_id AgentId) (\<lambda>pa.
     bindR (coerce_optional correlation_id CorrelationId) (\<lambda>co.
     bindR (coerce_optional provider_tool_call_id ProviderToolCallId) (\<lambda>pt.
     Inr \<lparr>ev_schema_version = v, ev_session_id = sid, ev_event_id = eid, ev_agent_id = aid,
          ev_sequence = n, ev_type = t, ev_timestamp = ts, ev_parent_agent_id = pa,
          ev_correlation_id = co, ev_provider_tool_call_id = pt, ev_payload = payload\<rparr>)))))))))))"

definition json_opt_str :: "str option \<Rightarrow> json" where
  "json_opt_str s = (case s of None \<Rightarrow> JNull | Some t \<Rightarrow> JStr t)"

text \<open>\<open>EventEnvelope.to_dict\<close>.\<close>

definition EventEnvelope_to_dict :: "EventEnvelope \<Rightarrow> jobj" where
  "EventEnvelope_to_dict e =
     [(lit ''schema_version'', JInt (ev_schema_version e)),
      (lit ''session_id'', JStr (ev_session_id e)),
      (lit ''event_id'', JStr (ev_event_id e)),
      (lit ''agent_id'', JStr (ev_agent_id e)),
      (lit ''parent_agent_id'', json_opt_str (ev_parent_agent_id e)),
      (lit ''sequence'', JInt (ev_sequence e)),
      (lit ''type'', JStr (ev_type e)),
      (lit ''correlation_id'', json_opt_str (ev_correlation_id e)),
      (lit ''provider_tool_call_id'', json_opt_str (ev_provider_tool_call_id e)),
      (lit ''timestamp'', JStr (ev_timestamp e)),
      (lit ''payload'', JObj (ev_payload e))]"

text \<open>What every constructed envelope satisfies.\<close>

definition EventEnvelope_ok :: "(str \<Rightarrow> str option) \<Rightarrow> EventEnvelope \<Rightarrow> bool" where
  "EventEnvelope_ok fromiso e \<longleftrightarrow>
     1 \<le> ev_schema_version e \<and> 0 \<le> ev_sequence e \<and> ev_type e \<noteq> [] \<and>
     id_ok SessionId (ev_session_id e) \<and> id_ok EventId (ev_event_id e) \<and> id_ok AgentId (ev_agent_id e) \<and>
     (\<exists>s. fromiso s = Some (ev_timestamp e)) \<and>
     (\<forall>i. ev_parent_agent_id e = Some i \<longrightarrow> id_ok AgentId i) \<and>
     (\<forall>i. ev_correlation_id e = Some i \<longrightarrow> id_ok CorrelationId i) \<and>
     (\<forall>i. ev_provider_tool_call_id e = Some i \<longrightarrow> id_ok ProviderToolCallId i)"

lemma coerce_json_ok:
  "coerce_identifier (json_id_arg v) k = Inr s \<Longrightarrow> id_ok k s"
  using coerce_identifier_ok id_arg_wf_json by blast

lemma mk_EventEnvelope_ok:
  assumes "mk_EventEnvelope fromiso sv si ei ai sq ty ts pa co pt p = Inr e"
  shows "EventEnvelope_ok fromiso e"
  using assms unfolding mk_EventEnvelope_def EventEnvelope_ok_def
  by (auto simp: bindR_Inr_iff dest!: coerce_json_ok coerce_optional_ok
           split: json.splits if_splits option.splits)

end
