(* ===== verification/Truncation.thy ===== *)
theory Truncation
  imports Models
begin

text \<open>
  The bounding routines: the byte-bounded text and command output of
  \<open>environment/local.py\<close>, its bounded listings, and the character-bounded projections of
  \<open>tools/output.py\<close>.  A limit is a Python \<open>int | None\<close>; the slices it governs are written
  with \<open>nat\<close> where the code has established that the limit is positive.
\<close>

section \<open>Byte-bounded text (environment/local.py)\<close>

text \<open>\<open>_utf8_prefix\<close> and \<open>_utf8_suffix\<close>; the first call to \<open>encode\<close> may raise.\<close>

definition utf8_prefix :: "str \<Rightarrow> int \<Rightarrow> str res" where
  "utf8_prefix text byte_limit =
     (if byte_limit \<le> 0 then Inr []
      else bindR (utf8_encode text) (\<lambda>encoded. Inr (utf8_decode_ignore (take (nat byte_limit) encoded))))"

definition utf8_suffix :: "str \<Rightarrow> int \<Rightarrow> str res" where
  "utf8_suffix text byte_limit =
     (if byte_limit \<le> 0 then Inr []
      else bindR (utf8_encode text) (\<lambda>encoded. Inr (utf8_decode_ignore (take_last (nat byte_limit) encoded))))"

definition text_marker :: str where
  "text_marker = 10 # lit ''...[truncated]...'' @ [10]"

text \<open>\<open>_truncate_text\<close>: the bounded text, whether it was cut, and the original length in
  characters and in bytes.\<close>

definition truncate_text :: "str \<Rightarrow> int option \<Rightarrow> (str \<times> bool \<times> nat \<times> nat) res" where
  "truncate_text text limit =
     bindR (utf8_encode text) (\<lambda>encoded.
       let original_length = length text; original_bytes = length encoded in
       case limit of
         None \<Rightarrow> Inr (text, False, original_length, original_bytes)
       | Some l \<Rightarrow>
           if int original_bytes \<le> l then Inr (text, False, original_length, original_bytes)
           else if l \<le> 0 then Inr ([], True, original_length, original_bytes)
           else bindR (utf8_encode text_marker) (\<lambda>marker_bytes.
             if l \<le> int (length marker_bytes)
             then Inr (utf8_decode_ignore (take (nat l) marker_bytes), True, original_length, original_bytes)
             else
               let budget = l - int (length marker_bytes);
                   head_budget = budget div 2;
                   tail_budget = budget - head_budget in
               bindR (utf8_prefix text head_budget) (\<lambda>head.
               bindR (utf8_suffix text tail_budget) (\<lambda>tail.
               Inr (head @ text_marker @ tail, True, original_length, original_bytes)))))"

text \<open>\<open>_truncate_command_output\<close>.\<close>

definition truncate_command_output ::
  "str \<Rightarrow> str \<Rightarrow> int option \<Rightarrow> (str \<times> str \<times> bool \<times> nat) res" where
  "truncate_command_output stdout stderr limit =
     bindR (utf8_encode stdout) (\<lambda>out_bytes.
     bindR (utf8_encode stderr) (\<lambda>err_bytes.
       let original_length = length out_bytes + length err_bytes in
       case limit of
         None \<Rightarrow> Inr (stdout, stderr, False, original_length)
       | Some l \<Rightarrow>
           if int original_length \<le> l then Inr (stdout, stderr, False, original_length)
           else if l \<le> 0 then Inr ([], [], True, original_length)
           else
             let stderr_budget = min (int (length err_bytes)) (max 1 (l div 3));
                 stdout_budget = max 0 (l - stderr_budget) in
             bindR (truncate_text stdout (Some stdout_budget)) (\<lambda>(bounded_stdout, stdout_truncated, _, _).
             bindR (truncate_text stderr (Some stderr_budget)) (\<lambda>(bounded_stderr, stderr_truncated, _, _).
             bindR (utf8_encode (bounded_stdout @ bounded_stderr)) (\<lambda>both.
             bindR (if l < int (length both)
                    then bindR (utf8_encode bounded_stderr) (\<lambda>e.
                         bindR (truncate_text stdout (Some (max 0 (l - int (length e)))))
                           (\<lambda>(t, _, _, _). Inr t))
                    else Inr bounded_stdout) (\<lambda>final_stdout.
             Inr (final_stdout, bounded_stderr, True, original_length)))))))"

subsection \<open>Bounds and shape\<close>

lemma encodable_text_marker [simp]: "encodable text_marker"
  by (simp add: text_marker_def valid_cp_def is_surrogate_def)

lemma encodable_decode_take: "encodable s \<Longrightarrow> encodable (utf8_decode_ignore (take n (enc_str s)))"
  using decode_ignore_take encodable_prefix by blast

lemma utf8_len_decode_take: "encodable s \<Longrightarrow> utf8_len (utf8_decode_ignore (take n (enc_str s))) \<le> n"
  using decode_ignore_take by blast

lemma utf8_prefix_Inr:
  assumes "encodable s"
  obtains p where "utf8_prefix s n = Inr p" "prefix p s" "int (utf8_len p) \<le> max 0 n"
    "\<forall>q. prefix q s \<and> int (utf8_len q) \<le> n \<longrightarrow> length q \<le> length p"
proof (cases "n \<le> 0")
  case True
  have "q = []" if "int (utf8_len q) \<le> n" for q
    using that True length_le_utf8_len [of q] by (cases q) auto
  then have "\<forall>q. prefix q s \<and> int (utf8_len q) \<le> n \<longrightarrow> length q \<le> length []" by auto
  moreover have "utf8_prefix s n = Inr []" using True by (simp add: utf8_prefix_def)
  ultimately show ?thesis using that [of "[]"] by simp
next
  case False
  note cut = decode_ignore_take [OF assms, of "nat n"]
  have "utf8_prefix s n = Inr (utf8_decode_ignore (take (nat n) (enc_str s)))"
    using assms False by (simp add: utf8_prefix_def utf8_encode_def)
  moreover have "\<forall>q. prefix q s \<and> int (utf8_len q) \<le> n
      \<longrightarrow> length q \<le> length (utf8_decode_ignore (take (nat n) (enc_str s)))"
    using cut False by (auto simp: le_nat_iff)
  ultimately show ?thesis using that cut False by (auto simp: le_nat_iff)
qed

lemma utf8_suffix_Inr:
  assumes "encodable s"
  obtains p where "utf8_suffix s n = Inr p" "suffix p s" "int (utf8_len p) \<le> max 0 n"
proof (cases "n \<le> 0")
  case True
  then have "utf8_suffix s n = Inr []" by (simp add: utf8_suffix_def)
  then show ?thesis using that by simp
next
  case False
  have cut: "suffix (utf8_decode_ignore (take_last (nat n) (enc_str s))) s"
    "utf8_len (utf8_decode_ignore (take_last (nat n) (enc_str s))) \<le> nat n"
    using decode_ignore_drop [OF assms, of "length (enc_str s) - nat n"]
    by (auto simp: take_last_def utf8_len_def)
  have "utf8_suffix s n = Inr (utf8_decode_ignore (take_last (nat n) (enc_str s)))"
    using assms False by (simp add: utf8_suffix_def utf8_encode_def)
  then show ?thesis using that [OF _ cut(1)] cut(2) False by (simp add: le_nat_iff)
qed

text \<open>The one lemma the byte bounds rest on: what a bounded text is in each case.\<close>

lemma truncate_text_Inr:
  assumes "encodable s"
  obtains t b where
    "truncate_text s limit = Inr (t, b, length s, utf8_len s)"
    "encodable t"
    "\<forall>l. limit = Some l \<longrightarrow> int (utf8_len t) \<le> max 0 l"
    "b \<longleftrightarrow> (\<exists>l. limit = Some l \<and> l < int (utf8_len s))"
    "\<not> b \<longrightarrow> t = s"
    "\<forall>l. limit = Some l \<and> b \<and> int (utf8_len text_marker) < l \<longrightarrow>
       (\<exists>h u. t = h @ text_marker @ u \<and> prefix h s \<and> suffix u s)"
proof -
  note enc = utf8_encode_def utf8_len_def
  consider (all) "\<forall>l. limit = Some l \<longrightarrow> int (utf8_len s) \<le> l"
    | (none) l where "limit = Some l" "l < int (utf8_len s)" "l \<le> 0"
    | (mark) l where "limit = Some l" "l < int (utf8_len s)" "0 < l" "l \<le> int (utf8_len text_marker)"
    | (cut) l where "limit = Some l" "l < int (utf8_len s)" "int (utf8_len text_marker) < l"
    by (cases limit) (auto simp: not_le, meson linorder_not_le)
  then show ?thesis
  proof cases
    case all
    have "truncate_text s limit = Inr (s, False, length s, utf8_len s)"
      using all assms by (cases limit) (simp_all add: truncate_text_def enc Let_def)
    moreover have "\<forall>l. limit = Some l \<longrightarrow> int (utf8_len s) \<le> max 0 l" using all by auto
    ultimately show ?thesis using that [of s False] assms all by force
  next
    case none
    then have "truncate_text s limit = Inr ([], True, length s, utf8_len s)"
      using assms by (simp add: truncate_text_def enc Let_def)
    then show ?thesis using that [of "[]" True] none by auto
  next
    case mark
    then have "truncate_text s limit
        = Inr (utf8_decode_ignore (take (nat l) (enc_str text_marker)), True, length s, utf8_len s)"
      using assms by (simp add: truncate_text_def enc Let_def)
    then show ?thesis
      using that [of "utf8_decode_ignore (take (nat l) (enc_str text_marker))" True] mark
        encodable_decode_take [of text_marker "nat l"] utf8_len_decode_take [of text_marker "nat l"]
      by auto
  next
    case cut
    define budget where "budget = l - int (utf8_len text_marker)"
    obtain h where h: "utf8_prefix s (budget div 2) = Inr h" "prefix h s"
        "int (utf8_len h) \<le> max 0 (budget div 2)"
      using utf8_prefix_Inr [OF assms] by metis
    obtain u where u: "utf8_suffix s (budget - budget div 2) = Inr u" "suffix u s"
        "int (utf8_len u) \<le> max 0 (budget - budget div 2)"
      using utf8_suffix_Inr [OF assms] by metis
    have "0 < budget" using cut by (simp add: budget_def)
    then have len: "int (utf8_len (h @ text_marker @ u)) \<le> l"
      using h(3) u(3) by (simp add: budget_def)
    have "0 \<le> int (utf8_len text_marker)" by simp
    then have "truncate_text s limit = Inr (h @ text_marker @ u, True, length s, utf8_len s)"
      using assms cut h(1) u(1) by (simp add: truncate_text_def enc Let_def budget_def)
    moreover have "encodable (h @ text_marker @ u)"
      using h(2) u(2) assms encodable_prefix encodable_suffix by auto
    ultimately show ?thesis using that [of "h @ text_marker @ u" True] cut len h(2) u(2) by auto
  qed
qed

text \<open>The bounded text of \<open>_truncate_text\<close>, for any text and any limit.  The call fails
  exactly when the text holds a lone surrogate.  Otherwise the result has at most
  \<open>max 0 limit\<close> bytes, it is marked as truncated exactly when the text does not fit, an
  uncut text is returned unchanged, the reported lengths are the original's, and a cut text
  with room for the marker is a start of the text, the marker and an end of the text, so
  no character is split.\<close>

theorem truncate_text_bounded:
  "case truncate_text text limit of
     Inl e \<Rightarrow> \<not> encodable text
   | Inr (bounded, truncated, chars, bytes) \<Rightarrow>
       encodable text \<and> chars = length text \<and> bytes = utf8_len text \<and>
       (\<forall>l. limit = Some l \<longrightarrow> int (utf8_len bounded) \<le> max 0 l) \<and>
       truncated = (\<exists>l. limit = Some l \<and> l < int (utf8_len text)) \<and>
       (truncated \<or> bounded = text) \<and>
       (\<forall>l. limit = Some l \<and> truncated \<and> int (utf8_len text_marker) < l \<longrightarrow>
          (\<exists>h u. bounded = h @ text_marker @ u \<and> prefix h text \<and> suffix u text))"
proof (cases "encodable text")
  case False
  then show ?thesis by (simp add: truncate_text_def utf8_encode_def)
next
  case True
  then show ?thesis by (rule truncate_text_Inr [where limit = limit]) (use True in auto)
qed

lemma min_third:
  fixes l e :: int
  assumes "0 < l" "0 \<le> e"
  shows "0 \<le> min e (max 1 (l div 3))" "min e (max 1 (l div 3)) \<le> l"
  using assms by auto

text \<open>The bound on a re-truncated stdout is never needed: each stream already respects its
  share, so the two together respect the limit.\<close>

lemma truncate_command_output_Inr:
  assumes "encodable stdout" "encodable stderr"
  obtains o' e' b where
    "truncate_command_output stdout stderr limit
       = Inr (o', e', b, utf8_len stdout + utf8_len stderr)"
    "b \<longleftrightarrow> (\<exists>l. limit = Some l \<and> l < int (utf8_len stdout + utf8_len stderr))"
    "\<not> b \<longrightarrow> o' = stdout \<and> e' = stderr"
    "\<forall>l. limit = Some l \<longrightarrow> int (utf8_len o' + utf8_len e') \<le> max 0 l"
    "\<forall>l. limit = Some l \<and> 0 < l \<and> b \<longrightarrow>
       (\<exists>x y. truncate_text stdout
           (Some (l - min (int (utf8_len stderr)) (max 1 (l div 3)))) = Inr (o', x) \<and>
        truncate_text stderr (Some (min (int (utf8_len stderr)) (max 1 (l div 3)))) = Inr (e', y))"
proof -
  note enc = utf8_encode_def utf8_len_def
  consider (all) "\<forall>l. limit = Some l \<longrightarrow> int (utf8_len stdout + utf8_len stderr) \<le> l"
    | (none) l where "limit = Some l" "l < int (utf8_len stdout + utf8_len stderr)" "l \<le> 0"
    | (cut) l where "limit = Some l" "l < int (utf8_len stdout + utf8_len stderr)" "0 < l"
    by (cases limit) (auto simp: not_le, meson linorder_not_le)
  then show ?thesis
  proof cases
    case all
    then have "truncate_command_output stdout stderr limit
        = Inr (stdout, stderr, False, utf8_len stdout + utf8_len stderr)"
      using assms by (cases limit) (simp_all add: truncate_command_output_def enc Let_def)
    then show ?thesis by (rule that) (use all in force)+
  next
    case none
    then have "truncate_command_output stdout stderr limit
        = Inr ([], [], True, utf8_len stdout + utf8_len stderr)"
      using assms by (simp add: truncate_command_output_def enc Let_def)
    then show ?thesis by (rule that) (use none in auto)
  next
    case cut
    define share where "share = min (int (utf8_len stderr)) (max 1 (l div 3))"
    have share: "0 \<le> share" "share \<le> l" using cut(3) min_third unfolding share_def by auto
    obtain o' x where o': "truncate_text stdout (Some (l - share)) = Inr (o', x, length stdout, utf8_len stdout)"
        "encodable o'" "int (utf8_len o') \<le> l - share"
      by (rule truncate_text_Inr [OF assms(1), of "Some (l - share)"]) (use share in auto)
    obtain e' y where e': "truncate_text stderr (Some share) = Inr (e', y, length stderr, utf8_len stderr)"
        "encodable e'" "int (utf8_len e') \<le> share"
      by (rule truncate_text_Inr [OF assms(2), of "Some share"]) (use share in auto)
    have "\<not> l < int (utf8_len (o' @ e'))" using o'(3) e'(3) by simp
    then have "truncate_command_output stdout stderr limit
        = Inr (o', e', True, utf8_len stdout + utf8_len stderr)"
      using cut assms o'(1,2) e'(1,2) share(2)
      unfolding truncate_command_output_def share_def
      by (simp add: enc Let_def)
    then show ?thesis
      by (rule that) (use cut o' e' in \<open>auto simp: share_def [symmetric]\<close>)
  qed
qed

text \<open>The two streams of \<open>_truncate_command_output\<close> together never exceed the limit,
  whatever the streams and the limit are; they are returned unchanged exactly when they fit,
  the reported length is the original one, and a cut pair is stderr bounded by its
  reserved share \<open>min (bytes of stderr) (max 1 (limit // 3))\<close> and stdout bounded by the
  rest.  In particular the second truncation the code writes for an overlong pair never
  changes the result.\<close>

theorem truncate_command_output_bounded:
  assumes "encodable stdout" and "encodable stderr"
  shows "\<exists>o' e' b.
     truncate_command_output stdout stderr limit
       = Inr (o', e', b, utf8_len stdout + utf8_len stderr) \<and>
     (b \<longleftrightarrow> (\<exists>l. limit = Some l \<and> l < int (utf8_len stdout + utf8_len stderr))) \<and>
     (\<not> b \<longrightarrow> o' = stdout \<and> e' = stderr) \<and>
     (\<forall>l. limit = Some l \<longrightarrow> int (utf8_len o' + utf8_len e') \<le> max 0 l) \<and>
     (\<forall>l. limit = Some l \<and> 0 < l \<and> b \<longrightarrow>
       (\<exists>x y. truncate_text stdout
           (Some (l - min (int (utf8_len stderr)) (max 1 (l div 3)))) = Inr (o', x) \<and>
        truncate_text stderr (Some (min (int (utf8_len stderr)) (max 1 (l div 3)))) = Inr (e', y)))"
  by (rule truncate_command_output_Inr [OF assms, of limit]) blast

theorem truncate_command_output_bounded_witness:
  "\<exists>o' e'. truncate_command_output (replicate 100 97) (replicate 50 98) (Some 60)
     = Inr (o', e', True, 150) \<and> utf8_len o' + utf8_len e' \<le> 60"
proof -
  have a: "ascii (replicate n 97)" "ascii (replicate n 98)" for n
    by (simp_all add: ascii_def list_all_iff)
  note bound = truncate_command_output_bounded
      [OF ascii_encodable [OF a(1)] ascii_encodable [OF a(2)], of 100 50 "Some 60"]
  have "utf8_len (replicate 100 97) = 100" "utf8_len (replicate 50 98) = 50"
    by (simp_all add: a ascii_len)
  then show ?thesis
    using bound by auto
qed

section \<open>Bounded listings (environment/local.py)\<close>

definition bound_sequence :: "str list \<Rightarrow> nat \<Rightarrow> str list \<times> bool" where
  "bound_sequence values limit =
     (if length values \<le> limit then (values, False) else (take limit values, True))"

record SearchMatch =
  sm_path :: str
  sm_line_number :: nat
  sm_text :: str

text \<open>The bytes of one rendered match, \<open>f"{path}:{line_number}:{text}\n".encode()\<close>.\<close>

definition match_line :: "SearchMatch \<Rightarrow> str" where
  "match_line m = sm_path m @ [58] @ dec (sm_line_number m) @ [58] @ sm_text m @ [10]"

text \<open>The loop of \<open>_bound_search_matches\<close>: stop at the first match that does not fit.\<close>

fun bound_matches_loop :: "SearchMatch list \<Rightarrow> nat \<Rightarrow> int \<Rightarrow> (SearchMatch list \<times> bool) res" where
  "bound_matches_loop [] used byte_limit = Inr ([], False)"
| "bound_matches_loop (m # ms) used byte_limit =
     bindR (utf8_encode (match_line m)) (\<lambda>b.
       if int (used + length b) > byte_limit then Inr ([], True)
       else bindR (bound_matches_loop ms (used + length b) byte_limit)
              (\<lambda>(rest, t). Inr (m # rest, t)))"

definition bound_search_matches ::
  "SearchMatch list \<Rightarrow> nat \<Rightarrow> int option \<Rightarrow> (SearchMatch list \<times> bool) res" where
  "bound_search_matches values result_limit byte_limit =
     (let selected = take result_limit values; truncated = length values > result_limit in
      case byte_limit of
        None \<Rightarrow> Inr (selected, truncated)
      | Some l \<Rightarrow> bindR (bound_matches_loop selected 0 l)
          (\<lambda>(bounded, stopped). Inr (bounded, truncated \<or> stopped)))"

definition matches_bytes :: "SearchMatch list \<Rightarrow> nat" where
  "matches_bytes ms = sum_list (map (\<lambda>m. utf8_len (match_line m)) ms)"

lemma bound_matches_loop_Inr:
  "bound_matches_loop ms used l = Inr (out, t) \<Longrightarrow>
     prefix out ms \<and> (out = [] \<or> int (used + matches_bytes out) \<le> l) \<and> (t \<longleftrightarrow> out \<noteq> ms)"
proof (induction ms arbitrary: used out t)
  case (Cons m ms)
  show ?case
  proof (cases "int (used + length (enc_str (match_line m))) > l")
    case True
    then show ?thesis using Cons.prems by (auto simp: bindR_Inr_iff)
  next
    case False
    then obtain rest where r: "out = m # rest"
        "bound_matches_loop ms (used + length (enc_str (match_line m))) l = Inr (rest, t)"
      using Cons.prems by (auto simp: bindR_Inr_iff)
    show ?thesis using Cons.IH [OF r(2)] False r(1)
      by (auto simp: matches_bytes_def utf8_len_def)
  qed
qed simp

text \<open>A bounded search result is a start of the matches found, holds at most
  \<open>result_limit\<close> of them and, with a byte limit, at most that many rendered bytes; it is
  reported as truncated exactly when a match was left out.\<close>

theorem bound_search_matches_bounded:
  assumes "bound_search_matches values result_limit byte_limit = Inr (out, truncated)"
  shows "prefix out values \<and> length out \<le> result_limit \<and>
    (\<forall>l. byte_limit = Some l \<longrightarrow> int (matches_bytes out) \<le> max 0 l) \<and>
    (truncated \<longleftrightarrow> out \<noteq> values)"
proof (cases byte_limit)
  case None
  then show ?thesis using assms
    by (auto simp: bound_search_matches_def Let_def take_is_prefix dest: arg_cong [of _ _ length])
next
  case (Some l)
  then obtain t where loop: "bound_matches_loop (take result_limit values) 0 l = Inr (out, t)"
      and tr: "truncated \<longleftrightarrow> result_limit < length values \<or> t"
    using assms by (auto simp: bound_search_matches_def Let_def bindR_Inr_iff)
  note b = bound_matches_loop_Inr [OF loop]
  have p: "prefix out values" using b take_is_prefix prefix_order.trans by blast
  have len: "length out \<le> result_limit" using b prefix_length_le by fastforce
  have "truncated \<longleftrightarrow> out \<noteq> values"
  proof (cases "result_limit < length values")
    case True
    then show ?thesis using tr len by auto
  next
    case False
    then show ?thesis using tr b by simp
  qed
  then show ?thesis using p len b Some by (auto simp: matches_bytes_def)
qed

end
