(* ===== verification/Output.thy ===== *)
theory Output
  imports Truncation
begin

text \<open>
  The model-visible and persisted projections of a tool result (\<open>tools/output.py\<close>):
  head/tail truncation by characters, the bounded projection with its truncation facts, and
  the pair of limits an \<open>OutputProjector\<close> applies.
\<close>

section \<open>Head and tail truncation\<close>

record OutputSlice =
  os_text :: str
  os_truncated :: bool
  os_original_length :: "int option"

definition validate_limit :: "int option \<Rightarrow> str \<Rightarrow> unit res" where
  "validate_limit limit name =
     (case limit of
        None \<Rightarrow> Inr ()
      | Some l \<Rightarrow> if l < 0 then Inl (ValueError (name @ lit '' must be non-negative'')) else Inr ())"

definition output_marker :: "int \<Rightarrow> str" where
  "output_marker n =
     10 # lit ''... output truncated; original length: '' @ dec_int n @ lit '' ...'' @ [10]"

text \<open>The cut itself, once the arguments are validated.\<close>

definition head_tail_slice :: "str \<Rightarrow> int option \<Rightarrow> int option \<Rightarrow> OutputSlice" where
  "head_tail_slice text limit original_length =
     (let source_length = max (int (length text)) (case original_length of Some n \<Rightarrow> n | None \<Rightarrow> 0) in
      case limit of
        None \<Rightarrow> \<lparr>os_text = text, os_truncated = False, os_original_length = original_length\<rparr>
      | Some l \<Rightarrow>
          if int (length text) \<le> l
          then \<lparr>os_text = text, os_truncated = False, os_original_length = original_length\<rparr>
          else if l = 0
          then \<lparr>os_text = [], os_truncated = True, os_original_length = Some source_length\<rparr>
          else
            let marker = output_marker source_length in
            if l \<le> int (length marker)
            then \<lparr>os_text = take (nat l) marker, os_truncated = True,
                  os_original_length = Some source_length\<rparr>
            else
              let available = nat l - length marker;
                  head_length = (available + 1) div 2;
                  tail_length = available - head_length;
                  tail = (if tail_length \<noteq> 0 then take_last tail_length text else []) in
              \<lparr>os_text = take head_length text @ marker @ tail, os_truncated = True,
               os_original_length = Some source_length\<rparr>)"

definition head_tail_truncate ::
  "str \<Rightarrow> int option \<Rightarrow> int option \<Rightarrow> int option \<Rightarrow> int option \<Rightarrow> OutputSlice res" where
  "head_tail_truncate text limit0 original_length max_length max_chars =
     (let aliases = filter (\<lambda>a. a \<noteq> None) [max_length, max_chars] in
      bindR (guardR (\<not> (1 < length aliases \<or> aliases \<noteq> [] \<and> limit0 \<noteq> None))
               (ValueError (lit ''use only one output limit argument''))) (\<lambda>_.
      let limit = (case aliases of a # _ \<Rightarrow> a | [] \<Rightarrow> limit0) in
      bindR (validate_limit limit (lit ''limit'')) (\<lambda>_.
      bindR (case original_length of
               Some n \<Rightarrow> if n < 0 then Inl (ValueError (lit ''original_length must be non-negative'')) else Inr ()
             | None \<Rightarrow> Inr ()) (\<lambda>_.
      Inr (head_tail_slice text limit original_length)))))"

abbreviation head_tail :: "str \<Rightarrow> int option \<Rightarrow> int option \<Rightarrow> OutputSlice res" where
  "head_tail text limit original_length \<equiv> head_tail_truncate text limit original_length None None"

lemma validate_limit_Inr [simp]: "validate_limit limit name = Inr u \<longleftrightarrow> (\<forall>l. limit = Some l \<longrightarrow> 0 \<le> l)"
  by (cases limit) (auto simp: validate_limit_def)

lemma head_tail_Inr_iff:
  "head_tail text limit original_length = Inr s \<longleftrightarrow>
     (\<forall>l. limit = Some l \<longrightarrow> 0 \<le> l) \<and> (\<forall>n. original_length = Some n \<longrightarrow> 0 \<le> n) \<and>
     s = head_tail_slice text limit original_length"
  by (cases original_length) (auto simp: head_tail_truncate_def Let_def bindR_Inr_iff)

lemma head_tail_slice_spec:
  fixes t limit original_length
  defines "s \<equiv> head_tail_slice t limit original_length"
  assumes l: "\<forall>l. limit = Some l \<longrightarrow> 0 \<le> l"
  shows "(\<forall>l. limit = Some l \<longrightarrow> int (length (os_text s)) \<le> l) \<and>
     (os_truncated s \<longleftrightarrow> (\<exists>l. limit = Some l \<and> l < int (length t))) \<and>
     (\<not> os_truncated s \<longrightarrow> os_text s = t \<and> os_original_length s = original_length) \<and>
     (os_truncated s \<longrightarrow> (\<exists>n. os_original_length s = Some n \<and> int (length t) \<le> n \<and>
        (\<forall>m. original_length = Some m \<longrightarrow> m \<le> n)))"
proof (cases limit)
  case None
  then show ?thesis by (simp add: s_def head_tail_slice_def Let_def)
next
  case (Some l)
  with assms(2) have l: "0 \<le> l" by simp
  define n where "n = max (int (length t)) (case original_length of Some n \<Rightarrow> n | None \<Rightarrow> 0)"
  have n: "int (length t) \<le> n" "\<forall>m. original_length = Some m \<longrightarrow> m \<le> n"
    by (auto simp: n_def)
  note def = s_def head_tail_slice_def n_def [symmetric]
  consider (fit) "int (length t) \<le> l" | (zero) "l < int (length t)" "l = 0"
    | (mark) "l < int (length t)" "0 < l" "l \<le> int (length (output_marker n))"
    | (cut) "l < int (length t)" "0 < l" "int (length (output_marker n)) < l" using l by linarith
  then show ?thesis
  proof cases
    case fit
    then have "s = \<lparr>os_text = t, os_truncated = False, os_original_length = original_length\<rparr>"
      unfolding def using Some by (simp add: Let_def)
    then show ?thesis using fit Some by simp
  next
    case zero
    then have "s = \<lparr>os_text = [], os_truncated = True, os_original_length = Some n\<rparr>"
      unfolding def using Some by (simp add: Let_def)
    then show ?thesis using n zero Some by simp
  next
    case mark
    then have "s = \<lparr>os_text = take (nat l) (output_marker n), os_truncated = True, os_original_length = Some n\<rparr>"
      unfolding def using Some by (simp add: Let_def)
    then show ?thesis using n mark Some by simp
  next
    case cut
    define a where "a = nat l - length (output_marker n)"
    define h where "h = (a + 1) div 2"
    have "s = \<lparr>os_text = take h t @ output_marker n @ (if a - h \<noteq> 0 then take_last (a - h) t else []),
              os_truncated = True, os_original_length = Some n\<rparr>"
      unfolding def a_def h_def using Some cut by (simp only: Let_def option.case) simp
    moreover have "h \<le> a" "a + length (output_marker n) = nat l"
      using cut unfolding h_def a_def by auto
    ultimately show ?thesis using n cut Some by auto
  qed
qed

section \<open>The projection of a tool result\<close>

record ToolResultProjection =
  tp_correlation_id :: str
  tp_provider_tool_call_id :: "str option"
  tp_status :: ToolResultStatus
  tp_text :: str
  tp_metadata :: jobj
  tp_truncated :: bool
  tp_original_length :: "int option"
  tp_duration_seconds :: "pyfloat option"
  tp_exit_code :: "int option"
  tp_timed_out :: bool
  tp_path :: "str option"

text \<open>\<open>dict.setdefault\<close>.\<close>

definition dsetdefault :: "jobj \<Rightarrow> str \<Rightarrow> json \<Rightarrow> jobj" where
  "dsetdefault d k v = (if has_key d k then d else d @ [(k, v)])"

definition ToolResultProjection_from_result ::
  "ToolResult \<Rightarrow> int option \<Rightarrow> ToolResultProjection res" where
  "ToolResultProjection_from_result r limit =
     bindR (head_tail (tr_text r) limit (tr_original_length r)) (\<lambda>sliced.
       let was_truncated = (tr_truncated r \<or> os_truncated sliced);
           effective_length =
             (if was_truncated \<and> os_original_length sliced = None
              then Some (int (length (tr_text r))) else os_original_length sliced);
           metadata =
             (if was_truncated
              then (let m = dsetdefault (tr_metadata r) (lit ''truncated'') (JBool True) in
                    case effective_length of
                      None \<Rightarrow> m
                    | Some n \<Rightarrow> dsetdefault m (lit ''original_length'') (JInt n))
              else tr_metadata r) in
       Inr \<lparr>tp_correlation_id = tr_correlation_id r,
            tp_provider_tool_call_id = tr_provider_tool_call_id r,
            tp_status = tr_status r, tp_text = os_text sliced, tp_metadata = metadata,
            tp_truncated = was_truncated, tp_original_length = effective_length,
            tp_duration_seconds = tr_duration_seconds r, tp_exit_code = tr_exit_code r,
            tp_timed_out = tr_timed_out r, tp_path = tr_path r\<rparr>)"

text \<open>\<open>to_model_message\<close>.\<close>

definition to_model_message :: "ToolResultProjection \<Rightarrow> jobj" where
  "to_model_message p =
     [(lit ''role'', JStr (lit ''tool'')),
      (lit ''tool_call_id'', json_opt_str (tp_provider_tool_call_id p)),
      (lit ''content'', JStr (tp_text p))]"

definition json_opt_int :: "int option \<Rightarrow> json" where
  "json_opt_int v = (case v of None \<Rightarrow> JNull | Some i \<Rightarrow> JInt i)"

definition json_opt_float :: "pyfloat option \<Rightarrow> json" where
  "json_opt_float v = (case v of None \<Rightarrow> JNull | Some d \<Rightarrow> JFloat d)"

definition ToolResultProjection_to_dict :: "ToolResultProjection \<Rightarrow> jobj" where
  "ToolResultProjection_to_dict p =
     [(lit ''correlation_id'', JStr (tp_correlation_id p)),
      (lit ''provider_tool_call_id'', json_opt_str (tp_provider_tool_call_id p)),
      (lit ''status'', JStr (tool_status_str (tp_status p))),
      (lit ''text'', JStr (tp_text p)),
      (lit ''metadata'', JObj (tp_metadata p)),
      (lit ''truncated'', JBool (tp_truncated p)),
      (lit ''original_length'', json_opt_int (tp_original_length p)),
      (lit ''duration_seconds'', json_opt_float (tp_duration_seconds p)),
      (lit ''exit_code'', json_opt_int (tp_exit_code p)),
      (lit ''timed_out'', JBool (tp_timed_out p)),
      (lit ''path'', json_opt_str (tp_path p))]"

text \<open>\<open>to_tool_result\<close>: the projection as a tool result again.\<close>

definition to_tool_result :: "ToolResultProjection \<Rightarrow> ToolResult res" where
  "to_tool_result p =
     ToolResult_post_init
       \<lparr>tr_correlation_id = tp_correlation_id p, tr_status = tp_status p, tr_text = tp_text p,
        tr_provider_tool_call_id = tp_provider_tool_call_id p, tr_metadata = tp_metadata p,
        tr_truncated = tp_truncated p, tr_original_length = tp_original_length p,
        tr_duration_seconds = tp_duration_seconds p, tr_exit_code = tp_exit_code p,
        tr_timed_out = tp_timed_out p, tr_path = tp_path p\<rparr>"

record OutputProjector =
  op_model_limit :: "int option"
  op_persistence_limit :: "int option"

definition OutputProjector_init :: "int option \<Rightarrow> int option \<Rightarrow> OutputProjector res" where
  "OutputProjector_init model_limit persistence_limit =
     bindR (validate_limit model_limit (lit ''model_limit'')) (\<lambda>_.
     bindR (validate_limit persistence_limit (lit ''persistence_limit'')) (\<lambda>_.
     Inr \<lparr>op_model_limit = model_limit, op_persistence_limit = persistence_limit\<rparr>))"

definition for_model :: "OutputProjector \<Rightarrow> ToolResult \<Rightarrow> ToolResultProjection res" where
  "for_model op r = ToolResultProjection_from_result r (op_model_limit op)"

definition for_persistence :: "OutputProjector \<Rightarrow> ToolResult \<Rightarrow> ToolResultProjection res" where
  "for_persistence op r = ToolResultProjection_from_result r (op_persistence_limit op)"

lemma projection_fields:
  "ToolResultProjection_from_result r limit = Inr p \<Longrightarrow>
     tp_correlation_id p = tr_correlation_id r \<and>
     tp_provider_tool_call_id p = tr_provider_tool_call_id r \<and>
     tp_status p = tr_status r \<and> tp_duration_seconds p = tr_duration_seconds r \<and>
     tp_exit_code p = tr_exit_code r \<and> tp_timed_out p = tr_timed_out r \<and> tp_path p = tr_path r"
  by (auto simp: ToolResultProjection_from_result_def bindR_Inr_iff Let_def)

lemma dget_dsetdefault:
  "dget (dsetdefault d k v) k' =
     (if k' = k then (case dget d k of None \<Rightarrow> Some v | s \<Rightarrow> s) else dget d k')"
  by (auto simp: dsetdefault_def has_key_def map_add_def split: option.split)

lemma projection_ok:
  assumes "ToolResult_ok r" "\<forall>l. limit = Some l \<longrightarrow> 0 \<le> l"
  obtains p where "ToolResultProjection_from_result r limit = Inr p"
    "\<forall>l. limit = Some l \<longrightarrow> int (length (tp_text p)) \<le> l"
    "tp_truncated p \<longleftrightarrow> tr_truncated r \<or> (\<exists>l. limit = Some l \<and> l < int (length (tr_text r)))"
    "\<not> tp_truncated p \<longrightarrow> tp_text p = tr_text r \<and> tp_metadata p = tr_metadata r
        \<and> tp_original_length p = tr_original_length r"
    "tp_truncated p \<longrightarrow> has_key (tp_metadata p) (lit ''truncated'')
        \<and> has_key (tp_metadata p) (lit ''original_length'')"
    "\<forall>k v. dget (tr_metadata r) k = Some v \<longrightarrow> dget (tp_metadata p) k = Some v"
    "tp_truncated p \<longrightarrow> (\<exists>n. tp_original_length p = Some n \<and> 0 \<le> n)"
proof -
  obtain s where s: "head_tail (tr_text r) limit (tr_original_length r) = Inr s"
    and sd: "s = head_tail_slice (tr_text r) limit (tr_original_length r)"
    using assms by (auto simp: head_tail_Inr_iff ToolResult_ok_def)
  note f = head_tail_slice_spec [OF assms(2), of "tr_text r" "tr_original_length r", folded sd]
  obtain p where p: "ToolResultProjection_from_result r limit = Inr p"
    by (simp add: ToolResultProjection_from_result_def s Let_def)
  have tr: "tp_truncated p \<longleftrightarrow> tr_truncated r \<or> os_truncated s" and
    tx: "tp_text p = os_text s" and
    eff: "tp_original_length p = (if tp_truncated p \<and> os_original_length s = None
              then Some (int (length (tr_text r))) else os_original_length s)" and
    md: "tp_metadata p = (if tp_truncated p
              then (let m = dsetdefault (tr_metadata r) (lit ''truncated'') (JBool True) in
                    case tp_original_length p of
                      None \<Rightarrow> m
                    | Some n \<Rightarrow> dsetdefault m (lit ''original_length'') (JInt n))
              else tr_metadata r)"
    using p by (auto simp: ToolResultProjection_from_result_def s Let_def)
  have "\<exists>n. tp_original_length p = Some n \<and> 0 \<le> n" if t: "tp_truncated p"
  proof (cases "os_original_length s")
    case None
    then show ?thesis using eff t by simp
  next
    case (Some n)
    have "0 \<le> n"
    proof (cases "os_truncated s")
      case True
      then show ?thesis using f Some by auto
    next
      case False
      then show ?thesis using f Some assms(1) by (auto simp: ToolResult_ok_def)
    qed
    then show ?thesis using eff Some by simp
  qed
  then have orig: "tp_truncated p \<longrightarrow> (\<exists>n. tp_original_length p = Some n \<and> 0 \<le> n)" by blast
  have facts: "tp_truncated p \<longrightarrow> has_key (tp_metadata p) (lit ''truncated'')
        \<and> has_key (tp_metadata p) (lit ''original_length'')"
    using orig md by (auto simp: has_key_def dget_dsetdefault Let_def split: option.splits)
  have keep: "\<forall>k v. dget (tr_metadata r) k = Some v \<longrightarrow> dget (tp_metadata p) k = Some v"
    using md by (auto simp: dget_dsetdefault Let_def split: option.splits)
  have "\<forall>l. limit = Some l \<longrightarrow> int (length (tp_text p)) \<le> l" using f tx by simp
  moreover have "tp_truncated p \<longleftrightarrow> tr_truncated r \<or> (\<exists>l. limit = Some l \<and> l < int (length (tr_text r)))"
    using f tr by simp
  moreover have "\<not> tp_truncated p \<longrightarrow> tp_text p = tr_text r \<and> tp_metadata p = tr_metadata r
        \<and> tp_original_length p = tr_original_length r"
    using f tr tx eff md by (cases "tp_truncated p") simp_all
  ultimately show ?thesis using that p facts keep orig by blast
qed

text \<open>Projecting a well-formed tool result with any non-negative limit succeeds; the text has
  at most that many characters, it is the whole text unless the projection says it was
  truncated, a truncated projection always reports its original length and carries the two
  truncation facts in its metadata without replacing what the tool put there, identity,
  status, duration, exit code and path are the result's, and the projection materializes
  as a well-formed tool result again.\<close>

theorem projection_bounded:
  assumes "ToolResult_ok r" and "\<forall>l. limit = Some l \<longrightarrow> 0 \<le> l"
  shows "\<exists>p. ToolResultProjection_from_result r limit = Inr p \<and>
    (\<forall>l. limit = Some l \<longrightarrow> int (length (tp_text p)) \<le> l) \<and>
    (tp_truncated p \<longleftrightarrow> tr_truncated r \<or> (\<exists>l. limit = Some l \<and> l < int (length (tr_text r)))) \<and>
    (\<not> tp_truncated p \<longrightarrow> tp_text p = tr_text r \<and> tp_metadata p = tr_metadata r) \<and>
    (tp_truncated p \<longrightarrow> tp_original_length p \<noteq> None \<and> has_key (tp_metadata p) (lit ''truncated'')
        \<and> has_key (tp_metadata p) (lit ''original_length'')) \<and>
    (\<forall>k v. dget (tr_metadata r) k = Some v \<longrightarrow> dget (tp_metadata p) k = Some v) \<and>
    tp_correlation_id p = tr_correlation_id r \<and> tp_status p = tr_status r \<and> tp_path p = tr_path r \<and>
    (\<exists>r'. to_tool_result p = Inr r' \<and> ToolResult_ok r' \<and> tr_text r' = tp_text p)"
proof (rule projection_ok [OF assms])
  fix p
  assume p: "ToolResultProjection_from_result r limit = Inr p"
    and rest: "\<forall>l. limit = Some l \<longrightarrow> int (length (tp_text p)) \<le> l"
    "tp_truncated p \<longleftrightarrow> tr_truncated r \<or> (\<exists>l. limit = Some l \<and> l < int (length (tr_text r)))"
    "\<not> tp_truncated p \<longrightarrow> tp_text p = tr_text r \<and> tp_metadata p = tr_metadata r
        \<and> tp_original_length p = tr_original_length r"
    "tp_truncated p \<longrightarrow> has_key (tp_metadata p) (lit ''truncated'')
        \<and> has_key (tp_metadata p) (lit ''original_length'')"
    "\<forall>k v. dget (tr_metadata r) k = Some v \<longrightarrow> dget (tp_metadata p) k = Some v"
    "tp_truncated p \<longrightarrow> (\<exists>n. tp_original_length p = Some n \<and> 0 \<le> n)"
  note same = projection_fields [OF p]
  have "\<forall>n. tp_original_length p = Some n \<longrightarrow> 0 \<le> n"
    using rest(3,6) assms(1) unfolding ToolResult_ok_def by (cases "tp_truncated p") auto
  then have "\<exists>r'. to_tool_result p = Inr r' \<and> ToolResult_ok r' \<and> tr_text r' = tp_text p"
    using same assms(1) by (simp add: to_tool_result_def ToolResult_post_init_iff ToolResult_ok_def)
  then show ?thesis using p rest same by (intro exI [of _ p]) auto
qed

end
