(* ===== verification/Runtime.thy ===== *)
theory Runtime
  imports Output
begin

text \<open>
  The per-agent state of \<open>runtime.py\<close>: the cancellation signal, the budget tracker with its
  limits, and the context projection.  A reading of the injected monotonic clock is an
  argument (\<open>now\<close>); clock values are rationals, so the rounding of the one addition on them
  (\<open>started_at + max_wall_seconds\<close>) is not modelled.
\<close>

section \<open>Cancellation\<close>

record CancellationSignal =
  cs_set :: bool
  cs_reason :: "str option"

definition CancellationSignal_init :: CancellationSignal where
  "CancellationSignal_init = \<lparr>cs_set = False, cs_reason = None\<rparr>"

definition cancel :: "CancellationSignal \<Rightarrow> str \<Rightarrow> (CancellationSignal \<times> bool) res" where
  "cancel s reason =
     (if strip reason = [] then Inl (ValueError (lit ''cancellation reason must not be empty''))
      else if cs_set s then Inr (s, False)
      else Inr (\<lparr>cs_set = True, cs_reason = Some reason\<rparr>, True))"

definition throw_if_cancelled :: "CancellationSignal \<Rightarrow> unit res" where
  "throw_if_cancelled s =
     (if cs_set s
      then Inl (CancellationRequested
             (case cs_reason s of Some r \<Rightarrow> (if r = [] then lit ''cancelled'' else r)
              | None \<Rightarrow> lit ''cancelled''))
      else Inr ())"

text \<open>The signal is monotone and the first reason stays.\<close>

lemma cancel_Inr:
  assumes "cancel s r = Inr (s', c)"
  shows "cs_set s'" "c \<longleftrightarrow> \<not> cs_set s" "cs_set s \<Longrightarrow> s' = s" "\<not> cs_set s \<Longrightarrow> cs_reason s' = Some r"
  using assms by (auto simp: cancel_def split: if_splits)

section \<open>Budget\<close>

datatype LimitReason = MODEL_STEPS | TOOL_CALLS | PROTOCOL_ERRORS | WALL_TIME | CONTEXT_WINDOW

fun limit_reason_str :: "LimitReason \<Rightarrow> str" where
  "limit_reason_str MODEL_STEPS = lit ''model_steps''"
| "limit_reason_str TOOL_CALLS = lit ''tool_calls''"
| "limit_reason_str PROTOCOL_ERRORS = lit ''protocol_errors''"
| "limit_reason_str WALL_TIME = lit ''wall_time''"
| "limit_reason_str CONTEXT_WINDOW = lit ''context_window''"

record BudgetTracker =
  max_steps :: "int option"
  max_tool_calls :: "int option"
  max_protocol_errors :: "int option"
  max_wall_seconds :: "rat option"
  model_steps :: int
  tool_calls :: int
  protocol_errors :: int
  input_tokens :: int
  output_tokens :: int
  started_at :: "rat option"
  deadline :: "rat option"

definition nonneg_option :: "'a :: linordered_idom option \<Rightarrow> bool" where
  "nonneg_option v = (case v of None \<Rightarrow> True | Some n \<Rightarrow> 0 \<le> n)"

definition nonneg_error :: "string \<Rightarrow> exn" where
  "nonneg_error name = ValueError (lit name @ lit '' must be non-negative'')"

text \<open>\<open>BudgetTracker.__post_init__\<close> with the clock reading \<open>now\<close>.\<close>

definition BudgetTracker_post_init :: "BudgetTracker \<Rightarrow> rat \<Rightarrow> BudgetTracker res" where
  "BudgetTracker_post_init b now =
     bindR (guardR (nonneg_option (max_steps b)) (nonneg_error ''max_steps'')) (\<lambda>_.
     bindR (guardR (nonneg_option (max_tool_calls b)) (nonneg_error ''max_tool_calls'')) (\<lambda>_.
     bindR (guardR (nonneg_option (max_protocol_errors b)) (nonneg_error ''max_protocol_errors'')) (\<lambda>_.
     bindR (guardR (nonneg_option (max_wall_seconds b)) (nonneg_error ''max_wall_seconds'')) (\<lambda>_.
     bindR (guardR (0 \<le> model_steps b) (nonneg_error ''model_steps'')) (\<lambda>_.
     bindR (guardR (0 \<le> tool_calls b) (nonneg_error ''tool_calls'')) (\<lambda>_.
     bindR (guardR (0 \<le> protocol_errors b) (nonneg_error ''protocol_errors'')) (\<lambda>_.
     bindR (guardR (0 \<le> input_tokens b) (nonneg_error ''input_tokens'')) (\<lambda>_.
     bindR (guardR (0 \<le> output_tokens b) (nonneg_error ''output_tokens'')) (\<lambda>_.
     let start = (case started_at b of None \<Rightarrow> now | Some s \<Rightarrow> s) in
     bindR (guardR (0 \<le> start) (nonneg_error ''started_at'')) (\<lambda>_.
     bindR (guardR (nonneg_option (deadline b)) (nonneg_error ''deadline'')) (\<lambda>_.
     case max_wall_seconds b of
       None \<Rightarrow> Inr (b\<lparr>started_at := Some start\<rparr>)
     | Some w \<Rightarrow>
         (case deadline b of
            None \<Rightarrow> Inr (b\<lparr>started_at := Some start, deadline := Some (start + w)\<rparr>)
          | Some d \<Rightarrow>
              if d < start then Inl (ValueError (lit ''deadline must not precede started_at''))
              else Inr (b\<lparr>started_at := Some start\<rparr>)))))))))))))"

definition record_model_step :: "BudgetTracker \<Rightarrow> int \<Rightarrow> BudgetTracker res" where
  "record_model_step b count =
     bindR (guardR (0 \<le> count) (nonneg_error ''count'')) (\<lambda>_.
     Inr (b\<lparr>model_steps := model_steps b + count\<rparr>))"

definition record_tool_call :: "BudgetTracker \<Rightarrow> int \<Rightarrow> BudgetTracker res" where
  "record_tool_call b count =
     bindR (guardR (0 \<le> count) (nonneg_error ''count'')) (\<lambda>_.
     Inr (b\<lparr>tool_calls := tool_calls b + count\<rparr>))"

definition record_protocol_error :: "BudgetTracker \<Rightarrow> int \<Rightarrow> BudgetTracker res" where
  "record_protocol_error b count =
     bindR (guardR (0 \<le> count) (nonneg_error ''count'')) (\<lambda>_.
     Inr (b\<lparr>protocol_errors := protocol_errors b + count\<rparr>))"

definition record_tokens :: "BudgetTracker \<Rightarrow> int \<Rightarrow> int \<Rightarrow> BudgetTracker res" where
  "record_tokens b i out =
     bindR (guardR (0 \<le> i) (nonneg_error ''input_tokens'')) (\<lambda>_.
     bindR (guardR (0 \<le> out) (nonneg_error ''output_tokens'')) (\<lambda>_.
     Inr (b\<lparr>input_tokens := input_tokens b + i, output_tokens := output_tokens b + out\<rparr>)))"

definition reached :: "int \<Rightarrow> int option \<Rightarrow> bool" where
  "reached n m = (case m of None \<Rightarrow> False | Some k \<Rightarrow> k \<le> n)"

definition limit_reached :: "BudgetTracker \<Rightarrow> rat \<Rightarrow> LimitReason option" where
  "limit_reached b now =
     (if reached (model_steps b) (max_steps b) then Some MODEL_STEPS
      else if reached (tool_calls b) (max_tool_calls b) then Some TOOL_CALLS
      else if reached (protocol_errors b) (max_protocol_errors b) then Some PROTOCOL_ERRORS
      else if (case deadline b of None \<Rightarrow> False | Some d \<Rightarrow> d \<le> now) then Some WALL_TIME
      else None)"

definition BudgetTracker_ok :: "BudgetTracker \<Rightarrow> bool" where
  "BudgetTracker_ok b \<longleftrightarrow>
     nonneg_option (max_steps b) \<and> nonneg_option (max_tool_calls b) \<and>
     nonneg_option (max_protocol_errors b) \<and> nonneg_option (max_wall_seconds b) \<and>
     0 \<le> model_steps b \<and> 0 \<le> tool_calls b \<and> 0 \<le> protocol_errors b \<and>
     0 \<le> input_tokens b \<and> 0 \<le> output_tokens b \<and>
     (\<exists>s \<ge> 0. started_at b = Some s \<and>
        (\<forall>w. max_wall_seconds b = Some w \<longrightarrow> (\<exists>d. deadline b = Some d \<and> s \<le> d)))"

lemma BudgetTracker_post_init_ok:
  assumes "BudgetTracker_post_init b now = Inr b'"
  shows "BudgetTracker_ok b'"
proof -
  define start where "start = (case started_at b of None \<Rightarrow> now | Some s \<Rightarrow> s)"
  have g: "nonneg_option (max_steps b)" "nonneg_option (max_tool_calls b)"
     "nonneg_option (max_protocol_errors b)" "nonneg_option (max_wall_seconds b)"
     "0 \<le> model_steps b" "0 \<le> tool_calls b" "0 \<le> protocol_errors b"
     "0 \<le> input_tokens b" "0 \<le> output_tokens b" "0 \<le> start"
    using assms by (auto simp: BudgetTracker_post_init_def bindR_Inr_iff Let_def start_def)
  show ?thesis
  proof (cases "max_wall_seconds b")
    case None
    then have "b' = b\<lparr>started_at := Some start\<rparr>"
      using assms by (auto simp: BudgetTracker_post_init_def bindR_Inr_iff Let_def start_def)
    then show ?thesis using g None by (simp add: BudgetTracker_ok_def)
  next
    case (Some w)
    then have w: "0 \<le> w" using g by (simp add: nonneg_option_def)
    show ?thesis
    proof (cases "deadline b")
      case None
      then have "b' = b\<lparr>started_at := Some start, deadline := Some (start + w)\<rparr>"
        using assms Some by (auto simp: BudgetTracker_post_init_def bindR_Inr_iff Let_def start_def)
      then show ?thesis using g w by (simp add: BudgetTracker_ok_def)
    next
      case (Some d)
      then have "b' = b\<lparr>started_at := Some start\<rparr> \<and> start \<le> d"
        using assms \<open>max_wall_seconds b = Some w\<close>
        by (auto simp: BudgetTracker_post_init_def bindR_Inr_iff Let_def start_def split: if_splits)
      then show ?thesis using g Some by (simp add: BudgetTracker_ok_def)
    qed
  qed
qed

lemma record_ok:
  assumes "BudgetTracker_ok b"
  shows "record_model_step b n = Inr b' \<Longrightarrow> BudgetTracker_ok b'"
    and "record_tool_call b n = Inr b' \<Longrightarrow> BudgetTracker_ok b'"
    and "record_protocol_error b n = Inr b' \<Longrightarrow> BudgetTracker_ok b'"
    and "record_tokens b i out = Inr b' \<Longrightarrow> BudgetTracker_ok b'"
  using assms
  by (auto simp: record_model_step_def record_tool_call_def record_protocol_error_def
      record_tokens_def BudgetTracker_ok_def bindR_Inr_iff)

lemma record_one [simp]:
  "record_model_step b 1 = Inr (b\<lparr>model_steps := model_steps b + 1\<rparr>)"
  "record_tool_call b 1 = Inr (b\<lparr>tool_calls := tool_calls b + 1\<rparr>)"
  "record_protocol_error b 1 = Inr (b\<lparr>protocol_errors := protocol_errors b + 1\<rparr>)"
  by (simp_all add: record_model_step_def record_tool_call_def record_protocol_error_def)

definition snapshot :: "BudgetTracker \<Rightarrow> rat \<Rightarrow> jobj" where
  "snapshot b now =
     [(lit ''model_steps'', JInt (model_steps b)),
      (lit ''tool_calls'', JInt (tool_calls b)),
      (lit ''protocol_errors'', JInt (protocol_errors b)),
      (lit ''input_tokens'', JInt (input_tokens b)),
      (lit ''output_tokens'', JInt (output_tokens b)),
      (lit ''started_at'', json_opt_float (map_option Finite (started_at b))),
      (lit ''deadline'', json_opt_float (map_option Finite (deadline b))),
      (lit ''max_steps'', json_opt_int (max_steps b)),
      (lit ''max_tool_calls'', json_opt_int (max_tool_calls b)),
      (lit ''max_protocol_errors'', json_opt_int (max_protocol_errors b)),
      (lit ''max_wall_seconds'', json_opt_float (map_option Finite (max_wall_seconds b))),
      (lit ''elapsed_seconds'',
         JFloat (Finite (max 0 (now - (case started_at b of None \<Rightarrow> 0 | Some s \<Rightarrow> s)))))]"

section \<open>Context state\<close>

type_synonym message = jobj

record ContextState =
  latest_summary :: "str option"
  covered_through_sequence :: int
  recent_messages :: "message list"
  recent_message_sequences :: "int option list"
  degraded_through_sequence :: int
  degraded_notice :: "str option"

definition pad_sequences :: "message list \<Rightarrow> int option list \<Rightarrow> int option list" where
  "pad_sequences ms ss = ss @ replicate (length ms - length ss) None"

definition ContextState_post_init :: "ContextState \<Rightarrow> ContextState res" where
  "ContextState_post_init c =
     bindR (guardR (0 \<le> covered_through_sequence c) (nonneg_error ''covered_through_sequence'')) (\<lambda>_.
     bindR (guardR (0 \<le> degraded_through_sequence c) (nonneg_error ''degraded_through_sequence'')) (\<lambda>_.
     bindR (guardR (\<not> length (recent_messages c) < length (recent_message_sequences c))
              (ValueError (lit ''recent_message_sequences cannot outnumber messages''))) (\<lambda>_.
     bindR (guardR (list_all nonneg_option (recent_message_sequences c))
              (nonneg_error ''message sequence'')) (\<lambda>_.
     Inr (c\<lparr>recent_message_sequences :=
              pad_sequences (recent_messages c) (recent_message_sequences c)\<rparr>)))))"

definition append_message :: "ContextState \<Rightarrow> message \<Rightarrow> int option \<Rightarrow> ContextState res" where
  "append_message c m sequence =
     bindR (guardR (nonneg_option sequence) (nonneg_error ''message sequence'')) (\<lambda>_.
     Inr (c\<lparr>recent_messages := recent_messages c @ [m],
            recent_message_sequences :=
              pad_sequences (recent_messages c) (recent_message_sequences c) @ [sequence]\<rparr>))"

definition ContextState_ok :: "ContextState \<Rightarrow> bool" where
  "ContextState_ok c \<longleftrightarrow>
     length (recent_message_sequences c) = length (recent_messages c) \<and>
     list_all nonneg_option (recent_message_sequences c) \<and>
     0 \<le> covered_through_sequence c \<and> 0 \<le> degraded_through_sequence c"

definition ContextState_empty :: ContextState where
  "ContextState_empty =
     \<lparr>latest_summary = None, covered_through_sequence = 0, recent_messages = [],
      recent_message_sequences = [], degraded_through_sequence = 0, degraded_notice = None\<rparr>"

lemma length_pad_sequences [simp]: "length ss \<le> length ms \<Longrightarrow> length (pad_sequences ms ss) = length ms"
  by (simp add: pad_sequences_def)

lemma pad_sequences_full [simp]: "length ss = length ms \<Longrightarrow> pad_sequences ms ss = ss"
  by (simp add: pad_sequences_def)

lemma ContextState_empty_ok [simp]: "ContextState_ok ContextState_empty"
  by (simp add: ContextState_ok_def ContextState_empty_def)

lemma ContextState_post_init_ok: "ContextState_post_init c = Inr c' \<Longrightarrow> ContextState_ok c'"
  by (auto simp: ContextState_post_init_def ContextState_ok_def bindR_Inr_iff pad_sequences_def
      list_all_iff nonneg_option_def)

lemma append_message_ok:
  "ContextState_ok c \<Longrightarrow> append_message c m s = Inr c' \<Longrightarrow> ContextState_ok c'"
  by (auto simp: append_message_def ContextState_ok_def bindR_Inr_iff)

lemma append_message_fields:
  "append_message c m s = Inr c' \<Longrightarrow>
     recent_messages c' = recent_messages c @ [m] \<and> latest_summary c' = latest_summary c \<and>
     covered_through_sequence c' = covered_through_sequence c \<and>
     degraded_through_sequence c' = degraded_through_sequence c \<and>
     degraded_notice c' = degraded_notice c"
  by (auto simp: append_message_def bindR_Inr_iff)

text \<open>The limit check reports the first exhausted dimension in the order steps, tool calls,
  protocol errors, wall time; it reports none exactly when every configured dimension has
  room.  A tracker that passed its initialization is well formed, recording a step, a call,
  an error or tokens keeps it so, and a recorded unit is never lost: it moves exactly its
  own counter.\<close>

theorem budget_limits:
  assumes "BudgetTracker_post_init b0 now0 = Inr b"
  shows "BudgetTracker_ok b \<and>
    (limit_reached b now = None \<longleftrightarrow>
       (\<forall>m. max_steps b = Some m \<longrightarrow> model_steps b < m) \<and>
       (\<forall>m. max_tool_calls b = Some m \<longrightarrow> tool_calls b < m) \<and>
       (\<forall>m. max_protocol_errors b = Some m \<longrightarrow> protocol_errors b < m) \<and>
       (\<forall>d. deadline b = Some d \<longrightarrow> now < d)) \<and>
    (\<forall>m. max_steps b = Some m \<and> m \<le> model_steps b \<longrightarrow> limit_reached b now = Some MODEL_STEPS) \<and>
    (\<forall>n. 0 \<le> n \<longrightarrow>
       (\<exists>b1 b2 b3. record_model_step b n = Inr b1 \<and> record_tool_call b n = Inr b2 \<and>
          record_protocol_error b n = Inr b3 \<and>
          BudgetTracker_ok b1 \<and> BudgetTracker_ok b2 \<and> BudgetTracker_ok b3 \<and>
          b1 = b\<lparr>model_steps := model_steps b + n\<rparr> \<and> b2 = b\<lparr>tool_calls := tool_calls b + n\<rparr> \<and>
          b3 = b\<lparr>protocol_errors := protocol_errors b + n\<rparr>)) \<and>
    (\<forall>n < 0. \<not> is_ok (record_model_step b n) \<and> \<not> is_ok (record_tool_call b n) \<and>
       \<not> is_ok (record_protocol_error b n))"
proof -
  have ok: "BudgetTracker_ok b" using assms by (rule BudgetTracker_post_init_ok)
  have lim: "limit_reached b now = None \<longleftrightarrow>
       (\<forall>m. max_steps b = Some m \<longrightarrow> model_steps b < m) \<and>
       (\<forall>m. max_tool_calls b = Some m \<longrightarrow> tool_calls b < m) \<and>
       (\<forall>m. max_protocol_errors b = Some m \<longrightarrow> protocol_errors b < m) \<and>
       (\<forall>d. deadline b = Some d \<longrightarrow> now < d)"
    by (auto simp: limit_reached_def reached_def split: option.splits)
  have first: "\<forall>m. max_steps b = Some m \<and> m \<le> model_steps b \<longrightarrow> limit_reached b now = Some MODEL_STEPS"
    by (simp add: limit_reached_def reached_def)
  have moved: "BudgetTracker_ok (b\<lparr>model_steps := model_steps b + n\<rparr>)"
      "BudgetTracker_ok (b\<lparr>tool_calls := tool_calls b + n\<rparr>)"
      "BudgetTracker_ok (b\<lparr>protocol_errors := protocol_errors b + n\<rparr>)" if "0 \<le> n" for n
    using ok that by (auto simp: BudgetTracker_ok_def)
  show ?thesis
    using ok lim first moved
    by (simp add: record_model_step_def record_tool_call_def record_protocol_error_def guardR_def)
qed

end
