(* ===== verification/Json.thy ===== *)
theory Json
  imports Runtime "HOL-Library.List_Lexorder"
begin

text \<open>
  The \<open>json\<close> module as the program uses it: \<open>json.dumps(..., ensure_ascii=False,
  allow_nan=False, separators=(",", ":"))\<close> with and without \<open>sort_keys\<close>, and
  \<open>json.loads\<close> with and without a \<open>parse_constant\<close> that raises.  Reading splits the text into tokens
  and runs the grammar over them with an explicit stack; every syntax error is the one
  answer None (\<open>JSONDecodeError\<close> and the constant's \<open>ValueError\<close> are both \<open>ValueError\<close>).

  The text of a finite float and its inverse (\<open>float.__repr__\<close> and \<open>float()\<close>) are the
  parameters \<open>frepr\<close> and \<open>fparse\<close>.  The interpreter's recursion limit and its limit on the
  number of digits of an integer are not modelled.
\<close>

section \<open>Writing\<close>

fun finite_json :: "json \<Rightarrow> bool" where
  "finite_json (JFloat f) = (case f of Finite _ \<Rightarrow> True | _ \<Rightarrow> False)"
| "finite_json (JArr xs) = list_all finite_json xs"
| "finite_json (JObj d) = list_all (\<lambda>p. finite_json (snd p)) d"
| "finite_json _ = True"

definition hex_digit :: "nat \<Rightarrow> nat" where
  "hex_digit n = (if n < 10 then 48 + n else 87 + n)"

definition escape_char :: "nat \<Rightarrow> str" where
  "escape_char c =
     (if c = 34 then [92, 34] else if c = 92 then [92, 92]
      else if c = 10 then [92, 110] else if c = 13 then [92, 114] else if c = 9 then [92, 116]
      else if c = 12 then [92, 102] else if c = 8 then [92, 98]
      else if c < 32 then [92, 117, 48, 48, hex_digit (c div 16), hex_digit (c mod 16)]
      else [c])"

definition render_string :: "str \<Rightarrow> str" where
  "render_string s = 34 # concat (map escape_char s) @ [34]"

fun join_with :: "nat \<Rightarrow> str list \<Rightarrow> str" where
  "join_with c [] = []"
| "join_with c [x] = x"
| "join_with c (x # xs) = x @ c # join_with c xs"

fun render :: "(rat \<Rightarrow> str) \<Rightarrow> json \<Rightarrow> str" where
  "render frepr JNull = lit ''null''"
| "render frepr (JBool b) = (if b then lit ''true'' else lit ''false'')"
| "render frepr (JInt i) = dec_int i"
| "render frepr (JFloat f) = (case f of Finite q \<Rightarrow> frepr q | _ \<Rightarrow> [])"
| "render frepr (JStr s) = render_string s"
| "render frepr (JArr xs) = 91 # join_with 44 (map (render frepr) xs) @ [93]"
| "render frepr (JObj d) =
     123 # join_with 44 (map (\<lambda>p. render_string (fst p) @ 58 # render frepr (snd p)) d) @ [125]"

definition json_dumps :: "(rat \<Rightarrow> str) \<Rightarrow> json \<Rightarrow> str res" where
  "json_dumps frepr v =
     (if finite_json v then Inr (render frepr v)
      else Inl (ValueError (lit ''Out of range float values are not JSON compliant'')))"

fun sort_json :: "json \<Rightarrow> json" where
  "sort_json (JArr xs) = JArr (map sort_json xs)"
| "sort_json (JObj d) = JObj (sort_key fst (map (\<lambda>p. (fst p, sort_json (snd p))) d))"
| "sort_json v = v"

text \<open>\<open>_canonical_json\<close> of \<open>events.py\<close> and \<open>session.py\<close>.\<close>

definition canonical_json :: "(rat \<Rightarrow> str) \<Rightarrow> json \<Rightarrow> str res" where
  "canonical_json frepr v = json_dumps frepr (sort_json v)"

section \<open>Reading: tokens\<close>

datatype token = LBrace | RBrace | LBracket | RBracket | Comma | Colon | TStr str | TVal json

definition is_digit :: "nat \<Rightarrow> bool" where
  "is_digit c \<longleftrightarrow> 48 \<le> c \<and> c \<le> 57"

definition digits_value :: "str \<Rightarrow> nat" where
  "digits_value s = foldl (\<lambda>a c. 10 * a + (c - 48)) 0 s"

definition hex_value :: "nat \<Rightarrow> nat option" where
  "hex_value c =
     (if is_digit c then Some (c - 48)
      else if 97 \<le> c \<and> c \<le> 102 then Some (c - 87)
      else if 65 \<le> c \<and> c \<le> 70 then Some (c - 55) else None)"

definition hex4 :: "nat \<Rightarrow> nat \<Rightarrow> nat \<Rightarrow> nat \<Rightarrow> nat option" where
  "hex4 a b c d =
     (case (hex_value a, hex_value b, hex_value c, hex_value d) of
        (Some p, Some q, Some r, Some s) \<Rightarrow> Some (((p * 16 + q) * 16 + r) * 16 + s)
      | _ \<Rightarrow> None)"

definition simple_escape :: "nat \<Rightarrow> nat option" where
  "simple_escape e =
     (if e = 34 \<or> e = 92 \<or> e = 47 then Some e
      else if e = 98 then Some 8 else if e = 102 then Some 12 else if e = 110 then Some 10
      else if e = 114 then Some 13 else if e = 116 then Some 9 else None)"

text \<open>The code units of a string literal after its opening quote; the flag marks the units
  that came from a \<open>\u\<close> escape, the only ones that pair up as surrogates.\<close>

fun lex_units :: "str \<Rightarrow> ((nat \<times> bool) list \<times> str) option" where
  "lex_units [] = None"
| "lex_units (c # r) =
     (if c = 34 then Some ([], r)
      else if c = 92 then
        (case r of
           [] \<Rightarrow> None
         | e # r1 \<Rightarrow>
             if e = 117 then
               (case r1 of
                  h1 # h2 # h3 # h4 # r2 \<Rightarrow>
                    (case hex4 h1 h2 h3 h4 of
                       None \<Rightarrow> None
                     | Some u \<Rightarrow> map_option (\<lambda>(us, t). ((u, True) # us, t)) (lex_units r2))
                | _ \<Rightarrow> None)
             else
               (case simple_escape e of
                  None \<Rightarrow> None
                | Some u \<Rightarrow> map_option (\<lambda>(us, t). ((u, False) # us, t)) (lex_units r1)))
      else if c < 32 then None
      else map_option (\<lambda>(us, t). ((c, False) # us, t)) (lex_units r))"

fun join_surrogates :: "(nat \<times> bool) list \<Rightarrow> str" where
  "join_surrogates ((h, True) # (l, True) # r) =
     (if 55296 \<le> h \<and> h \<le> 56319 \<and> 56320 \<le> l \<and> l \<le> 57343
      then (65536 + (h - 55296) * 1024 + (l - 56320)) # join_surrogates r
      else h # join_surrogates ((l, True) # r))"
| "join_surrogates (u # r) = fst u # join_surrogates r"
| "join_surrogates [] = []"

definition lex_string :: "str \<Rightarrow> (str \<times> str) option" where
  "lex_string r = map_option (\<lambda>(us, t). (join_surrogates us, t)) (lex_units r)"

text \<open>The number pattern: an integer part, then an optional fraction and exponent.\<close>

definition lex_frac :: "str \<Rightarrow> str \<times> str" where
  "lex_frac r =
     (case r of
        c # r1 \<Rightarrow> if c = 46 \<and> takeWhile is_digit r1 \<noteq> []
                   then (c # takeWhile is_digit r1, dropWhile is_digit r1) else ([], r)
      | [] \<Rightarrow> ([], r))"

definition lex_exp :: "str \<Rightarrow> str \<times> str" where
  "lex_exp r =
     (case r of
        c # r1 \<Rightarrow>
          if c = 101 \<or> c = 69 then
            (let (sg, r2) = (case r1 of s # r' \<Rightarrow> if s = 43 \<or> s = 45 then ([s], r') else ([], r1)
                             | [] \<Rightarrow> ([], r1)) in
             if takeWhile is_digit r2 \<noteq> []
             then (c # sg @ takeWhile is_digit r2, dropWhile is_digit r2) else ([], r))
          else ([], r)
      | [] \<Rightarrow> ([], r))"

definition lex_nat :: "str \<Rightarrow> (str \<times> str) option" where
  "lex_nat r =
     (case r of
        [] \<Rightarrow> None
      | c # r1 \<Rightarrow> if c = 48 then Some ([48], r1)
                  else if is_digit c then Some (takeWhile is_digit r, dropWhile is_digit r)
                  else None)"

definition split_sign :: "str \<Rightarrow> str \<times> str" where
  "split_sign r = (case r of c # r' \<Rightarrow> if c = 45 then ([45], r') else ([], r) | [] \<Rightarrow> ([], r))"

definition lex_number :: "(str \<Rightarrow> pyfloat) \<Rightarrow> str \<Rightarrow> (json \<times> str) option" where
  "lex_number fparse r =
     (let (sg, r1) = split_sign r in
      case lex_nat r1 of
        None \<Rightarrow> None
      | Some (ds, r2) \<Rightarrow>
          let (fr, r3) = lex_frac r2; (ex, r4) = lex_exp r3 in
          Some (if fr = [] \<and> ex = []
                then JInt (if sg = [] then int (digits_value ds) else - int (digits_value ds))
                else JFloat (fparse (sg @ ds @ fr @ ex)), r4))"

definition is_ws :: "nat \<Rightarrow> bool" where
  "is_ws c \<longleftrightarrow> c = 32 \<or> c = 9 \<or> c = 10 \<or> c = 13"

text \<open>One token at a non-blank character.  \<open>NaN\<close> and the infinities are tokens where the caller
  left \<open>parse_constant\<close> alone (\<open>pc\<close>), and errors where it passed one that raises.\<close>

definition lex_token :: "bool \<Rightarrow> (str \<Rightarrow> pyfloat) \<Rightarrow> str \<Rightarrow> (token \<times> str) option" where
  "lex_token pc fparse s =
     (case s of
        [] \<Rightarrow> None
      | c # r \<Rightarrow>
          if c = 123 then Some (LBrace, r) else if c = 125 then Some (RBrace, r)
          else if c = 91 then Some (LBracket, r) else if c = 93 then Some (RBracket, r)
          else if c = 44 then Some (Comma, r) else if c = 58 then Some (Colon, r)
          else if c = 34 then map_option (\<lambda>(t, r'). (TStr t, r')) (lex_string r)
          else if take 4 s = lit ''null'' then Some (TVal JNull, drop 4 s)
          else if take 4 s = lit ''true'' then Some (TVal (JBool True), drop 4 s)
          else if take 5 s = lit ''false'' then Some (TVal (JBool False), drop 5 s)
          else (case lex_number fparse s of
                  Some (v, r') \<Rightarrow> Some (TVal v, r')
                | None \<Rightarrow>
                    if \<not> pc then None
                    else if take 3 s = lit ''NaN'' then Some (TVal (JFloat NaN), drop 3 s)
                    else if take 8 s = lit ''Infinity'' then Some (TVal (JFloat PosInf), drop 8 s)
                    else if take 9 s = lit ''-Infinity'' then Some (TVal (JFloat NegInf), drop 9 s)
                    else None))"

lemma lex_units_shorter: "lex_units r = Some (us, t) \<Longrightarrow> length t < length r"
proof (induction r arbitrary: us t rule: lex_units.induct)
  case (2 c r)
  then show ?case
    by (auto split: if_splits list.splits option.splits) fastforce+
qed simp

lemma lex_nat_shorter: "lex_nat r = Some (ds, t) \<Longrightarrow> length t < length r"
  using length_dropWhile_le [of is_digit "tl r"]
  by (auto simp: lex_nat_def split: list.splits if_splits)

lemma lex_frac_shorter: "lex_frac r = (f, t) \<Longrightarrow> length t \<le> length r"
  using length_dropWhile_le [of is_digit "tl r"]
  by (auto simp: lex_frac_def split: list.splits if_splits)

lemma lex_exp_shorter: "lex_exp r = (f, t) \<Longrightarrow> length t \<le> length r"
  using length_dropWhile_le [of is_digit "tl r"] length_dropWhile_le [of is_digit "tl (tl r)"]
  by (auto simp: lex_exp_def Let_def split: list.splits if_splits)

lemma lex_number_shorter:
  assumes "lex_number fparse r = Some (v, t)"
  shows "length t < length r"
proof -
  obtain sg r1 where q: "split_sign r = (sg, r1)" by (cases "split_sign r")
  then have l: "length r1 \<le> length r" by (auto simp: split_sign_def split: list.splits if_splits)
  obtain ds r2 fr r3 ex where "lex_nat r1 = Some (ds, r2)" "lex_frac r2 = (fr, r3)"
      "lex_exp r3 = (ex, t)"
    using assms unfolding lex_number_def q by (auto simp: Let_def split: prod.splits option.splits)
  then show ?thesis using l lex_nat_shorter lex_frac_shorter lex_exp_shorter by fastforce
qed

lemma lex_token_shorter:
  assumes "lex_token pc fparse s = Some (k, t)"
  shows "length t < length s"
proof -
  obtain c r where s: "s = c # r" using assms by (cases s) (auto simp: lex_token_def)
  show ?thesis
    using assms lex_units_shorter [of r] lex_number_shorter [of fparse s] unfolding s lex_token_def
    by (auto simp: lex_string_def split: if_splits option.splits)
qed

function lex :: "bool \<Rightarrow> (str \<Rightarrow> pyfloat) \<Rightarrow> str \<Rightarrow> token list option" where
  "lex pc fparse s =
     (case s of
        [] \<Rightarrow> Some []
      | c # r \<Rightarrow>
          if is_ws c then lex pc fparse r
          else (case lex_token pc fparse s of
                  None \<Rightarrow> None
                | Some (k, t) \<Rightarrow> map_option ((#) k) (lex pc fparse t)))"
  by pat_completeness auto
termination
  by (relation "measure (\<lambda>(_, _, s). length s)") (auto dest: lex_token_shorter)

declare lex.simps [simp del]

section \<open>Reading: the grammar\<close>

datatype frame = FArr "json list" | FObj jobj str

datatype pstate =
    PValue "frame list"
  | PArrStart "frame list"
  | PObjStart "frame list"
  | PKey "frame list" jobj
  | PColon "frame list" jobj str
  | PAfter "frame list" json
  | PFail

definition start_value :: "frame list \<Rightarrow> token \<Rightarrow> pstate" where
  "start_value st k =
     (case k of
        LBrace \<Rightarrow> PObjStart st
      | LBracket \<Rightarrow> PArrStart st
      | TStr s \<Rightarrow> PAfter st (JStr s)
      | TVal v \<Rightarrow> PAfter st v
      | _ \<Rightarrow> PFail)"

fun pstep :: "pstate \<Rightarrow> token \<Rightarrow> pstate" where
  "pstep (PValue st) k = start_value st k"
| "pstep (PArrStart st) k =
     (if k = RBracket then PAfter st (JArr []) else start_value (FArr [] # st) k)"
| "pstep (PObjStart st) k =
     (case k of RBrace \<Rightarrow> PAfter st (JObj []) | TStr s \<Rightarrow> PColon st [] s | _ \<Rightarrow> PFail)"
| "pstep (PKey st d) k = (case k of TStr s \<Rightarrow> PColon st d s | _ \<Rightarrow> PFail)"
| "pstep (PColon st d s) k = (if k = Colon then PValue (FObj d s # st) else PFail)"
| "pstep (PAfter (FArr xs # st) v) k =
     (if k = Comma then PValue (FArr (xs @ [v]) # st)
      else if k = RBracket then PAfter st (JArr (xs @ [v])) else PFail)"
| "pstep (PAfter (FObj d s # st) v) k =
     (if k = Comma then PKey st (dset d s v)
      else if k = RBrace then PAfter st (JObj (dset d s v)) else PFail)"
| "pstep (PAfter [] v) k = PFail"
| "pstep PFail k = PFail"

text \<open>\<open>json.loads\<close> of a string; a leading byte order mark is refused.\<close>

definition json_loads :: "bool \<Rightarrow> (str \<Rightarrow> pyfloat) \<Rightarrow> str \<Rightarrow> json option" where
  "json_loads pc fparse s =
     (if s \<noteq> [] \<and> hd s = 65279 then None
      else case lex pc fparse s of
        None \<Rightarrow> None
      | Some ts \<Rightarrow>
          (case foldl pstep (PValue []) ts of PAfter [] v \<Rightarrow> Some v | _ \<Rightarrow> None))"

end
