(* ===== verification/JsonRoundtrip.thy ===== *)
theory JsonRoundtrip
  imports Json
begin

text \<open>
  Reading back what the program writes: \<open>json.loads\<close> inverts \<open>json.dumps\<close> on every
  well-formed value whose floats have a faithful text, and sorting the keys changes no
  lookup.
\<close>

section \<open>Well-formed values\<close>

fun json_wf :: "json \<Rightarrow> bool" where
  "json_wf (JArr xs) = list_all json_wf xs"
| "json_wf (JObj d) = (distinct (map fst d) \<and> list_all (\<lambda>p. json_wf (snd p)) d)"
| "json_wf _ = True"

text \<open>What the code relies on of the platform's float text: it is a JSON number with a
  fraction or an exponent, and reads back as the same float.\<close>

definition float_text_ok :: "(rat \<Rightarrow> str) \<Rightarrow> (str \<Rightarrow> pyfloat) \<Rightarrow> rat \<Rightarrow> bool" where
  "float_text_ok frepr fparse q \<longleftrightarrow> lex_number fparse (frepr q) = Some (JFloat (Finite q), [])"

fun floats_ok :: "(rat \<Rightarrow> bool) \<Rightarrow> json \<Rightarrow> bool" where
  "floats_ok P (JFloat f) = (case f of Finite q \<Rightarrow> P q | _ \<Rightarrow> False)"
| "floats_ok P (JArr xs) = list_all (floats_ok P) xs"
| "floats_ok P (JObj d) = list_all (\<lambda>p. floats_ok P (snd p)) d"
| "floats_ok P _ = True"

lemma floats_ok_finite: "floats_ok P v \<Longrightarrow> finite_json v"
  by (induction v rule: json_induct) (auto simp: list_all_iff split: pyfloat.splits)

section \<open>Strings\<close>

definition unit_of :: "nat \<Rightarrow> nat \<times> bool" where
  "unit_of c = (c, c < 32 \<and> c \<notin> {8, 9, 10, 12, 13})"

lemma hex_value_digit: "n < 16 \<Longrightarrow> hex_value (hex_digit n) = Some n"
  by (auto simp: hex_value_def hex_digit_def is_digit_def)

lemma hex4_control:
  assumes "c < 32"
  shows "hex4 48 48 (hex_digit (c div 16)) (hex_digit (c mod 16)) = Some c"
proof -
  have z: "hex_value 48 = Some 0" by (simp add: hex_value_def is_digit_def)
  have "hex_value (hex_digit (c div 16)) = Some (c div 16)"
       "hex_value (hex_digit (c mod 16)) = Some (c mod 16)"
    using assms by (auto intro: hex_value_digit)
  then show ?thesis by (simp add: hex4_def z)
qed

lemma lex_units_escape:
  "lex_units (escape_char c @ r) = map_option (\<lambda>(us, t). (unit_of c # us, t)) (lex_units r)"
proof -
  consider "c \<in> {34, 92, 10, 13, 9, 12, 8}" | "c < 32" "c \<notin> {8, 9, 10, 12, 13}" | "32 \<le> c" "c \<notin> {34, 92}"
    by force
  then show ?thesis
  proof cases
    case 1
    then show ?thesis by (auto simp: escape_char_def unit_of_def simple_escape_def)
  next
    case 2
    have e: "escape_char c = [92, 117, 48, 48, hex_digit (c div 16), hex_digit (c mod 16)]"
      using 2 by (auto simp: escape_char_def)
    have u: "unit_of c = (c, True)" using 2 by (simp add: unit_of_def)
    show ?thesis unfolding e u
      by (simp add: hex4_control [OF 2(1)])
  next
    case 3
    then have "escape_char c = [c]" by (auto simp: escape_char_def)
    then show ?thesis using 3 by (auto simp: unit_of_def)
  qed
qed

lemma lex_units_string: "lex_units (concat (map escape_char s) @ 34 # r) = Some (map unit_of s, r)"
  by (induction s) (simp_all add: lex_units_escape)

lemma join_surrogates_plain:
  "\<forall>(u, b) \<in> set us. b \<longrightarrow> u < 55296 \<Longrightarrow> join_surrogates us = map fst us"
  by (induction us rule: join_surrogates.induct) auto

lemma lex_string_render: "lex_string (concat (map escape_char s) @ 34 # r) = Some (s, r)"
proof -
  have "join_surrogates (map unit_of s) = map fst (map unit_of s)"
    by (rule join_surrogates_plain) (auto simp: unit_of_def)
  then have "join_surrogates (map unit_of s) = s" by (simp add: comp_def unit_of_def)
  then show ?thesis by (simp add: lex_string_def lex_units_string)
qed

section \<open>Numbers\<close>

definition follow :: "str \<Rightarrow> bool" where
  "follow r \<longleftrightarrow> r = [] \<or> hd r \<in> {44, 93, 125}"

lemma follow_simps [simp]: "follow []" "follow (44 # r)" "follow (93 # r)" "follow (125 # r)"
  by (simp_all add: follow_def)

lemma follow_not_digit: "follow r \<Longrightarrow> takeWhile is_digit r = [] \<and> dropWhile is_digit r = r"
  by (cases r) (auto simp: follow_def is_digit_def)

lemma takeWhile_follow:
  "follow r \<Longrightarrow> takeWhile is_digit (s @ r) = takeWhile is_digit s"
  using follow_not_digit [of r] by (induction s) auto

lemma dropWhile_follow:
  "follow r \<Longrightarrow> dropWhile is_digit (s @ r) = dropWhile is_digit s @ r"
  using follow_not_digit [of r] by (induction s) auto

lemma lex_nat_append:
  "follow r \<Longrightarrow> lex_nat s = Some (ds, t) \<Longrightarrow> lex_nat (s @ r) = Some (ds, t @ r)"
  by (auto simp: lex_nat_def takeWhile_follow dropWhile_follow split: list.splits if_splits)

lemma lex_frac_append:
  "follow r \<Longrightarrow> lex_frac s = (f, t) \<Longrightarrow> lex_frac (s @ r) = (f, t @ r)"
  by (cases s) (auto simp: lex_frac_def takeWhile_follow dropWhile_follow follow_def split: if_splits list.splits)

lemma lex_exp_append:
  assumes r: "follow r" and s: "lex_exp s = (f, t)"
  shows "lex_exp (s @ r) = (f, t @ r)"
proof (cases s)
  case Nil
  then show ?thesis using assms by (cases r) (auto simp: lex_exp_def follow_def)
next
  case (Cons c s1)
  show ?thesis
  proof (cases s1)
    case Nil
    have "(case r of [] \<Rightarrow> ([], r) | s # r' \<Rightarrow> if s = 43 \<or> s = 45 then ([s], r') else ([], r)) = ([], r)"
      using r by (cases r) (auto simp: follow_def)
    then show ?thesis using s Cons Nil follow_not_digit [OF r]
      by (auto simp: lex_exp_def Let_def split: if_splits)
  next
    case (Cons d s2)
    then show ?thesis using s \<open>s = c # s1\<close>
      by (auto simp: lex_exp_def Let_def takeWhile_follow [OF r] dropWhile_follow [OF r] split: if_splits)
  qed
qed

lemma lex_number_append:
  assumes r: "follow r" and s: "lex_number fparse s = Some (v, t)"
  shows "lex_number fparse (s @ r) = Some (v, t @ r)"
proof -
  obtain sg r1 where sg: "split_sign s = (sg, r1)" by (cases "split_sign s")
  have ne: "s \<noteq> []" using s by (auto simp: lex_number_def lex_nat_def split_sign_def)
  then have sp: "split_sign (s @ r) = (sg, r1 @ r)"
    using sg by (cases s) (auto simp: split_sign_def split: if_splits)
  obtain ds r2 fr r3 ex where p: "lex_nat r1 = Some (ds, r2)" "lex_frac r2 = (fr, r3)"
      "lex_exp r3 = (ex, t)"
    and v: "v = (if fr = [] \<and> ex = []
                then JInt (if sg = [] then int (digits_value ds) else - int (digits_value ds))
                else JFloat (fparse (sg @ ds @ fr @ ex)))"
    using s unfolding lex_number_def sg by (auto simp: Let_def split: prod.splits option.splits)
  note q = lex_nat_append [OF r p(1)] lex_frac_append [OF r p(2)] lex_exp_append [OF r p(3)]
  show ?thesis
    unfolding lex_number_def sp using q v by (simp add: Let_def)
qed

lemma lex_number_hd:
  "lex_number fparse s = Some (v, t) \<Longrightarrow> \<exists>c r. s = c # r \<and> (is_digit c \<or> c = 45)"
  by (cases s) (auto simp: lex_number_def lex_nat_def split_sign_def is_digit_def split: if_splits)

lemma dec_is_digit: "list_all is_digit (dec n)"
  using dec_digits by (auto simp: list_all_iff is_digit_def)

lemma digits_value_snoc: "digits_value (s @ [c]) = 10 * digits_value s + (c - 48)"
  by (simp add: digits_value_def)

lemma digits_value_dec: "digits_value (dec n) = n"
proof (induction n rule: dec.induct)
  case (1 n)
  show ?case
  proof (cases "n < 10")
    case True
    then show ?thesis by (subst dec.simps) (simp add: digits_value_def)
  next
    case False
    then have "dec n = dec (n div 10) @ [48 + n mod 10]" by (subst dec.simps) simp
    then show ?thesis using 1 False by (simp add: digits_value_snoc)
  qed
qed

lemma dec_hd_zero: "hd (dec n) = 48 \<longleftrightarrow> n = 0"
proof (induction n rule: dec.induct)
  case (1 n)
  show ?case
  proof (cases "n < 10")
    case True
    then show ?thesis by (subst dec.simps) simp
  next
    case False
    then have "dec n = dec (n div 10) @ [48 + n mod 10]" by (subst dec.simps) simp
    then show ?thesis using 1 False by (simp add: div_eq_0_iff)
  qed
qed

lemma lex_nat_dec: "lex_nat (dec n) = Some (dec n, [])"
proof (cases "n = 0")
  case True
  then show ?thesis by (simp add: lex_nat_def dec.simps)
next
  case False
  obtain c r where cr: "dec n = c # r" by (cases "dec n") auto
  have d: "list_all is_digit (c # r)" using dec_is_digit [of n] cr by simp
  have "c \<noteq> 48" using dec_hd_zero [of n] cr False by simp
  moreover have "takeWhile is_digit (c # r) = c # r" "dropWhile is_digit (c # r) = []"
    using d by (auto simp: list_all_iff takeWhile_eq_all_conv)
  ultimately show ?thesis using d unfolding cr by (simp add: lex_nat_def)
qed

lemma lex_number_int: "lex_number fparse (dec_int i) = Some (JInt i, [])"
proof -
  have hd: "\<exists>c r. dec n = c # r \<and> c \<noteq> 45" for n
    using dec_is_digit [of n] by (cases "dec n") (auto simp: is_digit_def)
  show ?thesis
  proof (cases "i < 0")
    case True
    have "lit ''-'' = [45]" by (simp add: lit_def)
    then show ?thesis using True
      by (simp add: dec_int_def lex_number_def split_sign_def Let_def lex_nat_dec lex_frac_def lex_exp_def digits_value_dec)
  next
    case False
    obtain c r where "dec (nat i) = c # r" "c \<noteq> 45" using hd by blast
    then have "split_sign (dec (nat i)) = ([], dec (nat i))" by (simp add: split_sign_def)
    then show ?thesis using False
      by (simp add: dec_int_def lex_number_def Let_def lex_nat_dec lex_frac_def lex_exp_def digits_value_dec)
  qed
qed

section \<open>Tokens\<close>

fun join_toks :: "token list list \<Rightarrow> token list" where
  "join_toks [] = []"
| "join_toks [x] = x"
| "join_toks (x # xs) = x @ Comma # join_toks xs"

fun toks :: "json \<Rightarrow> token list" where
  "toks (JStr s) = [TStr s]"
| "toks (JArr xs) = LBracket # join_toks (map toks xs) @ [RBracket]"
| "toks (JObj d) = LBrace # join_toks (map (\<lambda>p. TStr (fst p) # Colon # toks (snd p)) d) @ [RBrace]"
| "toks v = [TVal v]"

lemma lex_punct:
  "lex pc fparse (123 # r) = map_option ((#) LBrace) (lex pc fparse r)"
  "lex pc fparse (125 # r) = map_option ((#) RBrace) (lex pc fparse r)"
  "lex pc fparse (91 # r) = map_option ((#) LBracket) (lex pc fparse r)"
  "lex pc fparse (93 # r) = map_option ((#) RBracket) (lex pc fparse r)"
  "lex pc fparse (44 # r) = map_option ((#) Comma) (lex pc fparse r)"
  "lex pc fparse (58 # r) = map_option ((#) Colon) (lex pc fparse r)"
  by (subst lex.simps, simp add: is_ws_def lex_token_def)+

lemma lex_render_string:
  "lex pc fparse (render_string s @ r) = map_option ((#) (TStr s)) (lex pc fparse r)"
  by (subst lex.simps) (simp add: render_string_def is_ws_def lex_token_def lex_string_render)

lemma take_lit_hd: "take 4 (c # r) = lit ''null'' \<Longrightarrow> c = 110" "take 4 (c # r) = lit ''true'' \<Longrightarrow> c = 116"
    "take 5 (c # r) = lit ''false'' \<Longrightarrow> c = 102"
  by (simp_all add: lit_def)

lemma lex_number_token:
  assumes "follow r" "lex_number fparse s = Some (v, [])"
  shows "lex pc fparse (s @ r) = map_option ((#) (TVal v)) (lex pc fparse r)"
proof -
  obtain c s' where s: "s = c # s'" "is_digit c \<or> c = 45" using lex_number_hd [OF assms(2)] by blast
  have "lex_number fparse (s @ r) = Some (v, r)" using lex_number_append [OF assms] by simp
  moreover have "take 4 (c # s' @ r) \<noteq> lit ''null''" "take 4 (c # s' @ r) \<noteq> lit ''true''"
     "take 5 (c # s' @ r) \<noteq> lit ''false''"
    using take_lit_hd [of c "s' @ r"] s(2) by (auto simp: is_digit_def)
  ultimately show ?thesis
    using s(2) unfolding s(1)
    by (subst lex.simps) (auto simp: is_ws_def lex_token_def is_digit_def)
qed

lemma lex_consts:
  "lex pc fparse (lit ''null'' @ r) = map_option ((#) (TVal JNull)) (lex pc fparse r)"
  "lex pc fparse (lit ''true'' @ r) = map_option ((#) (TVal (JBool True))) (lex pc fparse r)"
  "lex pc fparse (lit ''false'' @ r) = map_option ((#) (TVal (JBool False))) (lex pc fparse r)"
proof -
  have "lex_token pc fparse (lit ''null'' @ r) = Some (TVal JNull, r)"
    "lex_token pc fparse (lit ''true'' @ r) = Some (TVal (JBool True), r)"
    "lex_token pc fparse (lit ''false'' @ r) = Some (TVal (JBool False), r)"
    by (simp_all add: lex_token_def lit_def)
  moreover have "lit ''null'' = 110 # [117, 108, 108]" "lit ''true'' = 116 # [114, 117, 101]"
    "lit ''false'' = 102 # [97, 108, 115, 101]"
    by (simp_all add: lit_def)
  ultimately show
    "lex pc fparse (lit ''null'' @ r) = map_option ((#) (TVal JNull)) (lex pc fparse r)"
    "lex pc fparse (lit ''true'' @ r) = map_option ((#) (TVal (JBool True))) (lex pc fparse r)"
    "lex pc fparse (lit ''false'' @ r) = map_option ((#) (TVal (JBool False))) (lex pc fparse r)"
    by (simp_all add: lex.simps [of pc fparse "_ # _"] is_ws_def)
qed

lemma lex_join:
  assumes "\<forall>x \<in> set xs. \<forall>r. follow r \<longrightarrow> lex pc fparse (f x @ r) = map_option ((@) (g x)) (lex pc fparse r)"
    and "follow r"
  shows "lex pc fparse (join_with 44 (map f xs) @ r) = map_option ((@) (join_toks (map g xs))) (lex pc fparse r)"
  using assms(1)
proof (induction xs rule: induct_list012)
  case 1
  then show ?case by (simp add: option.map_ident [unfolded id_def] cong: option.map_cong)
next
  case (2 x)
  then show ?case using assms(2) by simp
next
  case (3 x y zs)
  have "lex pc fparse (join_with 44 (map f (x # y # zs)) @ r)
      = map_option ((@) (g x)) (lex pc fparse (44 # join_with 44 (map f (y # zs)) @ r))"
    using 3(3) by simp
  also have "\<dots> = map_option ((@) (g x)) (map_option ((#) Comma)
      (map_option ((@) (join_toks (map g (y # zs)))) (lex pc fparse r)))"
    using 3(2,3) by (simp add: lex_punct)
  finally show ?case by (simp add: option.map_comp comp_def)
qed

lemma lex_render:
  "floats_ok (float_text_ok frepr fparse) v \<Longrightarrow> follow r \<Longrightarrow>
     lex pc fparse (render frepr v @ r) = map_option ((@) (toks v)) (lex pc fparse r)"
proof (induction v arbitrary: r rule: json_induct)
  case (JBool b)
  then show ?case by (auto simp: lex_consts)
next
  case (JInt i)
  then show ?case using lex_number_token [OF _ lex_number_int] by simp
next
  case (JFloat f)
  then obtain q where "f = Finite q" "float_text_ok frepr fparse q" by (auto split: pyfloat.splits)
  then show ?case using lex_number_token JFloat by (simp add: float_text_ok_def)
next
  case (JArr xs)
  have "\<forall>x \<in> set xs. \<forall>r. follow r \<longrightarrow>
      lex pc fparse (render frepr x @ r) = map_option ((@) (toks x)) (lex pc fparse r)"
    using JArr by (auto simp: list_all_iff)
  from lex_join [OF this, of "93 # r"] show ?case
    by (simp add: lex_punct option.map_comp comp_def)
next
  case (JObj d)
  have "\<forall>p \<in> set d. \<forall>r. follow r \<longrightarrow>
      lex pc fparse ((render_string (fst p) @ 58 # render frepr (snd p)) @ r)
        = map_option ((@) (TStr (fst p) # Colon # toks (snd p))) (lex pc fparse r)"
  proof (intro ballI allI impI)
    fix p and r :: str
    assume "p \<in> set d" "follow r"
    then have "lex pc fparse (render frepr (snd p) @ r) = map_option ((@) (toks (snd p))) (lex pc fparse r)"
      using JObj by (auto simp: list_all_iff)
    then show "lex pc fparse ((render_string (fst p) @ 58 # render frepr (snd p)) @ r)
        = map_option ((@) (TStr (fst p) # Colon # toks (snd p))) (lex pc fparse r)"
      by (cases "lex pc fparse r") (simp_all add: lex_render_string lex_punct)
  qed
  from lex_join [OF this, of "125 # r"] show ?case
    by (simp add: lex_punct option.map_comp comp_def)
next
  case JNull
  then show ?case by (cases "lex pc fparse r") (simp_all add: lex_consts)
next
  case (JStr s)
  then show ?case by (cases "lex pc fparse r") (simp_all add: lex_render_string)
qed

section \<open>The grammar\<close>

lemma dset_new: "k \<notin> fst ` set d \<Longrightarrow> dset d k v = d @ [(k, v)]"
  by (induction d k v rule: dset.induct) auto

lemma start_value_toks:
  assumes "foldl pstep (PValue st) (toks v) = s"
  shows "toks v \<noteq> [] \<and> hd (toks v) \<noteq> RBracket"
  by (cases v) auto

lemma parr_start:
  "foldl pstep (PArrStart st) (toks v @ r) = foldl pstep (PValue (FArr [] # st)) (toks v @ r)"
  using start_value_toks [of st v] by (cases "toks v") auto

lemma parse_toks: "json_wf v \<Longrightarrow> foldl pstep (PValue st) (toks v) = PAfter st v"
proof (induction v arbitrary: st rule: json_induct)
  case (JArr xs)
  have items: "xs \<noteq> [] \<Longrightarrow> foldl pstep (PValue (FArr ys # st)) (join_toks (map toks xs) @ [RBracket])
      = PAfter st (JArr (ys @ xs))" for ys
    using JArr
  proof (induction xs arbitrary: ys rule: induct_list012)
    case (3 x y zs)
    have "foldl pstep (PValue (FArr ys # st)) (join_toks (map toks (x # y # zs)) @ [RBracket])
        = foldl pstep (PValue (FArr (ys @ [x]) # st)) (join_toks (map toks (y # zs)) @ [RBracket])"
      using 3(4,5) by simp
    also have "\<dots> = PAfter st (JArr ((ys @ [x]) @ y # zs))"
      by (rule 3(2)) (use 3(4,5) in auto)
    finally show ?case by simp
  qed simp_all
  show ?case
  proof (cases xs)
    case Nil
    then show ?thesis by (simp add: start_value_def)
  next
    case (Cons x xs')
    have "foldl pstep (PArrStart st) (join_toks (map toks xs) @ [RBracket])
        = foldl pstep (PValue (FArr [] # st)) (join_toks (map toks xs) @ [RBracket])"
    proof (cases xs')
      case Nil
      then show ?thesis using Cons parr_start [of st x "[RBracket]"] by simp
    next
      case (Cons y ys)
      then show ?thesis using \<open>xs = x # xs'\<close>
          parr_start [of st x "Comma # join_toks (map toks xs') @ [RBracket]"] by simp
    qed
    then show ?thesis using items [of "[]"] Cons by (simp add: start_value_def)
  qed
next
  case (JObj d)
  let ?pt = "\<lambda>p. TStr (fst p) # Colon # toks (snd p)"
  have items: "d \<noteq> [] \<Longrightarrow> distinct (map fst (d0 @ d)) \<Longrightarrow>
      foldl pstep (PKey st d0) (join_toks (map ?pt d) @ [RBrace]) = PAfter st (JObj (d0 @ d))" for d0
    using JObj
  proof (induction d arbitrary: d0 rule: induct_list012)
    case (2 p)
    have "foldl pstep (PValue (FObj d0 (fst p) # st)) (toks (snd p)) = PAfter (FObj d0 (fst p) # st) (snd p)"
      using 2(3,4) by auto
    then show ?case using 2(2) by (simp add: dset_new)
  next
    case (3 p q ds)
    have v: "foldl pstep (PValue (FObj d0 (fst p) # st)) (toks (snd p)) = PAfter (FObj d0 (fst p) # st) (snd p)"
      using 3(5,6) by auto
    have "foldl pstep (PKey st d0) (join_toks (map ?pt (p # q # ds)) @ [RBrace])
        = foldl pstep (PKey st (d0 @ [p])) (join_toks (map ?pt (q # ds)) @ [RBrace])"
      using v 3(4) by (simp add: dset_new)
    also have "\<dots> = PAfter st (JObj ((d0 @ [p]) @ q # ds))"
      by (rule 3(2)) (use 3(4,5,6) in auto)
    finally show ?case by simp
  qed simp_all
  show ?case
  proof (cases d)
    case Nil
    then show ?thesis by (simp add: start_value_def)
  next
    case (Cons p d')
    have "foldl pstep (PObjStart st) (join_toks (map ?pt d) @ [RBrace])
        = foldl pstep (PKey st []) (join_toks (map ?pt d) @ [RBrace])"
      using Cons by (cases d') simp_all
    then show ?thesis using items [of "[]"] Cons JObj.prems by (simp add: start_value_def)
  qed
qed (simp_all add: start_value_def)

lemma lex_Nil [simp]: "lex pc fparse [] = Some []"
  by (simp add: lex.simps)

lemma render_hd:
  assumes "floats_ok (float_text_ok frepr fparse) v"
  shows "render frepr v \<noteq> [] \<and> hd (render frepr v) \<noteq> 65279"
proof (cases v)
  case (JInt i)
  then show ?thesis using lex_number_hd [OF lex_number_int, of i] by (auto simp: is_digit_def)
next
  case (JFloat f)
  then obtain q where "f = Finite q" "float_text_ok frepr fparse q"
    using assms by (auto split: pyfloat.splits)
  then show ?thesis
    using JFloat lex_number_hd [of fparse "frepr q"] by (auto simp: float_text_ok_def is_digit_def)
qed (auto simp: lit_def render_string_def)

lemma loads_render:
  assumes "json_wf v" "floats_ok (float_text_ok frepr fparse) v"
  shows "json_loads pc fparse (render frepr v) = Some v"
proof -
  have "lex pc fparse (render frepr v) = Some (toks v)"
    using lex_render [OF assms(2), of "[]"] by simp
  then show ?thesis
    using render_hd [OF assms(2)] parse_toks [OF assms(1), of "[]"] by (simp add: json_loads_def)
qed

section \<open>Sorting keys\<close>

lemma distinct_sort_fst:
  "distinct (map fst (d :: (str \<times> 'v) list)) \<Longrightarrow> distinct (map fst (sort_key fst d))"
  unfolding distinct_map by simp

lemma sort_key_dget: "distinct (map fst (d :: (str \<times> 'v) list)) \<Longrightarrow> dget (sort_key fst d) k = dget d k"
proof -
  assume d: "distinct (map fst d)"
  have "distinct (map fst (sort_key fst d))"
    using d by (rule distinct_sort_fst)
  then have "map_of (sort_key fst d) = map_of d"
    using d by (subst map_of_inject_set) simp_all
  then show ?thesis by simp
qed

lemma sort_json_wf: "json_wf v \<Longrightarrow> json_wf (sort_json v)"
proof (induction v rule: json_induct)
  case (JObj d)
  have "distinct (map fst (map (\<lambda>p. (fst p, sort_json (snd p))) d))" using JObj by (simp add: comp_def)
  then have "distinct (map fst (sort_key fst (map (\<lambda>p. (fst p, sort_json (snd p))) d)))"
    by (rule distinct_sort_fst)
  moreover have "\<forall>p \<in> set d. json_wf (sort_json (snd p))"
    using JObj by (auto simp: list_all_iff)
  ultimately show ?case by (auto simp: list_all_iff)
qed (auto simp: list_all_iff)

lemma sort_json_floats: "floats_ok P (sort_json v) \<longleftrightarrow> floats_ok P v"
proof (induction v rule: json_induct)
  case (JObj d)
  then show ?case by (force simp: list_all_iff)
qed (auto simp: list_all_iff)

lemma sort_json_finite: "finite_json (sort_json v) \<longleftrightarrow> finite_json v"
proof (induction v rule: json_induct)
  case (JObj d)
  then show ?case by (force simp: list_all_iff)
qed (auto simp: list_all_iff)

lemma canonical_json_Inr:
  "canonical_json frepr v = Inr s \<longleftrightarrow> finite_json v \<and> s = render frepr (sort_json v)"
  by (auto simp: canonical_json_def json_dumps_def sort_json_finite)

lemma loads_canonical:
  assumes "json_wf v" "floats_ok (float_text_ok frepr fparse) v"
  shows "canonical_json frepr v = Inr (render frepr (sort_json v))"
    and "json_loads pc fparse (render frepr (sort_json v)) = Some (sort_json v)"
  using assms floats_ok_finite [OF assms(2)]
  by (simp_all add: canonical_json_Inr loads_render sort_json_wf sort_json_floats)



end
