(* ===== verification/Schema.thy ===== *)
theory Schema
  imports JsonRoundtrip
begin

text \<open>
  The argument schema validator of \<open>tools/schema.py\<close>: decoding a JSON argument object,
  the supported subset of JSON Schema checked in the code's order, and the structured
  protocol error of the first violation.
\<close>

section \<open>The platform\<close>

text \<open>What the interpreter's library supplies: a float's text and its inverse, the message
  of a JSON syntax error, the canonical form of a timestamp, \<open>str.casefold\<close>, the word
  characters of \<open>re\<close>, and the rounding of one float operation.\<close>

record platform =
  pl_frepr :: "rat \<Rightarrow> str"
  pl_fparse :: "str \<Rightarrow> pyfloat"
  pl_json_error :: "str \<Rightarrow> str"
  pl_fromiso :: "str \<Rightarrow> str option"
  pl_casefold :: "str \<Rightarrow> str"
  pl_word :: "nat \<Rightarrow> bool"
  pl_round :: "rat \<Rightarrow> rat"

section \<open>Protocol errors\<close>

datatype ProtocolErrorCode =
    INVALID_JSON | ARGUMENTS_NOT_OBJECT | MISSING_ARGUMENT | UNKNOWN_ARGUMENT | INVALID_TYPE
  | INVALID_VALUE | UNKNOWN_TOOL | INACTIVE_TOOL | CONTEXT_REQUIRED | CORRELATION_MISMATCH
  | INTERNAL_TOOL_ERROR

fun code_str :: "ProtocolErrorCode \<Rightarrow> str" where
  "code_str INVALID_JSON = lit ''invalid_json''"
| "code_str ARGUMENTS_NOT_OBJECT = lit ''arguments_not_object''"
| "code_str MISSING_ARGUMENT = lit ''missing_argument''"
| "code_str UNKNOWN_ARGUMENT = lit ''unknown_argument''"
| "code_str INVALID_TYPE = lit ''invalid_type''"
| "code_str INVALID_VALUE = lit ''invalid_value''"
| "code_str UNKNOWN_TOOL = lit ''unknown_tool''"
| "code_str INACTIVE_TOOL = lit ''inactive_tool''"
| "code_str CONTEXT_REQUIRED = lit ''context_required''"
| "code_str CORRELATION_MISMATCH = lit ''correlation_mismatch''"
| "code_str INTERNAL_TOOL_ERROR = lit ''internal_tool_error''"

definition protocol_error :: "ProtocolErrorCode \<Rightarrow> str \<Rightarrow> str \<Rightarrow> jobj \<Rightarrow> exn" where
  "protocol_error code message path details = ToolProtocolError (code_str code) message path details"

fun is_protocol_error :: "exn \<Rightarrow> bool" where
  "is_protocol_error (ToolProtocolError _ _ _ _) = True"
| "is_protocol_error _ = False"

lemma is_protocol_error_simps [simp]: "is_protocol_error (protocol_error c m p d)"
  by (simp add: protocol_error_def)

section \<open>Types and comparisons\<close>

fun json_type :: "json \<Rightarrow> str" where
  "json_type JNull = lit ''null''"
| "json_type (JBool _) = lit ''boolean''"
| "json_type (JInt _) = lit ''integer''"
| "json_type (JFloat _) = lit ''number''"
| "json_type (JStr _) = lit ''string''"
| "json_type (JObj _) = lit ''object''"
| "json_type (JArr _) = lit ''array''"

definition type_matches :: "json \<Rightarrow> str \<Rightarrow> bool" where
  "type_matches v expected =
     (if expected = lit ''number'' then (case v of JInt _ \<Rightarrow> True | JFloat _ \<Rightarrow> True | _ \<Rightarrow> False)
      else if expected = lit ''integer'' then (case v of JInt _ \<Rightarrow> True | _ \<Rightarrow> False)
      else if expected = lit ''object'' then (case v of JObj _ \<Rightarrow> True | _ \<Rightarrow> False)
      else if expected = lit ''array'' then (case v of JArr _ \<Rightarrow> True | _ \<Rightarrow> False)
      else if expected = lit ''string'' then (case v of JStr _ \<Rightarrow> True | _ \<Rightarrow> False)
      else if expected = lit ''boolean'' then (case v of JBool _ \<Rightarrow> True | _ \<Rightarrow> False)
      else if expected = lit ''null'' then v = JNull
      else True)"

text \<open>Python's \<open><\<close> on numbers; a boolean is the number it denotes and comparing with
  another type raises.\<close>

fun num_of :: "json \<Rightarrow> pyfloat option" where
  "num_of (JBool b) = Some (Finite (if b then 1 else 0))"
| "num_of (JInt i) = Some (Finite (of_int i))"
| "num_of (JFloat f) = Some f"
| "num_of _ = None"

fun pf_less :: "pyfloat \<Rightarrow> pyfloat \<Rightarrow> bool" where
  "pf_less (Finite a) (Finite b) = (a < b)"
| "pf_less NaN _ = False"
| "pf_less _ NaN = False"
| "pf_less PosInf _ = False"
| "pf_less _ NegInf = False"
| "pf_less _ _ = True"

definition py_less :: "json \<Rightarrow> json \<Rightarrow> bool res" where
  "py_less a b =
     (case (num_of a, num_of b) of
        (Some x, Some y) \<Rightarrow> Inr (pf_less x y)
      | _ \<Rightarrow> Inl (TypeError (lit ''not supported between instances'')))"

text \<open>Python's \<open>==\<close>: numbers by value whatever their type, objects regardless of order.\<close>

fun py_eq :: "json \<Rightarrow> json \<Rightarrow> bool"
  and py_eq_list :: "json list \<Rightarrow> json list \<Rightarrow> bool"
  and py_eq_obj :: "(str \<times> json) list \<Rightarrow> jobj \<Rightarrow> bool" where
  "py_eq JNull w = (w = JNull)"
| "py_eq (JStr s) w = (w = JStr s)"
| "py_eq (JBool b) w = (case num_of w of None \<Rightarrow> False | Some y \<Rightarrow> y = Finite (if b then 1 else 0))"
| "py_eq (JInt i) w = (case num_of w of None \<Rightarrow> False | Some y \<Rightarrow> y = Finite (of_int i))"
| "py_eq (JFloat f) w = (case num_of w of None \<Rightarrow> False | Some y \<Rightarrow> y = f \<and> f \<noteq> NaN)"
| "py_eq (JArr xs) w = (case w of JArr ys \<Rightarrow> py_eq_list xs ys | _ \<Rightarrow> False)"
| "py_eq (JObj d) w = (case w of JObj e \<Rightarrow> length d = length e \<and> py_eq_obj d e | _ \<Rightarrow> False)"
| "py_eq_list [] ys = (ys = [])"
| "py_eq_list (x # xs) ys = (case ys of [] \<Rightarrow> False | y # ys' \<Rightarrow> py_eq x y \<and> py_eq_list xs ys')"
| "py_eq_obj [] e = True"
| "py_eq_obj ((k, v) # d) e = (case dget e k of None \<Rightarrow> False | Some w \<Rightarrow> py_eq v w \<and> py_eq_obj d e)"

text \<open>An f-string's rendering of a schema number.\<close>

fun show_num :: "(rat \<Rightarrow> str) \<Rightarrow> json \<Rightarrow> str" where
  "show_num frepr (JInt i) = dec_int i"
| "show_num frepr (JBool b) = (if b then lit ''True'' else lit ''False'')"
| "show_num frepr (JFloat (Finite q)) = frepr q"
| "show_num frepr (JFloat PosInf) = lit ''inf''"
| "show_num frepr (JFloat NegInf) = lit ''-inf''"
| "show_num frepr (JFloat NaN) = lit ''nan''"
| "show_num frepr _ = []"

section \<open>The checks of \<open>_validate_value\<close>\<close>

text \<open>\<open>schema.get(key)\<close>, where an explicit null reads like an absent key.\<close>

definition sget :: "jobj \<Rightarrow> string \<Rightarrow> json" where
  "sget schema key = (case dget schema (lit key) of None \<Rightarrow> JNull | Some v \<Rightarrow> v)"

fun join_comma :: "str list \<Rightarrow> str" where
  "join_comma [] = []"
| "join_comma [x] = x"
| "join_comma (x # xs) = x @ lit '', '' @ join_comma xs"

definition check_type :: "json \<Rightarrow> jobj \<Rightarrow> str \<Rightarrow> unit res" where
  "check_type v schema path =
     (let expected = sget schema ''type'' in
      if expected = JNull then Inr ()
      else
        bindR (case expected of
                 JStr s \<Rightarrow> Inr [JStr s]
               | JArr xs \<Rightarrow> Inr xs
               | JObj d \<Rightarrow> Inr (map (JStr \<circ> fst) d)
               | _ \<Rightarrow> Inl (TypeError (lit ''object is not iterable''))) (\<lambda>values.
        if values = [] \<or> \<not> list_all is_jstr values
        then Inl (protocol_error INVALID_VALUE (lit ''schema type must be a string'') path [])
        else if \<not> list_ex (\<lambda>t. type_matches v (json_str t)) values
        then Inl (protocol_error INVALID_TYPE
               (lit ''expected '' @ join_comma (map json_str values) @ lit '', got '' @ json_type v) path
               [(lit ''expected'', if length values = 1 then hd values else JArr values),
                (lit ''actual'', JStr (json_type v))])
        else Inr ()))"

definition check_enum :: "json \<Rightarrow> jobj \<Rightarrow> str \<Rightarrow> unit res" where
  "check_enum v schema path =
     (case dget schema (lit ''enum'') of
        None \<Rightarrow> Inr ()
      | Some (JArr choices) \<Rightarrow>
          if list_ex (py_eq v) choices then Inr ()
          else Inl (protocol_error INVALID_VALUE (lit ''value is not one of the allowed choices'') path
                 [(lit ''allowed'', JArr choices)])
      | Some _ \<Rightarrow> Inl (protocol_error INVALID_VALUE (lit ''schema enum must be an array'') path []))"

definition check_bound ::
  "(json \<Rightarrow> bool res) \<Rightarrow> jobj \<Rightarrow> string \<Rightarrow> (json \<Rightarrow> str) \<Rightarrow> string \<Rightarrow> str \<Rightarrow> unit res" where
  "check_bound violates schema key message detail path =
     (let bound = sget schema key in
      if bound = JNull then Inr ()
      else bindR (violates bound) (\<lambda>b.
        if b then Inl (protocol_error INVALID_VALUE (message bound) path [(lit detail, bound)])
        else Inr ()))"

definition check_string :: "(rat \<Rightarrow> str) \<Rightarrow> json \<Rightarrow> jobj \<Rightarrow> str \<Rightarrow> unit res" where
  "check_string frepr v schema path =
     (case v of
        JStr s \<Rightarrow>
          bindR (check_bound (\<lambda>m. py_less (JInt (int (length s))) m) schema ''minLength''
                   (\<lambda>m. lit ''string must contain at least '' @ show_num frepr m @ lit '' characters'')
                   ''minimum'' path) (\<lambda>_.
          check_bound (\<lambda>m. py_less m (JInt (int (length s)))) schema ''maxLength''
                   (\<lambda>m. lit ''string must contain at most '' @ show_num frepr m @ lit '' characters'')
                   ''maximum'' path)
      | _ \<Rightarrow> Inr ())"

definition check_number :: "(rat \<Rightarrow> str) \<Rightarrow> json \<Rightarrow> jobj \<Rightarrow> str \<Rightarrow> unit res" where
  "check_number frepr v schema path =
     (if type_matches v (lit ''number'') then
        bindR (check_bound (\<lambda>m. py_less v m) schema ''minimum''
                 (\<lambda>m. lit ''value must be at least '' @ show_num frepr m) ''minimum'' path) (\<lambda>_.
        check_bound (\<lambda>m. py_less m v) schema ''maximum''
                 (\<lambda>m. lit ''value must be at most '' @ show_num frepr m) ''maximum'' path)
      else Inr ())"

fun check_required :: "json list \<Rightarrow> jobj \<Rightarrow> str \<Rightarrow> unit res" where
  "check_required [] d path = Inr ()"
| "check_required (k # ks) d path =
     (case k of
        JStr s \<Rightarrow>
          if \<not> has_key d s
          then Inl (protocol_error MISSING_ARGUMENT (lit ''missing required argument: '' @ s)
                 (path @ lit ''.'' @ s) [(lit ''argument'', JStr s)])
          else check_required ks d path
      | _ \<Rightarrow> Inl (protocol_error INVALID_VALUE (lit ''required names must be strings'') path []))"

text \<open>The object checks before its members are visited; the result is the property map.\<close>

definition check_object :: "jobj \<Rightarrow> jobj \<Rightarrow> str \<Rightarrow> jobj res" where
  "check_object d schema path =
     bindR (case dget schema (lit ''properties'') of
              None \<Rightarrow> Inr []
            | Some (JObj p) \<Rightarrow> Inr p
            | Some _ \<Rightarrow> Inl (protocol_error INVALID_VALUE (lit ''schema properties must be an object'') path [])) (\<lambda>props.
     bindR (case dget schema (lit ''required'') of
              None \<Rightarrow> Inr []
            | Some (JArr r) \<Rightarrow> Inr r
            | Some _ \<Rightarrow> Inl (protocol_error INVALID_VALUE (lit ''schema required must be an array'') path [])) (\<lambda>required.
     bindR (check_required required d path) (\<lambda>_.
     if dget schema (lit ''additionalProperties'') = Some (JBool False)
     then (case filter (\<lambda>k. \<not> has_key props k) (map fst d) of
             [] \<Rightarrow> Inr props
           | k # _ \<Rightarrow> Inl (protocol_error UNKNOWN_ARGUMENT (lit ''unknown argument: '' @ k)
                        (path @ lit ''.'' @ k) [(lit ''argument'', JStr k)]))
     else Inr props)))"

text \<open>The schema of the members and of the items, when there is one to recurse with.\<close>

definition child_schema :: "jobj \<Rightarrow> str \<Rightarrow> str \<Rightarrow> jobj option res" where
  "child_schema props k path =
     (case dget props k of
        None \<Rightarrow> Inr None
      | Some JNull \<Rightarrow> Inr None
      | Some (JObj child) \<Rightarrow> Inr (Some child)
      | Some _ \<Rightarrow> Inl (protocol_error INVALID_VALUE (lit ''property schema must be an object'')
                    (path @ lit ''.'' @ k) []))"

definition items_schema :: "jobj \<Rightarrow> str \<Rightarrow> jobj option res" where
  "items_schema schema path =
     (case sget schema ''items'' of
        JNull \<Rightarrow> Inr None
      | JObj items \<Rightarrow> Inr (Some items)
      | _ \<Rightarrow> Inl (protocol_error INVALID_VALUE (lit ''array items schema must be an object'') path []))"

definition check_scalar :: "(rat \<Rightarrow> str) \<Rightarrow> json \<Rightarrow> jobj \<Rightarrow> str \<Rightarrow> unit res" where
  "check_scalar frepr v schema path =
     bindR (check_type v schema path) (\<lambda>_.
     bindR (check_enum v schema path) (\<lambda>_.
     bindR (check_string frepr v schema path) (\<lambda>_.
     check_number frepr v schema path)))"

fun validate_value :: "(rat \<Rightarrow> str) \<Rightarrow> json \<Rightarrow> jobj \<Rightarrow> str \<Rightarrow> unit res"
  and validate_members :: "(rat \<Rightarrow> str) \<Rightarrow> (str \<times> json) list \<Rightarrow> jobj \<Rightarrow> str \<Rightarrow> unit res"
  and validate_items :: "(rat \<Rightarrow> str) \<Rightarrow> json list \<Rightarrow> jobj option \<Rightarrow> str \<Rightarrow> nat \<Rightarrow> unit res" where
  "validate_value frepr (JObj d) schema path =
     (case bindR (check_scalar frepr (JObj d) schema path) (\<lambda>_. check_object d schema path) of
        Inl e \<Rightarrow> Inl e
      | Inr props \<Rightarrow> validate_members frepr d props path)"
| "validate_value frepr (JArr xs) schema path =
     (case bindR (check_scalar frepr (JArr xs) schema path) (\<lambda>_. items_schema schema path) of
        Inl e \<Rightarrow> Inl e
      | Inr items \<Rightarrow> validate_items frepr xs items path 0)"
| "validate_value frepr v schema path = check_scalar frepr v schema path"
| "validate_members frepr [] props path = Inr ()"
| "validate_members frepr ((k, v) # d) props path =
     (case child_schema props k path of
        Inl e \<Rightarrow> Inl e
      | Inr None \<Rightarrow> validate_members frepr d props path
      | Inr (Some child) \<Rightarrow>
          (case validate_value frepr v child (path @ lit ''.'' @ k) of
             Inl e \<Rightarrow> Inl e
           | Inr _ \<Rightarrow> validate_members frepr d props path))"
| "validate_items frepr [] items path i = Inr ()"
| "validate_items frepr (v # vs) items path i =
     (case items of
        None \<Rightarrow> Inr ()
      | Some schema \<Rightarrow>
          (case validate_value frepr v schema (path @ lit ''['' @ dec i @ lit '']'') of
             Inl e \<Rightarrow> Inl e
           | Inr _ \<Rightarrow> validate_items frepr vs items path (Suc i)))"

declare validate_value.simps [simp del]

section \<open>Decoding arguments\<close>

text \<open>\<open>parse_json_arguments\<close>: a string is decoded, a mapping is copied; a float too large
  for the format decodes to an infinity and is refused by the final \<open>json.dumps\<close>.\<close>

definition decode_arguments :: "platform \<Rightarrow> json \<Rightarrow> json res" where
  "decode_arguments pl arguments =
     (case arguments of
        JStr s \<Rightarrow>
          (case json_loads False (pl_fparse pl) s of
             None \<Rightarrow> Inl (protocol_error INVALID_JSON (lit ''tool arguments are not valid JSON'') (lit ''$'')
                       [(lit ''reason'', JStr (pl_json_error pl s))])
           | Some v \<Rightarrow> Inr v)
      | JObj d \<Rightarrow> Inr (JObj d)
      | _ \<Rightarrow> Inl (protocol_error INVALID_JSON (lit ''tool arguments must be a JSON object or JSON string'') (lit ''$'')
               [(lit ''actual'', JStr (json_type arguments))]))"

definition require_object :: "json \<Rightarrow> jobj res" where
  "require_object decoded =
     (case decoded of
        JObj d \<Rightarrow>
          if finite_json decoded then Inr d
          else Inl (protocol_error INVALID_JSON (lit ''tool arguments must contain only JSON-compatible values'') (lit ''$'')
                 [(lit ''reason'', JStr (lit ''Out of range float values are not JSON compliant''))])
      | _ \<Rightarrow> Inl (protocol_error ARGUMENTS_NOT_OBJECT (lit ''tool arguments must decode to a JSON object'') (lit ''$'')
               [(lit ''actual'', JStr (json_type decoded))]))"

definition parse_json_arguments :: "platform \<Rightarrow> json \<Rightarrow> jobj res" where
  "parse_json_arguments pl arguments = bindR (decode_arguments pl arguments) require_object"

definition validate_arguments :: "platform \<Rightarrow> json \<Rightarrow> jobj \<Rightarrow> jobj res" where
  "validate_arguments pl arguments schema =
     bindR (parse_json_arguments pl arguments) (\<lambda>parsed.
     bindR (validate_value (pl_frepr pl) (JObj parsed) schema (lit ''$'')) (\<lambda>_. Inr parsed))"

section \<open>Facts about accepted values\<close>

lemma validate_value_object:
  "validate_value frepr (JObj d) schema path = Inr u \<Longrightarrow>
     check_type (JObj d) schema path = Inr () \<and>
     (\<exists>props. check_object d schema path = Inr props \<and> validate_members frepr d props path = Inr ())"
  by (auto simp: validate_value.simps(1) check_scalar_def bindR_Inr_iff split: sum.splits)

lemma validate_members_member:
  "validate_members frepr d props path = Inr u \<Longrightarrow> (k, v) \<in> set d \<Longrightarrow> dget props k = Some (JObj child) \<Longrightarrow>
     validate_value frepr v child (path @ lit ''.'' @ k) = Inr ()"
  by (induction d) (auto simp: child_schema_def split: sum.splits option.splits)

lemma validate_members_get:
  "validate_members frepr d props path = Inr u \<Longrightarrow> dget d k = Some v \<Longrightarrow> dget props k = Some (JObj child) \<Longrightarrow>
     validate_value frepr v child (path @ lit ''.'' @ k) = Inr ()"
  by (meson map_of_SomeD validate_members_member)

lemma check_required_ok:
  "check_required ks d path = Inr u \<Longrightarrow> JStr s \<in> set ks \<Longrightarrow> has_key d s"
  by (induction ks) (auto split: json.splits if_splits)

lemma check_object_ok:
  assumes "check_object d schema path = Inr props"
  shows "(case dget schema (lit ''properties'') of None \<Rightarrow> props = [] | Some p \<Rightarrow> p = JObj props)"
    and "dget schema (lit ''required'') = Some (JArr ks) \<Longrightarrow> JStr s \<in> set ks \<Longrightarrow> has_key d s"
    and "dget schema (lit ''additionalProperties'') = Some (JBool False) \<Longrightarrow> has_key d k \<Longrightarrow> has_key props k"
proof -
  obtain ps rs where p: "(case dget schema (lit ''properties'') of
              None \<Rightarrow> Inr []
            | Some (JObj p) \<Rightarrow> Inr p
            | Some _ \<Rightarrow> Inl (protocol_error INVALID_VALUE (lit ''schema properties must be an object'') path [])) = Inr ps"
    and r: "(case dget schema (lit ''required'') of
              None \<Rightarrow> Inr []
            | Some (JArr r) \<Rightarrow> Inr r
            | Some _ \<Rightarrow> Inl (protocol_error INVALID_VALUE (lit ''schema required must be an array'') path [])) = Inr rs"
    and c: "check_required rs d path = Inr ()"
    and f: "(if dget schema (lit ''additionalProperties'') = Some (JBool False)
       then (case filter (\<lambda>k. \<not> has_key ps k) (map fst d) of
             [] \<Rightarrow> Inr ps
           | k # _ \<Rightarrow> Inl (protocol_error UNKNOWN_ARGUMENT (lit ''unknown argument: '' @ k)
                        (path @ lit ''.'' @ k) [(lit ''argument'', JStr k)]))
       else Inr ps) = Inr props"
    using assms unfolding check_object_def bindR_Inr_iff by auto
  have ps: "props = ps" using f by (auto split: if_splits list.splits)
  show "(case dget schema (lit ''properties'') of None \<Rightarrow> props = [] | Some p \<Rightarrow> p = JObj props)"
    using p ps by (auto split: option.splits json.splits)
  show "dget schema (lit ''required'') = Some (JArr ks) \<Longrightarrow> JStr s \<in> set ks \<Longrightarrow> has_key d s"
    using r c check_required_ok by auto
  show "has_key props k" if "dget schema (lit ''additionalProperties'') = Some (JBool False)" "has_key d k"
  proof -
    have "filter (\<lambda>k. \<not> has_key ps k) (map fst d) = []"
      using f that(1) by (auto split: list.splits)
    moreover have "k \<in> set (map fst d)" using that(2) by (simp add: has_key_iff)
    ultimately show ?thesis using ps by (auto simp: filter_empty_conv)
  qed
qed

text \<open>Every argument object that is accepted is finite, so it can be serialized again.\<close>

lemma require_object_Inr: "require_object v = Inr d \<Longrightarrow> v = JObj d \<and> finite_json v"
  by (cases v) (auto simp: require_object_def split: if_splits)

lemma require_object_Inl: "require_object v = Inl e \<Longrightarrow> is_protocol_error e"
  by (cases v) (auto simp: require_object_def split: if_splits)

lemma decode_arguments_Inl: "decode_arguments pl a = Inl e \<Longrightarrow> is_protocol_error e"
  by (cases a) (auto simp: decode_arguments_def split: option.splits)

lemma parse_json_arguments_finite: "parse_json_arguments pl a = Inr d \<Longrightarrow> finite_json (JObj d)"
  using require_object_Inr by (fastforce simp: parse_json_arguments_def bindR_Inr_iff)

lemma parse_json_arguments_Inl: "parse_json_arguments pl a = Inl e \<Longrightarrow> is_protocol_error e"
  using require_object_Inl decode_arguments_Inl
  by (fastforce simp: parse_json_arguments_def bindR_Inl_iff)

text \<open>A platform for concrete inputs.\<close>

definition sample_platform :: platform where
  "sample_platform = \<lparr>pl_frepr = (\<lambda>_. [48]), pl_fparse = (\<lambda>_. Finite 0),
     pl_json_error = (\<lambda>_. []), pl_fromiso = (\<lambda>s. Some s), pl_casefold = (\<lambda>s. s), pl_word = (\<lambda>_. False), pl_round = (\<lambda>q. q)\<rparr>"

end
