(* ===== verification/Environment.thy ===== *)
theory Environment
  imports Schema
begin

text \<open>
  The backend-neutral execution boundary: the results of the six operations
  (\<open>models.py\<close>) and the record of operations a tool may call
  (\<open>environment/base.py\<close>).  An operation takes the world's state and returns the next one
  with its result or the exception it raised.
\<close>

record FileResult =
  fr_status :: EnvironmentStatus
  fr_message :: str
  fr_metadata :: jobj
  fr_duration_seconds :: "pyfloat option"
  fr_path :: "str option"
  fr_content :: str
  fr_truncated :: bool
  fr_original_length :: "int option"

record ListResult =
  lr_status :: EnvironmentStatus
  lr_message :: str
  lr_metadata :: jobj
  lr_duration_seconds :: "pyfloat option"
  lr_entries :: "str list"
  lr_truncated :: bool
  lr_original_length :: "int option"

record SearchResult =
  sr_status :: EnvironmentStatus
  sr_message :: str
  sr_metadata :: jobj
  sr_duration_seconds :: "pyfloat option"
  sr_matches :: "SearchMatch list"
  sr_truncated :: bool
  sr_original_length :: "int option"

record CommandResult =
  cr_status :: EnvironmentStatus
  cr_message :: str
  cr_metadata :: jobj
  cr_duration_seconds :: "pyfloat option"
  cr_stdout :: str
  cr_stderr :: str
  cr_exit_code :: "int option"
  cr_timed_out :: bool
  cr_truncated :: bool
  cr_original_output_length :: "int option"

type_synonym ('s, 'a) effect = "'s \<Rightarrow> 's \<times> 'a res"

record 's environment =
  env_read_file :: "ReadFileRequest \<Rightarrow> ('s, FileResult) effect"
  env_list_files :: "ListFilesRequest \<Rightarrow> ('s, ListResult) effect"
  env_search :: "SearchRequest \<Rightarrow> ('s, SearchResult) effect"
  env_write_file :: "WriteFileRequest \<Rightarrow> ('s, FileResult) effect"
  env_edit_file :: "EditFileRequest \<Rightarrow> ('s, FileResult) effect"
  env_run_command :: "RunCommandRequest \<Rightarrow> ('s, CommandResult) effect"
  env_cancel_reason :: "'s \<Rightarrow> str option"

text \<open>The constructors that validate a result; their \<open>path\<close> and entries must be non-empty
  and free of NUL.\<close>

definition FileResult_post_init :: "FileResult \<Rightarrow> FileResult res" where
  "FileResult_post_init r =
     bindR (case fr_duration_seconds r of None \<Rightarrow> Inr ()
            | Some d \<Rightarrow> validate_nonnegative (JFloat d) (lit ''duration_seconds'') False) (\<lambda>_.
     bindR (case fr_path r of None \<Rightarrow> Inr ()
            | Some p \<Rightarrow> validate_logical_path (JStr p) (lit ''path'') False) (\<lambda>_.
     bindR (case fr_original_length r of None \<Rightarrow> Inr ()
            | Some n \<Rightarrow> validate_nonnegative (JInt n) (lit ''original_length'') True) (\<lambda>_.
     Inr r)))"

text \<open>The well-formed requests: what the constructors of \<open>models.py\<close> establish.\<close>

definition path_ok :: "str \<Rightarrow> bool" where
  "path_ok p \<longleftrightarrow> p \<noteq> [] \<and> \<not> has_nul p"

definition ReadFileRequest_ok :: "ReadFileRequest \<Rightarrow> bool" where
  "ReadFileRequest_ok r \<longleftrightarrow> path_ok (rf_path r) \<and> nonneg_option (rf_start_line r) \<and>
     nonneg_option (rf_end_line r) \<and> nonneg_option (rf_max_bytes r) \<and>
     (\<forall>s e. rf_start_line r = Some s \<and> rf_end_line r = Some e \<longrightarrow> s \<le> e)"

definition ListFilesRequest_ok :: "ListFilesRequest \<Rightarrow> bool" where
  "ListFilesRequest_ok r \<longleftrightarrow> \<not> has_nul (lf_path r) \<and> nonneg_option (lf_max_entries r)"

definition SearchRequest_ok :: "SearchRequest \<Rightarrow> bool" where
  "SearchRequest_ok r \<longleftrightarrow> path_ok (sr_query r) \<and> \<not> has_nul (sr_path r) \<and>
     nonneg_option (sr_max_results r) \<and> nonneg_option (sr_max_bytes r)"

definition WriteFileRequest_ok :: "WriteFileRequest \<Rightarrow> bool" where
  "WriteFileRequest_ok r \<longleftrightarrow> path_ok (wf_path r) \<and> \<not> has_nul (wf_content r) \<and> nonneg_option (wf_max_bytes r)"

definition EditFileRequest_ok :: "EditFileRequest \<Rightarrow> bool" where
  "EditFileRequest_ok r \<longleftrightarrow> path_ok (ef_path r) \<and> path_ok (ef_old_text r) \<and> \<not> has_nul (ef_new_text r) \<and>
     (\<forall>n. ef_expected_replacements r = Some n \<longrightarrow> 1 \<le> n)"

definition RunCommandRequest_ok :: "RunCommandRequest \<Rightarrow> bool" where
  "RunCommandRequest_ok r \<longleftrightarrow> strip (rc_command r) \<noteq> [] \<and> \<not> has_nul (rc_command r) \<and>
     (\<forall>t. rc_timeout_seconds r = Some t \<longrightarrow>
        (case t of PInt i \<Rightarrow> 0 \<le> i | PFloat f \<Rightarrow> (\<exists>q \<ge> 0. f = Finite q))) \<and>
     nonneg_option (rc_max_output_bytes r) \<and>
     (\<forall>d. rc_working_directory r = Some d \<longrightarrow> \<not> has_nul d)"

lemma nonneg_int_field_nonneg: "nonneg_int_field v \<Longrightarrow> nonneg_option (json_int_option v)"
  by (auto simp: nonneg_int_field_def nonneg_option_def)

lemma mk_requests_ok:
  shows mk_ReadFileRequest_ok: "mk_ReadFileRequest p s e m = Inr r1 \<Longrightarrow> ReadFileRequest_ok r1"
    and mk_ListFilesRequest_ok: "mk_ListFilesRequest p rec n = Inr r2 \<Longrightarrow> ListFilesRequest_ok r2"
    and mk_SearchRequest_ok: "mk_SearchRequest q p rx n m = Inr r3 \<Longrightarrow> SearchRequest_ok r3"
    and mk_WriteFileRequest_ok: "mk_WriteFileRequest p c m = Inr r4 \<Longrightarrow> WriteFileRequest_ok r4"
proof -
  show "mk_ReadFileRequest p s e m = Inr r1 \<Longrightarrow> ReadFileRequest_ok r1"
    by (cases s; cases e) (auto simp: mk_ReadFileRequest_Inr ReadFileRequest_ok_def path_ok_def
        nonneg_int_field_nonneg nonneg_option_def nonneg_int_field_def)
  show "mk_ListFilesRequest p rec n = Inr r2 \<Longrightarrow> ListFilesRequest_ok r2"
    by (auto simp: mk_ListFilesRequest_def ListFilesRequest_ok_def bindR_Inr_iff nonneg_int_field_nonneg)
  show "mk_SearchRequest q p rx n m = Inr r3 \<Longrightarrow> SearchRequest_ok r3"
    by (auto simp: mk_SearchRequest_def SearchRequest_ok_def path_ok_def bindR_Inr_iff nonneg_int_field_nonneg)
  show "mk_WriteFileRequest p c m = Inr r4 \<Longrightarrow> WriteFileRequest_ok r4"
    by (auto simp: mk_WriteFileRequest_def WriteFileRequest_ok_def path_ok_def bindR_Inr_iff nonneg_int_field_nonneg)
qed

lemma mk_EditFileRequest_ok: "mk_EditFileRequest p old new n = Inr r \<Longrightarrow> EditFileRequest_ok r"
  using mk_EditFileRequest_Inr [of p old new n r]
  by (auto simp: EditFileRequest_ok_def path_ok_def)

lemma timeout_field_ok:
  "validate_nonnegative t name False = Inr u \<Longrightarrow> json_num_option t = Some x \<Longrightarrow>
     (case x of PInt i \<Rightarrow> 0 \<le> i | PFloat f \<Rightarrow> (\<exists>q \<ge> 0. f = Finite q))"
proof (cases t)
  case (JFloat f)
  then show "validate_nonnegative t name False = Inr u \<Longrightarrow> json_num_option t = Some x \<Longrightarrow> ?thesis"
    using validate_nonnegative_float [of f name u] by auto
qed (auto split: if_splits)

lemma mk_RunCommandRequest_ok: "mk_RunCommandRequest c t m w = Inr r \<Longrightarrow> RunCommandRequest_ok r"
  using mk_RunCommandRequest_Inr [of c t m w r] timeout_field_ok
  by (fastforce simp: RunCommandRequest_ok_def mk_RunCommandRequest_def bindR_Inr_iff nonneg_int_field_nonneg)

text \<open>A constructor that refuses its arguments raises a \<open>TypeError\<close> or a \<open>ValueError\<close>.\<close>

definition argument_error :: "exn \<Rightarrow> bool" where
  "argument_error e \<longleftrightarrow> is_type_error e \<or> is_value_error e"

lemma validators_argument_error:
  "validate_nonnegative v name i = Inl e \<Longrightarrow> argument_error e"
  "validate_logical_path v name b = Inl e \<Longrightarrow> argument_error e"
  by (cases v; auto simp: argument_error_def split: if_splits pyfloat.splits)+

lemma argument_error_simps [simp]: "argument_error (TypeError m)" "argument_error (ValueError m)"
  by (simp_all add: argument_error_def)

lemma mk_request_argument_error:
  "mk_ReadFileRequest a b c d = Inl e \<Longrightarrow> argument_error e"
  "mk_ListFilesRequest a b c = Inl e \<Longrightarrow> argument_error e"
  "mk_SearchRequest a b c d f = Inl e \<Longrightarrow> argument_error e"
  "mk_WriteFileRequest a b c = Inl e \<Longrightarrow> argument_error e"
  "mk_EditFileRequest a b c d = Inl e \<Longrightarrow> argument_error e"
  "mk_RunCommandRequest a b c d = Inl e \<Longrightarrow> argument_error e"
  by (auto simp: mk_ReadFileRequest_def mk_ListFilesRequest_def mk_SearchRequest_def
      mk_WriteFileRequest_def mk_EditFileRequest_def mk_RunCommandRequest_def bindR_Inl_iff
      dest: validators_argument_error split: if_splits)

end
