(* ===== verification/Builtins.thy ===== *)
theory Builtins
  imports Environment
begin

text \<open>
  The six built-in tools (\<open>tools/builtins.py\<close>): their argument schemas, the translation of
  validated arguments into an environment request, and the translation of the environment's
  answer, or of the exception it raised, into one \<open>ToolResult\<close>.
\<close>

section \<open>The tools and their schemas\<close>

datatype BuiltinTool = ReadFileTool | ListFilesTool | SearchTool | WriteFileTool | EditFileTool | BashTool

fun tool_name :: "BuiltinTool \<Rightarrow> str" where
  "tool_name ReadFileTool = lit ''read_file''"
| "tool_name ListFilesTool = lit ''list_files''"
| "tool_name SearchTool = lit ''search''"
| "tool_name WriteFileTool = lit ''write_file''"
| "tool_name EditFileTool = lit ''edit_file''"
| "tool_name BashTool = lit ''bash''"

lemma tool_name_inject [simp]: "tool_name s = tool_name t \<longleftrightarrow> s = t"
  by (cases s; cases t) simp_all

definition string_schema :: "nat option \<Rightarrow> json" where
  "string_schema min_length =
     JObj ((lit ''type'', JStr (lit ''string'')) #
       (case min_length of None \<Rightarrow> [] | Some n \<Rightarrow> [(lit ''minLength'', JInt (int n))]))"

definition integer_schema :: "int \<Rightarrow> json" where
  "integer_schema minimum =
     JObj [(lit ''type'', JStr (lit ''integer'')), (lit ''minimum'', JInt minimum)]"

definition boolean_schema :: json where
  "boolean_schema = JObj [(lit ''type'', JStr (lit ''boolean''))]"

definition number_schema :: json where
  "number_schema = JObj [(lit ''type'', JStr (lit ''number'')), (lit ''minimum'', JInt 0)]"

fun tool_properties :: "BuiltinTool \<Rightarrow> jobj" where
  "tool_properties ReadFileTool =
     [(lit ''path'', string_schema (Some 1)), (lit ''start_line'', integer_schema 0),
      (lit ''end_line'', integer_schema 0), (lit ''max_bytes'', integer_schema 0)]"
| "tool_properties ListFilesTool =
     [(lit ''path'', string_schema (Some 0)), (lit ''recursive'', boolean_schema),
      (lit ''max_entries'', integer_schema 0)]"
| "tool_properties SearchTool =
     [(lit ''query'', string_schema (Some 1)), (lit ''path'', string_schema (Some 0)),
      (lit ''use_regex'', boolean_schema), (lit ''max_results'', integer_schema 0),
      (lit ''max_bytes'', integer_schema 0)]"
| "tool_properties WriteFileTool =
     [(lit ''path'', string_schema (Some 1)), (lit ''content'', string_schema None),
      (lit ''max_bytes'', integer_schema 0)]"
| "tool_properties EditFileTool =
     [(lit ''path'', string_schema (Some 1)), (lit ''old_text'', string_schema (Some 1)),
      (lit ''new_text'', string_schema None), (lit ''expected_replacements'', integer_schema 1)]"
| "tool_properties BashTool =
     [(lit ''command'', string_schema (Some 1)), (lit ''timeout_seconds'', number_schema),
      (lit ''max_output_bytes'', integer_schema 0), (lit ''working_directory'', string_schema (Some 0))]"

fun tool_required :: "BuiltinTool \<Rightarrow> str list" where
  "tool_required ReadFileTool = [lit ''path'']"
| "tool_required ListFilesTool = []"
| "tool_required SearchTool = [lit ''query'']"
| "tool_required WriteFileTool = [lit ''path'', lit ''content'']"
| "tool_required EditFileTool = [lit ''path'', lit ''old_text'', lit ''new_text'']"
| "tool_required BashTool = [lit ''command'']"

text \<open>The \<open>parameters\<close> of each class; only \<open>list_files\<close> has no \<open>required\<close> list.\<close>

definition tool_parameters :: "BuiltinTool \<Rightarrow> jobj" where
  "tool_parameters t =
     [(lit ''type'', JStr (lit ''object'')), (lit ''properties'', JObj (tool_properties t))] @
     (if t = ListFilesTool then [] else [(lit ''required'', JArr (map JStr (tool_required t)))]) @
     [(lit ''additionalProperties'', JBool False)]"

section \<open>Results\<close>

record ToolExecutionContext =
  cx_agent_id :: str
  cx_correlation_id :: str
  cx_provider_tool_call_id :: "str option"

definition ToolExecutionContext_ok :: "ToolExecutionContext \<Rightarrow> bool" where
  "ToolExecutionContext_ok c \<longleftrightarrow>
     id_ok AgentId (cx_agent_id c) \<and> id_ok CorrelationId (cx_correlation_id c) \<and>
     (\<forall>p. cx_provider_tool_call_id c = Some p \<longrightarrow> id_ok ProviderToolCallId p)"

text \<open>\<open>ToolResult(correlation_id=context..., status=..., text=..., metadata=...)\<close>; the other
  fields have their defaults.\<close>

definition plain_result :: "ToolExecutionContext \<Rightarrow> ToolResultStatus \<Rightarrow> str \<Rightarrow> jobj \<Rightarrow> ToolResult" where
  "plain_result c status txt metadata =
     \<lparr>tr_correlation_id = cx_correlation_id c, tr_status = status, tr_text = txt,
      tr_provider_tool_call_id = cx_provider_tool_call_id c, tr_metadata = metadata,
      tr_truncated = False, tr_original_length = None, tr_duration_seconds = None,
      tr_exit_code = None, tr_timed_out = False, tr_path = None\<rparr>"

definition string_or_message :: "str \<Rightarrow> str \<Rightarrow> str" where
  "string_or_message v message = (if v \<noteq> [] then v else message)"

definition result_text :: "EnvironmentStatus \<Rightarrow> str \<Rightarrow> str \<Rightarrow> str" where
  "result_text status message v =
     (if status = EnvSuccess then string_or_message v message else string_or_message message v)"

fun status_for_environment :: "EnvironmentStatus \<Rightarrow> ToolResultStatus" where
  "status_for_environment EnvSuccess = ResSuccess"
| "status_for_environment EnvCancelled = ResCancelled"
| "status_for_environment EnvTimeout = ResTimeout"
| "status_for_environment EnvError = ResError"

definition file_result :: "ToolExecutionContext \<Rightarrow> str \<Rightarrow> FileResult \<Rightarrow> ToolResult res" where
  "file_result c requested_path r =
     ToolResult_post_init
       \<lparr>tr_correlation_id = cx_correlation_id c,
        tr_status = status_for_environment (fr_status r),
        tr_text = result_text (fr_status r) (fr_message r) (fr_content r),
        tr_provider_tool_call_id = cx_provider_tool_call_id c,
        tr_metadata = fr_metadata r, tr_truncated = fr_truncated r,
        tr_original_length = fr_original_length r,
        tr_duration_seconds = fr_duration_seconds r, tr_exit_code = None, tr_timed_out = False,
        tr_path = Some (case fr_path r of Some (a # p) \<Rightarrow> a # p | _ \<Rightarrow> requested_path)\<rparr>"

definition list_result :: "ToolExecutionContext \<Rightarrow> ListResult \<Rightarrow> ToolResult res" where
  "list_result c r =
     ToolResult_post_init
       \<lparr>tr_correlation_id = cx_correlation_id c,
        tr_status = status_for_environment (lr_status r),
        tr_text = result_text (lr_status r) (lr_message r) (join_with 10 (lr_entries r)),
        tr_provider_tool_call_id = cx_provider_tool_call_id c,
        tr_metadata = lr_metadata r, tr_truncated = lr_truncated r,
        tr_original_length = lr_original_length r,
        tr_duration_seconds = lr_duration_seconds r, tr_exit_code = None, tr_timed_out = False,
        tr_path = None\<rparr>"

definition match_text :: "SearchMatch \<Rightarrow> str" where
  "match_text m = sm_path m @ [58] @ dec (sm_line_number m) @ [58] @ sm_text m"

definition search_result :: "ToolExecutionContext \<Rightarrow> SearchResult \<Rightarrow> ToolResult res" where
  "search_result c r =
     ToolResult_post_init
       \<lparr>tr_correlation_id = cx_correlation_id c,
        tr_status = status_for_environment (sr_status r),
        tr_text = result_text (sr_status r) (sr_message r) (join_with 10 (map match_text (sr_matches r))),
        tr_provider_tool_call_id = cx_provider_tool_call_id c,
        tr_metadata = sr_metadata r, tr_truncated = sr_truncated r,
        tr_original_length = sr_original_length r,
        tr_duration_seconds = sr_duration_seconds r, tr_exit_code = None, tr_timed_out = False,
        tr_path = None\<rparr>"

definition command_result :: "ToolExecutionContext \<Rightarrow> CommandResult \<Rightarrow> ToolResult res" where
  "command_result c r =
     (let text0 = (if cr_stderr r \<noteq> []
                   then (if cr_stdout r \<noteq> [] then cr_stdout r @ [10] @ cr_stderr r else cr_stderr r)
                   else cr_stdout r);
          status = status_for_environment (cr_status r);
          status' = (if cr_timed_out r then ResTimeout
                     else if status = ResSuccess \<and> cr_exit_code r \<notin> {None, Some 0} then ResError
                     else status) in
      ToolResult_post_init
       \<lparr>tr_correlation_id = cx_correlation_id c, tr_status = status',
        tr_text = string_or_message text0 (cr_message r),
        tr_provider_tool_call_id = cx_provider_tool_call_id c,
        tr_metadata = cr_metadata r, tr_truncated = cr_truncated r,
        tr_original_length = cr_original_output_length r,
        tr_duration_seconds = cr_duration_seconds r, tr_exit_code = cr_exit_code r,
        tr_timed_out = cr_timed_out r, tr_path = None\<rparr>)"

definition or_text :: "str \<Rightarrow> str \<Rightarrow> str" where
  "or_text a b = (if a \<noteq> [] then a else b)"

definition failure_result :: "ToolExecutionContext \<Rightarrow> exn \<Rightarrow> ToolResult res" where
  "failure_result c e =
     ToolResult_post_init (plain_result c ResError
       (lit ''tool execution failed: '' @ exn_class e @ lit '': '' @ exn_message e)
       [(lit ''error_type'', JStr (exn_class e))])"

definition cancelled_result :: "ToolExecutionContext \<Rightarrow> str option \<Rightarrow> exn \<Rightarrow> ToolResult res" where
  "cancelled_result c reason e =
     ToolResult_post_init (plain_result c ResCancelled
       (or_text (exn_message e)
          (or_text (case reason of None \<Rightarrow> [] | Some r \<Rightarrow> r) (lit ''operation cancelled'')))
       [(lit ''reason'', JStr (lit ''cancelled''))])"

definition timeout_result :: "ToolExecutionContext \<Rightarrow> exn \<Rightarrow> ToolResult res" where
  "timeout_result c e =
     ToolResult_post_init ((plain_result c ResTimeout
       (or_text (exn_message e) (lit ''operation timed out''))
       [(lit ''reason'', JStr (lit ''timeout''))])\<lparr>tr_timed_out := True\<rparr>)"

text \<open>\<open>ToolProtocolError.as_dict\<close>; another exception is first wrapped by \<open>execute\<close> as an
  \<open>invalid_value\<close> error.\<close>

fun error_as_dict :: "exn \<Rightarrow> jobj" where
  "error_as_dict (ToolProtocolError code message path details) =
     [(lit ''code'', JStr code), (lit ''message'', JStr message), (lit ''path'', JStr path),
      (lit ''details'', JObj details)]"
| "error_as_dict _ = []"

fun error_code :: "exn \<Rightarrow> str" where
  "error_code (ToolProtocolError code _ _ _) = code"
| "error_code _ = []"

definition invalid_argument_result :: "ToolExecutionContext \<Rightarrow> exn \<Rightarrow> ToolResult res" where
  "invalid_argument_result c e =
     ToolResult_post_init (plain_result c ResInvalid (exn_message e)
       [(lit ''error'', JObj (error_as_dict e)), (lit ''error_code'', JStr (error_code e))])"

definition as_protocol_error :: "exn \<Rightarrow> exn" where
  "as_protocol_error e =
     (if is_protocol_error e then e
      else protocol_error INVALID_VALUE (or_text (exn_message e) (lit ''invalid tool arguments'')) (lit ''$'') [])"

section \<open>Execution\<close>

text \<open>\<open>BuiltinTool._call\<close>: one environment operation, then its normalization, both under the
  same handlers; \<open>KeyboardInterrupt\<close> is no \<open>Exception\<close> and passes through.\<close>

definition call_operation ::
  "ToolExecutionContext \<Rightarrow> ('s \<Rightarrow> str option) \<Rightarrow> ('s, 'r) effect \<Rightarrow> ('r \<Rightarrow> ToolResult res)
     \<Rightarrow> ('s, ToolResult) effect" where
  "call_operation c reason operation project s =
     (let (s', r) = operation s in
      case bindR r project of
        Inr t \<Rightarrow> (s', Inr t)
      | Inl (CancellationRequested m) \<Rightarrow> (s', cancelled_result c (reason s') (CancellationRequested m))
      | Inl (TimeoutError m) \<Rightarrow> (s', timeout_result c (TimeoutError m))
      | Inl KeyboardInterrupt \<Rightarrow> (s', Inl KeyboardInterrupt)
      | Inl e \<Rightarrow> (s', failure_result c e))"

definition argument :: "jobj \<Rightarrow> string \<Rightarrow> json \<Rightarrow> json" where
  "argument d key dflt = (case dget d (lit key) of None \<Rightarrow> dflt | Some v \<Rightarrow> v)"

text \<open>\<open>_execute_validated\<close> of the six classes: the request, then the call.  A failing
  constructor raises out of it before the environment is reached.\<close>

definition with_request :: "'q res \<Rightarrow> ('q \<Rightarrow> ('s, ToolResult) effect) \<Rightarrow> ('s, ToolResult) effect" where
  "with_request q f s = (case q of Inl e \<Rightarrow> (s, Inl e) | Inr r \<Rightarrow> f r s)"

fun execute_validated ::
  "'s environment \<Rightarrow> BuiltinTool \<Rightarrow> jobj \<Rightarrow> ToolExecutionContext \<Rightarrow> ('s, ToolResult) effect" where
  "execute_validated env ReadFileTool a c =
     with_request (mk_ReadFileRequest (argument a ''path'' JNull) (argument a ''start_line'' JNull)
                     (argument a ''end_line'' JNull) (argument a ''max_bytes'' JNull))
       (\<lambda>q. call_operation c (env_cancel_reason env) (env_read_file env q) (file_result c (rf_path q)))"
| "execute_validated env ListFilesTool a c =
     with_request (mk_ListFilesRequest (argument a ''path'' (JStr [])) (argument a ''recursive'' (JBool False))
                     (argument a ''max_entries'' (JInt 100)))
       (\<lambda>q. call_operation c (env_cancel_reason env) (env_list_files env q) (list_result c))"
| "execute_validated env SearchTool a c =
     with_request (mk_SearchRequest (argument a ''query'' JNull) (argument a ''path'' (JStr []))
                     (argument a ''use_regex'' (JBool False)) (argument a ''max_results'' (JInt 100))
                     (argument a ''max_bytes'' JNull))
       (\<lambda>q. call_operation c (env_cancel_reason env) (env_search env q) (search_result c))"
| "execute_validated env WriteFileTool a c =
     with_request (mk_WriteFileRequest (argument a ''path'' JNull) (argument a ''content'' JNull)
                     (argument a ''max_bytes'' JNull))
       (\<lambda>q. call_operation c (env_cancel_reason env) (env_write_file env q) (file_result c (wf_path q)))"
| "execute_validated env EditFileTool a c =
     with_request (mk_EditFileRequest (argument a ''path'' JNull) (argument a ''old_text'' JNull)
                     (argument a ''new_text'' JNull) (argument a ''expected_replacements'' (JInt 1)))
       (\<lambda>q. call_operation c (env_cancel_reason env) (env_edit_file env q) (file_result c (ef_path q)))"
| "execute_validated env BashTool a c =
     with_request (mk_RunCommandRequest (argument a ''command'' JNull) (argument a ''timeout_seconds'' JNull)
                     (argument a ''max_output_bytes'' JNull) (argument a ''working_directory'' JNull))
       (\<lambda>q. call_operation c (env_cancel_reason env) (env_run_command env q) (command_result c))"

text \<open>\<open>BuiltinTool.execute\<close>.\<close>

definition builtin_execute ::
  "platform \<Rightarrow> 's environment \<Rightarrow> BuiltinTool \<Rightarrow> json \<Rightarrow> ToolExecutionContext \<Rightarrow> ('s, ToolResult) effect" where
  "builtin_execute pl env t arguments c s =
     (case validate_arguments pl arguments (tool_parameters t) of
        Inl e \<Rightarrow> (s, invalid_argument_result c (as_protocol_error e))
      | Inr parsed \<Rightarrow>
          (let (s', r) = execute_validated env t parsed c s in
           case r of
             Inr x \<Rightarrow> (s', Inr x)
           | Inl e \<Rightarrow>
               if is_type_error e \<or> is_value_error e
               then (s', invalid_argument_result c (as_protocol_error e)) else (s', Inl e)))"

section \<open>Every call ends in one well-formed result\<close>

definition result_for :: "ToolExecutionContext \<Rightarrow> ToolResult \<Rightarrow> bool" where
  "result_for c t \<longleftrightarrow> ToolResult_ok t \<and> tr_correlation_id t = cx_correlation_id c \<and>
     tr_provider_tool_call_id t = cx_provider_tool_call_id c"

lemma plain_result_ok: "ToolExecutionContext_ok c \<Longrightarrow> ToolResult_ok (plain_result c st t m)"
  by (simp add: ToolResult_ok_def plain_result_def ToolExecutionContext_ok_def)

lemma plain_result_for: "ToolExecutionContext_ok c \<Longrightarrow> result_for c (plain_result c st t m)"
  by (simp add: result_for_def plain_result_ok) (simp add: plain_result_def)

lemma status_for_environment_not_invalid [simp]: "status_for_environment st \<noteq> ResInvalid"
  by (cases st) simp_all

lemma normalized_result:
  shows "file_result c p fr = Inr t \<Longrightarrow> result_for c t \<and> tr_status t \<noteq> ResInvalid"
    and "list_result c lr = Inr t \<Longrightarrow> result_for c t \<and> tr_status t \<noteq> ResInvalid"
    and "search_result c sr = Inr t \<Longrightarrow> result_for c t \<and> tr_status t \<noteq> ResInvalid"
    and "command_result c cr = Inr t \<Longrightarrow> result_for c t \<and> tr_status t \<noteq> ResInvalid"
  by (auto simp: file_result_def list_result_def search_result_def command_result_def
      ToolResult_post_init_iff result_for_def Let_def)

lemma failure_results:
  assumes "ToolExecutionContext_ok c"
  shows "\<exists>t. failure_result c e = Inr t \<and> result_for c t \<and> tr_status t = ResError"
    and "\<exists>t. cancelled_result c reason e = Inr t \<and> result_for c t \<and> tr_status t = ResCancelled"
    and "\<exists>t. timeout_result c e = Inr t \<and> result_for c t \<and> tr_status t = ResTimeout"
    and "\<exists>t. invalid_argument_result c e = Inr t \<and> result_for c t \<and> tr_status t = ResInvalid"
  using assms
  by (simp_all add: failure_result_def cancelled_result_def timeout_result_def
      invalid_argument_result_def ToolResult_post_init_iff ToolResult_ok_def result_for_def
      plain_result_def ToolExecutionContext_ok_def)

lemma call_operation_result:
  assumes c: "ToolExecutionContext_ok c"
    and norm: "\<forall>r t. project r = Inr t \<longrightarrow> result_for c t \<and> tr_status t \<noteq> ResInvalid"
  shows "case call_operation c reason operation project s of
     (s', Inr t) \<Rightarrow> s' = fst (operation s) \<and> result_for c t \<and> tr_status t \<noteq> ResInvalid
   | (s', Inl e) \<Rightarrow> s' = fst (operation s) \<and> e = KeyboardInterrupt"
proof -
  obtain s' r where op: "operation s = (s', r)" by (cases "operation s")
  show ?thesis
  proof (cases "bindR r project")
    case (Inr t)
    then obtain a where "project a = Inr t" by (auto simp: bindR_Inr_iff)
    then show ?thesis using norm op Inr by (simp add: call_operation_def)
  next
    case (Inl e)
    note f = failure_results [OF c]
    show ?thesis
    proof (cases e)
      case (CancellationRequested m)
      then show ?thesis using Inl op f(2) [of "reason s'" e] by (auto simp: call_operation_def)
    next
      case (TimeoutError m)
      then show ?thesis using Inl op f(3) [of e] by (auto simp: call_operation_def)
    next
      case KeyboardInterrupt
      then show ?thesis using Inl op by (simp add: call_operation_def)
    qed (use Inl op f(1) [of e] in \<open>auto simp: call_operation_def\<close>)
  qed
qed

definition validated_outcome :: "ToolExecutionContext \<Rightarrow> 's \<Rightarrow> 's \<times> ToolResult res \<Rightarrow> bool" where
  "validated_outcome c s p \<longleftrightarrow>
     (case p of
        (s', Inr x) \<Rightarrow> result_for c x \<and> tr_status x \<noteq> ResInvalid
      | (s', Inl e) \<Rightarrow> e = KeyboardInterrupt \<or> s' = s \<and> argument_error e)"

lemma execute_validated_result:
  assumes "ToolExecutionContext_ok c"
  shows "validated_outcome c s (execute_validated env t a c s)"
proof -
  have call: "validated_outcome c s (call_operation c reason f project s)"
    if "\<forall>r t. project r = Inr t \<longrightarrow> result_for c t \<and> tr_status t \<noteq> ResInvalid"
    for reason and f :: "('a, 'r) effect" and project
    using call_operation_result [OF assms that, where reason = reason and operation = f and s = s]
    by (auto simp: validated_outcome_def split: prod.splits sum.splits)
  have raised: "argument_error e \<Longrightarrow> validated_outcome c s (s, Inl e)" for e
    by (simp add: validated_outcome_def)
  show ?thesis
    by (cases t) (auto simp: with_request_def normalized_result intro!: call raised
        dest: mk_request_argument_error split: sum.split)
qed

text \<open>A result is well formed even when the context is not: it was validated when it was made.\<close>

lemma call_operation_ok:
  assumes "\<forall>r t. project r = Inr t \<longrightarrow> ToolResult_ok t" "call_operation c reason f project s = (s', Inr t)"
  shows "ToolResult_ok t"
proof -
  obtain s1 r where f: "f s = (s1, r)" by (cases "f s")
  show ?thesis
  proof (cases "bindR r project")
    case (Inr t')
    then show ?thesis using assms f by (auto simp: call_operation_def bindR_Inr_iff)
  next
    case (Inl e)
    then show ?thesis using assms(2) f
      by (cases e) (auto simp: call_operation_def failure_result_def cancelled_result_def
          timeout_result_def ToolResult_post_init_iff)
  qed
qed

lemma normalized_ok:
  "file_result c p fr = Inr t \<Longrightarrow> ToolResult_ok t"
  "list_result c lr = Inr t \<Longrightarrow> ToolResult_ok t"
  "search_result c sr = Inr t \<Longrightarrow> ToolResult_ok t"
  "command_result c cr = Inr t \<Longrightarrow> ToolResult_ok t"
  using normalized_result by (auto simp: result_for_def)

lemma execute_validated_ok: "execute_validated env t a c s = (s', Inr x) \<Longrightarrow> ToolResult_ok x"
  by (cases t) (auto simp: with_request_def dest!: call_operation_ok [rotated]
      dest: normalized_ok split: sum.splits)

lemma builtin_execute_ok: "builtin_execute pl env t a c s = (s', Inr x) \<Longrightarrow> ToolResult_ok x"
  by (auto simp: builtin_execute_def invalid_argument_result_def ToolResult_post_init_iff Let_def
      dest: execute_validated_ok split: sum.splits prod.splits if_splits)

text \<open>A built-in tool call always ends in one well-formed result that carries the ids of its
  context: whatever the arguments are and whatever the environment does, \<open>execute\<close> returns a
  result or passes on a \<open>KeyboardInterrupt\<close>; arguments that fail validation give the
  \<open>INVALID\<close> result with the error's message and leave the environment untouched; and an
  \<open>INVALID\<close> result is only ever given without an environment call.\<close>

theorem builtin_execute_total:
  assumes "ToolExecutionContext_ok c"
  shows "case builtin_execute pl env t arguments c s of
      (s', Inl e) \<Rightarrow> e = KeyboardInterrupt
    | (s', Inr x) \<Rightarrow> ToolResult_ok x \<and> tr_correlation_id x = cx_correlation_id c \<and>
        tr_provider_tool_call_id x = cx_provider_tool_call_id c \<and>
        (tr_status x = ResInvalid \<longrightarrow> s' = s) \<and>
        (\<forall>err. validate_arguments pl arguments (tool_parameters t) = Inl err \<longrightarrow>
           s' = s \<and> tr_status x = ResInvalid \<and> tr_text x = exn_message (as_protocol_error err))"
proof (cases "validate_arguments pl arguments (tool_parameters t)")
  case (Inl err)
  have "invalid_argument_result c (as_protocol_error err)
      = Inr (plain_result c ResInvalid (exn_message (as_protocol_error err))
          [(lit ''error'', JObj (error_as_dict (as_protocol_error err))),
           (lit ''error_code'', JStr (error_code (as_protocol_error err)))])"
    using plain_result_ok [OF assms] by (simp add: invalid_argument_result_def ToolResult_post_init_iff)
  then show ?thesis using Inl plain_result_ok [OF assms]
    by (simp add: builtin_execute_def plain_result_def)
next
  case (Inr parsed)
  obtain s' r where ex: "execute_validated env t parsed c s = (s', r)"
    by (cases "execute_validated env t parsed c s")
  note res = execute_validated_result [OF assms, where env = env and t = t and a = parsed and s = s, unfolded ex validated_outcome_def]
  show ?thesis
  proof (cases r)
    case (Inr x)
    then show ?thesis using res ex \<open>validate_arguments pl arguments (tool_parameters t) = Inr parsed\<close>
      by (simp add: builtin_execute_def result_for_def)
  next
    case (Inl e)
    obtain x where x: "invalid_argument_result c (as_protocol_error e) = Inr x" "result_for c x"
        "tr_status x = ResInvalid"
      using failure_results(4) [OF assms] by blast
    show ?thesis
      using res ex Inl x \<open>validate_arguments pl arguments (tool_parameters t) = Inr parsed\<close>
      by (auto simp: builtin_execute_def result_for_def argument_error_def)
  qed
qed

text \<open>An environment whose state is a counter of calls and whose operations raise, and the
  arguments of two calls, for the concrete runs.\<close>

definition counting_env :: "nat environment" where
  "counting_env =
     \<lparr>env_read_file = (\<lambda>q s. (Suc s, Inl (OSError (lit ''disk'')))),
      env_list_files = (\<lambda>q s. (Suc s, Inl (TimeoutError []))),
      env_search = (\<lambda>q s. (Suc s, Inl (CancellationRequested []))),
      env_write_file = (\<lambda>q s. (Suc s, Inl KeyboardInterrupt)),
      env_edit_file = (\<lambda>q s. (Suc s, Inl (ValueError (lit ''bad'')))),
      env_run_command = (\<lambda>q s. (Suc s, Inl (RuntimeError (lit ''gone'')))),
      env_cancel_reason = (\<lambda>s. None)\<rparr>"

definition sample_context :: ToolExecutionContext where
  "sample_context = \<lparr>cx_agent_id = [97], cx_correlation_id = [99], cx_provider_tool_call_id = None\<rparr>"

lemma sample_context_ok [simp]: "ToolExecutionContext_ok sample_context"
  by (simp add: ToolExecutionContext_ok_def sample_context_def id_ok_def identifier_pattern_def is_alnum_def)

theorem builtin_execute_total_witness:
  "\<exists>x. builtin_execute sample_platform counting_env ReadFileTool (JObj []) sample_context 0 = (0, Inr x) \<and>
     tr_status x = ResInvalid"
proof -
  have v: "\<exists>e. validate_arguments sample_platform (JObj []) (tool_parameters ReadFileTool) = Inl e"
    by (simp add: validate_arguments_def parse_json_arguments_def decode_arguments_def require_object_def
        validate_value.simps(1) check_scalar_def check_type_def check_enum_def check_string_def
        check_number_def check_object_def tool_parameters_def sget_def type_matches_def Let_def
        has_key_def)
  obtain s' r where "builtin_execute sample_platform counting_env ReadFileTool (JObj []) sample_context 0 = (s', r)"
    by (cases "builtin_execute sample_platform counting_env ReadFileTool (JObj []) sample_context 0")
  moreover have "\<exists>x. r = Inr x"
    using v calculation failure_results(4) [OF sample_context_ok]
    by (auto simp: builtin_execute_def split: sum.splits)
  ultimately show ?thesis
    using v builtin_execute_total [OF sample_context_ok, where pl = sample_platform and env = counting_env and t = ReadFileTool
          and arguments = "JObj []" and s = 0]
    by auto
qed

section \<open>Only well-formed requests reach the environment\<close>

text \<open>Every request the environment receives from a built-in tool is well formed: a non-empty
  NUL-free path, ordered non-negative line bounds, a non-blank command, at least one expected
  replacement, and so on.  Stated for any predicate on the environment's state that its
  operations preserve on well-formed requests: no call breaks it, whatever the arguments.\<close>

theorem builtin_requests_wellformed:
  assumes "\<And>q s. ReadFileRequest_ok q \<Longrightarrow> P s \<Longrightarrow> P (fst (env_read_file env q s))"
    and "\<And>q s. ListFilesRequest_ok q \<Longrightarrow> P s \<Longrightarrow> P (fst (env_list_files env q s))"
    and "\<And>q s. SearchRequest_ok q \<Longrightarrow> P s \<Longrightarrow> P (fst (env_search env q s))"
    and "\<And>q s. WriteFileRequest_ok q \<Longrightarrow> P s \<Longrightarrow> P (fst (env_write_file env q s))"
    and "\<And>q s. EditFileRequest_ok q \<Longrightarrow> P s \<Longrightarrow> P (fst (env_edit_file env q s))"
    and "\<And>q s. RunCommandRequest_ok q \<Longrightarrow> P s \<Longrightarrow> P (fst (env_run_command env q s))"
    and "P s"
  shows "P (fst (builtin_execute pl env t arguments c s))"
proof -
  have call: "P (fst (call_operation c reason f project s))"
    if "P (fst (f s))" for reason and f :: "('a, 'r) effect" and project
    using that by (auto simp: call_operation_def Let_def split: prod.splits sum.splits exn.splits)
  have "P (fst (execute_validated env t a c s))" for a
    using assms(7)
    by (cases t) (auto simp: with_request_def split: sum.split
        intro!: call assms(1-6) mk_requests_ok mk_EditFileRequest_ok mk_RunCommandRequest_ok)
  then have "P (fst (execute_validated env t a c s))" for a .
  then show ?thesis
    using assms(7) by (auto simp: builtin_execute_def Let_def split: sum.split prod.split) (metis fst_conv)+
qed

theorem builtin_requests_wellformed_witness:
  "fst (builtin_execute sample_platform counting_env EditFileTool (JStr []) sample_context 5) \<ge> (5 :: nat)"
  by (rule builtin_requests_wellformed) (simp_all add: counting_env_def)

end
