(* ===== verification/Registry.thy ===== *)
theory Registry
  imports Builtins
begin

text \<open>
  The tool registry (\<open>tools/registry.py\<close>): registration, the separate active set, the
  schemas shown to the model, validation, and dispatch of one call to one result.
\<close>

section \<open>Tools and the registry's state\<close>

text \<open>A registered object: its attributes as the code reads them with \<open>getattr\<close>, its
  validator when it has one, and its \<open>execute\<close>, which may return something that is no
  \<open>ToolResult\<close> (None).\<close>

record 's tool =
  tl_name :: json
  tl_description :: json
  tl_parameters :: "json option"
  tl_schema :: "json option"
  tl_openai_schema :: "json option"
  tl_validate :: "(json \<Rightarrow> json res) option"
  tl_execute :: "(json \<Rightarrow> ToolExecutionContext \<Rightarrow> ('s, ToolResult option) effect) option"

record 's ToolRegistry =
  rg_tools :: "(str \<times> 's tool) list"
  rg_active :: "str set"

definition ToolRegistry_empty :: "'s ToolRegistry" where
  "ToolRegistry_empty = \<lparr>rg_tools = [], rg_active = {}\<rparr>"

definition registered_names :: "'s ToolRegistry \<Rightarrow> str list" where
  "registered_names g = map fst (rg_tools g)"

definition active_names :: "'s ToolRegistry \<Rightarrow> str list" where
  "active_names g = filter (\<lambda>n. n \<in> rg_active g) (registered_names g)"

text \<open>\<open>ensure_json_schema\<close>: only an object of finite values survives \<open>json.dumps\<close> and
  \<open>json.loads\<close>, unchanged (\<open>loads_render\<close>).\<close>

definition ensure_json_schema :: "json \<Rightarrow> jobj res" where
  "ensure_json_schema v =
     (case v of
        JObj d \<Rightarrow> if finite_json v then Inr d
                  else Inl (ValueError (lit ''Out of range float values are not JSON compliant''))
      | _ \<Rightarrow> Inl (TypeError (lit ''tool schema must be a mapping'')))"

section \<open>Registration and activation\<close>

definition nonempty_str :: "json \<Rightarrow> bool" where
  "nonempty_str v \<longleftrightarrow> is_jstr v \<and> json_str v \<noteq> []"

definition declared_parameters :: "'s tool \<Rightarrow> json" where
  "declared_parameters t =
     (case tl_parameters t of
        Some p \<Rightarrow> if p \<noteq> JNull then p
                  else (case tl_schema t of Some (JObj d) \<Rightarrow> argument d ''parameters'' (JObj d) | _ \<Rightarrow> JNull)
      | None \<Rightarrow> (case tl_schema t of Some (JObj d) \<Rightarrow> argument d ''parameters'' (JObj d) | _ \<Rightarrow> JNull))"

definition register :: "'s tool \<Rightarrow> bool \<Rightarrow> bool \<Rightarrow> 's ToolRegistry \<Rightarrow> 's ToolRegistry res" where
  "register t active replace_existing g =
     bindR (guardR (nonempty_str (tl_name t)) (TypeError (lit ''tool name must be a non-empty string''))) (\<lambda>_.
     bindR (guardR (nonempty_str (tl_description t))
              (TypeError (lit ''tool description must be a non-empty string''))) (\<lambda>_.
     bindR (guardR (tl_execute t \<noteq> None) (TypeError (lit ''tool must provide an execute method''))) (\<lambda>_.
     bindR (case ensure_json_schema (declared_parameters t) of
              Inl _ \<Rightarrow> Inl (TypeError (lit ''tool parameters must be a JSON-serializable object''))
            | Inr d \<Rightarrow> Inr d) (\<lambda>schema.
     bindR (guardR (dget schema (lit ''type'') = Some (JStr (lit ''object'')))
              (ValueError (lit ''tool parameters schema must describe an object''))) (\<lambda>_.
     let name = json_str (tl_name t) in
     bindR (guardR (\<not> (has_key (rg_tools g) name \<and> \<not> replace_existing))
              (ValueError (lit ''tool already registered: '' @ name))) (\<lambda>_.
     Inr \<lparr>rg_tools = dset (rg_tools g) name t,
          rg_active = (if active then insert name (rg_active g)
                       else if replace_existing then rg_active g - {name} else rg_active g)\<rparr>))))))"

definition unregister :: "str \<Rightarrow> 's ToolRegistry \<Rightarrow> 's ToolRegistry res" where
  "unregister name g =
     (if \<not> has_key (rg_tools g) name then Inl (KeyError name)
      else Inr \<lparr>rg_tools = ddel (rg_tools g) name, rg_active = rg_active g - {name}\<rparr>)"

definition unknown_tool :: "str \<Rightarrow> exn" where
  "unknown_tool name = KeyError (lit ''unknown tool: '' @ name)"

fun check_names :: "'s ToolRegistry \<Rightarrow> str list \<Rightarrow> unit res" where
  "check_names g [] = Inr ()"
| "check_names g (n # ns) = (if \<not> has_key (rg_tools g) n then Inl (unknown_tool n) else check_names g ns)"

definition activate :: "str list \<Rightarrow> 's ToolRegistry \<Rightarrow> 's ToolRegistry res" where
  "activate names g =
     bindR (check_names g names) (\<lambda>_. Inr (g\<lparr>rg_active := rg_active g \<union> set names\<rparr>))"

definition deactivate :: "str list \<Rightarrow> 's ToolRegistry \<Rightarrow> 's ToolRegistry" where
  "deactivate names g = g\<lparr>rg_active := rg_active g - set names\<rparr>"

definition set_active :: "str list \<Rightarrow> 's ToolRegistry \<Rightarrow> 's ToolRegistry res" where
  "set_active names g =
     (case filter (\<lambda>n. \<not> has_key (rg_tools g) n) names of
        n # _ \<Rightarrow> Inl (unknown_tool n)
      | [] \<Rightarrow> Inr (g\<lparr>rg_active := set names\<rparr>))"

definition clear_active :: "'s ToolRegistry \<Rightarrow> 's ToolRegistry" where
  "clear_active g = g\<lparr>rg_active := {}\<rparr>"

section \<open>Schemas\<close>

definition function_schema :: "str \<Rightarrow> str \<Rightarrow> jobj \<Rightarrow> jobj" where
  "function_schema name description parameters =
     [(lit ''type'', JStr (lit ''function'')),
      (lit ''function'',
         JObj [(lit ''name'', JStr name), (lit ''description'', JStr description),
               (lit ''parameters'', JObj parameters)])]"

text \<open>\<open>_tool_schema\<close>.\<close>

definition tool_schema :: "'s tool \<Rightarrow> jobj res" where
  "tool_schema t =
     (case tl_openai_schema t of
        Some (JObj d) \<Rightarrow> ensure_json_schema (JObj d)
      | _ \<Rightarrow>
        (let schema = (case tl_schema t of
              Some (JObj d) \<Rightarrow> JObj d
            | _ \<Rightarrow> JObj [(lit ''name'', tl_name t), (lit ''description'', tl_description t),
                         (lit ''parameters'', case tl_parameters t of Some p \<Rightarrow> p | None \<Rightarrow> JNull)]) in
         bindR (ensure_json_schema schema) (\<lambda>d.
           if dget d (lit ''type'') = Some (JStr (lit ''function'')) \<and>
              (case dget d (lit ''function'') of Some (JObj f) \<Rightarrow> True | _ \<Rightarrow> False)
           then Inr d
           else
             bindR (ensure_json_schema
                      (case tl_parameters t of
                         Some p \<Rightarrow> if p \<noteq> JNull then p else argument d ''parameters'' (JObj d)
                       | None \<Rightarrow> argument d ''parameters'' (JObj d))) (\<lambda>p.
             Inr (function_schema (json_str (tl_name t)) (json_str (tl_description t)) p)))))"

fun map_res :: "('a \<Rightarrow> 'b res) \<Rightarrow> 'a list \<Rightarrow> 'b list res" where
  "map_res f [] = Inr []"
| "map_res f (x # xs) = bindR (f x) (\<lambda>y. bindR (map_res f xs) (\<lambda>ys. Inr (y # ys)))"

definition active_schemas :: "'s ToolRegistry \<Rightarrow> jobj list res" where
  "active_schemas g = map_res (tool_schema \<circ> snd) (filter (\<lambda>p. fst p \<in> rg_active g) (rg_tools g))"

definition schema_for :: "str \<Rightarrow> 's ToolRegistry \<Rightarrow> jobj res" where
  "schema_for name g =
     (case dget (rg_tools g) name of
        None \<Rightarrow> Inl (unknown_tool name)
      | Some t \<Rightarrow> if name \<notin> rg_active g then Inl (KeyError (lit ''tool is not active: '' @ name))
                  else tool_schema t)"

section \<open>Validation and dispatch\<close>

definition registry_validate :: "str \<Rightarrow> json \<Rightarrow> 's ToolRegistry \<Rightarrow> json res" where
  "registry_validate name arguments g =
     (case dget (rg_tools g) name of
        None \<Rightarrow> Inl (protocol_error UNKNOWN_TOOL (lit ''unknown tool: '' @ name) (lit ''$'') [])
      | Some t \<Rightarrow>
          if name \<notin> rg_active g
          then Inl (protocol_error INACTIVE_TOOL (lit ''tool is not active: '' @ name) (lit ''$'') [])
          else (case tl_validate t of
                  None \<Rightarrow> Inl (TypeError (lit ''tool must provide a validate method''))
                | Some f \<Rightarrow> f arguments))"

definition error_metadata :: "str \<Rightarrow> str \<Rightarrow> str \<Rightarrow> jobj \<Rightarrow> str option \<Rightarrow> jobj" where
  "error_metadata code message path details tname =
     [(lit ''error'', JObj [(lit ''code'', JStr code), (lit ''message'', JStr message),
                            (lit ''path'', JStr path), (lit ''details'', JObj details)]),
      (lit ''error_code'', JStr code)] @
     (case tname of None \<Rightarrow> [] | Some n \<Rightarrow> [(lit ''tool_name'', JStr n)])"

definition bare_result :: "str \<Rightarrow> str option \<Rightarrow> ToolResultStatus \<Rightarrow> str \<Rightarrow> jobj \<Rightarrow> ToolResult res" where
  "bare_result cid pid status txt metadata =
     ToolResult_post_init
       \<lparr>tr_correlation_id = cid, tr_status = status, tr_text = txt, tr_provider_tool_call_id = pid,
        tr_metadata = metadata, tr_truncated = False, tr_original_length = None,
        tr_duration_seconds = None, tr_exit_code = None, tr_timed_out = False, tr_path = None\<rparr>"

fun error_path :: "exn \<Rightarrow> str" where
  "error_path (ToolProtocolError _ _ path _) = path"
| "error_path _ = lit ''$''"

fun error_details :: "exn \<Rightarrow> jobj" where
  "error_details (ToolProtocolError _ _ _ details) = details"
| "error_details _ = []"

definition invalid_result :: "str \<Rightarrow> str option \<Rightarrow> exn \<Rightarrow> str option \<Rightarrow> ToolResult res" where
  "invalid_result cid pid e tname =
     bare_result cid pid ResInvalid (exn_message e)
       (error_metadata (error_code e) (exn_message e) (error_path e) (error_details e) tname)"

definition internal_error :: "str \<Rightarrow> str option \<Rightarrow> exn \<Rightarrow> str option \<Rightarrow> ToolResult res" where
  "internal_error cid pid e tname =
     (let message = lit ''tool execution failed: '' @ exn_class e @ lit '': '' @ exn_message e in
      bare_result cid pid ResError message
        (error_metadata (code_str INTERNAL_TOOL_ERROR) message (lit ''$'')
           [(lit ''exception_type'', JStr (exn_class e))] tname))"

text \<open>Python's \<open>a or b\<close> on optional strings.\<close>

definition por :: "str option \<Rightarrow> str option \<Rightarrow> str option" where
  "por a b = (case a of Some (c # s) \<Rightarrow> Some (c # s) | _ \<Rightarrow> b)"

text \<open>What \<open>execute\<close> derives from its first argument: the name, the arguments, the
  correlation id and the provider id.  \<open>fresh\<close> is the id \<open>_fresh_correlation_id\<close> makes.\<close>

definition call_fields ::
  "str + ToolCall \<Rightarrow> json option \<Rightarrow> ToolExecutionContext option \<Rightarrow> str option \<Rightarrow> str option \<Rightarrow> str
     \<Rightarrow> str \<times> json \<times> str \<times> str option" where
  "call_fields tool_or_call arguments context correlation_id provider fresh =
     (case tool_or_call of
        Inr call \<Rightarrow>
          (tc_name call,
           (case arguments of Some a \<Rightarrow> a | None \<Rightarrow> JStr (tc_raw_arguments call)),
           tc_correlation_id call, tc_provider_tool_call_id call)
      | Inl name \<Rightarrow>
          (name,
           (case arguments of Some a \<Rightarrow> a | None \<Rightarrow> JStr []),
           (case por correlation_id None of
              Some c \<Rightarrow> c
            | None \<Rightarrow> (case context of Some c \<Rightarrow> cx_correlation_id c | None \<Rightarrow> fresh)),
           por provider (case context of Some c \<Rightarrow> cx_provider_tool_call_id c | None \<Rightarrow> None)))"

text \<open>The refusals before dispatch, in the code's order.\<close>

definition refusal ::
  "'s ToolRegistry \<Rightarrow> str \<Rightarrow> str \<Rightarrow> str option \<Rightarrow> ToolExecutionContext option \<Rightarrow> (exn \<times> str option) option" where
  "refusal g name cid correlation_id context =
     (if name = []
      then Some (protocol_error UNKNOWN_TOOL (lit ''tool name is required'') (lit ''$'') [], None)
      else if correlation_id \<noteq> None \<and> correlation_id \<noteq> Some cid
      then Some (protocol_error CORRELATION_MISMATCH
             (lit ''provided correlation ID does not match the tool call'') (lit ''$'')
             [(lit ''call'', JStr cid), (lit ''provided'', json_opt_str correlation_id)], Some name)
      else if \<not> has_key (rg_tools g) name
      then Some (protocol_error UNKNOWN_TOOL (lit ''unknown tool: '' @ name) (lit ''$'')
             [(lit ''registered_tools'', JArr (map JStr (registered_names g)))], Some name)
      else if name \<notin> rg_active g
      then Some (protocol_error INACTIVE_TOOL (lit ''tool is not active: '' @ name) (lit ''$'')
             [(lit ''active_tools'', JArr (map JStr (active_names g)))], Some name)
      else (case context of
          None \<Rightarrow> Some (protocol_error CONTEXT_REQUIRED
             (lit ''ToolExecutionContext is required for tool execution'') (lit ''$'') [], Some name)
        | Some c \<Rightarrow>
            if cx_correlation_id c \<noteq> cid
            then Some (protocol_error CORRELATION_MISMATCH
                   (lit ''context correlation ID does not match the tool call'') (lit ''$'')
                   [(lit ''call'', JStr cid), (lit ''context'', JStr (cx_correlation_id c))], Some name)
            else None))"

text \<open>\<open>tool.execute\<close> under the registry's handlers, and the reassertion of the ids.\<close>

definition dispatch ::
  "'s tool \<Rightarrow> str \<Rightarrow> json \<Rightarrow> ToolExecutionContext \<Rightarrow> ('s, ToolResult) effect" where
  "dispatch t name arguments c s =
     (case tl_execute t of
        None \<Rightarrow> (s, internal_error (cx_correlation_id c) (cx_provider_tool_call_id c)
                   (TypeError (lit ''tool must provide an execute method'')) (Some name))
      | Some run \<Rightarrow>
          (let (s', r) = run arguments c s in
           case r of
             Inl e \<Rightarrow>
               if is_protocol_error e
               then (s', invalid_result (cx_correlation_id c) (cx_provider_tool_call_id c) e (Some name))
               else if is_exception e
               then (s', internal_error (cx_correlation_id c) (cx_provider_tool_call_id c) e (Some name))
               else (s', Inl e)
           | Inr None \<Rightarrow>
               (s', internal_error (cx_correlation_id c) (cx_provider_tool_call_id c)
                      (TypeError (lit ''tool execute must return ToolResult'')) (Some name))
           | Inr (Some x) \<Rightarrow>
               if tr_correlation_id x \<noteq> cx_correlation_id c \<or>
                  tr_provider_tool_call_id x \<noteq> cx_provider_tool_call_id c
               then (s', ToolResult_post_init
                      (x\<lparr>tr_correlation_id := cx_correlation_id c,
                         tr_provider_tool_call_id := cx_provider_tool_call_id c\<rparr>))
               else (s', Inr x)))"

definition registry_execute ::
  "'s ToolRegistry \<Rightarrow> str + ToolCall \<Rightarrow> json option \<Rightarrow> ToolExecutionContext option \<Rightarrow> str option
     \<Rightarrow> str option \<Rightarrow> str \<Rightarrow> ('s, ToolResult) effect" where
  "registry_execute g tool_or_call arguments context correlation_id provider fresh s =
     (case call_fields tool_or_call arguments context correlation_id provider fresh of
        (name, raw, cid, call_provider) \<Rightarrow>
          (case refusal g name cid correlation_id context of
             Some (e, tname) \<Rightarrow> (s, invalid_result cid call_provider e tname)
           | None \<Rightarrow>
               (case (context, dget (rg_tools g) name) of
                  (Some c, Some t) \<Rightarrow>
                    (let eff = por call_provider (cx_provider_tool_call_id c) in
                     case (if eff = cx_provider_tool_call_id c then Inr c
                           else bindR (coerce_identifier (PlainStr (case eff of Some p \<Rightarrow> p | None \<Rightarrow> []))
                                         ProviderToolCallId)
                                  (\<lambda>p. Inr (c\<lparr>cx_provider_tool_call_id := Some p\<rparr>))) of
                       Inl e \<Rightarrow> (s, Inl e)
                     | Inr c' \<Rightarrow> dispatch t name raw c' s)
                | _ \<Rightarrow> (s, Inl (KeyError name)))))"

section \<open>The built-in registry\<close>

definition tool_description :: "BuiltinTool \<Rightarrow> str" where
  "tool_description t =
     (case t of
        ReadFileTool \<Rightarrow> lit ''Read a bounded UTF-8 text file from the workspace.''
      | ListFilesTool \<Rightarrow> lit ''List bounded entries in a workspace directory.''
      | SearchTool \<Rightarrow> lit ''Search workspace text using literal or regular-expression matching.''
      | WriteFileTool \<Rightarrow> lit ''Create or replace a UTF-8 text file in the workspace.''
      | EditFileTool \<Rightarrow> lit ''Replace an exact text occurrence count in a workspace file.''
      | BashTool \<Rightarrow> lit ''Run a shell command through the current execution environment.'')"

text \<open>A built-in as the object the registry sees.\<close>

definition builtin_tool :: "platform \<Rightarrow> 's environment \<Rightarrow> BuiltinTool \<Rightarrow> 's tool" where
  "builtin_tool pl env t =
     \<lparr>tl_name = JStr (tool_name t), tl_description = JStr (tool_description t),
      tl_parameters = Some (JObj (tool_parameters t)),
      tl_schema = Some (JObj [(lit ''name'', JStr (tool_name t)),
                              (lit ''description'', JStr (tool_description t)),
                              (lit ''parameters'', JObj (tool_parameters t))]),
      tl_openai_schema = Some (JObj (function_schema (tool_name t) (tool_description t) (tool_parameters t))),
      tl_validate = Some (\<lambda>a. bindR (validate_arguments pl a (tool_parameters t)) (\<lambda>d. Inr (JObj d))),
      tl_execute = Some (\<lambda>a c s. (case builtin_execute pl env t a c s of
         (s', Inl e) \<Rightarrow> (s', Inl e) | (s', Inr x) \<Rightarrow> (s', Inr (Some x))))\<rparr>"

definition builtin_tools :: "platform \<Rightarrow> 's environment \<Rightarrow> 's tool list" where
  "builtin_tools pl env =
     map (builtin_tool pl env)
       [ReadFileTool, ListFilesTool, SearchTool, WriteFileTool, EditFileTool, BashTool]"

fun register_all :: "'s tool list \<Rightarrow> 's ToolRegistry \<Rightarrow> 's ToolRegistry res" where
  "register_all [] g = Inr g"
| "register_all (t # ts) g = bindR (register t False False g) (register_all ts)"

definition default_tool_registry ::
  "platform \<Rightarrow> 's environment \<Rightarrow> str list option \<Rightarrow> 's ToolRegistry res" where
  "default_tool_registry pl env active_tools =
     bindR (register_all (builtin_tools pl env) ToolRegistry_empty) (\<lambda>g.
     set_active (case active_tools of None \<Rightarrow> registered_names g | Some ns \<Rightarrow> ns) g)"

section \<open>The registry's invariant\<close>

definition RegistryInv :: "'s ToolRegistry \<Rightarrow> bool" where
  "RegistryInv g \<longleftrightarrow>
     distinct (map fst (rg_tools g)) \<and> rg_active g \<subseteq> fst ` set (rg_tools g) \<and>
     (\<forall>(n, t) \<in> set (rg_tools g). n \<noteq> [] \<and> tl_name t = JStr n \<and> tl_execute t \<noteq> None)"

lemma register_Inr:
  assumes "register t a r g = Inr g'"
  shows "nonempty_str (tl_name t) \<and> tl_execute t \<noteq> None \<and>
     rg_tools g' = dset (rg_tools g) (json_str (tl_name t)) t \<and>
     rg_active g' = (if a then insert (json_str (tl_name t)) (rg_active g)
                     else if r then rg_active g - {json_str (tl_name t)} else rg_active g)"
  using assms by (auto simp: register_def bindR_Inr_iff Let_def)

lemma register_inv: "RegistryInv g \<Longrightarrow> register t a r g = Inr g' \<Longrightarrow> RegistryInv g'"
proof -
  assume inv: "RegistryInv g" and reg: "register t a r g = Inr g'"
  have g': "nonempty_str (tl_name t)" "tl_execute t \<noteq> None"
     "rg_tools g' = dset (rg_tools g) (json_str (tl_name t)) t"
     "rg_active g' \<subseteq> insert (json_str (tl_name t)) (rg_active g)"
    using register_Inr [OF reg] by (auto split: if_splits)
  obtain n where n: "tl_name t = JStr n" "n \<noteq> []"
    using g'(1) by (cases "tl_name t") (auto simp: nonempty_str_def)
  have "rg_active g' \<subseteq> fst ` set (rg_tools g')"
    using g'(3,4) inv by (auto simp: keys_dset RegistryInv_def)
  then show ?thesis
    using inv g'(2,3) n unfolding RegistryInv_def by (auto dest!: in_dset)
qed

lemma unregister_inv:
  assumes "RegistryInv g" "unregister n g = Inr g'"
  shows "RegistryInv g'"
proof -
  have g': "g' = \<lparr>rg_tools = ddel (rg_tools g) n, rg_active = rg_active g - {n}\<rparr>"
    using assms(2) by (simp add: unregister_def split: if_splits)
  have "set (ddel (rg_tools g) n) \<subseteq> set (rg_tools g)" by (simp add: ddel_def)
  then show ?thesis using assms(1) unfolding g' RegistryInv_def
    by (auto simp: keys_ddel distinct_ddel)
qed

lemma check_names_ok: "check_names g ns = Inr u \<Longrightarrow> set ns \<subseteq> fst ` set (rg_tools g)"
  by (induction ns) (auto simp: has_key_iff split: if_splits)

lemma activate_inv: "RegistryInv g \<Longrightarrow> activate ns g = Inr g' \<Longrightarrow> RegistryInv g'"
  by (auto simp: activate_def RegistryInv_def bindR_Inr_iff dest!: check_names_ok)

lemma deactivate_inv: "RegistryInv g \<Longrightarrow> RegistryInv (deactivate ns g)"
  by (auto simp: deactivate_def RegistryInv_def)

lemma set_active_Inr:
  "set_active ns g = Inr g' \<longleftrightarrow> set ns \<subseteq> fst ` set (rg_tools g) \<and> g' = g\<lparr>rg_active := set ns\<rparr>"
proof (cases "filter (\<lambda>n. \<not> has_key (rg_tools g) n) ns")
  case Nil
  then have "set ns \<subseteq> fst ` set (rg_tools g)" by (auto simp: filter_empty_conv has_key_iff)
  then show ?thesis using Nil by (auto simp: set_active_def)
next
  case (Cons n ns')
  then have "n \<in> set (filter (\<lambda>n. \<not> has_key (rg_tools g) n) ns)" by simp
  then have "n \<in> set ns \<and> \<not> has_key (rg_tools g) n" by simp
  then have "\<not> set ns \<subseteq> fst ` set (rg_tools g)" by (auto simp: has_key_iff)
  then show ?thesis using Cons by (auto simp: set_active_def)
qed

lemma set_active_inv: "RegistryInv g \<Longrightarrow> set_active ns g = Inr g' \<Longrightarrow> RegistryInv g'"
  by (auto simp: set_active_Inr RegistryInv_def)

text \<open>The mutating operations of a registry; an operation that raises changes nothing.\<close>

datatype 's registry_op =
    Register "'s tool" bool bool
  | Unregister str
  | Activate "str list"
  | Deactivate "str list"
  | SetActive "str list"
  | ClearActive

fun apply_op :: "'s registry_op \<Rightarrow> 's ToolRegistry \<Rightarrow> 's ToolRegistry res" where
  "apply_op (Register t a r) g = register t a r g"
| "apply_op (Unregister n) g = unregister n g"
| "apply_op (Activate ns) g = activate ns g"
| "apply_op (Deactivate ns) g = Inr (deactivate ns g)"
| "apply_op (SetActive ns) g = set_active ns g"
| "apply_op ClearActive g = Inr (clear_active g)"

fun registry_run :: "'s registry_op list \<Rightarrow> 's ToolRegistry \<Rightarrow> 's ToolRegistry" where
  "registry_run [] g = g"
| "registry_run (a # as) g =
     registry_run as (case apply_op a g of Inl _ \<Rightarrow> g | Inr g' \<Rightarrow> g')"

lemma clear_active_inv: "RegistryInv g \<Longrightarrow> RegistryInv (clear_active g)"
  by (simp add: clear_active_def RegistryInv_def)

lemma apply_op_inv: "RegistryInv g \<Longrightarrow> apply_op a g = Inr g' \<Longrightarrow> RegistryInv g'"
  by (cases a) (auto intro: register_inv unregister_inv activate_inv deactivate_inv set_active_inv
      clear_active_inv)

lemma registry_run_inv: "RegistryInv g \<Longrightarrow> RegistryInv (registry_run as g)"
  by (induction as arbitrary: g) (auto split: sum.split dest: apply_op_inv)

lemma RegistryInv_empty [simp]: "RegistryInv ToolRegistry_empty"
  by (simp add: RegistryInv_def ToolRegistry_empty_def)

text \<open>After any sequence of registrations, removals and activations, failed ones included, each
  name is registered once, under the tool's own name, only registered tools are active, and
  the active names are exactly the active set, in registration order without repetition.\<close>

theorem registry_invariant:
  "let g = registry_run ops (ToolRegistry_empty :: 's ToolRegistry) in
     distinct (registered_names g) \<and> set (active_names g) = rg_active g \<and>
     distinct (active_names g) \<and> subseq (active_names g) (registered_names g) \<and>
     (\<forall>n t. dget (rg_tools g) n = Some t \<longrightarrow> tl_name t = JStr n \<and> n \<noteq> [])"
proof -
  define g where "g = registry_run ops (ToolRegistry_empty :: 's ToolRegistry)"
  have inv: "RegistryInv g" unfolding g_def by (rule registry_run_inv) simp
  have d: "distinct (registered_names g)" using inv by (simp add: RegistryInv_def registered_names_def)
  have "set (active_names g) = rg_active g"
    using inv by (auto simp: active_names_def registered_names_def RegistryInv_def)
  moreover have "distinct (active_names g)" using d by (simp add: active_names_def)
  moreover have "subseq (active_names g) (registered_names g)" by (simp add: active_names_def)
  moreover have "\<forall>n t. dget (rg_tools g) n = Some t \<longrightarrow> tl_name t = JStr n \<and> n \<noteq> []"
    using inv by (auto simp: RegistryInv_def dest: map_of_SomeD)
  ultimately show ?thesis using d by (simp add: g_def Let_def)
qed

section \<open>Dispatch\<close>

text \<open>A \<open>ToolResult\<close> object was validated when it was made.\<close>

definition tool_sound :: "'s tool \<Rightarrow> bool" where
  "tool_sound t \<longleftrightarrow>
     (\<forall>run a c s s' x. tl_execute t = Some run \<and> run a c s = (s', Inr (Some x)) \<longrightarrow> ToolResult_ok x)"

definition registry_sound :: "'s ToolRegistry \<Rightarrow> bool" where
  "registry_sound g \<longleftrightarrow> RegistryInv g \<and> (\<forall>(n, t) \<in> set (rg_tools g). tool_sound t)"

lemma bare_result_ok:
  assumes "id_ok CorrelationId cid" "\<forall>p. pid = Some p \<longrightarrow> id_ok ProviderToolCallId p"
  shows "\<exists>x. bare_result cid pid st txt m = Inr x \<and> ToolResult_ok x \<and> tr_correlation_id x = cid \<and>
    tr_provider_tool_call_id x = pid \<and> tr_status x = st \<and> tr_text x = txt \<and> tr_metadata x = m"
  using assms by (simp add: bare_result_def ToolResult_post_init_iff ToolResult_ok_def)

lemma dispatch_result:
  assumes "tool_sound t" "ToolExecutionContext_ok c"
  shows "case dispatch t n a c s of
      (s', Inl e) \<Rightarrow> \<not> is_exception e
    | (s', Inr x) \<Rightarrow> ToolResult_ok x \<and> tr_correlation_id x = cx_correlation_id c \<and>
        tr_provider_tool_call_id x = cx_provider_tool_call_id c"
proof -
  have ids: "id_ok CorrelationId (cx_correlation_id c)"
      "\<forall>p. cx_provider_tool_call_id c = Some p \<longrightarrow> id_ok ProviderToolCallId p"
    using assms(2) by (auto simp: ToolExecutionContext_ok_def)
  note bare = bare_result_ok [OF ids]
  have inv: "\<exists>x. invalid_result (cx_correlation_id c) (cx_provider_tool_call_id c) e m = Inr x \<and>
      ToolResult_ok x \<and> tr_correlation_id x = cx_correlation_id c \<and>
      tr_provider_tool_call_id x = cx_provider_tool_call_id c" for e m
    unfolding invalid_result_def using bare by blast
  have int: "\<exists>x. internal_error (cx_correlation_id c) (cx_provider_tool_call_id c) e m = Inr x \<and>
      ToolResult_ok x \<and> tr_correlation_id x = cx_correlation_id c \<and>
      tr_provider_tool_call_id x = cx_provider_tool_call_id c" for e m
    unfolding internal_error_def Let_def using bare by blast
  show ?thesis
  proof (cases "tl_execute t")
    case None
    then show ?thesis using int [of "TypeError (lit ''tool must provide an execute method'')" "Some n"]
      by (auto simp: dispatch_def)
  next
    case (Some run)
    obtain s' r where run: "run a c s = (s', r)" by (cases "run a c s")
    show ?thesis
    proof (cases r)
      case (Inl e)
      then show ?thesis using Some run inv [of e "Some n"] int [of e "Some n"]
        by (auto simp: dispatch_def)
    next
      case (Inr x')
      show ?thesis
      proof (cases x')
        case None
        then show ?thesis using Some run Inr
            int [of "TypeError (lit ''tool execute must return ToolResult'')" "Some n"]
          by (auto simp: dispatch_def)
      next
        case (Some x)
        then have ok: "ToolResult_ok x"
          using assms(1) \<open>tl_execute t = Some run\<close> run Inr unfolding tool_sound_def by blast
        let ?y = "x\<lparr>tr_correlation_id := cx_correlation_id c,
                     tr_provider_tool_call_id := cx_provider_tool_call_id c\<rparr>"
        have y: "ToolResult_ok ?y" using ok ids by (simp add: ToolResult_ok_def)
        then have "ToolResult_post_init ?y = Inr ?y" by (simp add: ToolResult_post_init_iff)
        then show ?thesis using \<open>tl_execute t = Some run\<close> run Inr Some ok y
          by (simp add: dispatch_def)
      qed
    qed
  qed
qed

lemma refusal_None:
  "refusal g n cid co context = None \<Longrightarrow>
     \<exists>c t. context = Some c \<and> dget (rg_tools g) n = Some t \<and> n \<in> rg_active g \<and> cx_correlation_id c = cid"
  by (auto simp: refusal_def has_key_def split: if_splits option.splits)

lemma refusal_protocol: "refusal g n cid co context = Some (e, m) \<Longrightarrow> is_protocol_error e"
  by (auto simp: refusal_def split: if_splits option.splits)

lemma registry_execute_outcome:
  assumes "registry_sound g" and "ToolExecutionContext_ok c"
  shows "case registry_execute g (Inl name) (Some arguments) (Some c) None None fresh s of
      (s', Inl e) \<Rightarrow> \<not> is_exception e \<and> name \<in> rg_active g
    | (s', Inr x) \<Rightarrow> ToolResult_ok x \<and> tr_correlation_id x = cx_correlation_id c \<and>
        tr_provider_tool_call_id x = cx_provider_tool_call_id c \<and>
        (name \<notin> rg_active g \<longrightarrow> s' = s \<and> tr_status x = ResInvalid)"
proof -
  have ids: "id_ok CorrelationId (cx_correlation_id c)"
      "\<forall>p. cx_provider_tool_call_id c = Some p \<longrightarrow> id_ok ProviderToolCallId p"
    using assms(2) by (auto simp: ToolExecutionContext_ok_def)
  have prov: "por None (cx_provider_tool_call_id c) = cx_provider_tool_call_id c"
      "por (cx_provider_tool_call_id c) (cx_provider_tool_call_id c) = cx_provider_tool_call_id c"
    by (auto simp: por_def split: option.split list.split)
  have fields: "call_fields (Inl name) (Some arguments) (Some c) None None fresh
      = (name, arguments, cx_correlation_id c, cx_provider_tool_call_id c)"
    using prov by (simp add: call_fields_def por_def)
  show ?thesis
  proof (cases "refusal g name (cx_correlation_id c) None (Some c)")
    case None
    then obtain t where t: "dget (rg_tools g) name = Some t" "name \<in> rg_active g"
      using refusal_None by blast
    then have "tool_sound t" using assms(1) unfolding registry_sound_def by (auto dest: map_of_SomeD)
    from dispatch_result [OF this assms(2), of name arguments s] show ?thesis
      using fields None t prov by (auto simp: registry_execute_def split: prod.splits sum.splits)
  next
    case (Some p)
    then obtain e m where p: "p = (e, m)" by (cases p)
    obtain x where x: "invalid_result (cx_correlation_id c) (cx_provider_tool_call_id c) e m = Inr x"
        "ToolResult_ok x" "tr_correlation_id x = cx_correlation_id c"
        "tr_provider_tool_call_id x = cx_provider_tool_call_id c" "tr_status x = ResInvalid"
      unfolding invalid_result_def using bare_result_ok [OF ids] by blast
    then show ?thesis using fields Some p by (simp add: registry_execute_def)
  qed
qed

text \<open>Dispatching a call by name with a context gives exactly one result tied to that context, for
  any registered tools: a name that is empty, unknown or inactive is answered with an
  \<open>INVALID\<close> result and no tool runs (the state is unchanged), and whatever an active tool
  returns or raises, short of an interpreter interrupt, comes back as a well-formed result
  that carries the context's correlation and provider ids.\<close>

theorem registry_dispatch:
  assumes "registry_sound g" and "ToolExecutionContext_ok c"
  shows "case registry_execute g (Inl name) (Some arguments) (Some c) None None fresh s of
      (s', Inl e) \<Rightarrow> \<not> is_exception e \<and> name \<in> rg_active g
    | (s', Inr x) \<Rightarrow> ToolResult_ok x \<and> tr_correlation_id x = cx_correlation_id c \<and>
        tr_provider_tool_call_id x = cx_provider_tool_call_id c \<and>
        (name \<notin> rg_active g \<longrightarrow> s' = s \<and> tr_status x = ResInvalid)"
  by (rule registry_execute_outcome [OF assms])


section \<open>The six built-ins\<close>

lemma builtin_tool_sound: "tool_sound (builtin_tool pl env t)"
  unfolding tool_sound_def
proof (intro allI impI)
  fix run a c s s' x
  assume run: "tl_execute (builtin_tool pl env t) = Some run \<and> run a c s = (s', Inr (Some x))"
  then have ex: "builtin_execute pl env t a c s = (s', Inr x)"
    by (auto simp: builtin_tool_def split: prod.splits sum.splits)
  then show "ToolResult_ok x" by (rule builtin_execute_ok)
qed

lemma tool_parameters_finite [simp]: "finite_json (JObj (tool_parameters t))"
  by (cases t) (simp_all add: tool_parameters_def string_schema_def integer_schema_def
      boolean_schema_def number_schema_def)

lemma register_builtin:
  assumes "\<not> has_key (rg_tools g) (tool_name t)"
  shows "register (builtin_tool pl env t) False False g
     = Inr (g\<lparr>rg_tools := rg_tools g @ [(tool_name t, builtin_tool pl env t)]\<rparr>)"
proof -
  have n: "tool_name t \<noteq> []" "tool_description t \<noteq> []"
    by (cases t; simp add: tool_description_def)+
  have p: "ensure_json_schema (declared_parameters (builtin_tool pl env t)) = Inr (tool_parameters t)"
    using tool_parameters_finite [of t]
    by (simp add: declared_parameters_def builtin_tool_def ensure_json_schema_def del: finite_json.simps)
  have ty: "dget (tool_parameters t) (lit ''type'') = Some (JStr (lit ''object''))"
    by (simp add: tool_parameters_def)
  have "dset (rg_tools g) (tool_name t) (builtin_tool pl env t)
      = rg_tools g @ [(tool_name t, builtin_tool pl env t)]"
    using assms by (simp add: dset_new has_key_iff)
  then show ?thesis using n p ty assms
    by (simp add: register_def Let_def) (simp add: builtin_tool_def nonempty_str_def)
qed

definition builtin_registry :: "platform \<Rightarrow> 's environment \<Rightarrow> BuiltinTool list \<Rightarrow> BuiltinTool set \<Rightarrow> 's ToolRegistry" where
  "builtin_registry pl env ts act =
     \<lparr>rg_tools = map (\<lambda>t. (tool_name t, builtin_tool pl env t)) ts, rg_active = tool_name ` act\<rparr>"

lemma register_all_builtins:
  "distinct (us @ ts) \<Longrightarrow>
     register_all (map (builtin_tool pl env) ts) (builtin_registry pl env us {}) = Inr (builtin_registry pl env (us @ ts) {})"
proof (induction ts arbitrary: us)
  case Nil
  then show ?case by simp
next
  case (Cons t ts)
  have "\<not> has_key (rg_tools (builtin_registry pl env us {})) (tool_name t)"
    using Cons.prems by (auto simp: has_key_iff builtin_registry_def image_iff)
  from register_builtin [OF this] show ?case
    using Cons.IH [of "us @ [t]"] Cons.prems by (simp add: builtin_registry_def)
qed

definition all_builtins :: "BuiltinTool list" where
  "all_builtins = [ReadFileTool, ListFilesTool, SearchTool, WriteFileTool, EditFileTool, BashTool]"

lemma default_registry:
  "default_tool_registry pl env None = Inr (builtin_registry pl env all_builtins (set all_builtins))"
proof -
  have "register_all (builtin_tools pl env) ToolRegistry_empty = Inr (builtin_registry pl env all_builtins {})"
    using register_all_builtins [of "[]" all_builtins pl env]
    by (simp add: builtin_tools_def all_builtins_def builtin_registry_def ToolRegistry_empty_def)
  then show ?thesis
    by (simp add: default_tool_registry_def set_active_Inr builtin_registry_def registered_names_def image_comp comp_def)
qed

lemma builtin_registry_sound:
  assumes "act \<subseteq> set ts" "distinct ts"
  shows "registry_sound (builtin_registry pl env ts act)"
proof -
  have n: "tool_name t \<noteq> []" for t by (cases t) simp_all
  have f: "tl_name (builtin_tool pl env t) = JStr (tool_name t)" "tl_execute (builtin_tool pl env t) \<noteq> None" for t
    by (simp_all add: builtin_tool_def)
  have "inj_on tool_name (set ts)" by (rule inj_onI) simp
  then have "distinct (map tool_name ts)" using assms(2) by (simp add: distinct_map)
  moreover have "tool_name ` act \<subseteq> tool_name ` set ts" using assms(1) by blast
  ultimately show ?thesis
    using n f
    by (simp add: builtin_tool_sound registry_sound_def RegistryInv_def builtin_registry_def comp_def image_image)
qed

theorem registry_invariant_witness:
  "active_names (registry_run [Register (builtin_tool sample_platform counting_env BashTool) True False,
       Activate [lit ''missing''], Unregister (lit ''nothing'')] ToolRegistry_empty) = [lit ''bash'']"
proof -
  let ?ops = "[Register (builtin_tool sample_platform counting_env BashTool) True False,
       Activate [lit ''missing''], Unregister (lit ''nothing'')]"
  have p: "ensure_json_schema (declared_parameters (builtin_tool pl env BashTool)) = Inr (tool_parameters BashTool)"
    for pl and env :: "nat environment"
    using tool_parameters_finite [of BashTool]
    by (simp add: declared_parameters_def builtin_tool_def ensure_json_schema_def del: finite_json.simps)
  have ty: "dget (tool_parameters BashTool) (lit ''type'') = Some (JStr (lit ''object''))"
    by (simp add: tool_parameters_def)
  have reg: "register (builtin_tool sample_platform counting_env BashTool) True False ToolRegistry_empty
      = Inr \<lparr>rg_tools = [(lit ''bash'', builtin_tool sample_platform counting_env BashTool)],
             rg_active = {lit ''bash''}\<rparr>"
    using p ty by (simp add: register_def Let_def ToolRegistry_empty_def has_key_def)
      (simp add: builtin_tool_def nonempty_str_def tool_description_def)
  have run: "registry_run ?ops ToolRegistry_empty
      = \<lparr>rg_tools = [(lit ''bash'', builtin_tool sample_platform counting_env BashTool)],
         rg_active = {lit ''bash''}\<rparr>"
    using reg by (simp add: activate_def has_key_def unregister_def)
  note inv = registry_invariant [of ?ops, unfolded run Let_def]
  have "set (active_names \<lparr>rg_tools = [(lit ''bash'', builtin_tool sample_platform counting_env BashTool)],
         rg_active = {lit ''bash''}\<rparr>) = {lit ''bash''}" using inv by simp
  then show ?thesis unfolding run using inv by (simp add: active_names_def registered_names_def)
qed

theorem registry_dispatch_witness:
  "\<exists>s' x. registry_execute (builtin_registry sample_platform counting_env all_builtins {ReadFileTool})
      (Inl (lit ''bash'')) (Some (JObj [])) (Some sample_context) None None [120] 0 = (s', Inr x) \<and>
    s' = 0 \<and> tr_status x = ResInvalid"
proof -
  let ?g = "builtin_registry sample_platform counting_env all_builtins {ReadFileTool}"
  have "registry_sound ?g" by (rule builtin_registry_sound) (auto simp: all_builtins_def)
  from registry_dispatch [OF this sample_context_ok, where arguments = "JObj []" and name = "lit ''bash''"
      and fresh = "[120]" and s = 0]
  show ?thesis by (auto simp: builtin_registry_def split: prod.splits sum.splits)
qed

end
