(* ===== verification/Paths.thy ===== *)
theory Paths
  imports Schema
begin

text \<open>
  The two syntactic path checks: \<open>policy._safe_relative_path\<close>, which the policy applies
  before a tool may run, and \<open>environment.local._logical_relative_path\<close>, which the
  environment applies again.  Both reject absolute and drive-qualified paths, NUL and parent
  references, under either separator.
\<close>

section \<open>Splitting\<close>

definition is_slash :: "nat \<Rightarrow> bool" where
  "is_slash c \<longleftrightarrow> c = 47 \<or> c = 92"

text \<open>\<open>str.split(sep)\<close> and \<open>re.split\<close> on a one-character class: never the empty list.\<close>

fun split_on :: "(nat \<Rightarrow> bool) \<Rightarrow> str \<Rightarrow> str list" where
  "split_on P [] = [[]]"
| "split_on P (c # s) =
     (if P c then [] # split_on P s
      else case split_on P s of [] \<Rightarrow> [[c]] | p # ps \<Rightarrow> (c # p) # ps)"

lemma split_on_nonempty [simp]: "split_on P s \<noteq> []"
  by (cases s) (auto split: list.split)

lemma split_on_pieces: "p \<in> set (split_on P s) \<Longrightarrow> c \<in> set p \<Longrightarrow> \<not> P c \<and> c \<in> set s"
  by (induction s arbitrary: p) (auto split: if_splits list.splits; blast)+

text \<open>\<open>value.replace("\\", "/")\<close>.\<close>

definition normalise :: "str \<Rightarrow> str" where
  "normalise v = map (\<lambda>c. if c = 92 then 47 else c) v"

lemma split_normalise: "split_on (\<lambda>c. c = 47) (normalise v) = split_on is_slash v"
  by (induction v) (auto simp: normalise_def is_slash_def split: list.split)

section \<open>Windows drives\<close>

text \<open>Whether \<open>ntpath.splitdrive\<close> finds a drive: two leading separators (a UNC share) or a
  colon as second character.\<close>

fun nt_drive :: "str \<Rightarrow> bool" where
  "nt_drive (a # b # r) = (if is_slash a then is_slash b else b = 58)"
| "nt_drive _ = False"

fun nt_isabs :: "str \<Rightarrow> bool" where
  "nt_isabs (a # r) =
     (is_slash a \<or> (case r of b # c # _ \<Rightarrow> b = 58 \<and> is_slash c | _ \<Rightarrow> False))"
| "nt_isabs [] = False"

definition is_letter :: "nat \<Rightarrow> bool" where
  "is_letter c \<longleftrightarrow> (65 \<le> c \<and> c \<le> 90) \<or> (97 \<le> c \<and> c \<le> 122)"

text \<open>\<open>_DRIVE_PREFIX.match\<close>.\<close>

fun drive_prefix :: "str \<Rightarrow> bool" where
  "drive_prefix (a # b # r) = (is_letter a \<and> b = 58)"
| "drive_prefix _ = False"

lemma drive_prefix_nt_drive: "drive_prefix v \<Longrightarrow> nt_drive v"
  by (cases v rule: drive_prefix.cases) (auto simp: is_letter_def is_slash_def)

lemma nt_isabs_drive: "nt_isabs v \<Longrightarrow> nt_drive v \<or> is_slash (hd v)"
  by (cases v rule: nt_drive.cases) (auto simp: is_slash_def split: list.splits)

definition starts_slash :: "str \<Rightarrow> bool" where
  "starts_slash v = (case v of [] \<Rightarrow> False | c # _ \<Rightarrow> is_slash c)"

section \<open>The policy's check\<close>

definition dotdot :: str where
  "dotdot = [46, 46]"

definition safe_relative_path :: "json \<Rightarrow> bool \<Rightarrow> bool" where
  "safe_relative_path v allow_empty =
     (case v of
        JStr value \<Rightarrow>
          if value = [] \<and> \<not> allow_empty then False
          else if has_nul value then False
          else if drive_prefix value \<or> nt_drive value then False
          else if (value \<noteq> [] \<and> hd value = 47) \<or> nt_isabs value then False
          else if starts_slash value then False
          else if list_ex (\<lambda>part. part = dotdot) (split_on is_slash value) then False
          else True
      | _ \<Rightarrow> False)"

section \<open>The environment's check\<close>

text \<open>\<open>_PathBoundaryError\<close> with its message.\<close>

definition path_boundary_error :: "string \<Rightarrow> exn" where
  "path_boundary_error m = OtherError (lit ''_PathBoundaryError'') (lit m)"

definition path_parts :: "str \<Rightarrow> str list" where
  "path_parts value = filter (\<lambda>p. p \<noteq> [] \<and> p \<noteq> [46]) (split_on (\<lambda>c. c = 47) (normalise value))"

definition strip_slashes :: "str \<Rightarrow> str" where
  "strip_slashes s = rev (dropWhile (\<lambda>c. c = 47) (rev (dropWhile (\<lambda>c. c = 47) s)))"

text \<open>The logical path is the list of its components (\<open>Path(*parts)\<close>).\<close>

definition logical_relative_path :: "json \<Rightarrow> bool \<Rightarrow> str list res" where
  "logical_relative_path v allow_empty =
     (case v of
        JStr value \<Rightarrow>
          if has_nul value then Inl (path_boundary_error ''path contains NUL'')
          else if value = []
          then (if allow_empty then Inr [] else Inl (path_boundary_error ''path must not be empty''))
          else if hd (normalise value) = 47 \<or> nt_drive value
          then Inl (path_boundary_error ''path must be relative to workspace'')
          else
            let parts = path_parts value in
            if dotdot \<in> set parts then Inl (path_boundary_error ''path traversal is not allowed'')
            else if parts = [] \<and> strip_slashes (normalise value) \<noteq> [46] \<and> \<not> allow_empty
            then Inl (path_boundary_error ''path must not be empty'')
            else Inr parts
      | _ \<Rightarrow> Inl (path_boundary_error ''path must be a string''))"

definition is_safe_result_path :: "str \<Rightarrow> bool" where
  "is_safe_result_path path = is_ok (logical_relative_path (JStr path) True)"

text \<open>\<open>_normalise_search_path\<close>.\<close>

function drop_dot_slash :: "str \<Rightarrow> str" where
  "drop_dot_slash s = (if take 2 s = [46, 47] then drop_dot_slash (drop 2 s) else s)"
  by pat_completeness auto
termination by (relation "measure length") (auto simp: diff_less dest: arg_cong [where f = length])

declare drop_dot_slash.simps [simp del]

definition normalise_search_path :: "str \<Rightarrow> str" where
  "normalise_search_path path =
     (let v = strip_slashes (drop_dot_slash (normalise path)) in if v = [] then [46] else v)"

section \<open>Agreement\<close>

lemma hd_normalise: "v \<noteq> [] \<Longrightarrow> hd (normalise v) = 47 \<longleftrightarrow> starts_slash v"
  by (cases v) (auto simp: normalise_def starts_slash_def is_slash_def)

lemma dotdot_parts: "dotdot \<in> set (path_parts v) \<longleftrightarrow> list_ex (\<lambda>p. p = dotdot) (split_on is_slash v)"
  by (auto simp: path_parts_def split_normalise list_ex_iff dotdot_def)

lemma safe_relative_path_str:
  "safe_relative_path (JStr v) e \<longleftrightarrow>
     (v \<noteq> [] \<or> e) \<and> \<not> has_nul v \<and> \<not> nt_drive v \<and> \<not> starts_slash v \<and> dotdot \<notin> set (path_parts v)"
proof -
  have a: "nt_isabs v \<Longrightarrow> nt_drive v \<or> starts_slash v"
    using nt_isabs_drive [of v] by (cases v) (auto simp: starts_slash_def)
  have b: "v \<noteq> [] \<and> hd v = 47 \<Longrightarrow> starts_slash v"
    by (cases v) (auto simp: starts_slash_def is_slash_def)
  show ?thesis
    using a b drive_prefix_nt_drive [of v] dotdot_parts [of v]
    by (auto simp: safe_relative_path_def)
qed

lemma logical_relative_path_str:
  "logical_relative_path (JStr v) e = Inr ps \<longleftrightarrow>
     (v \<noteq> [] \<or> e) \<and> \<not> has_nul v \<and> \<not> nt_drive v \<and> \<not> starts_slash v \<and> dotdot \<notin> set (path_parts v) \<and>
     (path_parts v \<noteq> [] \<or> strip_slashes (normalise v) = [46] \<or> e) \<and> ps = path_parts v"
proof (cases "v = []")
  case True
  have "path_parts [] = []" by (simp add: path_parts_def normalise_def)
  then show ?thesis using True
    by (auto simp: logical_relative_path_def has_nul_def starts_slash_def)
next
  case False
  then show ?thesis
    using hd_normalise [OF False] by (auto simp: logical_relative_path_def Let_def)
qed

lemma path_parts_clean:
  assumes "p \<in> set (path_parts v)"
  shows "p \<noteq> [] \<and> p \<noteq> [46] \<and> 47 \<notin> set p \<and> 92 \<notin> set p"
proof -
  have "p \<in> set (split_on is_slash v)" "p \<noteq> []" "p \<noteq> [46]"
    using assms by (auto simp: path_parts_def split_normalise)
  then show ?thesis using split_on_pieces [of p is_slash v] by (auto simp: is_slash_def)
qed

lemma logical_relative_path_ok:
  "is_ok (logical_relative_path (JStr v) e) \<longleftrightarrow>
     (v \<noteq> [] \<or> e) \<and> \<not> has_nul v \<and> \<not> nt_drive v \<and> \<not> starts_slash v \<and> dotdot \<notin> set (path_parts v) \<and>
     (path_parts v \<noteq> [] \<or> strip_slashes (normalise v) = [46] \<or> e)"
  unfolding is_ok_iff logical_relative_path_str by blast

lemma logical_relative_path_clean:
  assumes "logical_relative_path v e = Inr ps" "p \<in> set ps"
  shows "p \<noteq> [] \<and> p \<noteq> [46] \<and> p \<noteq> dotdot \<and> 47 \<notin> set p \<and> 92 \<notin> set p"
proof (cases v)
  case (JStr s)
  then have "ps = path_parts s \<and> dotdot \<notin> set ps"
    using assms(1) logical_relative_path_str [of s e ps] by metis
  then show ?thesis using path_parts_clean assms(2) by blast
qed (use assms in \<open>simp_all add: logical_relative_path_def\<close>)

text \<open>The policy and the environment agree on what a safe logical path is.  For every value, a
  string or not: the policy's check with the empty path allowed holds exactly when the
  environment resolves it; without it the environment accepts exactly the policy's safe paths
  that name something (or the workspace root as a literal dot).  Every component the
  environment then walks is non-empty, is neither \<open>.\<close> nor \<open>..\<close>, and contains no
  separator, so the path cannot climb.\<close>

theorem path_checks_agree:
  "(safe_relative_path v True \<longleftrightarrow> is_ok (logical_relative_path v True)) \<and>
   (is_ok (logical_relative_path v False) \<longleftrightarrow>
      safe_relative_path v False \<and>
      (path_parts (json_str v) \<noteq> [] \<or> strip_slashes (normalise (json_str v)) = [46])) \<and>
   (\<forall>e ps. logical_relative_path v e = Inr ps \<longrightarrow>
      (\<forall>p \<in> set ps. p \<noteq> [] \<and> p \<noteq> [46] \<and> p \<noteq> dotdot \<and> 47 \<notin> set p \<and> 92 \<notin> set p))"
proof -
  have "\<forall>e ps. logical_relative_path v e = Inr ps \<longrightarrow>
      (\<forall>p \<in> set ps. p \<noteq> [] \<and> p \<noteq> [46] \<and> p \<noteq> dotdot \<and> 47 \<notin> set p \<and> 92 \<notin> set p)"
    using logical_relative_path_clean by blast
  moreover have "safe_relative_path v True \<longleftrightarrow> is_ok (logical_relative_path v True)"
    by (cases v) (simp_all add: safe_relative_path_str logical_relative_path_ok,
        simp_all add: safe_relative_path_def logical_relative_path_def)
  moreover have "is_ok (logical_relative_path v False) \<longleftrightarrow> safe_relative_path v False \<and>
      (path_parts (json_str v) \<noteq> [] \<or> strip_slashes (normalise (json_str v)) = [46])"
    by (cases v) (simp_all add: safe_relative_path_str logical_relative_path_ok,
        simp_all add: safe_relative_path_def logical_relative_path_def)
  ultimately show ?thesis by blast
qed

end
