(* ===== verification/Policy.thy ===== *)
theory Policy
  imports Paths
begin

text \<open>
  The default execution policy (\<open>policy.py\<close>): the approval modes, the decision on one
  validated call, and the coercion of a custom policy's answer that the executor applies
  (\<open>executor._coerce_policy_decision\<close>).
\<close>

section \<open>Decisions and modes\<close>

datatype PolicyDecision = ALLOW | ASK | DENY

fun decision_str :: "PolicyDecision \<Rightarrow> str" where
  "decision_str ALLOW = lit ''allow''"
| "decision_str ASK = lit ''ask''"
| "decision_str DENY = lit ''deny''"

lemma decision_str_inject [simp]: "decision_str s = decision_str t \<longleftrightarrow> s = t"
  by (cases s; cases t) simp_all

datatype ApprovalMode = ModeAsk | ModeAuto | ModeYolo | ModeDeny

fun mode_str :: "ApprovalMode \<Rightarrow> str" where
  "mode_str ModeAsk = lit ''ask''"
| "mode_str ModeAuto = lit ''auto''"
| "mode_str ModeYolo = lit ''yolo''"
| "mode_str ModeDeny = lit ''deny''"

text \<open>\<open>str.lower()\<close> as far as a comparison with an ASCII literal can see: the ASCII letters and
  the Kelvin sign, whose lower case is the letter k.  Every other character lowers to a text
  that is not ASCII.\<close>

definition lower :: "str \<Rightarrow> str" where
  "lower s = map (\<lambda>c. if 65 \<le> c \<and> c \<le> 90 then c + 32 else if c = 8490 then 107 else c) s"

definition find_mode :: "ApprovalMode list \<Rightarrow> str \<Rightarrow> ApprovalMode option" where
  "find_mode ms s = (case filter (\<lambda>m. mode_str m = s) ms of m # _ \<Rightarrow> Some m | [] \<Rightarrow> None)"

record DefaultExecutionPolicy =
  dp_mode :: ApprovalMode
  dp_interactive :: "bool option"
  dp_workspace :: "str option"

text \<open>The constructor: \<open>mode\<close> overrides \<open>approval_mode\<close>, \<open>auto\<close> and \<open>yolo\<close> override both.\<close>

definition DefaultExecutionPolicy_init ::
  "json \<Rightarrow> json \<Rightarrow> json \<Rightarrow> bool \<Rightarrow> bool \<Rightarrow> json \<Rightarrow> DefaultExecutionPolicy res" where
  "DefaultExecutionPolicy_init approval_mode mode interactive auto yolo workspace =
     (let m0 = (if mode \<noteq> JNull then mode else approval_mode);
          m = (if auto \<or> yolo then JStr (lit ''auto'') else m0) in
      bindR (guardR (is_jstr m) (TypeError (lit ''approval_mode must be ask, auto, yolo, or deny''))) (\<lambda>_.
      let n0 = lower (json_str m);
          n = (if n0 = lit ''interactive'' then lit ''ask'' else n0) in
      case find_mode [ModeAsk, ModeAuto, ModeYolo, ModeDeny] n of
        None \<Rightarrow> Inl (ValueError (lit ''approval_mode must be ask, auto, yolo, or deny''))
      | Some selected \<Rightarrow>
          bindR (guardR (interactive = JNull \<or> is_jbool interactive)
                   (TypeError (lit ''interactive must be a boolean or None''))) (\<lambda>_.
          bindR (guardR (workspace = JNull \<or> is_jstr workspace)
                   (TypeError (lit ''workspace must be a string or None''))) (\<lambda>_.
          Inr \<lparr>dp_mode = selected,
               dp_interactive = (if interactive = JNull then None else Some (json_bool interactive)),
               dp_workspace = (if workspace = JNull then None else Some (json_str workspace))\<rparr>))))"

definition set_approval_mode :: "json \<Rightarrow> DefaultExecutionPolicy \<Rightarrow> DefaultExecutionPolicy res" where
  "set_approval_mode v p =
     bindR (guardR (is_jstr v) (TypeError (lit ''approval_mode must be ask, auto, or deny''))) (\<lambda>_.
     case find_mode [ModeAsk, ModeAuto, ModeDeny] (lower (json_str v)) of
       None \<Rightarrow> Inl (ValueError (lit ''approval_mode must be ask, auto, or deny''))
     | Some selected \<Rightarrow> Inr (p\<lparr>dp_mode := selected\<rparr>))"

section \<open>The decision\<close>

fun contains_nul :: "json \<Rightarrow> bool" where
  "contains_nul (JStr s) = has_nul s"
| "contains_nul (JObj d) = list_ex (\<lambda>p. has_nul (fst p) \<or> contains_nul (snd p)) d"
| "contains_nul (JArr xs) = list_ex contains_nul xs"
| "contains_nul _ = False"

definition coerce_arguments :: "platform \<Rightarrow> json \<Rightarrow> jobj option" where
  "coerce_arguments pl arguments =
     (case arguments of
        JObj d \<Rightarrow> Some d
      | JStr s \<Rightarrow> (case parse_json_arguments pl (JStr s) of Inr d \<Rightarrow> Some d | Inl _ \<Rightarrow> None)
      | _ \<Rightarrow> None)"

definition decide_side_effect :: "DefaultExecutionPolicy \<Rightarrow> PolicyDecision" where
  "decide_side_effect p =
     (if dp_mode p = ModeAuto \<or> dp_mode p = ModeYolo then ALLOW
      else if dp_mode p = ModeDeny then DENY
      else if dp_interactive p = Some False then DENY
      else ASK)"

definition read_tools :: "str list" where
  "read_tools = [lit ''read_file'', lit ''list_files'', lit ''search'']"

definition write_tools :: "str list" where
  "write_tools = [lit ''write_file'', lit ''edit_file'']"

definition nonempty_arg :: "jobj \<Rightarrow> string \<Rightarrow> bool" where
  "nonempty_arg d key = (case dget d (lit key) of Some (JStr s) \<Rightarrow> s \<noteq> [] | _ \<Rightarrow> False)"

definition string_arg :: "jobj \<Rightarrow> string \<Rightarrow> bool" where
  "string_arg d key = (case dget d (lit key) of Some (JStr s) \<Rightarrow> True | _ \<Rightarrow> False)"

definition decide :: "platform \<Rightarrow> DefaultExecutionPolicy \<Rightarrow> str \<Rightarrow> json \<Rightarrow> PolicyDecision" where
  "decide pl p name arguments =
     (if name = [] then DENY
      else
        case coerce_arguments pl (if arguments = JNull then JStr [] else arguments) of
          None \<Rightarrow> DENY
        | Some parsed \<Rightarrow>
            if contains_nul (JObj parsed) then DENY
            else if name \<in> set read_tools \<or> name \<in> set write_tools then
              (let path = (case dget parsed (lit ''path'') of None \<Rightarrow> JStr [] | Some v \<Rightarrow> v) in
               if \<not> safe_relative_path path (name = lit ''list_files'' \<or> name = lit ''search'') then DENY
               else if name = lit ''search'' \<and> \<not> nonempty_arg parsed ''query'' then DENY
               else if name = lit ''write_file'' \<and> \<not> string_arg parsed ''content'' then DENY
               else if name = lit ''edit_file'' \<and>
                       (\<not> nonempty_arg parsed ''old_text'' \<or> \<not> string_arg parsed ''new_text'') then DENY
               else if name \<in> set write_tools then decide_side_effect p
               else ALLOW)
            else if name = lit ''bash'' then
              (if \<not> (case dget parsed (lit ''command'') of Some (JStr s) \<Rightarrow> strip s \<noteq> [] | _ \<Rightarrow> False) then DENY
               else if (case dget parsed (lit ''working_directory'') of
                          None \<Rightarrow> False | Some JNull \<Rightarrow> False
                        | Some w \<Rightarrow> \<not> safe_relative_path w True) then DENY
               else decide_side_effect p)
            else DENY)"

section \<open>Custom policies\<close>

text \<open>What a policy may answer: a decision, a record of one, a string, or an object with some
  of the attributes \<open>decision\<close>, \<open>action\<close> and \<open>value\<close> (in that order).\<close>

datatype policy_value =
    PVDecision PolicyDecision
  | PVRecord PolicyDecision
  | PVStr str
  | PVObject "policy_value option list"

fun parse_decision :: "str \<Rightarrow> PolicyDecision option" where
  "parse_decision s =
     (let n = lower s in
      if n = lit ''allow'' then Some ALLOW else if n = lit ''ask'' then Some ASK
      else if n = lit ''deny'' then Some DENY else None)"

fun coerce_policy_decision :: "policy_value \<Rightarrow> PolicyDecision option"
  and coerce_candidates :: "policy_value option list \<Rightarrow> PolicyDecision option" where
  "coerce_policy_decision (PVDecision d) = Some d"
| "coerce_policy_decision (PVRecord d) = Some d"
| "coerce_policy_decision (PVStr s) = parse_decision s"
| "coerce_policy_decision (PVObject cs) = coerce_candidates cs"
| "coerce_candidates [] = None"
| "coerce_candidates (c # cs) =
     (case c of
        None \<Rightarrow> coerce_candidates cs
      | Some v \<Rightarrow>
          (case coerce_policy_decision v of Some d \<Rightarrow> Some d | None \<Rightarrow> coerce_candidates cs))"

section \<open>What a decision guarantees\<close>

lemma find_mode_mem: "find_mode ms s = Some m \<Longrightarrow> m \<in> set ms \<and> mode_str m = s"
  by (auto simp: find_mode_def split: list.splits dest!: filter_eq_ConsD)

lemma tool_groups:
  "set read_tools \<inter> set write_tools = {}" "lit ''bash'' \<notin> set read_tools" "lit ''bash'' \<notin> set write_tools"
  by (simp_all add: read_tools_def write_tools_def)

lemma decide_cases:
  assumes "decide pl p name arguments \<noteq> DENY"
  obtains parsed where
    "coerce_arguments pl (if arguments = JNull then JStr [] else arguments) = Some parsed"
    "\<not> contains_nul (JObj parsed)"
    "name \<in> set read_tools \<or> name \<in> set write_tools \<Longrightarrow>
       safe_relative_path (case dget parsed (lit ''path'') of None \<Rightarrow> JStr [] | Some v \<Rightarrow> v)
         (name = lit ''list_files'' \<or> name = lit ''search'')"
    "name \<in> set read_tools \<and> decide pl p name arguments = ALLOW
     \<or> (name \<in> set write_tools \<or> name = lit ''bash'') \<and> decide pl p name arguments = decide_side_effect p"
    "name = lit ''bash'' \<Longrightarrow> \<exists>s. dget parsed (lit ''command'') = Some (JStr s) \<and> strip s \<noteq> []"
    "name = lit ''bash'' \<Longrightarrow> dget parsed (lit ''working_directory'') = Some w \<Longrightarrow> w \<noteq> JNull \<Longrightarrow>
       safe_relative_path w True"
proof -
  have n: "name \<noteq> []" using assms by (auto simp: decide_def)
  obtain parsed where p: "coerce_arguments pl (if arguments = JNull then JStr [] else arguments) = Some parsed"
    using assms by (auto simp: decide_def split: option.splits)
  have nul: "\<not> contains_nul (JObj parsed)" using assms n p by (auto simp: decide_def)
  note d = decide_def [of pl p name arguments, unfolded p option.case if_not_P [OF n] if_not_P [OF nul]]
  consider (reads) "name \<in> set read_tools" "name \<notin> set write_tools" "name \<noteq> lit ''bash''"
    | (writes) "name \<in> set write_tools" "name \<notin> set read_tools" "name \<noteq> lit ''bash''"
    | (bash) "name = lit ''bash''" "name \<notin> set read_tools" "name \<notin> set write_tools"
    | (other) "name \<notin> set read_tools" "name \<notin> set write_tools" "name \<noteq> lit ''bash''"
    using tool_groups by blast
  then show ?thesis
  proof cases
    case reads
    then show ?thesis using that [OF p nul] assms d
      by (auto simp: Let_def split: if_splits)
  next
    case writes
    then show ?thesis using that [OF p nul] assms d
      by (auto simp: Let_def split: if_splits)
  next
    case bash
    then show ?thesis using that [OF p nul] assms d
      by (auto split: if_splits option.splits json.splits)
  next
    case other
    then show ?thesis using assms d by simp
  qed
qed

lemma decide_side_effect_cases:
  "decide_side_effect p = ALLOW \<longleftrightarrow> dp_mode p = ModeAuto \<or> dp_mode p = ModeYolo"
  "decide_side_effect p = ASK \<longleftrightarrow> dp_mode p = ModeAsk \<and> dp_interactive p \<noteq> Some False"
  by (cases "dp_mode p"; simp add: decide_side_effect_def)+

text \<open>C9: The policy fails closed.  Whatever the mode, the tool name and the arguments (parsed or as
  text), an answer other than DENY means that: the tool is one of the six; its arguments are
  an object without any NUL; a file tool's path is one the environment's own boundary check
  resolves; a side-effecting tool is allowed outright only in a mode that says so, a denying
  mode lets only read tools through, and approval is only ever asked in the ask mode of a
  policy that is not marked non-interactive.\<close>

theorem policy_fails_closed:
  assumes "decide pl p name arguments \<noteq> DENY"
  shows "(name \<in> set read_tools \<or> name \<in> set write_tools \<or> name = lit ''bash'') \<and>
    (\<exists>parsed. coerce_arguments pl (if arguments = JNull then JStr [] else arguments) = Some parsed \<and>
       \<not> contains_nul (JObj parsed) \<and>
       (name \<in> set read_tools \<or> name \<in> set write_tools \<longrightarrow>
          is_ok (logical_relative_path
            (case dget parsed (lit ''path'') of None \<Rightarrow> JStr [] | Some v \<Rightarrow> v) True)) \<and>
       (name = lit ''bash'' \<longrightarrow> (\<exists>s. dget parsed (lit ''command'') = Some (JStr s) \<and> strip s \<noteq> []))) \<and>
    (decide pl p name arguments = ALLOW \<longrightarrow>
       name \<in> set read_tools \<or> dp_mode p = ModeAuto \<or> dp_mode p = ModeYolo) \<and>
    (dp_mode p = ModeDeny \<longrightarrow> name \<in> set read_tools) \<and>
    (decide pl p name arguments = ASK \<longrightarrow> dp_mode p = ModeAsk \<and> dp_interactive p \<noteq> Some False)"
proof (rule decide_cases [OF assms])
  fix parsed
  assume a: "coerce_arguments pl (if arguments = JNull then JStr [] else arguments) = Some parsed"
    "\<not> contains_nul (JObj parsed)"
    and path: "name \<in> set read_tools \<or> name \<in> set write_tools \<Longrightarrow>
       safe_relative_path (case dget parsed (lit ''path'') of None \<Rightarrow> JStr [] | Some v \<Rightarrow> v)
         (name = lit ''list_files'' \<or> name = lit ''search'')"
    and dec: "name \<in> set read_tools \<and> decide pl p name arguments = ALLOW
     \<or> (name \<in> set write_tools \<or> name = lit ''bash'') \<and> decide pl p name arguments = decide_side_effect p"
    and cmd: "name = lit ''bash'' \<Longrightarrow> \<exists>s. dget parsed (lit ''command'') = Some (JStr s) \<and> strip s \<noteq> []"
  have weaken: "safe_relative_path v e \<Longrightarrow> is_ok (logical_relative_path v True)" for v e
    by (cases v; cases e) (simp_all add: safe_relative_path_str logical_relative_path_ok,
        simp_all add: safe_relative_path_def)
  have deny: "dp_mode p = ModeDeny \<Longrightarrow> decide_side_effect p = DENY"
    by (simp add: decide_side_effect_def)
  have "dp_mode p = ModeDeny \<longrightarrow> name \<in> set read_tools" using dec deny assms by auto
  moreover have "decide pl p name arguments = ALLOW \<longrightarrow>
       name \<in> set read_tools \<or> dp_mode p = ModeAuto \<or> dp_mode p = ModeYolo"
    "decide pl p name arguments = ASK \<longrightarrow> dp_mode p = ModeAsk \<and> dp_interactive p \<noteq> Some False"
    using dec decide_side_effect_cases [of p] by auto
  ultimately show ?thesis using a weaken [OF path] cmd dec by blast
qed

theorem policy_fails_closed_witness:
  "decide sample_platform \<lparr>dp_mode = ModeAsk, dp_interactive = None, dp_workspace = None\<rparr> (lit ''write_file'')
     (JObj [(lit ''path'', JStr (lit ''a'')), (lit ''content'', JStr [])]) = ASK \<and>
   (lit ''write_file'' \<in> set read_tools \<or> lit ''write_file'' \<in> set write_tools \<or> lit ''write_file'' = lit ''bash'')"
proof -
  have r: "decide sample_platform \<lparr>dp_mode = ModeAsk, dp_interactive = None, dp_workspace = None\<rparr> (lit ''write_file'')
     (JObj [(lit ''path'', JStr (lit ''a'')), (lit ''content'', JStr [])]) = ASK"
    by (simp add: decide_def coerce_arguments_def read_tools_def write_tools_def decide_side_effect_def
        safe_relative_path_str string_arg_def)
      (simp add: lit_def has_nul_def starts_slash_def is_slash_def path_parts_def normalise_def dotdot_def)
  show ?thesis using r policy_fails_closed [of sample_platform "\<lparr>dp_mode = ModeAsk, dp_interactive = None, dp_workspace = None\<rparr>"
      "lit ''write_file''" "JObj [(lit ''path'', JStr (lit ''a'')), (lit ''content'', JStr [])]"] by simp
qed

end
