(* ===== verification/Redaction.thy ===== *)
theory Redaction
  imports Schema
begin

text \<open>
  The key-based redaction of event payloads: the sensitive-key patterns of \<open>executor.py\<close>
  and \<open>events.py\<close> (searched with \<open>re.IGNORECASE\<close>) and the executor's \<open>_json_safe\<close>.
\<close>

section \<open>Searching without case\<close>

fun is_prefix :: "str \<Rightarrow> str \<Rightarrow> bool" where
  "is_prefix [] s = True"
| "is_prefix (p # ps) [] = False"
| "is_prefix (p # ps) (c # s) = (p = c \<and> is_prefix ps s)"

fun contains :: "str \<Rightarrow> str \<Rightarrow> bool" where
  "contains p [] = is_prefix p []"
| "contains p (c # s) = (is_prefix p (c # s) \<or> contains p s)"

text \<open>The characters an ASCII letter of a pattern matches without case: both cases, and the
  four characters whose simple folding is an ASCII letter.\<close>

definition fold_char :: "nat \<Rightarrow> nat" where
  "fold_char c =
     (if 65 \<le> c \<and> c \<le> 90 then c + 32 else if c = 8490 then 107 else if c = 383 then 115
      else if c = 304 \<or> c = 305 then 105 else c)"

definition has_word :: "string \<Rightarrow> str \<Rightarrow> bool" where
  "has_word w s = contains (lit w) (map fold_char s)"

text \<open>\<open>a[_-]?b\<close>.\<close>

definition has_joined :: "string \<Rightarrow> string \<Rightarrow> str \<Rightarrow> bool" where
  "has_joined a b s \<longleftrightarrow> has_word (a @ b) s \<or> has_word (a @ ''_'' @ b) s \<or> has_word (a @ ''-'' @ b) s"

text \<open>\<open>_SENSITIVE_KEY.search\<close> of \<open>executor.py\<close>.\<close>

definition executor_sensitive_key :: "str \<Rightarrow> bool" where
  "executor_sensitive_key k \<longleftrightarrow>
     has_word ''secret'' k \<or> has_word ''token'' k \<or> has_word ''password'' k \<or> has_word ''passwd'' k \<or>
     has_joined ''api'' ''key'' k \<or> has_word ''authorization'' k \<or> has_word ''credential'' k \<or>
     has_word ''cookie'' k \<or> has_joined ''private'' ''key'' k"

definition redacted :: json where
  "redacted = JStr (lit ''<redacted>'')"

text \<open>\<open>executor._json_safe\<close> on values of JSON shape.\<close>

fun json_safe :: "json \<Rightarrow> json" where
  "json_safe (JObj d) =
     JObj (map (\<lambda>p. (fst p, if executor_sensitive_key (fst p) then redacted else json_safe (snd p))) d)"
| "json_safe (JArr xs) = JArr (map json_safe xs)"
| "json_safe (JFloat f) = (case f of Finite q \<Rightarrow> JFloat (Finite q) | _ \<Rightarrow> JNull)"
| "json_safe v = v"

definition json_safe_obj :: "jobj \<Rightarrow> jobj" where
  "json_safe_obj d = map (\<lambda>p. (fst p, if executor_sensitive_key (fst p) then redacted else json_safe (snd p))) d"

lemma json_safe_JObj [simp]: "json_safe (JObj d) = JObj (json_safe_obj d)"
  by (simp add: json_safe_obj_def)

declare json_safe.simps(1) [simp del]

text \<open>No value under a sensitive key survives, at any depth.\<close>

fun redacted_ok :: "(str \<Rightarrow> bool) \<Rightarrow> json \<Rightarrow> bool" where
  "redacted_ok P (JObj d) = list_all (\<lambda>p. if P (fst p) then snd p = redacted else redacted_ok P (snd p)) d"
| "redacted_ok P (JArr xs) = list_all (redacted_ok P) xs"
| "redacted_ok P v = True"

lemma json_safe_redacts: "redacted_ok executor_sensitive_key (json_safe v) \<and> finite_json (json_safe v)"
proof (induction v rule: json_induct)
  case (JFloat f)
  then show ?case by (cases f) simp_all
next
  case (JObj d)
  then show ?case by (auto simp: json_safe_obj_def list_all_iff redacted_def)
qed (auto simp: list_all_iff)

lemma json_safe_idem: "json_safe (json_safe v) = json_safe v"
proof (induction v rule: json_induct)
  case (JFloat f)
  then show ?case by (cases f) simp_all
next
  case (JObj d)
  then show ?case by (auto simp: json_safe_obj_def redacted_def)
qed auto

lemma json_safe_obj_keys [simp]: "map fst (json_safe_obj d) = map fst d"
  by (simp add: json_safe_obj_def comp_def)

lemma json_safe_wf: "json_wf v \<Longrightarrow> json_wf (json_safe v)"
proof (induction v rule: json_induct)
  case (JFloat f)
  then show ?case by (cases f) simp_all
next
  case (JObj d)
  then show ?case by (auto simp: list_all_iff) (auto simp: json_safe_obj_def redacted_def)
qed (auto simp: list_all_iff)

end
