(* ===== verification/Effects.thy ===== *)
theory Effects
  imports Environment
begin

text \<open>
  Stateful code that may raise, as functions from a state to a state and a result
  (\<open>effect\<close>): sequencing, \<open>try/except\<close>, \<open>try/finally\<close>, and the predicate transformer
  that the components' proofs compute with.
\<close>

named_theorems wp_simps \<open>the predicate transformer of each construct\<close>

definition ret :: "'a \<Rightarrow> ('s, 'a) effect" where
  "ret a s = (s, Inr a)"

definition raise :: "exn \<Rightarrow> ('s, 'a) effect" where
  "raise e s = (s, Inl e)"

definition bindE :: "('s, 'a) effect \<Rightarrow> ('a \<Rightarrow> ('s, 'b) effect) \<Rightarrow> ('s, 'b) effect" where
  "bindE m f s = (case m s of (s', Inl e) \<Rightarrow> (s', Inl e) | (s', Inr a) \<Rightarrow> f a s')"

definition seqE :: "('s, unit) effect \<Rightarrow> ('s, 'b) effect \<Rightarrow> ('s, 'b) effect" where
  "seqE m k = bindE m (\<lambda>_. k)"

definition get :: "('s \<Rightarrow> 'a) \<Rightarrow> ('s, 'a) effect" where
  "get f s = (s, Inr (f s))"

definition modify :: "('s \<Rightarrow> 's) \<Rightarrow> ('s, unit) effect" where
  "modify f s = (f s, Inr ())"

definition lift_res :: "'a res \<Rightarrow> ('s, 'a) effect" where
  "lift_res r s = (s, r)"

text \<open>\<open>try: m except Exception: h\<close>; an interrupt passes.\<close>

definition try_except :: "('s, 'a) effect \<Rightarrow> (exn \<Rightarrow> ('s, 'a) effect) \<Rightarrow> ('s, 'a) effect" where
  "try_except m h s =
     (case m s of
        (s', Inl e) \<Rightarrow> if is_exception e then h e s' else (s', Inl e)
      | (s', Inr a) \<Rightarrow> (s', Inr a))"

text \<open>\<open>try: m finally: f\<close>; what \<open>f\<close> raises replaces the outcome.\<close>

definition try_finally :: "('s, 'a) effect \<Rightarrow> ('s, unit) effect \<Rightarrow> ('s, 'a) effect" where
  "try_finally m f s =
     (case m s of (s', r) \<Rightarrow> (case f s' of (s'', Inl e) \<Rightarrow> (s'', Inl e) | (s'', Inr _) \<Rightarrow> (s'', r)))"

definition wp :: "('s, 'a) effect \<Rightarrow> ('a \<Rightarrow> 's \<Rightarrow> bool) \<Rightarrow> (exn \<Rightarrow> 's \<Rightarrow> bool) \<Rightarrow> 's \<Rightarrow> bool" where
  "wp m Q E s = (case m s of (s', Inr a) \<Rightarrow> Q a s' | (s', Inl e) \<Rightarrow> E e s')"

lemma wp_ret [wp_simps]: "wp (ret a) Q E s = Q a s"
  by (simp add: wp_def ret_def)

lemma wp_raise [wp_simps]: "wp (raise e) Q E s = E e s"
  by (simp add: wp_def raise_def)

lemma wp_bindE [wp_simps]: "wp (bindE m f) Q E s = wp m (\<lambda>a. wp (f a) Q E) E s"
  by (auto simp: wp_def bindE_def split: prod.split sum.split)

lemma wp_seqE [wp_simps]: "wp (seqE m k) Q E s = wp m (\<lambda>_. wp k Q E) E s"
  by (simp add: seqE_def wp_bindE)

lemma wp_get [wp_simps]: "wp (get f) Q E s = Q (f s) s"
  by (simp add: wp_def get_def)

lemma wp_modify [wp_simps]: "wp (modify f) Q E s = Q () (f s)"
  by (simp add: wp_def modify_def)

lemma wp_lift_res [wp_simps]: "wp (lift_res r) Q E s = (case r of Inr a \<Rightarrow> Q a s | Inl e \<Rightarrow> E e s)"
  by (simp add: wp_def lift_res_def)

lemma wp_try_except [wp_simps]:
  "wp (try_except m h) Q E s = wp m Q (\<lambda>e s'. if is_exception e then wp (h e) Q E s' else E e s') s"
  by (auto simp: wp_def try_except_def split: prod.split sum.split)

lemma wp_try_finally [wp_simps]:
  "wp (try_finally m f) Q E s = wp m (\<lambda>a. wp f (\<lambda>_. Q a) E) (\<lambda>e. wp f (\<lambda>_. E e) E) s"
  by (auto simp: wp_def try_finally_def split: prod.split sum.split)

lemma wp_if [wp_simps]: "wp (if b then m else k) Q E s = (if b then wp m Q E s else wp k Q E s)"
  by simp

lemma wp_mono:
  "wp m Q E s \<Longrightarrow> (\<And>a s'. Q a s' \<Longrightarrow> Q' a s') \<Longrightarrow> (\<And>e s'. E e s' \<Longrightarrow> E' e s') \<Longrightarrow> wp m Q' E' s"
  by (auto simp: wp_def split: prod.splits sum.splits)

lemma wp_conj: "wp m Q E s \<Longrightarrow> wp m Q' E' s \<Longrightarrow> wp m (\<lambda>a s'. Q a s' \<and> Q' a s') (\<lambda>e s'. E e s' \<and> E' e s') s"
  by (auto simp: wp_def split: prod.splits sum.splits)

text \<open>The rules that carry an intermediate assertion.\<close>

lemma wp_bindI:
  "wp m R E s \<Longrightarrow> (\<And>a s'. R a s' \<Longrightarrow> wp (f a) Q E s') \<Longrightarrow> wp (bindE m f) Q E s"
  unfolding wp_bindE by (rule wp_mono)

lemma wp_seqI:
  "wp m (\<lambda>_. R) E s \<Longrightarrow> (\<And>s'. R s' \<Longrightarrow> wp k Q E s') \<Longrightarrow> wp (seqE m k) Q E s"
  unfolding wp_seqE by (rule wp_mono)

lemma wp_tryI:
  "wp m Q R s \<Longrightarrow> (\<And>e s'. R e s' \<Longrightarrow> is_exception e \<Longrightarrow> wp (h e) Q E s') \<Longrightarrow>
   (\<And>e s'. R e s' \<Longrightarrow> \<not> is_exception e \<Longrightarrow> E e s') \<Longrightarrow> wp (try_except m h) Q E s"
  unfolding wp_try_except by (erule wp_mono) auto

lemma wp_finallyI:
  "wp m Q R s \<Longrightarrow> (\<And>a s'. Q a s' \<Longrightarrow> wp f (\<lambda>_. Q' a) E s') \<Longrightarrow>
   (\<And>e s'. R e s' \<Longrightarrow> wp f (\<lambda>_. E e) E s') \<Longrightarrow> wp (try_finally m f) Q' E s"
  unfolding wp_try_finally by (erule wp_mono) auto

lemma wp_result: "wp m Q E s \<Longrightarrow> m s = (s', Inr a) \<Longrightarrow> Q a s'"
  and wp_raised: "wp m Q E s \<Longrightarrow> m s = (s', Inl e) \<Longrightarrow> E e s'"
  by (simp_all add: wp_def)

text \<open>An effect on a part of the state.\<close>

definition zoom :: "('t \<Rightarrow> 's) \<Rightarrow> ('s \<Rightarrow> 't \<Rightarrow> 't) \<Rightarrow> ('s, 'a) effect \<Rightarrow> ('t, 'a) effect" where
  "zoom sel upd m t = (case m (sel t) of (s', r) \<Rightarrow> (upd s' t, r))"

lemma wp_zoom [wp_simps]:
  "wp (zoom sel upd m) Q E t = wp m (\<lambda>a s. Q a (upd s t)) (\<lambda>e s. E e (upd s t)) (sel t)"
  by (auto simp: wp_def zoom_def split: prod.split sum.split)

end
