(* ===== verification/Executor.thy ===== *)
theory Executor
  imports Registry Policy Redaction Effects
begin

text \<open>
  The life cycle of one tool call (\<open>executor.py\<close>): the operation's correlation id, the
  validation, the policy and approval, the dispatch, the normalization of the result, and
  the three events of the cycle.

  The injected collaborators (\<open>exec_ports\<close>) are effects on a world of type \<open>'w\<close>; the
  executor's own fields, and the two locals of \<open>execute\<close> that its handlers read, are in
  \<open>exec_state\<close>.
\<close>

section \<open>Ports, configuration and state\<close>

record ToolLifecycleEvent =
  le_event_id :: str
  le_session_id :: str
  le_agent_id :: str
  le_parent_agent_id :: "str option"
  le_type :: EventType
  le_timestamp :: str
  le_correlation_id :: str
  le_provider_tool_call_id :: "str option"
  le_payload :: jobj

text \<open>What \<open>registry.execute\<close> may return.\<close>

datatype exec_value = XResult ToolResult | XOther | XNone

text \<open>\<open>xp_uuid prefix taken\<close> draws \<open>uuid4\<close> texts until \<open>prefix\<close> followed by one is not in
  \<open>taken\<close>; the policy, the validator, the dispatch and the approval callback are called with
  the shapes their signatures ask for.\<close>

record 'w exec_ports =
  xp_new_id :: "str \<Rightarrow> ('w, str) effect"
  xp_uuid :: "str \<Rightarrow> str set \<Rightarrow> 'w \<Rightarrow> 'w \<times> str"
  xp_clock :: "('w, rat) effect"
  xp_timestamp :: "'w \<Rightarrow> 'w \<times> str"
  xp_registered_names :: "'w \<Rightarrow> str list"
  xp_validate :: "str \<Rightarrow> json \<Rightarrow> ('w, json) effect"
  xp_execute :: "str \<Rightarrow> jobj \<Rightarrow> ToolExecutionContext \<Rightarrow> ('w, exec_value) effect"
  xp_policy :: "str \<Rightarrow> jobj \<Rightarrow> ToolExecutionContext \<Rightarrow> ('w, policy_value) effect"
  xp_approval :: "(str \<Rightarrow> jobj \<Rightarrow> ToolExecutionContext \<Rightarrow> ('w, json) effect) option"
  xp_approval_interactive :: "bool option"
  xp_publish :: "(ToolLifecycleEvent \<Rightarrow> ('w, unit) effect) option"

record exec_config =
  xc_session_id :: str
  xc_agent_id :: str
  xc_parent_agent_id :: "str option"
  xc_strict :: bool
  xc_output_limit :: "int option"
  xc_interactive :: bool
  xc_id_factory_explicit :: bool
  xc_platform :: platform
  xc_py_str :: "json \<Rightarrow> str"

record 'w exec_state =
  xs_world :: 'w
  xs_issued :: "str set"
  xs_event_ids :: "str set"
  xs_errors :: "str list"
  xs_last_result :: "ToolResult option"
  xs_last_published :: bool
  xs_result :: exec_value
  xs_policy_emitted :: bool

abbreviation world :: "('w, 'a) effect \<Rightarrow> ('w exec_state, 'a) effect" where
  "world m \<equiv> zoom xs_world (\<lambda>w s. s\<lparr>xs_world := w\<rparr>) m"

definition total :: "('w \<Rightarrow> 'w \<times> 'a) \<Rightarrow> ('w, 'a) effect" where
  "total f w = (case f w of (w', a) \<Rightarrow> (w', Inr a))"

lemma wp_total [wp_simps]: "wp (total f) Q E w = (case f w of (w', a) \<Rightarrow> Q a w')"
  by (simp add: wp_def total_def split: prod.split)

section \<open>Identifiers\<close>

text \<open>\<open>_event_id\<close>: the runtime's factory, or a uuid when it fails.\<close>

definition event_id :: "'w exec_ports \<Rightarrow> ('w exec_state, str) effect" where
  "event_id P =
     try_except
       (bindE (world (xp_new_id P (lit ''event''))) (\<lambda>i. lift_res (new_identifier EventId (PlainStr i))))
       (\<lambda>_. bindE (world (total (xp_uuid P (lit ''event_'') {}))) (\<lambda>h. ret (lit ''event_'' @ h)))"

fun suffixed_event_id :: "'w exec_ports \<Rightarrow> str \<Rightarrow> nat \<Rightarrow> nat \<Rightarrow> ('w exec_state, str option) effect" where
  "suffixed_event_id P candidate k 0 = ret None"
| "suffixed_event_id P candidate k (Suc n) =
     (case new_identifier EventId (PlainStr (candidate @ lit ''_'' @ dec k)) of
        Inl _ \<Rightarrow> ret None
      | Inr i \<Rightarrow>
          bindE (get xs_event_ids) (\<lambda>ids.
          if i \<notin> ids then seqE (modify (\<lambda>s. s\<lparr>xs_event_ids := insert i ids\<rparr>)) (ret (Some i))
          else suffixed_event_id P candidate (Suc k) n))"

text \<open>\<open>_new_event_id\<close>.\<close>

definition new_event_id :: "'w exec_ports \<Rightarrow> ('w exec_state, str) effect" where
  "new_event_id P =
     bindE (event_id P) (\<lambda>candidate.
     bindE (get xs_event_ids) (\<lambda>ids.
     if candidate \<notin> ids
     then seqE (modify (\<lambda>s. s\<lparr>xs_event_ids := insert candidate ids\<rparr>)) (ret candidate)
     else
       bindE (suffixed_event_id P candidate 1 16) (\<lambda>found.
       case found of
         Some i \<Rightarrow> ret i
       | None \<Rightarrow>
           bindE (world (total (xp_uuid P (lit ''event_'') ids))) (\<lambda>h.
           seqE (modify (\<lambda>s. s\<lparr>xs_event_ids := insert (lit ''event_'' @ h) (xs_event_ids s)\<rparr>))
                (ret (lit ''event_'' @ h))))))"

text \<open>\<open>_new_correlation_id\<close>: sixteen attempts with the factory, each retried once with a
  suffix, then a uuid.\<close>

definition reserve :: "str \<Rightarrow> ('w exec_state, unit) effect" where
  "reserve c = modify (\<lambda>s. s\<lparr>xs_issued := insert c (xs_issued s)\<rparr>)"

fun correlation_attempts :: "'w exec_ports \<Rightarrow> nat \<Rightarrow> nat \<Rightarrow> ('w exec_state, str) effect" where
  "correlation_attempts P attempt 0 =
     bindE (get xs_issued) (\<lambda>issued.
     bindE (world (total (xp_uuid P (lit ''correlation_'') issued))) (\<lambda>h.
     seqE (reserve (lit ''correlation_'' @ h)) (ret (lit ''correlation_'' @ h))))"
| "correlation_attempts P attempt (Suc n) =
     bindE (try_except
        (bindE (world (xp_new_id P (lit ''correlation''))) (\<lambda>i. lift_res (new_identifier CorrelationId (PlainStr i))))
        (\<lambda>_. bindE (world (total (xp_uuid P (lit ''correlation_'') {}))) (\<lambda>h. ret (lit ''correlation_'' @ h)))) (\<lambda>c.
     bindE (get xs_issued) (\<lambda>issued.
     if c \<notin> issued then seqE (reserve c) (ret c)
     else
       bindE (case new_identifier CorrelationId (PlainStr (c @ lit ''_'' @ dec (attempt + 1))) of
                Inr c' \<Rightarrow> ret c'
              | Inl _ \<Rightarrow> bindE (world (total (xp_uuid P (lit ''correlation_'') {})))
                           (\<lambda>h. ret (lit ''correlation_'' @ h))) (\<lambda>c'.
       if c' \<notin> issued then seqE (reserve c') (ret c') else correlation_attempts P (Suc attempt) n)))"

definition new_correlation_id :: "'w exec_ports \<Rightarrow> ('w exec_state, str) effect" where
  "new_correlation_id P = correlation_attempts P 0 16"

text \<open>The id of the operation: the supplied one when it is valid and unused.\<close>

definition operation_id ::
  "exec_config \<Rightarrow> 'w exec_ports \<Rightarrow> str option \<Rightarrow> id_arg option \<Rightarrow> ('w exec_state, str) effect" where
  "operation_id cfg P call_correlation correlation_id =
     (let supplied = (case correlation_id of
            Some v \<Rightarrow> Some v
          | None \<Rightarrow> if xc_id_factory_explicit cfg then None
                    else map_option (Ident CorrelationId) call_correlation) in
      case supplied of
        None \<Rightarrow> new_correlation_id P
      | Some v \<Rightarrow>
          (case new_identifier CorrelationId v of
             Inl _ \<Rightarrow> new_correlation_id P
           | Inr c \<Rightarrow>
               bindE (get xs_issued) (\<lambda>issued.
               if c \<in> issued then new_correlation_id P else seqE (reserve c) (ret c))))"

definition safe_provider :: "id_arg option \<Rightarrow> str option \<times> bool" where
  "safe_provider v =
     (case v of
        None \<Rightarrow> (None, True)
      | Some a \<Rightarrow> (case new_identifier ProviderToolCallId a of Inr p \<Rightarrow> (Some p, True) | Inl _ \<Rightarrow> (None, False)))"

definition invalid_tool_name :: str where
  "invalid_tool_name = lit ''<invalid-tool-name>''"

definition safe_name :: "json \<Rightarrow> str list \<Rightarrow> str" where
  "safe_name v names =
     (case v of
        JStr s \<Rightarrow> if s = [] then invalid_tool_name
                  else if s \<in> set names then s else invalid_tool_name
      | _ \<Rightarrow> invalid_tool_name)"

section \<open>Events\<close>

text \<open>\<open>_publish\<close>: an observer's failure is recorded by its class; in strict mode it becomes
  a \<open>ToolEventPublicationError\<close>.\<close>

definition publication_error :: exn where
  "publication_error =
     OtherError (lit ''ToolEventPublicationError'') (lit ''tool lifecycle event could not be published'')"

definition note_error :: "exn \<Rightarrow> ('w exec_state, unit) effect" where
  "note_error e = modify (\<lambda>s. s\<lparr>xs_errors := xs_errors s @ [exn_class e]\<rparr>)"

definition publish :: "exec_config \<Rightarrow> 'w exec_ports \<Rightarrow> ToolLifecycleEvent \<Rightarrow> ('w exec_state, unit) effect" where
  "publish cfg P ev =
     (case xp_publish P of
        None \<Rightarrow> ret ()
      | Some f \<Rightarrow>
          try_except (world (f ev))
            (\<lambda>e. seqE (note_error e) (if xc_strict cfg then raise publication_error else ret ())))"

definition make_event ::
  "exec_config \<Rightarrow> 'w exec_ports \<Rightarrow> EventType \<Rightarrow> str \<Rightarrow> str option \<Rightarrow> jobj \<Rightarrow> ('w exec_state, ToolLifecycleEvent) effect" where
  "make_event cfg P ty cid pid payload =
     bindE (new_event_id P) (\<lambda>eid.
     bindE (world (total (xp_timestamp P))) (\<lambda>ts.
     ret \<lparr>le_event_id = eid, le_session_id = xc_session_id cfg, le_agent_id = xc_agent_id cfg,
          le_parent_agent_id = xc_parent_agent_id cfg, le_type = ty, le_timestamp = ts,
          le_correlation_id = cid, le_provider_tool_call_id = pid,
          le_payload = json_safe_obj payload\<rparr>))"

definition emit ::
  "exec_config \<Rightarrow> 'w exec_ports \<Rightarrow> EventType \<Rightarrow> str \<Rightarrow> str option \<Rightarrow> jobj \<Rightarrow> ('w exec_state, unit) effect" where
  "emit cfg P ty cid pid payload =
     bindE (try_except (bindE (make_event cfg P ty cid pid payload) (\<lambda>ev. ret (Some ev)))
              (\<lambda>e. seqE (note_error e) (ret None))) (\<lambda>ev.
     case ev of None \<Rightarrow> ret () | Some e \<Rightarrow> publish cfg P e)"

definition argument_count :: "platform \<Rightarrow> json \<Rightarrow> nat" where
  "argument_count pl arguments =
     (case arguments of
        JObj d \<Rightarrow> length d
      | JStr s \<Rightarrow> (case json_loads True (pl_fparse pl) s of Some (JObj d) \<Rightarrow> length d | _ \<Rightarrow> 0)
      | _ \<Rightarrow> 0)"

definition tool_call_payload :: "platform \<Rightarrow> str \<Rightarrow> json \<Rightarrow> jobj" where
  "tool_call_payload pl name arguments =
     (let n = argument_count pl arguments in
      [(lit ''tool_name'', JStr name), (lit ''name'', JStr name),
       (lit ''argument_keys'', JArr (replicate n redacted)),
       (lit ''arguments'', JObj (if n = 0 then [] else [(lit ''<redacted>'', redacted)])),
       (lit ''arguments_length'', case arguments of JStr s \<Rightarrow> JInt (int (length s)) | _ \<Rightarrow> JNull)])"

definition tool_call_event ::
  "exec_config \<Rightarrow> 'w exec_ports \<Rightarrow> str \<Rightarrow> json \<Rightarrow> str \<Rightarrow> str option \<Rightarrow> ('w exec_state, unit) effect" where
  "tool_call_event cfg P name arguments cid pid =
     emit cfg P TOOL_CALL cid pid (tool_call_payload (xc_platform cfg) name arguments)"

definition policy_payload :: "str \<Rightarrow> PolicyDecision \<Rightarrow> PolicyDecision \<Rightarrow> bool option \<Rightarrow> str \<Rightarrow> jobj" where
  "policy_payload name requested decision approved reason =
     [(lit ''tool_name'', JStr name), (lit ''name'', JStr name),
      (lit ''requested'', JStr (decision_str requested)),
      (lit ''requested_decision'', JStr (decision_str requested)),
      (lit ''decision'', JStr (decision_str decision)),
      (lit ''action'', JStr (decision_str decision)),
      (lit ''approved'', case approved of None \<Rightarrow> JNull | Some b \<Rightarrow> JBool b),
      (lit ''reason'', JStr (take 160 reason))]"

definition policy_event ::
  "exec_config \<Rightarrow> 'w exec_ports \<Rightarrow> str \<Rightarrow> str \<Rightarrow> str option \<Rightarrow> PolicyDecision \<Rightarrow> PolicyDecision
     \<Rightarrow> bool option \<Rightarrow> str \<Rightarrow> ('w exec_state, unit) effect" where
  "policy_event cfg P name cid pid requested decision approved reason =
     emit cfg P POLICY_DECISION cid pid (policy_payload name requested decision approved reason)"

definition result_payload :: "str \<Rightarrow> ToolResultProjection \<Rightarrow> jobj" where
  "result_payload name p =
     [(lit ''tool_name'', JStr name), (lit ''name'', JStr name),
      (lit ''status'', JStr (tool_status_str (tp_status p))),
      (lit ''text'', JStr (tp_text p)),
      (lit ''truncated'', JBool (tp_truncated p)),
      (lit ''original_length'', json_opt_int (tp_original_length p)),
      (lit ''result'', JObj (ToolResultProjection_to_dict p)),
      (lit ''tool_result'', JObj (ToolResultProjection_to_dict p))]"

definition result_event ::
  "exec_config \<Rightarrow> 'w exec_ports \<Rightarrow> str \<Rightarrow> ToolResult \<Rightarrow> ('w exec_state, unit) effect" where
  "result_event cfg P name r =
     bindE (lift_res (ToolResultProjection_from_result r (xc_output_limit cfg))) (\<lambda>p.
     emit cfg P TOOL_RESULT (tr_correlation_id r) (tr_provider_tool_call_id r) (result_payload name p))"

section \<open>Results made by the executor\<close>

definition short_metadata :: "str \<Rightarrow> str option \<Rightarrow> jobj" where
  "short_metadata code name =
     (lit ''error_code'', JStr code) # (case name of None \<Rightarrow> [] | Some n \<Rightarrow> [(lit ''tool_name'', JStr n)])"

definition timed_result ::
  "str \<Rightarrow> str option \<Rightarrow> ToolResultStatus \<Rightarrow> str \<Rightarrow> jobj \<Rightarrow> rat option \<Rightarrow> ToolResult res" where
  "timed_result cid pid status txt metadata duration =
     ToolResult_post_init
       \<lparr>tr_correlation_id = cid, tr_status = status, tr_text = txt, tr_provider_tool_call_id = pid,
        tr_metadata = metadata, tr_truncated = False, tr_original_length = None,
        tr_duration_seconds = map_option Finite duration, tr_exit_code = None,
        tr_timed_out = False, tr_path = None\<rparr>"

definition protocol_result :: "str \<Rightarrow> str option \<Rightarrow> str \<Rightarrow> str \<Rightarrow> str option \<Rightarrow> ToolResult res" where
  "protocol_result cid pid code message name =
     timed_result cid pid ResInvalid message (short_metadata code name) None"

definition executor_error_result :: "str \<Rightarrow> str option \<Rightarrow> str option \<Rightarrow> string \<Rightarrow> rat option \<Rightarrow> ToolResult res" where
  "executor_error_result cid pid name code duration =
     timed_result cid pid ResError (lit ''tool execution failed'') (short_metadata (lit code) name) duration"

definition denied_result :: "str \<Rightarrow> str option \<Rightarrow> str option \<Rightarrow> string \<Rightarrow> str \<Rightarrow> str \<Rightarrow> ToolResult res" where
  "denied_result cid pid name code txt reason =
     timed_result cid pid ResDenied txt
       (short_metadata (lit code) name @ [(lit ''reason'', JStr reason)]) None"

definition denied_text :: "str \<Rightarrow> str" where
  "denied_text reason =
     (if reason = lit ''user_rejected'' then lit ''tool execution denied by user''
      else if reason = lit ''non_interactive_approval_required''
      then lit ''tool execution denied: approval is unavailable''
      else if reason = lit ''approval_error'' then lit ''tool execution denied: approval failed''
      else if reason = lit ''policy_denied'' then lit ''tool execution denied by policy''
      else lit ''tool execution denied'')"

text \<open>\<open>_normalize_result\<close>: the ids and the duration are reasserted, an exception's text is
  dropped, the metadata is redacted, and the text is bounded.\<close>

definition reassert :: "ToolResult \<Rightarrow> str \<Rightarrow> str option \<Rightarrow> rat \<Rightarrow> ToolResult res" where
  "reassert r cid pid elapsed =
     bindR (if tr_correlation_id r \<noteq> cid \<or> tr_provider_tool_call_id r \<noteq> pid
            then ToolResult_post_init (r\<lparr>tr_correlation_id := cid, tr_provider_tool_call_id := pid\<rparr>)
            else Inr r) (\<lambda>r1.
     if tr_duration_seconds r1 = None
     then ToolResult_post_init (r1\<lparr>tr_duration_seconds := Some (Finite (max 0 elapsed))\<rparr>)
     else Inr r1)"

definition scrub :: "exec_config \<Rightarrow> str \<Rightarrow> ToolResult \<Rightarrow> ToolResult res" where
  "scrub cfg name r =
     (if dget (tr_metadata r) (lit ''error_code'') = Some (JStr (code_str INTERNAL_TOOL_ERROR)) \<or>
         has_key (tr_metadata r) (lit ''error_type'')
      then ToolResult_post_init
             (r\<lparr>tr_text := lit ''tool execution failed'',
                tr_metadata :=
                  [(lit ''error_code'',
                    JStr (case dget (tr_metadata r) (lit ''error_code'') of
                            None \<Rightarrow> code_str INTERNAL_TOOL_ERROR
                          | Some (JStr s) \<Rightarrow> s
                          | Some v \<Rightarrow> xc_py_str cfg v)),
                   (lit ''tool_name'', JStr name)]\<rparr>)
      else Inr r)"

definition normalize_result ::
  "exec_config \<Rightarrow> exec_value \<Rightarrow> str \<Rightarrow> str option \<Rightarrow> str \<Rightarrow> rat \<Rightarrow> ToolResult res" where
  "normalize_result cfg v cid pid name elapsed =
     (case v of
        XResult r0 \<Rightarrow>
          (case reassert r0 cid pid elapsed of
             Inl _ \<Rightarrow> executor_error_result cid pid (Some name) ''malformed_tool_result'' (Some elapsed)
           | Inr r1 \<Rightarrow>
               bindR (scrub cfg name r1) (\<lambda>r2.
               bindR (if json_safe_obj (tr_metadata r2) \<noteq> tr_metadata r2
                      then ToolResult_post_init (r2\<lparr>tr_metadata := json_safe_obj (tr_metadata r2)\<rparr>)
                      else Inr r2) (\<lambda>r3.
               case xc_output_limit cfg of
                 None \<Rightarrow> Inr r3
               | Some _ \<Rightarrow>
                   bindR (ToolResultProjection_from_result r3 (xc_output_limit cfg)) to_tool_result)))
      | _ \<Rightarrow> executor_error_result cid pid (Some name) ''invalid_tool_result'' (Some elapsed))"

section \<open>Execution\<close>

definition set_result :: "ToolResult res \<Rightarrow> ('w exec_state, unit) effect" where
  "set_result r = bindE (lift_res r) (\<lambda>x. modify (\<lambda>s. s\<lparr>xs_result := XResult x\<rparr>))"

definition mark_policy :: "('w exec_state, unit) effect" where
  "mark_policy = modify (\<lambda>s. s\<lparr>xs_policy_emitted := True\<rparr>)"

text \<open>A refusal before the policy is asked: its policy event, then its result.\<close>

definition refuse ::
  "exec_config \<Rightarrow> 'w exec_ports \<Rightarrow> str \<Rightarrow> str \<Rightarrow> str option \<Rightarrow> str \<Rightarrow> ToolResult res \<Rightarrow> ('w exec_state, unit) effect" where
  "refuse cfg P name cid pid reason result =
     seqE (policy_event cfg P name cid pid DENY DENY None reason)
       (seqE mark_policy (set_result result))"

text \<open>The approval of one call: the decision, the approval flag and the reason.\<close>

definition approval ::
  "exec_config \<Rightarrow> 'w exec_ports \<Rightarrow> str \<Rightarrow> jobj \<Rightarrow> ToolExecutionContext
     \<Rightarrow> ('w exec_state, PolicyDecision \<times> bool option \<times> str) effect" where
  "approval cfg P name parsed c =
     (if \<not> xc_interactive cfg \<or> xp_approval_interactive P = Some False
      then ret (DENY, None, lit ''non_interactive_approval_required'')
      else
        (case xp_approval P of
           None \<Rightarrow> ret (DENY, None, lit ''approval_unavailable'')
         | Some ask \<Rightarrow>
             try_except
               (bindE (world (ask name parsed c)) (\<lambda>v.
                case v of
                  JBool b \<Rightarrow> ret (if b then ALLOW else DENY, Some b,
                                  if b then lit ''approved'' else lit ''user_rejected'')
                | _ \<Rightarrow> raise (TypeError (lit ''approval response must be a boolean''))))
               (\<lambda>_. ret (DENY, Some False, lit ''approval_error''))))"

definition policy_reason :: "PolicyDecision \<Rightarrow> str" where
  "policy_reason d = (case d of DENY \<Rightarrow> lit ''policy_denied'' | _ \<Rightarrow> lit ''policy_'' @ decision_str d)"

text \<open>The decision's event, then the refusal or the dispatch.\<close>

definition enact ::
  "exec_config \<Rightarrow> 'w exec_ports \<Rightarrow> str \<Rightarrow> str \<Rightarrow> jobj \<Rightarrow> ToolExecutionContext
     \<Rightarrow> PolicyDecision \<Rightarrow> PolicyDecision \<times> bool option \<times> str \<Rightarrow> ('w exec_state, unit) effect" where
  "enact cfg P name tool parsed c requested outcome =
     (case outcome of (decision, approved, reason) \<Rightarrow>
        seqE (policy_event cfg P name (cx_correlation_id c) (cx_provider_tool_call_id c)
                requested decision approved reason)
          (seqE mark_policy
            (if decision \<noteq> ALLOW
             then set_result (denied_result (cx_correlation_id c) (cx_provider_tool_call_id c) (Some name)
                                ''policy_denied'' (denied_text reason) reason)
             else bindE (world (xp_execute P tool parsed c)) (\<lambda>v.
                  modify (\<lambda>s. s\<lparr>xs_result := v\<rparr>)))))"

text \<open>The policy, the approval it may ask for, and what follows.\<close>

definition decide_and_run ::
  "exec_config \<Rightarrow> 'w exec_ports \<Rightarrow> str \<Rightarrow> str \<Rightarrow> jobj \<Rightarrow> ToolExecutionContext \<Rightarrow> ('w exec_state, unit) effect" where
  "decide_and_run cfg P name tool parsed c =
     bindE (world (xp_policy P tool parsed c)) (\<lambda>value.
     case coerce_policy_decision value of
       None \<Rightarrow> raise (ValueError (lit ''invalid policy decision''))
     | Some requested \<Rightarrow>
         bindE (if requested = ASK then approval cfg P tool parsed c
                else ret (requested, None, policy_reason requested))
           (enact cfg P name tool parsed c requested))"

definition guarded_run ::
  "exec_config \<Rightarrow> 'w exec_ports \<Rightarrow> str \<Rightarrow> str \<Rightarrow> jobj \<Rightarrow> ToolExecutionContext \<Rightarrow> ('w exec_state, unit) effect" where
  "guarded_run cfg P name tool parsed c =
     try_except (decide_and_run cfg P name tool parsed c)
       (\<lambda>_. bindE (get xs_policy_emitted) (\<lambda>emitted.
        if \<not> emitted
        then refuse cfg P name (cx_correlation_id c) (cx_provider_tool_call_id c) (lit ''policy_error'')
               (denied_result (cx_correlation_id c) (cx_provider_tool_call_id c) (Some name)
                  ''policy_error'' (lit ''tool execution denied'') (lit ''policy_error''))
        else set_result (executor_error_result (cx_correlation_id c) (cx_provider_tool_call_id c)
                           (Some name) ''executor_error'' None)))"

text \<open>Validation through the registry: the parsed arguments, or None once refused.\<close>

definition validate_call ::
  "exec_config \<Rightarrow> 'w exec_ports \<Rightarrow> str \<Rightarrow> str \<Rightarrow> json \<Rightarrow> str \<Rightarrow> str option \<Rightarrow> ('w exec_state, jobj option) effect" where
  "validate_call cfg P name tool arguments cid pid =
     try_except
       (bindE (world (xp_validate P tool arguments)) (\<lambda>v.
        case v of
          JObj d \<Rightarrow> ret (Some d)
        | _ \<Rightarrow> raise (protocol_error INVALID_VALUE (lit ''tool validator did not return an object'') (lit ''$'') [])))
       (\<lambda>e. if is_protocol_error e
            then seqE (refuse cfg P name cid pid (lit ''validation_'' @ error_code e)
                         (protocol_result cid pid (error_code e)
                            (lit ''invalid tool arguments ('' @ error_code e @ lit '' at $)'') (Some name)))
                      (ret None)
            else seqE (refuse cfg P name cid pid (lit ''registry_validation_error'')
                         (executor_error_result cid pid (Some name) ''registry_validation_error'' None))
                      (ret None))"

definition execution_context :: "exec_config \<Rightarrow> str \<Rightarrow> str option \<Rightarrow> ToolExecutionContext" where
  "execution_context cfg cid pid =
     \<lparr>cx_agent_id = xc_agent_id cfg, cx_correlation_id = cid, cx_provider_tool_call_id = pid\<rparr>"

text \<open>The body of \<open>execute\<close>'s \<open>try\<close>.\<close>

definition execute_body ::
  "exec_config \<Rightarrow> 'w exec_ports \<Rightarrow> str \<Rightarrow> json \<Rightarrow> json \<Rightarrow> str \<Rightarrow> str option \<Rightarrow> bool \<Rightarrow> ('w exec_state, unit) effect" where
  "execute_body cfg P name name_value arguments cid pid provider_valid =
     (if \<not> provider_valid
      then refuse cfg P name cid None (lit ''invalid_provider_tool_call_id'')
             (protocol_result cid None (code_str INVALID_VALUE) (lit ''invalid provider tool-call ID'') (Some name))
      else if \<not> nonempty_str name_value
      then refuse cfg P name cid pid (lit ''invalid_tool_name'')
             (protocol_result cid pid (code_str UNKNOWN_TOOL) (lit ''tool name is required'') None)
      else
        bindE (validate_call cfg P name (json_str name_value) arguments cid pid) (\<lambda>parsed.
        case parsed of
          None \<Rightarrow> ret ()
        | Some d \<Rightarrow> guarded_run cfg P name (json_str name_value) d (execution_context cfg cid pid)))"

text \<open>The \<open>finally\<close>: the elapsed time, the normalized result, and its event.\<close>

definition finish_call ::
  "exec_config \<Rightarrow> 'w exec_ports \<Rightarrow> str \<Rightarrow> str \<Rightarrow> str option \<Rightarrow> rat \<Rightarrow> ('w exec_state, unit) effect" where
  "finish_call cfg P name cid pid started =
     bindE (try_except (bindE (world (xp_clock P)) (\<lambda>t. ret (max 0 (t - started)))) (\<lambda>_. ret 0)) (\<lambda>elapsed.
     seqE (bindE (get xs_result) (\<lambda>r.
             if r = XNone
             then set_result (executor_error_result cid pid (Some name) ''executor_error'' (Some elapsed))
             else ret ()))
       (bindE (get xs_result) (\<lambda>r.
        bindE (lift_res (normalize_result cfg r cid pid name elapsed)) (\<lambda>x.
        seqE (modify (\<lambda>s. s\<lparr>xs_result := XResult x, xs_last_result := Some x\<rparr>))
          (seqE (result_event cfg P name x)
            (modify (\<lambda>s. s\<lparr>xs_last_published := True\<rparr>)))))))"

definition started_clock :: "'w exec_ports \<Rightarrow> ('w exec_state, rat) effect" where
  "started_clock P = try_except (world (xp_clock P)) (\<lambda>_. ret 0)"

text \<open>\<open>ToolExecutor.execute\<close>.\<close>

definition execute ::
  "exec_config \<Rightarrow> 'w exec_ports \<Rightarrow> json + ToolCall \<Rightarrow> json option \<Rightarrow> id_arg option \<Rightarrow> id_arg option
     \<Rightarrow> ('w exec_state, ToolResult) effect" where
  "execute cfg P tool_or_call arguments provider correlation_id =
     (let name_value = (case tool_or_call of Inr call \<Rightarrow> JStr (tc_name call) | Inl v \<Rightarrow> v);
          raw = (case tool_or_call of
                   Inr call \<Rightarrow> JStr (tc_raw_arguments call)
                 | Inl _ \<Rightarrow> (case arguments of Some a \<Rightarrow> a | None \<Rightarrow> JStr []));
          provider_value = (case provider of
                   Some v \<Rightarrow> Some v
                 | None \<Rightarrow> (case tool_or_call of
                       Inr call \<Rightarrow> map_option (Ident ProviderToolCallId) (tc_provider_tool_call_id call)
                     | Inl _ \<Rightarrow> None));
          call_correlation = (case tool_or_call of Inr call \<Rightarrow> Some (tc_correlation_id call) | Inl _ \<Rightarrow> None);
          (pid, provider_valid) = safe_provider provider_value in
      seqE (modify (\<lambda>s. s\<lparr>xs_last_result := None, xs_last_published := False,
                          xs_result := XNone, xs_policy_emitted := False\<rparr>))
      (bindE (started_clock P) (\<lambda>started.
       bindE (get (\<lambda>s. safe_name name_value (xp_registered_names P (xs_world s)))) (\<lambda>name.
       bindE (operation_id cfg P call_correlation correlation_id) (\<lambda>cid.
       seqE (tool_call_event cfg P name raw cid pid)
       (seqE
          (try_finally
             (try_except (execute_body cfg P name name_value raw cid pid provider_valid)
               (\<lambda>_. bindE (get xs_policy_emitted) (\<lambda>emitted.
                seqE (if \<not> emitted
                      then policy_event cfg P name cid pid DENY DENY None (lit ''executor_error'')
                      else ret ())
                  (set_result (executor_error_result cid pid (Some name) ''executor_error'' None)))))
             (finish_call cfg P name cid pid started))
          (bindE (get xs_result) (\<lambda>r.
           case r of XResult x \<Rightarrow> ret x | _ \<Rightarrow> raise (OtherError (lit ''AssertionError'') [])))))))))"

section \<open>Skipping\<close>

fun skip_tail :: "str \<Rightarrow> bool" where
  "skip_tail s = list_all (\<lambda>c. (97 \<le> c \<and> c \<le> 122) \<or> (48 \<le> c \<and> c \<le> 57) \<or> c = 95) s"

text \<open>\<open>_SAFE_SKIP_REASON.fullmatch\<close>.\<close>

definition safe_skip_reason :: "str \<Rightarrow> bool" where
  "safe_skip_reason s =
     (case s of [] \<Rightarrow> False | c # r \<Rightarrow> 97 \<le> c \<and> c \<le> 122 \<and> skip_tail r \<and> length r \<le> 63)"

definition skip_result :: "str \<Rightarrow> str option \<Rightarrow> str \<Rightarrow> str \<Rightarrow> ToolResultStatus \<Rightarrow> ToolResult res" where
  "skip_result cid pid name reason status =
     timed_result cid pid status (lit ''tool call was not executed: '' @ reason)
       [(lit ''error_code'', JStr (lit ''not_executed'')), (lit ''reason'', JStr reason),
        (lit ''executed'', JBool False), (lit ''tool_name'', JStr name)] None"

text \<open>\<open>ToolExecutor.skip\<close>: the full life cycle of a call that is never dispatched.\<close>

definition skip ::
  "exec_config \<Rightarrow> 'w exec_ports \<Rightarrow> json \<Rightarrow> json \<Rightarrow> str \<Rightarrow> ToolResultStatus \<Rightarrow> id_arg option \<Rightarrow> id_arg option
     \<Rightarrow> ('w exec_state, ToolResult) effect" where
  "skip cfg P tool arguments reason status provider correlation_id =
     seqE (modify (\<lambda>s. s\<lparr>xs_last_result := None, xs_last_published := False\<rparr>))
     (if \<not> safe_skip_reason reason
      then raise (ValueError (lit ''skip reason must be a stable lowercase code''))
      else if status = ResSuccess
      then raise (ValueError (lit ''a skipped tool call cannot have success status''))
      else
        bindE (get (\<lambda>s. safe_name tool (xp_registered_names P (xs_world s)))) (\<lambda>name.
        bindE (case correlation_id of
                 None \<Rightarrow> new_correlation_id P
               | Some v \<Rightarrow>
                   (case new_identifier CorrelationId v of
                      Inl _ \<Rightarrow> new_correlation_id P
                    | Inr c \<Rightarrow> seqE (reserve c) (ret c))) (\<lambda>cid.
        let pid = fst (safe_provider provider); safe_reason = take 160 reason in
        seqE (tool_call_event cfg P name arguments cid pid)
        (seqE (policy_event cfg P name cid pid DENY DENY None
                 (take 160 (lit ''not_executed_'' @ safe_reason)))
        (bindE (lift_res (skip_result cid pid name safe_reason status)) (\<lambda>x.
         seqE (modify (\<lambda>s. s\<lparr>xs_last_result := Some x\<rparr>))
         (seqE (result_event cfg P name x)
         (seqE (modify (\<lambda>s. s\<lparr>xs_last_published := True\<rparr>)) (ret x))))))))) "

end
