(* ===== verification/ExecutorFacts.thy ===== *)
theory ExecutorFacts
  imports Executor
begin

text \<open>
  The contract of the executor's collaborators as a locale, and the life cycle it gives:
  one call event, one policy event and one result event under one correlation id, and a
  dispatch only behind an event that says so.
\<close>

section \<open>Results\<close>

lemma timed_result_ok:
  assumes "id_ok CorrelationId cid" "\<forall>p. pid = Some p \<longrightarrow> id_ok ProviderToolCallId p"
    and "\<forall>d. dur = Some d \<longrightarrow> 0 \<le> d"
  shows "\<exists>x. timed_result cid pid st txt m dur = Inr x \<and> ToolResult_ok x \<and> tr_correlation_id x = cid \<and>
    tr_provider_tool_call_id x = pid \<and> tr_status x = st"
  using assms by (auto simp: timed_result_def ToolResult_post_init_iff ToolResult_ok_def)

definition result_of :: "str \<Rightarrow> str option \<Rightarrow> ToolResult \<Rightarrow> bool" where
  "result_of cid pid x \<longleftrightarrow> ToolResult_ok x \<and> tr_correlation_id x = cid \<and> tr_provider_tool_call_id x = pid"

definition ids_ok :: "str \<Rightarrow> str option \<Rightarrow> bool" where
  "ids_ok cid pid \<longleftrightarrow> id_ok CorrelationId cid \<and> (\<forall>p. pid = Some p \<longrightarrow> id_ok ProviderToolCallId p)"

lemma made_results:
  assumes "ids_ok cid pid" "\<forall>d. dur = Some d \<longrightarrow> 0 \<le> d"
  shows "\<exists>x. protocol_result cid pid code msg name = Inr x \<and> result_of cid pid x"
    and "\<exists>x. executor_error_result cid pid name c dur = Inr x \<and> result_of cid pid x"
    and "\<exists>x. denied_result cid pid name c txt reason = Inr x \<and> result_of cid pid x"
    and "\<exists>x. skip_result cid pid nm reason st = Inr x \<and> result_of cid pid x \<and> tr_status x = st"
  using assms timed_result_ok [of cid pid] timed_result_ok [of cid pid None] timed_result_ok [of cid pid dur]
  unfolding protocol_result_def executor_error_result_def denied_result_def skip_result_def
    result_of_def ids_ok_def by blast+

lemma reassert_ok:
  assumes "ids_ok cid pid" "ToolResult_ok r" "0 \<le> elapsed"
  shows "\<exists>x. reassert r cid pid elapsed = Inr x \<and> result_of cid pid x \<and> tr_status x = tr_status r \<and>
    tr_text x = tr_text r \<and> tr_metadata x = tr_metadata r"
proof -
  let ?r1 = "if tr_correlation_id r \<noteq> cid \<or> tr_provider_tool_call_id r \<noteq> pid
      then r\<lparr>tr_correlation_id := cid, tr_provider_tool_call_id := pid\<rparr> else r"
  have ok1: "ToolResult_ok ?r1" using assms by (simp add: ToolResult_ok_def ids_ok_def)
  have r1: "(if tr_correlation_id r \<noteq> cid \<or> tr_provider_tool_call_id r \<noteq> pid
      then ToolResult_post_init (r\<lparr>tr_correlation_id := cid, tr_provider_tool_call_id := pid\<rparr>)
      else Inr r) = Inr ?r1"
    using ok1 by (simp add: ToolResult_post_init_iff split: if_splits)
  have ok2: "ToolResult_ok (?r1\<lparr>tr_duration_seconds := Some (Finite (max 0 elapsed))\<rparr>)"
    using ok1 by (simp add: ToolResult_ok_def)
  then have "ToolResult_post_init (?r1\<lparr>tr_duration_seconds := Some (Finite (max 0 elapsed))\<rparr>)
      = Inr (?r1\<lparr>tr_duration_seconds := Some (Finite (max 0 elapsed))\<rparr>)"
    by (simp add: ToolResult_post_init_iff)
  then show ?thesis using ok1 ok2 unfolding reassert_def r1 bindR_simps
    by (auto simp: result_of_def)
qed

lemma scrub_ok:
  assumes "result_of cid pid r"
  shows "\<exists>x. scrub cfg name r = Inr x \<and> result_of cid pid x \<and> tr_status x = tr_status r"
proof -
  have "ToolResult_ok (r\<lparr>tr_text := t, tr_metadata := m\<rparr>)" for t m
    using assms by (auto simp: result_of_def ToolResult_ok_def)
  then have "ToolResult_post_init (r\<lparr>tr_text := t, tr_metadata := m\<rparr>) = Inr (r\<lparr>tr_text := t, tr_metadata := m\<rparr>)"
    and "ToolResult_ok (r\<lparr>tr_text := t, tr_metadata := m\<rparr>)" for t m
    by (simp_all add: ToolResult_post_init_iff)
  then show ?thesis using assms by (auto simp: scrub_def result_of_def)
qed

definition config_ok :: "exec_config \<Rightarrow> bool" where
  "config_ok cfg \<longleftrightarrow> id_ok AgentId (xc_agent_id cfg) \<and> (\<forall>l. xc_output_limit cfg = Some l \<longrightarrow> 0 \<le> l)"

lemma project_back_ok:
  assumes "result_of cid pid r" "\<forall>l. limit = Some l \<longrightarrow> 0 \<le> l"
  shows "\<exists>p x. ToolResultProjection_from_result r limit = Inr p \<and> to_tool_result p = Inr x \<and>
    result_of cid pid x \<and> tr_status x = tr_status r"
proof -
  obtain p where p: "ToolResultProjection_from_result r limit = Inr p"
    "\<not> tp_truncated p \<longrightarrow> tp_text p = tr_text r \<and> tp_metadata p = tr_metadata r
        \<and> tp_original_length p = tr_original_length r"
    "tp_truncated p \<longrightarrow> (\<exists>n. tp_original_length p = Some n \<and> 0 \<le> n)"
    using projection_ok [OF _ assms(2), of r] assms(1) unfolding result_of_def by metis
  note same = projection_fields [OF p(1)]
  have "\<forall>n. tp_original_length p = Some n \<longrightarrow> 0 \<le> n"
    using p(2,3) assms(1) unfolding result_of_def ToolResult_ok_def by (cases "tp_truncated p") auto
  then show ?thesis using p(1) same assms(1)
    by (auto simp: to_tool_result_def ToolResult_post_init_iff ToolResult_ok_def result_of_def)
qed

text \<open>Whatever the registry returned, the normalized result belongs to the call.\<close>

lemma normalize_result_ok:
  assumes "ids_ok cid pid" "config_ok cfg" "0 \<le> elapsed" "\<And>r. v = XResult r \<Longrightarrow> ToolResult_ok r"
  shows "\<exists>x. normalize_result cfg v cid pid name elapsed = Inr x \<and> result_of cid pid x"
proof (cases v)
  case (XResult r0)
  obtain r1 where r1: "reassert r0 cid pid elapsed = Inr r1" "result_of cid pid r1"
    using reassert_ok [OF assms(1) assms(4) [OF XResult] assms(3)] by blast
  obtain r2 where r2: "scrub cfg name r1 = Inr r2" "result_of cid pid r2"
    using scrub_ok [OF r1(2)] by blast
  let ?r3 = "r2\<lparr>tr_metadata := json_safe_obj (tr_metadata r2)\<rparr>"
  have ok3: "result_of cid pid ?r3" using r2(2) by (auto simp: result_of_def ToolResult_ok_def)
  then have r3: "(if json_safe_obj (tr_metadata r2) \<noteq> tr_metadata r2 then ToolResult_post_init ?r3 else Inr r2)
      = Inr (if json_safe_obj (tr_metadata r2) \<noteq> tr_metadata r2 then ?r3 else r2)"
    by (simp add: ToolResult_post_init_iff result_of_def)
  show ?thesis
  proof (cases "xc_output_limit cfg")
    case None
    then show ?thesis using XResult r1 r2 r3 ok3 by (simp add: normalize_result_def)
  next
    case (Some l)
    then have "\<forall>l. xc_output_limit cfg = Some l \<longrightarrow> 0 \<le> l" using assms(2) by (simp add: config_ok_def)
    from project_back_ok [OF _ this, of cid pid] show ?thesis
      using XResult r1 r2 r3 ok3 Some by (simp add: normalize_result_def) (metis bindR_simps(2))
  qed
qed (use made_results [OF assms(1), of "Some elapsed"] assms(3) in \<open>simp_all add: normalize_result_def\<close>)

text \<open>The decision of a policy event is readable behind its redaction.\<close>

lemma plain_keys [simp]:
  "\<not> executor_sensitive_key (lit ''tool_name'')" "\<not> executor_sensitive_key (lit ''name'')"
  "\<not> executor_sensitive_key (lit ''requested'')" "\<not> executor_sensitive_key (lit ''requested_decision'')"
  "\<not> executor_sensitive_key (lit ''decision'')" "\<not> executor_sensitive_key (lit ''action'')"
  "\<not> executor_sensitive_key (lit ''approved'')" "\<not> executor_sensitive_key (lit ''status'')"
  by (simp_all add: executor_sensitive_key_def has_joined_def has_word_def lit_def fold_char_def)

text \<open>What a policy event must say for a dispatch to follow it: the effective decision is to
  allow, and either the policy allowed the call itself or it asked and the user agreed.\<close>

definition permits :: "jobj \<Rightarrow> bool" where
  "permits d \<longleftrightarrow>
     dget d (lit ''decision'') = Some (JStr (lit ''allow'')) \<and>
     (dget d (lit ''requested'') = Some (JStr (lit ''allow'')) \<or>
      dget d (lit ''requested'') = Some (JStr (lit ''ask'')) \<and> dget d (lit ''approved'') = Some (JBool True))"

lemma permits_payload:
  "permits (json_safe_obj (policy_payload name r d a why)) \<longleftrightarrow>
     d = ALLOW \<and> (r = ALLOW \<or> r = ASK \<and> a = Some True)"
proof -
  have "decision_str ALLOW = lit ''allow''" "decision_str ASK = lit ''ask''" by simp_all
  then show ?thesis
    by (cases a) (simp_all add: permits_def policy_payload_def json_safe_obj_def flip: decision_str_inject)
qed

lemma result_status_readable:
  "dget (json_safe_obj (result_payload name p)) (lit ''status'') = Some (JStr (tool_status_str (tp_status p)))"
  by (simp add: result_payload_def json_safe_obj_def)

lemma safe_provider_ok: "safe_provider v = (pid, valid) \<Longrightarrow>
  (\<forall>p. pid = Some p \<longrightarrow> id_ok ProviderToolCallId p) \<and> (\<not> valid \<longrightarrow> pid = None)"
  by (auto simp: safe_provider_def dest: new_identifier_ok split: option.splits sum.splits)

lemma context_ids: "ToolExecutionContext_ok c \<Longrightarrow> ids_ok (cx_correlation_id c) (cx_provider_tool_call_id c)"
  by (simp add: ToolExecutionContext_ok_def ids_ok_def)

text \<open>The life cycle that one returned call leaves in the log.\<close>

definition lifecycle ::
  "('w \<Rightarrow> ToolLifecycleEvent list) \<Rightarrow> ('w \<Rightarrow> nat) \<Rightarrow> ToolResult \<Rightarrow> 'w \<Rightarrow> 'w \<Rightarrow> bool" where
  "lifecycle lg dc x w w' \<longleftrightarrow> ToolResult_ok x \<and>
     (\<exists>c p r. lg w' = lg w @ [c, p, r] \<and>
        map le_type [c, p, r] = [TOOL_CALL, POLICY_DECISION, TOOL_RESULT] \<and>
        (\<forall>e\<in>{c, p, r}. le_correlation_id e = tr_correlation_id x \<and>
            le_provider_tool_call_id e = tr_provider_tool_call_id x) \<and>
        dget (le_payload r) (lit ''status'') = Some (JStr (tool_status_str (tr_status x))) \<and>
        (dc w' = dc w \<or> dc w' = Suc (dc w) \<and> permits (le_payload p)))"

text \<open>What an interrupt leaves: the call is closed in the log all the same, and a dispatch still
  has its permission before it.\<close>

definition interrupted ::
  "('w \<Rightarrow> ToolLifecycleEvent list) \<Rightarrow> ('w \<Rightarrow> nat) \<Rightarrow> 'w \<Rightarrow> 'w \<Rightarrow> bool" where
  "interrupted lg dc w w' \<longleftrightarrow>
     (\<exists>c ps r. lg w' = lg w @ c # ps @ [r] \<and> le_type c = TOOL_CALL \<and> le_type r = TOOL_RESULT \<and>
        length ps \<le> 1 \<and> (\<forall>e\<in>set ps. le_type e = POLICY_DECISION) \<and>
        (\<forall>e\<in>{c, r} \<union> set ps. le_correlation_id e = le_correlation_id c) \<and>
        (dc w' = dc w \<or> dc w' = Suc (dc w) \<and> (\<exists>p. ps = [p] \<and> permits (le_payload p))))"

section \<open>The collaborators' contract\<close>

lemma identifier_pattern_append:
  "identifier_pattern p \<Longrightarrow> list_all id_char h \<Longrightarrow> length p + length h \<le> 128 \<Longrightarrow> identifier_pattern (p @ h)"
  by (auto simp: identifier_pattern_def split: list.splits)

text \<open>\<open>log\<close> is what the publisher has recorded and \<open>dispatched\<close> counts the calls that
  reached the registry's \<open>execute\<close>.  Publishing records the event; the other collaborators
  record nothing, and only the dispatch counts.  A uuid text is hexadecimal, and the factory
  and the clock raise no interrupt.\<close>

locale tool_ports =
  fixes P :: "'w exec_ports" and log :: "'w \<Rightarrow> ToolLifecycleEvent list" and dispatched :: "'w \<Rightarrow> nat"
  assumes publish: "\<exists>pub. xp_publish P = Some pub \<and>
      (\<forall>ev w. log (fst (pub ev w)) = log w @ [ev] \<and> snd (pub ev w) = Inr () \<and>
              dispatched (fst (pub ev w)) = dispatched w)"
    and new_id: "wp (xp_new_id P k) (\<lambda>_ w'. log w' = log w \<and> dispatched w' = dispatched w)
      (\<lambda>e w'. is_exception e \<and> log w' = log w \<and> dispatched w' = dispatched w) w"
    and uuid: "xp_uuid P pre taken w = (w', h) \<Longrightarrow>
      list_all id_char h \<and> length h \<le> 64 \<and> log w' = log w \<and> dispatched w' = dispatched w"
    and clock: "wp (xp_clock P) (\<lambda>_ w'. log w' = log w \<and> dispatched w' = dispatched w)
      (\<lambda>e w'. is_exception e \<and> log w' = log w \<and> dispatched w' = dispatched w) w"
    and timestamp: "xp_timestamp P w = (w', t) \<Longrightarrow> log w' = log w \<and> dispatched w' = dispatched w"
    and validate: "wp (xp_validate P n a) (\<lambda>_ w'. log w' = log w \<and> dispatched w' = dispatched w)
      (\<lambda>_ w'. log w' = log w \<and> dispatched w' = dispatched w) w"
    and policy: "wp (xp_policy P n d c) (\<lambda>_ w'. log w' = log w \<and> dispatched w' = dispatched w)
      (\<lambda>_ w'. log w' = log w \<and> dispatched w' = dispatched w) w"
    and approval: "xp_approval P = Some ask \<Longrightarrow>
      wp (ask n d c) (\<lambda>_ w'. log w' = log w \<and> dispatched w' = dispatched w)
        (\<lambda>_ w'. log w' = log w \<and> dispatched w' = dispatched w) w"
    and run: "ToolExecutionContext_ok c \<Longrightarrow> wp (xp_execute P n d c)
      (\<lambda>v w'. log w' = log w \<and> dispatched w' = Suc (dispatched w) \<and> (\<forall>r. v = XResult r \<longrightarrow> ToolResult_ok r))
      (\<lambda>_ w'. log w' = log w \<and> dispatched w' = Suc (dispatched w)) w"
begin

text \<open>A step that records nothing, dispatches nothing and keeps the locals of \<open>execute\<close>.\<close>

definition same :: "'w exec_state \<Rightarrow> 'w exec_state \<Rightarrow> bool" where
  "same s s' \<longleftrightarrow> log (xs_world s') = log (xs_world s) \<and> dispatched (xs_world s') = dispatched (xs_world s) \<and>
     xs_result s' = xs_result s \<and> xs_policy_emitted s' = xs_policy_emitted s \<and>
     xs_last_result s' = xs_last_result s"

lemma same_refl [simp]: "same s s"
  by (simp add: same_def)

lemma same_trans: "same s s' \<Longrightarrow> same s' s'' \<Longrightarrow> same s s''"
  by (simp add: same_def)

lemma same_world: "log w = log (xs_world s) \<Longrightarrow> dispatched w = dispatched (xs_world s) \<Longrightarrow> same s (s\<lparr>xs_world := w\<rparr>)"
  by (simp add: same_def)

lemma same_updates [simp]:
  "same s (s'\<lparr>xs_event_ids := i\<rparr>) = same s s'" "same s (s'\<lparr>xs_issued := j\<rparr>) = same s s'"
  "same s (s'\<lparr>xs_errors := e\<rparr>) = same s s'"
  by (simp_all add: same_def)

text \<open>The identifiers the executor makes are well formed, and making one is quiet.\<close>

lemma wp_world_quiet:
  assumes "wp m (\<lambda>_ w'. log w' = log (xs_world s) \<and> dispatched w' = dispatched (xs_world s))
      (\<lambda>e w'. X e \<and> log w' = log (xs_world s) \<and> dispatched w' = dispatched (xs_world s)) (xs_world s)"
    and "same s0 s"
  shows "wp (world m) (\<lambda>_. same s0) (\<lambda>e s'. X e \<and> same s0 s') s"
  unfolding wp_zoom by (rule wp_mono [OF assms(1)]) (use assms(2) in \<open>auto intro!: same_trans [OF assms(2)] same_world\<close>)

lemma wp_uuid:
  "same s0 s \<Longrightarrow> wp (world (total (xp_uuid P pre taken)))
     (\<lambda>h s'. same s0 s' \<and> xs_event_ids s' = xs_event_ids s \<and> xs_issued s' = xs_issued s \<and>
        list_all id_char h \<and> length h \<le> 64) E s"
  unfolding wp_zoom wp_total using uuid
  by (auto intro!: same_trans [of s0 s] same_world split: prod.split)

lemma wp_factory: "same s0 s \<Longrightarrow> wp (world (xp_new_id P k)) (\<lambda>_. same s0) (\<lambda>e s'. is_exception e \<and> same s0 s') s"
  by (rule wp_world_quiet [OF new_id])

lemma wp_event_id: "same s0 s \<Longrightarrow> wp (event_id P) (\<lambda>_. same s0) E s"
  unfolding event_id_def
  by (rule wp_tryI [OF wp_bindI, OF wp_factory])
     (auto simp: wp_lift_res wp_ret new_identifier_def intro!: wp_bindI [OF wp_uuid] split: sum.split)

lemma wp_suffixed_event_id: "same s0 s \<Longrightarrow> wp (suffixed_event_id P c k n) (\<lambda>_. same s0) E s"
  by (induction n arbitrary: k s) (auto simp: wp_ret wp_bindE wp_get wp_seqE wp_modify split: sum.split)

lemma wp_new_event_id: "same s0 s \<Longrightarrow> wp (new_event_id P) (\<lambda>_. same s0) E s"
  unfolding new_event_id_def
  by (rule wp_bindI [OF wp_event_id], assumption)
     (auto simp: wp_bindE [of "get _"] wp_get wp_seqE wp_modify wp_ret intro!: wp_bindI [OF wp_suffixed_event_id]
        wp_bindI [OF wp_uuid] split: option.split)

lemma uuid_identifier:
  "list_all id_char h \<Longrightarrow> length h \<le> 64 \<Longrightarrow> identifier_pattern (lit ''correlation_'' @ h)"
  by (rule identifier_pattern_append) (auto simp: identifier_pattern_def lit_def id_char_def is_alnum_def)

lemma wp_reserved:
  "same s0 s \<Longrightarrow> id_ok CorrelationId c \<Longrightarrow>
   wp (seqE (reserve c) (ret c)) (\<lambda>c s'. id_ok CorrelationId c \<and> same s0 s' \<and> c \<in> xs_issued s') E s"
  by (simp add: reserve_def wp_seqE wp_modify wp_ret)

lemma wp_fresh_correlation:
  "same s0 s \<Longrightarrow> wp (bindE (world (total (xp_uuid P (lit ''correlation_'') taken))) (\<lambda>h. ret (lit ''correlation_'' @ h)))
     (\<lambda>c s'. id_ok CorrelationId c \<and> same s0 s') E s"
  by (rule wp_bindI [OF wp_uuid], assumption) (auto simp: wp_ret id_ok_def intro: uuid_identifier)

lemma wp_correlation_attempts:
  "same s0 s \<Longrightarrow>
   wp (correlation_attempts P k n) (\<lambda>c s'. id_ok CorrelationId c \<and> same s0 s' \<and> c \<in> xs_issued s') E s"
proof (induction n arbitrary: k s)
  case 0
  then show ?case
    by (auto simp: wp_bindE [of "get _"] wp_get intro!: wp_bindI [OF wp_uuid] wp_reserved)
       (auto simp: id_ok_def intro: uuid_identifier)
next
  case (Suc n)
  have retry: "wp (case new_identifier CorrelationId (PlainStr x) of
        Inr c' \<Rightarrow> ret c'
      | Inl _ \<Rightarrow> bindE (world (total (xp_uuid P (lit ''correlation_'') {}))) (\<lambda>h. ret (lit ''correlation_'' @ h)))
      (\<lambda>c s'. id_ok CorrelationId c \<and> same s0 s') E t" if "same s0 t" for x t
    using that by (auto simp: wp_ret dest: new_identifier_ok intro: wp_fresh_correlation split: sum.split)
  have made: "wp (bindE (world (xp_new_id P (lit ''correlation''))) (\<lambda>i. lift_res (new_identifier CorrelationId (PlainStr i))))
      (\<lambda>c s'. id_ok CorrelationId c \<and> same s0 s') (\<lambda>e s'. is_exception e \<and> same s0 s') s"
    by (rule wp_bindI [OF wp_factory [OF Suc.prems]])
       (auto simp: wp_lift_res new_identifier_def id_ok_def split: sum.split)
  show ?case
    unfolding correlation_attempts.simps
    by (rule wp_bindI [OF wp_tryI [OF made]])
       (auto simp: wp_bindE [of "get _"] wp_get intro!: wp_fresh_correlation wp_reserved wp_bindI [OF retry] Suc.IH)
qed

lemma wp_operation_id:
  "same s0 s \<Longrightarrow>
   wp (operation_id cfg P c v) (\<lambda>c s'. id_ok CorrelationId c \<and> same s0 s' \<and> c \<in> xs_issued s') E s"
  unfolding operation_id_def new_correlation_id_def
  by (auto simp: Let_def wp_bindE [of "get _"] wp_get dest: new_identifier_ok
      intro!: wp_correlation_attempts wp_reserved split: option.split sum.split)

text \<open>One event is recorded, with the type, the ids and the redacted payload it was given.\<close>

definition event_of :: "EventType \<Rightarrow> str \<Rightarrow> str option \<Rightarrow> jobj \<Rightarrow> ToolLifecycleEvent \<Rightarrow> bool" where
  "event_of ty cid pid payload e \<longleftrightarrow> le_type e = ty \<and> le_correlation_id e = cid \<and>
     le_provider_tool_call_id e = pid \<and> le_payload e = json_safe_obj payload"

definition kept :: "'w exec_state \<Rightarrow> 'w exec_state \<Rightarrow> bool" where
  "kept s s' \<longleftrightarrow> dispatched (xs_world s') = dispatched (xs_world s) \<and>
     xs_result s' = xs_result s \<and> xs_policy_emitted s' = xs_policy_emitted s \<and>
     xs_last_result s' = xs_last_result s"

lemma wp_emit:
  "wp (emit cfg P ty cid pid payload)
     (\<lambda>_ s'. kept s s' \<and> (\<exists>e. event_of ty cid pid payload e \<and> log (xs_world s') = log (xs_world s) @ [e])) E s"
proof -
  obtain pub where pub: "xp_publish P = Some pub"
    "\<And>ev w. log (fst (pub ev w)) = log w @ [ev] \<and> snd (pub ev w) = Inr () \<and>
              dispatched (fst (pub ev w)) = dispatched w"
    using publish by blast
  have out: "wp (publish cfg P e)
      (\<lambda>_ s'. kept s s' \<and> (\<exists>e. event_of ty cid pid payload e \<and> log (xs_world s') = log (xs_world s) @ [e])) E t"
    if "same s t" "event_of ty cid pid payload e" for e t
  proof -
    obtain w' where w': "pub e (xs_world t) = (w', Inr ())" "log w' = log (xs_world t) @ [e]"
      "dispatched w' = dispatched (xs_world t)"
      using pub(2) [of e "xs_world t"] by (cases "pub e (xs_world t)") auto
    then have "publish cfg P e t = (t\<lparr>xs_world := w'\<rparr>, Inr ())"
      using pub(1) by (simp add: publish_def try_except_def zoom_def)
    then show ?thesis using that w' by (auto simp: wp_def same_def kept_def)
  qed
  have made: "wp (make_event cfg P ty cid pid payload) (\<lambda>e t. same s t \<and> event_of ty cid pid payload e) (\<lambda>_ _. False) s"
    unfolding make_event_def
    by (rule wp_bindI [OF wp_new_event_id [OF same_refl]])
       (use timestamp in \<open>auto simp: wp_bindE wp_zoom wp_total wp_ret event_of_def
          intro!: same_trans [OF _ same_world] split: prod.split\<close>)
  show ?thesis
    unfolding emit_def
    by (rule wp_bindI [OF wp_tryI [OF wp_bindI [OF made]]])
       (auto simp: wp_ret intro: out)
qed

text \<open>The state of a call before and after its policy event.\<close>

definition started :: "'w exec_state \<Rightarrow> bool" where
  "started s \<longleftrightarrow> xs_result s = XNone \<and> \<not> xs_policy_emitted s"

definition result_good :: "'w exec_state \<Rightarrow> bool" where
  "result_good s \<longleftrightarrow> (\<forall>r. xs_result s = XResult r \<longrightarrow> ToolResult_ok r)"

definition decision_of :: "str \<Rightarrow> str option \<Rightarrow> 'w exec_state \<Rightarrow> 'w exec_state \<Rightarrow> ToolLifecycleEvent \<Rightarrow> bool" where
  "decision_of cid pid s0 s e \<longleftrightarrow>
     le_type e = POLICY_DECISION \<and> le_correlation_id e = cid \<and> le_provider_tool_call_id e = pid \<and>
     (dispatched (xs_world s) = dispatched (xs_world s0) \<or>
      dispatched (xs_world s) = Suc (dispatched (xs_world s0)) \<and> permits (le_payload e))"

definition closed :: "str \<Rightarrow> str option \<Rightarrow> 'w exec_state \<Rightarrow> 'w exec_state \<Rightarrow> bool" where
  "closed cid pid s0 s \<longleftrightarrow> result_good s \<and>
     (\<exists>e. log (xs_world s) = log (xs_world s0) @ [e] \<and> decision_of cid pid s0 s e)"

definition decided :: "str \<Rightarrow> str option \<Rightarrow> 'w exec_state \<Rightarrow> 'w exec_state \<Rightarrow> bool" where
  "decided cid pid s0 s \<longleftrightarrow> closed cid pid s0 s \<and> xs_policy_emitted s"

lemma decided_closed: "decided cid pid s0 s \<Longrightarrow> closed cid pid s0 s"
  by (simp add: decided_def)

lemma wp_set_result:
  "\<exists>x. r = Inr x \<and> result_of cid pid x \<Longrightarrow>
   wp (set_result r) (\<lambda>_ s'. \<exists>x. result_of cid pid x \<and> s' = s\<lparr>xs_result := XResult x\<rparr>) E s"
  by (auto simp: set_result_def wp_bindE wp_lift_res wp_modify)

lemma closed_result:
  "closed cid pid s0 s \<Longrightarrow> result_of c p x \<Longrightarrow> closed cid pid s0 (s\<lparr>xs_result := XResult x\<rparr>)"
  "decided cid pid s0 s \<Longrightarrow> result_of c p x \<Longrightarrow> decided cid pid s0 (s\<lparr>xs_result := XResult x\<rparr>)"
  by (auto simp: closed_def decided_def decision_of_def result_good_def result_of_def)

lemma wp_policy_event:
  assumes "same s0 s" "started s0"
  shows "wp (policy_event cfg P name cid pid r d a why)
     (\<lambda>_ s'. closed cid pid s0 s' \<and> dispatched (xs_world s') = dispatched (xs_world s0) \<and> xs_result s' = XNone \<and>
       (\<exists>e. log (xs_world s') = log (xs_world s0) @ [e] \<and> event_of POLICY_DECISION cid pid (policy_payload name r d a why) e))
     E s"
  unfolding policy_event_def
  by (rule wp_mono [OF wp_emit])
     (use assms in \<open>auto simp: kept_def same_def closed_def decision_of_def result_good_def event_of_def started_def\<close>)

lemma wp_refuse:
  assumes "same s0 s" "started s0" "\<exists>x. r = Inr x \<and> result_of cid pid x"
  shows "wp (refuse cfg P name cid pid why r) (\<lambda>_. decided cid pid s0) E s"
  unfolding refuse_def mark_policy_def
  apply (rule wp_seqI [OF wp_policy_event [OF assms(1,2)]])
  apply (simp add: wp_seqE wp_modify)
  apply (rule wp_mono [OF wp_set_result [OF assms(3)]])
   apply (auto simp: decided_def closed_def decision_of_def result_good_def result_of_def)
  done

lemma wp_approval:
  "same s0 s \<Longrightarrow>
   wp (approval cfg P name parsed c)
     (\<lambda>v s'. same s0 s' \<and> (fst v = ALLOW \<longrightarrow> fst (snd v) = Some True)) (\<lambda>_. same s0) s"
proof -
  assume s: "same s0 s"
  have "wp (bindE (world (ask name parsed c)) (\<lambda>v.
          case v of
            JBool b \<Rightarrow> ret (if b then ALLOW else DENY, Some b, if b then lit ''approved'' else lit ''user_rejected'')
          | _ \<Rightarrow> raise (TypeError (lit ''approval response must be a boolean''))))
        (\<lambda>v s'. same s0 s' \<and> (fst v = ALLOW \<longrightarrow> fst (snd v) = Some True)) (\<lambda>_. same s0) s"
    if "xp_approval P = Some ask" for ask
    by (rule wp_bindI [OF wp_world_quiet [where X = "\<lambda>_. True", simplified, OF approval [OF that] s]])
       (auto simp: wp_ret wp_raise split: json.split)
  then show ?thesis
    unfolding approval_def using s
    by (auto simp: wp_ret intro!: wp_tryI split: option.split)
qed

lemma wp_dispatch:
  assumes ctx: "ToolExecutionContext_ok c" and "closed cid pid s0 s" "xs_policy_emitted s" "dispatched (xs_world s) = dispatched (xs_world s0)"
    and "log (xs_world s) = log (xs_world s0) @ [e]" "permits (le_payload e)"
  shows "wp (bindE (world (xp_execute P tool parsed c)) (\<lambda>v. modify (\<lambda>s. s\<lparr>xs_result := v\<rparr>)))
     (\<lambda>_. decided cid pid s0) (\<lambda>_. decided cid pid s0) s"
  unfolding wp_bindE wp_zoom wp_modify
  by (rule wp_mono [OF run [OF ctx]])
     (use assms in \<open>auto simp: decided_def closed_def decision_of_def result_good_def\<close>)

text \<open>The body of the call leaves its policy event behind, unless it is interrupted before.\<close>

lemma wp_enact:
  assumes t: "same s0 t" "started s0" and ctx: "ToolExecutionContext_ok c"
    and ask: "fst outcome = ALLOW \<Longrightarrow> requested = ALLOW \<or> requested = ASK \<and> fst (snd outcome) = Some True"
  shows "wp (enact cfg P name tool parsed c requested outcome)
    (\<lambda>_. decided (cx_correlation_id c) (cx_provider_tool_call_id c) s0)
    (\<lambda>_. decided (cx_correlation_id c) (cx_provider_tool_call_id c) s0) t"
proof -
  let ?cid = "cx_correlation_id c" and ?pid = "cx_provider_tool_call_id c"
  note ok = context_ids [OF ctx]
  obtain decision approved reason where o: "outcome = (decision, approved, reason)" by (cases outcome)
  show ?thesis
    unfolding enact_def mark_policy_def o prod.case
  proof (rule wp_seqI [OF wp_policy_event [OF t]], clarsimp simp: wp_seqE wp_modify, intro conjI impI)
    fix s' e
    assume s': "closed ?cid ?pid s0 s'" "dispatched (xs_world s') = dispatched (xs_world s0)"
      "log (xs_world s') = log (xs_world s0) @ [e]"
      "event_of POLICY_DECISION ?cid ?pid (policy_payload name requested decision approved reason) e"
    let ?s = "s'\<lparr>xs_policy_emitted := True\<rparr>"
    have closed: "closed ?cid ?pid s0 ?s"
      using s'(1) by (simp add: closed_def decision_of_def result_good_def)
    show "wp (set_result (denied_result ?cid ?pid (Some name) ''policy_denied'' (denied_text reason) reason))
        (\<lambda>_. decided ?cid ?pid s0) (\<lambda>_. decided ?cid ?pid s0) ?s"
      by (rule wp_mono [OF wp_set_result [OF made_results(3) [OF ok, of None]]])
         (auto simp: decided_def intro: closed_result(1) [OF closed])
    show "wp (bindE (world (xp_execute P tool parsed c)) (\<lambda>v. modify (\<lambda>s. s\<lparr>xs_result := v\<rparr>)))
        (\<lambda>_. decided ?cid ?pid s0) (\<lambda>_. decided ?cid ?pid s0) ?s" if "decision = ALLOW"
      by (rule wp_mono [OF wp_dispatch [where s = ?s and e = e, OF ctx closed]])
         (use that ask o s' in \<open>auto simp: event_of_def permits_payload\<close>)
  qed
qed

lemma wp_decide_and_run:
  assumes s: "same s0 s" "started s0" and ctx: "ToolExecutionContext_ok c"
  shows "wp (decide_and_run cfg P name tool parsed c)
    (\<lambda>_. decided (cx_correlation_id c) (cx_provider_tool_call_id c) s0)
    (\<lambda>_ s'. same s0 s' \<or> decided (cx_correlation_id c) (cx_provider_tool_call_id c) s0 s') s"
  unfolding decide_and_run_def
proof (rule wp_bindI)
  let ?E = "\<lambda>_ s'. same s0 s' \<or> decided (cx_correlation_id c) (cx_provider_tool_call_id c) s0 s'"
  show "wp (world (xp_policy P tool parsed c)) (\<lambda>_. same s0) ?E s"
    by (rule wp_world_quiet [where X = "\<lambda>_. True", simplified, OF policy s(1), THEN wp_mono]) auto
  fix v t
  assume t: "same s0 t"
  have ask: "wp (if r = ASK then approval cfg P tool parsed c else ret (r, None, policy_reason r))
      (\<lambda>v s'. same s0 s' \<and> (fst v = ALLOW \<longrightarrow> r = ALLOW \<or> r = ASK \<and> fst (snd v) = Some True)) ?E t" for r
    using t by (auto simp: wp_ret intro: wp_approval [THEN wp_mono])
  show "wp (case coerce_policy_decision v of
       None \<Rightarrow> raise (ValueError (lit ''invalid policy decision''))
     | Some requested \<Rightarrow>
         bindE (if requested = ASK then approval cfg P tool parsed c
                else ret (requested, None, policy_reason requested))
           (enact cfg P name tool parsed c requested))
     (\<lambda>_. decided (cx_correlation_id c) (cx_provider_tool_call_id c) s0) ?E t"
  proof (cases "coerce_policy_decision v")
    case None
    then show ?thesis using t by (simp add: wp_raise)
  next
    case (Some r)
    show ?thesis unfolding Some option.case
      by (rule wp_bindI [OF ask]) (auto intro!: wp_enact [THEN wp_mono] s(2) ctx)
  qed
qed

lemma wp_guarded_run:
  assumes s: "same s0 s" "started s0" and ctx: "ToolExecutionContext_ok c"
  shows "wp (guarded_run cfg P name tool parsed c)
    (\<lambda>_. decided (cx_correlation_id c) (cx_provider_tool_call_id c) s0)
    (\<lambda>_ s'. same s0 s' \<or> decided (cx_correlation_id c) (cx_provider_tool_call_id c) s0 s') s"
  unfolding guarded_run_def
proof (rule wp_tryI [OF wp_decide_and_run [OF s ctx]])
  note ok = context_ids [OF ctx]
  fix e s'
  assume s': "same s0 s' \<or> decided (cx_correlation_id c) (cx_provider_tool_call_id c) s0 s'"
  show "wp (bindE (get xs_policy_emitted) (\<lambda>emitted.
        if \<not> emitted
        then refuse cfg P name (cx_correlation_id c) (cx_provider_tool_call_id c) (lit ''policy_error'')
               (denied_result (cx_correlation_id c) (cx_provider_tool_call_id c) (Some name)
                  ''policy_error'' (lit ''tool execution denied'') (lit ''policy_error''))
        else set_result (executor_error_result (cx_correlation_id c) (cx_provider_tool_call_id c)
                           (Some name) ''executor_error'' None)))
    (\<lambda>_. decided (cx_correlation_id c) (cx_provider_tool_call_id c) s0)
    (\<lambda>_ s'. same s0 s' \<or> decided (cx_correlation_id c) (cx_provider_tool_call_id c) s0 s') s'"
  proof (cases "xs_policy_emitted s'")
    case True
    then have "decided (cx_correlation_id c) (cx_provider_tool_call_id c) s0 s'"
      using s' s(2) by (auto simp: same_def started_def)
    then show ?thesis using True
      by (auto simp: wp_bindE wp_get intro: closed_result(2) intro!: wp_mono [OF wp_set_result [OF made_results(2) [OF ok, of None]]])
  next
    case False
    then have "same s0 s'" using s' by (auto simp: decided_def)
    then show ?thesis using False s(2)
      by (auto simp: wp_bindE wp_get intro!: wp_refuse made_results(3) [OF ok, of None])
  qed
qed

lemma wp_validate_call:
  assumes s: "same s0 s" "started s0" and ok: "ids_ok cid pid"
  shows "wp (validate_call cfg P name tool arguments cid pid)
    (\<lambda>v s'. case v of None \<Rightarrow> decided cid pid s0 s' | Some _ \<Rightarrow> same s0 s') (\<lambda>_. same s0) s"
  unfolding validate_call_def
  by (rule wp_tryI [OF wp_bindI [OF wp_world_quiet [where X = "\<lambda>_. True", simplified, OF validate s(1)]]])
     (use s(2) in \<open>auto simp: wp_ret wp_raise intro!: wp_seqI [OF wp_refuse] made_results [OF ok, of None] split: json.split\<close>)

lemma wp_execute_body:
  assumes s: "same s0 s" "started s0" and ok: "ids_ok cid pid" and cfg: "config_ok cfg"
    and none: "\<not> valid \<longrightarrow> pid = None"
  shows "wp (execute_body cfg P name v arguments cid pid valid)
    (\<lambda>_. decided cid pid s0) (\<lambda>_ s'. same s0 s' \<or> decided cid pid s0 s') s"
proof -
  have ctx: "ToolExecutionContext_ok (execution_context cfg cid pid)"
    using ok cfg by (simp add: ToolExecutionContext_ok_def execution_context_def ids_ok_def config_ok_def)
  have run: "wp (bindE (validate_call cfg P name (json_str v) arguments cid pid) (\<lambda>parsed.
        case parsed of
          None \<Rightarrow> ret ()
        | Some d \<Rightarrow> guarded_run cfg P name (json_str v) d (execution_context cfg cid pid)))
     (\<lambda>_. decided cid pid s0) (\<lambda>_ s'. same s0 s' \<or> decided cid pid s0 s') s"
    by (rule wp_bindI [OF wp_validate_call [OF s ok, THEN wp_mono]])
       (use s(2) ctx wp_guarded_run [where c = "execution_context cfg cid pid"] in
         \<open>auto simp: wp_ret execution_context_def split: option.splits\<close>)
  show ?thesis
  proof (cases "valid \<and> nonempty_str v")
    case True
    then show ?thesis using run by (simp add: execute_body_def)
  next
    case False
    then show ?thesis
      using wp_refuse [OF s made_results(1) [OF ok, of None], THEN wp_mono] none
      unfolding execute_body_def by auto
  qed
qed

text \<open>The \<open>finally\<close> block: one result event, about the result that is returned.\<close>

definition finished :: "str \<Rightarrow> str option \<Rightarrow> 'w exec_state \<Rightarrow> 'w exec_state \<Rightarrow> bool" where
  "finished cid pid s s' \<longleftrightarrow> dispatched (xs_world s') = dispatched (xs_world s) \<and>
     (\<exists>x e. xs_result s' = XResult x \<and> xs_last_result s' = Some x \<and> xs_last_published s' \<and> result_of cid pid x \<and>
        log (xs_world s') = log (xs_world s) @ [e] \<and> le_type e = TOOL_RESULT \<and>
        le_correlation_id e = cid \<and> le_provider_tool_call_id e = pid \<and>
        dget (le_payload e) (lit ''status'') = Some (JStr (tool_status_str (tr_status x))))"

lemma wp_result_event:
  assumes "result_of cid pid x" "config_ok cfg"
  shows "wp (result_event cfg P name x)
     (\<lambda>_ s'. kept s s' \<and> (\<exists>e. log (xs_world s') = log (xs_world s) @ [e] \<and> le_type e = TOOL_RESULT \<and>
        le_correlation_id e = cid \<and> le_provider_tool_call_id e = pid \<and>
        dget (le_payload e) (lit ''status'') = Some (JStr (tool_status_str (tr_status x))))) E s"
proof -
  obtain p y where p: "ToolResultProjection_from_result x (xc_output_limit cfg) = Inr p"
    using project_back_ok [OF assms(1)] assms(2) unfolding config_ok_def by blast
  have "tp_status p = tr_status x" using projection_fields [OF p] by simp
  moreover have "tr_correlation_id x = cid" "tr_provider_tool_call_id x = pid"
    using assms(1) by (simp_all add: result_of_def)
  ultimately show ?thesis
    unfolding result_event_def p wp_bindE wp_lift_res sum.case
    by (intro wp_mono [OF wp_emit]) (auto simp: event_of_def result_status_readable)
qed

lemma wp_elapsed:
  "wp (try_except (bindE (world (xp_clock P)) (\<lambda>t. ret (max 0 (t - t0)))) (\<lambda>_. ret 0))
     (\<lambda>elapsed s'. 0 \<le> elapsed \<and> same s s') E s"
  by (rule wp_tryI [OF wp_bindI [OF wp_world_quiet [OF clock same_refl]]])
     (auto simp: wp_ret)

lemma wp_finish_call:
  assumes "result_good s" "ids_ok cid pid" "config_ok cfg"
  shows "wp (finish_call cfg P name cid pid t0) (\<lambda>_. finished cid pid s) E s"
  unfolding finish_call_def
proof (rule wp_bindI [OF wp_elapsed])
  fix elapsed :: rat and t
  assume "0 \<le> elapsed \<and> same s t"
  then have t: "0 \<le> elapsed" "same s t" "result_good t"
    using assms(1) by (simp_all add: same_def result_good_def)
  have some: "wp (bindE (get xs_result) (\<lambda>r.
             if r = XNone
             then set_result (executor_error_result cid pid (Some name) ''executor_error'' (Some elapsed))
             else ret ())) (\<lambda>_ t'. result_good t' \<and> log (xs_world t') = log (xs_world s) \<and>
                dispatched (xs_world t') = dispatched (xs_world s)) E t"
    using t assms(2)
    by (auto simp: wp_bindE wp_get wp_ret same_def result_good_def result_of_def
        intro!: wp_mono [OF wp_set_result [OF made_results(2) [where cid = cid and pid = pid]]])
  show "wp (seqE (bindE (get xs_result) (\<lambda>r.
             if r = XNone
             then set_result (executor_error_result cid pid (Some name) ''executor_error'' (Some elapsed))
             else ret ()))
       (bindE (get xs_result) (\<lambda>r.
        bindE (lift_res (normalize_result cfg r cid pid name elapsed)) (\<lambda>x.
        seqE (modify (\<lambda>s. s\<lparr>xs_result := XResult x, xs_last_result := Some x\<rparr>))
          (seqE (result_event cfg P name x)
            (modify (\<lambda>s. s\<lparr>xs_last_published := True\<rparr>))))))) (\<lambda>_. finished cid pid s) E t"
  proof (rule wp_seqI [OF some])
    fix u
    assume u: "result_good u \<and> log (xs_world u) = log (xs_world s) \<and> dispatched (xs_world u) = dispatched (xs_world s)"
    obtain x where x: "normalize_result cfg (xs_result u) cid pid name elapsed = Inr x" "result_of cid pid x"
      using normalize_result_ok [OF assms(2,3) t(1)] u unfolding result_good_def by blast
    show "wp (bindE (get xs_result) (\<lambda>r.
        bindE (lift_res (normalize_result cfg r cid pid name elapsed)) (\<lambda>x.
        seqE (modify (\<lambda>s. s\<lparr>xs_result := XResult x, xs_last_result := Some x\<rparr>))
          (seqE (result_event cfg P name x)
            (modify (\<lambda>s. s\<lparr>xs_last_published := True\<rparr>)))))) (\<lambda>_. finished cid pid s) E u"
      unfolding wp_bindE wp_get wp_lift_res x(1) sum.case wp_seqE wp_modify
      by (rule wp_mono [OF wp_result_event [OF x(2) assms(3)]])
         (use u x(2) in \<open>auto simp: finished_def kept_def\<close>)
  qed
qed

lemma closed_lifecycle:
  assumes "closed cid pid s0 t" "finished cid pid t u" "log (xs_world s0) = log w @ [c]"
    and "dispatched (xs_world s0) = dispatched w" "event_of TOOL_CALL cid pid d c"
  shows "\<exists>x. xs_result u = XResult x \<and> xs_last_result u = Some x \<and> xs_last_published u \<and> lifecycle log dispatched x w (xs_world u)"
  using assms unfolding closed_def finished_def decision_of_def lifecycle_def event_of_def result_of_def
  by auto

lemma interrupted_lifecycle:
  assumes "same s0 t \<or> closed cid pid s0 t" "finished cid pid t u" "log (xs_world s0) = log w @ [c]"
    and "dispatched (xs_world s0) = dispatched w" "event_of TOOL_CALL cid pid d c"
  shows "interrupted log dispatched w (xs_world u)"
  using assms(1)
proof
  assume "same s0 t"
  then show ?thesis
    using assms(2-) unfolding finished_def interrupted_def event_of_def same_def
    by (auto intro: exI [of _ "[]"])
next
  assume "closed cid pid s0 t"
  then obtain e where e: "log (xs_world t) = log (xs_world s0) @ [e]" "decision_of cid pid s0 t e"
    by (auto simp: closed_def)
  obtain r where r: "log (xs_world u) = log (xs_world t) @ [r]" "le_type r = TOOL_RESULT"
    "le_correlation_id r = cid" "dispatched (xs_world u) = dispatched (xs_world t)"
    using assms(2) by (auto simp: finished_def)
  show ?thesis
    using e r assms(3-) unfolding interrupted_def decision_of_def event_of_def
    by (intro exI [of _ c] exI [of _ "[e]"] exI [of _ r]) auto
qed

text \<open>The whole operation.\<close>

lemma wp_started:
  assumes "same s s0"
  shows "wp (started_clock P) (\<lambda>_. same s) E s0"
  unfolding started_clock_def
  by (rule wp_tryI [OF wp_world_quiet [OF clock assms]]) (auto simp: wp_ret)

lemma wp_closing:
  assumes ids: "ids_ok cid pid" "config_ok cfg" "\<not> valid \<longrightarrow> pid = None"
    and s0: "started s0" "log (xs_world s0) = log w @ [c]" "dispatched (xs_world s0) = dispatched w"
    and c: "event_of TOOL_CALL cid pid d c"
  shows "wp (try_finally
             (try_except (execute_body cfg P name v raw cid pid valid)
               (\<lambda>_. bindE (get xs_policy_emitted) (\<lambda>emitted.
                seqE (if \<not> emitted
                      then policy_event cfg P name cid pid DENY DENY None (lit ''executor_error'')
                      else ret ())
                  (set_result (executor_error_result cid pid (Some name) ''executor_error'' None)))))
             (finish_call cfg P name cid pid t0))
     (\<lambda>_ u. \<exists>x. xs_result u = XResult x \<and> xs_last_result u = Some x \<and> xs_last_published u \<and> lifecycle log dispatched x w (xs_world u))
     (\<lambda>e u. \<not> is_exception e \<and> interrupted log dispatched w (xs_world u)) s0"
proof -
  let ?h = "\<lambda>_ :: exn. bindE (get xs_policy_emitted) (\<lambda>emitted.
                seqE (if \<not> emitted
                      then policy_event cfg P name cid pid DENY DENY None (lit ''executor_error'')
                      else ret ())
                  (set_result (executor_error_result cid pid (Some name) ''executor_error'' None)))"
  have set: "wp (set_result (executor_error_result cid pid (Some name) ''executor_error'' None))
      (\<lambda>_. closed cid pid s0) E t" if "closed cid pid s0 t" for t E
    by (rule wp_mono [OF wp_set_result [OF made_results(2) [OF ids(1), of None]]])
       (auto intro: closed_result(1) [OF that])
  have handled: "wp (?h e) (\<lambda>_. closed cid pid s0) E t" if "same s0 t \<or> decided cid pid s0 t" for e t E
  proof (cases "xs_policy_emitted t")
    case True
    then have "closed cid pid s0 t" using that s0(1) by (auto simp: same_def started_def decided_def)
    then show ?thesis using True by (simp add: wp_bindE wp_get wp_seqE wp_ret set)
  next
    case False
    then have "same s0 t" using that by (auto simp: decided_def)
    from wp_policy_event [OF this s0(1)] False show ?thesis
      by (simp add: wp_bindE wp_get) (rule wp_seqI, assumption, simp add: set)
  qed
  have body: "wp (try_except (execute_body cfg P name v raw cid pid valid) ?h)
      (\<lambda>_. closed cid pid s0)
      (\<lambda>e t. \<not> is_exception e \<and> (same s0 t \<or> closed cid pid s0 t)) s0"
    by (rule wp_tryI [OF wp_execute_body [OF same_refl s0(1) ids,
          THEN wp_mono [where E' = "\<lambda>_ t. same s0 t \<or> decided cid pid s0 t"]]])
       (auto intro: handled decided_closed)
  show ?thesis
  proof (rule wp_finallyI [OF body])
    fix a t
    assume t: "closed cid pid s0 t"
    then have "result_good t" by (simp add: closed_def)
    then show "wp (finish_call cfg P name cid pid t0)
        (\<lambda>_ u. \<exists>x. xs_result u = XResult x \<and> xs_last_result u = Some x \<and> xs_last_published u \<and> lifecycle log dispatched x w (xs_world u))
        (\<lambda>e u. \<not> is_exception e \<and> interrupted log dispatched w (xs_world u)) t"
      by (rule wp_mono [OF wp_finish_call [OF _ ids(1,2)]]) (rule closed_lifecycle [OF t _ s0(2,3) c])
  next
    fix e t
    assume e: "\<not> is_exception e \<and> (same s0 t \<or> closed cid pid s0 t)"
    then have "result_good t" using s0(1) by (auto simp: closed_def same_def started_def result_good_def)
    then show "wp (finish_call cfg P name cid pid t0) (\<lambda>_ u. \<not> is_exception e \<and> interrupted log dispatched w (xs_world u))
        (\<lambda>e u. \<not> is_exception e \<and> interrupted log dispatched w (xs_world u)) t"
      by (rule wp_mono [OF wp_finish_call [OF _ ids(1,2)]])
         (use e interrupted_lifecycle [OF _ _ s0(2,3) c] in auto)
  qed
qed

lemma wp_execute:
  assumes cfg: "config_ok cfg"
  shows "wp (execute cfg P call arguments provider correlation)
     (\<lambda>x u. lifecycle log dispatched x (xs_world s) (xs_world u) \<and> xs_last_result u = Some x \<and> xs_last_published u)
     (\<lambda>e u. \<not> is_exception e \<and> interrupted log dispatched (xs_world s) (xs_world u)) s"
proof -
  let ?pv = "case provider of
                   Some v \<Rightarrow> Some v
                 | None \<Rightarrow> (case call of
                       Inr call \<Rightarrow> map_option (Ident ProviderToolCallId) (tc_provider_tool_call_id call)
                     | Inl _ \<Rightarrow> None)"
  obtain pid valid where pid: "safe_provider ?pv = (pid, valid)" by fastforce
  note pid_ok = safe_provider_ok [OF pid]
  let ?s = "s\<lparr>xs_last_result := None, xs_last_published := False, xs_result := XNone, xs_policy_emitted := False\<rparr>"
  have world: "log (xs_world t) = log (xs_world s)" "dispatched (xs_world t) = dispatched (xs_world s)"
    "started t" if "same ?s t" for t
    using that by (simp_all add: same_def started_def)
  show ?thesis
    unfolding execute_def Let_def pid prod.case
    apply (simp only: wp_seqE [of "modify _"] wp_modify)
    apply (rule wp_bindI [OF wp_started [OF same_refl]])
    apply (simp only: wp_bindE [of "get _"] wp_get)
    apply (rule wp_bindI [OF wp_operation_id], assumption)
    apply (unfold tool_call_event_def)
    apply (rule wp_seqI [OF wp_emit], elim conjE exE)
    subgoal for t0 s1 cid s2 s3 c
      by (rule wp_seqI [OF wp_closing [where w = "xs_world s" and c = c]])
         (use pid_ok cfg world [of s2] in
           \<open>auto simp: ids_ok_def kept_def started_def wp_bindE [of "get _"] wp_get wp_ret\<close>)
    done
qed

text \<open>A skipped call has the same life cycle and is never dispatched; a refused skip leaves no
  event.\<close>

lemma wp_skip:
  assumes cfg: "config_ok cfg"
  shows "wp (skip cfg P tool arguments reason status provider correlation)
     (\<lambda>x u. lifecycle log dispatched x (xs_world s) (xs_world u) \<and>
        dispatched (xs_world u) = dispatched (xs_world s) \<and> tr_status x = status)
     (\<lambda>_ u. (\<not> safe_skip_reason reason \<or> status = ResSuccess) \<and> xs_world u = xs_world s) s"
proof -
  obtain pid valid where pid: "safe_provider provider = (pid, valid)" by fastforce
  note pid_ok = safe_provider_ok [OF pid]
  let ?s = "s\<lparr>xs_last_result := None, xs_last_published := False\<rparr>"
  have cid: "wp (case correlation of
                 None \<Rightarrow> new_correlation_id P
               | Some v \<Rightarrow>
                   (case new_identifier CorrelationId v of
                      Inl _ \<Rightarrow> new_correlation_id P
                    | Inr c \<Rightarrow> seqE (reserve c) (ret c)))
      (\<lambda>c s'. id_ok CorrelationId c \<and> same ?s s' \<and> c \<in> xs_issued s') E ?s" for E
    unfolding new_correlation_id_def
    by (auto dest: new_identifier_ok intro!: wp_correlation_attempts wp_reserved split: option.split sum.split)
  have tail: "wp (let pid = fst (safe_provider provider); safe_reason = take 160 reason in
        seqE (tool_call_event cfg P name arguments cid pid)
        (seqE (policy_event cfg P name cid pid DENY DENY None
                 (take 160 (lit ''not_executed_'' @ safe_reason)))
        (bindE (lift_res (skip_result cid pid name safe_reason status)) (\<lambda>x.
         seqE (modify (\<lambda>s. s\<lparr>xs_last_result := Some x\<rparr>))
         (seqE (result_event cfg P name x)
         (seqE (modify (\<lambda>s. s\<lparr>xs_last_published := True\<rparr>)) (ret x)))))))
      (\<lambda>x u. lifecycle log dispatched x (xs_world s) (xs_world u) \<and>
        dispatched (xs_world u) = dispatched (xs_world s) \<and> tr_status x = status) E t"
    if t: "id_ok CorrelationId cid" "same ?s t" for cid name t E
  proof -
    have ids: "ids_ok cid pid" using t(1) pid_ok by (simp add: ids_ok_def)
    obtain x where x: "skip_result cid pid name (take 160 reason) status = Inr x" "result_of cid pid x"
      "tr_status x = status"
      using made_results(4) [OF ids, of None name "take 160 reason" status] by auto
    show ?thesis
      unfolding Let_def pid fst_conv x(1) tool_call_event_def policy_event_def
      apply (rule wp_seqI [OF wp_emit], elim conjE exE)
      apply (rule wp_seqI [OF wp_emit], elim conjE exE)
      apply (simp only: wp_bindE [of "lift_res _"] wp_lift_res sum.case wp_seqE [of "modify _"] wp_modify)
      apply (rule wp_seqI [OF wp_result_event [OF x(2) cfg]])
      using t x by (auto simp: wp_ret wp_seqE wp_modify lifecycle_def kept_def same_def event_of_def result_of_def)
  qed
  show ?thesis
  proof (cases "safe_skip_reason reason \<and> status \<noteq> ResSuccess")
    case True
    then have ok: "\<not> safe_skip_reason reason \<longleftrightarrow> False" "status = ResSuccess \<longleftrightarrow> False" by simp_all
    show ?thesis
      unfolding skip_def ok if_False wp_seqE [of "modify _"] wp_modify wp_bindE [of "get _"] wp_get
      by (rule wp_bindI [OF cid]) (elim conjE, rule tail)
  next
    case False
    then show ?thesis by (auto simp: skip_def wp_seqE wp_modify wp_raise)
  qed
qed

end

end
