(* ===== verification/ExecutorRun.thy ===== *)
theory ExecutorRun
  imports ExecutorFacts
begin

text \<open>
  The executor over the repository's own collaborators: the registry of the six built-in
  tools, the default execution policy, the in-memory \<open>EventRecorder\<close> and the default id
  factory.  The interpretation discharges the laws of \<open>tool_ports\<close> for them, and the
  properties of \<open>execute\<close> and \<open>skip\<close> rest on it.
\<close>

section \<open>The collaborators\<close>

text \<open>\<open>uuid4().hex\<close> is 32 hexadecimal digits; the draws of a run are numbered.\<close>

definition uuid_digit :: "nat \<Rightarrow> nat" where
  "uuid_digit n = (if n < 10 then 48 + n else 87 + n)"

fun uuid_digits :: "nat \<Rightarrow> nat \<Rightarrow> str" where
  "uuid_digits 0 n = []"
| "uuid_digits (Suc k) n = uuid_digits k (n div 16) @ [uuid_digit (n mod 16)]"

text \<open>\<open>while candidate in issued: ...\<close>, with the draws bounded.\<close>

fun draw_uuid :: "nat \<Rightarrow> str \<Rightarrow> str set \<Rightarrow> nat \<Rightarrow> nat \<times> str" where
  "draw_uuid 0 pre taken n = (Suc n, uuid_digits 32 n)"
| "draw_uuid (Suc k) pre taken n =
     (if pre @ uuid_digits 32 n \<in> taken then draw_uuid k pre taken (Suc n) else (Suc n, uuid_digits 32 n))"

record 's run_world =
  rw_events :: "ToolLifecycleEvent list"
  rw_env :: 's
  rw_dispatched :: nat
  rw_draws :: nat

text \<open>\<open>EventRecorder.publish\<close>.\<close>

definition EventRecorder_publish :: "ToolLifecycleEvent \<Rightarrow> ('s run_world, unit) effect" where
  "EventRecorder_publish ev = modify (\<lambda>w. w\<lparr>rw_events := rw_events w @ [ev]\<rparr>)"

text \<open>The default factory's \<open>f"{kind}_{uuid4().hex}"\<close>.\<close>

definition default_new_id :: "str \<Rightarrow> ('s run_world, str) effect" where
  "default_new_id kind w =
     (w\<lparr>rw_draws := Suc (rw_draws w)\<rparr>, Inr (kind @ lit ''_'' @ uuid_digits 32 (rw_draws w)))"

text \<open>The ports of \<open>ToolExecutor(runtime, registry, ...)\<close>; the clock's and the calendar's
  readings and the user's answer are parameters.\<close>

definition recorder_ports ::
  "platform \<Rightarrow> 's environment \<Rightarrow> BuiltinTool list \<Rightarrow> DefaultExecutionPolicy
     \<Rightarrow> (str \<Rightarrow> jobj \<Rightarrow> ToolExecutionContext \<Rightarrow> json res) option \<Rightarrow> rat \<Rightarrow> str \<Rightarrow> 's run_world exec_ports" where
  "recorder_ports pl env active pol ask now stamp =
     (let g = builtin_registry pl env all_builtins (set active) in
      \<lparr>xp_new_id = default_new_id,
       xp_uuid = (\<lambda>pre taken w.
          case draw_uuid 1000 pre taken (rw_draws w) of (n, h) \<Rightarrow> (w\<lparr>rw_draws := n\<rparr>, h)),
       xp_clock = ret now,
       xp_timestamp = (\<lambda>w. (w, stamp)),
       xp_registered_names = (\<lambda>_. registered_names g),
       xp_validate = (\<lambda>name arguments. lift_res (registry_validate name arguments g)),
       xp_execute = (\<lambda>name d c w.
          case registry_execute g (Inl name) (Some (JObj d)) (Some c) None None [] (rw_env w) of
            (e', r) \<Rightarrow> (w\<lparr>rw_env := e', rw_dispatched := Suc (rw_dispatched w)\<rparr>, map_sum id XResult r)),
       xp_policy = (\<lambda>name d c. ret (PVDecision (decide pl pol name (JObj d)))),
       xp_approval = map_option (\<lambda>f name d c. lift_res (f name d c)) ask,
       xp_approval_interactive = None,
       xp_publish = Some EventRecorder_publish\<rparr>)"

section \<open>The laws hold\<close>

lemma uuid_digits_ok: "list_all id_char (uuid_digits k n) \<and> length (uuid_digits k n) = k"
proof (induction k arbitrary: n)
  case (Suc k)
  have "n mod 16 < 16" by simp
  then have "id_char (uuid_digit (n mod 16))"
    by (auto simp: uuid_digit_def id_char_def is_alnum_def)
  then show ?case using Suc.IH [of "n div 16"] by simp
qed simp

lemma draw_uuid_ok: "draw_uuid k pre taken n = (m, h) \<Longrightarrow> list_all id_char h \<and> length h = 32"
  by (induction k arbitrary: n) (auto simp: uuid_digits_ok split: if_splits)

interpretation recorder: tool_ports "recorder_ports pl env active pol ask now stamp" rw_events rw_dispatched
  for pl :: platform and env :: "'s environment" and active pol ask now stamp
proof
  show "\<exists>pub. xp_publish (recorder_ports pl env active pol ask now stamp) = Some pub \<and>
      (\<forall>ev w. rw_events (fst (pub ev w)) = rw_events w @ [ev] \<and> snd (pub ev w) = Inr () \<and>
              rw_dispatched (fst (pub ev w)) = rw_dispatched w)"
    by (simp add: recorder_ports_def Let_def EventRecorder_publish_def modify_def)
next
  fix n d c and w :: "'s run_world"
  assume c: "ToolExecutionContext_ok c"
  let ?g = "builtin_registry pl env all_builtins (set active)"
  have g: "registry_sound ?g"
    by (rule builtin_registry_sound) (auto simp: all_builtins_def intro: BuiltinTool.exhaust)
  show "wp (xp_execute (recorder_ports pl env active pol ask now stamp) n d c)
      (\<lambda>v w'. rw_events w' = rw_events w \<and> rw_dispatched w' = Suc (rw_dispatched w) \<and> (\<forall>r. v = XResult r \<longrightarrow> ToolResult_ok r))
      (\<lambda>_ w'. rw_events w' = rw_events w \<and> rw_dispatched w' = Suc (rw_dispatched w)) w"
    using registry_execute_outcome [OF g c, where name = n and arguments = "JObj d" and fresh = "[]" and s = "rw_env w"]
    by (auto simp: recorder_ports_def Let_def wp_def split: prod.splits sum.splits)
qed (auto simp: recorder_ports_def Let_def wp_simps default_new_id_def wp_def [of "default_new_id _"]
      dest: draw_uuid_ok split: prod.splits)

section \<open>The life cycle of a call\<close>


definition sample_config :: exec_config where
  "sample_config =
     \<lparr>xc_session_id = lit ''s'', xc_agent_id = lit ''main'', xc_parent_agent_id = None, xc_strict = False,
      xc_output_limit = Some 40, xc_interactive = False, xc_id_factory_explicit = False,
      xc_platform = sample_platform, xc_py_str = (\<lambda>_. [])\<rparr>"

definition sample_state :: "nat run_world exec_state" where
  "sample_state =
     \<lparr>xs_world = \<lparr>rw_events = [], rw_env = 0, rw_dispatched = 0, rw_draws = 0\<rparr>,
      xs_issued = {}, xs_event_ids = {}, xs_errors = [], xs_last_result = None,
      xs_last_published = False, xs_result = XNone, xs_policy_emitted = False\<rparr>"

definition sample_policy :: DefaultExecutionPolicy where
  "sample_policy = \<lparr>dp_mode = ModeAsk, dp_interactive = None, dp_workspace = None\<rparr>"

abbreviation sample_ports :: "nat run_world exec_ports" where
  "sample_ports \<equiv> recorder_ports sample_platform counting_env [BashTool] sample_policy None 0 (lit ''t'')"

lemma sample_config_ok [simp]: "config_ok sample_config"
  by (simp add: config_ok_def sample_config_def id_ok_def identifier_pattern_def lit_def is_alnum_def id_char_def)


text \<open>C2: A skipped call leaves the same three events behind and never reaches the registry; a skip
  with an unsafe reason or a success status is refused before anything is recorded.\<close>

theorem skip_never_dispatches:
  fixes s :: "'s run_world exec_state"
  assumes "config_ok cfg"
  shows "case skip cfg (recorder_ports pl env active pol ask now stamp) tool arguments reason status provider correlation s of
      (u, Inr x) \<Rightarrow>
        tr_status x = status \<and> status \<noteq> ResSuccess \<and> rw_dispatched (xs_world u) = rw_dispatched (xs_world s) \<and>
        (\<exists>c p r. rw_events (xs_world u) = rw_events (xs_world s) @ [c, p, r] \<and>
           map le_type [c, p, r] = [TOOL_CALL, POLICY_DECISION, TOOL_RESULT] \<and>
           map le_correlation_id [c, p, r] = replicate 3 (tr_correlation_id x))
    | (u, Inl e) \<Rightarrow> (\<not> safe_skip_reason reason \<or> status = ResSuccess) \<and> xs_world u = xs_world s"
proof -
  have "status = ResSuccess \<Longrightarrow>
      \<exists>u e. skip cfg (recorder_ports pl env active pol ask now stamp) tool arguments reason status provider correlation s = (u, Inl e)"
    by (simp add: skip_def seqE_def bindE_def modify_def raise_def)
  then show ?thesis
    using recorder.wp_skip [OF assms, of pl env active pol ask now stamp tool arguments reason status provider correlation s]
    by (auto simp: wp_def lifecycle_def numeral_3_eq_3 split: prod.splits sum.splits)
qed

theorem skip_never_dispatches_witness:
  "\<exists>u x. skip sample_config sample_ports (JStr (lit ''bash'')) (JStr []) (lit ''limit'') ResDenied None None sample_state = (u, Inr x) \<and>
     tr_status x = ResDenied \<and> length (rw_events (xs_world u)) = 3 \<and> rw_dispatched (xs_world u) = 0"
proof -
  have "safe_skip_reason (lit ''limit'')" by (simp add: safe_skip_reason_def lit_def)
  then show ?thesis
    using skip_never_dispatches [OF sample_config_ok, where pl = sample_platform and env = counting_env and active = "[BashTool]" and
      pol = sample_policy and ask = None and now = 0 and stamp = "lit ''t''" and tool = "JStr (lit ''bash'')" and
      arguments = "JStr []" and reason = "lit ''limit''" and status = ResDenied and provider = None and
      correlation = None and s = sample_state]
    by (auto simp: sample_state_def split: prod.splits sum.splits)
qed

end
