(* ===== verification/Events.thy ===== *)
theory Events
  imports Redaction Effects
begin

text \<open>
  The canonical events of \<open>events.py\<close>: the redaction of texts and keys, the detached JSON
  image of a payload (\<open>safe_json_value\<close>), the canonical envelope of a pending event, and the
  emitter's fan-out.
\<close>

section \<open>Redaction of texts\<close>

text \<open>A literal at the start of a text, without case: the text after it.\<close>

fun after_word :: "str \<Rightarrow> str \<Rightarrow> str option" where
  "after_word [] s = Some s"
| "after_word (p # ps) [] = None"
| "after_word (p # ps) (c # s) = (if fold_char c = p then after_word ps s else None)"

text \<open>\<open>[^\s,;]\<close>.\<close>

definition value_char :: "nat \<Rightarrow> bool" where
  "value_char c \<longleftrightarrow> \<not> is_space c \<and> c \<noteq> 44 \<and> c \<noteq> 59"

text \<open>A match at the current position: its replacement and the text after it.\<close>

definition bearer_match :: "str \<Rightarrow> (str \<times> str) option" where
  "bearer_match s =
     (case after_word (lit ''bearer'') s of
        None \<Rightarrow> None
      | Some r \<Rightarrow>
          (let v = dropWhile is_space r in
           if takeWhile is_space r = [] \<or> takeWhile value_char v = [] then None
           else Some (lit ''Bearer <redacted>'', dropWhile value_char v)))"

definition assignment_words :: "str list" where
  "assignment_words =
     map lit [''api_key'', ''api-key'', ''apikey'', ''password'', ''passwd'', ''secret'', ''authorization'']"

fun first_word :: "str list \<Rightarrow> str \<Rightarrow> (str \<times> str) option" where
  "first_word [] s = None"
| "first_word (w # ws) s =
     (case after_word w s of Some r \<Rightarrow> Some (take (length w) s, r) | None \<Rightarrow> first_word ws s)"

definition assignment_match :: "str \<Rightarrow> (str \<times> str) option" where
  "assignment_match s =
     (case first_word assignment_words s of
        None \<Rightarrow> None
      | Some (name, r) \<Rightarrow>
          (case dropWhile is_space r of
             [] \<Rightarrow> None
           | sep # r1 \<Rightarrow>
               (let v = dropWhile is_space r1 in
                if (sep \<noteq> 58 \<and> sep \<noteq> 61) \<or> takeWhile value_char v = [] then None
                else Some (name @ [sep] @ lit ''<redacted>'', dropWhile value_char v))))"

text \<open>\<open>pattern.sub\<close> for a pattern that starts at a word boundary; \<open>prev\<close> tells whether the
  character before the text is a word character.\<close>

function sub_all :: "(nat \<Rightarrow> bool) \<Rightarrow> (str \<Rightarrow> (str \<times> str) option) \<Rightarrow> bool \<Rightarrow> str \<Rightarrow> str" where
  "sub_all word m prev s =
     (case s of
        [] \<Rightarrow> []
      | c # r \<Rightarrow>
          (case (if prev then None else m s) of
             Some (new, rest) \<Rightarrow>
               if length rest < length s then new @ sub_all word m False rest
               else c # sub_all word m (word c) r
           | None \<Rightarrow> c # sub_all word m (word c) r))"
  by pat_completeness auto
termination by (relation "measure (\<lambda>(_, _, _, s). length s)") auto

declare sub_all.simps [simp del]

text \<open>\<open>_redact_string\<close>.\<close>

definition redact_string :: "platform \<Rightarrow> str \<Rightarrow> str" where
  "redact_string pl s =
     sub_all (pl_word pl) assignment_match False (sub_all (pl_word pl) bearer_match False s)"

section \<open>Sensitive keys\<close>

definition token_metrics :: "str list" where
  "token_metrics =
     map lit [''accepted_prediction_tokens'', ''audio_tokens'', ''cached_tokens'', ''completion_tokens'',
       ''input_tokens'', ''output_tokens'', ''prompt_tokens'', ''reasoning_tokens'',
       ''rejected_prediction_tokens'', ''token_budget'', ''token_count'', ''token_limit'',
       ''tokens_remaining'', ''tokens_used'', ''total_tokens'']"

text \<open>\<open>re.sub(r"[^a-z0-9]+", "_", s)\<close> and \<open>.strip("_")\<close>.\<close>

fun squash :: "bool \<Rightarrow> str \<Rightarrow> str" where
  "squash run [] = []"
| "squash run (c # s) =
     (if (97 \<le> c \<and> c \<le> 122) \<or> (48 \<le> c \<and> c \<le> 57) then c # squash False s
      else if run then squash True s else 95 # squash True s)"

definition strip_underscores :: "str \<Rightarrow> str" where
  "strip_underscores s = rev (dropWhile ((=) 95) (rev (dropWhile ((=) 95) s)))"

text \<open>\<open>_is_sensitive_key\<close>.\<close>

definition event_sensitive_key :: "platform \<Rightarrow> str \<Rightarrow> bool" where
  "event_sensitive_key pl k \<longleftrightarrow>
     strip_underscores (squash False (pl_casefold pl k)) \<notin> set token_metrics \<and>
     (has_word ''secret'' k \<or> has_word ''token'' k \<or> has_word ''password'' k \<or> has_word ''passwd'' k \<or>
      has_joined ''api'' ''key'' k \<or> has_word ''authorization'' k \<or> has_word ''credential'' k \<or>
      has_word ''cookie'' k \<or> has_joined ''private'' ''key'' k \<or> has_joined ''client'' ''secret'' k \<or>
      has_joined ''access'' ''token'' k \<or> has_joined ''refresh'' ''token'' k)"

section \<open>The JSON image of a payload\<close>

text \<open>A Python value as a payload may hold it; a key that is no string is \<open>KOther\<close>, any other
  object \<open>OOther\<close>.  Cycles, which the code cuts by object identity, are not representable.\<close>

datatype pykey = KStr str | KOther

datatype pyobj =
    ONone
  | OBool bool
  | OInt int
  | OFloat pyfloat
  | OStr str
  | OList "pyobj list"
  | OSet "pyobj list"
  | OMap "(pykey \<times> pyobj) list"
  | OOther

definition max_safe_depth :: nat where
  "max_safe_depth = 32"

definition unsupported :: json where
  "unsupported = JStr (lit ''<unsupported-object>'')"

text \<open>The key of an item in the result, and whether its value is shown.\<close>

definition unsupported_key :: "nat \<Rightarrow> str" where
  "unsupported_key i = lit ''<unsupported-key-'' @ dec i @ lit ''>''"

definition rendered_key :: "jobj \<Rightarrow> nat \<Rightarrow> pykey \<Rightarrow> str" where
  "rendered_key acc i k =
     (let base = (case k of KStr s \<Rightarrow> s | KOther \<Rightarrow> unsupported_key i) in
      if has_key acc base then lit ''<duplicate-key-'' @ dec (length acc) @ lit ''>'' else base)"

text \<open>\<open>safe_json_value\<close>; the items of a set come sorted by their canonical text.\<close>

fun safe_json :: "platform \<Rightarrow> nat \<Rightarrow> pyobj \<Rightarrow> json"
  and safe_list :: "platform \<Rightarrow> nat \<Rightarrow> pyobj list \<Rightarrow> json list"
  and safe_items :: "platform \<Rightarrow> nat \<Rightarrow> jobj \<Rightarrow> nat \<Rightarrow> (pykey \<times> pyobj) list \<Rightarrow> jobj" where
  "safe_json pl n (OStr s) = JStr (redact_string pl s)"
| "safe_json pl n ONone = JNull"
| "safe_json pl n (OBool b) = JBool b"
| "safe_json pl n (OInt i) = JInt i"
| "safe_json pl n (OFloat f) = (case f of Finite q \<Rightarrow> JFloat (Finite q) | _ \<Rightarrow> JNull)"
| "safe_json pl n (OMap d) = (if max_safe_depth \<le> n then unsupported else JObj (safe_items pl n [] 0 d))"
| "safe_json pl n (OList xs) = (if max_safe_depth \<le> n then unsupported else JArr (safe_list pl n xs))"
| "safe_json pl n (OSet xs) =
     (if max_safe_depth \<le> n then unsupported
      else JArr (sort_key (\<lambda>v. render (pl_frepr pl) (sort_json v)) (safe_list pl n xs)))"
| "safe_json pl n OOther = unsupported"
| "safe_list pl n [] = []"
| "safe_list pl n (x # xs) = safe_json pl (Suc n) x # safe_list pl n xs"
| "safe_items pl n acc i [] = acc"
| "safe_items pl n acc i ((k, v) # d) =
     (let key = rendered_key acc i k in
      safe_items pl n
        (dset acc key (if k = KOther \<or> event_sensitive_key pl key then redacted else safe_json pl (Suc n) v))
        (if k = KOther then Suc i else i) d)"

fun json_depth :: "json \<Rightarrow> nat" where
  "json_depth (JArr xs) = Suc (Max (insert 0 (set (map json_depth xs))))"
| "json_depth (JObj d) = Suc (Max (insert 0 (set (map (\<lambda>p. json_depth (snd p)) d))))"
| "json_depth v = 0"

text \<open>What the image promises: it is a JSON value with distinct keys, every value under a
  sensitive key is the marker, every float is finite, and the nesting is bounded.\<close>

definition safe_image :: "platform \<Rightarrow> nat \<Rightarrow> json \<Rightarrow> bool" where
  "safe_image pl n v \<longleftrightarrow>
     json_wf v \<and> redacted_ok (event_sensitive_key pl) v \<and> finite_json v \<and> json_depth v \<le> n"

lemma safe_image_simps [simp]:
  "safe_image pl n JNull" "safe_image pl n (JBool b)" "safe_image pl n (JInt i)" "safe_image pl n (JStr s)"
  "safe_image pl n (JFloat (Finite q))" "safe_image pl n unsupported" "safe_image pl n redacted"
  by (simp_all add: safe_image_def unsupported_def redacted_def)

lemma safe_image_JArr: "safe_image pl (Suc n) (JArr xs) \<longleftrightarrow> list_all (safe_image pl n) xs"
  by (auto simp: safe_image_def list_all_iff)

lemma safe_image_JObj: "safe_image pl (Suc n) (JObj d) \<longleftrightarrow> distinct (map fst d) \<and>
    list_all (\<lambda>p. safe_image pl n (snd p) \<and> (event_sensitive_key pl (fst p) \<longrightarrow> snd p = redacted)) d"
  by (auto simp: safe_image_def list_all_iff redacted_def split: if_splits)

lemma safe_image_dset:
  "safe_image pl (Suc n) (JObj d) \<Longrightarrow> safe_image pl n v \<Longrightarrow> (event_sensitive_key pl k \<Longrightarrow> v = redacted) \<Longrightarrow>
   safe_image pl (Suc n) (JObj (dset d k v))"
  unfolding safe_image_JObj list_all_iff using in_dset [of _ d k v] by fastforce

lemma safe_json_image:
  "safe_image pl (max_safe_depth - n) (safe_json pl n v)"
  "n < max_safe_depth \<Longrightarrow> list_all (safe_image pl (max_safe_depth - Suc n)) (safe_list pl n xs)"
  "n < max_safe_depth \<Longrightarrow> safe_image pl (max_safe_depth - n) (JObj acc) \<Longrightarrow>
     safe_image pl (max_safe_depth - n) (JObj (safe_items pl n acc i d))"
proof (induction pl n v and pl n xs and pl n acc i d rule: safe_json_safe_list_safe_items.induct)
  case (5 pl n f)
  then show ?case by (cases f) simp_all
next
  case (6 pl n d)
  have "n < max_safe_depth \<Longrightarrow> safe_image pl (max_safe_depth - n) (JObj [])"
    by (auto simp: safe_image_def)
  then show ?case using 6 by simp
next
  case (7 pl n xs)
  then show ?case
    by (cases "n < max_safe_depth") (simp_all add: safe_image_JArr flip: Suc_diff_Suc)
next
  case (8 pl n xs)
  then show ?case
    by (cases "n < max_safe_depth") (simp_all add: safe_image_JArr list_all_iff flip: Suc_diff_Suc)
next
  case (13 pl n acc i k v d)
  let ?key = "rendered_key acc i k"
  let ?v = "if k = KOther \<or> event_sensitive_key pl ?key then redacted else safe_json pl (Suc n) v"
  have m: "max_safe_depth - n = Suc (max_safe_depth - Suc n)" using "13.prems" by simp
  have "safe_image pl (max_safe_depth - Suc n) ?v" using "13.IH" by simp
  then have "safe_image pl (max_safe_depth - n) (JObj (dset acc ?key ?v))"
    using "13.prems"(2) unfolding m by (intro safe_image_dset) auto
  then show ?case using "13.IH" "13.prems" by (simp add: Let_def)
qed simp_all

section \<open>Pending events and envelopes\<close>

text \<open>The fields of a pending event as the producer set them; None in JSON is None in Python.\<close>

record PendingEvent =
  pe_session_id :: json
  pe_agent_id :: json
  pe_type :: json
  pe_payload :: "(pykey \<times> pyobj) list"
  pe_event_id :: "json"
  pe_timestamp :: json
  pe_parent_agent_id :: json
  pe_correlation_id :: json
  pe_provider_tool_call_id :: json
  pe_schema_version :: int

text \<open>\<open>canonicalize_event\<close>: \<open>fresh\<close> is what the id factory answers when it is asked, \<open>now\<close>
  the clock's text, and \<open>forced\<close> the id that overrides the event's own.\<close>

definition canonicalize_event ::
  "platform \<Rightarrow> str res \<Rightarrow> str \<Rightarrow> str option \<Rightarrow> int \<Rightarrow> PendingEvent \<Rightarrow> EventEnvelope res" where
  "canonicalize_event pl fresh now forced sequence ev =
     bindR (guardR (0 \<le> sequence) (ValueError (lit ''sequence must be a non-negative integer''))) (\<lambda>_.
     bindR (guardR (pe_schema_version ev = 1) (ValueError (lit ''only event schema version 1 is supported''))) (\<lambda>_.
     bindR (guardR (pe_session_id ev \<noteq> JNull \<and> pe_agent_id ev \<noteq> JNull \<and> pe_type ev \<noteq> JNull)
              (ValueError (lit ''event requires session_id, agent_id and type''))) (\<lambda>_.
     bindR (case forced of
              Some i \<Rightarrow> Inr (JStr i)
            | None \<Rightarrow>
                if pe_event_id ev \<noteq> JNull then Inr (pe_event_id ev)
                else bindR fresh (\<lambda>i. bindR (new_identifier EventId (PlainStr i)) (\<lambda>i'. Inr (JStr i')))) (\<lambda>eid.
     mk_EventEnvelope (pl_fromiso pl) (JInt 1) (pe_session_id ev) eid (pe_agent_id ev) (JInt sequence)
       (pe_type ev) (if pe_timestamp ev = JNull then JStr now else pe_timestamp ev)
       (pe_parent_agent_id ev) (pe_correlation_id ev) (pe_provider_tool_call_id ev)
       (safe_items pl 0 [] 0 (pe_payload ev))))))"

lemma safe_payload_image: "safe_image pl max_safe_depth (JObj (safe_items pl 0 [] 0 d))"
  using safe_json_image(1) [of pl 0 "OMap d"] by (simp add: max_safe_depth_def)

lemma coerce_json_Inr: "coerce_identifier (json_id_arg v) k = Inr s \<longleftrightarrow> v = JStr s \<and> id_ok k s"
  by (cases v) (auto simp: new_identifier_def id_ok_def provider_id_ok_def)

lemma mk_EventEnvelope_fields:
  assumes "mk_EventEnvelope fromiso sv si ei ai sq ty ts pa co pt p = Inr e"
  shows "ev_payload e = p \<and> JInt (ev_sequence e) = sq \<and> JInt (ev_schema_version e) = sv \<and>
    JStr (ev_session_id e) = si \<and> JStr (ev_event_id e) = ei \<and> JStr (ev_type e) = ty"
  using assms unfolding mk_EventEnvelope_def
  by (auto simp: bindR_Inr_iff coerce_json_Inr split: json.splits if_splits option.splits)

lemma canonicalize_event_ok:
  assumes "canonicalize_event pl fresh now forced n ev = Inr e"
  shows "EventEnvelope_ok (pl_fromiso pl) e \<and> ev_schema_version e = 1 \<and> ev_sequence e = n \<and>
    safe_image pl max_safe_depth (JObj (ev_payload e)) \<and> (\<forall>i. forced = Some i \<longrightarrow> ev_event_id e = i)"
proof -
  obtain eid ts where m: "mk_EventEnvelope (pl_fromiso pl) (JInt 1) (pe_session_id ev) eid (pe_agent_id ev) (JInt n)
       (pe_type ev) ts (pe_parent_agent_id ev) (pe_correlation_id ev) (pe_provider_tool_call_id ev)
       (safe_items pl 0 [] 0 (pe_payload ev)) = Inr e" and f: "\<forall>i. forced = Some i \<longrightarrow> eid = JStr i"
    using assms unfolding canonicalize_event_def
    by (cases forced) (auto simp: bindR_Inr_iff split: if_splits)
  from mk_EventEnvelope_ok [OF m] mk_EventEnvelope_fields [OF m] f safe_payload_image [of pl "pe_payload ev"]
  show ?thesis by auto
qed

text \<open>C7: Whatever payload a producer hands in, an event that becomes canonical carries a detached
  JSON object with distinct keys in which, at every depth, a value under a sensitive key is the
  marker, every float is finite, and nothing is nested deeper than the bound; the envelope is
  well formed and has the sequence number it was given.\<close>

theorem canonical_event_redacted:
  assumes "canonicalize_event pl fresh now forced n ev = Inr e"
  shows "json_wf (JObj (ev_payload e)) \<and> redacted_ok (event_sensitive_key pl) (JObj (ev_payload e)) \<and>
    finite_json (JObj (ev_payload e)) \<and> json_depth (JObj (ev_payload e)) \<le> 32 \<and>
    EventEnvelope_ok (pl_fromiso pl) e \<and> ev_sequence e = n"
  using canonicalize_event_ok [OF assms] by (simp add: safe_image_def max_safe_depth_def)

definition sample_pending :: PendingEvent where
  "sample_pending =
     \<lparr>pe_session_id = JStr (lit ''s''), pe_agent_id = JStr (lit ''a''), pe_type = JStr (lit ''retry''),
      pe_payload = [(KStr (lit ''cookie''), OStr (lit ''x'')), (KOther, OInt 1), (KStr (lit ''n''), OFloat NaN)],
      pe_event_id = JStr (lit ''e1''), pe_timestamp = JNull, pe_parent_agent_id = JNull,
      pe_correlation_id = JNull, pe_provider_tool_call_id = JNull, pe_schema_version = 1\<rparr>"

lemma sample_keys:
  "event_sensitive_key sample_platform (lit ''cookie'')" "\<not> event_sensitive_key sample_platform (lit ''n'')"
  by (simp_all add: event_sensitive_key_def sample_platform_def strip_underscores_def token_metrics_def
      has_joined_def has_word_def lit_def fold_char_def)

lemma sample_payload:
  "safe_items sample_platform 0 [] 0 (pe_payload sample_pending)
     = [(lit ''cookie'', redacted), (lit ''<unsupported-key-0>'', redacted), (lit ''n'', JNull)]"
proof -
  have key: "unsupported_key 0 = lit ''<unsupported-key-0>''"
    by (simp add: unsupported_key_def dec.simps lit_def)
  show ?thesis
    by (simp add: sample_pending_def rendered_key_def sample_keys key has_key_def Let_def)
qed

lemma sample_canonical:
  "\<exists>e. canonicalize_event sample_platform (Inr []) (lit ''t'') None 7 sample_pending = Inr e \<and>
     ev_sequence e = 7 \<and>
     ev_payload e = [(lit ''cookie'', redacted), (lit ''<unsupported-key-0>'', redacted), (lit ''n'', JNull)]"
proof -
  have ids: "identifier_pattern (lit ''s'')" "identifier_pattern (lit ''a'')" "identifier_pattern (lit ''e1'')"
    by (simp_all add: identifier_pattern_def lit_def is_alnum_def id_char_def)
  show ?thesis
    using ids unfolding canonicalize_event_def sample_payload mk_EventEnvelope_def
    by (simp add: sample_pending_def new_identifier_def sample_platform_def)
qed

theorem canonical_event_redacted_witness:
  "\<exists>e. canonicalize_event sample_platform (Inr []) (lit ''t'') None 7 sample_pending = Inr e \<and>
     dget (ev_payload e) (lit ''cookie'') = Some redacted \<and> json_depth (JObj (ev_payload e)) \<le> 32"
  using sample_canonical canonical_event_redacted [of sample_platform "Inr []" "lit ''t''" None 7 sample_pending]
  by auto

section \<open>The emitter\<close>

datatype DeliveryStatus = DeliverySuccess | DeliveryFailed | DeliverySkipped

record SubscriberDelivery =
  sd_name :: str
  sd_status :: DeliveryStatus
  sd_error_type :: "str option"

record EmissionReport =
  er_event :: "EventEnvelope option"
  er_deliveries :: "SubscriberDelivery list"

text \<open>\<open>EmissionReport.succeeded\<close>.\<close>

definition report_succeeded :: "EmissionReport \<Rightarrow> bool" where
  "report_succeeded r \<longleftrightarrow>
     er_deliveries r \<noteq> [] \<and> list_all (\<lambda>d. sd_status d = DeliverySuccess) (er_deliveries r)"

text \<open>A subscriber is known by its identity, a number; 0 is the store's.\<close>

record 'w emitter =
  em_world :: 'w
  em_subscribers :: "(str \<times> nat) list"
  em_last_report :: "EmissionReport option"

definition subscriber_name :: "str \<Rightarrow> nat \<Rightarrow> json option \<Rightarrow> str res" where
  "subscriber_name class_name index explicit =
     (case explicit of
        Some v \<Rightarrow>
          (case v of
             JStr s \<Rightarrow> if strip s = [] then Inl (ValueError (lit ''subscriber name must be a non-empty string'')) else Inr s
           | _ \<Rightarrow> Inl (ValueError (lit ''subscriber name must be a non-empty string'')))
      | None \<Rightarrow> Inr ((if class_name = [] then lit ''subscriber'' else class_name) @ lit ''['' @ dec index @ lit '']''))"

definition subscribe :: "str \<Rightarrow> nat \<Rightarrow> json option \<Rightarrow> (str \<times> nat) list \<Rightarrow> (str \<times> nat) list res" where
  "subscribe class_name who explicit subs =
     bindR (guardR (who \<noteq> 0) (ValueError (lit ''the sequence store is already subscribed''))) (\<lambda>_.
     bindR (guardR (who \<notin> snd ` set subs) (ValueError (lit ''subscriber is already registered''))) (\<lambda>_.
     bindR (subscriber_name class_name (length subs + 1) explicit) (\<lambda>n. Inr (subs @ [(n, who)]))))"

fun unsubscribe :: "nat \<Rightarrow> (str \<times> nat) list \<Rightarrow> (str \<times> nat) list \<times> bool" where
  "unsubscribe who [] = ([], False)"
| "unsubscribe who ((n, r) # subs) =
     (if r = who then (subs, True) else (case unsubscribe who subs of (rest, b) \<Rightarrow> ((n, r) # rest, b)))"

definition dispatch_error :: exn where
  "dispatch_error = OtherError (lit ''EventDispatchError'') (lit ''one or more event subscribers did not process the event'')"

text \<open>Every subscriber is notified in turn; a failure is noted and the next one follows.\<close>

fun deliver ::
  "(nat \<Rightarrow> EventEnvelope \<Rightarrow> ('w, unit) effect) \<Rightarrow> EventEnvelope \<Rightarrow> (str \<times> nat) list
     \<Rightarrow> ('w, SubscriberDelivery list) effect" where
  "deliver notify e [] = ret []"
| "deliver notify e ((n, r) # subs) =
     bindE (try_except
        (seqE (notify r e) (ret \<lparr>sd_name = n, sd_status = DeliverySuccess, sd_error_type = None\<rparr>))
        (\<lambda>x. ret \<lparr>sd_name = n, sd_status = DeliveryFailed, sd_error_type = Some (exn_class x)\<rparr>)) (\<lambda>d.
     bindE (deliver notify e subs) (\<lambda>ds. ret (d # ds)))"

definition store_delivery :: "DeliveryStatus \<Rightarrow> str option \<Rightarrow> SubscriberDelivery" where
  "store_delivery st err = \<lparr>sd_name = lit ''SessionStore[0]'', sd_status = st, sd_error_type = err\<rparr>"

definition emission ::
  "('p \<Rightarrow> ('w, EventEnvelope) effect) \<Rightarrow> (nat \<Rightarrow> EventEnvelope \<Rightarrow> ('w, unit) effect) \<Rightarrow> 'p \<Rightarrow> (str \<times> nat) list
     \<Rightarrow> ('w, EmissionReport) effect" where
  "emission store notify ev subs =
     bindE (try_except (bindE (store ev) (\<lambda>e. ret (Inr e))) (\<lambda>x. ret (Inl x))) (\<lambda>stored.
     case stored of
       Inl x \<Rightarrow> ret \<lparr>er_event = None,
                  er_deliveries = store_delivery DeliveryFailed (Some (exn_class x)) #
                    map (\<lambda>p. \<lparr>sd_name = fst p, sd_status = DeliverySkipped, sd_error_type = None\<rparr>) subs\<rparr>
     | Inr e \<Rightarrow>
         bindE (deliver notify e subs) (\<lambda>ds.
         ret \<lparr>er_event = Some e, er_deliveries = store_delivery DeliverySuccess None # ds\<rparr>))"

text \<open>\<open>EventEmitter.publish\<close>.\<close>

definition emitter_publish ::
  "('p \<Rightarrow> ('w, EventEnvelope) effect) \<Rightarrow> (nat \<Rightarrow> EventEnvelope \<Rightarrow> ('w, unit) effect) \<Rightarrow> 'p
     \<Rightarrow> ('w emitter, EmissionReport) effect" where
  "emitter_publish store notify ev =
     bindE (get em_subscribers) (\<lambda>subs.
     bindE (zoom em_world (\<lambda>w s. s\<lparr>em_world := w\<rparr>) (emission store notify ev subs)) (\<lambda>report.
     seqE (modify (\<lambda>s. s\<lparr>em_last_report := Some report\<rparr>))
       (if report_succeeded report then ret report else raise dispatch_error)))"

text \<open>No interrupt comes out of a callback.\<close>

definition never_interrupts :: "('w, 'a) effect \<Rightarrow> bool" where
  "never_interrupts m \<longleftrightarrow> (\<forall>w. case snd (m w) of Inl x \<Rightarrow> is_exception x | Inr _ \<Rightarrow> True)"

fun delivery_of :: "(str \<times> nat) \<Rightarrow> unit res \<Rightarrow> SubscriberDelivery" where
  "delivery_of p (Inr _) = \<lparr>sd_name = fst p, sd_status = DeliverySuccess, sd_error_type = None\<rparr>"
| "delivery_of p (Inl x) = \<lparr>sd_name = fst p, sd_status = DeliveryFailed, sd_error_type = Some (exn_class x)\<rparr>"

text \<open>The reference: the states the subscribers see one after the other, and their answers.\<close>

fun visit :: "(nat \<Rightarrow> ('w, unit) effect) \<Rightarrow> (str \<times> nat) list \<Rightarrow> 'w \<Rightarrow> 'w \<times> SubscriberDelivery list" where
  "visit call [] w = (w, [])"
| "visit call (p # subs) w =
     (case call (snd p) w of (w', r) \<Rightarrow>
        (case visit call subs w' of (w'', ds) \<Rightarrow> (w'', delivery_of p r # ds)))"

lemma deliver_visit:
  "(\<And>r. never_interrupts (notify r e)) \<Longrightarrow>
   deliver notify e subs w = (case visit (\<lambda>r. notify r e) subs w of (w', ds) \<Rightarrow> (w', Inr ds))"
proof (induction subs arbitrary: w)
  case (Cons p subs)
  obtain n r where p: "p = (n, r)" by (cases p)
  obtain w' x where x: "notify r e w = (w', x)" by (cases "notify r e w")
  have "case x of Inl y \<Rightarrow> is_exception y | Inr _ \<Rightarrow> True"
    using Cons.prems [of r] x unfolding never_interrupts_def by (metis snd_conv)
  then show ?case
    using Cons.IH [OF Cons.prems, of w']
    by (cases x) (auto simp: p x bindE_def seqE_def try_except_def ret_def split: prod.split)
qed (simp add: ret_def)

lemma delivery_of_fields [simp]:
  "sd_name (delivery_of p r) = fst p" "sd_status (delivery_of p r) \<noteq> DeliverySkipped"
  "sd_status (delivery_of p r) = DeliverySuccess \<longleftrightarrow> is_ok r"
  by (cases r; simp)+

lemma visit_names: "map sd_name (snd (visit call subs w)) = map fst subs"
  by (induction subs arbitrary: w) (auto split: prod.split, metis snd_conv)

lemma visit_attempted: "\<forall>d \<in> set (snd (visit call subs w)). sd_status d \<noteq> DeliverySkipped"
  by (induction subs arbitrary: w) (auto split: prod.split, metis snd_conv)

text \<open>C8: Fan-out.  The store comes first: when it refuses the event, no subscriber is called and all are
  reported as skipped; when it accepts, every subscriber is called exactly once, in the order of
  subscription and with the stored envelope, whether or not an earlier one failed.  The report
  names the store and every subscriber, is kept as the last report, and \<open>publish\<close> returns it
  exactly when all of them succeeded.\<close>

theorem emitter_fanout:
  assumes "never_interrupts (store ev)" and "\<And>r e. never_interrupts (notify r e)"
  shows "case store ev (em_world s) of
      (w, Inl x) \<Rightarrow>
        (\<exists>rep. emitter_publish store notify ev s = (s\<lparr>em_world := w, em_last_report := Some rep\<rparr>, Inl dispatch_error) \<and>
           map sd_status (er_deliveries rep) = DeliveryFailed # replicate (length (em_subscribers s)) DeliverySkipped)
    | (w, Inr e) \<Rightarrow>
        (\<exists>rep. emitter_publish store notify ev s =
             (s\<lparr>em_world := fst (visit (\<lambda>r. notify r e) (em_subscribers s) w), em_last_report := Some rep\<rparr>,
              if report_succeeded rep then Inr rep else Inl dispatch_error) \<and>
           er_event rep = Some e \<and>
           er_deliveries rep = store_delivery DeliverySuccess None # snd (visit (\<lambda>r. notify r e) (em_subscribers s) w) \<and>
           map sd_name (er_deliveries rep) = lit ''SessionStore[0]'' # map fst (em_subscribers s) \<and>
           DeliverySkipped \<notin> set (map sd_status (er_deliveries rep)))"
proof -
  obtain w x where x: "store ev (em_world s) = (w, x)" by (cases "store ev (em_world s)")
  have i: "case x of Inl y \<Rightarrow> is_exception y | Inr _ \<Rightarrow> True"
    using assms(1) x unfolding never_interrupts_def by (metis snd_conv)
  show ?thesis
  proof (cases x)
    case (Inl y)
    let ?rep = "\<lparr>er_event = None, er_deliveries = store_delivery DeliveryFailed (Some (exn_class y)) #
        map (\<lambda>p. \<lparr>sd_name = fst p, sd_status = DeliverySkipped, sd_error_type = None\<rparr>) (em_subscribers s)\<rparr>"
    show ?thesis unfolding x Inl prod.case sum.case
      using i Inl
      by (intro exI [of _ ?rep]) (simp add: x emitter_publish_def emission_def bindE_def seqE_def get_def modify_def zoom_def
          try_except_def ret_def raise_def report_succeeded_def store_delivery_def comp_def map_replicate_const)
  next
    case (Inr e)
    obtain w' ds where v: "visit (\<lambda>r. notify r e) (em_subscribers s) w = (w', ds)"
      by (cases "visit (\<lambda>r. notify r e) (em_subscribers s) w")
    have ds: "map sd_name ds = map fst (em_subscribers s)" "\<forall>d \<in> set ds. sd_status d \<noteq> DeliverySkipped"
      using visit_names [of "\<lambda>r. notify r e" "em_subscribers s" w]
        visit_attempted [of "\<lambda>r. notify r e" "em_subscribers s" w] by (simp_all add: v)
    have d: "deliver notify e (em_subscribers s) w = (w', Inr ds)"
      using deliver_visit [where notify = notify and e = e and subs = "em_subscribers s" and w = w, OF assms(2)]
      by (simp add: v)
    let ?rep = "\<lparr>er_event = Some e, er_deliveries = store_delivery DeliverySuccess None # ds\<rparr>"
    have "emitter_publish store notify ev s = (s\<lparr>em_world := w', em_last_report := Some ?rep\<rparr>,
        if report_succeeded ?rep then Inr ?rep else Inl dispatch_error)"
      by (simp add: x Inr d emitter_publish_def emission_def bindE_def seqE_def get_def modify_def zoom_def
          try_except_def ret_def raise_def)
    then show ?thesis unfolding x Inr prod.case sum.case v fst_conv snd_conv
      using ds by (intro exI [of _ ?rep]) (auto simp: store_delivery_def)
  qed
qed

definition sample_envelope :: EventEnvelope where
  "sample_envelope =
     \<lparr>ev_schema_version = 1, ev_session_id = lit ''s'', ev_event_id = lit ''e1'', ev_agent_id = lit ''a'',
      ev_sequence = 1, ev_type = lit ''retry'', ev_timestamp = lit ''t'', ev_parent_agent_id = None,
      ev_correlation_id = None, ev_provider_tool_call_id = None, ev_payload = []\<rparr>"

definition sample_store :: "EventEnvelope \<Rightarrow> (nat, EventEnvelope) effect" where
  "sample_store e w = (w + 1, Inr e)"

definition sample_notify :: "nat \<Rightarrow> EventEnvelope \<Rightarrow> (nat, unit) effect" where
  "sample_notify r e w = (2 * w, if r = 1 then Inl (ValueError []) else Inr ())"

theorem emitter_fanout_witness:
  "\<exists>rep u. emitter_publish sample_store sample_notify sample_envelope
      \<lparr>em_world = 1, em_subscribers = [([97], 1), ([98], 2)], em_last_report = None\<rparr> = (u, Inl dispatch_error) \<and>
     em_world u = 8 \<and> em_last_report u = Some rep \<and> map sd_name (er_deliveries rep) = [lit ''SessionStore[0]'', [97], [98]]"
proof -
  have "never_interrupts (sample_store sample_envelope)" "\<And>r e. never_interrupts (sample_notify r e)"
    by (simp_all add: never_interrupts_def sample_store_def sample_notify_def)
  from emitter_fanout [where store = sample_store and notify = sample_notify and ev = sample_envelope and
      s = "\<lparr>em_world = 1, em_subscribers = [([97], 1), ([98], 2)], em_last_report = None\<rparr>", OF this]
  show ?thesis by (auto simp: sample_store_def sample_notify_def report_succeeded_def list_all_iff)
qed

end
