(* ===== verification/Session.thy ===== *)
theory Session
  imports Events JsonRoundtrip
begin

text \<open>
  The append-only session log (\<open>session.py\<close>): reading a JSONL file back, the bound on an
  event's payload, and the store that owns the sequence.  A file is its bytes; one append
  either reaches the disk as a whole or stops after some bytes.
\<close>

section \<open>Reading\<close>

text \<open>\<open>bytes.splitlines(keepends=True)\<close>.\<close>

fun next_line :: "nat list \<Rightarrow> nat list \<times> nat list" where
  "next_line [] = ([], [])"
| "next_line (b # r) =
     (if b = 10 then ([10], r)
      else if b = 13 then (if r \<noteq> [] \<and> hd r = 10 then ([13, 10], tl r) else ([13], r))
      else (b # fst (next_line r), snd (next_line r)))"

lemma next_line_append: "fst (next_line bs) @ snd (next_line bs) = bs"
proof (induction bs)
  case (Cons b r)
  then show ?case by (cases r) (simp_all del: next_line.simps(2) add: next_line.simps(2) [of b])
qed simp

lemma next_line_nonempty: "bs \<noteq> [] \<Longrightarrow> fst (next_line bs) \<noteq> []"
  by (cases bs) simp_all

lemma next_line_shorter: "bs \<noteq> [] \<Longrightarrow> length (snd (next_line bs)) < length bs"
  using next_line_append [of bs] next_line_nonempty [of bs]
  by (metis length_append length_greater_0_conv less_add_same_cancel2)

function split_lines :: "nat list \<Rightarrow> nat list list" where
  "split_lines bs =
     (if bs = [] then [] else fst (next_line bs) # split_lines (snd (next_line bs)))"
  by pat_completeness auto
termination by (relation "measure length") (simp_all add: next_line_shorter)

declare split_lines.simps [simp del]

record SessionDiagnostic =
  dg_line_number :: nat
  dg_byte_offset :: nat
  dg_byte_length :: nat

record SessionReadResult =
  sr_events :: "EventEnvelope list"
  sr_diagnostics :: "SessionDiagnostic list"
  sr_ended_with_newline :: bool

definition tail_diagnostic :: "SessionReadResult \<Rightarrow> SessionDiagnostic option" where
  "tail_diagnostic r = (if sr_diagnostics r = [] then None else Some (last (sr_diagnostics r)))"

definition last_valid_sequence :: "SessionReadResult \<Rightarrow> int option" where
  "last_valid_sequence r = (if sr_events r = [] then None else Some (ev_sequence (last (sr_events r))))"

datatype session_exn =
    SessionFormatError str nat nat
  | SessionError str
  | SessionWriteError str
  | DuplicateEventIdError str
  | IncompleteSessionTailError str
  | Raised exn

text \<open>\<open>_json_object\<close>.\<close>

definition json_object :: "platform \<Rightarrow> nat list \<Rightarrow> jobj res" where
  "json_object pl raw =
     bindR (utf8_decode raw) (\<lambda>s.
     case json_loads False (pl_fparse pl) s of
       None \<Rightarrow> Inl (ValueError (pl_json_error pl s))
     | Some (JObj d) \<Rightarrow> Inr d
     | Some _ \<Rightarrow> Inl (ValueError (lit ''session record must be a JSON object'')))"

definition required_fields :: "str list" where
  "required_fields =
     map lit [''schema_version'', ''session_id'', ''event_id'', ''agent_id'', ''sequence'', ''type'', ''timestamp'', ''payload'']"

definition field_or_none :: "jobj \<Rightarrow> string \<Rightarrow> json" where
  "field_or_none d k = (case dget d (lit k) of Some v \<Rightarrow> v | None \<Rightarrow> JNull)"

text \<open>\<open>_envelope_from_record\<close>; Python's \<open>==\<close> lets \<open>True\<close> and \<open>1.0\<close> pass the version test,
  and the envelope's constructor then refuses them.\<close>

definition envelope_from_record :: "platform \<Rightarrow> jobj \<Rightarrow> EventEnvelope res" where
  "envelope_from_record pl d =
     bindR (guardR (list_all (has_key d) required_fields)
              (ValueError (lit ''session record is missing required fields''))) (\<lambda>_.
     bindR (guardR (field_or_none d ''schema_version'' \<in> {JInt 1, JBool True, JFloat (Finite 1)})
              (ValueError (lit ''unsupported event schema version''))) (\<lambda>_.
     case field_or_none d ''payload'' of
       JObj p \<Rightarrow>
         mk_EventEnvelope (pl_fromiso pl) (field_or_none d ''schema_version'') (field_or_none d ''session_id'')
           (field_or_none d ''event_id'') (field_or_none d ''agent_id'') (field_or_none d ''sequence'')
           (field_or_none d ''type'') (field_or_none d ''timestamp'') (field_or_none d ''parent_agent_id'')
           (field_or_none d ''correlation_id'') (field_or_none d ''provider_tool_call_id'') p
     | _ \<Rightarrow> Inl (ValueError (lit ''event payload must be a JSON object''))))"

text \<open>The content of a physical line: without its newline, then without a carriage return.\<close>

definition is_complete :: "nat list \<Rightarrow> bool" where
  "is_complete l \<longleftrightarrow> l \<noteq> [] \<and> last l = 10"

definition drop_last_if :: "nat \<Rightarrow> nat list \<Rightarrow> nat list" where
  "drop_last_if b l = (if l \<noteq> [] \<and> last l = b then butlast l else l)"

definition line_content :: "nat list \<Rightarrow> nat list" where
  "line_content l = drop_last_if 13 (drop_last_if 10 l)"

definition parse_record :: "platform \<Rightarrow> nat list \<Rightarrow> EventEnvelope res" where
  "parse_record pl content =
     (if content = [] then Inl (ValueError (lit ''empty JSONL record''))
      else bindR (json_object pl content) (envelope_from_record pl))"

text \<open>The identity and sequence invariants of one file.\<close>

definition follows :: "str option \<Rightarrow> EventEnvelope list \<Rightarrow> EventEnvelope \<Rightarrow> bool" where
  "follows session es e \<longleftrightarrow>
     (session = None \<or> session = Some (ev_session_id e)) \<and>
     ev_event_id e \<notin> set (map ev_event_id es) \<and>
     (es \<noteq> [] \<longrightarrow> ev_sequence (last es) < ev_sequence e)"

text \<open>The loop over the physical lines; \<open>n\<close> is the line number and \<open>off\<close> the byte offset.\<close>

fun read_lines ::
  "platform \<Rightarrow> nat \<Rightarrow> nat \<Rightarrow> str option \<Rightarrow> EventEnvelope list \<Rightarrow> nat list list
     \<Rightarrow> session_exn + EventEnvelope list \<times> SessionDiagnostic list" where
  "read_lines pl n off session es [] = Inr (es, [])"
| "read_lines pl n off session es (l # ls) =
     (case parse_record pl (line_content l) of
        Inl _ \<Rightarrow>
          if ls = [] \<and> \<not> is_complete l
          then Inr (es, [\<lparr>dg_line_number = n, dg_byte_offset = off, dg_byte_length = length l\<rparr>])
          else Inl (SessionFormatError (lit ''invalid complete session record'') n off)
      | Inr e \<Rightarrow>
          if follows session es e
          then read_lines pl (Suc n) (off + length l) (Some (ev_session_id e)) (es @ [e]) ls
          else Inl (SessionFormatError (lit ''session record violates identity or sequence invariants'') n off))"

definition empty_read :: SessionReadResult where
  "empty_read = \<lparr>sr_events = [], sr_diagnostics = [], sr_ended_with_newline = True\<rparr>"

definition optional_session_id :: "id_arg option \<Rightarrow> str option res" where
  "optional_session_id v =
     (case v of None \<Rightarrow> Inr None | Some v \<Rightarrow> bindR (new_identifier SessionId v) (\<lambda>s. Inr (Some s)))"

text \<open>\<open>read_session\<close>; None is a file that does not exist.\<close>

definition read_session ::
  "platform \<Rightarrow> id_arg option \<Rightarrow> nat list option \<Rightarrow> session_exn + SessionReadResult" where
  "read_session pl expected file =
     (case file of
        None \<Rightarrow> Inr empty_read
      | Some data \<Rightarrow>
          if data = [] then Inr empty_read
          else
            (case optional_session_id expected of
               Inl e \<Rightarrow> Inl (Raised e)
             | Inr session \<Rightarrow>
                 (case read_lines pl 1 0 session [] (split_lines data) of
                    Inl e \<Rightarrow> Inl e
                  | Inr (es, ds) \<Rightarrow>
                      Inr \<lparr>sr_events = es, sr_diagnostics = ds, sr_ended_with_newline = is_complete data\<rparr>)))"

text \<open>\<open>discard_incomplete_tail\<close>: the bytes after the last complete record are dropped.\<close>

definition discard_incomplete_tail ::
  "platform \<Rightarrow> nat list option \<Rightarrow> session_exn + nat list option \<times> SessionDiagnostic option" where
  "discard_incomplete_tail pl file =
     (case read_session pl None file of
        Inl e \<Rightarrow> Inl e
      | Inr r \<Rightarrow>
          (case tail_diagnostic r of
             None \<Rightarrow> Inr (file, None)
           | Some d \<Rightarrow> Inr (map_option (take (dg_byte_offset d)) file, Some d)))"

section \<open>The bound on a payload\<close>

definition canonical_text :: "platform \<Rightarrow> jobj \<Rightarrow> str" where
  "canonical_text pl d = render (pl_frepr pl) (sort_json (JObj d))"

definition preview :: "str \<Rightarrow> int \<Rightarrow> int \<Rightarrow> int \<Rightarrow> jobj" where
  "preview serialized original_length limit count =
     (let head_count = (count + 1) div 2; tail_count = count div 2 in
      [(lit ''truncated'', JBool True), (lit ''original_length'', JInt original_length),
       (lit ''limit'', JInt limit), (lit ''encoding'', JStr (lit ''utf-8'')),
       (lit ''head'', JStr (take (nat head_count) serialized)),
       (lit ''tail'', JStr (if tail_count = 0 then [] else take_last (nat tail_count) serialized))])"

text \<open>The binary search for the longest preview that fits.\<close>

function search_preview :: "(int \<Rightarrow> jobj) \<Rightarrow> (jobj \<Rightarrow> bool) \<Rightarrow> int \<Rightarrow> int \<Rightarrow> jobj \<Rightarrow> jobj" where
  "search_preview candidate fits low high best =
     (if low \<le> high then
        (let middle = (low + high) div 2 in
         if fits (candidate middle) then search_preview candidate fits (middle + 1) high (candidate middle)
         else search_preview candidate fits low (middle - 1) best)
      else best)"
  by pat_completeness auto
termination by (relation "measure (\<lambda>(_, _, low, high, _). nat (high + 1 - low))") auto

declare search_preview.simps [simp del]

definition payload_size :: "platform \<Rightarrow> jobj \<Rightarrow> int" where
  "payload_size pl d = int (utf8_len (canonical_text pl d))"

definition bounded_payload :: "platform \<Rightarrow> jobj \<Rightarrow> int \<Rightarrow> jobj res" where
  "bounded_payload pl payload limit =
     bindR (canonical_json (pl_frepr pl) (JObj payload)) (\<lambda>serialized.
     bindR (utf8_encode serialized) (\<lambda>bytes.
     let original_length = int (length bytes) in
     if original_length \<le> limit then Inr payload
     else
       (let candidate = preview serialized original_length limit;
            best = search_preview candidate (\<lambda>c. payload_size pl c \<le> limit) 0 (int (length serialized)) (candidate 0) in
        if limit < payload_size pl best
        then Inl (ValueError (lit ''max_payload_bytes is too small for truncation metadata''))
        else Inr best)))"

section \<open>The store\<close>

record SessionStore =
  st_file :: "nat list option"
  st_session_id :: "str option"
  st_limit :: int
  st_event_ids :: "str set"
  st_next_sequence :: int
  st_tail :: "SessionDiagnostic option"
  st_needs_separator :: bool
  st_closed :: bool
  st_write_failed :: bool

text \<open>The state the constructor ends with.\<close>

definition opened_store :: "nat list option \<Rightarrow> str option \<Rightarrow> int \<Rightarrow> SessionReadResult \<Rightarrow> SessionStore" where
  "opened_store file sid limit r =
     \<lparr>st_file = file,
      st_session_id = (if sid = None \<and> sr_events r \<noteq> [] then Some (ev_session_id (hd (sr_events r))) else sid),
      st_limit = limit,
      st_event_ids = set (map ev_event_id (sr_events r)),
      st_next_sequence = (case last_valid_sequence r of None \<Rightarrow> 1 | Some n \<Rightarrow> n + 1),
      st_tail = tail_diagnostic r,
      st_needs_separator = (sr_events r \<noteq> [] \<and> \<not> sr_ended_with_newline r),
      st_closed = False, st_write_failed = False\<rparr>"

text \<open>The limit the keyword arguments choose.\<close>

definition chosen_limit :: "json \<Rightarrow> json \<Rightarrow> json \<Rightarrow> int res" where
  "chosen_limit max_payload_bytes session_output_limit max_event_bytes =
     (let supplied = filter (\<lambda>v. v \<noteq> JNull) [session_output_limit, max_event_bytes] in
      if supplied \<noteq> [] \<and> (max_payload_bytes \<noteq> JInt 1000000 \<or> 1 < length supplied)
      then Inl (ValueError (lit ''provide only one session payload limit''))
      else
        (case (case supplied of v # _ \<Rightarrow> v | [] \<Rightarrow> max_payload_bytes) of
           JInt limit \<Rightarrow>
             if limit < 128 then Inl (ValueError (lit ''max_payload_bytes must be at least 128 bytes''))
             else Inr limit
         | _ \<Rightarrow> Inl (TypeError (lit ''max_payload_bytes must be an integer''))))"

text \<open>The constructor, on the file it finds.\<close>

definition SessionStore_init ::
  "platform \<Rightarrow> nat list option \<Rightarrow> id_arg option \<Rightarrow> json \<Rightarrow> json \<Rightarrow> json \<Rightarrow> session_exn + SessionStore" where
  "SessionStore_init pl file session_id max_payload_bytes session_output_limit max_event_bytes =
     (case chosen_limit max_payload_bytes session_output_limit max_event_bytes of
        Inl e \<Rightarrow> Inl (Raised e)
      | Inr limit \<Rightarrow>
          (case optional_session_id session_id of
             Inl e \<Rightarrow> Inl (Raised e)
           | Inr sid \<Rightarrow>
               (case read_session pl (map_option PlainStr sid) file of
                  Inl e \<Rightarrow> Inl e
                | Inr r \<Rightarrow> Inr (opened_store file sid limit r))))"

text \<open>What one append meets outside the store: the id factory's answer, the clock's texts, the
  uuid drawn last (as long as the drawn ones are taken), and the number of bytes that reach the disk before a failure, if any.\<close>

record append_env =
  ae_fresh :: "str res"
  ae_now :: str
  ae_now_again :: str
  ae_uuid :: "str set \<Rightarrow> str"
  ae_stopped_after :: "nat option"

fun suffixed_id :: "str \<Rightarrow> str set \<Rightarrow> nat \<Rightarrow> nat \<Rightarrow> str option" where
  "suffixed_id base ids k 0 = None"
| "suffixed_id base ids k (Suc n) =
     (case new_identifier EventId (PlainStr (base @ lit ''_'' @ dec k)) of
        Inl _ \<Rightarrow> None
      | Inr c \<Rightarrow> if c \<notin> ids then Some c else suffixed_id base ids (Suc k) n)"

text \<open>\<open>_unique_generated_id\<close>; the retry over uuids ends with one that is not taken.\<close>

definition unique_generated_id :: "(str set \<Rightarrow> str) \<Rightarrow> str \<Rightarrow> str set \<Rightarrow> str" where
  "unique_generated_id uuid base ids =
     (if base \<notin> ids then base
      else (case suffixed_id base ids 1 1024 of Some c \<Rightarrow> c | None \<Rightarrow> lit ''event_'' @ uuid ids))"

definition set_payload :: "platform \<Rightarrow> int \<Rightarrow> EventEnvelope \<Rightarrow> EventEnvelope res" where
  "set_payload pl limit e =
     bindR (bounded_payload pl (ev_payload e) limit) (\<lambda>p. Inr (e\<lparr>ev_payload := p\<rparr>))"

text \<open>\<open>_prepare\<close>: the session id is adopted before anything else can fail.\<close>

definition prepare ::
  "platform \<Rightarrow> append_env \<Rightarrow> PendingEvent \<Rightarrow> SessionStore \<Rightarrow> SessionStore \<times> (session_exn + EventEnvelope)" where
  "prepare pl env ev s =
     (case canonicalize_event pl (ae_fresh env) (ae_now env) None (st_next_sequence s) ev of
        Inl e \<Rightarrow> (s, Inl (Raised e))
      | Inr e0 \<Rightarrow>
          if st_session_id s \<noteq> None \<and> st_session_id s \<noteq> Some (ev_session_id e0)
          then (s, Inl (Raised (ValueError (lit ''event session ID does not match this store''))))
          else
            (let s' = s\<lparr>st_session_id := Some (ev_session_id e0)\<rparr>;
                 finish = (\<lambda>e. case set_payload pl (st_limit s) e of
                     Inl x \<Rightarrow> (s', Inl (Raised x)) | Inr e' \<Rightarrow> (s', Inr e')) in
             if ev_event_id e0 \<notin> st_event_ids s then finish e0
             else if pe_event_id ev \<noteq> JNull
             then (s', Inl (DuplicateEventIdError (lit ''event ID is already present in this session'')))
             else
               (case canonicalize_event pl (ae_fresh env) (ae_now_again env)
                       (Some (unique_generated_id (ae_uuid env) (ev_event_id e0) (st_event_ids s)))
                       (st_next_sequence s) ev of
                  Inl x \<Rightarrow> (s', Inl (Raised x))
                | Inr e1 \<Rightarrow> finish e1)))"

definition record_line :: "platform \<Rightarrow> bool \<Rightarrow> EventEnvelope \<Rightarrow> str" where
  "record_line pl separator e =
     (if separator then [10] else []) @ canonical_text pl (EventEnvelope_to_dict e) @ [10]"

text \<open>\<open>_write_line\<close>: the bytes the file holds afterwards, and whether the write was confirmed.
  A text that cannot be encoded writes nothing.\<close>

definition write_line :: "nat option \<Rightarrow> str \<Rightarrow> nat list option \<Rightarrow> nat list \<times> bool" where
  "write_line stopped_after line file =
     (let old = (case file of Some b \<Rightarrow> b | None \<Rightarrow> []) in
      case utf8_encode line of
        Inl _ \<Rightarrow> (old, False)
      | Inr bytes \<Rightarrow>
          (case stopped_after of None \<Rightarrow> (old @ bytes, True) | Some n \<Rightarrow> (old @ take n bytes, False)))"

text \<open>\<open>SessionStore.append\<close>.\<close>

definition store_append ::
  "platform \<Rightarrow> append_env \<Rightarrow> PendingEvent \<Rightarrow> SessionStore \<Rightarrow> SessionStore \<times> (session_exn + EventEnvelope)" where
  "store_append pl env ev s =
     (if st_closed s then (s, Inl (SessionWriteError (lit ''session store is closed'')))
      else if st_write_failed s
      then (s, Inl (SessionWriteError (lit ''session store requires reopening after a failed append'')))
      else if st_tail s \<noteq> None
      then (s, Inl (IncompleteSessionTailError (lit ''refusing to append after an incomplete JSONL tail'')))
      else
        (case prepare pl env ev s of
           (s1, Inl x) \<Rightarrow> (s1, Inl x)
         | (s1, Inr e) \<Rightarrow>
             (case write_line (ae_stopped_after env) (record_line pl (st_needs_separator s1) e) (st_file s1) of
                (bytes, False) \<Rightarrow>
                  (s1\<lparr>st_file := Some bytes, st_write_failed := True\<rparr>,
                   Inl (SessionWriteError (lit ''session append did not complete'')))
              | (bytes, True) \<Rightarrow>
                  (s1\<lparr>st_file := Some bytes,
                     st_event_ids := insert (ev_event_id e) (st_event_ids s1),
                     st_next_sequence := st_next_sequence s1 + 1,
                     st_needs_separator := False\<rparr>, Inr e))))"

definition store_read :: "platform \<Rightarrow> SessionStore \<Rightarrow> session_exn + SessionReadResult" where
  "store_read pl s = read_session pl (map_option PlainStr (st_session_id s)) (st_file s)"

definition store_close :: "SessionStore \<Rightarrow> SessionStore" where
  "store_close s = s\<lparr>st_closed := True\<rparr>"

end
