(* ===== verification/JsonPrefix.thy ===== *)
theory JsonPrefix
  imports JsonRoundtrip
begin

text \<open>
  A JSON object cut anywhere before its end is not JSON: the reader's stack is as deep as the
  brackets still open, and a cut text leaves at least one open.  This is what lets the session
  log tell an interrupted append from a record.
\<close>

section \<open>Brackets and the reader's stack\<close>

fun bracket :: "token \<Rightarrow> int" where
  "bracket LBrace = 1"
| "bracket LBracket = 1"
| "bracket RBrace = -1"
| "bracket RBracket = -1"
| "bracket _ = 0"

definition open_brackets :: "token list \<Rightarrow> int" where
  "open_brackets ts = sum_list (map bracket ts)"

lemma open_brackets_simps [simp]:
  "open_brackets [] = 0" "open_brackets (t # ts) = bracket t + open_brackets ts"
  "open_brackets (ts @ us) = open_brackets ts + open_brackets us"
  by (simp_all add: open_brackets_def)

fun stack_depth :: "pstate \<Rightarrow> int" where
  "stack_depth (PValue st) = int (length st)"
| "stack_depth (PArrStart st) = int (length st) + 1"
| "stack_depth (PObjStart st) = int (length st) + 1"
| "stack_depth (PKey st d) = int (length st) + 1"
| "stack_depth (PColon st d k) = int (length st) + 1"
| "stack_depth (PAfter st v) = int (length st)"
| "stack_depth PFail = 0"

lemma pstep_depth: "pstep s k \<noteq> PFail \<Longrightarrow> stack_depth (pstep s k) = stack_depth s + bracket k"
  by (cases "(s, k)" rule: pstep.cases) (auto simp: start_value_def split: token.splits if_splits)

lemma foldl_PFail [simp]: "foldl pstep PFail ts = PFail"
  by (induction ts) simp_all

lemma foldl_pstep_depth:
  "foldl pstep s ts \<noteq> PFail \<Longrightarrow> stack_depth (foldl pstep s ts) = stack_depth s + open_brackets ts"
proof (induction ts arbitrary: s)
  case (Cons t ts)
  have "pstep s t \<noteq> PFail" using Cons.prems by auto
  then show ?case using Cons pstep_depth [of s t] by simp
qed simp

lemma toks_balanced: "json_wf v \<Longrightarrow> open_brackets (toks v) = 0"
  using foldl_pstep_depth [of "PValue []" "toks v"] parse_toks [of v "[]"] by simp

lemma json_loads_balanced: "json_loads pc fparse s = Some v \<Longrightarrow> lex pc fparse s = Some ts \<Longrightarrow> open_brackets ts = 0"
  using foldl_pstep_depth [of "PValue []" ts]
  by (auto simp: json_loads_def split: if_splits pstate.splits list.splits)

section \<open>Text without brackets\<close>

lemma lex_units_suffix: "lex_units r = Some (us, t) \<Longrightarrow> set t \<subseteq> set r"
proof (induction r arbitrary: us t rule: lex_units.induct)
  case (2 c r)
  then show ?case by (auto split: if_splits list.splits option.splits) (fastforce+)?
qed simp

lemma lex_parts_suffix:
  "lex_nat r = Some (ds, t) \<Longrightarrow> set r \<subseteq> {48..57} \<union> set t \<and> set t \<subseteq> set r"
  "lex_frac r = (f, t) \<Longrightarrow> set r \<subseteq> insert 46 {48..57} \<union> set t \<and> set t \<subseteq> set r"
proof -
  have d: "set s \<subseteq> {48..57} \<union> set (dropWhile is_digit s) \<and> set (dropWhile is_digit s) \<subseteq> set s" for s
    by (induction s) (auto simp: is_digit_def)
  show "lex_nat r = Some (ds, t) \<Longrightarrow> set r \<subseteq> {48..57} \<union> set t \<and> set t \<subseteq> set r"
    using d [of r] by (auto simp: lex_nat_def is_digit_def split: list.splits if_splits)
  show "lex_frac r = (f, t) \<Longrightarrow> set r \<subseteq> insert 46 {48..57} \<union> set t \<and> set t \<subseteq> set r"
    using d [of "tl r"] by (auto simp: lex_frac_def split: list.splits if_splits)
qed

lemma lex_exp_suffix: "lex_exp r = (f, t) \<Longrightarrow> set r \<subseteq> {43, 45, 69, 101} \<union> {48..57} \<union> set t \<and> set t \<subseteq> set r"
proof -
  have d: "set s \<subseteq> {48..57} \<union> set (dropWhile is_digit s) \<and> set (dropWhile is_digit s) \<subseteq> set s" for s
    by (induction s) (auto simp: is_digit_def)
  assume "lex_exp r = (f, t)"
  then show ?thesis
    using d [of "tl r"] d [of "tl (tl r)"]
    by (auto simp: lex_exp_def Let_def split: list.splits if_splits)
qed

definition number_chars :: "nat set" where
  "number_chars = {43, 45, 46, 69, 101} \<union> {48..57}"

lemma lex_number_suffix:
  assumes "lex_number fparse r = Some (v, t)"
  shows "set r \<subseteq> number_chars \<union> set t \<and> set t \<subseteq> set r"
proof -
  obtain sg r1 where q: "split_sign r = (sg, r1)" by (cases "split_sign r")
  then have l: "set r \<subseteq> insert 45 (set r1) \<and> set r1 \<subseteq> set r"
    by (auto simp: split_sign_def split: list.splits if_splits)
  obtain ds r2 fr r3 ex where "lex_nat r1 = Some (ds, r2)" "lex_frac r2 = (fr, r3)" "lex_exp r3 = (ex, t)"
    using assms unfolding lex_number_def q by (auto simp: Let_def split: prod.splits option.splits)
  from lex_parts_suffix(1) [OF this(1)] lex_parts_suffix(2) [OF this(2)] lex_exp_suffix [OF this(3)] l
  show ?thesis unfolding number_chars_def by blast
qed

lemma lex_token_suffix: "lex_token pc fparse s = Some (k, t) \<Longrightarrow> set t \<subseteq> set s"
proof -
  assume a: "lex_token pc fparse s = Some (k, t)"
  obtain c r where s: "s = c # r" using a by (cases s) (auto simp: lex_token_def)
  show ?thesis
    using a lex_units_suffix [of r] lex_number_suffix [of fparse s] unfolding s lex_token_def
    by (auto simp: lex_string_def dest: in_set_dropD split: if_splits option.splits)
qed

lemma lex_token_bracket:
  "lex_token pc fparse s = Some (k, t) \<Longrightarrow> bracket k \<noteq> 0 \<Longrightarrow> s \<noteq> [] \<and> hd s \<in> {91, 93, 123, 125}"
  by (cases s) (auto simp: lex_token_def split: if_splits option.splits)

lemma lex_no_brackets:
  "lex pc fparse s = Some ts \<Longrightarrow> set s \<inter> {91, 93, 123, 125} = {} \<Longrightarrow> open_brackets ts = 0"
proof (induction pc fparse s arbitrary: ts rule: lex.induct)
  case (1 pc fparse s)
  show ?case
  proof (cases s)
    case Nil
    then show ?thesis using "1.prems" by (simp add: lex.simps)
  next
    case (Cons c r)
    show ?thesis
    proof (cases "is_ws c")
      case True
      then show ?thesis using "1.IH"(1) [OF Cons True] "1.prems" Cons
        by (subst (asm) lex.simps) auto
    next
      case False
      then obtain k t us where k: "lex_token pc fparse s = Some (k, t)" "lex pc fparse t = Some us" "ts = k # us"
        using "1.prems"(1) Cons by (subst (asm) lex.simps) (auto split: option.splits)
      have "bracket k = 0" using lex_token_bracket [OF k(1)] "1.prems"(2) Cons by auto
      moreover have "open_brackets us = 0"
        using "1.IH"(2) [OF Cons False, of "(k, t)" k t us] k lex_token_suffix [OF k(1)] "1.prems"(2) Cons by auto
      ultimately show ?thesis using k by simp
    qed
  qed
qed

section \<open>Cut texts\<close>

lemma prefix_append_cases:
  "prefix p (xs @ ys) \<Longrightarrow> strict_prefix p xs \<or> (\<exists>q. p = xs @ q \<and> prefix q ys)"
  by (auto simp: prefix_append strict_prefix_def)

lemma strict_prefix_append_cases:
  "strict_prefix p (xs @ ys) \<Longrightarrow> strict_prefix p xs \<or> (\<exists>q. p = xs @ q \<and> strict_prefix q ys)"
  using prefix_append_cases [of p xs ys] by (auto simp: strict_prefix_def)

lemma cut_escape: "strict_prefix p (escape_char c) \<Longrightarrow> lex_units p = None"
  by (auto simp: escape_char_def strict_prefix_def prefix_Cons split: if_splits)

lemma cut_string_body: "prefix p (concat (map escape_char s)) \<Longrightarrow> lex_units p = None"
proof (induction s arbitrary: p)
  case (Cons c s)
  from prefix_append_cases [of p "escape_char c"] Cons.prems
  consider "strict_prefix p (escape_char c)" | q where "p = escape_char c @ q" "prefix q (concat (map escape_char s))"
    by auto
  then show ?case by cases (simp_all add: cut_escape lex_units_escape Cons.IH)
qed simp

lemma cut_string: "strict_prefix p (render_string s) \<Longrightarrow> p = [] \<or> lex pc fparse p = None"
proof -
  assume "strict_prefix p (render_string s)"
  then have "p = [] \<or> (\<exists>q. p = 34 # q \<and> prefix q (concat (map escape_char s)))"
    unfolding render_string_def
    by (cases p) (auto simp: strict_prefix_def prefix_snoc)
  then show ?thesis
    using cut_string_body by (auto simp: lex.simps [of _ _ "34 # _"] is_ws_def lex_token_def lex_string_def)
qed

text \<open>What reading a cut text may give: an error, or tokens that leave \<open>n\<close> brackets open.\<close>

definition leaves_open :: "int \<Rightarrow> token list option \<Rightarrow> bool" where
  "leaves_open n r \<longleftrightarrow> (\<forall>ts. r = Some ts \<longrightarrow> n \<le> open_brackets ts)"

lemma leaves_open_simps [simp]:
  "leaves_open n None" "leaves_open n (Some ts) \<longleftrightarrow> n \<le> open_brackets ts"
  "leaves_open n (map_option ((#) t) r) \<longleftrightarrow> leaves_open (n - bracket t) r"
  "leaves_open n (map_option ((@) us) r) \<longleftrightarrow> leaves_open (n - open_brackets us) r"
  by (auto simp: leaves_open_def)

lemma cons_append: "(@) (t # ts) = (\<lambda>r. t # ts @ r)"
  by (simp add: fun_eq_iff)

lemma cut_joined:
  assumes "\<forall>x \<in> set xs. \<forall>p. strict_prefix p (f x) \<longrightarrow> leaves_open 0 (lex pc fparse p)"
    and "\<forall>x \<in> set xs. \<forall>r. follow r \<longrightarrow> lex pc fparse (f x @ r) = map_option ((@) (g x)) (lex pc fparse r)"
    and "\<forall>x \<in> set xs. open_brackets (g x) = 0"
    and "prefix p (join_with 44 (map f xs))"
  shows "leaves_open 0 (lex pc fparse p)"
  using assms
proof (induction xs arbitrary: p rule: induct_list012)
  case 1
  then show ?case by simp
next
  case (2 x)
  have "lex pc fparse (f x) = Some (g x)" using "2.prems"(2) by (metis append_Nil2 follow_simps(1) lex_Nil list.set_intros(1) option.map(2))
  then show ?case using 2 by (auto simp: strict_prefix_def)
next
  case (3 x y xs)
  have full: "lex pc fparse (f x @ r) = map_option ((@) (g x)) (lex pc fparse r)" if "follow r" for r
    using "3.prems"(2) that by simp
  have "strict_prefix p (f x) \<or> (\<exists>q. p = f x @ q \<and> prefix q (44 # join_with 44 (map f (y # xs))))"
    using "3.prems"(4) prefix_append_cases by fastforce
  then consider "strict_prefix p (f x)" | "p = f x" | q where "p = f x @ 44 # q" "prefix q (join_with 44 (map f (y # xs)))"
    by (auto simp: prefix_Cons)
  then show ?case
  proof cases
    case 1
    then show ?thesis using "3.prems"(1) by simp
  next
    case 2
    then show ?thesis using full [of "[]"] "3.prems"(3) by simp
  next
    case (3 q)
    have "leaves_open 0 (lex pc fparse q)"
      by (rule "3.IH"(2) [OF _ _ _ 3(2)]) (use "3.prems" in simp_all)
    then show ?thesis using full [of "44 # q"] "3.prems"(3) 3(1) by (simp add: lex_punct)
  qed
qed

lemma frepr_chars: "float_text_ok frepr fparse q \<Longrightarrow> set (frepr q) \<subseteq> number_chars"
  using lex_number_suffix [of fparse "frepr q"] by (auto simp: float_text_ok_def)

lemma cut_plain:
  assumes "prefix p s" "set s \<inter> {91, 93, 123, 125} = {}"
  shows "leaves_open 0 (lex pc fparse p)"
proof -
  have "set p \<inter> {91, 93, 123, 125} = {}" using assms(2) set_mono_prefix [OF assms(1)] by blast
  then show ?thesis using lex_no_brackets [of pc fparse p] by (cases "lex pc fparse p") simp_all
qed

lemma render_plain:
  assumes "floats_ok (float_text_ok frepr fparse) v" "\<forall>d. v \<noteq> JObj d" "\<forall>xs. v \<noteq> JArr xs" "\<forall>s. v \<noteq> JStr s"
  shows "set (render frepr v) \<inter> {91, 93, 123, 125} = {}"
proof (cases v)
  case (JInt i)
  have "set (dec_int i) \<subseteq> number_chars" using lex_number_suffix [OF lex_number_int, of i] by simp
  then show ?thesis using JInt by (auto simp: number_chars_def)
next
  case (JFloat f)
  then obtain q where "f = Finite q" "float_text_ok frepr fparse q"
    using assms(1) by (cases f) auto
  then show ?thesis using JFloat frepr_chars [of frepr fparse q] by (auto simp: number_chars_def)
qed (use assms in \<open>auto simp: lit_def\<close>)

lemma cut_plain_value:
  "floats_ok (float_text_ok frepr fparse) v \<Longrightarrow> strict_prefix p (render frepr v) \<Longrightarrow>
   \<forall>d. v \<noteq> JObj d \<Longrightarrow> \<forall>xs. v \<noteq> JArr xs \<Longrightarrow> \<forall>s. v \<noteq> JStr s \<Longrightarrow> leaves_open 0 (lex pc fparse p)"
  by (rule cut_plain [of _ "render frepr v"]) (simp_all add: render_plain strict_prefix_def)

text \<open>Every proper start of a rendered value is an error or leaves no bracket missing its
  opening; of an object or an array, a non-empty one leaves a bracket open.\<close>

lemma cut_value:
  assumes "json_wf v" "floats_ok (float_text_ok frepr fparse) v" "strict_prefix p (render frepr v)"
  shows "leaves_open 0 (lex pc fparse p) \<and>
    (p \<noteq> [] \<and> (\<exists>d. v = JObj d) \<longrightarrow> leaves_open 1 (lex pc fparse p))"
  using assms
proof (induction v arbitrary: p rule: json_induct)
  case (JStr s)
  then show ?case using cut_string [of p s pc fparse] by auto
next
  case (JArr xs)
  let ?body = "join_with 44 (map (render frepr) xs)"
  have items: "leaves_open 0 (lex pc fparse q)" if "prefix q ?body" for q
    by (rule cut_joined [OF _ _ _ that, of pc fparse toks])
       (use JArr in \<open>auto simp: list_all_iff toks_balanced lex_render\<close>)
  have "p = [] \<or> (\<exists>q. p = 91 # q \<and> prefix q ?body)"
    using JArr.prems(3) by (cases p) (auto simp: strict_prefix_def prefix_snoc)
  then show ?case
    using items by (auto simp: lex_punct leaves_open_def)
next
  case (JObj d)
  let ?item = "\<lambda>p. render_string (fst p) @ 58 # render frepr (snd p)"
  let ?toks = "\<lambda>p. TStr (fst p) # Colon # toks (snd p)"
  let ?body = "join_with 44 (map ?item d)"
  have cut: "leaves_open 0 (lex pc fparse q)" if x: "x \<in> set d" and q: "strict_prefix q (?item x)" for x q
  proof -
    consider "strict_prefix q (render_string (fst x))" | "q = render_string (fst x)"
      | r where "q = render_string (fst x) @ 58 # r" "strict_prefix r (render frepr (snd x))"
      using strict_prefix_append_cases [OF q] by (auto simp: strict_prefix_def prefix_Cons)
    then show ?thesis
    proof cases
      case 1
      then show ?thesis using cut_string [of q "fst x" pc fparse] by auto
    next
      case 2
      then show ?thesis using lex_render_string [of pc fparse "fst x" "[]"] by simp
    next
      case (3 r)
      then have "leaves_open 0 (lex pc fparse r)"
        using JObj x by (auto simp: list_all_iff)
      then show ?thesis using 3 by (simp add: lex_render_string lex_punct)
    qed
  qed
  have items: "leaves_open 0 (lex pc fparse q)" if "prefix q ?body" for q
    by (rule cut_joined [OF _ _ _ that, of pc fparse ?toks])
       (use JObj cut in \<open>auto simp: list_all_iff toks_balanced lex_render_string lex_punct lex_render option.map_comp comp_def cons_append\<close>)
  have "p = [] \<or> (\<exists>q. p = 123 # q \<and> prefix q ?body)"
    using JObj.prems(3) by (cases p) (auto simp: strict_prefix_def prefix_snoc)
  then show ?case
    using items by (auto simp: lex_punct leaves_open_def)
next
  case JNull
  show ?case using cut_plain_value [OF JNull(2,3)] by simp
next
  case (JBool b)
  show ?case using cut_plain_value [OF JBool(2,3)] by simp
next
  case (JInt i)
  show ?case using cut_plain_value [OF JInt(2,3)] by simp
next
  case (JFloat f)
  show ?case using cut_plain_value [OF JFloat(2,3)] by simp
qed

text \<open>The form the log uses.\<close>

lemma cut_object_unreadable:
  assumes "json_wf (JObj d)" "floats_ok (float_text_ok frepr fparse) (JObj d)"
    and "strict_prefix p (render frepr (JObj d))"
  shows "json_loads pc fparse p = None"
proof (cases "json_loads pc fparse p")
  case (Some v)
  then obtain ts where ts: "lex pc fparse p = Some ts" by (auto simp: json_loads_def split: if_splits option.splits)
  have "p \<noteq> []" using Some by (auto simp: json_loads_def)
  then have "1 \<le> open_brackets ts" using cut_value [OF assms, of pc] by (simp add: ts)
  then show ?thesis using json_loads_balanced [OF Some ts] by simp
qed

end
