(* ===== verification/SessionFacts.thy ===== *)
theory SessionFacts
  imports Session JsonPrefix
begin

text \<open>
  The session log as a refinement: the abstract state of a store is the list of events that
  reading its file gives.  An append that succeeds adds one event to it, an append that fails
  anywhere, in the middle of the write included, leaves it as it is or adds the event whole.
\<close>

section \<open>Lines\<close>

lemma split_lines_Nil [simp]: "split_lines [] = []"
  by (simp add: split_lines.simps)

lemma split_lines_step: "bs \<noteq> [] \<Longrightarrow> split_lines bs = fst (next_line bs) # split_lines (snd (next_line bs))"
  by (subst split_lines.simps) simp

lemma next_line_plain: "10 \<notin> set t \<Longrightarrow> 13 \<notin> set t \<Longrightarrow>
  next_line t = (t, []) \<and> next_line (t @ 10 # r) = (t @ [10], r)"
  by (induction t) auto

lemma split_lines_plain:
  assumes "10 \<notin> set t" "13 \<notin> set t" "t \<noteq> []"
  shows "split_lines t = [t]" "split_lines (t @ [10]) = [t @ [10]]"
  using next_line_plain [OF assms(1,2), of "[]"] assms(3) by (simp_all add: split_lines_step)

lemma next_line_ended:
  "a \<noteq> [] \<Longrightarrow> last a = 10 \<Longrightarrow>
   next_line (a @ b) = (fst (next_line a), snd (next_line a) @ b) \<and>
   (snd (next_line a) = [] \<or> last (snd (next_line a)) = 10)"
proof (induction a)
  case (Cons c a)
  show ?case
  proof (cases "a = []")
    case True
    then show ?thesis using Cons.prems by simp
  next
    case False
    then have "last a = 10" using Cons.prems by simp
    moreover have "tl a = [] \<or> last (tl a) = 10" using \<open>last a = 10\<close> by (metis last_tl)
    ultimately show ?thesis using Cons.IH False by auto
  qed
qed simp

lemma split_lines_append:
  "a = [] \<or> last a = 10 \<Longrightarrow> split_lines (a @ b) = split_lines a @ split_lines b"
proof (induction a rule: split_lines.induct)
  case (1 a)
  show ?case
  proof (cases "a = []")
    case False
    then show ?thesis
      using 1 next_line_ended [of a b] by (simp add: split_lines_step)
  qed simp
qed

lemma next_line_open:
  "a \<noteq> [] \<Longrightarrow> last a \<noteq> 10 \<Longrightarrow>
   (snd (next_line a) = [] \<and> next_line (a @ [10]) = (fst (next_line a) @ [10], [])) \<or>
   (snd (next_line a) \<noteq> [] \<and> last (snd (next_line a)) \<noteq> 10 \<and> next_line (a @ [10]) = (fst (next_line a), snd (next_line a) @ [10]))"
proof (induction a)
  case (Cons c a)
  show ?case
  proof (cases a)
    case Nil
    then show ?thesis using Cons.prems by auto
  next
    case (Cons d a')
    then have "last a \<noteq> 10" using Cons.prems by simp
    moreover have "d = 10 \<Longrightarrow> a' \<noteq> [] \<and> last a' \<noteq> 10" using calculation Cons by (cases a') auto
    ultimately show ?thesis using Cons.IH \<open>a = d # a'\<close> by auto
  qed
qed simp

lemma split_lines_open:
  "a \<noteq> [] \<Longrightarrow> last a \<noteq> 10 \<Longrightarrow>
   \<exists>ls l. split_lines a = ls @ [l] \<and> split_lines (a @ [10]) = ls @ [l @ [10]] \<and> l \<noteq> [] \<and> last l \<noteq> 10"
proof (induction a rule: split_lines.induct)
  case (1 a)
  from next_line_open [OF "1.prems"] show ?case
  proof
    assume n: "snd (next_line a) = [] \<and> next_line (a @ [10]) = (fst (next_line a) @ [10], [])"
    then have "fst (next_line a) = a" using next_line_append [of a] by simp
    then show ?thesis using n "1.prems" by (simp add: split_lines_step)
  next
    assume n: "snd (next_line a) \<noteq> [] \<and> last (snd (next_line a)) \<noteq> 10 \<and>
      next_line (a @ [10]) = (fst (next_line a), snd (next_line a) @ [10])"
    then obtain ls l where "split_lines (snd (next_line a)) = ls @ [l]"
      "split_lines (snd (next_line a) @ [10]) = ls @ [l @ [10]]" "l \<noteq> []" "last l \<noteq> 10"
      using "1.IH" "1.prems" by blast
    then show ?thesis using n "1.prems"
      by (intro exI [of _ "fst (next_line a) # ls"] exI [of _ l]) (simp add: split_lines_step)
  qed
qed

lemma sum_split_lines: "sum_list (map length (split_lines a)) = length a"
proof (induction a rule: split_lines.induct)
  case (1 a)
  show ?case
  proof (cases "a = []")
    case False
    then show ?thesis using 1 arg_cong [OF next_line_append [of a], of length]
      by (simp add: split_lines_step)
  qed simp
qed

lemma line_content_plain:
  assumes "10 \<notin> set t" "13 \<notin> set t"
  shows "line_content t = t" "line_content (t @ [10]) = t"
proof -
  have "t \<noteq> [] \<Longrightarrow> last t \<noteq> 10 \<and> last t \<noteq> 13" using assms last_in_set [of t] by metis
  then show "line_content t = t" "line_content (t @ [10]) = t"
    by (auto simp: line_content_def drop_last_if_def)
qed

lemma line_content_open: "l \<noteq> [] \<Longrightarrow> last l \<noteq> 10 \<Longrightarrow> line_content (l @ [10]) = line_content l"
  by (simp add: line_content_def drop_last_if_def)

section \<open>Reading more lines\<close>

definition session_of :: "str option \<Rightarrow> EventEnvelope list \<Rightarrow> str option" where
  "session_of session es = (if es = [] then session else Some (ev_session_id (last es)))"

lemma read_lines_append:
  "read_lines pl n off (session_of ss es) es xs = Inr (es', []) \<Longrightarrow>
   read_lines pl n off (session_of ss es) es (xs @ ys) =
   read_lines pl (n + length xs) (off + sum_list (map length xs)) (session_of ss es') es' ys"
proof (induction xs arbitrary: n off es)
  case (Cons l ls)
  obtain e where e: "parse_record pl (line_content l) = Inr e" "follows (session_of ss es) es e"
    using Cons.prems by (auto split: sum.splits if_splits)
  have "session_of ss (es @ [e]) = Some (ev_session_id e)" by (simp add: session_of_def)
  then show ?case using e Cons.prems Cons.IH [of "Suc n" "off + length l" "es @ [e]"]
    by (simp add: add.assoc)
qed simp

text \<open>A last line that lacks its newline reads the same with it.\<close>

lemma read_lines_newline:
  assumes "read_lines pl n off ss es (ls @ [l]) = Inr (es', [])" "l \<noteq> []" "last l \<noteq> 10"
  shows "read_lines pl n off ss es (ls @ [l @ [10]]) = Inr (es', [])"
  using assms(1)
proof (induction ls arbitrary: n off ss es)
  case Nil
  then show ?case using assms(2,3) by (auto simp: line_content_open split: sum.splits if_splits)
next
  case (Cons k ls)
  then show ?case by (auto split: sum.splits if_splits)
qed

section \<open>A record's line\<close>

definition sort_obj :: "jobj \<Rightarrow> jobj" where
  "sort_obj d = sort_key fst (map (\<lambda>p. (fst p, sort_json (snd p))) d)"

text \<open>The event as it is read back: the same, with the payload's keys sorted.\<close>

definition stored :: "EventEnvelope \<Rightarrow> EventEnvelope" where
  "stored e = e\<lparr>ev_payload := sort_obj (ev_payload e)\<rparr>"

lemma stored_fields [simp]:
  "ev_session_id (stored e) = ev_session_id e" "ev_event_id (stored e) = ev_event_id e"
  "ev_sequence (stored e) = ev_sequence e" "ev_type (stored e) = ev_type e"
  by (simp_all add: stored_def)

text \<open>What the code relies on of the platform: the texts of the event's floats are JSON numbers
  that read back, and a canonical timestamp is its own canonical form.\<close>

definition event_floats_ok :: "platform \<Rightarrow> EventEnvelope \<Rightarrow> bool" where
  "event_floats_ok pl e \<longleftrightarrow> floats_ok (float_text_ok (pl_frepr pl) (pl_fparse pl)) (JObj (ev_payload e))"

definition timestamps_canonical :: "platform \<Rightarrow> bool" where
  "timestamps_canonical pl \<longleftrightarrow> (\<forall>s t. pl_fromiso pl s = Some t \<longrightarrow> pl_fromiso pl t = Some t)"

definition storable :: "platform \<Rightarrow> EventEnvelope \<Rightarrow> bool" where
  "storable pl e \<longleftrightarrow> EventEnvelope_ok (pl_fromiso pl) e \<and> ev_schema_version e = 1 \<and>
     json_wf (JObj (ev_payload e)) \<and> event_floats_ok pl e"

lemma envelope_dict_wf:
  "json_wf (JObj (ev_payload e)) \<Longrightarrow> json_wf (JObj (EventEnvelope_to_dict e))"
  by (simp add: EventEnvelope_to_dict_def json_opt_str_def split: option.split)

lemma envelope_dict_floats:
  "event_floats_ok pl e \<Longrightarrow> floats_ok (float_text_ok (pl_frepr pl) (pl_fparse pl)) (JObj (EventEnvelope_to_dict e))"
  by (simp add: EventEnvelope_to_dict_def event_floats_ok_def json_opt_str_def split: option.split)

text \<open>The bytes of a line: no newline or carriage return among them.\<close>

lemma escape_char_printable: "c \<in> set (escape_char d) \<Longrightarrow> 32 \<le> c"
  by (auto simp: escape_char_def Json.hex_digit_def split: if_splits)

lemma render_string_printable: "c \<in> set (render_string s) \<Longrightarrow> 32 \<le> c"
  using escape_char_printable by (auto simp: render_string_def)

lemma join_with_set: "set (join_with c xs) \<subseteq> insert c (\<Union> (set ` set xs))"
  by (induction c xs rule: join_with.induct) auto

lemma number_chars_printable: "c \<in> number_chars \<Longrightarrow> 32 \<le> c"
  by (auto simp: number_chars_def)

lemma render_printable:
  "floats_ok (float_text_ok frepr fparse) v \<Longrightarrow> c \<in> set (render frepr v) \<Longrightarrow> 32 \<le> c"
proof (induction v arbitrary: c rule: json_induct)
  case (JInt i)
  have "set (dec_int i) \<subseteq> number_chars" using lex_number_suffix [OF lex_number_int, of i] by simp
  then show ?case using JInt number_chars_printable by auto
next
  case (JFloat f)
  then show ?case using frepr_chars number_chars_printable by (cases f) fastforce+
next
  case (JStr s)
  then show ?case using render_string_printable by simp
next
  case (JArr xs)
  have "c \<in> {91, 93, 44} \<or> (\<exists>x \<in> set xs. c \<in> set (render frepr x))"
    using JArr.prems(2) join_with_set [of 44 "map (render frepr) xs"] by auto
  then show ?case using JArr by (auto simp: list_all_iff)
next
  case (JObj d)
  let ?item = "\<lambda>p. render_string (fst p) @ 58 # render frepr (snd p)"
  have "c \<in> {123, 125, 44} \<or> (\<exists>p \<in> set d. c \<in> set (?item p))"
    using JObj.prems(2) subsetD [OF join_with_set [of 44 "map ?item d"], of c] by (cases d) (auto split: if_splits)
  then show ?case
  proof
    assume "\<exists>p \<in> set d. c \<in> set (?item p)"
    then obtain p where p: "p \<in> set d" "c \<in> set (render_string (fst p)) \<or> c = 58 \<or> c \<in> set (render frepr (snd p))"
      by auto
    have "floats_ok (float_text_ok frepr fparse) (snd p)" using JObj.prems(1) p(1) by (simp add: list_all_iff)
    with p show ?thesis using JObj.IH [of p c] render_string_printable [of c "fst p"] by auto
  qed auto
qed (auto simp: lit_def split: if_splits)

lemma enc_cp_printable: "32 \<le> c \<Longrightarrow> b \<in> set (enc_cp c) \<Longrightarrow> 32 \<le> b"
  by (auto simp: enc_cp_def split: if_splits)

lemma enc_str_printable: "\<forall>c \<in> set s. 32 \<le> c \<Longrightarrow> b \<in> set (enc_str s) \<Longrightarrow> 32 \<le> b"
  by (induction s) (auto dest: enc_cp_printable)

definition line_text :: "platform \<Rightarrow> EventEnvelope \<Rightarrow> str" where
  "line_text pl e = canonical_text pl (EventEnvelope_to_dict e)"

lemma line_bytes:
  assumes "event_floats_ok pl e"
  shows "10 \<notin> set (enc_str (line_text pl e)) \<and> 13 \<notin> set (enc_str (line_text pl e)) \<and> enc_str (line_text pl e) \<noteq> []"
proof -
  have "\<forall>c \<in> set (line_text pl e). 32 \<le> c"
    unfolding line_text_def canonical_text_def
    using render_printable [of "pl_frepr pl" "pl_fparse pl"] sort_json_floats envelope_dict_floats [OF assms] by metis
  then have "\<forall>b \<in> set (enc_str (line_text pl e)). 32 \<le> b" using enc_str_printable by blast
  then have "10 \<notin> set (enc_str (line_text pl e))" "13 \<notin> set (enc_str (line_text pl e))" by fastforce+
  moreover have "line_text pl e \<noteq> []" by (simp add: line_text_def canonical_text_def)
  then have "enc_str (line_text pl e) \<noteq> []" by (cases "line_text pl e") simp_all
  ultimately show ?thesis by blast
qed

text \<open>Reading the line gives the event back.\<close>

lemma dict_lookup:
  assumes "json_wf (JObj d)"
  shows "dget (sort_key fst (map (\<lambda>p. (fst p, sort_json (snd p))) d)) k = map_option sort_json (dget d k)"
proof -
  have "distinct (map fst (map (\<lambda>p. (fst p, sort_json (snd p))) d))" using assms by (simp add: comp_def)
  then have "dget (sort_key fst (map (\<lambda>p. (fst p, sort_json (snd p))) d)) k = dget (map (\<lambda>p. (fst p, sort_json (snd p))) d) k"
    by (rule sort_key_dget)
  also have "\<dots> = map_option sort_json (dget d k)" by (induction d) auto
  finally show ?thesis .
qed

lemma sort_json_opt_str [simp]: "sort_json (json_opt_str s) = json_opt_str s"
  by (cases s) (simp_all add: json_opt_str_def)

lemma coerce_optional_opt_str [simp]:
  "coerce_optional (json_opt_str s) k = Inr t \<longleftrightarrow> t = s \<and> (\<forall>i. s = Some i \<longrightarrow> id_ok k i)"
  by (cases s) (auto simp: json_opt_str_def bindR_Inr_iff coerce_json_Inr simp del: json_id_arg.simps coerce_identifier.simps)

lemma record_roundtrip:
  assumes ok: "storable pl e" and ts: "timestamps_canonical pl"
  shows "envelope_from_record pl (sort_key fst (map (\<lambda>p. (fst p, sort_json (snd p))) (EventEnvelope_to_dict e))) = Inr (stored e)"
proof -
  let ?d = "sort_key fst (map (\<lambda>p. (fst p, sort_json (snd p))) (EventEnvelope_to_dict e))"
  have wf: "json_wf (JObj (EventEnvelope_to_dict e))" using ok envelope_dict_wf by (simp add: storable_def)
  have f: "field_or_none ?d ''schema_version'' = JInt (ev_schema_version e)"
    "field_or_none ?d ''session_id'' = JStr (ev_session_id e)" "field_or_none ?d ''event_id'' = JStr (ev_event_id e)"
    "field_or_none ?d ''agent_id'' = JStr (ev_agent_id e)" "field_or_none ?d ''sequence'' = JInt (ev_sequence e)"
    "field_or_none ?d ''type'' = JStr (ev_type e)" "field_or_none ?d ''timestamp'' = JStr (ev_timestamp e)"
    "field_or_none ?d ''parent_agent_id'' = json_opt_str (ev_parent_agent_id e)"
    "field_or_none ?d ''correlation_id'' = json_opt_str (ev_correlation_id e)"
    "field_or_none ?d ''provider_tool_call_id'' = json_opt_str (ev_provider_tool_call_id e)"
    "field_or_none ?d ''payload'' = JObj (sort_obj (ev_payload e))"
    unfolding field_or_none_def dict_lookup [OF wf]
    by (simp_all add: EventEnvelope_to_dict_def sort_obj_def)
  have r: "list_all (has_key ?d) required_fields"
    unfolding has_key_def dict_lookup [OF wf] by (simp add: required_fields_def EventEnvelope_to_dict_def)
  have iso: "pl_fromiso pl (ev_timestamp e) = Some (ev_timestamp e)"
    using ok ts by (auto simp: storable_def EventEnvelope_ok_def timestamps_canonical_def)
  show ?thesis
    using ok r iso unfolding envelope_from_record_def f storable_def EventEnvelope_ok_def
    by (simp add: bindR_Inr_iff mk_EventEnvelope_def coerce_json_Inr stored_def del: json_id_arg.simps coerce_identifier.simps)
qed

lemma parse_line:
  assumes ok: "storable pl e" and ts: "timestamps_canonical pl" and enc: "encodable (line_text pl e)"
  shows "parse_record pl (enc_str (line_text pl e)) = Inr (stored e)"
proof -
  have "json_wf (JObj (EventEnvelope_to_dict e))" "event_floats_ok pl e" using ok envelope_dict_wf by (simp_all add: storable_def)
  then have "json_loads False (pl_fparse pl) (line_text pl e) = Some (sort_json (JObj (EventEnvelope_to_dict e)))"
    unfolding line_text_def canonical_text_def
    using loads_canonical(2) [OF _ envelope_dict_floats, where pc = False] by blast
  then have "json_object pl (enc_str (line_text pl e))
      = Inr (sort_key fst (map (\<lambda>p. (fst p, sort_json (snd p))) (EventEnvelope_to_dict e)))"
    by (simp add: json_object_def utf8_decode_enc_str [OF enc])
  then show ?thesis
    using line_bytes [of pl e] ok record_roundtrip [OF ok ts] by (simp add: parse_record_def storable_def)
qed

text \<open>A line cut anywhere is no record.\<close>

lemma decode_cut:
  assumes "encodable s" "n < length (enc_str s)" "utf8_decode (take n (enc_str s)) = Inr t"
  shows "strict_prefix t s"
proof -
  have "None \<notin> set rs \<Longrightarrow> filter (\<lambda>r. r \<noteq> None) rs = rs" for rs :: "nat option list"
    by (induction rs) (auto, metis not_Some_eq)
  then have "utf8_decode_ignore (take n (enc_str s)) = t"
    using assms(3) by (auto simp: utf8_decode_def utf8_decode_ignore_def split: if_splits)
  then have "prefix t s" "utf8_len t \<le> n" using decode_ignore_take [OF assms(1), of n] by auto
  then show ?thesis using assms(2) by (auto simp: strict_prefix_def utf8_len_def)
qed

lemma parse_cut_line:
  assumes ok: "storable pl e" and enc: "encodable (line_text pl e)"
    and n: "n < length (enc_str (line_text pl e))"
  shows "\<exists>x. parse_record pl (take n (enc_str (line_text pl e))) = Inl x"
proof (cases "utf8_decode (take n (enc_str (line_text pl e)))")
  case (Inl x)
  then show ?thesis by (auto simp: parse_record_def json_object_def)
next
  case (Inr t)
  have "strict_prefix t (line_text pl e)" by (rule decode_cut [OF enc n Inr])
  then have cut: "strict_prefix t (render (pl_frepr pl) (sort_json (JObj (EventEnvelope_to_dict e))))"
    by (simp add: line_text_def canonical_text_def)
  have wf: "json_wf (sort_json (JObj (EventEnvelope_to_dict e)))"
    using ok envelope_dict_wf sort_json_wf unfolding storable_def by blast
  have fl: "floats_ok (float_text_ok (pl_frepr pl) (pl_fparse pl)) (sort_json (JObj (EventEnvelope_to_dict e)))"
    using ok envelope_dict_floats sort_json_floats unfolding storable_def by blast
  have "json_loads False (pl_fparse pl) t = None"
    using cut_object_unreadable [OF wf [unfolded sort_json.simps] fl [unfolded sort_json.simps] cut [unfolded sort_json.simps]] .
  then show ?thesis using Inr by (simp add: parse_record_def json_object_def)
qed

section \<open>The file after a write\<close>

definition read_bytes :: "platform \<Rightarrow> nat list \<Rightarrow> session_exn + EventEnvelope list \<times> SessionDiagnostic list" where
  "read_bytes pl data = read_lines pl 1 0 None [] (split_lines data)"

definition data_of :: "nat list option \<Rightarrow> nat list" where
  "data_of file = (case file of None \<Rightarrow> [] | Some b \<Rightarrow> b)"

lemma data_of_Some [simp]: "data_of (Some b) = b"
  by (simp add: data_of_def)

text \<open>What \<open>read_session\<close> gives, as events alone.\<close>

lemma read_session_bytes:
  "read_session pl None file =
     (case read_bytes pl (data_of file) of
        Inl e \<Rightarrow> Inl e
      | Inr (es, ds) \<Rightarrow> Inr \<lparr>sr_events = es, sr_diagnostics = ds,
          sr_ended_with_newline = (data_of file = [] \<or> is_complete (data_of file))\<rparr>)"
  by (cases "file")
    (auto simp: read_session_def optional_session_id_def read_bytes_def data_of_def empty_read_def split: sum.split)

definition line_end :: "nat list \<Rightarrow> bool" where
  "line_end a \<longleftrightarrow> a = [] \<or> last a = 10"

lemma read_bytes_more:
  assumes "read_bytes pl a = Inr (es, [])" "line_end a"
  shows "read_bytes pl (a @ b) =
    read_lines pl (Suc (length (split_lines a))) (length a) (session_of None es) es (split_lines b)"
  using read_lines_append [of pl 1 0 None "[]" "split_lines a" es "split_lines b"] assms
  by (simp add: read_bytes_def session_of_def split_lines_append line_end_def sum_split_lines)

lemma read_bytes_newline:
  assumes "read_bytes pl a = Inr (es, [])" "\<not> line_end a"
  shows "read_bytes pl (a @ [10]) = Inr (es, [])"
proof -
  obtain ls l where "split_lines a = ls @ [l]" "split_lines (a @ [10]) = ls @ [l @ [10]]" "l \<noteq> []" "last l \<noteq> 10"
    using split_lines_open [of a] assms(2) by (auto simp: line_end_def)
  then show ?thesis using read_lines_newline assms(1) by (simp add: read_bytes_def)
qed

text \<open>The file after the first \<open>n\<close> bytes of a record's line.\<close>

lemma read_after_line:
  assumes a: "read_bytes pl a = Inr (es, [])" "line_end a"
    and e: "storable pl e" "timestamps_canonical pl" "encodable (line_text pl e)" "follows (session_of None es) es e"
  shows "read_bytes pl (a @ take n (enc_str (line_text pl e) @ [10])) =
    (if n = 0 then Inr (es, [])
     else if n < length (enc_str (line_text pl e))
     then Inr (es, [\<lparr>dg_line_number = Suc (length (split_lines a)), dg_byte_offset = length a, dg_byte_length = n\<rparr>])
     else Inr (es @ [stored e], []))"
proof -
  let ?t = "enc_str (line_text pl e)"
  have b: "10 \<notin> set ?t" "13 \<notin> set ?t" "?t \<noteq> []" using line_bytes e(1) by (auto simp: storable_def)
  have f: "follows (session_of None es) es (stored e)" using e(4) by (simp add: follows_def)
  show ?thesis
  proof (cases "n < length ?t")
    case True
    have c: "10 \<notin> set (take n ?t)" "13 \<notin> set (take n ?t)" using b by (auto dest: in_set_takeD)
    obtain x where x: "parse_record pl (take n ?t) = Inl x" using parse_cut_line [OF e(1,3) True] by blast
    have "\<not> is_complete (take n ?t)" using c(1) last_in_set [of "take n ?t"] unfolding is_complete_def by metis
    then show ?thesis
      using True a(1) read_bytes_more [OF a] split_lines_plain [OF c] line_content_plain [OF c] x b(3)
      by (cases n) simp_all
  next
    case False
    have "read_bytes pl (a @ take n (?t @ [10])) = Inr (es @ [stored e], [])"
      using False b(3) read_bytes_more [OF a] split_lines_plain [OF b] line_content_plain [OF b(1,2)]
        parse_line [OF e(1-3)] f by (cases "n = length ?t") simp_all
    then show ?thesis using False b(3) by (cases n) auto
  qed
qed

text \<open>The same with the separator that a file without a last newline needs.\<close>

lemma read_after_write:
  assumes a: "read_bytes pl a = Inr (es, [])" "sep \<longleftrightarrow> \<not> line_end a"
    and e: "storable pl e" "timestamps_canonical pl" "encodable (line_text pl e)" "follows (session_of None es) es e"
  shows "(\<exists>ds. read_bytes pl (a @ take n (enc_str (record_line pl sep e))) = Inr (es, ds)) \<or>
     read_bytes pl (a @ take n (enc_str (record_line pl sep e))) = Inr (es @ [stored e], [])"
    and "read_bytes pl (a @ enc_str (record_line pl sep e)) = Inr (es @ [stored e], [])"
proof -
  let ?t = "enc_str (line_text pl e)"
  have t: "enc_str (record_line pl sep e) = (if sep then [10] else []) @ ?t @ [10]"
    by (simp add: record_line_def line_text_def enc_cp_def)
  have base: "read_bytes pl (if sep then a @ [10] else a) = Inr (es, [])" "line_end (if sep then a @ [10] else a)"
    using a read_bytes_newline by (auto simp: line_end_def)
  note after = read_after_line [OF base e]
  show "(\<exists>ds. read_bytes pl (a @ take n (enc_str (record_line pl sep e))) = Inr (es, ds)) \<or>
     read_bytes pl (a @ take n (enc_str (record_line pl sep e))) = Inr (es @ [stored e], [])"
  proof (cases "sep \<and> n = 0")
    case True
    then show ?thesis using a(1) by simp
  next
    case False
    have "a @ take n (enc_str (record_line pl sep e)) =
        (if sep then a @ [10] else a) @ take (if sep then n - 1 else n) (?t @ [10])"
      using False by (cases n) (auto simp: t)
    then show ?thesis using after [of "if sep then n - 1 else n"] by (auto split: if_splits)
  qed
  show "read_bytes pl (a @ enc_str (record_line pl sep e)) = Inr (es @ [stored e], [])"
    using after [of "Suc (length ?t)"] by (auto simp: t split: if_splits)
qed

section \<open>What reading guarantees\<close>

definition log_ok :: "EventEnvelope list \<Rightarrow> bool" where
  "log_ok es \<longleftrightarrow> sorted_wrt (<) (map ev_sequence es) \<and> distinct (map ev_event_id es) \<and>
     (\<forall>e \<in> set es. ev_session_id e = ev_session_id (last es))"

lemma sorted_wrt_snoc_last:
  "sorted_wrt (<) (map ev_sequence es) \<Longrightarrow> (es \<noteq> [] \<Longrightarrow> ev_sequence (last es) < ev_sequence e) \<Longrightarrow>
   sorted_wrt (<) (map ev_sequence (es @ [e]))"
proof (cases es rule: rev_cases)
  case (snoc fs f)
  assume "sorted_wrt (<) (map ev_sequence es)" "es \<noteq> [] \<Longrightarrow> ev_sequence (last es) < ev_sequence e"
  then show ?thesis using snoc by (force simp: sorted_wrt_append)
qed simp

lemma log_ok_snoc:
  assumes "log_ok es" "follows (session_of ss es) es e"
  shows "log_ok (es @ [e])"
proof -
  have seq: "sorted_wrt (<) (map ev_sequence (es @ [e]))"
    using assms by (intro sorted_wrt_snoc_last) (auto simp: log_ok_def follows_def)
  have "es \<noteq> [] \<Longrightarrow> ev_session_id e = ev_session_id (last es)"
    using assms(2) by (simp add: follows_def session_of_def)
  then have "\<forall>f \<in> set es. ev_session_id f = ev_session_id e"
    using assms(1) unfolding log_ok_def by (metis empty_iff list.set(1))
  then show ?thesis using seq assms by (simp add: log_ok_def follows_def)
qed

lemma read_lines_ok:
  "log_ok es \<Longrightarrow> read_lines pl n off (session_of ss es) es ls = Inr (es', ds) \<Longrightarrow> log_ok es' \<and> length ds \<le> 1"
proof (induction ls arbitrary: n off es)
  case (Cons l ls)
  show ?case
  proof (cases "parse_record pl (line_content l)")
    case (Inl x)
    then show ?thesis using Cons.prems by (auto split: if_splits)
  next
    case (Inr e)
    then have f: "follows (session_of ss es) es e" using Cons.prems(2) by (auto split: if_splits)
    have "session_of ss (es @ [e]) = Some (ev_session_id e)" by (simp add: session_of_def)
    then show ?thesis using Inr f Cons.prems(2) Cons.IH [OF log_ok_snoc [OF Cons.prems(1) f], of "Suc n" "off + length l"]
      by simp
  qed
qed simp

lemma read_bytes_ok: "read_bytes pl data = Inr (es, ds) \<Longrightarrow> log_ok es \<and> length ds \<le> 1"
  using read_lines_ok [of "[]" pl 1 0 None "split_lines data" es ds]
  by (simp add: read_bytes_def session_of_def log_ok_def)

lemma read_lines_grows:
  "read_lines pl n off ss es ls = Inr (es', []) \<Longrightarrow> length es' = length es + length ls"
proof (induction ls arbitrary: n off ss es)
  case (Cons l ls)
  then show ?case by (fastforce split: sum.splits if_splits)
qed simp

lemma read_bytes_empty: "read_bytes pl data = Inr ([], []) \<Longrightarrow> data = []"
  using read_lines_grows [of pl 1 0 None "[]" "split_lines data" "[]"]
  by (cases "data = []") (auto simp: read_bytes_def split_lines_step)

section \<open>The store's invariant\<close>

text \<open>\<open>es\<close> is the abstract state: the events in the file.\<close>

definition StoreInv :: "platform \<Rightarrow> SessionStore \<Rightarrow> EventEnvelope list \<Rightarrow> bool" where
  "StoreInv pl s es \<longleftrightarrow>
     read_bytes pl (data_of (st_file s)) = Inr (es, []) \<and> \<not> st_write_failed s \<and> st_tail s = None \<and>
     st_event_ids s = set (map ev_event_id es) \<and>
     st_next_sequence s = (if es = [] then 1 else ev_sequence (last es) + 1) \<and>
     (st_needs_separator s \<longleftrightarrow> \<not> line_end (data_of (st_file s))) \<and>
     (es \<noteq> [] \<longrightarrow> st_session_id s = Some (ev_session_id (last es)))"

lemma suffixed_id_fresh: "suffixed_id base ids k n = Some c \<Longrightarrow> c \<notin> ids"
  by (induction n arbitrary: k) (auto split: sum.splits if_splits)

lemma unique_id_fresh: "lit ''event_'' @ uuid ids \<notin> ids \<Longrightarrow> unique_generated_id uuid base ids \<notin> ids"
  by (auto simp: unique_generated_id_def split: option.split dest: suffixed_id_fresh)

lemma search_preview_cases:
  "search_preview c fits low high best = best \<or>
   (\<exists>n. search_preview c fits low high best = c n \<and> fits (c n) \<and> low \<le> n \<and> n \<le> high)"
proof (induction c fits low high best rule: search_preview.induct)
  case (1 c fits low high best)
  show ?case
  proof (cases "low \<le> high")
    case True
    let ?m = "(low + high) div 2"
    have m: "low \<le> ?m" "?m \<le> high" using True by simp_all
    show ?thesis
    proof (cases "fits (c ?m)")
      case fit: True
      from "1.IH"(1) [OF True refl fit] show ?thesis
        using True fit m by (subst (1 2) search_preview.simps) (auto simp: Let_def)
    next
      case no: False
      from "1.IH"(2) [OF True refl no] show ?thesis
        using True no m by (subst (1 2) search_preview.simps) (auto simp: Let_def)
    qed
  next
    case False
    then show ?thesis by (subst search_preview.simps) simp
  qed
qed

lemma bounded_payload_ok:
  assumes "bounded_payload pl payload limit = Inr p"
  shows "payload_size pl p \<le> limit \<and>
    (p = payload \<or> (\<exists>n. p = preview (canonical_text pl payload) (payload_size pl payload) limit n))"
proof -
  let ?t = "canonical_text pl payload"
  have t: "canonical_json (pl_frepr pl) (JObj payload) = Inr ?t" "encodable ?t"
    using assms by (auto simp: bounded_payload_def bindR_Inr_iff canonical_json_Inr canonical_text_def)
  have size: "int (length (enc_str ?t)) = payload_size pl payload" by (simp add: payload_size_def utf8_len_def)
  let ?c = "preview ?t (payload_size pl payload) limit"
  have "p = payload \<and> payload_size pl payload \<le> limit \<or>
      p = search_preview ?c (\<lambda>c. payload_size pl c \<le> limit) 0 (int (length ?t)) (?c 0) \<and> payload_size pl p \<le> limit"
    using assms t size by (auto simp: bounded_payload_def utf8_encode_def Let_def split: if_splits)
  then show ?thesis
    using search_preview_cases [of ?c "\<lambda>c. payload_size pl c \<le> limit" 0 "int (length ?t)" "?c 0"] by auto
qed

lemma preview_wf [simp]: "json_wf (JObj (preview t n limit k))" "floats_ok P (JObj (preview t n limit k))"
  by (simp_all add: preview_def Let_def)

definition pending_floats_ok :: "platform \<Rightarrow> PendingEvent \<Rightarrow> bool" where
  "pending_floats_ok pl ev \<longleftrightarrow>
     floats_ok (float_text_ok (pl_frepr pl) (pl_fparse pl)) (JObj (safe_items pl 0 [] 0 (pe_payload ev)))"

lemma canonicalize_payload:
  "canonicalize_event pl fresh now forced n ev = Inr e \<Longrightarrow>
   ev_payload e = safe_items pl 0 [] 0 (pe_payload ev) \<and> JStr (ev_session_id e) = pe_session_id ev"
  unfolding canonicalize_event_def
  by (auto simp: bindR_Inr_iff dest!: mk_EventEnvelope_fields split: option.splits if_splits)

lemma set_payload_storable:
  assumes "canonicalize_event pl fresh now forced n ev = Inr e" "set_payload pl limit e = Inr e'" "pending_floats_ok pl ev"
  shows "storable pl e' \<and> ev_sequence e' = n \<and> ev_event_id e' = ev_event_id e \<and> ev_session_id e' = ev_session_id e \<and>
    payload_size pl (ev_payload e') \<le> limit"
proof -
  obtain p where p: "bounded_payload pl (ev_payload e) limit = Inr p" "e' = e\<lparr>ev_payload := p\<rparr>"
    using assms(2) by (auto simp: set_payload_def bindR_Inr_iff)
  have e: "EventEnvelope_ok (pl_fromiso pl) e" "ev_schema_version e = 1" "ev_sequence e = n"
    "json_wf (JObj (ev_payload e))"
    using canonicalize_event_ok [OF assms(1)] by (simp_all add: safe_image_def)
  have "json_wf (JObj p) \<and> floats_ok (float_text_ok (pl_frepr pl) (pl_fparse pl)) (JObj p)"
    using bounded_payload_ok [OF p(1)] e(4) canonicalize_payload [OF assms(1)] assms(3) unfolding pending_floats_ok_def
    by (metis preview_wf)
  then show ?thesis
    using bounded_payload_ok [OF p(1)] e p(2) by (simp add: storable_def event_floats_ok_def EventEnvelope_ok_def)
qed

end
