(* ===== verification/SessionStoreProps.thy ===== *)
theory SessionStoreProps
  imports SessionFacts
begin

text \<open>
  The refinement of the session store by its file: each append against the abstract log, runs
  of appends with failures, and the recovery after a crash.
\<close>

section \<open>One append\<close>

lemma prepare_ok:
  assumes inv: "StoreInv pl s es" and fl: "pending_floats_ok pl ev" and uuid: "lit ''event_'' @ ae_uuid env (st_event_ids s) \<notin> st_event_ids s"
    and p: "prepare pl env ev s = (s', r)"
  shows "(s' = s \<or> (\<exists>sid. s' = s\<lparr>st_session_id := Some sid\<rparr> \<and> (es \<noteq> [] \<longrightarrow> st_session_id s = Some sid))) \<and>
    (\<forall>e. r = Inr e \<longrightarrow> storable pl e \<and> ev_sequence e = st_next_sequence s \<and> follows (session_of None es) es e \<and>
       st_session_id s' = Some (ev_session_id e) \<and> payload_size pl (ev_payload e) \<le> st_limit s)"
proof (cases "canonicalize_event pl (ae_fresh env) (ae_now env) None (st_next_sequence s) ev")
  case (Inl x)
  then show ?thesis using p by (auto simp: prepare_def)
next
  case (Inr e0)
  note e0 = Inr
  show ?thesis
  proof (cases "st_session_id s \<noteq> None \<and> st_session_id s \<noteq> Some (ev_session_id e0)")
    case True
    then show ?thesis using p e0 by (auto simp: prepare_def)
  next
    case False
    let ?s' = "s\<lparr>st_session_id := Some (ev_session_id e0)\<rparr>"
    have sid: "es \<noteq> [] \<longrightarrow> st_session_id s = Some (ev_session_id e0) \<and> ev_session_id (last es) = ev_session_id e0"
      using inv False by (auto simp: StoreInv_def)
    have finish: "storable pl e \<and> ev_sequence e = st_next_sequence s \<and> follows (session_of None es) es e \<and>
        ev_session_id e0 = ev_session_id e \<and> payload_size pl (ev_payload e) \<le> st_limit s"
      if c: "canonicalize_event pl fresh now forced (st_next_sequence s) ev = Inr e1"
        and new: "ev_event_id e1 \<notin> st_event_ids s" and e: "set_payload pl (st_limit s) e1 = Inr e" for fresh now forced e1 e
    proof -
      note f = set_payload_storable [OF c e fl]
      have same: "ev_session_id e = ev_session_id e0"
        using f canonicalize_payload [OF c] canonicalize_payload [OF e0] by (metis json.inject(4))
      have "follows (session_of None es) es e"
        using f new inv sid same by (auto simp: follows_def session_of_def StoreInv_def)
      then show ?thesis using f same by simp
    qed
    have "prepare pl env ev s = (?s', r) \<and> s' = ?s'"
      using p e0 False by (auto simp: prepare_def Let_def split: sum.splits if_splits)
    moreover have "storable pl e \<and> ev_sequence e = st_next_sequence s \<and> follows (session_of None es) es e \<and>
        ev_session_id e0 = ev_session_id e \<and> payload_size pl (ev_payload e) \<le> st_limit s" if r: "r = Inr e" for e
    proof (cases "ev_event_id e0 \<in> st_event_ids s")
      case True
      let ?id = "unique_generated_id (ae_uuid env) (ev_event_id e0) (st_event_ids s)"
      obtain e1 where e1: "canonicalize_event pl (ae_fresh env) (ae_now_again env) (Some ?id) (st_next_sequence s) ev = Inr e1"
        "set_payload pl (st_limit s) e1 = Inr e"
        using p e0 False True r by (auto simp: prepare_def Let_def split: sum.splits if_splits)
      have "ev_event_id e1 = ?id" using canonicalize_event_ok [OF e1(1)] by simp
      then show ?thesis using finish [OF e1(1) _ e1(2)]
        unique_id_fresh [where uuid = "ae_uuid env" and ids = "st_event_ids s", OF uuid] by simp
    next
      case False
      have "set_payload pl (st_limit s) e0 = Inr e"
        using p e0 \<open>\<not> (st_session_id s \<noteq> None \<and> st_session_id s \<noteq> Some (ev_session_id e0))\<close> False r
        by (auto simp: prepare_def Let_def split: sum.splits if_splits)
      then show ?thesis using finish [OF e0 False] by simp
    qed
    ultimately show ?thesis using sid by auto
  qed
qed

text \<open>Appending a stored event keeps the invariant.\<close>

lemma StoreInv_snoc:
  assumes "StoreInv pl s es" "read_bytes pl b = Inr (es @ [stored e], [])" "line_end b"
    and "ev_sequence e = st_next_sequence s" "st_session_id s' = Some (ev_session_id e)"
    and "s' = s\<lparr>st_session_id := st_session_id s', st_file := Some b, st_event_ids := insert (ev_event_id e) (st_event_ids s),
        st_next_sequence := st_next_sequence s + 1, st_needs_separator := False\<rparr>"
  shows "StoreInv pl s' (es @ [stored e])"
  using assms(1-5) by (subst assms(6)) (auto simp: StoreInv_def)

text \<open>What one append may do: add one event to the log, refuse and leave the file as it is, or
  stop in the middle of the write, where the log is as before or has the event whole.\<close>

definition append_outcome ::
  "platform \<Rightarrow> SessionStore \<Rightarrow> EventEnvelope list \<Rightarrow> SessionStore \<Rightarrow> session_exn + EventEnvelope \<Rightarrow> bool" where
  "append_outcome pl s es s' r \<longleftrightarrow>
     (case r of
        Inr e \<Rightarrow> StoreInv pl s' (es @ [stored e]) \<and> ev_sequence e = st_next_sequence s \<and>
          payload_size pl (ev_payload e) \<le> st_limit s
      | Inl _ \<Rightarrow>
          StoreInv pl s' es \<and> st_file s' = st_file s \<or>
          st_write_failed s' \<and>
            (\<exists>ds. read_bytes pl (data_of (st_file s')) = Inr (es, ds)) \<or>
          st_write_failed s' \<and> (\<exists>e. read_bytes pl (data_of (st_file s')) = Inr (es @ [stored e], [])))"

lemma store_append_outcome:
  assumes inv: "StoreInv pl s es" and fl: "pending_floats_ok pl ev" and ts: "timestamps_canonical pl"
    and uuid: "lit ''event_'' @ ae_uuid env (st_event_ids s) \<notin> st_event_ids s"
    and a: "store_append pl env ev s = (s', r)"
  shows "append_outcome pl s es s' r"
proof -
  have keep: "append_outcome pl s es s (Inl x)" for x using inv by (simp add: append_outcome_def)
  obtain s1 q where p: "prepare pl env ev s = (s1, q)" by (cases "prepare pl env ev s")
  note ok = prepare_ok [OF inv fl uuid p]
  have inv1: "StoreInv pl s1 es" "st_file s1 = st_file s"
    using ok inv by (auto simp: StoreInv_def)
  show ?thesis
  proof (cases "st_closed s")
    case True
    then show ?thesis using a keep by (simp add: store_append_def) (metis Pair_inject)
  next
    case False
    have open_store: "\<not> st_write_failed s" "st_tail s = None" using inv by (simp_all add: StoreInv_def)
    show ?thesis
    proof (cases q)
      case (Inl x)
      then have "s' = s1" "r = Inl x" using a p False open_store by (simp_all add: store_append_def)
      then show ?thesis using inv1 by (simp add: append_outcome_def)
    next
      case (Inr e)
      have e: "storable pl e" "ev_sequence e = st_next_sequence s" "follows (session_of None es) es e"
        "st_session_id s1 = Some (ev_session_id e)" "payload_size pl (ev_payload e) \<le> st_limit s"
        using ok Inr by auto
      let ?old = "data_of (st_file s)" and ?sep = "st_needs_separator s1"
      let ?line = "record_line pl ?sep e"
      obtain b w where w: "write_line (ae_stopped_after env) ?line (st_file s1) = (b, w)"
        by (cases "write_line (ae_stopped_after env) ?line (st_file s1)")
      have base: "read_bytes pl ?old = Inr (es, [])" "?sep \<longleftrightarrow> \<not> line_end ?old"
        using inv1 by (simp_all add: StoreInv_def)
      have out: "(s', r) = (if w then (s1\<lparr>st_file := Some b, st_event_ids := insert (ev_event_id e) (st_event_ids s1),
              st_next_sequence := st_next_sequence s1 + 1, st_needs_separator := False\<rparr>, Inr e)
          else (s1\<lparr>st_file := Some b, st_write_failed := True\<rparr>,
              Inl (SessionWriteError (lit ''session append did not complete''))))"
        using a p w Inr False open_store by (cases w) (auto simp: store_append_def)
      show ?thesis
      proof (cases "encodable ?line")
        case False
        then have "b = ?old" "\<not> w"
          using w inv1(2) by (auto simp: write_line_def utf8_encode_def Let_def data_of_def split: option.splits)
        then show ?thesis using out base by (auto simp: append_outcome_def)
      next
        case True
        then have enc: "encodable (line_text pl e)" by (simp add: record_line_def line_text_def)
        note rd = read_after_write [OF base e(1) ts enc e(3)]
        show ?thesis
        proof (cases "ae_stopped_after env")
          case None
          then have b: "b = ?old @ enc_str ?line" "w"
            using w True inv1(2) by (auto simp: write_line_def utf8_encode_def Let_def data_of_def split: option.splits)
          have end_b: "line_end b" by (simp add: b record_line_def line_end_def enc_cp_def)
          have "st_next_sequence s1 = st_next_sequence s" using ok by auto
          then have "StoreInv pl s' (es @ [stored e])"
            using out b(2) by (intro StoreInv_snoc [OF inv1(1) rd(2) [folded b(1)] end_b]) (auto simp: e)
          then show ?thesis using out b(2) e by (simp add: append_outcome_def)
        next
          case (Some n)
          then have b: "b = ?old @ take n (enc_str ?line)" "\<not> w"
            using w True inv1(2) by (auto simp: write_line_def utf8_encode_def Let_def data_of_def split: option.splits)
          have s': "st_file s' = Some b" "st_write_failed s'" "\<exists>x. r = Inl x" using out b(2) by simp_all
          then show ?thesis using rd(1) [of n] b by (auto simp: append_outcome_def)
        qed
      qed
    qed
  qed
qed

section \<open>Opening a store\<close>

lemma read_lines_any_session:
  "read_lines pl n off (Some sid) [] ls = Inr (es, ds) \<Longrightarrow>
   read_lines pl n off None [] ls = Inr (es, ds) \<and> (es \<noteq> [] \<longrightarrow> ev_session_id (last es) = sid)"
proof (cases ls)
  case (Cons l ls')
  assume a: "read_lines pl n off (Some sid) [] ls = Inr (es, ds)"
  show ?thesis
  proof (cases "parse_record pl (line_content l)")
    case (Inl x)
    then show ?thesis using a Cons by (auto split: if_splits)
  next
    case (Inr e)
    then have f: "ev_session_id e = sid" using a Cons by (auto simp: follows_def split: if_splits)
    have s: "session_of None [e] = Some sid" using f by (simp add: session_of_def)
    have rest: "read_lines pl (Suc n) (off + length l) (session_of None [e]) [e] ls' = Inr (es, ds)"
      using a Cons Inr f s by (auto split: if_splits)
    have "log_ok [e]" by (simp add: log_ok_def)
    from read_lines_ok [OF this rest] have "log_ok es" by simp
    moreover have "e \<in> set es"
      using rest
    proof -
      have "read_lines pl m o' ss fs ks = Inr (es, ds) \<Longrightarrow> set fs \<subseteq> set es" for m o' ss fs ks
        by (induction ks arbitrary: m o' ss fs) (fastforce split: sum.splits if_splits)+
      then show ?thesis using rest by fastforce
    qed
    ultimately have "ev_session_id (last es) = sid" using f by (auto simp: log_ok_def)
    then show ?thesis using rest s Cons Inr f by (simp add: follows_def)
  qed
qed simp

lemma read_session_expected:
  assumes "read_session pl (map_option PlainStr sid) file = Inr r"
  shows "\<exists>es ds. read_bytes pl (data_of file) = Inr (es, ds) \<and> sr_events r = es \<and> sr_diagnostics r = ds \<and>
    (sr_ended_with_newline r \<longleftrightarrow> line_end (data_of file)) \<and> (es \<noteq> [] \<and> sid \<noteq> None \<longrightarrow> sid = Some (ev_session_id (last es)))"
proof (cases "data_of file = []")
  case True
  then have "r = empty_read" using assms by (cases "file") (auto simp: read_session_def data_of_def)
  then show ?thesis using True by (auto simp: empty_read_def read_bytes_def line_end_def)
next
  case False
  then obtain b where b: "file = Some b" "b \<noteq> []" by (cases "file") (auto simp: data_of_def)
  obtain ses es ds where r: "read_lines pl 1 0 ses [] (split_lines b) = Inr (es, ds)" "ses = sid"
    "sr_events r = es" "sr_diagnostics r = ds" "sr_ended_with_newline r = is_complete b"
    using assms b by (cases sid) (auto simp: read_session_def optional_session_id_def bindR_Inr_iff new_identifier_def split: sum.splits if_splits)
  then show ?thesis
    using b read_lines_any_session [of pl 1 0 _ "split_lines b" es ds]
    by (cases sid) (auto simp: read_bytes_def is_complete_def line_end_def)
qed

lemma chosen_limit_ok: "chosen_limit m o1 o2 = Inr limit \<Longrightarrow> 128 \<le> limit"
  by (cases "o1 = JNull"; cases "o2 = JNull")
    (simp_all add: chosen_limit_def Let_def split: if_splits json.splits)

lemma SessionStore_init_inv:
  assumes "SessionStore_init pl file sid m o1 o2 = Inr s" "st_tail s = None"
  shows "\<exists>es. read_bytes pl (data_of file) = Inr (es, []) \<and> StoreInv pl s es \<and> st_file s = file \<and> 128 \<le> st_limit s"
proof -
  obtain limit sid' r where r: "read_session pl (map_option PlainStr sid') file = Inr r" "128 \<le> limit"
    "s = opened_store file sid' limit r"
  proof -
    obtain limit where l: "chosen_limit m o1 o2 = Inr limit"
      using assms(1) by (cases "chosen_limit m o1 o2") (simp_all add: SessionStore_init_def)
    obtain sid' where i: "optional_session_id sid = Inr sid'"
      using assms(1) l by (cases "optional_session_id sid") (simp_all add: SessionStore_init_def)
    obtain r where r: "read_session pl (map_option PlainStr sid') file = Inr r"
      using assms(1) l i by (cases "read_session pl (map_option PlainStr sid') file") (simp_all add: SessionStore_init_def)
    show thesis
      using assms(1) l i r chosen_limit_ok [OF l] by (intro that [of sid' r limit]) (simp_all add: SessionStore_init_def)
  qed
  obtain es ds where es: "read_bytes pl (data_of file) = Inr (es, ds)" "sr_events r = es" "sr_diagnostics r = ds"
    "sr_ended_with_newline r \<longleftrightarrow> line_end (data_of file)" "es \<noteq> [] \<and> sid' \<noteq> None \<longrightarrow> sid' = Some (ev_session_id (last es))"
    using read_session_expected [OF r(1)] by blast
  have ds: "ds = []" using assms(2) r(3) es(3) by (auto simp: opened_store_def tail_diagnostic_def split: if_splits)
  have ok: "log_ok es" using read_bytes_ok es(1) by blast
  have hd: "es \<noteq> [] \<Longrightarrow> ev_session_id (hd es) = ev_session_id (last es)" using ok unfolding log_ok_def by (metis hd_in_set last_in_set)
  have empty: "es = [] \<Longrightarrow> line_end (data_of file)" using es(1) ds read_bytes_empty by (auto simp: line_end_def)
  have "StoreInv pl s es"
    using r(3) es ds hd empty by (auto simp: StoreInv_def opened_store_def last_valid_sequence_def tail_diagnostic_def)
  then show ?thesis using es(1) ds r(2,3) by (auto simp: opened_store_def)
qed

section \<open>Runs of appends\<close>

text \<open>Any number of appends, the failed ones included; the events of the ones that succeeded.\<close>

fun append_all :: "('i \<Rightarrow> 's \<Rightarrow> 's \<times> ('x + 'e)) \<Rightarrow> 's \<Rightarrow> 'i list \<Rightarrow> 's \<times> 'e list" where
  "append_all app s [] = (s, [])"
| "append_all app s (i # is) =
     (case app i s of
        (s', Inl x) \<Rightarrow> append_all app s' is
      | (s', Inr e) \<Rightarrow> (let (s'', es) = append_all app s' is in (s'', e # es)))"

text \<open>
  The contract of an append-only log whose writer may be interrupted: \<open>inv\<close> relates a state to
  the events it holds, \<open>stuck\<close> a state that takes no more of them.
\<close>

locale failing_log =
  fixes app :: "'i \<Rightarrow> 's \<Rightarrow> 's \<times> ('x + 'e)"
    and inv :: "'s \<Rightarrow> 'v list \<Rightarrow> bool"
    and stuck :: "'s \<Rightarrow> 'v list \<Rightarrow> bool"
    and view :: "'e \<Rightarrow> 'v"
    and ok :: "'i \<Rightarrow> bool"
  assumes added: "inv s es \<Longrightarrow> ok i \<Longrightarrow> app i s = (s', Inr e) \<Longrightarrow> inv s' (es @ [view e])"
    and refused: "inv s es \<Longrightarrow> ok i \<Longrightarrow> app i s = (s', Inl x) \<Longrightarrow>
      inv s' es \<or> (\<exists>extra. length extra \<le> 1 \<and> stuck s' (es @ extra))"
    and sticky: "stuck s es \<Longrightarrow> \<exists>x. app i s = (s, Inl x)"
begin

lemma stuck_run: "stuck s es \<Longrightarrow> append_all app s is = (s, [])"
proof (induction "is")
  case (Cons i "is")
  then obtain x where "app i s = (s, Inl x)" using sticky by blast
  then show ?case using Cons by simp
qed simp

lemma run_refines:
  "inv s es \<Longrightarrow> list_all ok is \<Longrightarrow> append_all app s is = (s', out) \<Longrightarrow>
   inv s' (es @ map view out) \<or> (\<exists>extra. length extra \<le> 1 \<and> stuck s' (es @ map view out @ extra))"
proof (induction "is" arbitrary: s es out)
  case (Cons i "is")
  obtain s1 r where step: "app i s = (s1, r)" by (cases "app i s")
  show ?case
  proof (cases r)
    case (Inl x)
    have rest: "append_all app s1 is = (s', out)" using Cons.prems(3) step Inl by simp
    consider "inv s1 es" | extra where "length extra \<le> 1" "stuck s1 (es @ extra)"
      using refused [of s es i s1 x] Cons.prems(1,2) step Inl by auto
    then show ?thesis
    proof cases
      case 1
      then show ?thesis using Cons.IH [OF _ _ rest] Cons.prems(2) by simp
    next
      case 2
      then show ?thesis using stuck_run [OF 2(2), of "is"] rest by auto
    qed
  next
    case (Inr e)
    then obtain out' where out': "append_all app s1 is = (s', out')" "out = e # out'"
      using Cons.prems(3) step by (auto split: prod.splits)
    have inv: "inv s1 (es @ [view e])" using added [of s es i s1 e] Cons.prems(1,2) step Inr by simp
    then show ?thesis using Cons.IH [OF inv _ out'(1)] Cons.prems(2) out'(2) by simp
  qed
qed simp

end

text \<open>The session store keeps that contract.\<close>

definition append_ok :: "platform \<Rightarrow> append_env \<times> PendingEvent \<Rightarrow> bool" where
  "append_ok pl i \<longleftrightarrow> timestamps_canonical pl \<and> pending_floats_ok pl (snd i) \<and>
     (\<forall>ids. finite ids \<longrightarrow> lit ''event_'' @ ae_uuid (fst i) ids \<notin> ids)"

definition stuck_store :: "platform \<Rightarrow> SessionStore \<Rightarrow> EventEnvelope list \<Rightarrow> bool" where
  "stuck_store pl s es \<longleftrightarrow> st_write_failed s \<and> (\<exists>ds. read_bytes pl (data_of (st_file s)) = Inr (es, ds))"

interpretation session_log: failing_log "\<lambda>i. store_append pl (fst i) (snd i)" "StoreInv pl" "stuck_store pl" stored "append_ok pl"
  for pl
proof
  fix s es i s' and e :: EventEnvelope and x
  assume inv: "StoreInv pl s es" and ok: "append_ok pl i"
  have "finite (st_event_ids s)" using inv by (simp add: StoreInv_def)
  then have out: "store_append pl (fst i) (snd i) s = (s', r) \<Longrightarrow> append_outcome pl s es s' r" for r
    using store_append_outcome [OF inv, of "snd i" "fst i" s' r] ok by (auto simp: append_ok_def)
  show "store_append pl (fst i) (snd i) s = (s', Inr e) \<Longrightarrow> StoreInv pl s' (es @ [stored e])"
    using out [of "Inr e"] by (simp add: append_outcome_def)
  assume "store_append pl (fst i) (snd i) s = (s', Inl x)"
  from out [OF this] consider "StoreInv pl s' es" | "stuck_store pl s' (es @ [])" | e where "stuck_store pl s' (es @ [stored e])"
    by (auto simp: append_outcome_def stuck_store_def)
  then show "StoreInv pl s' es \<or> (\<exists>extra. length extra \<le> 1 \<and> stuck_store pl s' (es @ extra))"
    by cases (fastforce intro: exI [of _ "[]"])+
next
  fix s es i
  show "stuck_store pl s es \<Longrightarrow> \<exists>x. store_append pl (fst i) (snd i) s = (s, Inl x)"
    by (auto simp: stuck_store_def store_append_def)
qed

lemma session_log_run:
  assumes "SessionStore_init pl file sid m o1 o2 = Inr s" "st_tail s = None" "list_all (append_ok pl) is"
    and "append_all (\<lambda>i. store_append pl (fst i) (snd i)) s is = (s', out)"
  shows "\<exists>before after. read_session pl None file = Inr before \<and> read_session pl None (st_file s') = Inr after \<and>
    (\<exists>extra. length extra \<le> 1 \<and> sr_events after = sr_events before @ map stored out @ extra \<and>
       length (sr_diagnostics after) \<le> 1 \<and> log_ok (sr_events after) \<and>
       (\<not> st_write_failed s' \<longrightarrow> extra = [] \<and> sr_diagnostics after = []))"
proof -
  obtain es where es: "read_bytes pl (data_of file) = Inr (es, [])" "StoreInv pl s es" "st_file s = file"
    using SessionStore_init_inv [OF assms(1,2)] by blast
  obtain extra ds where "read_bytes pl (data_of (st_file s')) = Inr (es @ map stored out @ extra, ds)" "length extra \<le> 1"
    "\<not> st_write_failed s' \<longrightarrow> extra = [] \<and> ds = []"
    using session_log.run_refines [OF es(2) assms(3,4)]
    by (auto simp: StoreInv_def stuck_store_def intro: that [of "[]" "[]"])
  then show ?thesis using es(1) read_bytes_ok by (fastforce simp: read_session_bytes)
qed

section \<open>Recovery\<close>

text \<open>Reading stops at the last line only: what precedes a bad tail reads without it.\<close>

lemma next_line_cut: "prefix x (snd (next_line d)) \<Longrightarrow> d \<noteq> [] \<Longrightarrow> x \<noteq> [] \<or> snd (next_line d) = [] \<or> last (fst (next_line d)) \<in> {10, 13} \<Longrightarrow>
   next_line (fst (next_line d) @ x) = (fst (next_line d), x)"
proof (induction d)
  case (Cons b r)
  show ?case
  proof (cases "b = 10 \<or> b = 13")
    case True
    then show ?thesis using Cons.prems(1) by (cases r; cases x) auto
  next
    case False
    show ?thesis
    proof (cases "r = []")
      case True
      then show ?thesis using Cons.prems(1) False by simp
    next
      case r: False
      have "fst (next_line r) \<noteq> []" using next_line_nonempty [OF r] .
      then show ?thesis using Cons.IH Cons.prems False r by simp
    qed
  qed
qed simp

lemma next_line_terminated: "snd (next_line d) \<noteq> [] \<Longrightarrow> last (fst (next_line d)) \<in> {10, 13}"
proof (induction d)
  case (Cons b r)
  show ?case
  proof (cases "b = 10 \<or> b = 13")
    case False
    then have "snd (next_line r) \<noteq> []" using Cons.prems by simp
    moreover from this have "fst (next_line r) \<noteq> []" using next_line_nonempty [of r] by (cases r) auto
    ultimately show ?thesis using Cons.IH False by simp
  qed (use Cons.prems in \<open>auto split: if_splits\<close>)
qed simp

lemma concat_split_lines: "concat (split_lines d) = d"
  by (induction d rule: split_lines.induct) (metis concat.simps next_line_append split_lines_Nil split_lines_step)

lemma split_lines_butlast: "split_lines d = ls @ [l] \<Longrightarrow> split_lines (concat ls) = ls"
proof (induction ls arbitrary: d)
  case (Cons k ls)
  have d: "d \<noteq> []" using Cons.prems by auto
  have split: "k = fst (next_line d)" "split_lines (snd (next_line d)) = ls @ [l]"
    using Cons.prems split_lines_step [OF d] by simp_all
  have "snd (next_line d) = concat ls @ l" using concat_split_lines [of "snd (next_line d)"] split(2) by simp
  moreover have "snd (next_line d) \<noteq> []" using split(2) by (cases "snd (next_line d)") auto
  ultimately have "prefix (concat ls) (snd (next_line d))" "snd (next_line d) \<noteq> []" by simp_all
  then have "next_line (k @ concat ls) = (k, concat ls)"
    using next_line_cut [of "concat ls" d] next_line_terminated [of d] d split(1) by simp
  moreover have "k \<noteq> []" using next_line_nonempty d split(1) by simp
  ultimately show ?case using Cons.IH [OF split(2)] by (simp add: split_lines_step)
qed simp

lemma read_lines_tail:
  "read_lines pl n off ss es ls = Inr (es', [dg]) \<Longrightarrow>
   \<exists>ks l. ls = ks @ [l] \<and> read_lines pl n off ss es ks = Inr (es', []) \<and> dg_byte_offset dg = off + length (concat ks)"
proof (induction ls arbitrary: n off ss es)
  case (Cons l ls)
  show ?case
  proof (cases "parse_record pl (line_content l)")
    case (Inl x)
    then show ?thesis using Cons.prems by (auto split: if_splits)
  next
    case (Inr e)
    then have f: "follows ss es e" and rest: "read_lines pl (Suc n) (off + length l) (Some (ev_session_id e)) (es @ [e]) ls = Inr (es', [dg])"
      using Cons.prems by (auto split: if_splits)
    obtain ks k where "ls = ks @ [k]" "read_lines pl (Suc n) (off + length l) (Some (ev_session_id e)) (es @ [e]) ks = Inr (es', [])"
      "dg_byte_offset dg = off + length l + length (concat ks)" using Cons.IH [OF rest] by blast
    then show ?thesis using f Inr by (intro exI [of _ "l # ks"] exI [of _ k]) simp
  qed
qed simp

lemma read_bytes_tail:
  assumes "read_bytes pl d = Inr (es, [dg])"
  shows "read_bytes pl (take (dg_byte_offset dg) d) = Inr (es, [])"
proof -
  obtain ks l where k: "split_lines d = ks @ [l]" "read_lines pl 1 0 None [] ks = Inr (es, [])" "dg_byte_offset dg = length (concat ks)"
    using read_lines_tail [of pl 1 0 None "[]" "split_lines d" es dg] assms by (auto simp: read_bytes_def)
  have "d = concat ks @ l" using concat_split_lines [of d] k(1) by simp
  then show ?thesis using k split_lines_butlast [OF k(1)] by (simp add: read_bytes_def)
qed

lemma discard_tail_recovers:
  assumes "read_session pl None file = Inr before"
  shows "\<exists>file' d after. discard_incomplete_tail pl file = Inr (file', d) \<and> read_session pl None file' = Inr after \<and>
    sr_events after = sr_events before \<and> sr_diagnostics after = [] \<and> prefix (data_of file') (data_of file)"
proof -
  obtain es ds where r: "read_bytes pl (data_of file) = Inr (es, ds)" "sr_events before = es" "sr_diagnostics before = ds"
    using assms by (auto simp: read_session_bytes split: sum.splits)
  show ?thesis
  proof (cases ds)
    case Nil
    then show ?thesis using assms r by (auto simp: discard_incomplete_tail_def tail_diagnostic_def)
  next
    case (Cons dg ds')
    then have dg: "ds = [dg]" using read_bytes_ok [OF r(1)] by simp
    have "file \<noteq> None" using r(1) dg by (cases "file") (auto simp: data_of_def read_bytes_def)
    then obtain b where b: "file = Some b" by auto
    then have "read_bytes pl (take (dg_byte_offset dg) b) = Inr (es, [])" using read_bytes_tail r(1) dg by simp
    then show ?thesis using assms r dg b
      by (auto simp: discard_incomplete_tail_def tail_diagnostic_def read_session_bytes take_is_prefix)
  qed
qed

lemma reopened_store:
  assumes "read_session pl None file = Inr r" "sr_diagnostics r = []"
  shows "\<exists>s. SessionStore_init pl file None (JInt 1000000) JNull JNull = Inr s \<and> st_tail s = None \<and>
    st_next_sequence s = (if sr_events r = [] then 1 else ev_sequence (last (sr_events r)) + 1)"
  using assms
  by (simp add: SessionStore_init_def chosen_limit_def optional_session_id_def opened_store_def tail_diagnostic_def
      last_valid_sequence_def)

section \<open>Properties\<close>

text \<open>C5: The session file is the log of the appends: whatever appends a store opened on a readable
  file makes, and whichever of them fail or stop in the middle of a write, reading the file back
  gives the events it had, then the events of the appends that succeeded, in order, with
  strictly increasing sequence numbers and distinct ids.  Only a store whose last write failed
  may hold one event more or a diagnosed incomplete tail.\<close>

theorem session_log_refines:
  assumes "SessionStore_init pl file sid m o1 o2 = Inr s" "st_tail s = None" "list_all (append_ok pl) is"
    and "append_all (\<lambda>i. store_append pl (fst i) (snd i)) s is = (s', out)"
  shows "\<exists>before after extra. read_session pl None file = Inr before \<and> read_session pl None (st_file s') = Inr after \<and>
    sr_events after = sr_events before @ map stored out @ extra \<and> length extra \<le> 1 \<and>
    sorted_wrt (<) (map ev_sequence (sr_events after)) \<and> distinct (map ev_event_id (sr_events after)) \<and>
    length (sr_diagnostics after) \<le> 1 \<and>
    (st_write_failed s' \<or> extra = [] \<and> sr_diagnostics after = [])"
  using session_log_run [OF assms] by (auto simp: log_ok_def)

definition sample_env :: append_env where
  "sample_env = \<lparr>ae_fresh = Inr [], ae_now = lit ''t'', ae_now_again = lit ''t'',
     ae_uuid = (\<lambda>ids. replicate (\<Sum>i\<in>ids. length i) 97), ae_stopped_after = Some 40\<rparr>"

lemma sample_env_fresh: "finite ids \<Longrightarrow> lit ''event_'' @ ae_uuid sample_env ids \<notin> ids"
proof
  assume fin: "finite ids" and mem: "lit ''event_'' @ ae_uuid sample_env ids \<in> ids"
  have "length (lit ''event_'' @ ae_uuid sample_env ids) \<le> (\<Sum>i\<in>ids. length i)"
    by (intro member_le_sum [OF mem]) (simp_all add: fin)
  then show False by (simp add: sample_env_def lit_def)
qed

lemma sample_append_ok: "append_ok sample_platform (sample_env, sample_pending)"
  using sample_env_fresh
  by (simp add: append_ok_def timestamps_canonical_def pending_floats_ok_def sample_payload)
    (simp add: sample_platform_def redacted_def)

theorem session_log_refines_witness:
  "\<exists>s s' out after. SessionStore_init sample_platform None None (JInt 1000000) JNull JNull = Inr s \<and>
     append_all (\<lambda>i. store_append sample_platform (fst i) (snd i)) s [(sample_env, sample_pending)] = (s', out) \<and>
     read_session sample_platform None (st_file s') = Inr after \<and> length (sr_events after) \<le> length out + 1"
proof -
  have none: "read_session sample_platform None None = Inr empty_read" by (simp add: read_session_def)
  obtain s where s: "SessionStore_init sample_platform None None (JInt 1000000) JNull JNull = Inr s" "st_tail s = None"
    using reopened_store [OF none] by (auto simp: empty_read_def)
  obtain s' out where r: "append_all (\<lambda>i. store_append sample_platform (fst i) (snd i)) s [(sample_env, sample_pending)] = (s', out)"
    by (cases "append_all (\<lambda>i. store_append sample_platform (fst i) (snd i)) s [(sample_env, sample_pending)]")
  show ?thesis
    using session_log_refines [OF s _ r] sample_append_ok s(1) r none by (fastforce simp: empty_read_def)
qed

text \<open>C6: Recovery after an interrupted append: for every file that can be read at all, cutting the
  incomplete tail leaves a prefix of the bytes with exactly the events that were read, no
  diagnostic remains, and a store opened on it accepts appends from the next sequence
  number.\<close>

theorem recovery_keeps_events:
  assumes "read_session pl None file = Inr before"
  shows "\<exists>file' d after s. discard_incomplete_tail pl file = Inr (file', d) \<and> read_session pl None file' = Inr after \<and>
    sr_events after = sr_events before \<and> sr_diagnostics after = [] \<and> prefix (data_of file') (data_of file) \<and>
    SessionStore_init pl file' None (JInt 1000000) JNull JNull = Inr s \<and> st_tail s = None \<and>
    st_next_sequence s = (if sr_events before = [] then 1 else ev_sequence (last (sr_events before)) + 1)"
  using discard_tail_recovers [OF assms] reopened_store by metis

theorem recovery_keeps_events_witness:
  "\<exists>file' d s. discard_incomplete_tail sample_platform (Some [255]) = Inr (file', d) \<and>
     SessionStore_init sample_platform file' None (JInt 1000000) JNull JNull = Inr s \<and>
     st_tail s = None \<and> st_next_sequence s = 1"
proof -
  have "split_lines [255] = [[255]]" by (simp add: split_lines.simps)
  moreover have "\<exists>x. parse_record sample_platform (line_content [255]) = Inl x"
    by (simp add: line_content_def drop_last_if_def parse_record_def json_object_def utf8_decode_def utf8_scan.simps)
  ultimately have "read_session sample_platform None (Some [255]) =
      Inr \<lparr>sr_events = [], sr_diagnostics = [\<lparr>dg_line_number = 1, dg_byte_offset = 0, dg_byte_length = 1\<rparr>],
        sr_ended_with_newline = False\<rparr>"
    by (auto simp: read_session_def optional_session_id_def is_complete_def)
  from recovery_keeps_events [OF this] show ?thesis by auto
qed

end
