(* ===== verification/PayloadBound.thy ===== *)
theory PayloadBound
  imports SessionFacts
begin

text \<open>
  The bound on an event's payload: the size of a preview grows with the number of characters it
  keeps, so the binary search of \<open>_bounded_payload\<close> finds the longest preview that fits.
\<close>

section \<open>The size of a preview\<close>

lemma sort_preview:
  "sort_json (JObj (preview t n limit k)) =
     JObj [(lit ''encoding'', JStr (lit ''utf-8'')), (lit ''head'', JStr (take (nat ((k + 1) div 2)) t)),
       (lit ''limit'', JInt limit), (lit ''original_length'', JInt n),
       (lit ''tail'', JStr (take_last (nat (k div 2)) t)), (lit ''truncated'', JBool True)]"
  by (simp add: preview_def Let_def lit_def take_last_def)

definition escaped_len :: "str \<Rightarrow> nat" where
  "escaped_len s = utf8_len (concat (map escape_char s))"

lemma escaped_len_append: "escaped_len (s @ t) = escaped_len s + escaped_len t"
  by (simp add: escaped_len_def)

lemma escaped_len_prefix: "prefix s t \<Longrightarrow> escaped_len s \<le> escaped_len t"
  by (auto simp: prefix_def escaped_len_append)

lemma escaped_len_suffix: "suffix s t \<Longrightarrow> escaped_len s \<le> escaped_len t"
  by (auto simp: suffix_def escaped_len_append)

text \<open>Braces, keys, the encoding's name and the flag take 85 bytes.\<close>

lemma preview_size:
  "payload_size pl (preview t n limit k) =
     85 + int (length (dec_int n)) + int (length (dec_int limit)) +
     int (escaped_len (take (nat ((k + 1) div 2)) t)) +
     int (escaped_len (take_last (nat (k div 2)) t))"
proof -
  have dec: "utf8_len (dec_int i) = length (dec_int i)" for i
    by (intro ascii_len) (auto simp: ascii_def list_all_iff dec_int_def lit_def dest!: dec_digits)
  show ?thesis
    unfolding payload_size_def canonical_text_def sort_preview
    by (simp add: render_string_def escaped_len_def utf8_len_Cons length_enc_ascii dec lit_def escape_char_def)
qed

lemma take_le_prefix: "i \<le> j \<Longrightarrow> prefix (take i t) (take j t)"
  by (metis min.absorb1 take_is_prefix take_take)

lemma take_last_le_suffix: "i \<le> j \<Longrightarrow> suffix (take_last i t) (take_last j t)"
proof -
  assume "i \<le> j"
  then have "take_last i t = drop (min j (length t) - i) (take_last j t)" by (simp add: min_def take_last_def)
  then show ?thesis by (simp add: suffix_drop)
qed

lemma preview_size_mono:
  assumes "0 \<le> k" "k \<le> m"
  shows "payload_size pl (preview t n limit k) \<le> payload_size pl (preview t n limit m)"
proof -
  have "prefix (take (nat ((k + 1) div 2)) t) (take (nat ((m + 1) div 2)) t)"
    using assms by (intro take_le_prefix nat_mono zdiv_mono1) simp_all
  moreover have "suffix (take_last (nat (k div 2)) t) (take_last (nat (m div 2)) t)"
    using assms by (intro take_last_le_suffix nat_mono zdiv_mono1) simp_all
  ultimately show ?thesis
    unfolding preview_size by (auto dest!: escaped_len_prefix escaped_len_suffix)
qed

section \<open>The search\<close>

lemma search_preview_greatest:
  assumes mono: "\<And>k m. 0 \<le> k \<Longrightarrow> k \<le> m \<Longrightarrow> fits (c m) \<Longrightarrow> fits (c k)"
    and zero: "fits (c 0)" and cap: "0 \<le> cap"
    and "0 \<le> low" "low - 1 \<le> high" "high \<le> cap" "best = c (if low = 0 then 0 else low - 1)"
    and "low = 0 \<or> fits (c (low - 1))" "\<forall>m. high < m \<and> m \<le> cap \<longrightarrow> \<not> fits (c m)"
  shows "\<exists>n. 0 \<le> n \<and> n \<le> cap \<and> search_preview c fits low high best = c n \<and> fits (c n) \<and>
    (\<forall>m. n < m \<and> m \<le> cap \<longrightarrow> \<not> fits (c m))"
  using assms(4-)
proof (induction "nat (high + 1 - low)" arbitrary: low high best rule: less_induct)
  case less
  show ?case
  proof (cases "low \<le> high")
    case True
    let ?m = "(low + high) div 2"
    have m: "low \<le> ?m" "?m \<le> high" using True by simp_all
    show ?thesis
    proof (cases "fits (c ?m)")
      case fit: True
      have "search_preview c fits low high best = search_preview c fits (?m + 1) high (c ?m)"
        using True fit by (subst search_preview.simps) (simp add: Let_def)
      then show ?thesis using less.hyps [of high "?m + 1" "c ?m"] less.prems m fit by simp
    next
      case no: False
      have eq: "search_preview c fits low high best = search_preview c fits low (?m - 1) best"
        using True no by (subst search_preview.simps) (simp add: Let_def)
      have above: "\<not> fits (c x)" if "?m - 1 < x" for x
        using mono [of ?m x] no that m less.prems(1) by linarith
      show ?thesis
        using less.hyps [of "?m - 1" low best] less.prems m above unfolding eq by simp
    qed
  next
    case False
    then have stop: "search_preview c fits low high best = best" "low = high + 1"
      using less.prems by (simp_all add: search_preview.simps)
    then have "low \<noteq> 0" using less.prems zero cap by auto
    then show ?thesis using stop less.prems by (intro exI [of _ high]) auto
  qed
qed

section \<open>The bounded payload\<close>

lemma bounded_payload_longest_lemma:
  fixes payload limit pl
  defines "t \<equiv> canonical_text pl payload"
  defines "n \<equiv> payload_size pl payload"
  assumes "finite_json (JObj payload)" "encodable t" "limit < n"
    and room: "85 + int (length (dec_int n)) + int (length (dec_int limit)) \<le> limit"
  shows "\<exists>k. 0 \<le> k \<and> k \<le> int (length t) \<and> bounded_payload pl payload limit = Inr (preview t n limit k) \<and>
    payload_size pl (preview t n limit k) \<le> limit \<and>
    (\<forall>m. k < m \<and> m \<le> int (length t) \<longrightarrow> limit < payload_size pl (preview t n limit m))"
proof -
  let ?c = "preview t n limit" and ?fits = "\<lambda>c. payload_size pl c \<le> limit"
  have zero: "?fits (?c 0)" using room by (simp add: preview_size escaped_len_def take_last_def)
  obtain k where k: "0 \<le> k" "k \<le> int (length t)" "search_preview ?c ?fits 0 (int (length t)) (?c 0) = ?c k"
    "?fits (?c k)" "\<forall>m. k < m \<and> m \<le> int (length t) \<longrightarrow> \<not> ?fits (?c m)"
  proof -
    have mono: "?fits (?c m) \<Longrightarrow> ?fits (?c k)" if "0 \<le> k" "k \<le> m" for k m
      using preview_size_mono [OF that, of pl t n limit] by linarith
    have "\<exists>k. 0 \<le> k \<and> k \<le> int (length t) \<and> search_preview ?c ?fits 0 (int (length t)) (?c 0) = ?c k \<and>
        ?fits (?c k) \<and> (\<forall>m. k < m \<and> m \<le> int (length t) \<longrightarrow> \<not> ?fits (?c m))"
      using mono zero by (intro search_preview_greatest) simp_all
    then show thesis using that by blast
  qed
  have "canonical_json (pl_frepr pl) (JObj payload) = Inr t"
    using assms(3) by (simp add: canonical_json_Inr t_def canonical_text_def)
  then have "bounded_payload pl payload limit = Inr (?c k)"
    using assms(4,5) k(3,4) by (simp add: bounded_payload_def utf8_encode_def Let_def n_def payload_size_def utf8_len_def t_def)
  then show ?thesis using k by (intro exI [of _ k]) (simp add: not_le)
qed

text \<open>C40: The stored form of an event's payload: a payload within the limit is kept as it is; a longer
  one is replaced by the metadata with the first and the last characters of its canonical text,
  within the limit, and no longer preview would fit.  The search cannot fail when the limit leaves
  room for the metadata.\<close>

theorem bounded_payload_longest:
  fixes payload limit pl
  defines "t \<equiv> canonical_text pl payload"
  defines "n \<equiv> payload_size pl payload"
  assumes "finite_json (JObj payload)" "encodable t"
    and "85 + int (length (dec_int n)) + int (length (dec_int limit)) \<le> limit"
  shows "\<exists>p. bounded_payload pl payload limit = Inr p \<and> payload_size pl p \<le> limit \<and>
    (if n \<le> limit then p = payload
     else \<exists>k. 0 \<le> k \<and> k \<le> int (length t) \<and> p = preview t n limit k \<and>
       (\<forall>m. k < m \<and> m \<le> int (length t) \<longrightarrow> limit < payload_size pl (preview t n limit m)))"
proof (cases "n \<le> limit")
  case True
  have "canonical_json (pl_frepr pl) (JObj payload) = Inr t"
    using assms(3) by (simp add: canonical_json_Inr t_def canonical_text_def)
  then have "bounded_payload pl payload limit = Inr payload"
    using assms(4) True by (simp add: bounded_payload_def utf8_encode_def Let_def n_def payload_size_def utf8_len_def t_def)
  then show ?thesis using True n_def by simp
next
  case False
  then show ?thesis
    using bounded_payload_longest_lemma [of payload pl limit] assms by (auto simp: not_le)
qed

lemma sample_text:
  "canonical_text pl [(lit ''k'', JStr (replicate n 97))] = lit ''{'' @ [34] @ lit ''k'' @ [34] @ lit '':'' @ [34] @ replicate n 97 @ [34] @ lit ''}''"
proof -
  have "concat (map escape_char (replicate n 97)) = replicate n 97"
    by (induction n) (simp_all add: escape_char_def)
  then show ?thesis by (simp add: canonical_text_def render_string_def lit_def escape_char_def)
qed

theorem bounded_payload_longest_witness:
  "\<exists>p. bounded_payload sample_platform [(lit ''k'', JStr (replicate 100 97))] 95 = Inr p \<and>
     payload_size sample_platform p \<le> 95 \<and> p \<noteq> [(lit ''k'', JStr (replicate 100 97))]"
proof -
  let ?p = "[(lit ''k'', JStr (replicate 100 97))]"
  have enc: "utf8_len (replicate n 97) = n \<and> encodable (replicate n 97)" for n
    by (induction n) (simp_all add: utf8_len_Cons length_enc_ascii encodable_def valid_cp_def is_surrogate_def)
  have t: "encodable (canonical_text sample_platform ?p)"
    unfolding sample_text using enc [of 100]
    by (simp add: encodable_def lit_def valid_cp_def is_surrogate_def)
  have n: "payload_size sample_platform ?p = 108"
    unfolding payload_size_def sample_text using enc [of 100] by (simp add: utf8_len_Cons length_enc_ascii lit_def)
  show ?thesis
    using bounded_payload_longest [of ?p sample_platform 95] t unfolding n
    by (auto simp: dec_int_def dec.simps preview_def Let_def)
qed

end
