(* ===== verification/Context.thy ===== *)
theory Context
  imports Schema
begin

text \<open>
  The model context (\<open>context.py\<close>): the grouping of messages into indivisible interactions,
  the token estimate, the projection of a context state onto a bounded request, and the plan
  of a compaction.  The functions that write the sequence numbers they assign back into the
  state return the state beside their result.  A float operation of the estimator is exact
  arithmetic followed by the platform's rounding \<open>pl_round\<close>.
\<close>

section \<open>Messages\<close>

definition ContextIntegrityError :: "string \<Rightarrow> exn" where
  "ContextIntegrityError m = OtherError (lit ''ContextIntegrityError'') (lit m)"

text \<open>\<open>detach_message\<close>: a JSON-shaped message is its own detached copy.\<close>

definition detach_message :: "message \<Rightarrow> message res" where
  "detach_message m =
     (case dget m (lit ''role'') of
        Some (JStr r) \<Rightarrow>
          if r = [] then Inl (ContextIntegrityError ''context message requires a non-empty role'') else Inr m
      | _ \<Rightarrow> Inl (ContextIntegrityError ''context message requires a non-empty role''))"

definition has_role :: "string \<Rightarrow> message \<Rightarrow> bool" where
  "has_role r m \<longleftrightarrow> dget m (lit ''role'') = Some (JStr (lit r))"

fun detach_all :: "message list \<Rightarrow> message list res" where
  "detach_all [] = Inr []"
| "detach_all (m # ms) = bindR (detach_message m) (\<lambda>m'. bindR (detach_all ms) (\<lambda>ms'. Inr (m' # ms')))"

text \<open>\<open>_tool_call_ids\<close>.\<close>

fun call_ids :: "json list \<Rightarrow> str list \<Rightarrow> str list res" where
  "call_ids [] seen = Inr seen"
| "call_ids (JObj c # cs) seen =
     (case dget c (lit ''id'') of
        Some (JStr i) \<Rightarrow>
          if i = [] then Inl (ContextIntegrityError ''assistant tool call requires an ID'')
          else if i \<in> set seen then Inl (ContextIntegrityError ''assistant tool call IDs must be unique'')
          else call_ids cs (seen @ [i])
      | _ \<Rightarrow> Inl (ContextIntegrityError ''assistant tool call requires an ID''))"
| "call_ids (_ # cs) seen = Inl (ContextIntegrityError ''assistant tool_calls must contain objects'')"

definition tool_call_ids :: "message \<Rightarrow> str list res" where
  "tool_call_ids m =
     (case dget m (lit ''tool_calls'') of
        None \<Rightarrow> Inr []
      | Some JNull \<Rightarrow> Inr []
      | Some (JArr cs) \<Rightarrow> call_ids cs []
      | Some _ \<Rightarrow> Inl (ContextIntegrityError ''assistant tool_calls must be a sequence''))"

section \<open>Groups\<close>

record MessageGroup =
  mg_messages :: "message list"
  mg_sequences :: "int list"

definition mk_MessageGroup :: "message list \<Rightarrow> int list \<Rightarrow> MessageGroup res" where
  "mk_MessageGroup ms ss =
     bindR (detach_all ms) (\<lambda>ms'.
     bindR (guardR (ms' \<noteq> [] \<and> length ms' = length ss)
              (ValueError (lit ''a message group requires equally sized non-empty values''))) (\<lambda>_.
     bindR (guardR (list_all (\<lambda>s. 0 \<le> s) ss)
              (ValueError (lit ''message group sequences must be non-negative integers''))) (\<lambda>_.
     Inr \<lparr>mg_messages = ms', mg_sequences = ss\<rparr>)))"

definition start_sequence :: "MessageGroup \<Rightarrow> int" where
  "start_sequence g = Min (set (mg_sequences g))"

definition end_sequence :: "MessageGroup \<Rightarrow> int" where
  "end_sequence g = Max (set (mg_sequences g))"

text \<open>The inner loop: the results of one call message, as long as some are missing.\<close>

fun take_results ::
  "str list \<Rightarrow> str list \<Rightarrow> (message \<times> int) list \<Rightarrow> ((message \<times> int) list \<times> str list \<times> (message \<times> int) list) res" where
  "take_results expected seen [] = Inr ([], seen, [])"
| "take_results expected seen (p # ps) =
     (if \<not> length seen < length expected \<or> \<not> has_role ''tool'' (fst p) then Inr ([], seen, p # ps)
      else
        (case dget (fst p) (lit ''tool_call_id'') of
           Some (JStr i) \<Rightarrow>
             if i \<notin> set expected
             then Inl (ContextIntegrityError ''tool result does not match its assistant call'')
             else if i \<in> set seen then Inl (ContextIntegrityError ''tool call has more than one result'')
             else bindR (take_results expected (i # seen) ps) (\<lambda>(ms, seen', rest). Inr (p # ms, seen', rest))
         | _ \<Rightarrow> Inl (ContextIntegrityError ''tool result does not match its assistant call'')))"

lemma take_results_shorter:
  "take_results expected seen ps = Inr (ms, seen', rest) \<Longrightarrow> ps = ms @ rest"
  by (induction ps arbitrary: seen ms)
    (auto simp: bindR_Inr_iff split: if_splits option.splits json.splits)

text \<open>The outer loop.\<close>

function group_loop :: "(message \<times> int) list \<Rightarrow> MessageGroup list res" where
  "group_loop [] = Inr []"
| "group_loop (p # ps) =
     (if has_role ''tool'' (fst p)
      then Inl (ContextIntegrityError ''tool result has no preceding assistant call'')
      else
        (case (if has_role ''assistant'' (fst p) then tool_call_ids (fst p) else Inr []) of
           Inl e \<Rightarrow> Inl e
         | Inr expected \<Rightarrow>
             if expected = []
             then bindR (mk_MessageGroup [fst p] [snd p]) (\<lambda>g. bindR (group_loop ps) (\<lambda>gs. Inr (g # gs)))
             else
               (case take_results expected [] ps of
                  Inl e \<Rightarrow> Inl e
                | Inr (results, seen, rest) \<Rightarrow>
                    if set seen \<noteq> set expected
                    then Inl (ContextIntegrityError ''assistant tool calls are missing results'')
                    else bindR (mk_MessageGroup (map fst (p # results)) (map snd (p # results)))
                           (\<lambda>g. bindR (group_loop rest) (\<lambda>gs. Inr (g # gs))))))"
  by pat_completeness auto
termination
  by (relation "measure length") (auto dest: take_results_shorter)

definition group_messages :: "message list \<Rightarrow> int list \<Rightarrow> MessageGroup list res" where
  "group_messages ms ss =
     bindR (guardR (length ms = length ss) (ValueError (lit ''messages and sequences must have equal length''))) (\<lambda>_.
     bindR (guardR (list_all (\<lambda>s. 0 \<le> s) ss)
              (ValueError (lit ''message sequences must be non-negative integers''))) (\<lambda>_.
     bindR (detach_all ms) (\<lambda>ms'. group_loop (zip ms' ss))))"

section \<open>Token estimates\<close>

record ApproximateTokenEstimator =
  te_bytes_per_token :: rat
  te_safety_multiplier :: rat
  te_item_overhead :: int

definition default_estimator :: ApproximateTokenEstimator where
  "default_estimator = \<lparr>te_bytes_per_token = 3, te_safety_multiplier = 112 / 100, te_item_overhead = 4\<rparr>"

definition mk_estimator :: "rat \<Rightarrow> rat \<Rightarrow> int \<Rightarrow> ApproximateTokenEstimator res" where
  "mk_estimator bytes_per_token safety_multiplier item_overhead =
     bindR (guardR (0 < bytes_per_token) (ValueError (lit ''bytes_per_token must be a positive finite number''))) (\<lambda>_.
     bindR (guardR (1 \<le> safety_multiplier) (ValueError (lit ''safety_multiplier must be finite and at least 1''))) (\<lambda>_.
     bindR (guardR (0 \<le> item_overhead) (ValueError (lit ''item_overhead must be a non-negative integer''))) (\<lambda>_.
     Inr \<lparr>te_bytes_per_token = bytes_per_token, te_safety_multiplier = safety_multiplier,
          te_item_overhead = item_overhead\<rparr>)))"

definition estimate_text :: "platform \<Rightarrow> ApproximateTokenEstimator \<Rightarrow> str \<Rightarrow> int res" where
  "estimate_text pl te s =
     bindR (utf8_encode s) (\<lambda>bytes.
     let raw = pl_round pl (of_nat (length bytes) / te_bytes_per_token te) in
     Inr (max 1 \<lceil>pl_round pl (raw * te_safety_multiplier te)\<rceil>))"

definition estimate_json :: "platform \<Rightarrow> ApproximateTokenEstimator \<Rightarrow> json \<Rightarrow> int res" where
  "estimate_json pl te v =
     bindR (canonical_json (pl_frepr pl) v) (\<lambda>s.
     bindR (estimate_text pl te s) (\<lambda>n. Inr (n + te_item_overhead te)))"

fun estimate_list :: "platform \<Rightarrow> ApproximateTokenEstimator \<Rightarrow> jobj list \<Rightarrow> int res" where
  "estimate_list pl te [] = Inr 0"
| "estimate_list pl te (m # ms) =
     bindR (estimate_json pl te (JObj m)) (\<lambda>n. bindR (estimate_list pl te ms) (\<lambda>k. Inr (n + k)))"

definition estimate_request ::
  "platform \<Rightarrow> ApproximateTokenEstimator \<Rightarrow> message list \<Rightarrow> jobj list \<Rightarrow> int res" where
  "estimate_request pl te ms schemas =
     bindR (estimate_list pl te ms) (\<lambda>a.
     bindR (estimate_list pl te schemas) (\<lambda>b. Inr (a + b + te_item_overhead te)))"

record ContextEstimate =
  ce_input_tokens :: int
  ce_reserved_output_tokens :: int
  ce_total_tokens :: int
  ce_trigger_tokens :: int
  ce_context_window :: int

definition needs_compaction :: "ContextEstimate \<Rightarrow> bool" where
  "needs_compaction e \<longleftrightarrow> ce_trigger_tokens e < ce_total_tokens e"

definition exceeds_window :: "ContextEstimate \<Rightarrow> bool" where
  "exceeds_window e \<longleftrightarrow> ce_context_window e < ce_total_tokens e"

section \<open>The builder\<close>

record ContextBuilder =
  cb_system_prompt :: str
  cb_context_window :: int
  cb_reserved_output_tokens :: int
  cb_compaction_threshold :: rat
  cb_keep_recent_groups :: int
  cb_estimator :: ApproximateTokenEstimator

definition mk_ContextBuilder ::
  "str \<Rightarrow> int \<Rightarrow> int \<Rightarrow> rat \<Rightarrow> int \<Rightarrow> ApproximateTokenEstimator option \<Rightarrow> ContextBuilder res" where
  "mk_ContextBuilder prompt window reserved threshold keep estimator =
     bindR (guardR (0 < window) (ValueError (lit ''context_window must be positive''))) (\<lambda>_.
     bindR (guardR (0 \<le> reserved \<and> reserved < window)
              (ValueError (lit ''reserved_output_tokens must be within the context window''))) (\<lambda>_.
     bindR (guardR (0 < threshold \<and> threshold \<le> 1) (ValueError (lit ''compaction_threshold must be in (0, 1]''))) (\<lambda>_.
     bindR (guardR (1 \<le> keep) (ValueError (lit ''keep_recent_groups must be a positive integer''))) (\<lambda>_.
     Inr \<lparr>cb_system_prompt = prompt, cb_context_window = window, cb_reserved_output_tokens = reserved,
          cb_compaction_threshold = threshold, cb_keep_recent_groups = keep,
          cb_estimator = (case estimator of Some e \<Rightarrow> e | None \<Rightarrow> default_estimator)\<rparr>))))"

text \<open>The numbers of the messages: a missing one is the successor of the greatest so far.\<close>

fun assign_sequences :: "int \<Rightarrow> int option list \<Rightarrow> int list" where
  "assign_sequences current [] = []"
| "assign_sequences current (None # vs) = (current + 1) # assign_sequences (current + 1) vs"
| "assign_sequences current (Some v # vs) = v # assign_sequences (max current v) vs"

definition cutoff :: "ContextState \<Rightarrow> int" where
  "cutoff c = max (covered_through_sequence c) (degraded_through_sequence c)"

text \<open>\<open>_entries\<close>.\<close>

definition entries :: "ContextState \<Rightarrow> ContextState \<times> (message list \<times> int list) res" where
  "entries c =
     (case detach_all (recent_messages c) of
        Inl e \<Rightarrow> (c, Inl e)
      | Inr ms \<Rightarrow>
          if length ms < length (recent_message_sequences c)
          then (c, Inl (ContextIntegrityError ''context has more sequences than messages''))
          else
            (let ss = assign_sequences (cutoff c) (pad_sequences ms (recent_message_sequences c)) in
             (c\<lparr>recent_message_sequences := map Some ss\<rparr>, Inr (ms, ss))))"

definition all_groups :: "ContextState \<Rightarrow> ContextState \<times> MessageGroup list res" where
  "all_groups c =
     (case entries c of
        (c', Inl e) \<Rightarrow> (c', Inl e)
      | (c', Inr (ms, ss)) \<Rightarrow> (c', group_messages ms ss))"

definition effective_groups :: "ContextState \<Rightarrow> ContextState \<times> MessageGroup list res" where
  "effective_groups c =
     (case all_groups c of
        (c', Inl e) \<Rightarrow> (c', Inl e)
      | (c', Inr gs) \<Rightarrow> (c', Inr (filter (\<lambda>g. \<not> end_sequence g \<le> cutoff c) gs)))"

definition trigger_tokens :: "platform \<Rightarrow> ContextBuilder \<Rightarrow> int" where
  "trigger_tokens pl b = max 1 \<lfloor>pl_round pl (of_int (cb_context_window b) * cb_compaction_threshold b)\<rfloor>"

definition estimate :: "platform \<Rightarrow> ContextBuilder \<Rightarrow> message list \<Rightarrow> jobj list \<Rightarrow> ContextEstimate res" where
  "estimate pl b ms schemas =
     bindR (estimate_request pl (cb_estimator b) ms schemas) (\<lambda>n.
     Inr \<lparr>ce_input_tokens = n, ce_reserved_output_tokens = cb_reserved_output_tokens b,
          ce_total_tokens = n + cb_reserved_output_tokens b, ce_trigger_tokens = trigger_tokens pl b,
          ce_context_window = cb_context_window b\<rparr>)"

record ContextProjection =
  cp_messages :: "message list"
  cp_estimate :: ContextEstimate
  cp_groups :: "MessageGroup list"

definition system_message :: "str \<Rightarrow> message" where
  "system_message s = [(lit ''role'', JStr (lit ''system'')), (lit ''content'', JStr s)]"

definition summary_text :: "ContextState \<Rightarrow> str \<Rightarrow> str" where
  "summary_text c summary =
     lit ''Incremental context summary through sequence '' @ dec_int (covered_through_sequence c) @ lit '':'' @ [10] @ summary"

text \<open>The messages before the groups: prompt, summary, notice.\<close>

definition preamble :: "ContextBuilder \<Rightarrow> ContextState \<Rightarrow> message list" where
  "preamble b c =
     [system_message (cb_system_prompt b)] @
     (case latest_summary c of None \<Rightarrow> [] | Some s \<Rightarrow> [system_message (summary_text c s)]) @
     (case degraded_notice c of None \<Rightarrow> [] | Some n \<Rightarrow> [system_message n])"

definition project :: "platform \<Rightarrow> ContextBuilder \<Rightarrow> jobj list \<Rightarrow> ContextState \<Rightarrow> ContextState \<times> ContextProjection res" where
  "project pl b schemas c =
     (case effective_groups c of
        (c', Inl e) \<Rightarrow> (c', Inl e)
      | (c', Inr gs) \<Rightarrow>
          (let ms = preamble b c @ concat (map mg_messages gs) in
           (c', bindR (estimate pl b ms schemas) (\<lambda>e.
                Inr \<lparr>cp_messages = ms, cp_estimate = e, cp_groups = gs\<rparr>))))"

record CompactionPlan =
  pn_old_summary :: "str option"
  pn_groups :: "MessageGroup list"
  pn_forced :: bool
  pn_previous_covered_sequence :: int

definition mk_CompactionPlan :: "str option \<Rightarrow> MessageGroup list \<Rightarrow> bool \<Rightarrow> int \<Rightarrow> CompactionPlan res" where
  "mk_CompactionPlan old groups forced previous =
     bindR (guardR (groups \<noteq> []) (ValueError (lit ''a compaction plan requires complete message groups''))) (\<lambda>_.
     bindR (guardR (0 \<le> previous) (ValueError (lit ''previous_covered_sequence must be non-negative''))) (\<lambda>_.
     Inr \<lparr>pn_old_summary = old, pn_groups = groups, pn_forced = forced, pn_previous_covered_sequence = previous\<rparr>))"

definition source_start_sequence :: "CompactionPlan \<Rightarrow> int" where
  "source_start_sequence p = start_sequence (hd (pn_groups p))"

definition plan_covered_through :: "CompactionPlan \<Rightarrow> int" where
  "plan_covered_through p = end_sequence (last (pn_groups p))"

definition plan_compaction :: "ContextBuilder \<Rightarrow> bool \<Rightarrow> ContextState \<Rightarrow> ContextState \<times> CompactionPlan option res" where
  "plan_compaction b forced c =
     (case all_groups c of
        (c', Inl e) \<Rightarrow> (c', Inl e)
      | (c', Inr all) \<Rightarrow>
          (let gs = filter (\<lambda>g. covered_through_sequence c < end_sequence g) all;
               retained = (if forced then 1 else cb_keep_recent_groups b);
               count = int (length gs) - retained in
           if count \<le> 0 then (c', Inr None)
           else (c', bindR (mk_CompactionPlan (latest_summary c) (take (nat count) gs) forced
                              (covered_through_sequence c)) (\<lambda>p. Inr (Some p)))))"

definition degraded_context_notice :: str where
  "degraded_context_notice =
     lit ''Context compaction failed. Some earlier conversation is not loaded; '' @
     lit ''use the retained summary and recent complete interactions, and verify '' @
     lit ''important assumptions before acting.''"

definition apply_degraded_fallback ::
  "platform \<Rightarrow> ContextBuilder \<Rightarrow> CompactionPlan \<Rightarrow> ContextState \<Rightarrow> ContextState \<times> ContextProjection res" where
  "apply_degraded_fallback pl b p c =
     project pl b []
       (c\<lparr>degraded_through_sequence := max (degraded_through_sequence c) (plan_covered_through p),
          degraded_notice := Some degraded_context_notice\<rparr>)"

end
