(* ===== verification/ContextFacts.thy ===== *)
theory ContextFacts
  imports Context "HOL-Library.Multiset"
begin

text \<open>
  What the grouping of messages promises: it is the one decomposition of the messages into
  whole interactions, and the projection and the compaction plan are built from such groups.
\<close>

section \<open>Whole interactions\<close>

definition result_id :: "message \<Rightarrow> str option" where
  "result_id m = (case dget m (lit ''tool_call_id'') of Some (JStr i) \<Rightarrow> Some i | _ \<Rightarrow> None)"

definition expected_ids :: "message \<Rightarrow> str list res" where
  "expected_ids m = (if has_role ''assistant'' m then tool_call_ids m else Inr [])"

text \<open>One message that calls no tool, or a call message with one result for each of its calls.\<close>

definition whole :: "message list \<Rightarrow> bool" where
  "whole ms \<longleftrightarrow>
     (case ms of
        [] \<Rightarrow> False
      | m # results \<Rightarrow>
          \<not> has_role ''tool'' m \<and> list_all (has_role ''tool'') results \<and>
          (\<exists>ids. expected_ids m = Inr ids \<and> mset (map result_id results) = mset (map Some ids)))"

definition group_ok :: "MessageGroup \<Rightarrow> bool" where
  "group_ok g \<longleftrightarrow> whole (mg_messages g) \<and> length (mg_messages g) = length (mg_sequences g) \<and>
     list_all (\<lambda>m. detach_message m = Inr m) (mg_messages g) \<and> list_all (\<lambda>s. 0 \<le> s) (mg_sequences g)"

lemma detach_message_same: "detach_message m = Inr m' \<Longrightarrow> m' = m"
  by (auto simp: detach_message_def split: option.splits json.splits if_splits)

lemma detach_all_Inr: "detach_all ms = Inr ms' \<longleftrightarrow> ms' = ms \<and> list_all (\<lambda>m. detach_message m = Inr m) ms"
  by (induction ms arbitrary: ms') (auto simp: bindR_Inr_iff dest: detach_message_same)

lemma call_ids_distinct: "call_ids cs seen = Inr ids \<Longrightarrow> distinct seen \<Longrightarrow> distinct ids"
  by (induction cs seen rule: call_ids.induct) (auto split: option.splits json.splits if_splits)

lemma expected_ids_distinct: "expected_ids m = Inr ids \<Longrightarrow> distinct ids"
  by (auto simp: expected_ids_def tool_call_ids_def dest: call_ids_distinct split: if_splits option.splits json.splits)

lemma mk_MessageGroup_Inr:
  "mk_MessageGroup ms ss = Inr g \<longleftrightarrow>
     g = \<lparr>mg_messages = ms, mg_sequences = ss\<rparr> \<and> list_all (\<lambda>m. detach_message m = Inr m) ms \<and>
     ms \<noteq> [] \<and> length ms = length ss \<and> list_all (\<lambda>s. 0 \<le> s) ss"
  by (auto simp: mk_MessageGroup_def bindR_Inr_iff detach_all_Inr)

section \<open>The inner loop\<close>

lemma take_results_sound:
  "take_results expected seen ps = Inr (rs, seen', rest) \<Longrightarrow> distinct seen \<Longrightarrow> set seen \<subseteq> set expected \<Longrightarrow>
   ps = rs @ rest \<and> list_all (has_role ''tool'') (map fst rs) \<and>
   (\<exists>ids. map result_id (map fst rs) = map Some ids \<and> seen' = rev ids @ seen \<and> distinct seen' \<and> set seen' \<subseteq> set expected)"
proof (induction ps arbitrary: seen rs)
  case (Cons p ps)
  show ?case
  proof (cases "\<not> length seen < length expected \<or> \<not> has_role ''tool'' (fst p)")
    case True
    then show ?thesis using Cons.prems by auto
  next
    case False
    then obtain i rs' where i: "dget (fst p) (lit ''tool_call_id'') = Some (JStr i)" "i \<in> set expected" "i \<notin> set seen"
      "take_results expected (i # seen) ps = Inr (rs', seen', rest)" "rs = p # rs'"
      using Cons.prems(1) by (auto simp: bindR_Inr_iff split: option.splits json.splits if_splits)
    obtain ids where ids: "ps = rs' @ rest" "list_all (has_role ''tool'') (map fst rs')"
      "map result_id (map fst rs') = map Some ids" "seen' = rev ids @ i # seen" "distinct seen'" "set seen' \<subseteq> set expected"
      using Cons.IH [OF i(4)] i(2,3) Cons.prems(2,3) by auto
    have "map result_id (map fst rs) = map Some (i # ids)" using ids(3) i(1,5) by (simp add: result_id_def)
    moreover have "seen' = rev (i # ids) @ seen" using ids(4) by simp
    moreover have "p # ps = rs @ rest \<and> list_all (has_role ''tool'') (map fst rs)" using ids(1,2) i(5) False by simp
    ultimately show ?thesis using ids(5,6) by blast
  qed
qed simp

lemma take_results_complete:
  assumes "list_all (has_role ''tool'') (map fst rs)" "map result_id (map fst rs) = map Some ids"
    and "distinct (ids @ seen)" "set ids \<union> set seen \<subseteq> set expected"
    and "length seen + length rs = length expected"
  shows "take_results expected seen (rs @ rest) = Inr (rs, rev ids @ seen, rest)"
  using assms
proof (induction rs arbitrary: ids seen)
  case Nil
  then show ?case by (cases rest) simp_all
next
  case (Cons p rs)
  then obtain i ids' where ids: "ids = i # ids'" "result_id (fst p) = Some i" by (cases ids) auto
  then have "dget (fst p) (lit ''tool_call_id'') = Some (JStr i)"
    by (auto simp: result_id_def split: option.splits json.splits)
  moreover have "take_results expected (i # seen) (rs @ rest) = Inr (rs, rev ids' @ i # seen, rest)"
    using Cons.prems ids(1) by (intro Cons.IH) auto
  ultimately show ?case using Cons.prems ids(1) by simp
qed

section \<open>The outer loop\<close>

lemma whole_results:
  assumes "expected_ids m = Inr ids" "mset (map result_id rs) = mset (map Some ids)"
  shows "\<exists>js. map result_id rs = map Some js \<and> mset js = mset ids"
proof -
  have "\<forall>r \<in> set rs. result_id r \<noteq> None" using mset_eq_setD [OF assms(2)] by (auto simp: image_iff)
  then have map: "map result_id rs = map Some (map (the \<circ> result_id) rs)" by simp
  then have "mset (map Some (map (the \<circ> result_id) rs)) = mset (map Some ids)" using assms(2) by metis
  then have "image_mset Some (mset (map (the \<circ> result_id) rs)) = image_mset Some (mset ids)" by (simp only: mset_map)
  then have "image_mset the (image_mset Some (mset (map (the \<circ> result_id) rs))) = image_mset the (image_mset Some (mset ids))"
    by (rule arg_cong)
  then have "mset (map (the \<circ> result_id) rs) = mset ids" by (simp add: image_mset.compositionality comp_def)
  with map show ?thesis by blast
qed

lemma group_loop_sound:
  "group_loop ps = Inr gs \<Longrightarrow>
   concat (map mg_messages gs) = map fst ps \<and> concat (map mg_sequences gs) = map snd ps \<and> list_all group_ok gs"
proof (induction ps arbitrary: gs rule: group_loop.induct)
  case (2 p ps)
  have tool: "\<not> has_role ''tool'' (fst p)" using "2.prems" by (auto split: if_splits)
  obtain ids where ids: "expected_ids (fst p) = Inr ids"
    using "2.prems" tool by (auto simp: expected_ids_def split: if_splits sum.splits)
  show ?case
  proof (cases "ids = []")
    case True
    obtain g gs' where g: "mk_MessageGroup [fst p] [snd p] = Inr g" "group_loop ps = Inr gs'" "gs = g # gs'"
      using "2.prems" tool ids True by (auto simp: expected_ids_def bindR_Inr_iff split: if_splits)
    have "group_ok g" using g(1) tool ids True by (auto simp: mk_MessageGroup_Inr group_ok_def whole_def)
    moreover have "concat (map mg_messages gs') = map fst ps \<and> concat (map mg_sequences gs') = map snd ps \<and> list_all group_ok gs'"
      using "2.IH"(1) [OF tool _ True g(2)] ids by (simp add: expected_ids_def)
    ultimately show ?thesis using g by (simp add: mk_MessageGroup_Inr)
  next
    case False
    obtain rs seen rest g gs' where g: "take_results ids [] ps = Inr (rs, seen, rest)" "set seen = set ids"
      "mk_MessageGroup (map fst (p # rs)) (map snd (p # rs)) = Inr g" "group_loop rest = Inr gs'" "gs = g # gs'"
      using "2.prems" tool ids False
      by (auto simp: expected_ids_def bindR_Inr_iff split: if_splits sum.splits)
    obtain js where js: "ps = rs @ rest" "list_all (has_role ''tool'') (map fst rs)"
      "map result_id (map fst rs) = map Some js" "seen = rev js" "distinct seen"
      using take_results_sound [OF g(1)] by auto
    have "mset js = mset ids"
      using js(4,5) g(2) expected_ids_distinct [OF ids] set_eq_iff_mset_eq_distinct [of js ids] by auto
    then have "mset (map result_id (map fst rs)) = mset (map Some ids)" by (simp only: js(3) mset_map)
    then have "whole (map fst (p # rs))" using js(2) tool ids by (simp add: whole_def del: mset_map)
    then have "group_ok g" using g(3) by (auto simp: mk_MessageGroup_Inr group_ok_def)
    moreover have "concat (map mg_messages gs') = map fst rest \<and> concat (map mg_sequences gs') = map snd rest \<and> list_all group_ok gs'"
      using "2.IH"(2) [OF tool _ False g(1) refl refl _ g(4)] ids g(2) by (simp add: expected_ids_def)
    ultimately show ?thesis using g js(1) by (auto simp: mk_MessageGroup_Inr)
  qed
qed simp

lemma group_loop_complete:
  "list_all group_ok gs \<Longrightarrow> group_loop (zip (concat (map mg_messages gs)) (concat (map mg_sequences gs))) = Inr gs"
proof (induction gs)
  case (Cons g gs)
  let ?ps = "zip (concat (map mg_messages gs)) (concat (map mg_sequences gs))"
  have ok: "group_ok g" using Cons.prems by simp
  then obtain m ms s ss ids where g: "mg_messages g = m # ms" "mg_sequences g = s # ss" "length ms = length ss"
    "\<not> has_role ''tool'' m" "list_all (has_role ''tool'') ms" "expected_ids m = Inr ids"
    "mset (map result_id ms) = mset (map Some ids)"
    by (auto simp: group_ok_def whole_def split: list.splits) (metis length_Suc_conv)
  obtain js where js: "map result_id ms = map Some js" "mset js = mset ids" using whole_results [OF g(6,7)] by blast
  have d: "distinct ids" "distinct js" using expected_ids_distinct [OF g(6)] js(2) by (auto dest: mset_eq_imp_distinct_iff)
  have mk: "mk_MessageGroup (m # ms) (s # ss) = Inr g"
    using ok g by (cases g) (auto simp: mk_MessageGroup_Inr group_ok_def)
  have split: "zip (concat (map mg_messages (g # gs))) (concat (map mg_sequences (g # gs))) = (m, s) # zip ms ss @ ?ps"
    using g(1-3) by simp
  have rest: "group_loop ?ps = Inr gs" using Cons by simp
  show ?case
  proof (cases "ids = []")
    case True
    then have "ms = []" using js by simp
    then show ?thesis unfolding split using g mk rest True by (auto simp: expected_ids_def)
  next
    case False
    have "take_results ids [] (zip ms ss @ ?ps) = Inr (zip ms ss, rev js @ [], ?ps)"
      using g(3,5) js d mset_eq_length [OF js(2)] map_eq_imp_length_eq [OF js(1)]
      by (intro take_results_complete) (auto dest: mset_eq_setD)
    then show ?thesis
      unfolding split using g mk rest False js(2) by (auto simp: expected_ids_def dest: mset_eq_setD)
  qed
qed simp

lemma group_ok_lengths: "list_all group_ok gs \<Longrightarrow> length (concat (map mg_messages gs)) = length (concat (map mg_sequences gs))"
  by (induction gs) (auto simp: group_ok_def)

lemma group_messages_iff:
  "group_messages ms ss = Inr gs \<longleftrightarrow>
     concat (map mg_messages gs) = ms \<and> concat (map mg_sequences gs) = ss \<and> list_all group_ok gs"
proof
  assume "group_messages ms ss = Inr gs"
  then have "length ms = length ss" "group_loop (zip ms ss) = Inr gs"
    by (auto simp: group_messages_def bindR_Inr_iff detach_all_Inr)
  then show "concat (map mg_messages gs) = ms \<and> concat (map mg_sequences gs) = ss \<and> list_all group_ok gs"
    using group_loop_sound by fastforce
next
  assume a: "concat (map mg_messages gs) = ms \<and> concat (map mg_sequences gs) = ss \<and> list_all group_ok gs"
  then have "list_all (\<lambda>m. detach_message m = Inr m) ms" "list_all (\<lambda>s. 0 \<le> s) ss"
    by (auto simp: group_ok_def list_all_iff)
  then show "group_messages ms ss = Inr gs"
    using a group_loop_complete [of gs] group_ok_lengths [of gs]
    by (auto simp: group_messages_def bindR_Inr_iff detach_all_Inr)
qed

end
