(* ===== verification/Responses.thy ===== *)
theory Responses
  imports Events
begin

text \<open>
  The normalized model output of \<open>models.py\<close>: the redaction of text that crosses the model
  boundary, the token counters, a tool call as the provider sent it, and the assistant's
  response.
\<close>

section \<open>Redaction of model text\<close>

definition quote_char :: "nat \<Rightarrow> bool" where
  "quote_char c \<longleftrightarrow> c = 34 \<or> c = 39"

definition secret_words :: "str list" where
  "secret_words =
     map lit [''api_key'', ''api-key'', ''apikey'', ''authorization'', ''password'', ''passwd'', ''secret'',
       ''credential'', ''cookie'', ''private_key'', ''private-key'', ''privatekey'', ''client_secret'',
       ''client-secret'', ''clientsecret'', ''access_token'', ''access-token'', ''accesstoken'',
       ''refresh_token'', ''refresh-token'', ''refreshtoken'', ''token'']"

text \<open>The name, its closing quote, the separator and the spaces around it (the group \<open>\1\<close>, but for
  the optional quote before the name, which the replacement keeps), and the text after them.\<close>

definition secret_lhs :: "(nat \<Rightarrow> bool) \<Rightarrow> str \<Rightarrow> (str \<times> str) option" where
  "secret_lhs word s =
     (case first_word secret_words s of
        None \<Rightarrow> None
      | Some (name, r) \<Rightarrow>
          if r \<noteq> [] \<and> word (hd r) then None
          else
            (let q = (if r \<noteq> [] \<and> quote_char (hd r) then [hd r] else []);
                 r1 = drop (length q) r in
             case dropWhile is_space r1 of
               [] \<Rightarrow> None
             | sep # r2 \<Rightarrow>
                 if sep = 58 \<or> sep = 61
                 then Some (name @ q @ takeWhile is_space r1 @ [sep] @ takeWhile is_space r2, dropWhile is_space r2)
                 else None))"

definition model_bearer_char :: "nat \<Rightarrow> bool" where
  "model_bearer_char c \<longleftrightarrow> \<not> is_space c \<and> c \<notin> {44, 59, 34, 39, 125}"

definition model_bearer :: "str \<Rightarrow> (str \<times> str) option" where
  "model_bearer s =
     (case after_word (lit ''bearer'') s of
        None \<Rightarrow> None
      | Some r \<Rightarrow>
          (let v = dropWhile is_space r in
           if takeWhile is_space r = [] \<or> takeWhile model_bearer_char v = [] then None
           else Some (lit ''Bearer <redacted>'', dropWhile model_bearer_char v)))"

definition model_secret_quoted :: "(nat \<Rightarrow> bool) \<Rightarrow> str \<Rightarrow> (str \<times> str) option" where
  "model_secret_quoted word s =
     (case secret_lhs word s of
        None \<Rightarrow> None
      | Some (lhs, v) \<Rightarrow>
          if v \<noteq> [] \<and> quote_char (hd v)
          then (case dropWhile (\<lambda>c. \<not> quote_char c) (tl v) of
                  q # rest \<Rightarrow> if q = hd v then Some (lhs @ [34] @ lit ''<redacted>'' @ [34], rest) else None
                | [] \<Rightarrow> None)
          else None)"

definition unquoted_char :: "nat \<Rightarrow> bool" where
  "unquoted_char c \<longleftrightarrow> \<not> is_space c \<and> c \<notin> {44, 59, 125}"

definition model_secret_unquoted :: "(nat \<Rightarrow> bool) \<Rightarrow> str \<Rightarrow> (str \<times> str) option" where
  "model_secret_unquoted word s =
     (case secret_lhs word s of
        None \<Rightarrow> None
      | Some (lhs, v) \<Rightarrow>
          if v = [] \<or> quote_char (hd v) \<or> takeWhile unquoted_char v = [] then None
          else Some (lhs @ lit ''<redacted>'', dropWhile unquoted_char v))"

text \<open>\<open>_redact_model_text\<close>.\<close>

definition redact_model_text :: "platform \<Rightarrow> str \<Rightarrow> str" where
  "redact_model_text pl s =
     sub_all (pl_word pl) (model_secret_unquoted (pl_word pl)) False
       (sub_all (pl_word pl) (model_secret_quoted (pl_word pl)) False
         (sub_all (pl_word pl) model_bearer False s))"

section \<open>Usage\<close>

record NormalizedUsage =
  nu_input_tokens :: "int option"
  nu_output_tokens :: "int option"
  nu_total_tokens :: "int option"

definition usage_error :: "string \<Rightarrow> exn" where
  "usage_error name = ValueError (lit name @ lit '' must be a non-negative integer or None'')"

definition mk_NormalizedUsage :: "int option \<Rightarrow> int option \<Rightarrow> int option \<Rightarrow> NormalizedUsage res" where
  "mk_NormalizedUsage i out t =
     bindR (guardR (nonneg_option i) (usage_error ''input_tokens'')) (\<lambda>_.
     bindR (guardR (nonneg_option out) (usage_error ''output_tokens'')) (\<lambda>_.
     bindR (guardR (nonneg_option t) (usage_error ''total_tokens'')) (\<lambda>_.
     Inr \<lparr>nu_input_tokens = i, nu_output_tokens = out, nu_total_tokens = t\<rparr>)))"

fun supplied :: "string \<Rightarrow> int option \<Rightarrow> jobj" where
  "supplied k (Some n) = [(lit k, JInt n)]"
| "supplied k None = []"

definition usage_to_dict :: "NormalizedUsage \<Rightarrow> jobj" where
  "usage_to_dict u =
     supplied ''input_tokens'' (nu_input_tokens u) @ supplied ''output_tokens'' (nu_output_tokens u) @
     supplied ''total_tokens'' (nu_total_tokens u)"

section \<open>Tool calls and responses\<close>

record NormalizedToolCall =
  nc_provider_tool_call_id :: "str option"
  nc_name :: "str option"
  nc_raw_arguments :: str
  nc_arguments_valid :: bool
  nc_diagnostics :: "str list"

text \<open>The constructor; the provider's id may be an instance of \<open>ProviderToolCallId\<close> or a string,
  which are both strings.\<close>

definition mk_NormalizedToolCall ::
  "platform \<Rightarrow> str option \<Rightarrow> str option \<Rightarrow> str \<Rightarrow> bool \<Rightarrow> str list \<Rightarrow> NormalizedToolCall res" where
  "mk_NormalizedToolCall pl pid name raw valid diagnostics =
     bindR (case pid of None \<Rightarrow> Inr None
            | Some v \<Rightarrow> bindR (coerce_identifier (PlainStr (redact_model_text pl v)) ProviderToolCallId) (\<lambda>i. Inr (Some i))) (\<lambda>pid'.
     bindR (guardR (name \<noteq> Some []) (ValueError (lit ''tool name must be a non-empty string or None''))) (\<lambda>_.
     bindR (guardR (list_all (\<lambda>d. d \<noteq> []) diagnostics)
              (TypeError (lit ''diagnostics must contain non-empty strings''))) (\<lambda>_.
     Inr \<lparr>nc_provider_tool_call_id = pid', nc_name = map_option (redact_model_text pl) name,
          nc_raw_arguments = redact_model_text pl raw, nc_arguments_valid = valid, nc_diagnostics = diagnostics\<rparr>)))"

text \<open>\<open>NormalizedToolCall.valid\<close>.\<close>

definition call_valid :: "NormalizedToolCall \<Rightarrow> bool" where
  "call_valid c \<longleftrightarrow> nc_arguments_valid c \<and> nc_diagnostics c = []"

definition call_to_dict :: "NormalizedToolCall \<Rightarrow> jobj" where
  "call_to_dict c =
     [(lit ''provider_tool_call_id'', json_opt_str (nc_provider_tool_call_id c)),
      (lit ''name'', json_opt_str (nc_name c)),
      (lit ''raw_arguments'', JStr (nc_raw_arguments c)),
      (lit ''arguments_valid'', JBool (nc_arguments_valid c)),
      (lit ''diagnostics'', JArr (map JStr (nc_diagnostics c)))]"

record NormalizedAssistantResponse =
  nr_text :: str
  nr_tool_calls :: "NormalizedToolCall list"
  nr_usage :: "NormalizedUsage option"
  nr_finish_reason :: "str option"
  nr_diagnostics :: "str list"

definition mk_NormalizedAssistantResponse ::
  "platform \<Rightarrow> str \<Rightarrow> NormalizedToolCall list \<Rightarrow> NormalizedUsage option \<Rightarrow> str option \<Rightarrow> str list
     \<Rightarrow> NormalizedAssistantResponse res" where
  "mk_NormalizedAssistantResponse pl t calls usage finish_reason diagnostics =
     bindR (guardR (list_all (\<lambda>d. d \<noteq> []) diagnostics)
              (TypeError (lit ''diagnostics must contain non-empty strings''))) (\<lambda>_.
     Inr \<lparr>nr_text = redact_model_text pl t, nr_tool_calls = calls, nr_usage = usage,
          nr_finish_reason = map_option (redact_model_text pl) finish_reason, nr_diagnostics = diagnostics\<rparr>)"

definition response_to_dict :: "NormalizedAssistantResponse \<Rightarrow> jobj" where
  "response_to_dict r =
     [(lit ''text'', JStr (nr_text r)),
      (lit ''tool_calls'', JArr (map (\<lambda>c. JObj (call_to_dict c)) (nr_tool_calls r))),
      (lit ''usage'', (case nr_usage r of None \<Rightarrow> JNull | Some u \<Rightarrow> JObj (usage_to_dict u))),
      (lit ''finish_reason'', json_opt_str (nr_finish_reason r)),
      (lit ''diagnostics'', JArr (map JStr (nr_diagnostics r)))]"

end
