(* ===== verification/Dumps.thy ===== *)
theory Dumps
  imports Json
begin

text \<open>
  \<open>json.dumps\<close> with its default separators, with and without \<open>ensure_ascii\<close>: the forms the
  service shows a user and the history measures pages by.  A non-finite float is rendered by its
  JavaScript name, as \<open>allow_nan\<close> is left on.
\<close>

text \<open>One code unit as \<open>\\uXXXX\<close>, and a character of an ASCII text: a surrogate pair beyond the
  basic plane.\<close>

definition escape_unit :: "nat \<Rightarrow> str" where
  "escape_unit c =
     [92, 117, hex_digit (c div 4096 mod 16), hex_digit (c div 256 mod 16), hex_digit (c div 16 mod 16), hex_digit (c mod 16)]"

definition escape_ascii :: "nat \<Rightarrow> str" where
  "escape_ascii c =
     (if c < 127 then escape_char c
      else if c < 65536 then escape_unit c
      else escape_unit (55296 + (c - 65536) div 1024) @ escape_unit (56320 + (c - 65536) mod 1024))"

definition quoted :: "(nat \<Rightarrow> str) \<Rightarrow> str \<Rightarrow> str" where
  "quoted esc s = 34 # concat (map esc s) @ [34]"

fun join_text :: "str \<Rightarrow> str list \<Rightarrow> str" where
  "join_text sep [] = []"
| "join_text sep [x] = x"
| "join_text sep (x # xs) = x @ sep @ join_text sep xs"

fun dumps_with :: "(nat \<Rightarrow> str) \<Rightarrow> (rat \<Rightarrow> str) \<Rightarrow> json \<Rightarrow> str" where
  "dumps_with esc frepr JNull = lit ''null''"
| "dumps_with esc frepr (JBool b) = (if b then lit ''true'' else lit ''false'')"
| "dumps_with esc frepr (JInt i) = dec_int i"
| "dumps_with esc frepr (JFloat f) =
     (case f of Finite q \<Rightarrow> frepr q | PosInf \<Rightarrow> lit ''Infinity'' | NegInf \<Rightarrow> lit ''-Infinity'' | NaN \<Rightarrow> lit ''NaN'')"
| "dumps_with esc frepr (JStr s) = quoted esc s"
| "dumps_with esc frepr (JArr xs) = 91 # join_text (lit '', '') (map (dumps_with esc frepr) xs) @ [93]"
| "dumps_with esc frepr (JObj d) =
     123 # join_text (lit '', '') (map (\<lambda>p. quoted esc (fst p) @ lit '': '' @ dumps_with esc frepr (snd p)) d) @ [125]"

definition dumps_ascii :: "(rat \<Rightarrow> str) \<Rightarrow> json \<Rightarrow> str" where
  "dumps_ascii = dumps_with escape_ascii"

definition dumps_plain :: "(rat \<Rightarrow> str) \<Rightarrow> json \<Rightarrow> str" where
  "dumps_plain = dumps_with escape_char"

end
