(* ===== verification/DumpFacts.thy ===== *)
theory DumpFacts
  imports Dumps "HOL-Library.Multiset"
begin

text \<open>
  The lengths of the three texts of a JSON value: the canonical one is never longer than the
  default one, and that never longer than its ASCII form.  The length of the ASCII form adds up
  from the parts.
\<close>

section \<open>Values that can be written\<close>

fun writable :: "(rat \<Rightarrow> str) \<Rightarrow> json \<Rightarrow> bool" where
  "writable frepr (JStr s) = encodable s"
| "writable frepr (JFloat f) = (case f of Finite q \<Rightarrow> encodable (frepr q) | _ \<Rightarrow> False)"
| "writable frepr (JArr xs) = list_all (writable frepr) xs"
| "writable frepr (JObj d) = list_all (\<lambda>p. encodable (fst p) \<and> writable frepr (snd p)) d"
| "writable frepr _ = True"

lemma writable_finite: "writable frepr v \<Longrightarrow> finite_json v"
  by (induction v rule: json_induct) (auto simp: list_all_iff split: pyfloat.splits)

lemma writable_sort: "writable frepr v \<Longrightarrow> writable frepr (sort_json v)"
  by (induction v rule: json_induct) (auto simp: list_all_iff)

lemma encodable_concat: "\<forall>s \<in> set ss. encodable s \<Longrightarrow> encodable (concat ss)"
  by (induction ss) simp_all

lemma encodable_ascii: "list_all (\<lambda>c. c < 128) s \<Longrightarrow> encodable s"
  by (auto simp: encodable_def list_all_iff valid_cp_def is_surrogate_def)

lemma encodable_escape: "valid_cp c \<Longrightarrow> encodable (escape_char c)"
  by (auto simp: escape_char_def hex_digit_def valid_cp_def is_surrogate_def)

lemma encodable_quoted: "encodable s \<Longrightarrow> encodable (quoted escape_char s)"
proof -
  assume "encodable s"
  then have "encodable (concat (map escape_char s))"
    by (intro encodable_concat) (auto simp: encodable_def list_all_iff encodable_escape [unfolded encodable_def list_all_iff])
  then show ?thesis by (simp add: quoted_def valid_cp_def is_surrogate_def)
qed

lemma encodable_join_text: "encodable sep \<Longrightarrow> \<forall>s \<in> set ss. encodable s \<Longrightarrow> encodable (join_text sep ss)"
  by (induction sep ss rule: join_text.induct) simp_all

lemma encodable_join_with: "valid_cp c \<Longrightarrow> \<forall>s \<in> set ss. encodable s \<Longrightarrow> encodable (join_with c ss)"
  by (induction c ss rule: join_with.induct) simp_all

lemma render_quoted: "render_string s = quoted escape_char s"
  by (simp add: render_string_def quoted_def)

lemma encodable_dec_int: "encodable (dec_int i)"
  by (intro encodable_ascii) (auto simp: list_all_iff dec_int_def lit_def dest!: dec_digits)

lemma valid_punctuation [simp]: "c < 128 \<Longrightarrow> valid_cp c"
  by (simp add: valid_cp_def is_surrogate_def)

lemma encodable_render_writable: "writable frepr v \<Longrightarrow> encodable (render frepr v)"
  by (induction v rule: json_induct)
    (force simp: list_all_iff render_quoted intro!: encodable_join_with encodable_quoted encodable_dec_int split: pyfloat.splits)+

lemma encodable_dumps_plain: "writable frepr v \<Longrightarrow> encodable (dumps_plain frepr v)"
  unfolding dumps_plain_def
  by (induction v rule: json_induct)
    (force simp: list_all_iff intro!: encodable_join_text encodable_quoted encodable_dec_int split: pyfloat.splits)+

section \<open>Lengths\<close>

lemma utf8_len_concat: "utf8_len (concat ss) = sum_list (map utf8_len ss)"
  by (induction ss) simp_all

lemma utf8_len_ascii: "list_all (\<lambda>c. c < 128) s \<Longrightarrow> utf8_len s = length s"
  by (induction s) (simp_all add: utf8_len_Cons length_enc_ascii)

lemma hex_digit_ascii: "n < 16 \<Longrightarrow> hex_digit n < 128"
  by (simp add: hex_digit_def)

lemma utf8_len_escape_unit: "utf8_len (escape_unit c) = 6"
  by (simp add: escape_unit_def utf8_len_ascii hex_digit_ascii)

lemma escape_shorter: "utf8_len (escape_char c) \<le> utf8_len (escape_ascii c)"
  by (auto simp: escape_ascii_def escape_char_def utf8_len_escape_unit utf8_len_Cons enc_cp_def)

definition quoted_len :: "(nat \<Rightarrow> str) \<Rightarrow> str \<Rightarrow> nat" where
  "quoted_len esc s = 2 + sum_list (map (\<lambda>c. utf8_len (esc c)) s)"

lemma utf8_len_quoted: "utf8_len (quoted esc s) = quoted_len esc s"
  by (simp add: quoted_def quoted_len_def utf8_len_Cons length_enc_ascii utf8_len_concat comp_def)

lemma quoted_shorter: "quoted_len escape_char s \<le> quoted_len escape_ascii s"
  by (simp add: quoted_len_def sum_list_mono escape_shorter)

lemma utf8_len_join_text: "utf8_len (join_text sep ss) = sum_list (map utf8_len ss) + utf8_len sep * (length ss - 1)"
  by (induction sep ss rule: join_text.induct) simp_all

lemma utf8_len_join_with:
  "c < 128 \<Longrightarrow> utf8_len (join_with c ss) = sum_list (map utf8_len ss) + (length ss - 1)"
  by (induction c ss rule: join_with.induct) (simp_all add: utf8_len_Cons length_enc_ascii)

lemma utf8_len_separators: "utf8_len (lit '', '') = 2" "utf8_len (lit '': '') = 2"
  by (simp_all add: lit_def utf8_len_Cons length_enc_ascii)

text \<open>The length of the parts of \<open>dumps_with\<close>.\<close>

lemma dumps_len:
  "utf8_len (dumps_with esc frepr (JStr s)) = quoted_len esc s"
  "utf8_len (dumps_with esc frepr (JArr xs)) =
     2 + sum_list (map (\<lambda>x. utf8_len (dumps_with esc frepr x)) xs) + 2 * (length xs - 1)"
  "utf8_len (dumps_with esc frepr (JObj d)) =
     2 + sum_list (map (\<lambda>p. quoted_len esc (fst p) + 2 + utf8_len (dumps_with esc frepr (snd p))) d) + 2 * (length d - 1)"
  by (simp_all add: utf8_len_quoted utf8_len_join_text utf8_len_Cons length_enc_ascii utf8_len_separators comp_def)

lemma render_len:
  "utf8_len (render frepr (JStr s)) = quoted_len escape_char s"
  "utf8_len (render frepr (JArr xs)) = 2 + sum_list (map (\<lambda>x. utf8_len (render frepr x)) xs) + (length xs - 1)"
  "utf8_len (render frepr (JObj d)) =
     2 + sum_list (map (\<lambda>p. quoted_len escape_char (fst p) + 1 + utf8_len (render frepr (snd p))) d) + (length d - 1)"
  by (simp_all add: render_quoted utf8_len_quoted utf8_len_join_with utf8_len_Cons length_enc_ascii comp_def)

lemma sum_list_sort_key: "sum_list (map f (sort_key k xs)) = (sum_list (map f xs) :: nat)"
  by (metis mset_map mset_sort sum_mset_sum_list)

lemma canonical_shorter: "utf8_len (render frepr (sort_json v)) \<le> utf8_len (dumps_plain frepr v)"
  unfolding dumps_plain_def
proof (induction v rule: json_induct)
  case (JArr xs)
  then have "sum_list (map (\<lambda>x. utf8_len (render frepr (sort_json x))) xs) \<le> sum_list (map (\<lambda>x. utf8_len (dumps_with escape_char frepr x)) xs)"
    by (intro sum_list_mono) auto
  then show ?case by (simp only: sort_json.simps render_len dumps_len) (simp add: comp_def)
next
  case (JObj d)
  then have "sum_list (map (\<lambda>p. quoted_len escape_char (fst p) + 1 + utf8_len (render frepr (sort_json (snd p)))) d) \<le>
      sum_list (map (\<lambda>p. quoted_len escape_char (fst p) + 2 + utf8_len (dumps_with escape_char frepr (snd p))) d)"
    by (intro sum_list_mono add_mono) auto
  then show ?case by (simp only: sort_json.simps render_len dumps_len sum_list_sort_key) (simp add: comp_def)
qed (auto simp: render_quoted utf8_len_quoted split: pyfloat.splits)

lemma plain_shorter: "utf8_len (dumps_plain frepr v) \<le> utf8_len (dumps_ascii frepr v)"
  unfolding dumps_plain_def dumps_ascii_def
proof (induction v rule: json_induct)
  case (JArr xs)
  then show ?case unfolding dumps_len by (intro add_mono sum_list_mono) auto
next
  case (JObj d)
  then show ?case unfolding dumps_len by (intro add_mono sum_list_mono quoted_shorter) auto
qed (auto simp: utf8_len_quoted quoted_shorter)

end
