(* ===== verification/ContextProps.thy ===== *)
theory ContextProps
  imports ContextFacts Compactor DumpFacts
begin

text \<open>
  The context as the model sees it: what a projection shows of the recent messages, and what a
  compaction may drop from it.
\<close>

section \<open>The numbers of the messages\<close>

lemma assign_all [simp]: "assign_sequences k (map Some ss) = ss"
  by (induction ss arbitrary: k) simp_all

lemma length_assign [simp]: "length (assign_sequences k vs) = length vs"
  by (induction k vs rule: assign_sequences.induct) simp_all

definition numbers :: "ContextState \<Rightarrow> int list" where
  "numbers c = assign_sequences (cutoff c) (pad_sequences (recent_messages c) (recent_message_sequences c))"

lemma entries_Inr:
  "entries c = (c', Inr (ms, ss)) \<longleftrightarrow>
     ms = recent_messages c \<and> ss = numbers c \<and> c' = c\<lparr>recent_message_sequences := map Some ss\<rparr> \<and>
     list_all (\<lambda>m. detach_message m = Inr m) ms \<and> length (recent_message_sequences c) \<le> length ms"
proof (cases "detach_all (recent_messages c)")
  case (Inl e)
  then have "\<not> list_all (\<lambda>m. detach_message m = Inr m) (recent_messages c)"
    using detach_all_Inr [of "recent_messages c" "recent_messages c"] by simp
  then show ?thesis using Inl by (auto simp: entries_def)
next
  case (Inr ms')
  then have "ms' = recent_messages c" "list_all (\<lambda>m. detach_message m = Inr m) (recent_messages c)"
    by (simp_all add: detach_all_Inr)
  then show ?thesis using Inr by (auto simp: entries_def Let_def numbers_def not_less)
qed

lemma all_groups_Inr:
  "all_groups c = (c', Inr gs) \<longleftrightarrow>
     entries c = (c', Inr (recent_messages c, numbers c)) \<and> concat (map mg_messages gs) = recent_messages c \<and>
     concat (map mg_sequences gs) = numbers c \<and> list_all group_ok gs"
proof -
  obtain c1 r where e: "entries c = (c1, r)" by fastforce
  show ?thesis
  proof (cases r)
    case (Inl x)
    then show ?thesis using e by (simp add: all_groups_def)
  next
    case (Inr p)
    obtain ms ss where p: "p = (ms, ss)" by fastforce
    then have "ms = recent_messages c" "ss = numbers c" using e Inr by (simp_all add: entries_Inr)
    then show ?thesis using e Inr p by (auto simp: all_groups_def group_messages_iff)
  qed
qed

text \<open>Once numbered, the messages keep their numbers whatever is covered or degraded later.\<close>

lemma all_groups_again:
  assumes "all_groups c = (c1, Inr gs)" "recent_messages c2 = recent_messages c1"
    "recent_message_sequences c2 = recent_message_sequences c1"
  shows "all_groups c2 = (c2, Inr gs)"
proof -
  have e: "c1 = c\<lparr>recent_message_sequences := map Some (numbers c)\<rparr>"
    "list_all (\<lambda>m. detach_message m = Inr m) (recent_messages c)" "length (recent_message_sequences c) \<le> length (recent_messages c)"
    using assms(1) by (auto simp: all_groups_Inr entries_Inr)
  have len: "length (numbers c) = length (recent_messages c)" using e(3) by (simp add: numbers_def)
  have c2: "recent_messages c2 = recent_messages c" "recent_message_sequences c2 = map Some (numbers c)"
    using assms(2,3) e(1) by simp_all
  then have "numbers c2 = numbers c" using len by (simp add: numbers_def [of c2])
  then show ?thesis using assms(1) c2 e(2) len by (auto simp: all_groups_Inr entries_Inr)
qed

lemma effective_groups_Inr:
  "effective_groups c = (c', Inr gs) \<longleftrightarrow>
     (\<exists>all. all_groups c = (c', Inr all) \<and> gs = filter (\<lambda>g. cutoff c < end_sequence g) all)"
  by (auto simp: effective_groups_def not_le split: prod.splits sum.splits)

section \<open>The order of the groups\<close>

lemma group_sequences_nonempty: "group_ok g \<Longrightarrow> mg_sequences g \<noteq> []"
  by (auto simp: group_ok_def whole_def split: list.splits)

lemma end_sequence_mem: "group_ok g \<Longrightarrow> end_sequence g \<in> set (mg_sequences g)"
  using group_sequences_nonempty by (simp add: end_sequence_def)

lemma end_sequence_ge: "s \<in> set (mg_sequences g) \<Longrightarrow> s \<le> end_sequence g"
  by (simp add: end_sequence_def)

lemma end_sequence_nonneg: "group_ok g \<Longrightarrow> 0 \<le> end_sequence g"
  using end_sequence_mem [of g] by (auto simp: group_ok_def list_all_iff)

lemma ends_sorted:
  "sorted_wrt (<) (concat (map mg_sequences gs)) \<Longrightarrow> list_all group_ok gs \<Longrightarrow> sorted_wrt (<) (map end_sequence gs)"
proof (induction gs)
  case (Cons g gs)
  have "end_sequence g < end_sequence h" if "h \<in> set gs" for h
    using Cons.prems that end_sequence_mem [of g] end_sequence_mem [of h]
    by (auto simp: sorted_wrt_append list_all_iff)
  then show ?case using Cons by (simp add: sorted_wrt_append)
qed simp

lemma filter_beyond:
  assumes "sorted_wrt (<) (map end_sequence (sel @ kept))" "sel \<noteq> []"
  shows "filter (\<lambda>g. end_sequence (last sel) < end_sequence g) (sel @ kept) = kept"
proof -
  have "end_sequence g \<le> end_sequence (last sel)" if "g \<in> set sel" for g
    using assms that by (induction sel rule: rev_induct) (fastforce simp: sorted_wrt_append)+
  moreover have "end_sequence (last sel) < end_sequence g" if "g \<in> set kept" for g
    using assms that by (auto simp: sorted_wrt_append)
  ultimately show ?thesis by (auto simp: filter_empty_conv not_less)
qed

section \<open>The plan\<close>

lemma plan_compaction_Some:
  assumes "plan_compaction b forced c = (c1, Inr (Some p))" "all_groups c = (c1, Inr gs)" "1 \<le> cb_keep_recent_groups b"
  shows "\<exists>kept. filter (\<lambda>g. covered_through_sequence c < end_sequence g) gs = pn_groups p @ kept \<and>
    kept \<noteq> [] \<and> pn_groups p \<noteq> [] \<and> pn_old_summary p = latest_summary c \<and> pn_forced p = forced \<and>
    pn_previous_covered_sequence p = covered_through_sequence c"
proof -
  let ?gs = "filter (\<lambda>g. covered_through_sequence c < end_sequence g) gs"
  let ?retained = "if forced then 1 else cb_keep_recent_groups b"
  let ?n = "nat (int (length ?gs) - ?retained)"
  have p: "p = \<lparr>pn_old_summary = latest_summary c, pn_groups = take ?n ?gs, pn_forced = forced,
      pn_previous_covered_sequence = covered_through_sequence c\<rparr>" "0 < int (length ?gs) - ?retained"
    using assms(1) unfolding plan_compaction_def assms(2)
    by (auto simp: Let_def mk_CompactionPlan_def bindR_Inr_iff split: if_splits)
  have "?n < length ?gs" "0 < ?n" using p(2) assms(3) by (auto split: if_splits)
  then show ?thesis using p(1) by (intro exI [of _ "drop ?n ?gs"]) auto
qed

lemma select_groups_prefix:
  "select_groups pl cm old sel gs = Inr r \<Longrightarrow>
   \<exists>ys zs. r = sel @ ys \<and> gs = ys @ zs \<and>
     (ys \<noteq> [] \<longrightarrow> (\<exists>n. request_tokens pl cm old r = Inr n \<and> n \<le> cm_context_window cm))"
proof (induction gs arbitrary: sel)
  case (Cons g gs)
  obtain n where n: "request_tokens pl cm old (sel @ [g]) = Inr n"
    using Cons.prems by (auto simp: bindR_Inr_iff)
  show ?case
  proof (cases "cm_context_window cm < n")
    case True
    then show ?thesis using Cons.prems n by auto
  next
    case False
    then have "select_groups pl cm old (sel @ [g]) gs = Inr r" using Cons.prems n by simp
    then obtain ys zs where r: "r = (sel @ [g]) @ ys" "gs = ys @ zs"
      "ys \<noteq> [] \<longrightarrow> (\<exists>n. request_tokens pl cm old r = Inr n \<and> n \<le> cm_context_window cm)"
      using Cons.IH by blast
    show ?thesis
      using r n False by (intro exI [of _ "g # ys"] exI [of _ zs]) (cases "ys = []"; auto)
  qed
qed simp

lemma bounded_groups_prefix:
  assumes "bounded_groups pl cm p = Inr sel"
  shows "sel \<noteq> [] \<and> (\<exists>zs. pn_groups p = sel @ zs) \<and>
    (\<exists>n. request_tokens pl cm (pn_old_summary p) sel = Inr n \<and> n \<le> cm_context_window cm)"
proof -
  have "select_groups pl cm (pn_old_summary p) [] (pn_groups p) = Inr sel" "sel \<noteq> []"
    using assms by (auto simp: bounded_groups_def bindR_Inr_iff split: if_splits)
  then show ?thesis using select_groups_prefix [of pl cm "pn_old_summary p" "[]" "pn_groups p" sel] by auto
qed

lemma compact_outcome:
  assumes "compact pl cm ask p (c, w) = ((c2, w2), Inr out)"
  shows "(\<not> co_succeeded out \<and> c2 = c \<and> co_covered_through_sequence out = pn_previous_covered_sequence p) \<or>
    (co_succeeded out \<and> (\<exists>sel t. bounded_groups pl cm p = Inr sel \<and> co_summary out = Some t \<and>
       c2 = covered_state c t (end_sequence (last sel)) \<and>
       co_covered_through_sequence out = end_sequence (last sel)))"
proof (cases "bounded_groups pl cm p")
  case (Inl e)
  then show ?thesis using assms by (auto simp: compact_def compaction_failure_def)
next
  case (Inr sel)
  obtain w' r where r: "request_summary pl cm ask p sel w = (w', r)" by fastforce
  show ?thesis
    using assms Inr r by (cases r) (auto simp: compact_def compaction_failure_def Let_def split: if_splits)
qed

lemma compaction_lemma:
  assumes plan: "plan_compaction b forced c = (c1, Inr (Some p))" and all: "all_groups c = (c1, Inr gs)"
    and sorted: "sorted_wrt (<) (concat (map mg_sequences gs))" and keep: "1 \<le> cb_keep_recent_groups b"
    and run: "compact pl cm ask p (c1, w) = ((c2, w2), Inr out)"
  shows "(\<not> co_succeeded out \<and> c2 = c1) \<or>
    (\<exists>sel kept n. co_succeeded out \<and> sel \<noteq> [] \<and> kept \<noteq> [] \<and>
       filter (\<lambda>g. covered_through_sequence c < end_sequence g) gs = sel @ kept \<and>
       request_tokens pl cm (latest_summary c) sel = Inr n \<and> n \<le> cm_context_window cm \<and>
       covered_through_sequence c2 = end_sequence (last sel) \<and> covered_through_sequence c < end_sequence (last sel) \<and>
       latest_summary c2 = co_summary out \<and> recent_messages c2 = recent_messages c \<and>
       effective_groups c2 = (c2, Inr kept))"
proof -
  obtain kept0 where p: "filter (\<lambda>g. covered_through_sequence c < end_sequence g) gs = pn_groups p @ kept0"
    "kept0 \<noteq> []" "pn_old_summary p = latest_summary c"
    using plan_compaction_Some [OF plan all keep] by blast
  have ok: "list_all group_ok gs" using all by (simp add: all_groups_Inr)
  consider "\<not> co_succeeded out" "c2 = c1" | sel t where "co_succeeded out" "bounded_groups pl cm p = Inr sel"
    "co_summary out = Some t" "c2 = covered_state c1 t (end_sequence (last sel))"
    using compact_outcome [OF run] by blast
  then show ?thesis
  proof cases
    case 1
    then show ?thesis by simp
  next
    case 2
    obtain zs n where sel: "sel \<noteq> []" "pn_groups p = sel @ zs"
      "request_tokens pl cm (latest_summary c) sel = Inr n" "n \<le> cm_context_window cm"
      using bounded_groups_prefix [OF 2(2)] p(3) by auto
    let ?kept = "zs @ kept0" and ?e = "end_sequence (last sel)"
    have split: "filter (\<lambda>g. covered_through_sequence c < end_sequence g) gs = sel @ ?kept" using p(1) sel(2) by simp
    have "last sel \<in> set (filter (\<lambda>g. covered_through_sequence c < end_sequence g) gs)"
      unfolding split using last_in_set [OF sel(1)] by simp
    then have last: "last sel \<in> set gs" "covered_through_sequence c < ?e" by simp_all
    have beyond: "filter (\<lambda>g. ?e < end_sequence g) gs = ?kept"
    proof -
      have "sorted_wrt (<) (map end_sequence (filter (\<lambda>g. covered_through_sequence c < end_sequence g) gs))"
        using ends_sorted [OF sorted ok] by (simp add: sorted_wrt_map sorted_wrt_filter)
      then have "filter (\<lambda>g. ?e < end_sequence g) (sel @ ?kept) = ?kept"
        unfolding split by (rule filter_beyond [OF _ sel(1)])
      moreover have "filter (\<lambda>g. ?e < end_sequence g) (filter (\<lambda>g. covered_through_sequence c < end_sequence g) gs)
          = filter (\<lambda>g. ?e < end_sequence g) gs"
        unfolding filter_filter using last(2) by (intro filter_cong refl) auto
      ultimately show ?thesis unfolding split by simp
    qed
    have "0 \<le> ?e" using end_sequence_nonneg ok last(1) by (auto simp: list_all_iff)
    then have "cutoff c2 = ?e" by (simp add: 2(4) cutoff_def covered_state_def)
    moreover have again: "all_groups c2 = (c2, Inr gs)"
      by (rule all_groups_again [OF all]) (simp_all add: 2(4) covered_state_def)
    ultimately have eff: "effective_groups c2 = (c2, Inr ?kept)" using beyond by (simp add: effective_groups_Inr)
    have recent: "recent_messages c2 = recent_messages c"
      using all by (simp add: 2(4) covered_state_def all_groups_Inr entries_Inr)
    show ?thesis
      using 2 sel p(2) split last(2) eff recent
      by (intro disjI2 exI [of _ sel] exI [of _ ?kept] exI [of _ n]) (simp add: covered_state_def)
  qed
qed

section \<open>The projection\<close>

definition group_pairs :: "MessageGroup \<Rightarrow> (message \<times> int) list" where
  "group_pairs g = zip (mg_messages g) (mg_sequences g)"

lemma group_pairs_concat:
  "list_all group_ok gs \<Longrightarrow> concat (map group_pairs gs) = zip (concat (map mg_messages gs)) (concat (map mg_sequences gs))"
  by (induction gs) (simp_all add: group_pairs_def group_ok_def)

lemma group_pairs_filter:
  "subseq (filter (\<lambda>p. k < snd p) (concat (map group_pairs gs)))
     (concat (map group_pairs (filter (\<lambda>g. k < end_sequence g) gs)))"
proof (induction gs)
  case (Cons g gs)
  show ?case
  proof (cases "k < end_sequence g")
    case True
    then show ?thesis using Cons by (simp add: list_emb_append_mono subseq_filter_left)
  next
    case False
    have "s \<le> k" if "(m, s) \<in> set (group_pairs g)" for m s
      using end_sequence_ge [of s g] False set_zip_rightD [of m s] that by (fastforce simp: group_pairs_def)
    then have "filter (\<lambda>p. k < snd p) (group_pairs g) = []" by (fastforce simp: filter_empty_conv)
    then show ?thesis using Cons False by simp
  qed
qed simp

lemma subseq_groups: "subseq (concat (map f (filter P gs))) (concat (map f gs))"
  by (induction gs) (auto intro: list_emb_append2 list_emb_append_mono)

lemma estimate_total: "estimate pl b ms schemas = Inr e \<Longrightarrow> ce_total_tokens e = ce_input_tokens e + cb_reserved_output_tokens b"
  by (auto simp: estimate_def bindR_Inr_iff)

lemma projection_lemma:
  assumes "project pl b schemas c = (c', Inr p)"
  shows "c' = c\<lparr>recent_message_sequences := map Some (numbers c)\<rparr> \<and>
    cp_messages p = preamble b c @ concat (map mg_messages (cp_groups p)) \<and>
    list_all group_ok (cp_groups p) \<and>
    subseq (concat (map mg_messages (cp_groups p))) (recent_messages c) \<and>
    subseq (filter (\<lambda>q. cutoff c < snd q) (zip (recent_messages c) (numbers c))) (concat (map group_pairs (cp_groups p))) \<and>
    ce_total_tokens (cp_estimate p) = ce_input_tokens (cp_estimate p) + cb_reserved_output_tokens b \<and>
    project pl b schemas c' = (c', Inr p)"
proof -
  obtain all where all: "all_groups c = (c', Inr all)"
    "effective_groups c = (c', Inr (filter (\<lambda>g. cutoff c < end_sequence g) all))"
    using assms by (auto simp: project_def effective_groups_Inr Let_def split: prod.splits sum.splits)
  let ?gs = "filter (\<lambda>g. cutoff c < end_sequence g) all"
  have p: "cp_groups p = ?gs" "cp_messages p = preamble b c @ concat (map mg_messages ?gs)"
    "estimate pl b (cp_messages p) schemas = Inr (cp_estimate p)"
    using assms unfolding project_def all(2) by (auto simp: Let_def bindR_Inr_iff)
  have c': "c' = c\<lparr>recent_message_sequences := map Some (numbers c)\<rparr>" and ok: "list_all group_ok all"
    and parts: "concat (map mg_messages all) = recent_messages c" "concat (map mg_sequences all) = numbers c"
    using all(1) by (auto simp: all_groups_Inr entries_Inr)
  have "all_groups c' = (c', Inr all)" by (rule all_groups_again [OF all(1)]) simp_all
  then have "effective_groups c' = (c', Inr ?gs)" by (simp add: effective_groups_Inr c' cutoff_def)
  moreover have "preamble b c' = preamble b c" by (simp add: preamble_def summary_text_def c' cong: option.case_cong)
  ultimately have "project pl b schemas c' = (c', Inr p)"
    using assms all(2) by (simp add: project_def Let_def)
  moreover have "ce_total_tokens (cp_estimate p) = ce_input_tokens (cp_estimate p) + cb_reserved_output_tokens b"
    using p(3) by (rule estimate_total)
  moreover have "list_all group_ok ?gs" using ok by (auto simp: list_all_iff)
  ultimately show ?thesis
    using c' p parts subseq_groups [of mg_messages "\<lambda>g. cutoff c < end_sequence g" all]
      group_pairs_filter [of "cutoff c" all] group_pairs_concat [OF ok] by simp
qed

section \<open>Texts that can be encoded\<close>

fun texts_ok :: "json \<Rightarrow> bool" where
  "texts_ok (JStr s) = encodable s"
| "texts_ok (JArr xs) = list_all texts_ok xs"
| "texts_ok (JObj d) = list_all (\<lambda>p. encodable (fst p) \<and> texts_ok (snd p)) d"
| "texts_ok (JFloat f) = False"
| "texts_ok _ = True"

lemma texts_ok_writable: "texts_ok v \<Longrightarrow> writable frepr v"
  by (induction v rule: json_induct) (auto simp: list_all_iff)

lemma encodable_render: "texts_ok v \<Longrightarrow> encodable (render frepr v)"
  by (intro encodable_render_writable texts_ok_writable)

lemma encodable_join: "valid_cp c \<Longrightarrow> list_all encodable xs \<Longrightarrow> encodable (join_with c xs)"
  by (intro encodable_join_with) (simp_all add: list_all_iff)

lemma texts_ok_sort: "texts_ok v \<Longrightarrow> texts_ok (sort_json v)"
  by (induction v rule: json_induct) (auto simp: list_all_iff)

section \<open>Properties\<close>

text \<open>C18: Grouping is the one way to cut the messages into whole interactions: it succeeds with a list
  of groups exactly when their messages and numbers, in order, are the given ones and every
  group is either a message that calls no tool or a call message followed by exactly one result
  for each of its calls.\<close>

theorem group_messages_spec:
  "group_messages ms ss = Inr gs \<longleftrightarrow>
     concat (map mg_messages gs) = ms \<and> concat (map mg_sequences gs) = ss \<and> list_all group_ok gs"
  by (rule group_messages_iff)


text \<open>C17: A compaction loses nothing silently: when it fails, the context is unchanged; when it
  succeeds, the groups that were not covered before are a nonempty prefix, whose request fits
  the model's window and which the new summary covers, followed by a nonempty rest, which is
  exactly what the next projection shows.\<close>

theorem compaction_partition:
  assumes "plan_compaction b forced c = (c1, Inr (Some p))" and "all_groups c = (c1, Inr gs)"
    and "sorted_wrt (<) (concat (map mg_sequences gs))" and "1 \<le> cb_keep_recent_groups b"
    and "compact pl cm ask p (c1, w) = ((c2, w2), Inr out)"
  shows "(\<not> co_succeeded out \<and> c2 = c1) \<or>
    (\<exists>sel kept n. co_succeeded out \<and> sel \<noteq> [] \<and> kept \<noteq> [] \<and>
       filter (\<lambda>g. covered_through_sequence c < end_sequence g) gs = sel @ kept \<and>
       request_tokens pl cm (latest_summary c) sel = Inr n \<and> n \<le> cm_context_window cm \<and>
       covered_through_sequence c2 = end_sequence (last sel) \<and> covered_through_sequence c < end_sequence (last sel) \<and>
       latest_summary c2 = co_summary out \<and> recent_messages c2 = recent_messages c \<and>
       effective_groups c2 = (c2, Inr kept))"
  by (rule compaction_lemma [OF assms])

definition user_text :: "string \<Rightarrow> message" where
  "user_text s = [(lit ''role'', JStr (lit ''user'')), (lit ''content'', JStr (lit s))]"

definition sample_ctx :: ContextState where
  "sample_ctx =
     \<lparr>latest_summary = None, covered_through_sequence = 0, recent_messages = [user_text ''a'', user_text ''b''],
      recent_message_sequences = [Some 1], degraded_through_sequence = 0, degraded_notice = None\<rparr>"

definition sample_builder :: ContextBuilder where
  "sample_builder = \<lparr>cb_system_prompt = lit ''p'', cb_context_window = 100, cb_reserved_output_tokens = 10,
     cb_compaction_threshold = 1, cb_keep_recent_groups = 1, cb_estimator = default_estimator\<rparr>"

definition flat_platform :: platform where
  "flat_platform = sample_platform\<lparr>pl_round := (\<lambda>_. 1)\<rparr>"

definition sample_compactor :: Compactor where
  "sample_compactor = \<lparr>cm_system_prompt = lit ''p'', cm_context_window = 100, cm_reserved_output_tokens = 10,
     cm_estimator = default_estimator, cm_model_parameters = []\<rparr>"

definition sample_groups :: "MessageGroup list" where
  "sample_groups = [\<lparr>mg_messages = [user_text ''a''], mg_sequences = [1]\<rparr>, \<lparr>mg_messages = [user_text ''b''], mg_sequences = [2]\<rparr>]"

lemma sample_all_groups:
  "all_groups sample_ctx = (sample_ctx\<lparr>recent_message_sequences := [Some 1, Some 2]\<rparr>, Inr sample_groups)"
proof -
  have m: "detach_message (user_text x) = Inr (user_text x)" "\<not> has_role ''tool'' (user_text x)"
    "\<not> has_role ''assistant'' (user_text x)" for x
    by (simp_all add: user_text_def detach_message_def has_role_def)
  show ?thesis
    by (simp add: all_groups_Inr entries_Inr numbers_def sample_ctx_def sample_groups_def pad_sequences_def
        cutoff_def group_ok_def whole_def expected_ids_def m)
qed

lemma flat_estimate: "texts_ok (JObj m) \<Longrightarrow> finite_json (JObj m) \<Longrightarrow> estimate_json flat_platform default_estimator (JObj m) = Inr 5"
proof -
  assume "texts_ok (JObj m)" "finite_json (JObj m)"
  moreover from this have "encodable (render (pl_frepr flat_platform) (sort_json (JObj m)))"
    by (intro encodable_render texts_ok_sort)
  moreover have "canonical_json (pl_frepr flat_platform) (JObj m) = Inr (render (pl_frepr flat_platform) (sort_json (JObj m)))"
    using \<open>finite_json (JObj m)\<close> by (simp add: canonical_json_Inr)
  ultimately show ?thesis
    by (simp add: estimate_json_def estimate_text_def utf8_encode_def flat_platform_def default_estimator_def)
qed


definition sample_answer :: NormalizedAssistantResponse where
  "sample_answer = \<lparr>nr_text = lit ''x'', nr_tool_calls = [], nr_usage = None, nr_finish_reason = None, nr_diagnostics = []\<rparr>"

theorem compaction_partition_witness:
  "\<exists>c1 p c2 w2 out. plan_compaction sample_builder False sample_ctx = (c1, Inr (Some p)) \<and>
     compact flat_platform sample_compactor (\<lambda>_ _ _ n. (n + 1, Inr sample_answer)) p (c1, 0 :: nat) = ((c2, w2), Inr out) \<and>
     co_succeeded out \<and> covered_through_sequence c2 = 1 \<and> (\<exists>kept. effective_groups c2 = (c2, Inr kept) \<and> kept \<noteq> [])"
proof -
  let ?c1 = "sample_ctx\<lparr>recent_message_sequences := [Some 1, Some 2]\<rparr>" and ?g = "\<lparr>mg_messages = [user_text ''a''], mg_sequences = [1]\<rparr>"
  let ?p = "\<lparr>pn_old_summary = None, pn_groups = [?g], pn_forced = False, pn_previous_covered_sequence = 0\<rparr>"
  have plan: "plan_compaction sample_builder False sample_ctx = (?c1, Inr (Some ?p))"
    by (simp add: plan_compaction_def sample_all_groups sample_groups_def mk_CompactionPlan_def end_sequence_def
        sample_builder_def Let_def) (simp add: sample_ctx_def)
  obtain ms where ms: "messages_for flat_platform sample_compactor None [?g] = Inr ms"
    "\<forall>m \<in> set ms. texts_ok (JObj m) \<and> finite_json (JObj m)" "length ms = 3"
  proof -
    let ?v = "JObj [(lit ''previous_summary'', json_opt_str None), (lit ''history_groups'', JArr (map group_source [?g]))]"
    let ?s = "render (pl_frepr flat_platform) (sort_json ?v)"
    have v: "finite_json ?v" "texts_ok ?v" by (simp_all add: group_source_def user_text_def json_opt_str_def)
    then have "source_payload flat_platform None [?g] = Inr ?s" by (simp add: source_payload_def canonical_json_Inr)
    moreover have "encodable ?s" using v(2) by (intro encodable_render texts_ok_sort)
    moreover have "encodable compaction_instruction"
      unfolding compaction_instruction_def newline_join_def
      by (intro encodable_join) (simp_all add: valid_cp_def is_surrogate_def)
    ultimately show thesis
      by (intro that) (auto simp: messages_for_def sample_compactor_def system_message_def)
  qed
  obtain m1 m2 m3 where three: "ms = [m1, m2, m3]" using ms(3) by (auto simp: length_Suc_conv numeral_3_eq_3)
  have "request_tokens flat_platform sample_compactor None [?g] = Inr 29"
    using ms flat_estimate three by (simp add: request_tokens_def estimate_request_def sample_compactor_def)
      (simp add: default_estimator_def)
  then have "bounded_groups flat_platform sample_compactor ?p = Inr [?g]"
    by (simp add: bounded_groups_def sample_compactor_def)
  then have run: "\<exists>c2 out. compact flat_platform sample_compactor (\<lambda>_ _ _ n. (n + 1, Inr sample_answer)) ?p (?c1, 0 :: nat)
      = ((c2, 1), Inr out) \<and> co_succeeded out \<and> covered_through_sequence c2 = 1"
    using ms(1) by (simp add: compact_def request_summary_def bindE_def lift_res_def raise_def ret_def sample_answer_def
        strip_def is_space_def lit_def Let_def covered_state_def end_sequence_def)
  then obtain c2 out where out: "compact flat_platform sample_compactor (\<lambda>_ _ _ n. (n + 1, Inr sample_answer)) ?p (?c1, 0 :: nat)
      = ((c2, 1), Inr out)" "co_succeeded out" "covered_through_sequence c2 = 1" by blast
  have "sorted_wrt (<) (concat (map mg_sequences sample_groups))" "1 \<le> cb_keep_recent_groups sample_builder"
    by (simp_all add: sample_groups_def sample_builder_def)
  from compaction_partition [OF plan sample_all_groups this out(1)] show ?thesis using plan out by blast
qed

end
