(* ===== verification/ModelClient.thy ===== *)
theory ModelClient
  imports Responses
begin

text \<open>
  The boundary to the model service (\<open>model_client.py\<close>): the stable error classes, the
  normalization of a provider's response, the classification of a provider's exception, and
  the bounded retry.  The SDK is a parameter: one attempt answers a value (\<open>sdk\<close>), raises a
  \<open>ModelClientError\<close>, or raises an exception of which the code reads the class, the name and
  the attributes.
\<close>

section \<open>Errors\<close>

datatype ModelErrorCategory = Retryable | Fatal | Overflow

fun category_str :: "ModelErrorCategory \<Rightarrow> str" where
  "category_str Retryable = lit ''retryable''"
| "category_str Fatal = lit ''fatal''"
| "category_str Overflow = lit ''context_overflow''"

datatype ModelErrorCode =
    CodeNetwork | CodeTimeout | CodeRateLimit | CodeServer | CodeAuthentication | CodePermission
  | CodeModelNotFound | CodeInvalidRequest | CodeContextOverflow | CodeConfiguration | CodeResponse
  | CodeRetrySleep | CodeUnknown

fun model_code_str :: "ModelErrorCode \<Rightarrow> str" where
  "model_code_str CodeNetwork = lit ''network_error''"
| "model_code_str CodeTimeout = lit ''timeout''"
| "model_code_str CodeRateLimit = lit ''rate_limit''"
| "model_code_str CodeServer = lit ''server_error''"
| "model_code_str CodeAuthentication = lit ''authentication_error''"
| "model_code_str CodePermission = lit ''permission_error''"
| "model_code_str CodeModelNotFound = lit ''model_not_found''"
| "model_code_str CodeInvalidRequest = lit ''invalid_request''"
| "model_code_str CodeContextOverflow = lit ''context_overflow''"
| "model_code_str CodeConfiguration = lit ''configuration_error''"
| "model_code_str CodeResponse = lit ''response_error''"
| "model_code_str CodeRetrySleep = lit ''retry_sleep_error''"
| "model_code_str CodeUnknown = lit ''unknown_error''"

fun default_error_message :: "ModelErrorCode \<Rightarrow> str" where
  "default_error_message CodeNetwork = lit ''model network request failed''"
| "default_error_message CodeTimeout = lit ''model request timed out''"
| "default_error_message CodeRateLimit = lit ''model request was rate limited''"
| "default_error_message CodeServer = lit ''model service returned a retryable server error''"
| "default_error_message CodeAuthentication = lit ''model authentication failed''"
| "default_error_message CodePermission = lit ''model request was not permitted''"
| "default_error_message CodeModelNotFound = lit ''requested model was not found''"
| "default_error_message CodeInvalidRequest = lit ''model request was invalid''"
| "default_error_message CodeContextOverflow = lit ''model context window was exceeded''"
| "default_error_message CodeConfiguration = lit ''model client configuration is invalid''"
| "default_error_message CodeResponse = lit ''model response was unavailable or invalid''"
| "default_error_message CodeRetrySleep = lit ''model retry delay could not be applied''"
| "default_error_message CodeUnknown = lit ''model request failed''"

record model_error =
  me_category :: ModelErrorCategory
  me_code :: ModelErrorCode
  me_message :: str
  me_status_code :: "int option"
  me_attempts :: int

text \<open>The constructor without a message, as the module itself calls it.\<close>

definition mk_ModelClientError :: "ModelErrorCategory \<Rightarrow> ModelErrorCode \<Rightarrow> int option \<Rightarrow> int \<Rightarrow> model_error" where
  "mk_ModelClientError category code status attempts =
     \<lparr>me_category = category, me_code = code, me_message = default_error_message code,
      me_status_code = status, me_attempts = (if attempts < 1 then 1 else attempts)\<rparr>"

definition model_error_dict :: "model_error \<Rightarrow> jobj" where
  "model_error_dict e =
     [(lit ''category'', JStr (category_str (me_category e))), (lit ''code'', JStr (model_code_str (me_code e))),
      (lit ''message'', JStr (me_message e)), (lit ''status_code'', json_opt_int (me_status_code e)),
      (lit ''attempts'', JInt (me_attempts e))]"

definition error_exn :: "model_error \<Rightarrow> exn" where
  "error_exn e =
     ModelClientError (category_str (me_category e)) (model_code_str (me_code e)) (me_message e)
       (me_status_code e) (me_attempts e)"

definition configuration_error :: exn where
  "configuration_error = error_exn (mk_ModelClientError Fatal CodeConfiguration None 1)"

section \<open>Retry policy\<close>

text \<open>Delays are exact: a float times a power of two, below the 1024th retry.\<close>

record RetryPolicy =
  rp_max_retries :: int
  rp_initial_delay :: rat
  rp_max_delay :: rat

definition mk_RetryPolicy :: "int \<Rightarrow> rat \<Rightarrow> rat \<Rightarrow> RetryPolicy res" where
  "mk_RetryPolicy max_retries initial_delay max_delay =
     bindR (guardR (0 \<le> max_retries) (ValueError (lit ''max_retries must be non-negative''))) (\<lambda>_.
     bindR (guardR (0 \<le> initial_delay)
              (ValueError (lit ''initial_delay_seconds must be a finite non-negative number''))) (\<lambda>_.
     bindR (guardR (0 \<le> max_delay)
              (ValueError (lit ''max_delay_seconds must be a finite non-negative number''))) (\<lambda>_.
     bindR (guardR (initial_delay \<le> max_delay)
              (ValueError (lit ''max_delay_seconds must be >= initial_delay_seconds''))) (\<lambda>_.
     Inr \<lparr>rp_max_retries = max_retries, rp_initial_delay = initial_delay, rp_max_delay = max_delay\<rparr>))))"

definition max_attempts :: "RetryPolicy \<Rightarrow> int" where
  "max_attempts p = rp_max_retries p + 1"

definition delay_for_retry :: "RetryPolicy \<Rightarrow> nat \<Rightarrow> rat" where
  "delay_for_retry p k = min (rp_max_delay p) (rp_initial_delay p * 2 ^ k)"

section \<open>Provider values\<close>

text \<open>A value of the SDK: a mapping or an object with attributes (a value without any attribute
  the code reads is \<open>SObj []\<close>), a list or tuple, or a scalar.\<close>

datatype sdk =
    SNone | SBool bool | SInt int | SStr str
  | SSeq "sdk list"
  | SMap "(str \<times> sdk) list"
  | SObj "(str \<times> sdk) list"

text \<open>\<open>_field\<close>; None is \<open>_MISSING\<close>.\<close>

fun sdk_field :: "sdk \<Rightarrow> string \<Rightarrow> sdk option" where
  "sdk_field (SMap d) k = dget d (lit k)"
| "sdk_field (SObj d) k = dget d (lit k)"
| "sdk_field _ k = None"

definition field_of :: "sdk option \<Rightarrow> string \<Rightarrow> sdk option" where
  "field_of v k = (case v of None \<Rightarrow> None | Some x \<Rightarrow> sdk_field x k)"

definition add_diagnostic :: "str list \<Rightarrow> string \<Rightarrow> str list" where
  "add_diagnostic ds d = (if lit d \<in> set ds then ds else ds @ [lit d])"

definition add_optional :: "str list \<Rightarrow> string option \<Rightarrow> str list" where
  "add_optional ds d = (case d of None \<Rightarrow> ds | Some x \<Rightarrow> add_diagnostic ds x)"

definition absent :: "sdk option \<Rightarrow> bool" where
  "absent v \<longleftrightarrow> v = None \<or> v = Some SNone"

definition safe_provider_id :: "platform \<Rightarrow> sdk option \<Rightarrow> str option \<times> string option" where
  "safe_provider_id pl v =
     (if absent v then (None, Some ''missing_tool_call_id'')
      else
        (case v of
           Some (SStr s) \<Rightarrow>
             if s = [] \<or> has_nul s then (None, Some ''invalid_tool_call_id'')
             else
               (case new_identifier ProviderToolCallId (PlainStr (redact_model_text pl s)) of
                  Inr i \<Rightarrow> (Some i, None) | Inl _ \<Rightarrow> (None, Some ''invalid_tool_call_id''))
         | _ \<Rightarrow> (None, Some ''invalid_tool_call_id'')))"

definition safe_tool_name :: "platform \<Rightarrow> sdk option \<Rightarrow> str option \<times> string option" where
  "safe_tool_name pl v =
     (if absent v then (None, Some ''missing_tool_name'')
      else
        (case v of
           Some (SStr s) \<Rightarrow> if s = [] then (None, Some ''invalid_tool_name'') else (Some (redact_model_text pl s), None)
         | _ \<Rightarrow> (None, Some ''invalid_tool_name'')))"

definition arguments_status :: "platform \<Rightarrow> sdk option \<Rightarrow> str \<times> bool \<times> string option" where
  "arguments_status pl v =
     (if absent v then ([], False, Some ''missing_arguments'')
      else
        (case v of
           Some (SStr s) \<Rightarrow>
             (let safe = redact_model_text pl s in
              case json_loads False (pl_fparse pl) safe of
                None \<Rightarrow> (safe, False, Some ''invalid_arguments'')
              | Some (JObj _) \<Rightarrow> (safe, True, None)
              | Some _ \<Rightarrow> (safe, False, Some ''arguments_not_object''))
         | _ \<Rightarrow> ([], False, Some ''invalid_arguments'')))"

text \<open>The diagnostic of a call's id, and the ids seen so far.\<close>

definition id_diagnostic :: "str option \<times> string option \<Rightarrow> str set \<Rightarrow> string option" where
  "id_diagnostic p seen =
     (case p of
        (_, Some d) \<Rightarrow> Some d
      | (Some i, None) \<Rightarrow> if i \<in> seen then Some ''duplicate_tool_call_id'' else None
      | (None, None) \<Rightarrow> None)"

definition normalize_tool_call ::
  "platform \<Rightarrow> sdk \<Rightarrow> str set \<Rightarrow> str list \<Rightarrow> NormalizedToolCall res \<times> str set \<times> str list" where
  "normalize_tool_call pl v seen diagnostics =
     (let pid = safe_provider_id pl (sdk_field v ''id'');
          id_diag = id_diagnostic pid seen;
          seen' = (case pid of (Some i, None) \<Rightarrow> insert i seen | _ \<Rightarrow> seen);
          function = sdk_field v ''function'';
          function_diag = (if absent function then Some ''missing_function'' else None);
          function' = (if absent function then Some (SMap []) else function);
          name = safe_tool_name pl (field_of function' ''name'');
          args = arguments_status pl (field_of function' ''arguments'');
          all = [id_diag, function_diag, snd name, snd (snd args)] in
      (mk_NormalizedToolCall pl (fst pid) (fst name) (fst args) (fst (snd args)) (foldl add_optional [] all),
       seen', foldl add_optional diagnostics all))"

fun normalize_calls ::
  "platform \<Rightarrow> sdk list \<Rightarrow> str set \<Rightarrow> str list \<Rightarrow> (NormalizedToolCall list \<times> str list) res" where
  "normalize_calls pl [] seen diagnostics = Inr ([], diagnostics)"
| "normalize_calls pl (v # vs) seen diagnostics =
     (case normalize_tool_call pl v seen diagnostics of
        (r, seen', diagnostics') \<Rightarrow>
          bindR r (\<lambda>c. bindR (normalize_calls pl vs seen' diagnostics') (\<lambda>(cs, ds). Inr (c # cs, ds))))"

text \<open>\<open>_safe_content\<close>: the text and the diagnostics.\<close>

definition part_text :: "platform \<Rightarrow> sdk \<Rightarrow> str list" where
  "part_text pl p = (case sdk_field p ''text'' of Some (SStr s) \<Rightarrow> [redact_model_text pl s] | _ \<Rightarrow> [])"

definition safe_content :: "platform \<Rightarrow> sdk option \<Rightarrow> str list \<Rightarrow> str \<times> str list" where
  "safe_content pl v diagnostics =
     (if absent v then ([], diagnostics)
      else
        (case the v of
           SStr s \<Rightarrow> (redact_model_text pl s, diagnostics)
         | SSeq parts \<Rightarrow>
             (let rendered = concat (map (part_text pl) parts) in
              if rendered \<noteq> [] then (concat rendered, diagnostics) else ([], add_diagnostic diagnostics ''invalid_content''))
         | x \<Rightarrow>
             (case part_text pl x of
                [t] \<Rightarrow> (t, diagnostics) | _ \<Rightarrow> ([], add_diagnostic diagnostics ''invalid_content''))))"

fun safe_counter :: "sdk option \<Rightarrow> int option" where
  "safe_counter (Some (SInt n)) = (if n < 0 then None else Some n)"
| "safe_counter _ = None"

definition first_field :: "sdk \<Rightarrow> string \<Rightarrow> string \<Rightarrow> sdk option" where
  "first_field v a b = (case sdk_field v a of None \<Rightarrow> sdk_field v b | x \<Rightarrow> x)"

definition normalize_usage :: "sdk option \<Rightarrow> str list \<Rightarrow> NormalizedUsage option res \<times> str list" where
  "normalize_usage v diagnostics =
     (if absent v then (Inr None, diagnostics)
      else
        (let raw = [first_field (the v) ''input_tokens'' ''prompt_tokens'',
                    first_field (the v) ''output_tokens'' ''completion_tokens'', sdk_field (the v) ''total_tokens''];
             counters = map safe_counter raw;
             ds = (if list_ex (\<lambda>x. x \<noteq> None \<and> safe_counter x = None) raw
                   then add_diagnostic diagnostics ''invalid_usage'' else diagnostics) in
         if list_all (\<lambda>c. c = None) counters then (Inr None, ds)
         else (bindR (mk_NormalizedUsage (counters ! 0) (counters ! 1) (counters ! 2)) (\<lambda>u. Inr (Some u)), ds)))"

text \<open>\<open>_normalize_response\<close>, by its parts: the calls, the finish reason, the first choice.\<close>

definition normalize_raw_calls ::
  "platform \<Rightarrow> sdk option \<Rightarrow> str list \<Rightarrow> (NormalizedToolCall list \<times> str list) res" where
  "normalize_raw_calls pl raw diagnostics =
     (if absent raw then Inr ([], diagnostics)
      else
        (case the raw of
           SSeq calls \<Rightarrow> normalize_calls pl calls {} diagnostics
         | _ \<Rightarrow> Inr ([], add_diagnostic diagnostics ''invalid_tool_calls'')))"

definition normalize_finish :: "platform \<Rightarrow> sdk option \<Rightarrow> str list \<Rightarrow> str option \<times> str list" where
  "normalize_finish pl finish diagnostics =
     (if absent finish then (None, diagnostics)
      else
        (case the finish of
           SStr s \<Rightarrow> (Some (redact_model_text pl s), diagnostics)
         | _ \<Rightarrow> (None, add_diagnostic diagnostics ''invalid_finish_reason'')))"

definition normalize_choice ::
  "platform \<Rightarrow> sdk \<Rightarrow> NormalizedUsage option \<Rightarrow> str list \<Rightarrow> NormalizedAssistantResponse res" where
  "normalize_choice pl choice usage diagnostics =
     (let message = sdk_field choice ''message'';
          ds1 = (if absent message then add_diagnostic diagnostics ''message_missing'' else diagnostics);
          message' = (if absent message then Some (SMap []) else message);
          content = safe_content pl (field_of message' ''content'') ds1 in
      bindR (normalize_raw_calls pl (field_of message' ''tool_calls'') (snd content)) (\<lambda>(calls, ds2).
      let finish = normalize_finish pl (sdk_field choice ''finish_reason'') ds2 in
      mk_NormalizedAssistantResponse pl (fst content) calls usage (fst finish) (snd finish)))"

definition normalize_response :: "platform \<Rightarrow> sdk \<Rightarrow> NormalizedAssistantResponse res" where
  "normalize_response pl response =
     (case normalize_usage (sdk_field response ''usage'') [] of
        (usage, ds) \<Rightarrow>
          bindR usage (\<lambda>usage.
          case sdk_field response ''choices'' of
            Some (SSeq (choice # _)) \<Rightarrow> normalize_choice pl choice usage ds
          | _ \<Rightarrow> mk_NormalizedAssistantResponse pl [] [] usage None (add_diagnostic ds ''response_missing'')))"

section \<open>Classification\<close>

record provider_exception =
  px_name :: str
  px_attributes :: "(str \<times> sdk) list"
  px_authentication :: bool
  px_permission :: bool
  px_not_found :: bool
  px_rate_limit :: bool
  px_connection :: bool
  px_timeout :: bool
  px_os_error :: bool
  px_type_or_value :: bool

definition px_field :: "provider_exception \<Rightarrow> string \<Rightarrow> sdk option" where
  "px_field x k = dget (px_attributes x) (lit k)"

definition status_of :: "provider_exception \<Rightarrow> int option" where
  "status_of x =
     (case px_field x ''status_code'' of
        Some (SInt n) \<Rightarrow> Some n
      | _ \<Rightarrow> (case field_of (px_field x ''response'') ''status_code'' of Some (SInt n) \<Rightarrow> Some n | _ \<Rightarrow> None))"

definition context_markers :: "str list" where
  "context_markers =
     map lit [''context_length_exceeded'', ''context window'', ''maximum context'', ''too many tokens'',
       ''prompt is too long'', ''input is too long'', ''token limit'', ''input_too_large'']"

text \<open>\<open>_contains_context_signal\<close> with the remaining depth, 5 at the top.\<close>

fun context_signal :: "platform \<Rightarrow> nat \<Rightarrow> sdk \<Rightarrow> bool" where
  "context_signal pl 0 v = False"
| "context_signal pl (Suc n) (SStr s) = list_ex (\<lambda>m. contains m (pl_casefold pl s)) context_markers"
| "context_signal pl (Suc n) (SMap d) =
     list_ex (\<lambda>p. context_signal pl n (SStr (fst p)) \<or> context_signal pl n (snd p)) d"
| "context_signal pl (Suc n) (SSeq xs) = list_ex (context_signal pl n) xs"
| "context_signal pl (Suc n) v = False"

definition has_context_signal :: "platform \<Rightarrow> provider_exception \<Rightarrow> bool" where
  "has_context_signal pl x \<longleftrightarrow>
     (case px_field x ''code'' of Some (SStr s) \<Rightarrow> context_signal pl 5 (SStr s) | _ \<Rightarrow> False) \<or>
     (case px_field x ''body'' of Some v \<Rightarrow> context_signal pl 5 v | None \<Rightarrow> False)"

definition retryable_status_codes :: "int list" where
  "retryable_status_codes = [408, 429, 500, 502, 503, 504]"

text \<open>Python's \<open>status or n\<close>.\<close>

definition or_status :: "int option \<Rightarrow> int \<Rightarrow> int option" where
  "or_status s n = (case s of None \<Rightarrow> Some n | Some k \<Rightarrow> Some (if k = 0 then n else k))"

definition classified :: "ModelErrorCategory \<Rightarrow> ModelErrorCode \<Rightarrow> int option \<Rightarrow> model_error" where
  "classified category code status = mk_ModelClientError category code status 1"

text \<open>The rules on the status alone.\<close>

definition classify_status :: "int \<Rightarrow> model_error option" where
  "classify_status n =
     (if n \<in> set retryable_status_codes
      then Some (classified Retryable (if n = 429 then CodeRateLimit else CodeServer) (Some n))
      else if 500 \<le> n then Some (classified Fatal CodeServer (Some n))
      else if n = 401 then Some (classified Fatal CodeAuthentication (Some n))
      else if n = 403 then Some (classified Fatal CodePermission (Some n))
      else if n = 404 then Some (classified Fatal CodeModelNotFound (Some n))
      else if n = 413 then Some (classified Overflow CodeContextOverflow (Some n))
      else None)"

text \<open>The rules on the class and its name that come last.\<close>

definition classify_name :: "platform \<Rightarrow> provider_exception \<Rightarrow> int option \<Rightarrow> model_error" where
  "classify_name pl x status =
     (let name = pl_casefold pl (px_name x); named = (\<lambda>w. contains (lit w) name) in
      if named ''authentication'' \<or> name \<in> {lit ''unauthorizederror'', lit ''autherror''}
      then classified Fatal CodeAuthentication (or_status status 401)
      else if named ''permission'' \<or> name \<in> {lit ''forbiddenerror'', lit ''permissionerror''}
      then classified Fatal CodePermission (or_status status 403)
      else if named ''notfound'' \<or> named ''modelnotfound''
      then classified Fatal CodeModelNotFound (or_status status 404)
      else if px_timeout x \<or> named ''timeout'' then classified Retryable CodeTimeout status
      else if px_os_error x \<or> named ''connection'' \<or> named ''connecterror'' \<or> named ''transporterror'' \<or> named ''network''
      then classified Retryable CodeNetwork status
      else if named ''badrequest'' \<or> named ''invalidrequest'' \<or> status \<in> {Some 400, Some 413}
      then classified Fatal CodeInvalidRequest (or_status status 400)
      else if px_type_or_value x then classified Fatal CodeConfiguration status
      else classified Fatal CodeUnknown status)"

text \<open>\<open>_classify_exception\<close>.\<close>

definition classify_exception :: "platform \<Rightarrow> provider_exception \<Rightarrow> model_error" where
  "classify_exception pl x =
     (let status = status_of x; name = pl_casefold pl (px_name x) in
      if has_context_signal pl x then classified Overflow CodeContextOverflow status
      else if px_authentication x then classified Fatal CodeAuthentication (or_status status 401)
      else if px_permission x then classified Fatal CodePermission (or_status status 403)
      else if px_not_found x then classified Fatal CodeModelNotFound (or_status status 404)
      else if px_rate_limit x then classified Retryable CodeRateLimit (or_status status 429)
      else if px_connection x
      then classified Retryable (if contains (lit ''timeout'') name then CodeTimeout else CodeNetwork) status
      else if status = Some 429 \<or> contains (lit ''ratelimit'') name \<or> contains (lit ''rate_limit'') name
      then classified Retryable CodeRateLimit (case status of None \<Rightarrow> Some 429 | s \<Rightarrow> s)
      else
        (case (case status of None \<Rightarrow> None | Some n \<Rightarrow> classify_status n) of
           Some e \<Rightarrow> e
         | None \<Rightarrow> classify_name pl x status))"

section \<open>The client\<close>

record model_client =
  mc_model :: "str option"
  mc_policy :: RetryPolicy

text \<open>The checks of \<open>__init__\<close> on the values it does not hand to the SDK; every failure is the
  same configuration error.\<close>

definition mk_model_client ::
  "str option \<Rightarrow> bool \<Rightarrow> int \<Rightarrow> int option \<Rightarrow> RetryPolicy option \<Rightarrow> rat \<Rightarrow> rat \<Rightarrow> rat option \<Rightarrow> str option
     \<Rightarrow> rat option \<Rightarrow> model_client res" where
  "mk_model_client model client_and_transport max_retries max_att policy initial_delay max_delay backoff base_url timeout =
     (if (case model of Some m \<Rightarrow> strip m = [] | None \<Rightarrow> False) \<or> client_and_transport \<or>
         (case max_att of Some n \<Rightarrow> n < 1 | None \<Rightarrow> False)
      then Inl configuration_error
      else
        (let retries = (case max_att of Some n \<Rightarrow> n - 1 | None \<Rightarrow> max_retries);
             initial = (case backoff of Some b \<Rightarrow> b | None \<Rightarrow> initial_delay) in
         case (case policy of Some p \<Rightarrow> Inr p | None \<Rightarrow> mk_RetryPolicy retries initial max_delay) of
           Inl _ \<Rightarrow> Inl configuration_error
         | Inr p \<Rightarrow>
             if (case base_url of Some u \<Rightarrow> strip u = [] | None \<Rightarrow> False) \<or>
                (case timeout of Some t \<Rightarrow> t \<le> 0 | None \<Rightarrow> False)
             then Inl configuration_error
             else Inr \<lparr>mc_model = model, mc_policy = p\<rparr>))"

definition build_request :: "model_client \<Rightarrow> message list \<Rightarrow> jobj list \<Rightarrow> jobj \<Rightarrow> jobj res" where
  "build_request mc messages tools parameters =
     (let r = dset (dset parameters (lit ''messages'') (JArr (map JObj messages))) (lit ''tools'') (JArr (map JObj tools)) in
      bindR (if has_key r (lit ''model'') then Inr r
             else case mc_model mc of None \<Rightarrow> Inl configuration_error | Some m \<Rightarrow> Inr (dset r (lit ''model'') (JStr m))) (\<lambda>r'.
      case dget r' (lit ''model'') of
        Some (JStr m) \<Rightarrow> if strip m = [] then Inl configuration_error else Inr r'
      | _ \<Rightarrow> Inl configuration_error))"

text \<open>One attempt of the transport: an answer, a \<open>ModelClientError\<close>, another exception, or an
  interrupt.\<close>

datatype attempt = Answered sdk | RaisedModelError model_error | RaisedProvider provider_exception | Interrupted

record 'w model_ports =
  mp_send :: "jobj \<Rightarrow> 'w \<Rightarrow> 'w \<times> attempt"
  mp_observe_retry :: "model_error \<Rightarrow> int \<Rightarrow> rat \<Rightarrow> ('w, unit) effect"
  mp_clock_and_sleep :: "rat \<Rightarrow> ('w, unit) effect"

text \<open>The error of a failed attempt that may be retried or is raised with the attempts; the right
  component is raised as it is.\<close>

definition failed_attempt :: "platform \<Rightarrow> attempt \<Rightarrow> int \<Rightarrow> model_error + exn" where
  "failed_attempt pl a attempts =
     (case a of
        RaisedModelError e \<Rightarrow>
          if me_category e = Retryable
          then Inl (mk_ModelClientError (me_category e) (me_code e) (me_status_code e) attempts)
          else Inr (error_exn e)
      | RaisedProvider x \<Rightarrow>
          (let c = classify_exception pl x in
           Inl (mk_ModelClientError (me_category c) (me_code c) (me_status_code c) attempts))
      | _ \<Rightarrow> Inr KeyboardInterrupt)"

definition safe_response :: "platform \<Rightarrow> sdk \<Rightarrow> NormalizedAssistantResponse res" where
  "safe_response pl v =
     (case normalize_response pl v of
        Inr r \<Rightarrow> Inr r
      | Inl _ \<Rightarrow> mk_NormalizedAssistantResponse pl [] [] None None [lit ''response_error''])"

text \<open>The loop, with the index of the attempt and the number of attempts left.\<close>

fun attempt_loop ::
  "platform \<Rightarrow> RetryPolicy \<Rightarrow> 'w model_ports \<Rightarrow> jobj \<Rightarrow> nat \<Rightarrow> nat \<Rightarrow> ('w, NormalizedAssistantResponse) effect" where
  "attempt_loop pl p mp request k 0 w =
     (w, Inl (error_exn (mk_ModelClientError Fatal CodeUnknown None (int k))))"
| "attempt_loop pl p mp request k (Suc n) w =
     (case mp_send mp request w of
        (w1, Answered v) \<Rightarrow> (w1, safe_response pl v)
      | (w1, a) \<Rightarrow>
          (case failed_attempt pl a (int k + 1) of
             Inr x \<Rightarrow> (w1, Inl x)
           | Inl e \<Rightarrow>
               if me_category e \<noteq> Retryable \<or> rp_max_retries p \<le> int k then (w1, Inl (error_exn e))
               else
                 (case mp_observe_retry mp e (int k + 1) (delay_for_retry p k) w1 of
                    (w2, Inl x) \<Rightarrow> (w2, Inl x)
                  | (w2, Inr _) \<Rightarrow>
                      (case mp_clock_and_sleep mp (delay_for_retry p k) w2 of
                         (w3, Inl x) \<Rightarrow>
                           (w3, Inl (if is_exception x
                                     then error_exn (mk_ModelClientError Fatal CodeRetrySleep None (int k + 1)) else x))
                       | (w3, Inr _) \<Rightarrow> attempt_loop pl p mp request (Suc k) n w3))))"

text \<open>\<open>OpenAICompatibleModelClient.complete\<close>.\<close>

definition complete_request ::
  "platform \<Rightarrow> model_client \<Rightarrow> 'w model_ports \<Rightarrow> message list \<Rightarrow> jobj list \<Rightarrow> jobj \<Rightarrow> ('w, NormalizedAssistantResponse) effect" where
  "complete_request pl mc mp messages tools parameters w =
     (case build_request mc messages tools parameters of
        Inl e \<Rightarrow> (w, Inl e)
      | Inr request \<Rightarrow> attempt_loop pl (mc_policy mc) mp request 0 (nat (max_attempts (mc_policy mc))) w)"

end
