(* ===== verification/ModelClientProps.thy ===== *)
theory ModelClientProps
  imports ModelClient
begin

text \<open>
  What the model client promises: the retry is bounded and stops at the first attempt that is
  not to be retried, every provider value has a normal form, and the classification of a
  failure.
\<close>

section \<open>Retry\<close>

text \<open>A transport that follows a script; its state is the number of attempts made and the delays
  slept.\<close>

definition scripted :: "(nat \<Rightarrow> attempt) \<Rightarrow> (nat \<times> rat list) model_ports" where
  "scripted script =
     \<lparr>mp_send = (\<lambda>_ (n, ds). ((Suc n, ds), script n)),
      mp_observe_retry = (\<lambda>_ _ _ s. (s, Inr ())),
      mp_clock_and_sleep = (\<lambda>d (n, ds). ((n, ds @ [d]), Inr ()))\<rparr>"

definition to_retry :: "platform \<Rightarrow> attempt \<Rightarrow> bool" where
  "to_retry pl a \<longleftrightarrow>
     (case a of Answered _ \<Rightarrow> False | Interrupted \<Rightarrow> False
      | RaisedModelError e \<Rightarrow> me_category e = Retryable
      | RaisedProvider x \<Rightarrow> me_category (classify_exception pl x) = Retryable)"

definition attempt_result :: "platform \<Rightarrow> attempt \<Rightarrow> nat \<Rightarrow> NormalizedAssistantResponse res" where
  "attempt_result pl a n =
     (case a of
        Answered v \<Rightarrow> safe_response pl v
      | _ \<Rightarrow> (case failed_attempt pl a (int n) of Inl e \<Rightarrow> Inl (error_exn e) | Inr x \<Rightarrow> Inl x))"

lemma mk_error_fields [simp]:
  "me_category (mk_ModelClientError c d s n) = c" "me_code (mk_ModelClientError c d s n) = d"
  "me_status_code (mk_ModelClientError c d s n) = s"
  by (simp_all add: mk_ModelClientError_def)

lemma to_retry_failed:
  "to_retry pl a \<longleftrightarrow> (\<exists>e. failed_attempt pl a n = Inl e \<and> me_category e = Retryable) \<and> (\<forall>v. a \<noteq> Answered v)"
  by (cases a) (auto simp: to_retry_def failed_attempt_def Let_def)

lemma attempt_loop_scripted:
  assumes "int k + int n = rp_max_retries p + 1" "0 < n"
  shows "\<exists>j \<ge> k. int j \<le> rp_max_retries p \<and>
    attempt_loop pl p (scripted script) request k n (k, ds) =
      ((Suc j, ds @ map (delay_for_retry p) [k..<j]), attempt_result pl (script j) (Suc j)) \<and>
    (\<forall>i \<in> {k..<j}. to_retry pl (script i)) \<and> (int j = rp_max_retries p \<or> \<not> to_retry pl (script j))"
  using assms
proof (induction n arbitrary: k ds)
  case (Suc n)
  have le: "int k \<le> rp_max_retries p" using Suc.prems by simp
  show ?case
  proof (cases "to_retry pl (script k) \<and> int k < rp_max_retries p")
    case True
    obtain e where e: "failed_attempt pl (script k) (int k + 1) = Inl e" "me_category e = Retryable" "\<forall>v. script k \<noteq> Answered v"
      using True to_retry_failed by blast
    have step: "attempt_loop pl p (scripted script) request k (Suc n) (k, ds) =
        attempt_loop pl p (scripted script) request (Suc k) n (Suc k, ds @ [delay_for_retry p k])"
      using e True by (cases "script k") (simp_all add: scripted_def)
    have "0 < n" "int (Suc k) + int n = rp_max_retries p + 1" using Suc.prems True by auto
    then obtain j where j: "Suc k \<le> j" "int j \<le> rp_max_retries p"
      "attempt_loop pl p (scripted script) request (Suc k) n (Suc k, ds @ [delay_for_retry p k]) =
        ((Suc j, (ds @ [delay_for_retry p k]) @ map (delay_for_retry p) [Suc k..<j]), attempt_result pl (script j) (Suc j))"
      "\<forall>i \<in> {Suc k..<j}. to_retry pl (script i)" "int j = rp_max_retries p \<or> \<not> to_retry pl (script j)"
      using Suc.IH [of "Suc k" "ds @ [delay_for_retry p k]"] by blast
    have "[k..<j] = k # [Suc k..<j]" using j(1) by (simp add: upt_conv_Cons)
    moreover have "\<forall>i \<in> {k..<j}. to_retry pl (script i)"
      using j(4) True by (metis atLeastLessThan_iff le_antisym not_less_eq_eq)
    ultimately show ?thesis using j step by (intro exI [of _ j]) auto
  next
    case False
    have "attempt_loop pl p (scripted script) request k (Suc n) (k, ds) = ((Suc k, ds), attempt_result pl (script k) (Suc k))"
      using False le
      by (cases "script k")
        (auto simp: scripted_def attempt_result_def to_retry_def failed_attempt_def Let_def add.commute split: sum.splits)
    then show ?thesis using False le by (intro exI [of _ k]) auto
  qed
qed simp

section \<open>Redaction keeps identifiers usable\<close>

lemma sub_all_chars:
  assumes "\<And>s new rest. m s = Some (new, rest) \<Longrightarrow> new \<noteq> [] \<and> set new \<subseteq> set s \<union> A \<and> set rest \<subseteq> set s"
  shows "set (sub_all word m prev s) \<subseteq> set s \<union> A \<and> (s \<noteq> [] \<longrightarrow> sub_all word m prev s \<noteq> [])"
  using assms
proof (induction word m prev s rule: sub_all.induct)
  case (1 word m prev s)
  show ?case
  proof (cases s)
    case Nil
    then show ?thesis by (simp add: sub_all.simps)
  next
    case (Cons c r)
    consider "sub_all word m prev s = c # sub_all word m (word c) r" "(if prev then None else m s) = None"
      | new rest where "(if prev then None else m s) = Some (new, rest)" "length rest < length s"
          "sub_all word m prev s = new @ sub_all word m False rest"
      | new rest where "(if prev then None else m s) = Some (new, rest)" "\<not> length rest < length s"
          "sub_all word m prev s = c # sub_all word m (word c) r"
      using sub_all.simps [of word m prev s] unfolding Cons
      by (cases "if prev then None else m (c # r)") (auto split: if_splits)
    then show ?thesis
    proof cases
      case 1
      then show ?thesis using "1.IH"(1) [OF Cons 1(2)] "1.prems" Cons by auto
    next
      case (2 new rest)
      then show ?thesis using "1.IH"(2) [OF Cons 2(1) refl 2(2)] "1.prems" Cons by (fastforce split: if_splits)
    next
      case (3 new rest)
      then show ?thesis using "1.IH"(3) [OF Cons 3(1) refl 3(2)] "1.prems" Cons by auto
    qed
  qed
qed

lemma after_word_suffix: "after_word p s = Some r \<Longrightarrow> set r \<subseteq> set s"
  by (induction p s rule: after_word.induct) (auto split: if_splits)

lemma first_word_parts: "first_word ws s = Some (n, r) \<Longrightarrow> set n \<subseteq> set s \<and> set r \<subseteq> set s"
  by (induction ws s rule: first_word.induct)
    (auto split: option.splits dest: after_word_suffix in_set_takeD)

definition redaction_chars :: "nat set" where
  "redaction_chars = insert 34 (set (lit ''Bearer <redacted>''))"

lemma set_drop_take: "set (dropWhile P s) \<subseteq> set s" "set (takeWhile P s) \<subseteq> set s"
  by (auto dest: set_dropWhileD set_takeWhileD)

lemma model_bearer_chars:
  "model_bearer s = Some (new, rest) \<Longrightarrow> new \<noteq> [] \<and> set new \<subseteq> set s \<union> redaction_chars \<and> set rest \<subseteq> set s"
  by (auto simp: model_bearer_def Let_def redaction_chars_def split: option.splits if_splits
      dest!: after_word_suffix set_dropWhileD)

lemma secret_lhs_chars: "secret_lhs word s = Some (lhs, v) \<Longrightarrow> lhs \<noteq> [] \<and> set lhs \<subseteq> set s \<and> set v \<subseteq> set s"
proof -
  assume a: "secret_lhs word s = Some (lhs, v)"
  obtain name r where n: "first_word secret_words s = Some (name, r)" using a by (auto simp: secret_lhs_def split: option.splits)
  let ?q = "if r \<noteq> [] \<and> quote_char (hd r) then [hd r] else []"
  let ?r1 = "drop (length ?q) r"
  obtain sep r2 where r2: "dropWhile is_space ?r1 = sep # r2"
    "lhs = name @ ?q @ takeWhile is_space ?r1 @ [sep] @ takeWhile is_space r2" "v = dropWhile is_space r2"
    using a n by (auto simp: secret_lhs_def Let_def split: if_splits list.splits)
  have name: "set name \<subseteq> set s" and r: "set r \<subseteq> set s" using first_word_parts [OF n] by simp_all
  have q: "set ?q \<subseteq> set s" and r1: "set ?r1 \<subseteq> set s" using r by (cases r; auto dest: in_set_dropD)+
  have w1: "set (takeWhile is_space ?r1) \<subseteq> set s" and d1: "set (sep # r2) \<subseteq> set s"
    using r1 set_drop_take [of is_space ?r1] r2(1) by (blast, metis subset_trans)
  have w2: "set (takeWhile is_space r2) \<subseteq> set s" "set (dropWhile is_space r2) \<subseteq> set s"
    using d1 set_drop_take [of is_space r2] by (auto dest: subsetD)
  show ?thesis
    unfolding r2(2,3) using name q w1 d1 w2 by (simp only: set_append set_simps) auto
qed

lemma model_secret_quoted_chars:
  "model_secret_quoted word s = Some (new, rest) \<Longrightarrow> new \<noteq> [] \<and> set new \<subseteq> set s \<union> redaction_chars \<and> set rest \<subseteq> set s"
proof -
  assume a: "model_secret_quoted word s = Some (new, rest)"
  obtain lhs v where l: "secret_lhs word s = Some (lhs, v)" using a by (auto simp: model_secret_quoted_def split: option.splits)
  obtain q where q: "dropWhile (\<lambda>c. \<not> quote_char c) (tl v) = q # rest" "new = lhs @ [34] @ lit ''<redacted>'' @ [34]"
    using a l by (auto simp: model_secret_quoted_def split: if_splits list.splits)
  have "set (q # rest) \<subseteq> set (tl v)" using q(1) set_drop_take(1) [of "\<lambda>c. \<not> quote_char c" "tl v"] by metis
  then have "set rest \<subseteq> set v" by (cases v) auto
  then show ?thesis using secret_lhs_chars [OF l] q(2) by (auto simp: redaction_chars_def lit_def)
qed

lemma model_secret_unquoted_chars:
  "model_secret_unquoted word s = Some (new, rest) \<Longrightarrow> new \<noteq> [] \<and> set new \<subseteq> set s \<union> redaction_chars \<and> set rest \<subseteq> set s"
proof -
  assume a: "model_secret_unquoted word s = Some (new, rest)"
  obtain lhs v where l: "secret_lhs word s = Some (lhs, v)" using a by (auto simp: model_secret_unquoted_def split: option.splits)
  have q: "rest = dropWhile unquoted_char v" "new = lhs @ lit ''<redacted>''"
    using a l by (auto simp: model_secret_unquoted_def split: if_splits)
  have "set rest \<subseteq> set v" using q(1) set_drop_take(1) by metis
  then show ?thesis using secret_lhs_chars [OF l] q(2) by (auto simp: redaction_chars_def lit_def)
qed

lemma redact_model_text_chars:
  "set (redact_model_text pl s) \<subseteq> set s \<union> redaction_chars \<and> (s \<noteq> [] \<longrightarrow> redact_model_text pl s \<noteq> [])"
proof -
  let ?w = "pl_word pl"
  let ?a = "sub_all ?w model_bearer False s"
  let ?b = "sub_all ?w (model_secret_quoted ?w) False ?a"
  have "set ?a \<subseteq> set s \<union> redaction_chars \<and> (s \<noteq> [] \<longrightarrow> ?a \<noteq> [])"
    by (rule sub_all_chars) (rule model_bearer_chars)
  moreover have "set ?b \<subseteq> set ?a \<union> redaction_chars \<and> (?a \<noteq> [] \<longrightarrow> ?b \<noteq> [])"
    by (rule sub_all_chars) (rule model_secret_quoted_chars)
  moreover have "set (redact_model_text pl s) \<subseteq> set ?b \<union> redaction_chars \<and> (?b \<noteq> [] \<longrightarrow> redact_model_text pl s \<noteq> [])"
    unfolding redact_model_text_def by (rule sub_all_chars) (rule model_secret_unquoted_chars)
  ultimately show ?thesis by blast
qed

lemma redact_provider_id: "provider_id_ok s \<Longrightarrow> provider_id_ok (redact_model_text pl s)"
proof -
  have "0 \<notin> redaction_chars" by (simp add: redaction_chars_def lit_def)
  then show "provider_id_ok s \<Longrightarrow> provider_id_ok (redact_model_text pl s)"
    using redact_model_text_chars [of pl s] by (auto simp: provider_id_ok_def has_nul_def List.member_iff)
qed

lemma coerce_redacted_id:
  "provider_id_ok s \<Longrightarrow>
   coerce_identifier (PlainStr (redact_model_text pl s)) ProviderToolCallId = Inr (redact_model_text pl s)"
  using redact_provider_id by (simp add: coerce_identifier_plain id_ok_def del: coerce_identifier.simps)

section \<open>Normalization\<close>

lemma safe_provider_id_cases:
  "(\<exists>d. safe_provider_id pl v = (None, Some d) \<and> d \<noteq> []) \<or>
   (\<exists>i. safe_provider_id pl v = (Some i, None) \<and> provider_id_ok i)"
  by (auto simp: safe_provider_id_def new_identifier_def provider_id_ok_def split: option.splits sdk.splits if_splits)

lemma safe_tool_name_cases:
  "(\<exists>d. safe_tool_name pl v = (None, Some d) \<and> d \<noteq> []) \<or> (\<exists>n. safe_tool_name pl v = (Some n, None) \<and> n \<noteq> [])"
  using redact_model_text_chars by (auto simp: safe_tool_name_def split: option.splits sdk.splits)

lemma arguments_status_cases:
  "(\<exists>t d. arguments_status pl v = (t, False, Some d) \<and> d \<noteq> []) \<or>
   (\<exists>t o'. arguments_status pl v = (t, True, None) \<and> json_loads False (pl_fparse pl) t = Some (JObj o'))"
  by (auto simp: arguments_status_def Let_def split: option.splits sdk.splits json.splits)

lemma add_optional_simps [simp]: "add_optional ds None = ds" "set (add_optional ds d) = set ds \<union> set_option (map_option lit d)"
  by (auto simp: add_optional_def add_diagnostic_def split: option.split)

lemma set_add_optionals: "set (foldl add_optional ds xs) = set ds \<union> (\<Union>d \<in> set xs. set_option (map_option lit d))"
  by (induction xs arbitrary: ds) auto

lemma add_optionals_empty: "foldl add_optional [] xs = [] \<longleftrightarrow> (\<forall>d \<in> set xs. d = None)"
proof -
  have "foldl add_optional [] xs = [] \<longleftrightarrow> set (foldl add_optional [] xs) = {}" by (simp only: set_empty)
  also have "\<dots> \<longleftrightarrow> (\<forall>d \<in> set xs. d = None)"
    unfolding set_add_optionals by auto
  finally show ?thesis .
qed

text \<open>A normalized call: it succeeds, and it has no diagnostic exactly when it is complete.\<close>

definition call_complete :: "NormalizedToolCall \<Rightarrow> bool" where
  "call_complete c \<longleftrightarrow> nc_provider_tool_call_id c \<noteq> None \<and> nc_name c \<noteq> None \<and> nc_arguments_valid c"

definition call_ok :: "NormalizedToolCall \<Rightarrow> bool" where
  "call_ok c \<longleftrightarrow> (call_valid c \<longleftrightarrow> nc_diagnostics c = []) \<and> (nc_diagnostics c = [] \<longrightarrow> call_complete c) \<and>
     list_all (\<lambda>d. d \<noteq> []) (nc_diagnostics c)"

lemma id_diagnostic_nonempty: "id_diagnostic (safe_provider_id pl v) seen \<noteq> Some []"
  using safe_provider_id_cases [of pl v] by (auto simp: id_diagnostic_def split: if_splits)

lemma normalize_tool_call_ok:
  "\<exists>c seen' ds'. normalize_tool_call pl v seen ds = (Inr c, seen', ds') \<and> call_ok c \<and>
     set ds' = set ds \<union> set (nc_diagnostics c) \<and> (list_all (\<lambda>d. d \<noteq> []) ds \<longrightarrow> list_all (\<lambda>d. d \<noteq> []) ds')"
proof -
  let ?pid = "safe_provider_id pl (sdk_field v ''id'')"
  let ?fnc = "sdk_field v ''function''"
  let ?fdiag = "if absent ?fnc then Some ''missing_function'' else None"
  let ?fnc' = "if absent ?fnc then Some (SMap []) else ?fnc"
  let ?name = "safe_tool_name pl (field_of ?fnc' ''name'')"
  let ?args = "arguments_status pl (field_of ?fnc' ''arguments'')"
  let ?all = "[id_diagnostic ?pid seen, ?fdiag, snd ?name, snd (snd ?args)]"
  let ?ds = "foldl add_optional [] ?all"
  let ?c = "\<lparr>nc_provider_tool_call_id = map_option (redact_model_text pl) (fst ?pid),
    nc_name = map_option (redact_model_text pl) (fst ?name), nc_raw_arguments = redact_model_text pl (fst ?args),
    nc_arguments_valid = fst (snd ?args), nc_diagnostics = ?ds\<rparr>"
  have nonempty: "\<forall>d \<in> set ?all. d \<noteq> Some []"
    using id_diagnostic_nonempty [of pl "sdk_field v ''id''" seen] safe_tool_name_cases [of pl "field_of ?fnc' ''name''"]
      arguments_status_cases [of pl "field_of ?fnc' ''arguments''"] by auto
  then have clean: "list_all (\<lambda>d. d \<noteq> []) ?ds"
    unfolding list_all_iff set_add_optionals by (auto simp del: foldl.simps)
  have made: "mk_NormalizedToolCall pl (fst ?pid) (fst ?name) (fst ?args) (fst (snd ?args)) ?ds = Inr ?c"
    using safe_provider_id_cases [of pl "sdk_field v ''id''"] safe_tool_name_cases [of pl "field_of ?fnc' ''name''"] clean
      coerce_redacted_id
    by (auto simp: mk_NormalizedToolCall_def simp del: foldl.simps coerce_identifier.simps)
  note empty = add_optionals_empty [of ?all]
  have "?ds = [] \<longrightarrow> call_complete ?c"
    unfolding empty using safe_provider_id_cases [of pl "sdk_field v ''id''"] safe_tool_name_cases [of pl "field_of ?fnc' ''name''"]
      arguments_status_cases [of pl "field_of ?fnc' ''arguments''"]
    by (auto simp: call_complete_def id_diagnostic_def split: if_splits)
  then have "call_ok ?c" using clean by (auto simp: call_ok_def call_valid_def call_complete_def simp del: foldl.simps)
  moreover have "set (foldl add_optional ds ?all) = set ds \<union> set ?ds" unfolding set_add_optionals by simp
  moreover have "list_all (\<lambda>d. d \<noteq> []) ds \<longrightarrow> list_all (\<lambda>d. d \<noteq> []) (foldl add_optional ds ?all)"
    using clean \<open>set (foldl add_optional ds ?all) = set ds \<union> set ?ds\<close> unfolding list_all_iff by auto
  ultimately show ?thesis
    unfolding normalize_tool_call_def Let_def made
    by (intro exI [of _ ?c] exI) (auto simp del: foldl.simps)
qed

lemma normalize_calls_ok:
  "list_all (\<lambda>d. d \<noteq> []) ds \<Longrightarrow> \<exists>cs ds'. normalize_calls pl vs seen ds = Inr (cs, ds') \<and> length cs = length vs \<and>
     list_all call_ok cs \<and> list_all (\<lambda>d. d \<noteq> []) ds' \<and> set ds \<subseteq> set ds' \<and>
     (\<forall>c \<in> set cs. set (nc_diagnostics c) \<subseteq> set ds')"
proof (induction vs arbitrary: seen ds)
  case (Cons v vs)
  obtain c seen' ds1 where c: "normalize_tool_call pl v seen ds = (Inr c, seen', ds1)" "call_ok c"
    "set ds1 = set ds \<union> set (nc_diagnostics c)" "list_all (\<lambda>d. d \<noteq> []) ds1"
    using normalize_tool_call_ok [of pl v seen ds] Cons.prems by auto
  obtain cs ds' where "normalize_calls pl vs seen' ds1 = Inr (cs, ds')" "length cs = length vs"
    "list_all call_ok cs" "list_all (\<lambda>d. d \<noteq> []) ds'" "set ds1 \<subseteq> set ds'" "\<forall>c \<in> set cs. set (nc_diagnostics c) \<subseteq> set ds'"
    using Cons.IH [OF c(4)] by blast
  then show ?case using c by auto
qed simp

lemma add_diagnostic_nonempty [simp]:
  "d \<noteq> [] \<Longrightarrow> list_all (\<lambda>d. d \<noteq> []) ds \<Longrightarrow> list_all (\<lambda>d. d \<noteq> []) (add_diagnostic ds d)"
  by (simp add: add_diagnostic_def)

lemma set_add_diagnostic: "set ds \<subseteq> set (add_diagnostic ds d)"
  by (auto simp: add_diagnostic_def)

lemma normalize_usage_ok:
  "\<exists>u ds'. normalize_usage v ds = (Inr u, ds') \<and> (list_all (\<lambda>d. d \<noteq> []) ds \<longrightarrow> list_all (\<lambda>d. d \<noteq> []) ds')"
proof -
  have "nonneg_option (safe_counter x)" for x
    by (cases x rule: safe_counter.cases) (simp_all add: nonneg_option_def)
  then show ?thesis by (auto simp: normalize_usage_def Let_def mk_NormalizedUsage_def)
qed

lemma safe_content_ok:
  "list_all (\<lambda>d. d \<noteq> []) ds \<Longrightarrow> list_all (\<lambda>d. d \<noteq> []) (snd (safe_content pl v ds))"
  by (auto simp: safe_content_def Let_def split: sdk.split list.split)

text \<open>The calls the provider sent, in a response that has a message with a list of them.\<close>

definition provider_calls :: "sdk \<Rightarrow> sdk list" where
  "provider_calls response =
     (case sdk_field response ''choices'' of
        Some (SSeq (choice # _)) \<Rightarrow>
          (case field_of (sdk_field choice ''message'') ''tool_calls'' of Some (SSeq calls) \<Rightarrow> calls | _ \<Rightarrow> [])
      | _ \<Rightarrow> [])"

lemma mk_response_Inr:
  "list_all (\<lambda>d. d \<noteq> []) ds \<Longrightarrow>
   mk_NormalizedAssistantResponse pl t cs u f ds =
     Inr \<lparr>nr_text = redact_model_text pl t, nr_tool_calls = cs, nr_usage = u,
          nr_finish_reason = map_option (redact_model_text pl) f, nr_diagnostics = ds\<rparr>"
  by (simp add: mk_NormalizedAssistantResponse_def)

definition calls_of :: "sdk option \<Rightarrow> sdk list" where
  "calls_of raw = (case raw of Some (SSeq calls) \<Rightarrow> calls | _ \<Rightarrow> [])"

lemma normalize_raw_calls_ok:
  "list_all (\<lambda>d. d \<noteq> []) ds \<Longrightarrow> \<exists>cs ds'. normalize_raw_calls pl raw ds = Inr (cs, ds') \<and> length cs = length (calls_of raw) \<and>
     list_all call_ok cs \<and> list_all (\<lambda>d. d \<noteq> []) ds' \<and> (\<forall>c \<in> set cs. set (nc_diagnostics c) \<subseteq> set ds')"
proof (cases raw)
  case (Some x)
  assume ds: "list_all (\<lambda>d. d \<noteq> []) ds"
  show ?thesis
  proof (cases "\<exists>vs. x = SSeq vs")
    case True
    then obtain vs where x: "x = SSeq vs" by blast
    then show ?thesis using normalize_calls_ok [OF ds, of pl vs "{}"] Some
      by (auto simp: normalize_raw_calls_def absent_def calls_of_def)
  next
    case False
    then show ?thesis using Some ds
      by (cases x) (auto simp: normalize_raw_calls_def absent_def calls_of_def)
  qed
qed (simp add: normalize_raw_calls_def absent_def calls_of_def)

lemma normalize_finish_ok:
  "list_all (\<lambda>d. d \<noteq> []) ds \<Longrightarrow>
   list_all (\<lambda>d. d \<noteq> []) (snd (normalize_finish pl v ds)) \<and> set ds \<subseteq> set (snd (normalize_finish pl v ds))"
  using set_add_diagnostic by (auto simp: normalize_finish_def split: sdk.split)

lemma normalize_choice_ok:
  assumes "list_all (\<lambda>d. d \<noteq> []) ds"
  shows "\<exists>r. normalize_choice pl choice u ds = Inr r \<and>
    length (nr_tool_calls r) = length (calls_of (field_of (sdk_field choice ''message'') ''tool_calls'')) \<and>
    list_all call_ok (nr_tool_calls r) \<and> (\<forall>c \<in> set (nr_tool_calls r). set (nc_diagnostics c) \<subseteq> set (nr_diagnostics r))"
proof -
  let ?m = "sdk_field choice ''message''"
  let ?m' = "if absent ?m then Some (SMap []) else ?m"
  let ?ds1 = "if absent ?m then add_diagnostic ds ''message_missing'' else ds"
  let ?c = "safe_content pl (field_of ?m' ''content'') ?ds1" and ?raw = "field_of ?m' ''tool_calls''"
  have raw: "calls_of ?raw = calls_of (field_of ?m ''tool_calls'')"
    by (auto simp: absent_def field_of_def calls_of_def split: option.split)
  have ds1: "list_all (\<lambda>d. d \<noteq> []) (snd ?c)" using assms by (intro safe_content_ok) simp
  obtain cs ds2 where cs: "normalize_raw_calls pl ?raw (snd ?c) = Inr (cs, ds2)" "length cs = length (calls_of ?raw)"
    "list_all call_ok cs" "list_all (\<lambda>d. d \<noteq> []) ds2" "\<forall>c \<in> set cs. set (nc_diagnostics c) \<subseteq> set ds2"
    using normalize_raw_calls_ok [OF ds1] by blast
  let ?f = "normalize_finish pl (sdk_field choice ''finish_reason'') ds2"
  have "normalize_choice pl choice u ds = mk_NormalizedAssistantResponse pl (fst ?c) cs u (fst ?f) (snd ?f)"
    unfolding normalize_choice_def Let_def cs(1) by simp
  then show ?thesis using mk_response_Inr normalize_finish_ok [OF cs(4)] cs raw by fastforce
qed

lemma normalize_response_ok:
  "\<exists>r. normalize_response pl v = Inr r \<and> length (nr_tool_calls r) = length (provider_calls v) \<and>
     list_all call_ok (nr_tool_calls r) \<and> (\<forall>c \<in> set (nr_tool_calls r). set (nc_diagnostics c) \<subseteq> set (nr_diagnostics r))"
proof -
  obtain u ds where u: "normalize_usage (sdk_field v ''usage'') [] = (Inr u, ds)" "list_all (\<lambda>d. d \<noteq> []) ds"
    using normalize_usage_ok [of "sdk_field v ''usage''" "[]"] by auto
  show ?thesis
  proof (cases "\<exists>choice cs. sdk_field v ''choices'' = Some (SSeq (choice # cs))")
    case False
    then have "provider_calls v = []"
      "normalize_response pl v = mk_NormalizedAssistantResponse pl [] [] u None (add_diagnostic ds ''response_missing'')"
      using u(1) by (auto simp: provider_calls_def normalize_response_def split: option.split sdk.split list.split)
    then show ?thesis using u(2) by (simp add: mk_response_Inr)
  next
    case True
    then obtain choice cs where choice: "sdk_field v ''choices'' = Some (SSeq (choice # cs))" by blast
    then have "normalize_response pl v = normalize_choice pl choice u ds"
      "provider_calls v = calls_of (field_of (sdk_field choice ''message'') ''tool_calls'')"
      using u(1) by (simp_all add: normalize_response_def provider_calls_def calls_of_def)
    then show ?thesis using normalize_choice_ok [OF u(2), of pl choice u] by simp
  qed
qed

text \<open>The redaction rewrites the arguments of a call before they are parsed and run: an assignment to
  a name like \<open>token\<close> inside a tool argument is changed, and a JSON number under such a key is no
  JSON afterwards.\<close>

lemmas redaction_simps = sub_all.simps redact_model_text_def model_bearer_def model_secret_quoted_def
  model_secret_unquoted_def secret_lhs_def secret_words_def lit_def fold_char_def quote_char_def unquoted_char_def
  model_bearer_char_def is_space_def sample_platform_def

lemma redaction_rewrites_arguments:
  "redact_model_text sample_platform (lit ''token=x'') = lit ''token=<redacted>''"
  "redact_model_text sample_platform ([123, 34] @ lit ''token'' @ [34] @ lit '':5}'') =
     [123, 34] @ lit ''token'' @ [34] @ lit '':<redacted>}''"
  by (simp_all add: redaction_simps)

section \<open>Properties\<close>

text \<open>C21: The retry of a model request is bounded and stops at the first attempt that is not to be
  retried: against any script of attempts there is one, at most the configured number of
  retries, whose outcome is the outcome of the call; all attempts before it are retryable
  failures, and exactly the backoff delays between them are slept.\<close>

theorem retry_bounded:
  assumes "build_request mc messages tools parameters = Inr request" and "0 \<le> rp_max_retries (mc_policy mc)"
  shows "\<exists>j. int j \<le> rp_max_retries (mc_policy mc) \<and>
    complete_request pl mc (scripted script) messages tools parameters (0, []) =
      ((Suc j, map (delay_for_retry (mc_policy mc)) [0..<j]), attempt_result pl (script j) (Suc j)) \<and>
    (\<forall>i < j. to_retry pl (script i)) \<and> (int j = rp_max_retries (mc_policy mc) \<or> \<not> to_retry pl (script j))"
proof -
  let ?p = "mc_policy mc"
  have "\<exists>j \<ge> 0. int j \<le> rp_max_retries ?p \<and>
      attempt_loop pl ?p (scripted script) request 0 (nat (max_attempts ?p)) (0, []) =
        ((Suc j, [] @ map (delay_for_retry ?p) [0..<j]), attempt_result pl (script j) (Suc j)) \<and>
      (\<forall>i \<in> {0..<j}. to_retry pl (script i)) \<and> (int j = rp_max_retries ?p \<or> \<not> to_retry pl (script j))"
    using assms(2) by (intro attempt_loop_scripted) (simp_all add: max_attempts_def)
  then show ?thesis using assms(1) by (auto simp: complete_request_def)
qed

theorem retry_bounded_witness:
  "\<exists>j. complete_request sample_platform
      \<lparr>mc_model = Some (lit ''m''), mc_policy = \<lparr>rp_max_retries = 2, rp_initial_delay = 1, rp_max_delay = 30\<rparr>\<rparr>
      (scripted (\<lambda>n. if n = 0 then RaisedModelError (mk_ModelClientError Retryable CodeServer None 1) else Answered SNone))
      [] [] [] (0, []) = ((Suc j, map (\<lambda>k. min 30 (1 * 2 ^ k)) [0..<j]), safe_response sample_platform SNone) \<and> j = 1"
proof -
  let ?mc = "\<lparr>mc_model = Some (lit ''m''), mc_policy = \<lparr>rp_max_retries = 2, rp_initial_delay = 1, rp_max_delay = 30\<rparr>\<rparr>"
  let ?script = "\<lambda>n :: nat. if n = 0 then RaisedModelError (mk_ModelClientError Retryable CodeServer None 1) else Answered SNone"
  obtain request where r: "build_request ?mc [] [] [] = Inr request"
    by (simp add: build_request_def Let_def has_key_def strip_def lit_def is_space_def)
  obtain j where j: "int j \<le> 2" "complete_request sample_platform ?mc (scripted ?script) [] [] [] (0, []) =
      ((Suc j, map (delay_for_retry (mc_policy ?mc)) [0..<j]), attempt_result sample_platform (?script j) (Suc j))"
    "\<forall>i < j. to_retry sample_platform (?script i)" "int j = 2 \<or> \<not> to_retry sample_platform (?script j)"
    using retry_bounded [OF r, of sample_platform ?script] by auto
  have answered: "\<not> to_retry sample_platform (?script (Suc k))" for k by (simp add: to_retry_def)
  have "j \<noteq> 0" using j(4) by (cases j) (auto simp: to_retry_def)
  moreover have "\<not> 1 < j" using j(3) answered [of 0] by (metis One_nat_def)
  ultimately have "j = 1" by simp
  then show ?thesis using j(2) by (simp add: attempt_result_def delay_for_retry_def)
qed


end
