(* ===== verification/Frames.thy ===== *)
theory Frames
  imports Executor
begin

text \<open>
  Frame conditions of effects: an effect moves every state along a relation and raises only
  certain exceptions, however it ends.  The rules are proved once, for any preorder
  (\<open>step_order\<close>); \<open>quiet_ports\<close> carries such a condition on the collaborators' world through
  \<open>execute\<close> and \<open>skip\<close>.
\<close>

definition steps :: "('s \<Rightarrow> 's \<Rightarrow> bool) \<Rightarrow> (exn \<Rightarrow> bool) \<Rightarrow> ('s, 'a) effect \<Rightarrow> bool" where
  "steps R X m \<longleftrightarrow> (\<forall>s. R s (fst (m s)) \<and> (\<forall>e. snd (m s) = Inl e \<longrightarrow> X e))"

lemma stepsD: "steps R X m \<Longrightarrow> m s = (s', r) \<Longrightarrow> R s s' \<and> (\<forall>e. r = Inl e \<longrightarrow> X e)"
  unfolding steps_def by (drule spec [of _ s]) simp

lemma wp_steps:
  assumes "steps R X m" "\<And>a s'. R s s' \<Longrightarrow> Q a s'" "\<And>e s'. R s s' \<Longrightarrow> X e \<Longrightarrow> E e s'"
  shows "wp m Q E s"
proof (cases "m s")
  case (Pair s' r)
  then show ?thesis using stepsD [OF assms(1) Pair] assms(2,3) by (cases r) (simp_all add: wp_def)
qed

lemma stepsI:
  assumes "\<And>s. wp m (\<lambda>_. R s) (\<lambda>e s'. R s s' \<and> X e) s"
  shows "steps R X m"
  unfolding steps_def
proof
  fix s
  obtain s' r where m: "m s = (s', r)" by (cases "m s")
  show "R s (fst (m s)) \<and> (\<forall>e. snd (m s) = Inl e \<longrightarrow> X e)"
    using assms [of s] by (cases r) (simp_all add: m wp_def)
qed

lemma steps_mono: "steps R X m \<Longrightarrow> (\<And>s s'. R s s' \<Longrightarrow> R' s s') \<Longrightarrow> (\<And>e. X e \<Longrightarrow> X' e) \<Longrightarrow> steps R' X' m"
  unfolding steps_def by blast

lemma steps_zoom:
  assumes "steps R' X m" "\<And>t s. R' (sel t) s \<Longrightarrow> R t (upd s t)"
  shows "steps R X (zoom sel upd m)"
  by (rule stepsI, unfold wp_zoom, rule wp_steps [OF assms(1)]) (auto intro: assms(2))

lemma steps_zoom_any:
  assumes "\<And>t s. R t (upd s t)"
  shows "steps R (\<lambda>_. True) (zoom sel upd m)"
  by (rule steps_zoom [where R' = "\<lambda>_ _. True"]) (simp_all add: steps_def assms)

lemma steps_total: "(\<And>s. R s (fst (f s))) \<Longrightarrow> steps R X (total f)"
  by (simp add: steps_def total_def split_beta)

locale step_order =
  fixes R :: "'s \<Rightarrow> 's \<Rightarrow> bool"
  assumes same: "R s s" and further: "R s s' \<Longrightarrow> R s' s'' \<Longrightarrow> R s s''"
begin

lemma step_ret: "steps R X (ret a)"
  by (simp add: steps_def ret_def same)

lemma step_raise: "X e \<Longrightarrow> steps R X (raise e)"
  by (simp add: steps_def raise_def same)

lemma step_get: "steps R X (get f)"
  by (simp add: steps_def get_def same)

lemma step_modify: "(\<And>s. R s (f s)) \<Longrightarrow> steps R X (modify f)"
  by (simp add: steps_def modify_def)

lemma step_lift: "(\<And>e. r = Inl e \<Longrightarrow> X e) \<Longrightarrow> steps R X (lift_res r)"
  by (simp add: steps_def lift_res_def same)

lemma step_bind:
  assumes "steps R X m" "\<And>a. steps R X (f a)"
  shows "steps R X (bindE m f)"
proof (rule stepsI)
  fix s
  show "wp (bindE m f) (\<lambda>_. R s) (\<lambda>e s'. R s s' \<and> X e) s"
    unfolding wp_bindE
    by (rule wp_steps [OF assms(1)]) (auto intro: wp_steps [OF assms(2)] further)
qed

lemma step_seq: "steps R X m \<Longrightarrow> steps R X k \<Longrightarrow> steps R X (seqE m k)"
  unfolding seqE_def by (rule step_bind)

lemma step_try:
  assumes "X KeyboardInterrupt" "steps R Y m" "\<And>e. Y e \<Longrightarrow> steps R X (h e)"
  shows "steps R X (try_except m h)"
proof (rule stepsI)
  fix s
  have "X e" if "\<not> is_exception e" for e using that assms(1) by (cases e) auto
  then show "wp (try_except m h) (\<lambda>_. R s) (\<lambda>e s'. R s s' \<and> X e) s"
    unfolding wp_try_except
    by (intro wp_steps [OF assms(2)]) (auto intro: wp_steps [OF assms(3)] further)
qed

lemma step_finally:
  assumes "steps R X m" "steps R X f"
  shows "steps R X (try_finally m f)"
proof (rule stepsI)
  fix s
  show "wp (try_finally m f) (\<lambda>_. R s) (\<lambda>e s'. R s s' \<and> X e) s"
    unfolding wp_try_finally
    by (intro wp_steps [OF assms(1)]) (auto intro: wp_steps [OF assms(2)] further)
qed

lemma step_total: "(\<And>s. R s (fst (f s))) \<Longrightarrow> steps R X (total f)"
  by (rule steps_total)

lemma step_if: "steps R X m \<Longrightarrow> steps R X k \<Longrightarrow> steps R X (if b then m else k)"
  by simp

lemma step_option: "steps R X m \<Longrightarrow> (\<And>a. v = Some a \<Longrightarrow> steps R X (f a)) \<Longrightarrow> steps R X (case v of None \<Rightarrow> m | Some a \<Rightarrow> f a)"
  by (cases v) simp_all

lemma step_sum: "(\<And>a. v = Inl a \<Longrightarrow> steps R X (g a)) \<Longrightarrow> (\<And>b. v = Inr b \<Longrightarrow> steps R X (f b)) \<Longrightarrow>
    steps R X (case v of Inl a \<Rightarrow> g a | Inr b \<Rightarrow> f b)"
  by (cases v) simp_all

lemma step_let: "(\<And>a. steps R X (f a)) \<Longrightarrow> steps R X (let x = v in f x)"
  by simp

lemma step_prod: "(\<And>a b. steps R X (f a b)) \<Longrightarrow> steps R X (case v of (a, b) \<Rightarrow> f a b)"
  by (cases v) simp

lemmas step_rules = step_ret step_get step_bind step_seq step_if step_option step_sum step_let step_prod step_finally

end

section \<open>What the executor raises\<close>

text \<open>A \<open>ToolResult\<close> that its constructor refuses, a publication that failed in strict mode, and
  an interrupt.\<close>

definition loop_signal :: "exn \<Rightarrow> bool" where
  "loop_signal e \<longleftrightarrow> (case e of LoopLimitReached _ \<Rightarrow> True | ContextWindowExceeded _ \<Rightarrow> True | _ \<Rightarrow> False)"

lemma loop_signal_simps [simp]:
  "\<not> loop_signal (OtherError c m)" "\<not> loop_signal KeyboardInterrupt" "\<not> loop_signal (ValueError m)"
  "\<not> loop_signal (TypeError m)" "\<not> loop_signal (RuntimeError m)" "\<not> loop_signal (CancellationRequested m)"
  "loop_signal (LoopLimitReached m)" "loop_signal (ContextWindowExceeded m)"
  by (simp_all add: loop_signal_def)

lemma argument_error_no_signal: "argument_error e \<Longrightarrow> \<not> loop_signal e"
  by (cases e) (auto simp: argument_error_def loop_signal_def)

lemma coerce_identifier_error: "coerce_identifier (PlainStr v) k = Inl e \<Longrightarrow> argument_error e"
  by (auto simp: new_identifier_def split: if_splits)

lemma ToolResult_post_init_error: "ToolResult_post_init r = Inl e \<Longrightarrow> argument_error e"
  unfolding ToolResult_post_init_def
  by (auto simp: bindR_Inl_iff simp del: coerce_identifier.simps validate_nonnegative.simps validate_logical_path.simps
      dest: coerce_identifier_error validators_argument_error split: option.splits)

lemma projection_error: "ToolResultProjection_from_result r l = Inl e \<Longrightarrow> argument_error e"
  unfolding ToolResultProjection_from_result_def
  by (auto simp: bindR_Inl_iff head_tail_truncate_def validate_limit_def Let_def split: option.splits if_splits)

lemma made_result_errors:
  "protocol_result cid pid code msg name = Inl e \<Longrightarrow> argument_error e"
  "executor_error_result cid pid name c dur = Inl e \<Longrightarrow> argument_error e"
  "denied_result cid pid name c txt reason = Inl e \<Longrightarrow> argument_error e"
  "skip_result cid pid nm reason st = Inl e \<Longrightarrow> argument_error e"
  unfolding protocol_result_def executor_error_result_def denied_result_def skip_result_def timed_result_def
  by (rule ToolResult_post_init_error, assumption)+

lemma normalize_result_error: "normalize_result cfg v cid pid name elapsed = Inl e \<Longrightarrow> argument_error e"
  unfolding normalize_result_def scrub_def to_tool_result_def
  by (auto simp: bindR_Inl_iff dest: ToolResult_post_init_error projection_error made_result_errors
      split: exec_value.splits sum.splits if_splits option.splits)

section \<open>Through the executor\<close>

locale quiet_ports =
  fixes Q :: "'w exec_ports" and R :: "'w \<Rightarrow> 'w \<Rightarrow> bool"
  assumes same: "R w w" and further: "R w w' \<Longrightarrow> R w' w'' \<Longrightarrow> R w w''"
    and new_id: "steps R (\<lambda>_. True) (xp_new_id Q k)"
    and uuid: "R w (fst (xp_uuid Q pre taken w))"
    and clock: "steps R (\<lambda>_. True) (xp_clock Q)"
    and timestamp: "R w (fst (xp_timestamp Q w))"
    and validate: "steps R (\<lambda>_. True) (xp_validate Q n a)"
    and run: "steps R (\<lambda>_. True) (xp_execute Q n d c)"
    and policy: "steps R (\<lambda>_. True) (xp_policy Q n d c)"
    and approval: "xp_approval Q = Some ask \<Longrightarrow> steps R (\<lambda>_. True) (ask n d c)"
    and publish: "xp_publish Q = Some pub \<Longrightarrow> steps R (\<lambda>_. True) (pub ev)"
begin

definition moved :: "'w exec_state \<Rightarrow> 'w exec_state \<Rightarrow> bool" where
  "moved s s' \<longleftrightarrow> R (xs_world s) (xs_world s')"

end

sublocale quiet_ports \<subseteq> moved: step_order moved
  by unfold_locales (auto simp: moved_def intro: same further)

context quiet_ports
begin

lemma moved_updates [simp]:
  "moved s (s\<lparr>xs_event_ids := i\<rparr>)" "moved s (s\<lparr>xs_issued := j\<rparr>)" "moved s (s\<lparr>xs_errors := e\<rparr>)"
  "moved s (s\<lparr>xs_result := r\<rparr>)" "moved s (s\<lparr>xs_last_result := l\<rparr>)" "moved s (s\<lparr>xs_last_published := b\<rparr>)"
  "moved s (s\<lparr>xs_policy_emitted := b\<rparr>)"
  by (simp_all add: moved_def same)

lemma moved_twice [simp]:
  "moved s (s\<lparr>xs_result := r, xs_last_result := l\<rparr>)"
  "moved s (s\<lparr>xs_last_result := l, xs_last_published := b\<rparr>)"
  "moved s (s\<lparr>xs_last_result := l, xs_last_published := b, xs_result := r, xs_policy_emitted := c\<rparr>)"
  by (simp_all add: moved_def same)

lemma any_try: "steps moved Y m \<Longrightarrow> (\<And>e. Y e \<Longrightarrow> steps moved (\<lambda>_. True) (h e)) \<Longrightarrow> steps moved (\<lambda>_. True) (try_except m h)"
  by (rule moved.step_try [where Y = Y]) simp_all

lemma quiet_try: "steps moved Y m \<Longrightarrow> (\<And>e. Y e \<Longrightarrow> steps moved (\<lambda>e. \<not> loop_signal e) (h e)) \<Longrightarrow>
    steps moved (\<lambda>e. \<not> loop_signal e) (try_except m h)"
  by (rule moved.step_try [where Y = Y]) simp_all

lemma world_steps: "steps R X m \<Longrightarrow> steps moved X (world m)"
  by (rule steps_zoom) (simp_all add: moved_def)

lemma uuid_steps: "steps moved X (world (total (xp_uuid Q pre taken)))"
  by (rule world_steps [OF steps_total]) (rule uuid)

lemma fresh_uuid_steps: "steps moved X (bindE (world (total (xp_uuid Q pre taken))) (\<lambda>h. ret (pre @ h)))"
  by (rule moved.step_bind) (auto intro: uuid_steps moved.step_ret)

lemma event_id_steps: "steps moved (\<lambda>_. True) (event_id Q)"
  unfolding event_id_def
  by (intro any_try [where Y = "\<lambda>_. True"] moved.step_rules moved.step_lift
      world_steps new_id uuid_steps) simp_all

lemma suffixed_event_id_steps: "steps moved (\<lambda>_. True) (suffixed_event_id Q c k n)"
  by (induction n arbitrary: k)
    (auto intro!: moved.step_rules moved.step_modify split: sum.split)

lemma new_event_id_steps: "steps moved (\<lambda>_. True) (new_event_id Q)"
  unfolding new_event_id_def
  by (intro moved.step_rules event_id_steps suffixed_event_id_steps uuid_steps moved.step_modify) simp_all

lemma reserve_steps: "steps moved (\<lambda>e. \<not> loop_signal e) (reserve c)"
  unfolding reserve_def by (rule moved.step_modify) simp

lemma correlation_steps: "steps moved (\<lambda>e. \<not> loop_signal e) (correlation_attempts Q k n)"
proof (induction n arbitrary: k)
  case 0
  show ?case unfolding correlation_attempts.simps by (intro moved.step_rules uuid_steps reserve_steps)
next
  case (Suc n)
  have id: "steps moved (\<lambda>_. True) (bindE (world (xp_new_id Q (lit ''correlation'')))
      (\<lambda>i. lift_res (new_identifier CorrelationId (PlainStr i))))"
    by (intro moved.step_rules world_steps new_id moved.step_lift) simp
  show ?case unfolding correlation_attempts.simps
    by (intro moved.step_rules quiet_try [OF id] uuid_steps reserve_steps Suc.IH)
qed

lemma operation_id_steps: "steps moved (\<lambda>e. \<not> loop_signal e) (operation_id cfg Q c v)"
  unfolding operation_id_def new_correlation_id_def
  by (intro moved.step_rules correlation_steps reserve_steps)

lemma emit_steps: "steps moved (\<lambda>e. \<not> loop_signal e) (emit cfg Q ty cid pid payload)"
proof -
  have made: "steps moved (\<lambda>_. True) (bindE (make_event cfg Q ty cid pid payload) (\<lambda>ev. ret (Some ev)))"
    unfolding make_event_def
    by (intro moved.step_rules new_event_id_steps world_steps steps_total timestamp)
  have noted: "steps moved (\<lambda>e. \<not> loop_signal e) (note_error e)" for e
    unfolding note_error_def by (rule moved.step_modify) simp
  have out: "steps moved (\<lambda>e. \<not> loop_signal e) (publish cfg Q ev)" for ev
    unfolding publish_def
    by (intro moved.step_rules quiet_try [where Y = "\<lambda>_. True"] world_steps publish noted
        moved.step_raise) (simp_all add: publication_error_def loop_signal_def)
  show ?thesis unfolding emit_def
    by (intro moved.step_rules quiet_try [OF made] noted out)
qed

text \<open>The results the executor makes itself raise no signal when they are refused.\<close>

lemma lift_steps: "(\<And>e. r = Inl e \<Longrightarrow> argument_error e) \<Longrightarrow> steps moved (\<lambda>e. \<not> loop_signal e) (lift_res r)"
  by (rule moved.step_lift) (blast dest: argument_error_no_signal)

lemma set_result_steps: "(\<And>e. r = Inl e \<Longrightarrow> argument_error e) \<Longrightarrow> steps moved (\<lambda>e. \<not> loop_signal e) (set_result r)"
  unfolding set_result_def by (intro moved.step_rules lift_steps moved.step_modify) simp_all

lemma mark_policy_steps: "steps moved (\<lambda>e. \<not> loop_signal e) mark_policy"
  unfolding mark_policy_def by (rule moved.step_modify) simp

lemma refuse_steps: "(\<And>e. r = Inl e \<Longrightarrow> argument_error e) \<Longrightarrow>
    steps moved (\<lambda>e. \<not> loop_signal e) (refuse cfg Q name cid pid why r)"
  unfolding refuse_def policy_event_def by (intro moved.step_rules emit_steps mark_policy_steps set_result_steps)

lemma to_any: "steps moved X m \<Longrightarrow> steps moved (\<lambda>_. True) m"
  by (rule steps_mono) simp_all

lemma lift_any: "steps moved (\<lambda>_. True) (lift_res r)"
  by (rule moved.step_lift) simp

lemma raise_any: "steps moved (\<lambda>_. True) (raise e)"
  by (rule moved.step_raise) simp

lemma modify_any: "(\<And>s. moved s (f s)) \<Longrightarrow> steps moved (\<lambda>_. True) (modify f)"
  by (rule moved.step_modify)

lemma set_result_any: "steps moved (\<lambda>_. True) (set_result r)"
  unfolding set_result_def by (intro moved.step_rules lift_any modify_any) simp

lemmas emit_any = emit_steps [THEN to_any] and mark_policy_any = mark_policy_steps [THEN to_any]
lemmas any_steps = lift_any set_result_any emit_any mark_policy_any modify_any raise_any

lemma validate_call_steps: "steps moved (\<lambda>_. True) (validate_call cfg Q name tool arguments cid pid)"
proof -
  have tried: "steps moved (\<lambda>_. True) (bindE (world (xp_validate Q tool arguments)) (\<lambda>v. case v of JObj d \<Rightarrow> ret (Some d)
      | _ \<Rightarrow> raise (protocol_error INVALID_VALUE (lit ''tool validator did not return an object'') (lit ''$'') [])))"
    by (rule moved.step_bind [OF world_steps [OF validate]])
       (auto intro!: moved.step_rules any_steps split: json.split)
  show ?thesis unfolding validate_call_def refuse_def policy_event_def
    by (intro any_try [OF tried] moved.step_rules any_steps)
qed

lemma approval_steps: "steps moved (\<lambda>_. True) (approval cfg Q name parsed c)"
proof -
  have asked: "steps moved (\<lambda>_. True) (bindE (world (ask name parsed c)) (\<lambda>v. case v of
      JBool b \<Rightarrow> ret (if b then ALLOW else DENY, Some b, if b then lit ''approved'' else lit ''user_rejected'')
    | _ \<Rightarrow> raise (TypeError (lit ''approval response must be a boolean''))))" if "xp_approval Q = Some ask" for ask
    by (rule moved.step_bind [OF world_steps [OF approval [OF that]]])
       (auto intro!: moved.step_rules any_steps split: json.split)
  show ?thesis unfolding approval_def
    by (intro moved.step_rules) (auto intro!: any_try [OF asked] moved.step_rules)
qed

lemma body_steps: "steps moved (\<lambda>_. True) (execute_body cfg Q name v raw cid pid ok)"
proof -
  have enact: "steps moved (\<lambda>_. True) (enact cfg Q name tool d c r outcome)" for tool d c r outcome
    unfolding enact_def policy_event_def
    by (intro moved.step_rules any_steps world_steps run) simp_all
  have decide: "steps moved (\<lambda>_. True) (decide_and_run cfg Q name tool d c)" for tool d c
    unfolding decide_and_run_def
    by (intro moved.step_rules any_steps world_steps policy approval_steps enact)
  have guarded: "steps moved (\<lambda>_. True) (guarded_run cfg Q name tool d c)" for tool d c
    unfolding guarded_run_def refuse_def policy_event_def
    by (intro any_try [OF decide] moved.step_rules any_steps)
  show ?thesis unfolding execute_body_def refuse_def policy_event_def
    by (intro moved.step_rules any_steps validate_call_steps guarded)
qed

lemma finish_call_steps: "steps moved (\<lambda>e. \<not> loop_signal e) (finish_call cfg Q name cid pid started)"
proof -
  have time: "steps moved (\<lambda>e. \<not> loop_signal e)
      (try_except (bindE (world (xp_clock Q)) (\<lambda>t. ret (max 0 (t - started)))) (\<lambda>_. ret 0))"
    by (intro quiet_try [where Y = "\<lambda>_. True"] moved.step_rules moved.step_rules world_steps clock)
  show ?thesis unfolding finish_call_def result_event_def
    by (intro moved.step_rules time set_result_steps emit_steps lift_steps moved.step_modify)
       (auto dest: made_result_errors normalize_result_error projection_error)
qed

lemma execute_steps: "steps moved (\<lambda>e. \<not> loop_signal e) (execute cfg Q call arguments provider correlation)"
proof -
  have begun: "steps moved (\<lambda>e. \<not> loop_signal e) (started_clock Q)" unfolding started_clock_def
    by (intro quiet_try [where Y = "\<lambda>_. True"] moved.step_rules world_steps clock)
  have body: "steps moved (\<lambda>_. True) (execute_body cfg Q name v raw cid pid ok)" for name v raw cid pid ok
    by (rule body_steps)
  have guarded: "steps moved (\<lambda>e. \<not> loop_signal e)
      (try_except (execute_body cfg Q name v raw cid pid ok)
         (\<lambda>_. bindE (get xs_policy_emitted) (\<lambda>emitted.
            seqE (if \<not> emitted then policy_event cfg Q name cid pid DENY DENY None (lit ''executor_error'') else ret ())
              (set_result (executor_error_result cid pid (Some name) ''executor_error'' None)))))" for name v raw cid pid ok
    unfolding policy_event_def
    by (intro quiet_try [OF body] moved.step_rules emit_steps set_result_steps)
       (auto dest: made_result_errors)
  show ?thesis unfolding execute_def tool_call_event_def Let_def
    by (intro moved.step_rules begun operation_id_steps emit_steps guarded finish_call_steps moved.step_modify)
       (auto intro!: moved.step_rules moved.step_raise split: exec_value.split)
qed

lemma skip_steps: "steps moved (\<lambda>e. \<not> loop_signal e) (skip cfg Q tool arguments reason status provider correlation)"
proof -
  have id: "steps moved (\<lambda>e. \<not> loop_signal e) (new_correlation_id Q)"
    unfolding new_correlation_id_def by (rule correlation_steps)
  show ?thesis unfolding skip_def tool_call_event_def policy_event_def result_event_def Let_def
    by (intro moved.step_rules id reserve_steps emit_steps lift_steps moved.step_modify
        moved.step_raise)
       (auto simp: loop_signal_def dest: made_result_errors projection_error)
qed

end

end
