(* ===== verification/AgentLoop.thy ===== *)
theory AgentLoop
  imports Executor Compactor
begin

text \<open>
  The agent loop (\<open>agent_loop.py\<close>): the session's start and end, the model request with its
  context preparation, the planning and execution of the declared calls, and the turn.

  The loop owns a \<open>ToolExecutor\<close>; its state (\<open>Executor\<close>) is a field of the loop's state, and
  the world the executor acts on holds what both share: the publisher's last sequence, the
  loop's state word, which the approval port changes, and whether the session is closed.
  The injected collaborators (\<open>loop_ports\<close>) are effects on the outside world.  A
  \<open>KeyboardInterrupt\<close> stands for the exceptions that are no \<open>Exception\<close>.  The readings of the
  monotonic clock and of the calendar do not raise.
\<close>

section \<open>Data\<close>

definition default_max_steps :: int where "default_max_steps = 32"
definition default_max_tool_calls :: int where "default_max_tool_calls = 64"
definition default_max_protocol_errors :: int where "default_max_protocol_errors = 3"
definition default_max_wall_seconds :: rat where "default_max_wall_seconds = 900"

definition invalid_provider_diagnostics :: "str list" where
  "invalid_provider_diagnostics =
     map lit [''missing_tool_call_id'', ''invalid_tool_call_id'', ''duplicate_tool_call_id'']"

record PlannedToolCall =
  pc_call :: NormalizedToolCall
  pc_correlation_id :: str
  pc_context_tool_call_id :: str

record AgentLoopResult =
  ar_state :: RuntimeState
  ar_assistant_text :: str
  ar_reason :: "str option"
  ar_limit_reason :: "LimitReason option"
  ar_error_type :: "str option"
  ar_budget :: jobj

text \<open>What the executor's ports act on.\<close>

record 'w loop_world =
  lw_world :: 'w
  lw_last_sequence :: "int option"
  lw_state :: RuntimeState
  lw_session_closed :: bool

record 'w loop_state =
  al_exec :: "'w loop_world exec_state"
  al_context :: ContextState
  al_budget :: BudgetTracker
  al_session_started :: bool
  al_environment_started :: bool
  al_turn_active :: bool
  al_last_assistant_text :: str
  al_issued_correlations :: "str set"
  al_pending_plans :: "PlannedToolCall list"

text \<open>\<open>lp_exec\<close> are the executor's own collaborators, whose publisher and approval port the loop
  wraps.  \<open>lp_publish\<close> is the emitter: it answers with the report of the emission, which it
  raises as an \<open>EventDispatchError\<close> unless it succeeded; another exception is raised as it is.\<close>

record 'w loop_ports =
  lp_exec :: "'w exec_ports"
  lp_publish :: "PendingEvent \<Rightarrow> ('w, EmissionReport) effect"
  lp_clock :: "'w \<Rightarrow> 'w \<times> rat"
  lp_signal :: "'w \<Rightarrow> CancellationSignal"
  lp_set_signal :: "CancellationSignal \<Rightarrow> 'w \<Rightarrow> 'w"
  lp_start :: "('w, unit) effect"
  lp_close :: "('w, unit) effect"
  lp_runtime_active :: "'w \<Rightarrow> str list"
  lp_active_names :: "'w \<Rightarrow> str list"
  lp_active_schemas :: "'w \<Rightarrow> jobj list"
  lp_complete :: "message list \<Rightarrow> jobj list \<Rightarrow> jobj \<Rightarrow> ('w, NormalizedAssistantResponse) effect"
  lp_stack :: "exn \<Rightarrow> 'w \<Rightarrow> json list"

text \<open>The session, agent and parent ids, the output limit and the platform are the executor's.\<close>

record loop_config =
  lc_exec :: exec_config
  lc_builder :: ContextBuilder
  lc_compactor :: Compactor
  lc_model_parameters :: jobj
  lc_max_compactions_per_request :: nat

abbreviation lc_platform :: "loop_config \<Rightarrow> platform" where
  "lc_platform cfg \<equiv> xc_platform (lc_exec cfg)"

section \<open>Effects of the loop\<close>

text \<open>\<open>try: m except BaseException: h\<close>.\<close>

definition try_base :: "('s, 'a) effect \<Rightarrow> (exn \<Rightarrow> ('s, 'a) effect) \<Rightarrow> ('s, 'a) effect" where
  "try_base m h s = (case m s of (s', Inl e) \<Rightarrow> h e s' | (s', Inr a) \<Rightarrow> (s', Inr a))"

lemma wp_try_base [wp_simps]: "wp (try_base m h) Q E s = wp m Q (\<lambda>e. wp (h e) Q E) s"
  by (auto simp: wp_def try_base_def split: prod.split sum.split)

abbreviation inner :: "('w, 'a) effect \<Rightarrow> ('w loop_world, 'a) effect" where
  "inner m \<equiv> zoom lw_world (\<lambda>w s. s\<lparr>lw_world := w\<rparr>) m"

abbreviation on_exec :: "('w loop_world exec_state, 'a) effect \<Rightarrow> ('w loop_state, 'a) effect" where
  "on_exec m \<equiv> zoom al_exec (\<lambda>x s. s\<lparr>al_exec := x\<rparr>) m"

definition on_shared :: "('w loop_world, 'a) effect \<Rightarrow> ('w loop_state, 'a) effect" where
  "on_shared m = on_exec (world m)"

definition on_world :: "('w, 'a) effect \<Rightarrow> ('w loop_state, 'a) effect" where
  "on_world m = on_shared (inner m)"

abbreviation on_context :: "(ContextState, 'a) effect \<Rightarrow> ('w loop_state, 'a) effect" where
  "on_context m \<equiv> zoom al_context (\<lambda>c s. s\<lparr>al_context := c\<rparr>) m"

abbreviation al_shared :: "'w loop_state \<Rightarrow> 'w loop_world" where
  "al_shared s \<equiv> xs_world (al_exec s)"

abbreviation al_world :: "'w loop_state \<Rightarrow> 'w" where
  "al_world s \<equiv> lw_world (al_shared s)"

definition update_budget :: "(BudgetTracker \<Rightarrow> BudgetTracker res) \<Rightarrow> ('w loop_state, unit) effect" where
  "update_budget f =
     bindE (get al_budget) (\<lambda>b. bindE (lift_res (f b)) (\<lambda>b'. modify (\<lambda>s. s\<lparr>al_budget := b'\<rparr>)))"

definition set_state :: "RuntimeState \<Rightarrow> ('w loop_state, unit) effect" where
  "set_state st = on_shared (modify (\<lambda>s. s\<lparr>lw_state := st\<rparr>))"

section \<open>The executor's ports\<close>

text \<open>\<open>_StatefulApprovalPort.request_approval\<close>.\<close>

definition request_approval :: "('w, json) effect \<Rightarrow> ('w loop_world, json) effect" where
  "request_approval ask =
     seqE (modify (\<lambda>s. s\<lparr>lw_state := WAITING_FOR_APPROVAL\<rparr>))
       (bindE (try_finally (inner ask)
                 (modify (\<lambda>s. if lw_session_closed s then s else s\<lparr>lw_state := RUNNING\<rparr>))) (\<lambda>v.
        case v of
          JBool b \<Rightarrow> ret (JBool b)
        | _ \<Rightarrow> raise (TypeError (lit ''approval response must be a boolean''))))"

text \<open>A JSON value as the producer's payload holds it.\<close>

fun obj_of :: "json \<Rightarrow> pyobj" where
  "obj_of JNull = ONone"
| "obj_of (JBool b) = OBool b"
| "obj_of (JInt i) = OInt i"
| "obj_of (JFloat f) = OFloat f"
| "obj_of (JStr s) = OStr s"
| "obj_of (JArr xs) = OList (map obj_of xs)"
| "obj_of (JObj d) = OMap (map (\<lambda>p. (KStr (fst p), obj_of (snd p))) d)"

definition payload_of :: "jobj \<Rightarrow> (pykey \<times> pyobj) list" where
  "payload_of d = map (\<lambda>p. (KStr (fst p), obj_of (snd p))) d"

definition lifecycle_pending :: "ToolLifecycleEvent \<Rightarrow> PendingEvent" where
  "lifecycle_pending e =
     \<lparr>pe_session_id = JStr (le_session_id e), pe_agent_id = JStr (le_agent_id e),
      pe_type = JStr (event_type_str (le_type e)), pe_payload = payload_of (le_payload e),
      pe_event_id = JStr (le_event_id e), pe_timestamp = JStr (le_timestamp e),
      pe_parent_agent_id = json_opt_str (le_parent_agent_id e),
      pe_correlation_id = JStr (le_correlation_id e),
      pe_provider_tool_call_id = json_opt_str (le_provider_tool_call_id e), pe_schema_version = 1\<rparr>"

text \<open>The canonical event of a report: an observer's failure is tolerated, the store's is not.\<close>

definition stored_event :: "EmissionReport \<Rightarrow> EventEnvelope res" where
  "stored_event r =
     (case er_event r of
        Some e \<Rightarrow> Inr e
      | None \<Rightarrow>
          Inl (if report_succeeded r
               then RuntimeError (lit ''event publication returned no canonical event'') else dispatch_error))"

text \<open>\<open>_StoreFirstToolEventPublisher.publish\<close>.\<close>

definition store_first_publish :: "'w loop_ports \<Rightarrow> ToolLifecycleEvent \<Rightarrow> ('w loop_world, unit) effect" where
  "store_first_publish P ev =
     seqE (modify (\<lambda>s. s\<lparr>lw_last_sequence := None\<rparr>))
       (bindE (inner (lp_publish P (lifecycle_pending ev))) (\<lambda>r.
        bindE (lift_res (stored_event r)) (\<lambda>e.
        modify (\<lambda>s. s\<lparr>lw_last_sequence := Some (ev_sequence e)\<rparr>))))"

definition outer_total :: "('w \<Rightarrow> 'w \<times> 'a) \<Rightarrow> 'w loop_world \<Rightarrow> 'w loop_world \<times> 'a" where
  "outer_total f s = (case f (lw_world s) of (w, a) \<Rightarrow> (s\<lparr>lw_world := w\<rparr>, a))"

text \<open>The ports of the \<open>ToolExecutor\<close> that \<open>__init__\<close> makes.\<close>

definition executor_ports :: "'w loop_ports \<Rightarrow> 'w loop_world exec_ports" where
  "executor_ports P =
     (let X = lp_exec P in
      \<lparr>xp_new_id = (\<lambda>k. inner (xp_new_id X k)),
       xp_uuid = (\<lambda>pre taken. outer_total (xp_uuid X pre taken)),
       xp_clock = inner (xp_clock X),
       xp_timestamp = outer_total (xp_timestamp X),
       xp_registered_names = (\<lambda>s. xp_registered_names X (lw_world s)),
       xp_validate = (\<lambda>n a. inner (xp_validate X n a)),
       xp_execute = (\<lambda>n d c. inner (xp_execute X n d c)),
       xp_policy = (\<lambda>n d c. inner (xp_policy X n d c)),
       xp_approval = map_option (\<lambda>ask n d c. request_approval (ask n d c)) (xp_approval X),
       xp_approval_interactive = xp_approval_interactive X,
       xp_publish = Some (store_first_publish P)\<rparr>)"

section \<open>Limits and identifiers\<close>

text \<open>\<open>_apply_default_limits\<close>; \<open>now\<close> is the clock.\<close>

definition apply_default_limits :: "rat \<Rightarrow> BudgetTracker \<Rightarrow> BudgetTracker" where
  "apply_default_limits now b =
     (let wall = (case max_wall_seconds b of None \<Rightarrow> default_max_wall_seconds | Some w \<Rightarrow> w);
          started = (case started_at b of None \<Rightarrow> now | Some t \<Rightarrow> t) in
      b\<lparr>max_steps := Some (case max_steps b of None \<Rightarrow> default_max_steps | Some n \<Rightarrow> n),
        max_tool_calls := Some (case max_tool_calls b of None \<Rightarrow> default_max_tool_calls | Some n \<Rightarrow> n),
        max_protocol_errors := Some (case max_protocol_errors b of None \<Rightarrow> default_max_protocol_errors | Some n \<Rightarrow> n),
        max_wall_seconds := Some wall,
        deadline := Some (case deadline b of None \<Rightarrow> started + wall | Some d \<Rightarrow> d)\<rparr>)"

fun suffixed_correlation :: "str \<Rightarrow> str set \<Rightarrow> nat \<Rightarrow> nat \<Rightarrow> str option" where
  "suffixed_correlation base issued k 0 = None"
| "suffixed_correlation base issued k (Suc n) =
     (case new_identifier CorrelationId (PlainStr (base @ lit ''_'' @ dec k)) of
        Inl _ \<Rightarrow> None
      | Inr c \<Rightarrow> if c \<notin> issued then Some c else suffixed_correlation base issued (Suc k) n)"

definition uuid_correlation :: "'w loop_ports \<Rightarrow> str set \<Rightarrow> ('w loop_state, str) effect" where
  "uuid_correlation P issued =
     bindE (on_world (total (xp_uuid (lp_exec P) (lit ''correlation_'') issued)))
       (\<lambda>h. ret (lit ''correlation_'' @ h))"

text \<open>\<open>_new_correlation_id\<close>.\<close>

definition loop_correlation_id :: "'w loop_ports \<Rightarrow> ('w loop_state, str) effect" where
  "loop_correlation_id P =
     bindE (try_except
        (bindE (on_world (xp_new_id (lp_exec P) (lit ''correlation'')))
           (\<lambda>i. lift_res (new_identifier CorrelationId (PlainStr i))))
        (\<lambda>_. uuid_correlation P {})) (\<lambda>base.
     bindE (get al_issued_correlations) (\<lambda>issued.
     bindE (if base \<notin> issued then ret base
            else case suffixed_correlation base issued 1 1024 of
                   Some c \<Rightarrow> ret c
                 | None \<Rightarrow> uuid_correlation P issued) (\<lambda>c.
     seqE (modify (\<lambda>s. s\<lparr>al_issued_correlations := insert c issued\<rparr>)) (ret c))))"

section \<open>Events\<close>

definition pending_event :: "loop_config \<Rightarrow> str \<Rightarrow> EventType \<Rightarrow> jobj \<Rightarrow> PendingEvent" where
  "pending_event cfg stamp ty payload =
     \<lparr>pe_session_id = JStr (xc_session_id (lc_exec cfg)), pe_agent_id = JStr (xc_agent_id (lc_exec cfg)),
      pe_type = JStr (event_type_str ty), pe_payload = payload_of payload, pe_event_id = JNull,
      pe_timestamp = JStr stamp, pe_parent_agent_id = json_opt_str (xc_parent_agent_id (lc_exec cfg)),
      pe_correlation_id = JNull, pe_provider_tool_call_id = JNull, pe_schema_version = 1\<rparr>"

text \<open>\<open>_emit\<close>; no caller passes it a correlation or a provider id.\<close>

definition loop_emit :: "loop_config \<Rightarrow> 'w loop_ports \<Rightarrow> EventType \<Rightarrow> jobj \<Rightarrow> ('w loop_state, EventEnvelope) effect" where
  "loop_emit cfg P ty payload =
     bindE (on_world (total (xp_timestamp (lp_exec P)))) (\<lambda>stamp.
     bindE (on_world (lp_publish P (pending_event cfg stamp ty payload))) (\<lambda>r. lift_res (stored_event r)))"

text \<open>\<open>_emit_best_effort\<close>.\<close>

definition emit_best_effort :: "loop_config \<Rightarrow> 'w loop_ports \<Rightarrow> EventType \<Rightarrow> jobj \<Rightarrow> ('w loop_state, unit) effect" where
  "emit_best_effort cfg P ty payload =
     try_base (bindE (loop_emit cfg P ty payload) (\<lambda>_. ret ())) (\<lambda>_. ret ())"

definition budget_snapshot :: "'w loop_ports \<Rightarrow> ('w loop_state, json) effect" where
  "budget_snapshot P =
     bindE (on_world (total (lp_clock P))) (\<lambda>now. bindE (get al_budget) (\<lambda>b. ret (JObj (snapshot b now))))"

section \<open>The session\<close>

definition state_json :: "RuntimeState \<Rightarrow> json" where
  "state_json st = JStr (runtime_state_str st)"

text \<open>\<open>_start_session\<close>.\<close>

definition start_session :: "loop_config \<Rightarrow> 'w loop_ports \<Rightarrow> ('w loop_state, unit) effect" where
  "start_session cfg P =
     bindE (get al_session_started) (\<lambda>b.
     if b then ret ()
     else
       seqE (modify (\<lambda>s. s\<lparr>al_environment_started := True\<rparr>))
       (seqE (on_world (lp_start P))
       (bindE (loop_emit cfg P SESSION_START [(lit ''state'', state_json RUNNING)]) (\<lambda>_.
        bindE (get (\<lambda>s. lp_active_names P (al_world s))) (\<lambda>names.
        bindE (loop_emit cfg P AGENT_START
                 [(lit ''state'', state_json RUNNING), (lit ''active_tools'', JArr (map JStr names))]) (\<lambda>_.
        modify (\<lambda>s. s\<lparr>al_session_started := True\<rparr>)))))))"

text \<open>\<open>_close_environment\<close>.\<close>

definition close_environment :: "'w loop_ports \<Rightarrow> ('w loop_state, unit) effect" where
  "close_environment P =
     bindE (get al_environment_started) (\<lambda>b.
     if \<not> b then ret ()
     else try_finally (on_world (lp_close P)) (modify (\<lambda>s. s\<lparr>al_environment_started := False\<rparr>)))"

definition end_payload :: "RuntimeState \<Rightarrow> str \<Rightarrow> json \<Rightarrow> jobj" where
  "end_payload st reason budget =
     [(lit ''state'', state_json st), (lit ''reason'', JStr reason), (lit ''budget'', budget)]"

text \<open>\<open>_finish_session\<close>.\<close>

definition finish_session :: "loop_config \<Rightarrow> 'w loop_ports \<Rightarrow> RuntimeState \<Rightarrow> str \<Rightarrow> ('w loop_state, unit) effect" where
  "finish_session cfg P st reason =
     bindE (get (\<lambda>s. lw_session_closed (al_shared s))) (\<lambda>closed.
     if closed then ret ()
     else
       bindE (budget_snapshot P) (\<lambda>b1.
       seqE (emit_best_effort cfg P AGENT_END (end_payload st reason b1))
       (bindE (budget_snapshot P) (\<lambda>b2.
        seqE (emit_best_effort cfg P SESSION_END (end_payload st reason b2))
        (seqE (try_base (close_environment P) (\<lambda>_. ret ()))
          (on_shared (modify (\<lambda>s. s\<lparr>lw_session_closed := True\<rparr>))))))))"

text \<open>\<open>AgentLoop.close\<close>.\<close>

definition close_loop :: "loop_config \<Rightarrow> 'w loop_ports \<Rightarrow> str \<Rightarrow> ('w loop_state, unit) effect" where
  "close_loop cfg P reason =
     (if reason = [] then raise (ValueError (lit ''close reason must be a non-empty string''))
      else
        bindE (get al_shared) (\<lambda>w.
        if lw_session_closed w then ret ()
        else finish_session cfg P (if lw_state w = RUNNING then COMPLETED_TURN else lw_state w) reason))"

section \<open>Messages\<close>

definition loop_append :: "message \<Rightarrow> int option \<Rightarrow> ('w loop_state, unit) effect" where
  "loop_append m sequence =
     bindE (lift_res (detach_message m)) (\<lambda>m'.
     on_context (\<lambda>c. case append_message c m' sequence of Inl e \<Rightarrow> (c, Inl e) | Inr c' \<Rightarrow> (c', Inr ())))"

definition plan_for :: "NormalizedToolCall \<Rightarrow> str \<Rightarrow> PlannedToolCall" where
  "plan_for call cid =
     \<lparr>pc_call = call, pc_correlation_id = cid,
      pc_context_tool_call_id =
        (if list_ex (\<lambda>d. d \<in> set invalid_provider_diagnostics) (nc_diagnostics call) then cid
         else case nc_provider_tool_call_id call of Some p \<Rightarrow> p | None \<Rightarrow> cid)\<rparr>"

text \<open>\<open>_plan_calls\<close>.\<close>

fun plan_calls :: "'w loop_ports \<Rightarrow> NormalizedToolCall list \<Rightarrow> ('w loop_state, PlannedToolCall list) effect" where
  "plan_calls P [] = ret []"
| "plan_calls P (c # cs) =
     bindE (loop_correlation_id P) (\<lambda>cid. bindE (plan_calls P cs) (\<lambda>ps. ret (plan_for c cid # ps)))"

definition or_else :: "str option \<Rightarrow> str \<Rightarrow> str" where
  "or_else v d = (case v of None \<Rightarrow> d | Some s \<Rightarrow> if s = [] then d else s)"

definition declared_call :: "PlannedToolCall \<Rightarrow> json" where
  "declared_call p =
     JObj [(lit ''id'', JStr (pc_context_tool_call_id p)), (lit ''type'', JStr (lit ''function'')),
       (lit ''function'', JObj
          [(lit ''name'', JStr (or_else (nc_name (pc_call p)) (lit ''invalid_tool_name''))),
           (lit ''arguments'', JStr (nc_raw_arguments (pc_call p)))])]"

text \<open>\<open>_assistant_message\<close>.\<close>

definition assistant_message :: "NormalizedAssistantResponse \<Rightarrow> PlannedToolCall list \<Rightarrow> message" where
  "assistant_message r plans =
     [(lit ''role'', JStr (lit ''assistant'')), (lit ''content'', JStr (nr_text r))] @
     (if plans = [] then [] else [(lit ''tool_calls'', JArr (map declared_call plans))])"

definition planned_payload :: "str list \<Rightarrow> PlannedToolCall \<Rightarrow> json" where
  "planned_payload names p =
     JObj [(lit ''correlation_id'', JStr (pc_correlation_id p)),
       (lit ''provider_tool_call_id'', json_opt_str (nc_provider_tool_call_id (pc_call p))),
       (lit ''name'', JStr (case nc_name (pc_call p) of
            Some n \<Rightarrow> if n \<in> set names then n else lit ''<invalid-tool-name>''
          | None \<Rightarrow> lit ''<invalid-tool-name>'')),
       (lit ''raw_arguments'', JStr (nc_raw_arguments (pc_call p))),
       (lit ''diagnostics'', JArr (map JStr (nc_diagnostics (pc_call p))))]"

text \<open>\<open>_assistant_payload\<close>.\<close>

definition assistant_payload :: "NormalizedAssistantResponse \<Rightarrow> PlannedToolCall list \<Rightarrow> str list \<Rightarrow> jobj" where
  "assistant_payload r plans names =
     [(lit ''text'', JStr (nr_text r)), (lit ''finish_reason'', json_opt_str (nr_finish_reason r)),
      (lit ''usage'', (case nr_usage r of None \<Rightarrow> JNull | Some u \<Rightarrow> JObj (usage_to_dict u))),
      (lit ''diagnostics'', JArr (map JStr (nr_diagnostics r))),
      (lit ''tool_calls'', JArr (map (planned_payload names) plans))]"

text \<open>\<open>_tool_message\<close>.\<close>

definition tool_message :: "loop_config \<Rightarrow> ToolResult \<Rightarrow> str \<Rightarrow> message res" where
  "tool_message cfg r context_id =
     bindR (ToolResultProjection_from_result r (xc_output_limit (lc_exec cfg))) (\<lambda>p.
     bindR (json_dumps (pl_frepr (lc_platform cfg)) (JObj (ToolResultProjection_to_dict p))) (\<lambda>s.
     Inr [(lit ''role'', JStr (lit ''tool'')), (lit ''tool_call_id'', JStr context_id), (lit ''content'', JStr s)]))"

definition append_result :: "loop_config \<Rightarrow> PlannedToolCall \<Rightarrow> ToolResult \<Rightarrow> ('w loop_state, unit) effect" where
  "append_result cfg p r =
     bindE (lift_res (tool_message cfg r (pc_context_tool_call_id p))) (\<lambda>m.
     bindE (get (\<lambda>s. lw_last_sequence (al_shared s))) (\<lambda>sequence. loop_append m sequence))"

text \<open>\<open>_execute_plan\<close>: a missing or conflicting provider id reaches the executor as an empty one,
  which is invalid.\<close>

definition execute_plan :: "loop_config \<Rightarrow> 'w loop_ports \<Rightarrow> PlannedToolCall \<Rightarrow> ('w loop_state, ToolResult) effect" where
  "execute_plan cfg P p =
     (let call = pc_call p;
          provider = (if list_ex (\<lambda>d. d \<in> set invalid_provider_diagnostics) (nc_diagnostics call)
                      then Some (PlainStr [])
                      else map_option (Ident ProviderToolCallId) (nc_provider_tool_call_id call)) in
      on_exec (execute (lc_exec cfg) (executor_ports P) (Inl (JStr (or_else (nc_name call) [])))
        (Some (JStr (nc_raw_arguments call))) provider (Some (Ident CorrelationId (pc_correlation_id p)))))"

definition skip_plan ::
  "loop_config \<Rightarrow> 'w loop_ports \<Rightarrow> str \<Rightarrow> ToolResultStatus \<Rightarrow> PlannedToolCall \<Rightarrow> ('w loop_state, ToolResult) effect" where
  "skip_plan cfg P reason status p =
     on_exec (skip (lc_exec cfg) (executor_ports P) (JStr (or_else (nc_name (pc_call p)) []))
       (JStr (nc_raw_arguments (pc_call p))) reason status
       (map_option (Ident ProviderToolCallId) (nc_provider_tool_call_id (pc_call p)))
       (Some (Ident CorrelationId (pc_correlation_id p))))"

text \<open>\<open>_skip_pending_plans\<close>: each plan leaves the list before its skip.\<close>

fun skip_plans ::
  "loop_config \<Rightarrow> 'w loop_ports \<Rightarrow> str \<Rightarrow> ToolResultStatus \<Rightarrow> PlannedToolCall list \<Rightarrow> ('w loop_state, unit) effect" where
  "skip_plans cfg P reason status [] = ret ()"
| "skip_plans cfg P reason status (p # ps) =
     seqE (modify (\<lambda>s. s\<lparr>al_pending_plans := ps\<rparr>))
       (bindE (skip_plan cfg P reason status p) (\<lambda>r.
        seqE (append_result cfg p r) (skip_plans cfg P reason status ps)))"

definition skip_pending ::
  "loop_config \<Rightarrow> 'w loop_ports \<Rightarrow> string \<Rightarrow> ToolResultStatus \<Rightarrow> ('w loop_state, unit) effect" where
  "skip_pending cfg P reason status = bindE (get al_pending_plans) (skip_plans cfg P (lit reason) status)"

text \<open>\<open>_consume_published_result\<close>.\<close>

definition consume_published :: "loop_config \<Rightarrow> ('w loop_state, unit) effect" where
  "consume_published cfg =
     bindE (get al_pending_plans) (\<lambda>plans.
     bindE (get al_exec) (\<lambda>x.
     case plans of
       [] \<Rightarrow> ret ()
     | p # ps \<Rightarrow>
         if \<not> xs_last_published x then ret ()
         else
           (case xs_last_result x of
              None \<Rightarrow> ret ()
            | Some r \<Rightarrow>
                if tr_correlation_id r \<noteq> pc_correlation_id p then ret ()
                else seqE (modify (\<lambda>s. s\<lparr>al_pending_plans := ps\<rparr>)) (append_result cfg p r))))"

section \<open>Checks\<close>

text \<open>\<open>_validate_active_view\<close>.\<close>

definition check_active_view :: "'w loop_ports \<Rightarrow> ('w loop_state, unit) effect" where
  "check_active_view P =
     bindE (get al_world) (\<lambda>w.
     if set (lp_runtime_active P w) \<noteq> set (lp_active_names P w)
     then raise (OtherError (lit ''ActiveToolsMismatchError'')
            (lit ''AgentRuntime.active_tools must equal the Registry active view''))
     else ret ())"

definition check_interrupt :: "'w loop_ports \<Rightarrow> ('w loop_state, unit) effect" where
  "check_interrupt P = bindE (get (\<lambda>s. lp_signal P (al_world s))) (\<lambda>sig. lift_res (throw_if_cancelled sig))"

definition deadline_passed :: "'w loop_ports \<Rightarrow> ('w loop_state, bool) effect" where
  "deadline_passed P =
     bindE (get al_budget) (\<lambda>b.
     case deadline b of
       None \<Rightarrow> ret False
     | Some d \<Rightarrow> bindE (on_world (total (lp_clock P))) (\<lambda>now. ret (d \<le> now)))"

text \<open>\<open>_current_limit\<close>.\<close>

definition current_limit :: "'w loop_ports \<Rightarrow> ('w loop_state, LimitReason option) effect" where
  "current_limit P =
     bindE (get al_budget) (\<lambda>b.
     if reached (model_steps b) (max_steps b) then ret (Some MODEL_STEPS)
     else if 0 < protocol_errors b \<and> reached (protocol_errors b) (max_protocol_errors b)
     then ret (Some PROTOCOL_ERRORS)
     else bindE (deadline_passed P) (\<lambda>late. ret (if late then Some WALL_TIME else None)))"

text \<open>\<open>_record_usage\<close> and \<open>_record_compaction_usage\<close>.\<close>

definition record_usage :: "NormalizedUsage option \<Rightarrow> ('w loop_state, unit) effect" where
  "record_usage u =
     (case u of
        None \<Rightarrow> ret ()
      | Some u' \<Rightarrow>
          update_budget (\<lambda>b. record_tokens b
            (case nu_input_tokens u' of Some n \<Rightarrow> n | None \<Rightarrow> 0)
            (case nu_output_tokens u' of Some n \<Rightarrow> n | None \<Rightarrow> 0)))"

text \<open>\<open>_check_context_preparation_allowed\<close>.\<close>

definition check_preparation :: "'w loop_ports \<Rightarrow> ('w loop_state, unit) effect" where
  "check_preparation P =
     seqE (check_interrupt P)
       (bindE (deadline_passed P) (\<lambda>late.
        if late then raise (LoopLimitReached (limit_reason_str WALL_TIME)) else ret ()))"

end
