(* ===== verification/AgentTurn.thy ===== *)
theory AgentTurn
  imports AgentLoop
begin

text \<open>
  The turn of the agent loop (\<open>agent_loop.py\<close>): the preparation of the context with its
  compactions, the model request with its one recovery from an overflow, the ends of a turn,
  and \<open>run_turn\<close>.  The loop over the model steps has fuel; \<open>run_turn\<close> answers None when it
  runs out.
\<close>

section \<open>Compaction\<close>

definition compaction_payload :: "CompactionOutcome \<Rightarrow> int \<Rightarrow> int option \<Rightarrow> jobj" where
  "compaction_payload outc covered degraded =
     [(lit ''status'', JStr (if co_succeeded outc then lit ''success'' else lit ''failed'')),
      (lit ''forced'', JBool (co_forced outc)),
      (lit ''source_start_sequence'', JInt (co_source_start_sequence outc)),
      (lit ''source_end_sequence'', JInt (co_source_end_sequence outc)),
      (lit ''covered_through_sequence'', JInt covered),
      (lit ''degraded_through_sequence'', json_opt_int degraded),
      (lit ''summary'', json_opt_str (co_summary outc)),
      (lit ''error_type'', json_opt_str (co_error_type outc)),
      (lit ''reason'', json_opt_str (co_reason outc))]"

text \<open>\<open>_emit_compaction\<close>.\<close>

definition emit_compaction ::
  "loop_config \<Rightarrow> 'w loop_ports \<Rightarrow> CompactionOutcome \<Rightarrow> int option \<Rightarrow> ('w loop_state, unit) effect" where
  "emit_compaction cfg P outc degraded =
     bindE (get (\<lambda>s. covered_through_sequence (al_context s))) (\<lambda>covered.
     bindE (loop_emit cfg P COMPACTION (compaction_payload outc covered degraded)) (\<lambda>_. ret ()))"

text \<open>\<open>restore_projection_state\<close>: the four fields as they were in \<open>c0\<close>.\<close>

definition restore_projection :: "ContextState \<Rightarrow> ('w loop_state, unit) effect" where
  "restore_projection c0 =
     modify (\<lambda>s. s\<lparr>al_context := (al_context s)
       \<lparr>latest_summary := latest_summary c0, covered_through_sequence := covered_through_sequence c0,
        degraded_through_sequence := degraded_through_sequence c0, degraded_notice := degraded_notice c0\<rparr>\<rparr>)"

definition compact_on_state ::
  "loop_config \<Rightarrow> 'w loop_ports \<Rightarrow> CompactionPlan \<Rightarrow> ('w loop_state, CompactionOutcome) effect" where
  "compact_on_state cfg P p s =
     (case compact (lc_platform cfg) (lc_compactor cfg) (lp_complete P) p (al_context s, al_world s) of
        ((c, w), r) \<Rightarrow>
          (s\<lparr>al_context := c, al_exec := (al_exec s)\<lparr>xs_world := (al_shared s)\<lparr>lw_world := w\<rparr>\<rparr>\<rparr>, r))"

definition fallback_groups :: "CompactionPlan \<Rightarrow> CompactionOutcome \<Rightarrow> MessageGroup list" where
  "fallback_groups p outc =
     (let selected = filter (\<lambda>g. end_sequence g \<le> co_source_end_sequence outc) (pn_groups p) in
      if selected = [] then [hd (pn_groups p)] else selected)"

text \<open>An emission after which the projection is restored when it raises.\<close>

definition emit_or_restore ::
  "loop_config \<Rightarrow> 'w loop_ports \<Rightarrow> ContextState \<Rightarrow> CompactionOutcome \<Rightarrow> int option \<Rightarrow> ('w loop_state, unit) effect" where
  "emit_or_restore cfg P c0 outc degraded =
     try_base (emit_compaction cfg P outc degraded) (\<lambda>e. seqE (restore_projection c0) (raise e))"

definition degrade ::
  "loop_config \<Rightarrow> 'w loop_ports \<Rightarrow> ContextState \<Rightarrow> CompactionPlan \<Rightarrow> CompactionOutcome \<Rightarrow> ('w loop_state, unit) effect" where
  "degrade cfg P c0 p outc =
     bindE (lift_res (mk_CompactionPlan (pn_old_summary p) (fallback_groups p outc) (pn_forced p)
              (pn_previous_covered_sequence p))) (\<lambda>fallback.
     bindE (on_context (apply_degraded_fallback (lc_platform cfg) (lc_builder cfg) fallback)) (\<lambda>_.
     bindE (get (\<lambda>s. degraded_through_sequence (al_context s))) (\<lambda>through.
     emit_or_restore cfg P c0 outc (Some through))))"

text \<open>\<open>_compact_once\<close>.\<close>

definition compact_once :: "loop_config \<Rightarrow> 'w loop_ports \<Rightarrow> bool \<Rightarrow> ('w loop_state, bool) effect" where
  "compact_once cfg P forced =
     seqE (check_preparation P)
     (bindE (on_context (plan_compaction (lc_builder cfg) forced)) (\<lambda>plan.
      case plan of
        None \<Rightarrow> ret False
      | Some p \<Rightarrow>
          bindE (get al_context) (\<lambda>c0.
          bindE (compact_on_state cfg P p) (\<lambda>outc.
          seqE (record_usage (co_usage outc))
          (if co_succeeded outc
           then seqE (emit_or_restore cfg P c0 outc None) (seqE (check_preparation P) (ret True))
           else seqE (degrade cfg P c0 p outc) (seqE (check_preparation P) (ret False)))))))"

section \<open>The request's messages\<close>

definition loop_project :: "loop_config \<Rightarrow> jobj list \<Rightarrow> ('w loop_state, ContextProjection) effect" where
  "loop_project cfg schemas = on_context (project (lc_platform cfg) (lc_builder cfg) schemas)"

definition as_messages :: "ContextProjection \<Rightarrow> message list res" where
  "as_messages p = detach_all (cp_messages p)"

text \<open>The projection's messages, unless its estimate is beyond a bound.\<close>

definition messages_unless ::
  "(ContextEstimate \<Rightarrow> bool) \<Rightarrow> string \<Rightarrow> ContextProjection \<Rightarrow> ('w loop_state, message list) effect" where
  "messages_unless beyond reason p =
     (if beyond (cp_estimate p) then raise (ContextWindowExceeded (lit reason)) else lift_res (as_messages p))"

fun prepare_attempts ::
  "loop_config \<Rightarrow> 'w loop_ports \<Rightarrow> jobj list \<Rightarrow> nat \<Rightarrow> ('w loop_state, message list) effect" where
  "prepare_attempts cfg P schemas 0 =
     bindE (loop_project cfg schemas) (messages_unless needs_compaction ''context_compaction_attempt_limit_reached'')"
| "prepare_attempts cfg P schemas (Suc n) =
     seqE (check_preparation P)
     (bindE (loop_project cfg schemas) (\<lambda>p.
      if \<not> needs_compaction (cp_estimate p) then lift_res (as_messages p)
      else
        bindE (compact_once cfg P False) (\<lambda>progressed.
        if \<not> progressed
        then bindE (loop_project cfg schemas)
               (messages_unless exceeds_window ''context_window_exceeded_after_compaction_fallback'')
        else prepare_attempts cfg P schemas n)))"

text \<open>\<open>_prepare_context\<close>.\<close>

definition prepare_context :: "loop_config \<Rightarrow> 'w loop_ports \<Rightarrow> bool \<Rightarrow> ('w loop_state, message list) effect" where
  "prepare_context cfg P forced =
     bindE (get (\<lambda>s. lp_active_schemas P (al_world s))) (\<lambda>schemas.
     seqE (check_preparation P)
     (if forced
      then
        bindE (compact_once cfg P True) (\<lambda>_.
        bindE (loop_project cfg schemas)
          (messages_unless exceeds_window ''context_window_exceeded_after_forced_compaction''))
      else prepare_attempts cfg P schemas (lc_max_compactions_per_request cfg)))"

definition is_context_overflow :: "exn \<Rightarrow> bool" where
  "is_context_overflow e =
     (case e of ModelClientError category _ _ _ _ \<Rightarrow> category = lit ''context_overflow'' | _ \<Rightarrow> False)"

definition overflow_retry_payload :: jobj where
  "overflow_retry_payload =
     [(lit ''reason'', JStr (lit ''context_overflow'')), (lit ''forced_compaction'', JBool True),
      (lit ''attempt'', JInt 1), (lit ''max_attempts'', JInt 1)]"

text \<open>\<open>_complete_model_request\<close>.\<close>

definition complete_model_request ::
  "loop_config \<Rightarrow> 'w loop_ports \<Rightarrow> ('w loop_state, NormalizedAssistantResponse) effect" where
  "complete_model_request cfg P =
     bindE (get (\<lambda>s. lp_active_schemas P (al_world s))) (\<lambda>schemas.
     bindE (prepare_context cfg P False) (\<lambda>ms.
     seqE (check_preparation P)
     (bindE (try_base (bindE (on_world (lp_complete P ms schemas (lc_model_parameters cfg))) (\<lambda>r. ret (Some r)))
               (\<lambda>e. if is_context_overflow e then ret None else raise e)) (\<lambda>first.
      case first of
        Some r \<Rightarrow> ret r
      | None \<Rightarrow>
          bindE (loop_emit cfg P RETRY overflow_retry_payload) (\<lambda>_.
          bindE (prepare_context cfg P True) (\<lambda>forced_ms.
          seqE (check_preparation P)
            (on_world (lp_complete P forced_ms schemas (lc_model_parameters cfg)))))))))"

section \<open>The ends of a turn\<close>

text \<open>\<open>_result\<close>.\<close>

definition loop_result ::
  "'w loop_ports \<Rightarrow> RuntimeState \<Rightarrow> str option \<Rightarrow> LimitReason option \<Rightarrow> str option \<Rightarrow> ('w loop_state, AgentLoopResult) effect" where
  "loop_result P st reason limit error_type =
     seqE (set_state st)
     (bindE (get al_last_assistant_text) (\<lambda>t.
      bindE (budget_snapshot P) (\<lambda>b.
      ret \<lparr>ar_state = st, ar_assistant_text = t, ar_reason = reason, ar_limit_reason = limit,
           ar_error_type = error_type, ar_budget = (case b of JObj d \<Rightarrow> d | _ \<Rightarrow> [])\<rparr>)))"

definition turn_end_payload :: "RuntimeState \<Rightarrow> str \<Rightarrow> jobj \<Rightarrow> str \<Rightarrow> json \<Rightarrow> jobj" where
  "turn_end_payload st reason extra t budget =
     [(lit ''state'', state_json st), (lit ''reason'', JStr reason)] @ extra @
     [(lit ''assistant_text'', JStr t), (lit ''budget'', budget)]"

definition turn_ended :: "('w loop_state, unit) effect" where
  "turn_ended = modify (\<lambda>s. s\<lparr>al_turn_active := False\<rparr>)"

text \<open>\<open>_end_turn\<close>.\<close>

definition end_turn ::
  "loop_config \<Rightarrow> 'w loop_ports \<Rightarrow> RuntimeState \<Rightarrow> str \<Rightarrow> LimitReason option \<Rightarrow> ('w loop_state, AgentLoopResult) effect" where
  "end_turn cfg P st reason limit =
     bindE (get al_last_assistant_text) (\<lambda>t.
     bindE (budget_snapshot P) (\<lambda>b.
     bindE (loop_emit cfg P TURN_END
              (turn_end_payload st reason
                 [(lit ''limit_reason'', case limit of None \<Rightarrow> JNull | Some l \<Rightarrow> JStr (limit_reason_str l))] t b)) (\<lambda>_.
     seqE turn_ended
     (bindE (loop_result P st (Some reason) limit None) (\<lambda>r.
      seqE (if st \<noteq> COMPLETED_TURN then finish_session cfg P st reason else ret ()) (ret r))))))"

text \<open>\<open>_limit_result\<close>.\<close>

definition limit_result :: "loop_config \<Rightarrow> 'w loop_ports \<Rightarrow> LimitReason \<Rightarrow> ('w loop_state, AgentLoopResult) effect" where
  "limit_result cfg P l =
     end_turn cfg P LIMIT_REACHED (lit ''limit_reached:'' @ limit_reason_str l) (Some l)"

text \<open>\<open>_safe_error_payload\<close>; \<open>stack\<close> are the last frames of the traceback.\<close>

definition safe_error_payload :: "exn \<Rightarrow> json list \<Rightarrow> jobj" where
  "safe_error_payload e stack =
     (let base = [(lit ''state'', state_json FAILED), (lit ''error_type'', JStr (exn_class e)),
                  (lit ''message'', JStr (case e of ModelClientError _ _ m _ _ \<Rightarrow> m | _ \<Rightarrow> lit ''unhandled system exception'')),
                  (lit ''stack'', JArr stack)] in
      base @
      (case e of
         ModelClientError category code m status attempts \<Rightarrow>
           [(lit ''model_error'', JObj
              [(lit ''category'', JStr category), (lit ''code'', JStr code), (lit ''message'', JStr m),
               (lit ''status_code'', json_opt_int status), (lit ''attempts'', JInt attempts)])]
       | _ \<Rightarrow> []))"

text \<open>The turn's end event, when the turn is active, of a result that must come out.\<close>

definition turn_end_quietly :: "loop_config \<Rightarrow> 'w loop_ports \<Rightarrow> RuntimeState \<Rightarrow> str \<Rightarrow> ('w loop_state, unit) effect" where
  "turn_end_quietly cfg P st reason =
     bindE (get al_turn_active) (\<lambda>active.
     if \<not> active then ret ()
     else
       bindE (get al_last_assistant_text) (\<lambda>t.
       bindE (budget_snapshot P) (\<lambda>b. emit_best_effort cfg P TURN_END (turn_end_payload st reason [] t b))))"

text \<open>\<open>_failed_result\<close>.\<close>

definition failed_result :: "loop_config \<Rightarrow> 'w loop_ports \<Rightarrow> exn \<Rightarrow> ('w loop_state, AgentLoopResult) effect" where
  "failed_result cfg P e =
     (let reason = (if is_context_overflow e then lit ''context_overflow_after_forced_compaction''
                    else lit ''unhandled_system_exception'') in
      bindE (get (\<lambda>s. lp_stack P e (al_world s))) (\<lambda>stack.
      seqE (emit_best_effort cfg P ERROR (safe_error_payload e stack))
      (seqE (turn_end_quietly cfg P FAILED reason)
      (seqE turn_ended
      (bindE (loop_result P FAILED (Some reason) None (Some (exn_class e))) (\<lambda>r.
       seqE (finish_session cfg P FAILED reason) (ret r)))))))"

text \<open>\<open>_interrupted_result\<close>.\<close>

definition interrupted_result :: "loop_config \<Rightarrow> 'w loop_ports \<Rightarrow> str \<Rightarrow> ('w loop_state, AgentLoopResult) effect" where
  "interrupted_result cfg P reason =
     seqE (turn_end_quietly cfg P INTERRUPTED reason)
     (seqE turn_ended
     (bindE (loop_result P INTERRUPTED (Some reason) None None) (\<lambda>r.
      seqE (finish_session cfg P INTERRUPTED reason) (ret r))))"

definition protocol_notice :: message where
  "protocol_notice =
     system_message
       (lit ''Protocol error: return non-empty assistant text or one or more '' @
        lit ''native tool calls. Please correct the response.'')"

text \<open>\<open>_recover_empty_response\<close>.\<close>

definition recover_empty_response ::
  "loop_config \<Rightarrow> 'w loop_ports \<Rightarrow> NormalizedAssistantResponse \<Rightarrow> ('w loop_state, unit) effect" where
  "recover_empty_response cfg P r =
     seqE (update_budget (\<lambda>b. record_protocol_error b 1))
     (bindE (get al_budget) (\<lambda>b.
      bindE (loop_emit cfg P ERROR
        [(lit ''state'', state_json RUNNING), (lit ''recoverable'', JBool True),
         (lit ''reason'', JStr (lit ''empty_assistant_response'')),
         (lit ''diagnostics'', JArr (map JStr (nr_diagnostics r))),
         (lit ''consecutive_protocol_errors'', JInt (protocol_errors b))]) (\<lambda>ev.
      loop_append protocol_notice (Some (ev_sequence ev)))))"

section \<open>The turn\<close>

definition skip_for_limit ::
  "loop_config \<Rightarrow> 'w loop_ports \<Rightarrow> LimitReason \<Rightarrow> ('w loop_state, AgentLoopResult option) effect" where
  "skip_for_limit cfg P l =
     seqE (bindE (get al_pending_plans) (skip_plans cfg P (limit_reason_str l) ResDenied))
       (bindE (limit_result cfg P l) (\<lambda>r. ret (Some r)))"

definition cancel_reason_or :: "CancellationSignal \<Rightarrow> str \<Rightarrow> str" where
  "cancel_reason_or sig d = or_else (cs_reason sig) d"

definition skip_for_cancel ::
  "loop_config \<Rightarrow> 'w loop_ports \<Rightarrow> ('w loop_state, AgentLoopResult option) effect" where
  "skip_for_cancel cfg P =
     seqE (skip_pending cfg P ''interrupted'' ResCancelled)
       (bindE (get (\<lambda>s. lp_signal P (al_world s))) (\<lambda>sig.
        bindE (interrupted_result cfg P (cancel_reason_or sig (lit ''cancelled''))) (\<lambda>r. ret (Some r))))"

definition cancelled_now :: "'w loop_ports \<Rightarrow> ('w loop_state, bool) effect" where
  "cancelled_now P = get (\<lambda>s. cs_set (lp_signal P (al_world s)))"

definition protocol_limit_reached :: "('w loop_state, bool) effect" where
  "protocol_limit_reached = get (\<lambda>s. reached (protocol_errors (al_budget s)) (max_protocol_errors (al_budget s)))"

definition reset_protocol_errors :: "('w loop_state, unit) effect" where
  "reset_protocol_errors = modify (\<lambda>s. s\<lparr>al_budget := (al_budget s)\<lparr>protocol_errors := 0\<rparr>\<rparr>)"

text \<open>One call that is due: its budget, its execution, its message, and the protocol errors.\<close>

definition run_call :: "loop_config \<Rightarrow> 'w loop_ports \<Rightarrow> PlannedToolCall \<Rightarrow> ('w loop_state, unit) effect" where
  "run_call cfg P p =
     seqE (update_budget (\<lambda>b. record_tool_call b 1))
     (bindE (execute_plan cfg P p) (\<lambda>r.
      seqE (append_result cfg p r)
      (seqE (modify (\<lambda>s. s\<lparr>al_pending_plans := tl (al_pending_plans s)\<rparr>))
        (if tr_status r = ResInvalid then update_budget (\<lambda>b. record_protocol_error b 1)
         else reset_protocol_errors))))"

text \<open>\<open>while pending_plans\<close>; the argument is that list.\<close>

fun run_calls ::
  "loop_config \<Rightarrow> 'w loop_ports \<Rightarrow> PlannedToolCall list \<Rightarrow> ('w loop_state, AgentLoopResult option) effect" where
  "run_calls cfg P [] = ret None"
| "run_calls cfg P (p # ps) =
     seqE (check_interrupt P)
     (seqE (check_active_view P)
     (bindE (deadline_passed P) (\<lambda>late.
      if late then skip_for_limit cfg P WALL_TIME
      else
        bindE (get al_budget) (\<lambda>b.
        if reached (tool_calls b) (max_tool_calls b) then skip_for_limit cfg P TOOL_CALLS
        else
          seqE (run_call cfg P p)
          (bindE (cancelled_now P) (\<lambda>cancelled.
           if cancelled then skip_for_cancel cfg P
           else
             bindE protocol_limit_reached (\<lambda>over.
             if over then skip_for_limit cfg P PROTOCOL_ERRORS else run_calls cfg P ps)))))))"

text \<open>A response without calls: the completed turn, or the recovery from an empty one.\<close>

definition finish_text ::
  "loop_config \<Rightarrow> 'w loop_ports \<Rightarrow> NormalizedAssistantResponse \<Rightarrow> ('w loop_state, AgentLoopResult option) effect" where
  "finish_text cfg P r =
     (if nr_text r \<noteq> []
      then
        seqE reset_protocol_errors
          (bindE (end_turn cfg P COMPLETED_TURN (lit ''assistant_completed'') None) (\<lambda>x. ret (Some x)))
      else
        seqE (recover_empty_response cfg P r)
        (bindE protocol_limit_reached (\<lambda>over.
         if over then bindE (limit_result cfg P PROTOCOL_ERRORS) (\<lambda>x. ret (Some x)) else ret None)))"

text \<open>The response enters the log and the context, and its plans become pending.\<close>

definition accept_response ::
  "loop_config \<Rightarrow> 'w loop_ports \<Rightarrow> NormalizedAssistantResponse \<Rightarrow> ('w loop_state, PlannedToolCall list) effect" where
  "accept_response cfg P r =
     seqE (record_usage (nr_usage r))
     (bindE (plan_calls P (nr_tool_calls r)) (\<lambda>plans.
      bindE (get (\<lambda>s. xp_registered_names (lp_exec P) (al_world s))) (\<lambda>names.
      bindE (loop_emit cfg P ASSISTANT_MESSAGE (assistant_payload r plans names)) (\<lambda>ev.
      seqE (loop_append (assistant_message r plans) (Some (ev_sequence ev)))
      (seqE (modify (\<lambda>s. s\<lparr>al_pending_plans := plans,
                al_last_assistant_text := (if nr_text r \<noteq> [] then nr_text r else al_last_assistant_text s)\<rparr>))
        (ret plans))))))"

text \<open>One iteration of \<open>while True\<close>: the result the turn returns, or None to go on.\<close>

definition turn_step :: "loop_config \<Rightarrow> 'w loop_ports \<Rightarrow> ('w loop_state, AgentLoopResult option) effect" where
  "turn_step cfg P =
     seqE (check_interrupt P)
     (seqE (check_active_view P)
     (bindE (current_limit P) (\<lambda>limit.
      case limit of
        Some l \<Rightarrow> bindE (limit_result cfg P l) (\<lambda>r. ret (Some r))
      | None \<Rightarrow>
          seqE (update_budget (\<lambda>b. record_model_step b 1))
          (bindE (complete_model_request cfg P) (\<lambda>r.
           bindE (accept_response cfg P r) (\<lambda>plans.
           bindE (cancelled_now P) (\<lambda>cancelled.
           if cancelled then skip_for_cancel cfg P
           else
             bindE (deadline_passed P) (\<lambda>late.
             if late then skip_for_limit cfg P WALL_TIME
             else if plans = [] then finish_text cfg P r
             else run_calls cfg P plans))))))))"

fun turn_loop :: "loop_config \<Rightarrow> 'w loop_ports \<Rightarrow> nat \<Rightarrow> ('w loop_state, AgentLoopResult option) effect" where
  "turn_loop cfg P 0 = ret None"
| "turn_loop cfg P (Suc n) =
     bindE (turn_step cfg P) (\<lambda>r. case r of Some x \<Rightarrow> ret (Some x) | None \<Rightarrow> turn_loop cfg P n)"

definition start_turn :: "loop_config \<Rightarrow> 'w loop_ports \<Rightarrow> str \<Rightarrow> ('w loop_state, unit) effect" where
  "start_turn cfg P user_message =
     seqE (check_active_view P)
     (seqE (start_session cfg P)
     (bindE (loop_emit cfg P USER_MESSAGE [(lit ''text'', JStr user_message)]) (\<lambda>ev.
      loop_append [(lit ''role'', JStr (lit ''user'')), (lit ''content'', JStr user_message)]
        (Some (ev_sequence ev)))))"

fun limit_of_text :: "str \<Rightarrow> LimitReason" where
  "limit_of_text s =
     (if s = limit_reason_str MODEL_STEPS then MODEL_STEPS
      else if s = limit_reason_str TOOL_CALLS then TOOL_CALLS
      else if s = limit_reason_str PROTOCOL_ERRORS then PROTOCOL_ERRORS
      else if s = limit_reason_str WALL_TIME then WALL_TIME
      else CONTEXT_WINDOW)"

text \<open>The result published while an exception unwound, then a skip for every declaration left.\<close>

definition pair_pending ::
  "loop_config \<Rightarrow> 'w loop_ports \<Rightarrow> string \<Rightarrow> ToolResultStatus \<Rightarrow> ('w loop_state, unit) effect" where
  "pair_pending cfg P reason status = seqE (consume_published cfg) (skip_pending cfg P reason status)"

definition interrupt_turn :: "loop_config \<Rightarrow> 'w loop_ports \<Rightarrow> exn \<Rightarrow> ('w loop_state, AgentLoopResult) effect" where
  "interrupt_turn cfg P e =
     bindE (try_base (seqE (pair_pending cfg P ''interrupted'' ResCancelled) (ret None))
              (\<lambda>x. bindE (failed_result cfg P x) (\<lambda>r. ret (Some r)))) (\<lambda>failed.
     case failed of
       Some r \<Rightarrow> ret r
     | None \<Rightarrow>
         bindE (get (\<lambda>s. lp_signal P (al_world s))) (\<lambda>sig.
         bindE (if cs_set sig then ret sig
                else
                  bindE (lift_res (cancel sig (lit ''keyboard_interrupt''))) (\<lambda>(sig', _).
                  seqE (on_world (modify (lp_set_signal P sig'))) (ret sig'))) (\<lambda>sig'.
         interrupted_result cfg P (cancel_reason_or sig' (exn_class e)))))"

definition fail_turn :: "loop_config \<Rightarrow> 'w loop_ports \<Rightarrow> exn \<Rightarrow> ('w loop_state, AgentLoopResult) effect" where
  "fail_turn cfg P e =
     bindE (try_base (seqE (pair_pending cfg P ''agent_failed'' ResError) (ret e)) ret)
       (failed_result cfg P)"

text \<open>The handlers of \<open>run_turn\<close>, in the order of their clauses.\<close>

definition handle_turn :: "loop_config \<Rightarrow> 'w loop_ports \<Rightarrow> exn \<Rightarrow> ('w loop_state, AgentLoopResult) effect" where
  "handle_turn cfg P e =
     (case e of
        LoopLimitReached s \<Rightarrow> limit_result cfg P (limit_of_text s)
      | ContextWindowExceeded _ \<Rightarrow> limit_result cfg P CONTEXT_WINDOW
      | KeyboardInterrupt \<Rightarrow> interrupt_turn cfg P e
      | CancellationRequested _ \<Rightarrow> interrupt_turn cfg P e
      | _ \<Rightarrow> fail_turn cfg P e)"

definition begin_turn :: "('w loop_state, unit) effect" where
  "begin_turn =
     seqE (set_state RUNNING)
       (modify (\<lambda>s. s\<lparr>al_turn_active := True, al_last_assistant_text := [], al_pending_plans := []\<rparr>))"

text \<open>\<open>AgentLoop.run_turn\<close>.\<close>

definition run_turn ::
  "loop_config \<Rightarrow> 'w loop_ports \<Rightarrow> nat \<Rightarrow> str \<Rightarrow> ('w loop_state, AgentLoopResult option) effect" where
  "run_turn cfg P fuel user_message =
     (if strip user_message = [] then raise (ValueError (lit ''user_message must be a non-empty string''))
      else
        bindE (get (\<lambda>s. (lw_session_closed (al_shared s), al_turn_active s))) (\<lambda>(closed, active).
        if closed then raise (OtherError (lit ''LoopClosedError'') (lit ''Agent Loop session is closed''))
        else if active then raise (RuntimeError (lit ''Agent Loop is already running a turn''))
        else
          seqE begin_turn
            (try_base (seqE (start_turn cfg P user_message) (turn_loop cfg P fuel))
               (\<lambda>e. bindE (handle_turn cfg P e) (\<lambda>r. ret (Some r))))))"

section \<open>Making a loop\<close>

definition fresh_executor :: "'w \<Rightarrow> 'w loop_world exec_state" where
  "fresh_executor w =
     \<lparr>xs_world = \<lparr>lw_world = w, lw_last_sequence = None, lw_state = RUNNING, lw_session_closed = False\<rparr>,
      xs_issued = {}, xs_event_ids = {}, xs_errors = [], xs_last_result = None, xs_last_published = False,
      xs_result = XNone, xs_policy_emitted = False\<rparr>"

definition fresh_loop :: "'w \<Rightarrow> ContextState \<Rightarrow> BudgetTracker \<Rightarrow> 'w loop_state" where
  "fresh_loop w c b =
     \<lparr>al_exec = fresh_executor w, al_context = c, al_budget = b, al_session_started = False,
      al_environment_started = False, al_turn_active = False, al_last_assistant_text = [],
      al_issued_correlations = {}, al_pending_plans = []\<rparr>"

text \<open>The budget configuration that the builder and the compactor share.\<close>

definition same_configuration :: "Compactor \<Rightarrow> ContextBuilder \<Rightarrow> bool" where
  "same_configuration cm b \<longleftrightarrow>
     cm_context_window cm = cb_context_window b \<and> cm_reserved_output_tokens cm = cb_reserved_output_tokens b \<and>
     cm_estimator cm = cb_estimator b"

text \<open>\<open>AgentLoop.__init__\<close>, after the checks of its arguments' classes: \<open>builder\<close> and \<open>cmp\<close> are
  the injected dependencies, \<open>made\<close> is the builder made from the other arguments, \<open>store_id\<close>
  the store's session id, and \<open>now\<close> the budget's clock.\<close>

definition mk_agent_loop ::
  "exec_config \<Rightarrow> 'w loop_ports \<Rightarrow> str \<Rightarrow> jobj option \<Rightarrow> ContextBuilder option \<Rightarrow> Compactor option
     \<Rightarrow> ContextBuilder res \<Rightarrow> int \<Rightarrow> str option \<Rightarrow> rat \<Rightarrow> ContextState \<Rightarrow> BudgetTracker \<Rightarrow> 'w
     \<Rightarrow> (loop_config \<times> 'w loop_state) res" where
  "mk_agent_loop xc P prompt parameters builder cmp made max_compactions store_id now c b w =
     bindR (guardR (1 \<le> max_compactions)
              (ValueError (lit ''max_compactions_per_request must be a positive integer''))) (\<lambda>_.
     bindR (guardR (set (lp_runtime_active P w) = set (lp_active_names P w))
              (OtherError (lit ''ActiveToolsMismatchError'')
                 (lit ''AgentRuntime.active_tools must equal the Registry active view''))) (\<lambda>_.
     bindR (guardR (case store_id of None \<Rightarrow> True | Some i \<Rightarrow> i = xc_session_id xc)
              (ValueError (lit ''event store session ID does not match Runtime''))) (\<lambda>_.
     bindR (case builder of Some x \<Rightarrow> Inr x | None \<Rightarrow> made) (\<lambda>cb.
     bindR (guardR (cb_system_prompt cb = prompt)
              (ValueError (lit ''context_builder and explicit system_prompt disagree''))) (\<lambda>_.
     bindR (case cmp of
              Some x \<Rightarrow> Inr x
            | None \<Rightarrow> mk_Compactor prompt (cb_context_window cb) (cb_reserved_output_tokens cb)
                        (Some (cb_estimator cb)) parameters) (\<lambda>cm.
     bindR (guardR (cm_system_prompt cm = prompt)
              (ValueError (lit ''compactor and explicit system_prompt disagree''))) (\<lambda>_.
     bindR (guardR (same_configuration cm cb)
              (ValueError (lit ''compactor and context_builder budget configuration disagree''))) (\<lambda>_.
     Inr (\<lparr>lc_exec = xc, lc_builder = cb, lc_compactor = cm,
           lc_model_parameters = (case parameters of None \<Rightarrow> [] | Some d \<Rightarrow> d),
           lc_max_compactions_per_request = nat max_compactions\<rparr>,
          fresh_loop w c (apply_default_limits now b))))))))))"

end
