(* ===== verification/LoopFacts.thy ===== *)
theory LoopFacts
  imports Frames AgentTurn ContextFacts
begin

text \<open>
  The steps of the agent loop that keep the books: \<open>neutral\<close> relates two states of the loop
  between which no step was counted, no message was appended, no plan was taken, and neither
  the turn nor the session ended.  Everything the loop does is neutral but for the few
  operations whose names say otherwise, and that holds on every exit, exceptions included.
\<close>

definition counters :: "BudgetTracker \<Rightarrow> int option \<times> int option \<times> int \<times> int" where
  "counters b = (max_steps b, max_tool_calls b, model_steps b, tool_calls b)"

definition neutral :: "'w loop_state \<Rightarrow> 'w loop_state \<Rightarrow> bool" where
  "neutral s s' \<longleftrightarrow>
     counters (al_budget s') = counters (al_budget s) \<and>
     recent_messages (al_context s') = recent_messages (al_context s) \<and>
     al_pending_plans s' = al_pending_plans s \<and> al_turn_active s' = al_turn_active s \<and>
     lw_session_closed (al_shared s') = lw_session_closed (al_shared s) \<and>
     (al_session_started s \<longrightarrow> al_session_started s') \<and>
     (al_environment_started s \<longrightarrow> al_environment_started s')"

interpretation neutral: step_order neutral
  by unfold_locales (auto simp: neutral_def)

lemma step_try_base:
  assumes "step_order R" "steps R Y m" "\<And>e. Y e \<Longrightarrow> steps R X (h e)"
  shows "steps R X (try_base m h)"
proof (rule stepsI)
  fix s
  show "wp (try_base m h) (\<lambda>_. R s) (\<lambda>e s'. R s s' \<and> X e) s"
    unfolding wp_try_base
    by (intro wp_steps [OF assms(2)]) (auto intro: wp_steps [OF assms(3)] step_order.further [OF assms(1)])
qed

lemmas neutral_try_base = step_try_base [OF neutral.step_order_axioms]

section \<open>The executor inside the loop\<close>

definition same_closed :: "'w loop_world \<Rightarrow> 'w loop_world \<Rightarrow> bool" where
  "same_closed s s' \<longleftrightarrow> lw_session_closed s' = lw_session_closed s"

lemma inner_closed: "steps same_closed (\<lambda>_. True) (inner m)"
  by (rule steps_zoom_any) (simp add: same_closed_def)

interpretation closed: step_order same_closed
  by unfold_locales (simp_all add: same_closed_def)

lemma modify_closed: "(\<And>s. lw_session_closed (f s) = lw_session_closed s) \<Longrightarrow> steps same_closed X (modify f)"
  by (rule closed.step_modify) (simp add: same_closed_def)

lemma request_approval_closed: "steps same_closed (\<lambda>_. True) (request_approval ask)"
proof -
  have asked: "steps same_closed (\<lambda>_. True) (case v of JBool b \<Rightarrow> ret (JBool b)
      | _ \<Rightarrow> raise (TypeError (lit ''approval response must be a boolean'')))" for v
    by (auto intro: closed.step_ret closed.step_raise split: json.split)
  show ?thesis unfolding request_approval_def
    by (intro closed.step_rules inner_closed modify_closed asked) simp_all
qed

lemma store_first_closed: "steps same_closed (\<lambda>_. True) (store_first_publish P ev)"
  unfolding store_first_publish_def
  by (intro closed.step_rules inner_closed modify_closed closed.step_lift) simp_all

interpretation executor: quiet_ports "executor_ports P" same_closed for P :: "'w loop_ports"
proof unfold_locales
  show "steps same_closed (\<lambda>_. True) (ask n d c)" if "xp_approval (executor_ports P) = Some ask" for ask n d c
    using that by (auto simp: executor_ports_def Let_def intro: request_approval_closed)
  show "steps same_closed (\<lambda>_. True) (pub ev)" if "xp_publish (executor_ports P) = Some pub" for pub ev
    using that by (auto simp: executor_ports_def Let_def intro: store_first_closed)
qed (simp_all add: executor_ports_def Let_def inner_closed outer_total_def same_closed_def split: prod.split)

lemma on_exec_neutral: "steps executor.moved X m \<Longrightarrow> steps neutral X (on_exec m)"
  by (rule steps_zoom [where R' = executor.moved]) (simp_all add: neutral_def executor.moved_def same_closed_def)

lemma on_shared_neutral: "steps same_closed X m \<Longrightarrow> steps neutral X (on_shared m)"
  unfolding on_shared_def by (rule on_exec_neutral [OF executor.world_steps])

lemma on_world_neutral: "steps (\<lambda>_ _. True) X m \<Longrightarrow> steps neutral X (on_world m)"
  unfolding on_world_def by (rule on_shared_neutral, rule steps_zoom) (simp_all add: same_closed_def)

lemma any_effect: "steps (\<lambda>_ _. True) (\<lambda>_. True) m"
  by (simp add: steps_def)

lemma on_world_any: "steps neutral (\<lambda>_. True) (on_world m)"
  by (rule on_world_neutral [OF any_effect])

lemma on_world_total: "steps neutral X (on_world (total f))"
  by (rule on_world_neutral [OF steps_total]) simp

lemma modify_neutral: "(\<And>s. neutral s (f s)) \<Longrightarrow> steps neutral X (modify f)"
  by (rule neutral.step_modify)

lemma on_context_neutral:
  assumes "steps (\<lambda>c c'. recent_messages c' = recent_messages c) X m"
  shows "steps neutral X (on_context m)"
  by (rule steps_zoom [OF assms]) (simp add: neutral_def)

lemma lift_any_neutral: "steps neutral (\<lambda>_. True) (lift_res r)"
  by (rule neutral.step_lift) simp

lemma raise_any_neutral: "steps neutral (\<lambda>_. True) (raise e)"
  by (rule neutral.step_raise) simp

section \<open>Neutral operations\<close>

named_theorems neutral_intros \<open>operations of the loop that are neutral\<close>

lemmas [neutral_intros] = neutral.step_rules lift_any_neutral raise_any_neutral on_world_any

lemma execute_plan_neutral [neutral_intros]: "steps neutral (\<lambda>e. \<not> loop_signal e) (execute_plan cfg P p)"
  unfolding execute_plan_def Let_def by (rule on_exec_neutral [OF executor.execute_steps])

lemma skip_plan_neutral [neutral_intros]: "steps neutral (\<lambda>e. \<not> loop_signal e) (skip_plan cfg P reason status p)"
  unfolding skip_plan_def by (rule on_exec_neutral [OF executor.skip_steps])

lemma update_budget_neutral:
  assumes "\<And>b b'. f b = Inr b' \<Longrightarrow> counters b' = counters b" "\<And>b e. f b = Inl e \<Longrightarrow> X e"
  shows "steps neutral X (update_budget f)"
proof (rule stepsI)
  fix s :: "'a loop_state"
  show "wp (update_budget f) (\<lambda>_. neutral s) (\<lambda>e s'. neutral s s' \<and> X e) s"
    using assms [of "al_budget s"] by (auto simp: update_budget_def wp_simps neutral_def split: sum.split)
qed

lemma loop_emit_neutral [neutral_intros]: "steps neutral (\<lambda>_. True) (loop_emit cfg P ty payload)"
  unfolding loop_emit_def by (intro neutral_intros)

lemma emit_best_effort_neutral [neutral_intros]: "steps neutral X (emit_best_effort cfg P ty payload)"
  unfolding emit_best_effort_def by (rule neutral_try_base [where Y = "\<lambda>_. True"]) (intro neutral_intros)+

lemma budget_snapshot_neutral [neutral_intros]: "steps neutral X (budget_snapshot P)"
  unfolding budget_snapshot_def by (intro neutral.step_rules on_world_total)

lemma start_session_neutral [neutral_intros]: "steps neutral (\<lambda>_. True) (start_session cfg P)"
  unfolding start_session_def by (intro neutral_intros modify_neutral) (simp_all add: neutral_def)

lemma set_state_neutral [neutral_intros]: "steps neutral X (set_state st)"
  unfolding set_state_def by (rule on_shared_neutral [OF modify_closed]) simp

lemma loop_result_neutral [neutral_intros]: "steps neutral X (loop_result P st reason limit et)"
  unfolding loop_result_def by (intro neutral_intros)

lemma turn_end_quietly_neutral [neutral_intros]: "steps neutral X (turn_end_quietly cfg P st reason)"
  unfolding turn_end_quietly_def by (intro neutral_intros)

lemma check_active_view_neutral [neutral_intros]: "steps neutral (\<lambda>e. \<not> loop_signal e) (check_active_view P)"
  unfolding check_active_view_def by (intro neutral.step_rules neutral.step_raise) simp

lemma check_interrupt_neutral [neutral_intros]: "steps neutral (\<lambda>e. \<not> loop_signal e) (check_interrupt P)"
  unfolding check_interrupt_def
  by (intro neutral.step_rules neutral.step_lift) (auto simp: throw_if_cancelled_def split: if_splits)

lemma deadline_passed_neutral [neutral_intros]: "steps neutral X (deadline_passed P)"
  unfolding deadline_passed_def by (intro neutral.step_rules on_world_total)

lemma current_limit_neutral [neutral_intros]: "steps neutral X (current_limit P)"
  unfolding current_limit_def by (intro neutral_intros)

lemma neutral_any: "steps neutral X m \<Longrightarrow> steps neutral (\<lambda>_. True) m"
  by (rule steps_mono) simp_all

lemma record_usage_neutral [neutral_intros]: "steps neutral (\<lambda>e. \<not> loop_signal e) (record_usage u)"
  unfolding record_usage_def
  by (intro neutral.step_rules update_budget_neutral)
     (auto simp: record_tokens_def bindR_Inr_iff bindR_Inl_iff counters_def nonneg_error_def)

lemma check_preparation_neutral [neutral_intros]: "steps neutral (\<lambda>_. True) (check_preparation P)"
  unfolding check_preparation_def by (intro neutral_intros neutral_any [OF check_interrupt_neutral])

lemma reset_protocol_errors_neutral [neutral_intros]: "steps neutral X reset_protocol_errors"
  unfolding reset_protocol_errors_def by (rule modify_neutral) (simp add: neutral_def counters_def)

lemma protocol_error_neutral [neutral_intros]: "steps neutral X (update_budget (\<lambda>b. record_protocol_error b 1))"
  by (rule update_budget_neutral) (auto simp: counters_def)

lemma protocol_limit_neutral [neutral_intros]: "steps neutral X protocol_limit_reached"
  unfolding protocol_limit_reached_def by (rule neutral.step_get)

lemma cancelled_now_neutral [neutral_intros]: "steps neutral X (cancelled_now P)"
  unfolding cancelled_now_def by (rule neutral.step_get)

section \<open>The context\<close>

lemma context_functions_messages:
  "recent_messages (fst (entries c)) = recent_messages c"
  "recent_messages (fst (all_groups c)) = recent_messages c"
  "recent_messages (fst (effective_groups c)) = recent_messages c"
  "recent_messages (fst (project pl b schemas c)) = recent_messages c"
  "recent_messages (fst (plan_compaction b forced c)) = recent_messages c"
proof -
  show e: "recent_messages (fst (entries c)) = recent_messages c"
    by (simp add: entries_def Let_def split: sum.split)
  show a: "recent_messages (fst (all_groups c)) = recent_messages c"
    using e unfolding all_groups_def by (cases "entries c") (auto split: sum.split)
  show f: "recent_messages (fst (effective_groups c)) = recent_messages c"
    using a unfolding effective_groups_def by (cases "all_groups c") (auto split: sum.split)
  show "recent_messages (fst (project pl b schemas c)) = recent_messages c"
    using f unfolding project_def by (cases "effective_groups c") (auto simp: Let_def split: sum.split)
  show "recent_messages (fst (plan_compaction b forced c)) = recent_messages c"
    using a unfolding plan_compaction_def by (cases "all_groups c") (auto simp: Let_def split: sum.split)
qed

lemma on_context_fst:
  "(\<And>c. recent_messages (fst (m c)) = recent_messages c) \<Longrightarrow> steps neutral (\<lambda>_. True) (on_context m)"
  by (rule on_context_neutral) (simp add: steps_def)

lemma project_neutral [neutral_intros]: "steps neutral (\<lambda>_. True) (loop_project cfg schemas)"
  unfolding loop_project_def by (rule on_context_fst) (rule context_functions_messages)

lemma plan_compaction_neutral [neutral_intros]: "steps neutral (\<lambda>_. True) (on_context (plan_compaction b forced))"
  by (rule on_context_fst) (rule context_functions_messages)

lemma fallback_neutral [neutral_intros]: "steps neutral (\<lambda>_. True) (on_context (apply_degraded_fallback pl b p))"
  by (rule on_context_fst) (simp add: apply_degraded_fallback_def context_functions_messages)

lemma compact_messages: "compact pl cm ask p (c, w) = ((c', w'), r) \<Longrightarrow> recent_messages c' = recent_messages c"
  unfolding compact_def Let_def
  by (auto simp: covered_state_def split: sum.splits prod.splits)

lemma compact_on_state_neutral [neutral_intros]: "steps neutral (\<lambda>_. True) (compact_on_state cfg P p)"
proof (rule stepsI)
  fix s :: "'a loop_state"
  obtain c w r where c: "compact (lc_platform cfg) (lc_compactor cfg) (lp_complete P) p (al_context s, al_world s) = ((c, w), r)"
    by (metis prod.exhaust)
  show "wp (compact_on_state cfg P p) (\<lambda>_. neutral s) (\<lambda>e s'. neutral s s' \<and> True) s"
    using compact_messages [OF c] by (auto simp: wp_def compact_on_state_def c neutral_def split: sum.split)
qed

lemma emit_or_restore_neutral [neutral_intros]: "steps neutral (\<lambda>_. True) (emit_or_restore cfg P c0 outc degraded)"
proof -
  have emitted: "steps neutral (\<lambda>_. True) (emit_compaction cfg P outc degraded)"
    unfolding emit_compaction_def by (intro neutral_intros)
  show ?thesis
    unfolding emit_or_restore_def restore_projection_def
    by (rule neutral_try_base [OF emitted]) (intro neutral_intros modify_neutral, simp add: neutral_def)
qed

lemma compact_once_neutral [neutral_intros]: "steps neutral (\<lambda>_. True) (compact_once cfg P forced)"
  unfolding compact_once_def degrade_def
  by (intro neutral_intros neutral_any [OF record_usage_neutral])

lemma messages_unless_neutral [neutral_intros]: "steps neutral (\<lambda>_. True) (messages_unless beyond reason p)"
  unfolding messages_unless_def by (intro neutral_intros)

lemma prepare_attempts_neutral [neutral_intros]: "steps neutral (\<lambda>_. True) (prepare_attempts cfg P schemas n)"
  by (induction n) (auto intro!: neutral_intros)

lemma prepare_context_neutral [neutral_intros]: "steps neutral (\<lambda>_. True) (prepare_context cfg P forced)"
  unfolding prepare_context_def by (intro neutral_intros)

lemma complete_model_request_neutral [neutral_intros]: "steps neutral (\<lambda>_. True) (complete_model_request cfg P)"
proof -
  have first: "steps neutral (\<lambda>_. True)
      (try_base (bindE (on_world (lp_complete P ms schemas (lc_model_parameters cfg))) (\<lambda>r. ret (Some r)))
         (\<lambda>e. if is_context_overflow e then ret None else raise e))" for ms schemas
    by (rule neutral_try_base [where Y = "\<lambda>_. True"]) (intro neutral_intros)+
  show ?thesis unfolding complete_model_request_def by (intro neutral_intros first)
qed

lemma loop_correlation_id_neutral [neutral_intros]: "steps neutral (\<lambda>_. True) (loop_correlation_id P)"
proof -
  have uuid: "steps neutral (\<lambda>_. True) (uuid_correlation P issued)" for issued
    unfolding uuid_correlation_def by (intro neutral_intros)
  have made: "steps neutral (\<lambda>_. True) (bindE (on_world (xp_new_id (lp_exec P) (lit ''correlation'')))
      (\<lambda>i. lift_res (new_identifier CorrelationId (PlainStr i))))"
    by (intro neutral_intros)
  show ?thesis unfolding loop_correlation_id_def
    by (intro neutral_intros uuid neutral.step_try [OF _ made] modify_neutral) (simp_all add: neutral_def)
qed

lemma plan_calls_neutral [neutral_intros]: "steps neutral (\<lambda>_. True) (plan_calls P cs)"
  by (induction cs) (auto intro!: neutral_intros)

end
