(* ===== verification/TurnFacts.thy ===== *)
theory TurnFacts
  imports LoopFacts
begin

text \<open>
  One turn of the agent loop: its messages pair every declared call with one result, its
  counters stay in_budget their limits, and its end closes what it must.
\<close>

section \<open>The books of a turn\<close>

text \<open>A message is the result of a planned call.\<close>

definition answers :: "PlannedToolCall \<Rightarrow> message \<Rightarrow> bool" where
  "answers p m \<longleftrightarrow> has_role ''tool'' m \<and> result_id m = Some (pc_context_tool_call_id p)"

text \<open>A message that declares no call, or an assistant message with the results of its calls, one
  for each and in their order.\<close>

definition turn_block :: "message list \<Rightarrow> bool" where
  "turn_block ms \<longleftrightarrow>
     (\<exists>m. ms = [m] \<and> \<not> has_role ''tool'' m \<and> dget m (lit ''tool_calls'') = None \<and> detach_message m = Inr m) \<or>
     (\<exists>r plans rs. plans \<noteq> [] \<and> ms = assistant_message r plans # rs \<and> list_all2 answers plans rs)"

definition context_messages :: "'w loop_state \<Rightarrow> message list" where
  "context_messages s = recent_messages (al_context s)"

definition complete :: "message list \<Rightarrow> 'w loop_state \<Rightarrow> bool" where
  "complete ms0 s \<longleftrightarrow> (\<exists>bs. list_all turn_block bs \<and> context_messages s = ms0 @ concat bs)"

text \<open>The declarations of the last assistant message: \<open>dn\<close> left the pending list, and those in
  \<open>ds\<close> have their results; a strict book has lost none.\<close>

definition partial :: "bool \<Rightarrow> PlannedToolCall list \<Rightarrow> message list \<Rightarrow> bool" where
  "partial strict pending ms \<longleftrightarrow>
     (\<exists>r dn ds rs. ms = assistant_message r (dn @ pending) # rs \<and> dn @ pending \<noteq> [] \<and>
        list_all2 answers ds rs \<and> subseq ds dn \<and> (strict \<longrightarrow> ds = dn))"

definition book :: "bool \<Rightarrow> message list \<Rightarrow> PlannedToolCall list \<Rightarrow> message list \<Rightarrow> bool" where
  "book strict ms0 pending ms \<longleftrightarrow>
     (\<exists>bs. list_all turn_block bs \<and>
        (pending = [] \<and> ms = ms0 @ concat bs \<or>
         (\<exists>tail. ms = ms0 @ concat bs @ tail \<and> partial strict pending tail)))"

lemma partial_done: "partial True [] ms \<Longrightarrow> turn_block ms"
  unfolding partial_def turn_block_def by auto

lemma book_done: "book True ms0 [] ms \<Longrightarrow> \<exists>bs. list_all turn_block bs \<and> ms = ms0 @ concat bs"
proof -
  assume "book True ms0 [] ms"
  then obtain bs tail where bs: "list_all turn_block bs"
    "ms = ms0 @ concat bs \<or> ms = ms0 @ concat bs @ tail \<and> partial True [] tail"
    unfolding book_def by blast
  then show ?thesis
  proof (cases "ms = ms0 @ concat bs")
    case False
    then have "turn_block tail" "ms = ms0 @ concat (bs @ [tail])" using bs partial_done by auto
    then show ?thesis using bs(1) by (intro exI [of _ "bs @ [tail]"]) simp
  qed (use bs in blast)
qed

lemma book_weaken: "book strict ms0 pending ms \<Longrightarrow> book False ms0 pending ms"
  unfolding book_def partial_def by blast

lemma book_drop: "book strict ms0 (p # ps) ms \<Longrightarrow> book False ms0 ps ms"
proof -
  assume "book strict ms0 (p # ps) ms"
  then obtain bs r dn ds rs where b: "list_all turn_block bs" "ms = ms0 @ concat bs @ assistant_message r (dn @ p # ps) # rs"
    "list_all2 answers ds rs" "subseq ds dn"
    unfolding book_def partial_def by auto
  then have "partial False ps (assistant_message r (dn @ p # ps) # rs)"
    unfolding partial_def by (intro exI [of _ r] exI [of _ "dn @ [p]"] exI [of _ ds] exI [of _ rs])
      (auto intro: list_emb_append2)
  then show ?thesis using b unfolding book_def by blast
qed

lemma book_answer: "book strict ms0 (p # ps) ms \<Longrightarrow> answers p m \<Longrightarrow> book strict ms0 ps (ms @ [m])"
proof -
  assume "book strict ms0 (p # ps) ms" and m: "answers p m"
  then obtain bs r dn ds rs where b: "list_all turn_block bs" "ms = ms0 @ concat bs @ assistant_message r (dn @ p # ps) # rs"
    "list_all2 answers ds rs" "subseq ds dn" "strict \<longrightarrow> ds = dn"
    unfolding book_def partial_def by auto
  have "list_all2 answers (ds @ [p]) (rs @ [m])" using b(3) m by (simp add: list_all2_appendI)
  moreover have "subseq (ds @ [p]) (dn @ [p])" using b(4) by simp
  ultimately have "partial strict ps (assistant_message r (dn @ p # ps) # rs @ [m])"
    using b(5) unfolding partial_def
    by (intro exI [of _ r] exI [of _ "dn @ [p]"] exI [of _ "ds @ [p]"] exI [of _ "rs @ [m]"]) auto
  then show ?thesis using b(1,2) unfolding book_def by auto
qed

lemma book_append: 
  assumes "list_all turn_block bs" "\<not> has_role ''tool'' m" "dget m (lit ''tool_calls'') = None" "detach_message m = Inr m"
  shows "book strict ms0 [] ((ms0 @ concat bs) @ [m])"
proof -
  have "turn_block [m]" using assms by (simp add: turn_block_def)
  then show ?thesis using assms(1) unfolding book_def by (intro exI [of _ "bs @ [[m]]"]) simp
qed

lemma book_declare: "list_all turn_block bs \<Longrightarrow> book strict ms0 plans ((ms0 @ concat bs) @ [assistant_message r plans])"
proof (cases "plans = []")
  case True
  assume "list_all turn_block bs"
  moreover have "\<not> has_role ''tool'' (assistant_message r [])" "dget (assistant_message r []) (lit ''tool_calls'') = None"
    "detach_message (assistant_message r []) = Inr (assistant_message r [])"
    by (simp_all add: assistant_message_def has_role_def detach_message_def)
  ultimately show ?thesis using book_append True by blast
next
  case False
  assume bs: "list_all turn_block bs"
  have "partial strict plans [assistant_message r plans]"
    using False unfolding partial_def by (intro exI [of _ r] exI [of _ "[]"]) simp
  then show ?thesis using bs unfolding book_def by auto
qed

section \<open>The invariant of a turn\<close>

definition in_budget :: "int \<Rightarrow> int \<Rightarrow> BudgetTracker \<Rightarrow> bool" where
  "in_budget M T b \<longleftrightarrow> max_steps b = Some M \<and> max_tool_calls b = Some T \<and> model_steps b \<le> M \<and> tool_calls b \<le> T"

definition turn_inv :: "int \<Rightarrow> int \<Rightarrow> message list \<Rightarrow> bool \<Rightarrow> int \<Rightarrow> 'w loop_state \<Rightarrow> bool" where
  "turn_inv M T ms0 strict k s \<longleftrightarrow>
     in_budget M T (al_budget s) \<and> model_steps (al_budget s) = k \<and>
     book strict ms0 (al_pending_plans s) (context_messages s) \<and>
     al_turn_active s \<and> \<not> lw_session_closed (al_shared s)"

lemma turn_inv_neutral: "neutral s s' \<Longrightarrow> turn_inv M T ms0 strict k s \<Longrightarrow> turn_inv M T ms0 strict k s'"
  unfolding neutral_def turn_inv_def in_budget_def counters_def context_messages_def by auto

lemma turn_inv_weaken: "turn_inv M T ms0 strict k s \<Longrightarrow> turn_inv M T ms0 False k s"
  unfolding turn_inv_def by (blast intro: book_weaken)

lemma turn_inv_complete: "turn_inv M T ms0 True k s \<Longrightarrow> al_pending_plans s = [] \<Longrightarrow> complete ms0 s"
  unfolding turn_inv_def complete_def by (auto dest: book_done)

text \<open>Neutral operations keep such a predicate.\<close>

definition stable :: "('w loop_state \<Rightarrow> bool) \<Rightarrow> bool" where
  "stable J \<longleftrightarrow> (\<forall>s s'. neutral s s' \<longrightarrow> J s \<longrightarrow> J s')"

lemma stable_inv: "stable (turn_inv M T ms0 strict k)"
  and stable_pending: "stable (\<lambda>s. turn_inv M T ms0 strict k s \<and> al_pending_plans s = ps)"
  using turn_inv_neutral unfolding stable_def neutral_def by metis+

lemma wp_neutral:
  assumes "steps neutral X m" "stable J" "J s" "\<And>a s'. J s' \<Longrightarrow> Q a s'" "\<And>e s'. J s' \<Longrightarrow> X e \<Longrightarrow> E e s'"
  shows "wp m Q E s"
  by (rule wp_steps [OF assms(1)]) (use assms(2-5) in \<open>auto simp: stable_def\<close>)

lemma wp_bind_neutral:
  assumes "steps neutral X m" "stable J" "J s" "\<And>e s'. J s' \<Longrightarrow> X e \<Longrightarrow> E e s'" "\<And>a s'. J s' \<Longrightarrow> wp (f a) Q E s'"
  shows "wp (bindE m f) Q E s"
  unfolding wp_bindE by (rule wp_neutral [OF assms(1,2,3) assms(5,4)])

lemma wp_seq_neutral:
  assumes "steps neutral X m" "stable J" "J s" "\<And>e s'. J s' \<Longrightarrow> X e \<Longrightarrow> E e s'" "\<And>s'. J s' \<Longrightarrow> wp k Q E s'"
  shows "wp (seqE m k) Q E s"
  unfolding seqE_def by (rule wp_bind_neutral [OF assms])

text \<open>An append, and a result's message.\<close>

definition appended :: "message \<Rightarrow> 'w loop_state \<Rightarrow> 'w loop_state \<Rightarrow> bool" where
  "appended m s s' \<longleftrightarrow> detach_message m = Inr m \<and>
     (\<exists>c. s' = s\<lparr>al_context := c\<rparr> \<and> recent_messages c = recent_messages (al_context s) @ [m])"

lemma append_message_error: "append_message c m i = Inl e \<Longrightarrow> \<not> loop_signal e"
  by (auto simp: append_message_def bindR_Inl_iff nonneg_error_def)

lemma wp_loop_append: "wp (loop_append m i) (\<lambda>_ s'. appended m s s') (\<lambda>e s'. s' = s \<and> \<not> loop_signal e) s"
proof (cases "detach_message m")
  case (Inl e)
  then have "\<not> loop_signal e"
    by (auto simp: detach_message_def ContextIntegrityError_def split: option.splits json.splits if_splits)
  then show ?thesis using Inl by (simp add: loop_append_def wp_simps)
next
  case (Inr m')
  then have m: "detach_message m = Inr m" using detach_message_same by metis
  show ?thesis
    unfolding loop_append_def wp_bindE wp_lift_res m sum.case wp_zoom
    using append_message_error [of "al_context s" m i] append_message_fields [of "al_context s" m i]
    by (cases "append_message (al_context s) m i") (auto simp: wp_def appended_def m)
qed

lemma tool_message_answers: "tool_message cfg r (pc_context_tool_call_id p) = Inr m \<Longrightarrow> answers p m"
  by (auto simp: tool_message_def bindR_Inr_iff answers_def has_role_def result_id_def)

lemma tool_message_error: "tool_message cfg r i = Inl e \<Longrightarrow> \<not> loop_signal e"
  by (auto simp: tool_message_def bindR_Inl_iff json_dumps_def split: if_splits
      dest: projection_error argument_error_no_signal)

lemma wp_append_result:
  "wp (append_result cfg p r) (\<lambda>_ s'. \<exists>m. answers p m \<and> appended m s s') (\<lambda>e s'. s' = s \<and> \<not> loop_signal e) s"
proof (cases "tool_message cfg r (pc_context_tool_call_id p)")
  case (Inl e)
  then show ?thesis using tool_message_error [OF Inl] by (simp add: append_result_def wp_simps)
next
  case (Inr m)
  then show ?thesis using tool_message_answers [OF Inr]
    by (auto simp: append_result_def wp_simps intro: wp_mono [OF wp_loop_append])
qed

section \<open>Skipping and running the pending calls\<close>

text \<open>A plan has left the list and its result is still to come.\<close>

definition due :: "int \<Rightarrow> int \<Rightarrow> message list \<Rightarrow> bool \<Rightarrow> int \<Rightarrow> PlannedToolCall \<Rightarrow> PlannedToolCall list \<Rightarrow> 'w loop_state \<Rightarrow> bool" where
  "due M T ms0 strict k p ps s \<longleftrightarrow>
     turn_inv M T ms0 strict k (s\<lparr>al_pending_plans := p # ps\<rparr>) \<and> al_pending_plans s = ps"

lemma stable_due: "stable (due M T ms0 strict k p ps)"
proof -
  have "neutral (s\<lparr>al_pending_plans := x\<rparr>) (s'\<lparr>al_pending_plans := x\<rparr>)" if "neutral s s'" for s s' :: "'w loop_state" and x
    using that by (simp add: neutral_def)
  then show ?thesis unfolding stable_def due_def using turn_inv_neutral by (metis neutral_def)
qed

lemma due_lost: "due M T ms0 strict k p ps s \<Longrightarrow> turn_inv M T ms0 False k s"
  by (auto simp: due_def turn_inv_def context_messages_def dest: book_drop)

lemma due_answered: "due M T ms0 strict k p ps s \<Longrightarrow> answers p m \<Longrightarrow> appended m s s' \<Longrightarrow>
    turn_inv M T ms0 strict k s' \<and> al_pending_plans s' = ps"
  by (auto simp: due_def turn_inv_def context_messages_def appended_def intro: book_answer)

lemma wp_append_due:
  assumes "due M T ms0 strict k p ps s" "\<And>s'. turn_inv M T ms0 strict k s' \<and> al_pending_plans s' = ps \<Longrightarrow> Q () s'"
    "\<And>e s'. turn_inv M T ms0 False k s' \<Longrightarrow> \<not> loop_signal e \<Longrightarrow> E e s'"
  shows "wp (append_result cfg p r) Q E s"
proof (rule wp_mono [OF wp_append_result])
  show "Q a s'" if "\<exists>m. answers p m \<and> appended m s s'" for a s'
    using that assms(2) [of s'] due_answered [OF assms(1)] by (cases a) blast
  show "E e s'" if "s' = s \<and> \<not> loop_signal e" for e s'
    using that assms(3) [of s' e] due_lost [OF assms(1)] by blast
qed

lemma wp_skip_plans:
  "turn_inv M T ms0 strict k s \<Longrightarrow> al_pending_plans s = ps \<Longrightarrow>
   wp (skip_plans cfg P reason status ps)
     (\<lambda>_ s'. turn_inv M T ms0 strict k s' \<and> al_pending_plans s' = [])
     (\<lambda>e s'. turn_inv M T ms0 False k s' \<and> \<not> loop_signal e) s"
proof (induction ps arbitrary: s)
  case Nil
  then show ?case by (simp add: wp_ret)
next
  case (Cons p ps)
  have due: "due M T ms0 strict k p ps (s\<lparr>al_pending_plans := ps\<rparr>)"
    using Cons.prems by (auto simp: due_def turn_inv_def context_messages_def)
  show ?case unfolding skip_plans.simps wp_seqE [of "modify _"] wp_modify
    by (rule wp_bind_neutral [OF skip_plan_neutral stable_due due])
       (auto simp: wp_seqE due_lost intro!: wp_append_due Cons.IH)
qed

lemma wp_skip_pending:
  assumes "turn_inv M T ms0 strict k s"
  shows "wp (skip_pending cfg P reason status)
     (\<lambda>_ s'. turn_inv M T ms0 strict k s' \<and> al_pending_plans s' = [])
     (\<lambda>e s'. turn_inv M T ms0 False k s' \<and> \<not> loop_signal e) s"
  unfolding skip_pending_def wp_bindE wp_get by (rule wp_skip_plans [OF assms refl])

lemma wp_record_tool_call:
  "wp (update_budget (\<lambda>b. record_tool_call b 1)) Q E s =
   Q () (s\<lparr>al_budget := (al_budget s)\<lparr>tool_calls := tool_calls (al_budget s) + 1\<rparr>\<rparr>)"
  and wp_record_model_step:
  "wp (update_budget (\<lambda>b. record_model_step b 1)) Q E s =
   Q () (s\<lparr>al_budget := (al_budget s)\<lparr>model_steps := model_steps (al_budget s) + 1\<rparr>\<rparr>)"
  by (simp_all add: update_budget_def wp_simps)

lemma wp_run_call:
  assumes "turn_inv M T ms0 True k s" "al_pending_plans s = p # ps" "\<not> reached (tool_calls (al_budget s)) (max_tool_calls (al_budget s))"
  shows "wp (run_call cfg P p)
     (\<lambda>_ s'. turn_inv M T ms0 True k s' \<and> al_pending_plans s' = ps)
     (\<lambda>e s'. turn_inv M T ms0 False k s' \<and> \<not> loop_signal e) s"
proof -
  let ?J = "\<lambda>s. turn_inv M T ms0 True k s \<and> al_pending_plans s = p # ps"
  let ?K = "\<lambda>s. turn_inv M T ms0 True k s \<and> al_pending_plans s = ps"
  have after: "wp (if tr_status r = ResInvalid then update_budget (\<lambda>b. record_protocol_error b 1) else reset_protocol_errors)
      (\<lambda>_. ?K) (\<lambda>e s'. turn_inv M T ms0 False k s' \<and> \<not> loop_signal e) t" if "?K t" for r :: ToolResult and t :: "'a loop_state"
    using that by (cases "tr_status r = ResInvalid")
      (auto intro: wp_neutral [OF protocol_error_neutral [where X = "\<lambda>e. \<not> loop_signal e"] stable_pending]
         wp_neutral [OF reset_protocol_errors_neutral [where X = "\<lambda>e. \<not> loop_signal e"] stable_pending] turn_inv_weaken simp del: record_one)
  have message: "wp (append_result cfg p r)
      (\<lambda>_ t'. ?K (t'\<lparr>al_pending_plans := tl (al_pending_plans t')\<rparr>))
      (\<lambda>e s'. turn_inv M T ms0 False k s' \<and> \<not> loop_signal e) t" if "?J t" for r and t :: "'a loop_state"
    by (rule wp_mono [OF wp_append_result])
       (use that in \<open>auto simp: turn_inv_def appended_def context_messages_def intro: book_answer book_weaken\<close>)
  have counted: "?J (s\<lparr>al_budget := (al_budget s)\<lparr>tool_calls := tool_calls (al_budget s) + 1\<rparr>\<rparr>)"
    using assms by (auto simp: turn_inv_def in_budget_def reached_def context_messages_def)
  have tail: "wp (seqE (append_result cfg p r) (seqE (modify (\<lambda>s. s\<lparr>al_pending_plans := tl (al_pending_plans s)\<rparr>))
      (if tr_status r = ResInvalid then update_budget (\<lambda>b. record_protocol_error b 1) else reset_protocol_errors)))
      (\<lambda>_. ?K) (\<lambda>e s'. turn_inv M T ms0 False k s' \<and> \<not> loop_signal e) t" if "?J t" for r and t :: "'a loop_state"
    unfolding wp_seqE [of "append_result _ _ _"] wp_seqE [of "modify _"] wp_modify
    by (rule wp_mono [OF message [OF that]]) (erule after, assumption)
  show ?thesis
    unfolding run_call_def wp_seqE [of "update_budget _"] wp_record_tool_call
    by (rule wp_bind_neutral [OF execute_plan_neutral stable_pending counted _ tail]) (blast intro: turn_inv_weaken)+
qed

section \<open>The ends of a turn\<close>

text \<open>Only the outside world moves.\<close>

definition outside :: "'w loop_state \<Rightarrow> 'w loop_state \<Rightarrow> bool" where
  "outside s s' \<longleftrightarrow> (\<exists>w. s' = s\<lparr>al_exec := (al_exec s)\<lparr>xs_world := (al_shared s)\<lparr>lw_world := w\<rparr>\<rparr>\<rparr>)"

lemma outside_world: "outside s (s\<lparr>al_exec := (al_exec s)\<lparr>xs_world := (al_shared s)\<lparr>lw_world := w\<rparr>\<rparr>\<rparr>)"
  by (auto simp: outside_def)

interpretation outside: step_order outside
proof
  show "outside s s" for s :: "'w loop_state"
    unfolding outside_def by (rule exI [of _ "al_world s"]) simp
  show "outside s s' \<Longrightarrow> outside s' s'' \<Longrightarrow> outside s s''" for s s' s'' :: "'w loop_state"
    unfolding outside_def by (elim exE) (simp add: exI)
qed

lemma outside_neutral: "outside s s' \<Longrightarrow> neutral s s'"
  by (auto simp: outside_def neutral_def)

lemma on_world_outside: "steps (\<lambda>_ _. True) X m \<Longrightarrow> steps outside X (on_world m)"
  unfolding on_world_def on_shared_def
  by (rule stepsI, unfold wp_zoom, rule wp_steps, assumption) (auto intro: outside_world)

lemma world_any_outside: "steps outside (\<lambda>_. True) (on_world m)"
  by (rule on_world_outside [OF any_effect])

lemma snapshot_outside: "steps outside X (budget_snapshot P)"
  unfolding budget_snapshot_def by (intro outside.step_rules on_world_outside steps_total) simp

lemma emit_outside: "steps outside (\<lambda>_. True) (loop_emit cfg P ty payload)"
  unfolding loop_emit_def by (intro outside.step_rules world_any_outside outside.step_lift) simp

lemma best_effort_outside: "steps outside X (emit_best_effort cfg P ty payload)"
  unfolding emit_best_effort_def
  by (rule step_try_base [OF outside.step_order_axioms, where Y = "\<lambda>_. True"]) (intro outside.step_rules emit_outside)+

lemma turn_end_quietly_outside: "steps outside X (turn_end_quietly cfg P st reason)"
  unfolding turn_end_quietly_def by (intro outside.step_rules snapshot_outside best_effort_outside)

text \<open>What an end leaves as it was.\<close>

definition settled :: "'w loop_state \<Rightarrow> 'w loop_state \<Rightarrow> bool" where
  "settled s s' \<longleftrightarrow> counters (al_budget s') = counters (al_budget s) \<and> context_messages s' = context_messages s"

text \<open>A turn that has ended with a result.\<close>

definition ended :: "AgentLoopResult \<Rightarrow> 'w loop_state \<Rightarrow> bool" where
  "ended r s \<longleftrightarrow>
     lw_state (al_shared s) = ar_state r \<and> \<not> al_turn_active s \<and>
     (lw_session_closed (al_shared s) \<longleftrightarrow> ar_state r \<noteq> COMPLETED_TURN) \<and>
     (ar_state r \<noteq> COMPLETED_TURN \<longrightarrow> \<not> al_environment_started s)"

lemma wp_outside:
  assumes "steps outside X m" "\<And>a w. Q a (s\<lparr>al_exec := (al_exec s)\<lparr>xs_world := (al_shared s)\<lparr>lw_world := w\<rparr>\<rparr>\<rparr>)"
    "\<And>e s'. X e \<Longrightarrow> outside s s' \<Longrightarrow> E e s'"
  shows "wp m Q E s"
  by (rule wp_steps [OF assms(1)]) (use assms(2,3) in \<open>auto simp: outside_def\<close>)

lemma wp_close_environment:
  assumes "\<And>w. Q () (s\<lparr>al_exec := (al_exec s)\<lparr>xs_world := (al_shared s)\<lparr>lw_world := w\<rparr>\<rparr>, al_environment_started := False\<rparr>)"
  shows "wp (try_base (close_environment P) (\<lambda>_. ret ())) Q E s"
proof (cases "al_environment_started s")
  case True
  then show ?thesis
    by (simp add: close_environment_def wp_simps)
       (rule wp_outside [OF world_any_outside], use assms in \<open>auto simp: outside_def wp_simps\<close>)
next
  case False
  then have "s\<lparr>al_exec := (al_exec s)\<lparr>xs_world := (al_shared s)\<lparr>lw_world := al_world s\<rparr>\<rparr>, al_environment_started := False\<rparr> = s"
    by simp
  then have "Q () s" using assms [of "al_world s"] by simp
  then show ?thesis using False by (simp add: close_environment_def wp_simps)
qed

lemma wp_finish_session:
  assumes "\<not> lw_session_closed (al_shared s)" "\<And>w. Q () (s\<lparr>al_environment_started := False,
      al_exec := (al_exec s)\<lparr>xs_world := (al_shared s)\<lparr>lw_world := w, lw_session_closed := True\<rparr>\<rparr>\<rparr>)"
  shows "wp (finish_session cfg P st reason) Q E s"
  unfolding finish_session_def wp_bindE wp_get wp_seqE
  using assms(1)
  by (auto simp: on_shared_def wp_zoom wp_modify wp_ret intro!: assms(2) wp_close_environment
      wp_outside [OF snapshot_outside [where X = "\<lambda>_. False"]] wp_outside [OF best_effort_outside [where X = "\<lambda>_. False"]]
      simp: wp_bindE wp_seqE)

lemma wp_loop_result:
  assumes "\<And>r w. ar_state r = st \<Longrightarrow> Q r (s\<lparr>al_exec := (al_exec s)\<lparr>xs_world := (al_shared s)\<lparr>lw_state := st, lw_world := w\<rparr>\<rparr>\<rparr>)"
  shows "wp (loop_result P st reason limit et) Q E s"
  unfolding loop_result_def wp_seqE wp_bindE set_state_def on_shared_def wp_zoom wp_modify wp_get
  by (rule wp_outside [OF snapshot_outside [where X = "\<lambda>_. False"]]) (simp_all add: wp_ret assms)

lemma wp_end_turn:
  assumes "\<not> lw_session_closed (al_shared s)"
  shows "wp (end_turn cfg P st reason limit) (\<lambda>r s'. ar_state r = st \<and> ended r s' \<and> settled s s')
     (\<lambda>e s'. outside s s') s"
proof -
  have fin: "wp (seqE (if st \<noteq> COMPLETED_TURN then finish_session cfg P st reason else ret ()) (ret r))
      (\<lambda>r s'. ar_state r = st \<and> ended r s' \<and> settled s s') E t"
    if "ar_state r = st" "\<not> lw_session_closed (al_shared t)" "lw_state (al_shared t) = st" "\<not> al_turn_active t" "settled s t"
    for r t E
    using that unfolding wp_seqE
    by (cases "st = COMPLETED_TURN")
       (auto simp: wp_ret ended_def settled_def context_messages_def intro!: wp_finish_session)
  have rest: "wp (seqE turn_ended (bindE (loop_result P st (Some reason) limit None) (\<lambda>r.
      seqE (if st \<noteq> COMPLETED_TURN then finish_session cfg P st reason else ret ()) (ret r))))
      (\<lambda>r s'. ar_state r = st \<and> ended r s' \<and> settled s s') E t" if "outside s t" for t E
    unfolding turn_ended_def wp_seqE [of "modify _"] wp_modify wp_bindE
    by (rule wp_loop_result, rule fin) (use that assms in \<open>auto simp: outside_def settled_def context_messages_def\<close>)
  show ?thesis unfolding end_turn_def wp_bindE [of "get _"] wp_get wp_bindE [of "budget_snapshot _"] wp_bindE [of "loop_emit _ _ _ _"]
    by (rule wp_steps [OF snapshot_outside [where X = "\<lambda>_. False"]], rule wp_steps [OF emit_outside], rule rest)
       (blast intro: outside.further)+
qed

lemma wp_quiet_end:
  assumes "\<not> lw_session_closed (al_shared s)" "st \<noteq> COMPLETED_TURN"
  shows "wp (seqE (turn_end_quietly cfg P st reason) (seqE turn_ended
      (bindE (loop_result P st (Some reason) limit et) (\<lambda>r. seqE (finish_session cfg P st reason) (ret r)))))
     (\<lambda>r s'. ar_state r = st \<and> ended r s' \<and> settled s s') E s"
proof -
  have fin: "wp (seqE (finish_session cfg P st reason) (ret r))
      (\<lambda>r s'. ar_state r = st \<and> ended r s' \<and> settled s s') E t"
    if "ar_state r = st" "\<not> lw_session_closed (al_shared t)" "lw_state (al_shared t) = st" "\<not> al_turn_active t" "settled s t"
    for r t
    using that assms(2) unfolding wp_seqE
    by (auto simp: wp_ret ended_def settled_def context_messages_def intro!: wp_finish_session)
  show ?thesis
    unfolding wp_seqE [of "turn_end_quietly _ _ _ _"] turn_ended_def wp_seqE [of "modify _"] wp_modify wp_bindE
    by (rule wp_outside [OF turn_end_quietly_outside [where X = "\<lambda>_. False"]], rule wp_loop_result, rule fin)
       (use assms in \<open>auto simp: settled_def context_messages_def\<close>)
qed

lemma wp_interrupted_result:
  assumes "\<not> lw_session_closed (al_shared s)"
  shows "wp (interrupted_result cfg P reason) (\<lambda>r s'. ar_state r = INTERRUPTED \<and> ended r s' \<and> settled s s') E s"
  unfolding interrupted_result_def by (rule wp_quiet_end [OF assms]) simp

lemma wp_failed_result:
  assumes "\<not> lw_session_closed (al_shared s)"
  shows "wp (failed_result cfg P e) (\<lambda>r s'. ar_state r = FAILED \<and> ended r s' \<and> settled s s') E s"
proof -
  have r: "wp (seqE (turn_end_quietly cfg P FAILED reason) (seqE turn_ended
      (bindE (loop_result P FAILED (Some reason) None (Some (exn_class e))) (\<lambda>r. seqE (finish_session cfg P FAILED reason) (ret r)))))
     (\<lambda>r s'. ar_state r = FAILED \<and> ended r s' \<and> settled s s') E t" if "outside s t" for reason t
    by (rule wp_mono [OF wp_quiet_end])
       (use that assms in \<open>auto simp: outside_def settled_def context_messages_def\<close>)
  show ?thesis
    unfolding failed_result_def Let_def wp_bindE [of "get _"] wp_get wp_seqE [of "emit_best_effort _ _ _ _"]
    by (rule wp_steps [OF best_effort_outside [where X = "\<lambda>_. False"]]) (auto intro: r)
qed

end
