(* ===== verification/TurnProps.thy ===== *)
theory TurnProps
  imports TurnFacts ExecutorRun ContextProps
begin

text \<open>
  The turn as a whole: every iteration of \<open>run_turn\<close> keeps the turn's invariant or ends it,
  every exception reaches a handler that ends it, and the number of iterations is bounded.
\<close>

section \<open>How a turn leaves its body\<close>

definition finished :: "int \<Rightarrow> int \<Rightarrow> message list \<Rightarrow> AgentLoopResult \<Rightarrow> 'w loop_state \<Rightarrow> bool" where
  "finished M T ms0 r s \<longleftrightarrow> ended r s \<and> in_budget M T (al_budget s) \<and> complete ms0 s"

definition going :: "int \<Rightarrow> int \<Rightarrow> message list \<Rightarrow> int \<Rightarrow> 'w loop_state \<Rightarrow> bool" where
  "going M T ms0 k s \<longleftrightarrow> turn_inv M T ms0 True k s \<and> al_pending_plans s = []"

definition broken :: "int \<Rightarrow> int \<Rightarrow> message list \<Rightarrow> exn \<Rightarrow> 'w loop_state \<Rightarrow> bool" where
  "broken M T ms0 e s \<longleftrightarrow> (\<exists>k. turn_inv M T ms0 False k s) \<and> (loop_signal e \<longrightarrow> complete ms0 s)"

lemma stable_going: "stable (going M T ms0 k)"
  using stable_pending unfolding stable_def going_def by blast

lemma going_open: "going M T ms0 k s \<Longrightarrow> \<not> lw_session_closed (al_shared s)"
  by (simp add: going_def turn_inv_def)

lemma going_complete: "going M T ms0 k s \<Longrightarrow> complete ms0 s"
  unfolding going_def by (blast intro: turn_inv_complete)

lemma going_broken: "going M T ms0 k s \<Longrightarrow> broken M T ms0 e s"
  using going_complete unfolding broken_def going_def by (blast intro: turn_inv_weaken)

lemma quiet_broken: "turn_inv M T ms0 strict k s \<Longrightarrow> \<not> loop_signal e \<Longrightarrow> broken M T ms0 e s"
  unfolding broken_def by (blast intro: turn_inv_weaken)

lemma settled_finished: "going M T ms0 k s \<Longrightarrow> settled s s' \<Longrightarrow> ended r s' \<Longrightarrow> finished M T ms0 r s'"
  using going_complete [of M T ms0 k s]
  unfolding finished_def going_def turn_inv_def settled_def in_budget_def counters_def complete_def by auto

lemma going_outside: "going M T ms0 k s \<Longrightarrow> outside s s' \<Longrightarrow> broken M T ms0 e s'"
  using stable_going outside_neutral going_broken unfolding stable_def by metis

lemma wp_end_going:
  assumes "going M T ms0 k s"
  shows "wp (end_turn cfg P st reason limit) (finished M T ms0) (broken M T ms0) s"
  by (rule wp_mono [OF wp_end_turn [OF going_open [OF assms]]])
     (use assms settled_finished going_outside in blast)+

lemma wp_limit_result: "going M T ms0 k s \<Longrightarrow> wp (limit_result cfg P l) (finished M T ms0) (broken M T ms0) s"
  unfolding limit_result_def by (rule wp_end_going)

text \<open>The outcome of one iteration.\<close>

definition stepped :: "int \<Rightarrow> int \<Rightarrow> message list \<Rightarrow> int \<Rightarrow> AgentLoopResult option \<Rightarrow> 'w loop_state \<Rightarrow> bool" where
  "stepped M T ms0 k o' s = (case o' of Some r \<Rightarrow> finished M T ms0 r s | None \<Rightarrow> going M T ms0 k s)"

lemma stepped_simps [simp]:
  "stepped M T ms0 k (Some r) s = finished M T ms0 r s" "stepped M T ms0 k None s = going M T ms0 k s"
  by (simp_all add: stepped_def)

lemma wp_ret_some: "(\<lambda>r. wp (ret (Some r)) (stepped M T ms0 k) E) = finished M T ms0"
  by (simp add: fun_eq_iff wp_ret)

lemma wp_limit_some:
  "going M T ms0 k s \<Longrightarrow> wp (bindE (limit_result cfg P l) (\<lambda>x. ret (Some x))) (stepped M T ms0 k') (broken M T ms0) s"
  unfolding wp_bindE wp_ret_some by (rule wp_limit_result)

lemma wp_skip_for_limit:
  assumes "turn_inv M T ms0 True k s"
  shows "wp (skip_for_limit cfg P l) (stepped M T ms0 k') (broken M T ms0) s"
  unfolding skip_for_limit_def wp_seqE wp_bindE wp_get wp_ret stepped_simps
  by (rule wp_mono [OF wp_skip_plans [OF assms refl]])
     (auto simp: going_def intro: wp_limit_result [unfolded going_def] quiet_broken)

lemma wp_skip_for_cancel:
  assumes "turn_inv M T ms0 True k s"
  shows "wp (skip_for_cancel cfg P) (stepped M T ms0 k') (broken M T ms0) s"
proof -
  have "wp (interrupted_result cfg P reason) (finished M T ms0) (broken M T ms0) t" if "going M T ms0 k t" for reason and t :: "'a loop_state"
    by (rule wp_mono [OF wp_interrupted_result [OF going_open [OF that], where E = "broken M T ms0"]])
       (use settled_finished [OF that] in auto)
  then show ?thesis
    unfolding skip_for_cancel_def wp_seqE wp_bindE wp_get wp_ret stepped_simps
    by (intro wp_mono [OF wp_skip_pending [OF assms]]) (auto simp: going_def intro: quiet_broken)
qed

section \<open>One iteration\<close>

lemma wp_cancelled_now: "wp (cancelled_now P) Q E s = Q (cs_set (lp_signal P (al_world s))) s"
  by (simp add: cancelled_now_def wp_get)

lemma wp_protocol_limit: "wp protocol_limit_reached Q E s = Q (reached (protocol_errors (al_budget s)) (max_protocol_errors (al_budget s))) s"
  by (simp add: protocol_limit_reached_def wp_get)

lemma wp_run_calls:
  "turn_inv M T ms0 True k s \<Longrightarrow> al_pending_plans s = ps \<Longrightarrow>
   wp (run_calls cfg P ps) (stepped M T ms0 k) (broken M T ms0) s"
proof (induction ps arbitrary: s)
  case Nil
  then show ?case by (simp add: wp_ret going_def)
next
  case (Cons p ps)
  let ?J = "\<lambda>s. turn_inv M T ms0 True k s \<and> al_pending_plans s = p # ps"
  have after: "wp (if cs_set (lp_signal P (al_world t)) then skip_for_cancel cfg P
      else bindE protocol_limit_reached (\<lambda>over. if over then skip_for_limit cfg P PROTOCOL_ERRORS else run_calls cfg P ps))
      (stepped M T ms0 k) (broken M T ms0) t"
    if "turn_inv M T ms0 True k t \<and> al_pending_plans t = ps" for t
    using that Cons.IH [of t] by (auto simp: wp_bindE wp_protocol_limit intro: wp_skip_for_cancel wp_skip_for_limit)
  have call: "wp (seqE (run_call cfg P p) (bindE (cancelled_now P) (\<lambda>cancelled.
           if cancelled then skip_for_cancel cfg P
           else bindE protocol_limit_reached (\<lambda>over.
             if over then skip_for_limit cfg P PROTOCOL_ERRORS else run_calls cfg P ps))))
      (stepped M T ms0 k) (broken M T ms0) t"
    if "?J t" "\<not> reached (tool_calls (al_budget t)) (max_tool_calls (al_budget t))" for t
    unfolding wp_seqE [of "run_call _ _ _"] wp_bindE [of "cancelled_now _"] wp_cancelled_now
    by (rule wp_mono [OF wp_run_call [of M T ms0 k t p ps]])
       (use that after in \<open>auto intro: quiet_broken\<close>)
  have due: "wp (if late then skip_for_limit cfg P WALL_TIME
      else bindE (get al_budget) (\<lambda>b.
        if reached (tool_calls b) (max_tool_calls b) then skip_for_limit cfg P TOOL_CALLS
        else seqE (run_call cfg P p) (bindE (cancelled_now P) (\<lambda>cancelled.
           if cancelled then skip_for_cancel cfg P
           else bindE protocol_limit_reached (\<lambda>over.
             if over then skip_for_limit cfg P PROTOCOL_ERRORS else run_calls cfg P ps)))))
      (stepped M T ms0 k) (broken M T ms0) t" if "?J t" for late t
    using that call [OF that] by (auto simp: wp_bindE [of "get _"] wp_get intro: wp_skip_for_limit)
  have start: "?J s" using Cons.prems by simp
  show ?case unfolding run_calls.simps
    by (rule wp_seq_neutral [OF check_interrupt_neutral stable_pending start],
        blast intro: quiet_broken,
        rule wp_seq_neutral [OF check_active_view_neutral stable_pending], assumption,
        blast intro: quiet_broken,
        rule wp_bind_neutral [OF deadline_passed_neutral [where X = "\<lambda>_. False"] stable_pending _ _ due])
       auto
qed

text \<open>A message that is neither a result nor declares a call joins the books.\<close>

lemma going_append:
  assumes "going M T ms0 k s" "appended m s s'" "\<not> has_role ''tool'' m" "dget m (lit ''tool_calls'') = None"
  shows "going M T ms0 k s'"
proof -
  obtain bs where bs: "list_all turn_block bs" "context_messages s = ms0 @ concat bs"
    using going_complete [OF assms(1)] unfolding complete_def by blast
  show ?thesis using assms(1,2) bs book_append [OF bs(1) assms(3,4), of True ms0] assms(2)
    by (auto simp: going_def turn_inv_def appended_def context_messages_def)
qed

lemma wp_append_going:
  assumes "going M T ms0 k s" "\<not> has_role ''tool'' m" "dget m (lit ''tool_calls'') = None"
  shows "wp (loop_append m i) (\<lambda>_. going M T ms0 k) (broken M T ms0) s"
  by (rule wp_mono [OF wp_loop_append]) (use assms going_append going_broken in blast)+

lemma wp_emit_going:
  assumes "going M T ms0 k s" "\<And>e s'. going M T ms0 k s' \<Longrightarrow> wp (f e) Q (broken M T ms0) s'"
  shows "wp (bindE (loop_emit cfg P ty payload) f) Q (broken M T ms0) s"
  by (rule wp_bind_neutral [OF loop_emit_neutral stable_going assms(1)]) (auto intro: going_broken assms(2))

lemma wp_recover:
  assumes "going M T ms0 k s"
  shows "wp (recover_empty_response cfg P r) (\<lambda>_. going M T ms0 k) (broken M T ms0) s"
  unfolding recover_empty_response_def
  by (rule wp_seq_neutral [OF protocol_error_neutral [where X = "\<lambda>_. False"] stable_going assms], simp,
      unfold wp_bindE [of "get _"] wp_get, rule wp_emit_going, assumption, rule wp_append_going)
     (simp_all add: protocol_notice_def system_message_def has_role_def)

lemma wp_finish_text:
  assumes "going M T ms0 k s"
  shows "wp (finish_text cfg P r) (stepped M T ms0 k) (broken M T ms0) s"
proof (cases "nr_text r = []")
  case True
  have "wp (bindE protocol_limit_reached (\<lambda>over.
         if over then bindE (limit_result cfg P PROTOCOL_ERRORS) (\<lambda>x. ret (Some x)) else ret None))
      (stepped M T ms0 k) (broken M T ms0) t" if "going M T ms0 k t" for t
    using that by (auto simp: wp_bindE [of protocol_limit_reached] wp_protocol_limit wp_ret intro: wp_limit_some)
  then show ?thesis using True by (auto simp: finish_text_def wp_seqE intro: wp_mono [OF wp_recover [OF assms]])
next
  case False
  have "wp (bindE (end_turn cfg P COMPLETED_TURN (lit ''assistant_completed'') None) (\<lambda>x. ret (Some x)))
      (stepped M T ms0 k) (broken M T ms0) t" if "going M T ms0 k t" for t
    unfolding wp_bindE wp_ret_some by (rule wp_end_going [OF that])
  then show ?thesis using False unfolding finish_text_def
    by (auto intro: wp_seq_neutral [OF reset_protocol_errors_neutral [where X = "\<lambda>_. False"] stable_going assms])
qed

lemma wp_accept_response:
  assumes "going M T ms0 k s"
  shows "wp (accept_response cfg P r)
     (\<lambda>plans s'. turn_inv M T ms0 True k s' \<and> al_pending_plans s' = plans) (broken M T ms0) s"
proof -
  have enter: "wp (seqE (loop_append (assistant_message r plans) i)
      (seqE (modify (\<lambda>s. s\<lparr>al_pending_plans := plans,
                al_last_assistant_text := (if nr_text r \<noteq> [] then nr_text r else al_last_assistant_text s)\<rparr>)) (ret plans)))
      (\<lambda>plans s'. turn_inv M T ms0 True k s' \<and> al_pending_plans s' = plans) (broken M T ms0) t"
    if t: "going M T ms0 k t" for plans i and t :: "'a loop_state"
  proof -
    obtain bs where bs: "list_all turn_block bs" "context_messages t = ms0 @ concat bs"
      using going_complete [OF t] unfolding complete_def by blast
    have declared: "turn_inv M T ms0 True k (t'\<lparr>al_pending_plans := plans, al_last_assistant_text := x\<rparr>)"
      if "appended (assistant_message r plans) t t'" for t' x
      using t that bs book_declare [OF bs(1), of True ms0 plans r]
      by (auto simp: going_def turn_inv_def appended_def context_messages_def)
    show ?thesis unfolding wp_seqE wp_modify wp_ret
      by (rule wp_mono [OF wp_loop_append]) (use declared t going_broken in auto)
  qed
  show ?thesis unfolding accept_response_def
    by (rule wp_seq_neutral [OF record_usage_neutral stable_going assms], rule going_broken, assumption,
        rule wp_bind_neutral [OF plan_calls_neutral stable_going], assumption, rule going_broken, assumption,
        unfold wp_bindE [of "get _"] wp_get, rule wp_emit_going, assumption, rule enter)
qed

lemma wp_current_limit:
  assumes "going M T ms0 k s"
  shows "wp (current_limit P) (\<lambda>l s'. going M T ms0 k s' \<and> (l = None \<longrightarrow> k < M)) E s"
proof -
  have "\<not> reached (model_steps (al_budget s)) (max_steps (al_budget s)) \<Longrightarrow> k < M"
    using assms by (auto simp: going_def turn_inv_def in_budget_def reached_def)
  then show ?thesis using assms
    unfolding current_limit_def wp_bindE [of "get _"] wp_get
    by (auto simp: wp_ret intro!: wp_bind_neutral [OF deadline_passed_neutral [where X = "\<lambda>_. False"] stable_going assms])
qed

definition after_response ::
  "loop_config \<Rightarrow> 'w loop_ports \<Rightarrow> NormalizedAssistantResponse \<Rightarrow> PlannedToolCall list \<Rightarrow> ('w loop_state, AgentLoopResult option) effect" where
  "after_response cfg P r plans =
     bindE (cancelled_now P) (\<lambda>cancelled.
     if cancelled then skip_for_cancel cfg P
     else
       bindE (deadline_passed P) (\<lambda>late.
       if late then skip_for_limit cfg P WALL_TIME
       else if plans = [] then finish_text cfg P r
       else run_calls cfg P plans))"

lemma wp_after_response:
  assumes "turn_inv M T ms0 True k s \<and> al_pending_plans s = plans"
  shows "wp (after_response cfg P r plans) (stepped M T ms0 k) (broken M T ms0) s"
proof -
  have rest: "wp (if late then skip_for_limit cfg P WALL_TIME else if plans = [] then finish_text cfg P r else run_calls cfg P plans)
      (stepped M T ms0 k) (broken M T ms0) t" if "turn_inv M T ms0 True k t \<and> al_pending_plans t = plans" for late t
    using that by (auto intro: wp_skip_for_limit wp_run_calls wp_finish_text simp: going_def)
  have "wp (bindE (deadline_passed P) (\<lambda>late. if late then skip_for_limit cfg P WALL_TIME
      else if plans = [] then finish_text cfg P r else run_calls cfg P plans)) (stepped M T ms0 k) (broken M T ms0) s"
    by (rule wp_bind_neutral [OF deadline_passed_neutral [where X = "\<lambda>_. False"] stable_pending assms _ rest]) simp_all
  then show ?thesis unfolding after_response_def wp_bindE [of "cancelled_now _"] wp_cancelled_now
    using assms wp_skip_for_cancel by auto
qed

lemma wp_turn_step:
  assumes "going M T ms0 k s"
  shows "wp (turn_step cfg P) (\<lambda>x s'. stepped M T ms0 (k + 1) x s' \<and> (x = None \<longrightarrow> k < M)) (broken M T ms0) s"
proof -
  let ?Q = "\<lambda>x s'. stepped M T ms0 (k + 1) x s' \<and> (x = None \<longrightarrow> k < M)"
  have asked: "wp (seqE (update_budget (\<lambda>b. record_model_step b 1)) (bindE (complete_model_request cfg P) (\<lambda>r.
      bindE (accept_response cfg P r) (after_response cfg P r)))) ?Q (broken M T ms0) t"
    if t: "going M T ms0 k t" "k < M" for t :: "'a loop_state"
  proof -
    have "going M T ms0 (k + 1) (t\<lparr>al_budget := (al_budget t)\<lparr>model_steps := model_steps (al_budget t) + 1\<rparr>\<rparr>)"
      using t by (auto simp: going_def turn_inv_def in_budget_def context_messages_def)
    moreover have "wp (bindE (accept_response cfg P r) (after_response cfg P r)) ?Q (broken M T ms0) u"
      if "going M T ms0 (k + 1) u" for r and u :: "'a loop_state"
      unfolding wp_bindE
      by (rule wp_mono [OF wp_accept_response [OF that]], rule wp_mono [OF wp_after_response]) (use t(2) in auto)
    ultimately show ?thesis
      unfolding wp_seqE [of "update_budget _"] wp_record_model_step
      by (intro wp_bind_neutral [OF complete_model_request_neutral stable_going]) (auto intro: going_broken)
  qed
  have limit: "wp (case l of Some l \<Rightarrow> bindE (limit_result cfg P l) (\<lambda>r. ret (Some r))
      | None \<Rightarrow> seqE (update_budget (\<lambda>b. record_model_step b 1)) (bindE (complete_model_request cfg P) (\<lambda>r.
          bindE (accept_response cfg P r) (after_response cfg P r)))) ?Q (broken M T ms0) t"
    if "going M T ms0 k t \<and> (l = None \<longrightarrow> k < M)" for l and t :: "'a loop_state"
  proof (cases l)
    case (Some l')
    have "wp (bindE (limit_result cfg P l') (\<lambda>r. ret (Some r))) ?Q (broken M T ms0) t"
      unfolding wp_bindE by (rule wp_mono [OF wp_limit_result [of M T ms0 k]]) (use that in \<open>auto simp: wp_ret\<close>)
    then show ?thesis using Some by simp
  qed (use that asked in simp)
  show ?thesis unfolding turn_step_def after_response_def [symmetric]
    by (rule wp_seq_neutral [OF check_interrupt_neutral stable_going assms], rule going_broken, assumption,
        rule wp_seq_neutral [OF check_active_view_neutral stable_going], assumption, rule going_broken, assumption,
        rule wp_bindI [OF wp_current_limit], assumption, rule limit)
qed

section \<open>The loop\<close>

text \<open>With fuel beyond the steps that are left, the loop ends in a result.\<close>

lemma wp_turn_loop:
  "going M T ms0 k s \<Longrightarrow>
   wp (turn_loop cfg P n)
     (\<lambda>x s'. case x of Some r \<Rightarrow> finished M T ms0 r s' | None \<Rightarrow> int n \<le> M - k)
     (broken M T ms0) s"
proof (induction n arbitrary: k s)
  case 0
  then show ?case by (simp add: wp_ret going_def turn_inv_def in_budget_def)
next
  case (Suc n)
  show ?case unfolding turn_loop.simps wp_bindE
  proof (rule wp_mono [OF wp_turn_step [OF Suc.prems]])
    fix x and s' :: "'a loop_state"
    assume x: "stepped M T ms0 (k + 1) x s' \<and> (x = None \<longrightarrow> k < M)"
    let ?Q = "\<lambda>x s'. case x of Some r \<Rightarrow> finished M T ms0 r s' | None \<Rightarrow> int (Suc n) \<le> M - k"
    show "wp (case x of None \<Rightarrow> turn_loop cfg P n | Some x \<Rightarrow> ret (Some x)) ?Q (broken M T ms0) s'"
    proof (cases x)
      case None
      then show ?thesis using x by (auto intro!: wp_mono [OF Suc.IH] split: option.splits)
    next
      case (Some r)
      then show ?thesis using x by (simp add: wp_ret)
    qed
  qed
qed

lemma wp_start_turn:
  assumes "going M T ms0 k s"
  shows "wp (start_turn cfg P m) (\<lambda>_. going M T ms0 k) (broken M T ms0) s"
  unfolding start_turn_def
  by (rule wp_seq_neutral [OF check_active_view_neutral stable_going assms], rule going_broken, assumption,
      rule wp_seq_neutral [OF start_session_neutral stable_going], assumption, rule going_broken, assumption,
      rule wp_emit_going, assumption, rule wp_append_going)
     (simp_all add: has_role_def)

section \<open>The handlers\<close>

text \<open>Every message of the turn is there, but an unfinished last exchange may lack results.\<close>

definition closed_books :: "int \<Rightarrow> int \<Rightarrow> message list \<Rightarrow> AgentLoopResult \<Rightarrow> 'w loop_state \<Rightarrow> bool" where
  "closed_books M T ms0 r s \<longleftrightarrow>
     ended r s \<and> in_budget M T (al_budget s) \<and> (\<exists>pending. book False ms0 pending (context_messages s)) \<and>
     (ar_state r \<in> {COMPLETED_TURN, LIMIT_REACHED} \<longrightarrow> complete ms0 s)"

lemma finished_closed: "finished M T ms0 r s \<Longrightarrow> closed_books M T ms0 r s"
  unfolding finished_def closed_books_def complete_def book_def by blast

lemma settled_closed:
  "turn_inv M T ms0 False k s \<Longrightarrow> settled s s' \<Longrightarrow> ended r s' \<Longrightarrow> ar_state r \<notin> {COMPLETED_TURN, LIMIT_REACHED} \<Longrightarrow>
   closed_books M T ms0 r s'"
  unfolding closed_books_def turn_inv_def settled_def in_budget_def counters_def by auto

lemma inv_open: "turn_inv M T ms0 strict k s \<Longrightarrow> \<not> lw_session_closed (al_shared s)"
  by (simp add: turn_inv_def)

lemma wp_failed_closed:
  "turn_inv M T ms0 False k s \<Longrightarrow> wp (failed_result cfg P e) (closed_books M T ms0) E s"
  by (rule wp_mono [OF wp_failed_result [OF inv_open]]) (auto intro: settled_closed)

lemma wp_interrupted_closed:
  "turn_inv M T ms0 False k s \<Longrightarrow> wp (interrupted_result cfg P reason) (closed_books M T ms0) E s"
  by (rule wp_mono [OF wp_interrupted_result [OF inv_open]]) (auto intro: settled_closed)

lemma wp_consume_published:
  assumes "turn_inv M T ms0 False k s"
  shows "wp (consume_published cfg) (\<lambda>_. turn_inv M T ms0 False k) (\<lambda>_. turn_inv M T ms0 False k) s"
proof (cases "al_pending_plans s")
  case Nil
  then show ?thesis using assms by (simp add: consume_published_def wp_simps)
next
  case (Cons p ps)
  have "due M T ms0 False k p ps (s\<lparr>al_pending_plans := ps\<rparr>)"
    using assms Cons by (auto simp: due_def turn_inv_def context_messages_def)
  from wp_append_due [OF this, of "\<lambda>_. turn_inv M T ms0 False k" "\<lambda>_. turn_inv M T ms0 False k"]
  show ?thesis using assms Cons by (auto simp: consume_published_def wp_simps split: option.split)
qed

lemma wp_pair_pending:
  assumes "turn_inv M T ms0 False k s"
  shows "wp (pair_pending cfg P reason status) (\<lambda>_. turn_inv M T ms0 False k) (\<lambda>_. turn_inv M T ms0 False k) s"
  unfolding pair_pending_def wp_seqE
  by (rule wp_mono [OF wp_consume_published [OF assms]], rule wp_mono [OF wp_skip_pending]) auto

lemma wp_fail_turn:
  assumes "turn_inv M T ms0 False k s"
  shows "wp (fail_turn cfg P e) (closed_books M T ms0) E s"
  unfolding fail_turn_def wp_bindE wp_try_base wp_seqE
  by (rule wp_mono [OF wp_pair_pending [OF assms]]) (auto simp: wp_ret intro: wp_failed_closed)

lemma wp_interrupt_turn:
  assumes "turn_inv M T ms0 False k s"
  shows "wp (interrupt_turn cfg P e) (closed_books M T ms0) E s"
proof -
  let ?I = "turn_inv M T ms0 False k"
  have signal: "wp (bindE (get (\<lambda>s. lp_signal P (al_world s))) (\<lambda>sig.
         bindE (if cs_set sig then ret sig
                else bindE (lift_res (cancel sig (lit ''keyboard_interrupt''))) (\<lambda>(sig', _).
                  seqE (on_world (modify (lp_set_signal P sig'))) (ret sig'))) (\<lambda>sig'.
         interrupted_result cfg P (cancel_reason_or sig' (exn_class e)))))
      (closed_books M T ms0) E t" if "?I t" for t :: "'a loop_state"
  proof (cases "cs_set (lp_signal P (al_world t))")
    case True
    then show ?thesis using that by (simp add: wp_bindE wp_get wp_ret wp_interrupted_closed)
  next
    case False
    have "cancel (lp_signal P (al_world t)) (lit ''keyboard_interrupt'')
        = Inr (\<lparr>cs_set = True, cs_reason = Some (lit ''keyboard_interrupt'')\<rparr>, True)"
      using False by (simp add: cancel_def strip_eq_Nil_iff lit_def is_space_def)
    moreover have set: "wp (on_world (modify f)) (\<lambda>_. ?I) (\<lambda>_ _. False) t" for f
      by (rule wp_neutral [OF on_world_neutral [where X = "\<lambda>_. False"] stable_inv that])
         (simp_all add: steps_def modify_def)
    ultimately show ?thesis using False
      by (auto simp: wp_bindE wp_seqE wp_get wp_ret wp_lift_res intro!: wp_mono [OF set] wp_interrupted_closed)
  qed
  show ?thesis unfolding interrupt_turn_def wp_bindE [of "try_base _ _"] wp_try_base wp_seqE [of "pair_pending _ _ _ _"]
    by (rule wp_mono [OF wp_pair_pending [OF assms]])
       (auto simp: wp_ret wp_bindE [of "failed_result _ _ _"] intro!: signal wp_mono [OF wp_failed_closed])
qed

lemma wp_limit_handler:
  assumes "turn_inv M T ms0 False k s" "complete ms0 s"
  shows "wp (limit_result cfg P l) (closed_books M T ms0) (\<lambda>_. outside s) s"
  unfolding limit_result_def
  by (rule wp_mono [OF wp_end_turn [OF inv_open [OF assms(1)]]])
     (use assms in \<open>auto simp: closed_books_def turn_inv_def settled_def in_budget_def counters_def complete_def\<close>)

lemma wp_handle_turn:
  assumes "broken M T ms0 e s"
  shows "wp (handle_turn cfg P e) (closed_books M T ms0) (\<lambda>_ s'. loop_signal e \<and> outside s s') s"
proof -
  obtain k where k: "turn_inv M T ms0 False k s" "loop_signal e \<Longrightarrow> complete ms0 s"
    using assms unfolding broken_def by blast
  have limit: "loop_signal e \<Longrightarrow> wp (limit_result cfg P l) (closed_books M T ms0) (\<lambda>_ s'. loop_signal e \<and> outside s s') s" for l
    by (rule wp_mono [OF wp_limit_handler]) (use k in auto)
  show ?thesis
    using k limit wp_fail_turn [OF k(1)] wp_interrupt_turn [OF k(1)] unfolding handle_turn_def
    by (cases e) simp_all
qed

lemma wp_run_turn:
  assumes "in_budget M T (al_budget s)" "\<not> lw_session_closed (al_shared s)" "\<not> al_turn_active s"
    and "strip m \<noteq> []"
  shows "wp (run_turn cfg P fuel m)
     (\<lambda>x s'. case x of Some r \<Rightarrow> closed_books M T (context_messages s) r s'
        | None \<Rightarrow> int fuel \<le> M - model_steps (al_budget s))
     (\<lambda>_ s'. al_turn_active s' \<and> \<not> lw_session_closed (al_shared s') \<and> complete (context_messages s) s') s"
proof -
  let ?ms0 = "context_messages s" and ?k = "model_steps (al_budget s)"
  let ?Q = "\<lambda>x s'. case x of Some r \<Rightarrow> closed_books M T ?ms0 r s' | None \<Rightarrow> int fuel \<le> M - ?k"
  let ?E = "\<lambda>_ s'. al_turn_active s' \<and> \<not> lw_session_closed (al_shared s') \<and> complete ?ms0 s'"
  have begun: "wp begin_turn (\<lambda>_. going M T ?ms0 ?k) ?E s"
    using assms by (simp add: begin_turn_def set_state_def on_shared_def wp_simps going_def turn_inv_def
        context_messages_def book_def) (auto intro!: exI [of _ "[]"])
  have body: "wp (seqE (start_turn cfg P m) (turn_loop cfg P fuel)) ?Q (broken M T ?ms0) t"
    if "going M T ?ms0 ?k t" for t :: "'a loop_state"
    by (rule wp_seqI [OF wp_start_turn [OF that]], rule wp_mono [OF wp_turn_loop])
       (auto split: option.splits intro: finished_closed)
  have handled: "wp (bindE (handle_turn cfg P e) (\<lambda>r. ret (Some r))) ?Q ?E t" if "broken M T ?ms0 e t" for e and t :: "'a loop_state"
    unfolding wp_bindE
    by (rule wp_mono [OF wp_handle_turn [OF that]])
       (use that in \<open>auto simp: wp_ret outside_def broken_def turn_inv_def complete_def context_messages_def\<close>)
  have "wp (try_base (seqE (start_turn cfg P m) (turn_loop cfg P fuel)) (\<lambda>e. bindE (handle_turn cfg P e) (\<lambda>r. ret (Some r)))) ?Q ?E t"
    if "going M T ?ms0 ?k t" for t :: "'a loop_state"
    unfolding wp_try_base by (rule wp_mono [OF body [OF that]]) (auto intro: handled)
  then show ?thesis using assms(2-4) begun
    by (auto simp: run_turn_def wp_bindE [of "get _"] wp_get intro!: wp_seqI)
qed

section \<open>Grouping the messages of a turn\<close>

lemma tool_call_ids_assistant:
  "tool_call_ids (assistant_message r plans) =
     (if plans = [] then Inr [] else call_ids (map declared_call plans) [])"
  by (simp add: assistant_message_def tool_call_ids_def)

lemma call_ids_declared: "call_ids (map declared_call plans) seen = Inr ids \<Longrightarrow> ids = seen @ map pc_context_tool_call_id plans"
  by (induction plans arbitrary: seen) (fastforce simp: declared_call_def split: if_splits)+

lemma turn_block_whole:
  assumes "turn_block ms" "\<forall>m \<in> set ms. is_ok (tool_call_ids m)"
  shows "whole ms"
  using assms(1) unfolding turn_block_def
proof (elim disjE exE conjE)
  fix m assume "ms = [m]" "\<not> has_role ''tool'' m" "dget m (lit ''tool_calls'') = None" "detach_message m = Inr m"
  then show ?thesis by (simp add: whole_def expected_ids_def tool_call_ids_def)
next
  fix r plans rs assume a: "plans \<noteq> []" "ms = assistant_message r plans # rs" "list_all2 answers plans rs"
  obtain ids where "tool_call_ids (assistant_message r plans) = Inr ids" using assms(2) a(2) by (auto simp: is_ok_iff)
  then have ids: "tool_call_ids (assistant_message r plans) = Inr (map pc_context_tool_call_id plans)"
    using a(1) call_ids_declared [of plans "[]" ids] by (simp add: tool_call_ids_assistant)
  have rs: "map result_id rs = map Some (map pc_context_tool_call_id plans)" "list_all (has_role ''tool'') rs"
    using a(3) by (induction rule: list_all2_induct) (simp_all add: answers_def)
  have role: "has_role ''assistant'' (assistant_message r plans)" "\<not> has_role ''tool'' (assistant_message r plans)"
    by (simp_all add: assistant_message_def has_role_def)
  show ?thesis
    unfolding whole_def a(2) list.case expected_ids_def using ids rs role
    by (simp del: mset_map)
qed

lemma whole_groups:
  assumes "list_all whole bs" "length ss = length (concat bs)" "list_all (\<lambda>i. 0 \<le> i) ss"
    and "list_all (\<lambda>m. detach_message m = Inr m) (concat bs)"
  shows "\<exists>gs. list_all group_ok gs \<and> concat (map mg_messages gs) = concat bs \<and> concat (map mg_sequences gs) = ss"
  using assms
proof (induction bs arbitrary: ss)
  case (Cons b bs)
  have "length (drop (length b) ss) = length (concat bs)" "list_all (\<lambda>i. 0 \<le> i) (drop (length b) ss)"
    using Cons.prems by (auto simp: list_all_iff dest: in_set_dropD)
  then obtain gs where gs: "list_all group_ok gs" "concat (map mg_messages gs) = concat bs"
    "concat (map mg_sequences gs) = drop (length b) ss"
    using Cons.IH [of "drop (length b) ss"] Cons.prems by auto
  let ?g = "\<lparr>mg_messages = b, mg_sequences = take (length b) ss\<rparr>"
  have "group_ok ?g" using Cons.prems by (auto simp: group_ok_def list_all_iff dest: in_set_takeD)
  then show ?case using gs by (intro exI [of _ "?g # gs"]) simp
qed (auto intro: exI [of _ "[]"])

lemma group_ok_whole: "list_all group_ok gs \<Longrightarrow> list_all whole (map mg_messages gs)"
  by (auto simp: list_all_iff group_ok_def)

lemma turn_block_detached: "turn_block ms \<Longrightarrow> m \<in> set ms \<Longrightarrow> detach_message m = Inr m"
proof -
  have "detach_message m = Inr m" if "answers p m" for p
    using that by (auto simp: answers_def has_role_def detach_message_def)
  moreover have "\<exists>p. answers p m" if "list_all2 answers plans rs" "m \<in> set rs" for plans rs
    using that by (induction rule: list_all2_induct) auto
  moreover have "detach_message (assistant_message r plans) = Inr (assistant_message r plans)" for r plans
    by (simp add: assistant_message_def detach_message_def)
  ultimately show "turn_block ms \<Longrightarrow> m \<in> set ms \<Longrightarrow> ?thesis"
    unfolding turn_block_def by fastforce
qed

text \<open>What a turn leaves in the context can be grouped when what was there could.\<close>

lemma complete_groups:
  assumes "complete ms0 s" "group_messages ms0 ss0 = Inr gs0"
    and "\<forall>m \<in> set (drop (length ms0) (context_messages s)). is_ok (tool_call_ids m)"
    and "length ss = length (context_messages s)" "list_all (\<lambda>i. 0 \<le> i) ss"
  shows "is_ok (group_messages (context_messages s) ss)"
proof -
  obtain bs where bs: "list_all turn_block bs" "context_messages s = ms0 @ concat bs"
    using assms(1) unfolding complete_def by blast
  have g0: "concat (map mg_messages gs0) = ms0" "list_all group_ok gs0"
    using assms(2) by (simp_all add: group_messages_iff)
  let ?bs = "map mg_messages gs0 @ bs"
  have all: "concat ?bs = context_messages s" using bs(2) g0(1) by simp
  have "whole b" if "b \<in> set bs" for b
    using that bs assms(3) by (intro turn_block_whole) (auto simp: list_all_iff)
  then have "list_all whole ?bs" using group_ok_whole [OF g0(2)] by (auto simp: list_all_iff)
  moreover have "list_all (\<lambda>m. detach_message m = Inr m) (concat ?bs)"
    using g0(2) bs(1) turn_block_detached by (auto simp: list_all_iff group_ok_def)
  ultimately obtain gs where "list_all group_ok gs" "concat (map mg_messages gs) = context_messages s"
    "concat (map mg_sequences gs) = ss"
    using whole_groups [of ?bs ss] assms(4,5) unfolding all by auto
  then show ?thesis using group_messages_iff [of "context_messages s" ss gs] by (simp add: is_ok_iff)
qed

section \<open>Properties\<close>

lemma turn_outcome:
  assumes "in_budget M T (al_budget s)" "\<not> lw_session_closed (al_shared s)" "\<not> al_turn_active s"
    and "strip m \<noteq> []" "run_turn cfg P fuel m s = (s', x)"
  shows "case x of
      Inr (Some r) \<Rightarrow> closed_books M T (context_messages s) r s'
    | Inr None \<Rightarrow> int fuel \<le> M - model_steps (al_budget s)
    | Inl e \<Rightarrow> al_turn_active s' \<and> \<not> lw_session_closed (al_shared s') \<and> complete (context_messages s) s'"
  using wp_run_turn [OF assms(1-4), of cfg P fuel] assms(5) by (auto simp: wp_def split: sum.splits option.splits)

text \<open>C4: A turn ends.  With a limit on the model steps and more fuel than steps left, \<open>run_turn\<close>
  never runs out of it: either it returns a result, within the limits on steps and on tool
  calls, with the loop's state word that of the result, no active turn, and the session closed
  and the environment released exactly when the turn did not complete; or an exception leaves
  it, with the turn still marked active and the session open.\<close>

theorem turn_ends:
  assumes "max_steps (al_budget s) = Some M" and "max_tool_calls (al_budget s) = Some T"
    and "model_steps (al_budget s) \<le> M" and "tool_calls (al_budget s) \<le> T"
    and "M - model_steps (al_budget s) < int fuel"
    and "\<not> lw_session_closed (al_shared s)" and "\<not> al_turn_active s" and "strip m \<noteq> []"
  shows "case run_turn cfg P fuel m s of
      (s', Inr (Some r)) \<Rightarrow>
        lw_state (al_shared s') = ar_state r \<and> \<not> al_turn_active s' \<and>
        (lw_session_closed (al_shared s') \<longleftrightarrow> ar_state r \<noteq> COMPLETED_TURN) \<and>
        (ar_state r \<noteq> COMPLETED_TURN \<longrightarrow> \<not> al_environment_started s') \<and>
        model_steps (al_budget s') \<le> M \<and> tool_calls (al_budget s') \<le> T
    | (s', Inr None) \<Rightarrow> False
    | (s', Inl e) \<Rightarrow> al_turn_active s' \<and> \<not> lw_session_closed (al_shared s')"
  using turn_outcome [of M T s m cfg P fuel] assms
  by (cases "run_turn cfg P fuel m s")
     (auto simp: in_budget_def closed_books_def ended_def split: sum.splits option.splits)

text \<open>C3: Every declared call gets its result.  The messages a turn appends, up to a last exchange that
  a failure or an interrupt may leave unfinished, are single messages that declare no call, and
  assistant messages each followed by exactly one result for each of its calls, in the order of
  the calls and under their ids; when the turn completed or ran into a limit, no exchange is
  unfinished.\<close>

theorem turn_pairs_calls:
  assumes "max_steps (al_budget s) = Some M" and "max_tool_calls (al_budget s) = Some T"
    and "model_steps (al_budget s) \<le> M" and "tool_calls (al_budget s) \<le> T"
    and "\<not> lw_session_closed (al_shared s)" and "\<not> al_turn_active s" and "strip m \<noteq> []"
    and "run_turn cfg P fuel m s = (s', Inr (Some r))"
  shows "\<exists>bs tail. recent_messages (al_context s') = recent_messages (al_context s) @ concat bs @ tail \<and>
    list_all turn_block bs \<and>
    (tail = [] \<or> ar_state r \<notin> {COMPLETED_TURN, LIMIT_REACHED} \<and> (\<exists>pending. partial False pending tail))"
proof -
  have c: "closed_books M T (context_messages s) r s'"
    using turn_outcome [of M T s m cfg P fuel s' "Inr (Some r)"] assms by (simp add: in_budget_def)
  show ?thesis
  proof (cases "complete (context_messages s) s'")
    case True
    then show ?thesis unfolding complete_def context_messages_def by fastforce
  next
    case False
    then have "ar_state r \<notin> {COMPLETED_TURN, LIMIT_REACHED}" "\<exists>pending. book False (context_messages s) pending (context_messages s')"
      using c unfolding closed_books_def by auto
    then show ?thesis unfolding book_def context_messages_def by fastforce
  qed
qed


section \<open>A turn at its limit\<close>

text \<open>A loop whose step limit is used up: the turn records its message and ends.\<close>

definition idle_ports :: "nat run_world loop_ports" where
  "idle_ports =
     \<lparr>lp_exec = sample_ports,
      lp_publish = (\<lambda>ev. ret \<lparr>er_event = Some
         \<lparr>ev_schema_version = 1, ev_session_id = lit ''s'', ev_event_id = lit ''e'', ev_agent_id = lit ''a'',
          ev_sequence = 1, ev_type = lit ''t'', ev_timestamp = lit ''t'', ev_parent_agent_id = None,
          ev_correlation_id = None, ev_provider_tool_call_id = None, ev_payload = []\<rparr>, er_deliveries = []\<rparr>),
      lp_clock = (\<lambda>w. (w, 0)), lp_signal = (\<lambda>_. CancellationSignal_init), lp_set_signal = (\<lambda>_ w. w),
      lp_start = ret (), lp_close = ret (), lp_runtime_active = (\<lambda>_. []), lp_active_names = (\<lambda>_. []),
      lp_active_schemas = (\<lambda>_. []), lp_complete = (\<lambda>_ _ _. raise KeyboardInterrupt), lp_stack = (\<lambda>_ _. [])\<rparr>"

definition idle_config :: loop_config where
  "idle_config = \<lparr>lc_exec = sample_config, lc_builder = sample_builder, lc_compactor = sample_compactor,
     lc_model_parameters = [], lc_max_compactions_per_request = 8\<rparr>"

definition spent_state :: "nat run_world loop_state" where
  "spent_state =
     \<lparr>al_exec = \<lparr>xs_world = \<lparr>lw_world = xs_world sample_state, lw_last_sequence = None, lw_state = RUNNING, lw_session_closed = False\<rparr>,
        xs_issued = {}, xs_event_ids = {}, xs_errors = [], xs_last_result = None, xs_last_published = False,
        xs_result = XNone, xs_policy_emitted = False\<rparr>,
      al_context = ContextState_empty,
      al_budget = \<lparr>max_steps = Some 2, max_tool_calls = Some 0, max_protocol_errors = None, max_wall_seconds = None,
        model_steps = 2, tool_calls = 0, protocol_errors = 0, input_tokens = 0, output_tokens = 0,
        started_at = Some 0, deadline = None\<rparr>,
      al_session_started = False, al_environment_started = False, al_turn_active = False,
      al_last_assistant_text = [], al_issued_correlations = {}, al_pending_plans = []\<rparr>"

lemma spent_run:
  "\<exists>s' r. run_turn idle_config idle_ports 1 (lit ''go'') spent_state = (s', Inr (Some r)) \<and> ar_state r = LIMIT_REACHED \<and>
     recent_messages (al_context s') = [[(lit ''role'', JStr (lit ''user'')), (lit ''content'', JStr (lit ''go''))]]"
proof -
  have "strip (lit ''go'') \<noteq> []" by (simp add: strip_eq_Nil_iff lit_def is_space_def)
  then show ?thesis
    by (simp add: run_turn_def begin_turn_def set_state_def on_shared_def on_world_def start_turn_def check_active_view_def
      start_session_def loop_emit_def loop_append_def turn_step_def check_interrupt_def current_limit_def limit_result_def
      end_turn_def budget_snapshot_def turn_ended_def loop_result_def finish_session_def emit_best_effort_def
      close_environment_def stored_event_def
      bindE_def seqE_def get_def modify_def zoom_def ret_def raise_def lift_res_def try_base_def total_def try_finally_def
      idle_ports_def idle_config_def spent_state_def reached_def throw_if_cancelled_def CancellationSignal_init_def
      ContextState_empty_def append_message_def detach_message_def recorder_ports_def nonneg_option_def Let_def
      sample_config_def)
qed

lemma spent_fields:
  "max_steps (al_budget spent_state) = Some 2" "max_tool_calls (al_budget spent_state) = Some 0"
  "model_steps (al_budget spent_state) \<le> 2" "tool_calls (al_budget spent_state) \<le> 0"
  "\<not> lw_session_closed (al_shared spent_state)" "\<not> al_turn_active spent_state" "strip (lit ''go'') \<noteq> []"
  "recent_messages (al_context spent_state) = []"
  by (simp_all add: spent_state_def ContextState_empty_def strip_eq_Nil_iff lit_def is_space_def)

theorem turn_ends_witness:
  "\<exists>s' r. run_turn idle_config idle_ports 1 (lit ''go'') spent_state = (s', Inr (Some r)) \<and>
     ar_state r = LIMIT_REACHED \<and> lw_session_closed (al_shared s') \<and> \<not> al_turn_active s' \<and>
     \<not> al_environment_started s' \<and> model_steps (al_budget s') \<le> 2"
proof -
  obtain s' r where r: "run_turn idle_config idle_ports 1 (lit ''go'') spent_state = (s', Inr (Some r))"
    "ar_state r = LIMIT_REACHED" using spent_run by blast
  have "2 - model_steps (al_budget spent_state) < int 1" by (simp add: spent_state_def)
  from turn_ends [OF spent_fields(1-4) this spent_fields(5-7), of idle_config idle_ports] show ?thesis using r by auto
qed

theorem turn_pairs_calls_witness:
  "\<exists>s' r bs. run_turn idle_config idle_ports 1 (lit ''go'') spent_state = (s', Inr (Some r)) \<and>
     recent_messages (al_context s') = concat bs \<and> list_all turn_block bs \<and> bs \<noteq> []"
proof -
  obtain s' r where r: "run_turn idle_config idle_ports 1 (lit ''go'') spent_state = (s', Inr (Some r))"
    "ar_state r = LIMIT_REACHED" "recent_messages (al_context s') \<noteq> []" using spent_run by auto
  obtain bs where "recent_messages (al_context s') = concat bs" "list_all turn_block bs"
    using turn_pairs_calls [OF spent_fields(1-7) r(1)] r(2) spent_fields(8) by auto
  then show ?thesis using r by fastforce
qed


end
