(* ===== verification/Recovery.thy ===== *)
theory Recovery
  imports Session Context
begin

text \<open>
  Resuming a session (the recovery functions of \<open>assembly.py\<close>): the root agent, the budget and the
  context that one log determines, and the plan they make.  \<open>str(x)\<close> and \<open>int(x)\<close> of Python
  are \<open>py_str\<close> and \<open>py_int\<close>; the rendering of a value that is no string and the parsing of a
  number from a string are parameters.
\<close>

section \<open>Python conversions\<close>

record recovery_ports =
  rv_platform :: platform
  rv_str :: "json \<Rightarrow> str"
  rv_parse_int :: "str \<Rightarrow> int option"

text \<open>\<open>bool(x)\<close>.\<close>

fun truthy :: "json \<Rightarrow> bool" where
  "truthy JNull = False"
| "truthy (JBool b) = b"
| "truthy (JInt i) = (i \<noteq> 0)"
| "truthy (JFloat f) = (f \<noteq> Finite 0)"
| "truthy (JStr s) = (s \<noteq> [])"
| "truthy (JArr xs) = (xs \<noteq> [])"
| "truthy (JObj d) = (d \<noteq> [])"

definition py_str :: "recovery_ports \<Rightarrow> json \<Rightarrow> str" where
  "py_str rp v = (case v of JStr s \<Rightarrow> s | _ \<Rightarrow> rv_str rp v)"

fun py_int :: "recovery_ports \<Rightarrow> json \<Rightarrow> int res" where
  "py_int rp (JBool b) = Inr (if b then 1 else 0)"
| "py_int rp (JInt i) = Inr i"
| "py_int rp (JFloat (Finite q)) = Inr (if q < 0 then \<lceil>q\<rceil> else \<lfloor>q\<rfloor>)"
| "py_int rp (JFloat NaN) = Inl (ValueError (lit ''cannot convert float NaN to integer''))"
| "py_int rp (JFloat _) = Inl (OtherError (lit ''OverflowError'') (lit ''cannot convert float infinity to integer''))"
| "py_int rp (JStr s) =
     (case rv_parse_int rp s of
        Some i \<Rightarrow> Inr i
      | None \<Rightarrow> Inl (ValueError (lit ''invalid literal for int() with base 10'')))"
| "py_int rp _ = Inl (TypeError (lit ''int() argument must be a string, a bytes-like object or a real number''))"

text \<open>\<open>int(x or d)\<close>.\<close>

definition int_or :: "recovery_ports \<Rightarrow> json \<Rightarrow> int \<Rightarrow> int res" where
  "int_or rp v d = (if truthy v then py_int rp v else Inr d)"

text \<open>\<open>str(x or "")\<close> and \<open>"" if x is None else str(x)\<close>.\<close>

definition str_or_empty :: "recovery_ports \<Rightarrow> json \<Rightarrow> str" where
  "str_or_empty rp v = (if truthy v then py_str rp v else [])"

definition str_unless_none :: "recovery_ports \<Rightarrow> json \<Rightarrow> str" where
  "str_unless_none rp v = (if v = JNull then [] else py_str rp v)"

text \<open>The items of \<open>for x in (v or ())\<close>.\<close>

fun iterate :: "json \<Rightarrow> json list res" where
  "iterate (JArr xs) = Inr xs"
| "iterate (JStr s) = Inr (map (\<lambda>c. JStr [c]) s)"
| "iterate (JObj d) = Inr (map (JStr \<circ> fst) d)"
| "iterate v = (if truthy v then Inl (TypeError (lit ''object is not iterable'')) else Inr [])"

section \<open>Messages from events\<close>

definition recovery_diagnostics :: "str list" where
  "recovery_diagnostics = map lit [''missing_tool_call_id'', ''invalid_tool_call_id'', ''duplicate_tool_call_id'']"

definition protocol_error_notice :: str where
  "protocol_error_notice =
     lit ''Protocol error: return non-empty assistant text or one or more '' @
     lit ''native tool calls. Please correct the response.''"

definition SessionResumeError :: "string \<Rightarrow> exn" where
  "SessionResumeError m = OtherError (lit ''SessionResumeError'') (lit m)"

text \<open>\<open>any(code in _INVALID_PROVIDER_DIAGNOSTICS for code in diagnostics)\<close>: it stops at the first
  member, and a list or a dict before it cannot be hashed.\<close>

fun any_invalid :: "json list \<Rightarrow> bool res" where
  "any_invalid [] = Inr False"
| "any_invalid (JStr s # cs) = (if s \<in> set recovery_diagnostics then Inr True else any_invalid cs)"
| "any_invalid (JArr _ # cs) = Inl (TypeError (lit ''unhashable type''))"
| "any_invalid (JObj _ # cs) = Inl (TypeError (lit ''unhashable type''))"
| "any_invalid (_ # cs) = any_invalid cs"

fun nonempty_text :: "json \<Rightarrow> bool" where
  "nonempty_text (JStr s) = (s \<noteq> [])"
| "nonempty_text _ = False"

text \<open>\<open>_context_tool_call_id\<close>.\<close>

definition context_tool_call_id :: "jobj \<Rightarrow> str option res" where
  "context_tool_call_id call =
     bindR (iterate (field_or_none call ''diagnostics'')) (\<lambda>diagnostics.
     let provider = field_or_none call ''provider_tool_call_id'';
         correlation = field_or_none call ''correlation_id'' in
     bindR (if nonempty_text provider then any_invalid diagnostics else Inr True) (\<lambda>refused.
     Inr (if \<not> refused then Some (json_str provider)
          else if nonempty_text correlation then Some (json_str correlation)
          else if nonempty_text provider then Some (json_str provider)
          else None)))"

definition recovered_name :: "recovery_ports \<Rightarrow> json \<Rightarrow> str" where
  "recovered_name rp v =
     (let name = (if truthy v then v else JStr (lit ''invalid_tool_name'')) in
      if name = JStr (lit ''<invalid-tool-name>'') then lit ''invalid_tool_name'' else py_str rp name)"

definition recovered_call :: "recovery_ports \<Rightarrow> jobj \<Rightarrow> str \<Rightarrow> json" where
  "recovered_call rp call context_id =
     JObj [(lit ''id'', JStr context_id), (lit ''type'', JStr (lit ''function'')),
       (lit ''function'', JObj
          [(lit ''name'', JStr (recovered_name rp (field_or_none call ''name''))),
           (lit ''arguments'', JStr (str_unless_none rp (field_or_none call ''raw_arguments'')))])]"

fun recovered_calls :: "recovery_ports \<Rightarrow> json list \<Rightarrow> json list res" where
  "recovered_calls rp [] = Inr []"
| "recovered_calls rp (JObj call # cs) =
     bindR (context_tool_call_id call) (\<lambda>context_id.
     bindR (recovered_calls rp cs) (\<lambda>calls.
     Inr (case context_id of None \<Rightarrow> calls | Some i \<Rightarrow> recovered_call rp call i # calls)))"
| "recovered_calls rp (_ # cs) = recovered_calls rp cs"

text \<open>\<open>_assistant_context_message\<close>.\<close>

definition assistant_context_message :: "recovery_ports \<Rightarrow> jobj \<Rightarrow> message res" where
  "assistant_context_message rp payload =
     (let m = [(lit ''role'', JStr (lit ''assistant'')),
               (lit ''content'', JStr (str_unless_none rp (field_or_none payload ''text'')))] in
      case field_or_none payload ''tool_calls'' of
        JArr cs \<Rightarrow>
          bindR (recovered_calls rp cs) (\<lambda>calls.
          Inr (if calls = [] then m else m @ [(lit ''tool_calls'', JArr calls)]))
      | _ \<Rightarrow> Inr m)"

text \<open>\<open>_tool_context_message\<close>.\<close>

definition tool_context_message :: "recovery_ports \<Rightarrow> jobj \<Rightarrow> str \<Rightarrow> message res" where
  "tool_context_message rp payload tool_call_id =
     (let wrap = (\<lambda>content. [(lit ''role'', JStr (lit ''tool'')), (lit ''tool_call_id'', JStr tool_call_id),
                             (lit ''content'', JStr content)]);
          result_data = (case field_or_none payload ''result'' of
                           JObj d \<Rightarrow> JObj d | _ \<Rightarrow> field_or_none payload ''tool_result'') in
      case result_data of
        JObj d \<Rightarrow> bindR (json_dumps (pl_frepr (rv_platform rp)) (JObj d)) (\<lambda>s. Inr (wrap s))
      | _ \<Rightarrow> Inr (wrap (str_or_empty rp (field_or_none payload ''text''))))"

section \<open>Grouping\<close>

text \<open>\<open>str(call["id"]) for call in raw_calls if isinstance(call, Mapping) and call.get("id")\<close>.\<close>

fun expected_of :: "recovery_ports \<Rightarrow> json list \<Rightarrow> str list" where
  "expected_of rp [] = []"
| "expected_of rp (JObj c # cs) =
     (let i = field_or_none c ''id'' in (if truthy i then [py_str rp i] else []) @ expected_of rp cs)"
| "expected_of rp (_ # cs) = expected_of rp cs"

definition recovered_ids :: "recovery_ports \<Rightarrow> message \<Rightarrow> str list res" where
  "recovered_ids rp m =
     (if has_role ''assistant'' m
      then (case iterate (field_or_none m ''tool_calls'') of
              Inl _ \<Rightarrow> Inl (SessionResumeError ''session assistant tool calls are invalid'')
            | Inr cs \<Rightarrow> Inr (expected_of rp cs))
      else Inr [])"

text \<open>The results of one call message, as long as some are missing.\<close>

fun recovered_results ::
  "str list \<Rightarrow> str list \<Rightarrow> (message \<times> int) list \<Rightarrow> ((message \<times> int) list \<times> str list \<times> (message \<times> int) list) res" where
  "recovered_results expected seen [] = Inr ([], seen, [])"
| "recovered_results expected seen (p # ps) =
     (if \<not> length seen < length expected \<or> \<not> has_role ''tool'' (fst p) then Inr ([], seen, p # ps)
      else
        (case field_or_none (fst p) ''tool_call_id'' of
           JStr i \<Rightarrow>
             if i \<notin> set expected
             then Inl (SessionResumeError ''session tool result does not match its assistant call'')
             else if i \<in> set seen then Inl (SessionResumeError ''session tool call has more than one result'')
             else bindR (recovered_results expected (i # seen) ps) (\<lambda>(ms, seen', rest). Inr (p # ms, seen', rest))
         | _ \<Rightarrow> Inl (SessionResumeError ''session tool result does not match its assistant call'')))"

lemma recovered_results_split:
  "recovered_results expected seen ps = Inr (ms, seen', rest) \<Longrightarrow> ps = ms @ rest"
  by (induction ps arbitrary: seen ms)
    (auto simp: bindR_Inr_iff split: if_splits json.splits)

text \<open>The outer loop; a trailing group whose results are missing is dropped.\<close>

function recovered_groups :: "recovery_ports \<Rightarrow> bool \<Rightarrow> (message \<times> int) list \<Rightarrow> MessageGroup list res" where
  "recovered_groups rp first [] = Inr []"
| "recovered_groups rp first (p # ps) =
     (if has_role ''tool'' (fst p)
      then Inl (SessionResumeError (if first then ''session context has an orphaned tool result''
                                    else ''session context splits a tool interaction''))
      else
        (case recovered_ids rp (fst p) of
           Inl e \<Rightarrow> Inl e
         | Inr expected \<Rightarrow>
             if expected = []
             then bindR (mk_MessageGroup [fst p] [snd p]) (\<lambda>g.
                  bindR (recovered_groups rp False ps) (\<lambda>gs. Inr (g # gs)))
             else
               (case recovered_results expected [] ps of
                  Inl e \<Rightarrow> Inl e
                | Inr (results, seen, rest) \<Rightarrow>
                    if set seen \<noteq> set expected
                    then (if rest = [] then Inr []
                          else Inl (SessionResumeError ''session assistant tool calls are missing results''))
                    else bindR (mk_MessageGroup (map fst (p # results)) (map snd (p # results))) (\<lambda>g.
                         bindR (recovered_groups rp False rest) (\<lambda>gs. Inr (g # gs))))))"
  by pat_completeness auto
termination
  by (relation "measure (length \<circ> snd \<circ> snd)") (auto dest: recovered_results_split)

text \<open>\<open>_complete_message_groups\<close>; its caller turns a \<open>ContextIntegrityError\<close> into a
  \<open>SessionResumeError\<close>.\<close>

definition complete_message_groups :: "recovery_ports \<Rightarrow> (message \<times> int) list \<Rightarrow> MessageGroup list res" where
  "complete_message_groups rp pairs =
     bindR (detach_all (map fst pairs)) (\<lambda>ms. recovered_groups rp True (zip ms (map snd pairs)))"

section \<open>The root agent and its budget\<close>

definition is_type :: "EventType \<Rightarrow> EventEnvelope \<Rightarrow> bool" where
  "is_type ty e \<longleftrightarrow> ev_type e = event_type_str ty"

definition tool_names :: "json \<Rightarrow> str list" where
  "tool_names v = (case v of JArr xs \<Rightarrow> map json_str (filter nonempty_text xs) | _ \<Rightarrow> [])"

text \<open>\<open>_root_agent\<close>: the last root \<open>agent_start\<close>, and the last names that were not empty.\<close>

fun root_loop :: "str option \<Rightarrow> str list \<Rightarrow> EventEnvelope list \<Rightarrow> str option \<times> str list" where
  "root_loop found active [] = (found, active)"
| "root_loop found active (e # es) =
     (if \<not> is_type AGENT_START e \<or> ev_parent_agent_id e \<noteq> None then root_loop found active es
      else
        (let names = tool_names (field_or_none (ev_payload e) ''active_tools'') in
         root_loop (Some (ev_agent_id e)) (if names = [] then active else names) es))"

definition root_agent :: "EventEnvelope list \<Rightarrow> (str \<times> str \<times> str list) res" where
  "root_agent es =
     (case root_loop None [] es of
        (None, _) \<Rightarrow> Inl (SessionResumeError ''session is missing a root agent_start'')
      | (Some agent, active) \<Rightarrow> Inr (ev_session_id (hd es), agent, active))"

record tally =
  ta_snapshot :: "jobj option"
  ta_model_steps :: int
  ta_tool_calls :: int
  ta_protocol_errors :: int
  ta_input_tokens :: int
  ta_output_tokens :: int

definition no_tally :: tally where
  "no_tally = \<lparr>ta_snapshot = None, ta_model_steps = 0, ta_tool_calls = 0, ta_protocol_errors = 0,
     ta_input_tokens = 0, ta_output_tokens = 0\<rparr>"

definition tally_usage :: "recovery_ports \<Rightarrow> jobj \<Rightarrow> tally \<Rightarrow> tally res" where
  "tally_usage rp payload t =
     (case field_or_none payload ''usage'' of
        JObj u \<Rightarrow>
          bindR (int_or rp (field_or_none u ''input_tokens'') 0) (\<lambda>i.
          bindR (int_or rp (field_or_none u ''output_tokens'') 0) (\<lambda>k.
          Inr (t\<lparr>ta_input_tokens := ta_input_tokens t + i, ta_output_tokens := ta_output_tokens t + k\<rparr>)))
      | _ \<Rightarrow> Inr t)"

text \<open>Whether a result's metadata says that its tool ran; without metadata it did.\<close>

definition was_executed :: "jobj \<Rightarrow> bool" where
  "was_executed payload =
     (case field_or_none payload ''result'' of
        JObj r \<Rightarrow>
          (case field_or_none r ''metadata'' of
             JObj m \<Rightarrow> dget m (lit ''executed'') \<noteq> Some (JBool False)
           | _ \<Rightarrow> True)
      | _ \<Rightarrow> True)"

definition tally_counts :: "recovery_ports \<Rightarrow> EventEnvelope \<Rightarrow> tally \<Rightarrow> tally res" where
  "tally_counts rp e t =
     (let payload = ev_payload e in
      if is_type ASSISTANT_MESSAGE e then tally_usage rp payload (t\<lparr>ta_model_steps := ta_model_steps t + 1\<rparr>)
      else if is_type COMPACTION e then tally_usage rp payload t
      else if is_type TOOL_RESULT e
      then Inr (if was_executed payload then t\<lparr>ta_tool_calls := ta_tool_calls t + 1\<rparr> else t)
      else if is_type ERROR e \<and> field_or_none payload ''reason'' = JStr (lit ''empty_assistant_response'')
      then bindR (int_or rp (field_or_none payload ''consecutive_protocol_errors'') (ta_protocol_errors t + 1))
             (\<lambda>n. Inr (t\<lparr>ta_protocol_errors := n\<rparr>))
      else Inr t)"

definition tally_event :: "recovery_ports \<Rightarrow> str \<Rightarrow> EventEnvelope \<Rightarrow> tally \<Rightarrow> tally res" where
  "tally_event rp agent e t =
     (if ev_agent_id e \<noteq> agent then Inr t
      else
        bindR (tally_counts rp e t) (\<lambda>t'.
        Inr (case field_or_none (ev_payload e) ''budget'' of
               JObj b \<Rightarrow> if is_type TURN_END e \<or> is_type AGENT_END e \<or> is_type SESSION_END e
                         then t'\<lparr>ta_snapshot := Some b\<rparr> else t'
             | _ \<Rightarrow> t')))"

fun tally_events :: "recovery_ports \<Rightarrow> str \<Rightarrow> tally \<Rightarrow> EventEnvelope list \<Rightarrow> tally res" where
  "tally_events rp agent t [] = Inr t"
| "tally_events rp agent t (e # es) = bindR (tally_event rp agent e t) (\<lambda>t'. tally_events rp agent t' es)"

text \<open>\<open>_budget_from_events\<close>: steps, calls, protocol errors, input and output tokens.\<close>

definition budget_from_events :: "recovery_ports \<Rightarrow> EventEnvelope list \<Rightarrow> str \<Rightarrow> (int \<times> int \<times> int \<times> int \<times> int) res" where
  "budget_from_events rp es agent =
     bindR (tally_events rp agent no_tally es) (\<lambda>t.
     case ta_snapshot t of
       None \<Rightarrow> Inr (ta_model_steps t, ta_tool_calls t, ta_protocol_errors t, ta_input_tokens t, ta_output_tokens t)
     | Some b \<Rightarrow>
         bindR (int_or rp (field_or_none b ''model_steps'') 0) (\<lambda>steps.
         bindR (int_or rp (field_or_none b ''tool_calls'') 0) (\<lambda>calls.
         bindR (int_or rp (field_or_none b ''protocol_errors'') 0) (\<lambda>errors.
         bindR (int_or rp (field_or_none b ''input_tokens'') 0) (\<lambda>i.
         bindR (int_or rp (field_or_none b ''output_tokens'') 0) (\<lambda>k.
         Inr (steps, calls, errors, i, k)))))))"

section \<open>The context\<close>

record scan =
  sn_summary :: "str option"
  sn_covered :: int
  sn_degraded :: int
  sn_notice :: "str option"
  sn_pairs :: "(message \<times> int) list"
  sn_pending :: "(str \<times> str) list"

definition no_scan :: scan where
  "no_scan = \<lparr>sn_summary = None, sn_covered = 0, sn_degraded = 0, sn_notice = None, sn_pairs = [], sn_pending = []\<rparr>"

definition add_pair :: "message \<Rightarrow> EventEnvelope \<Rightarrow> scan \<Rightarrow> scan" where
  "add_pair m e s = s\<lparr>sn_pairs := sn_pairs s @ [(m, ev_sequence e)]\<rparr>"

definition scan_compaction :: "recovery_ports \<Rightarrow> jobj \<Rightarrow> scan \<Rightarrow> scan res" where
  "scan_compaction rp payload s =
     (if field_or_none payload ''status'' = JStr (lit ''success'')
      then
        (let t = field_or_none payload ''summary'' in
         bindR (int_or rp (field_or_none payload ''covered_through_sequence'') 0) (\<lambda>covered.
         Inr (s\<lparr>sn_summary := (if t = JNull then None else Some (py_str rp t)), sn_covered := covered,
                sn_degraded := 0, sn_notice := None\<rparr>)))
      else
        bindR (int_or rp (field_or_none payload ''degraded_through_sequence'') (sn_degraded s)) (\<lambda>degraded.
        Inr (s\<lparr>sn_degraded := degraded, sn_notice := Some degraded_context_notice\<rparr>)))"

text \<open>The context ids of the declared calls, by their correlation ids.\<close>

fun pending_ids :: "(str \<times> str) list \<Rightarrow> json list \<Rightarrow> (str \<times> str) list res" where
  "pending_ids pending [] = Inr pending"
| "pending_ids pending (JObj call # cs) =
     bindR (context_tool_call_id call) (\<lambda>context_id.
     pending_ids
       (case (field_or_none call ''correlation_id'', context_id) of
          (JStr correlation, Some i) \<Rightarrow> dset pending correlation i
        | _ \<Rightarrow> pending) cs)"
| "pending_ids pending (_ # cs) = pending_ids pending cs"

definition scan_assistant :: "recovery_ports \<Rightarrow> EventEnvelope \<Rightarrow> scan \<Rightarrow> scan res" where
  "scan_assistant rp e s =
     bindR (assistant_context_message rp (ev_payload e)) (\<lambda>m.
     bindR (iterate (field_or_none (ev_payload e) ''tool_calls'')) (\<lambda>cs.
     bindR (pending_ids [] cs) (\<lambda>pending.
     Inr (add_pair m e (s\<lparr>sn_pending := pending\<rparr>)))))"

definition result_context_id :: "(str \<times> str) list \<Rightarrow> EventEnvelope \<Rightarrow> str option" where
  "result_context_id pending e =
     (let correlation = (case ev_correlation_id e of Some c \<Rightarrow> if c = [] then None else Some c | None \<Rightarrow> None) in
      case Option.bind correlation (dget pending) of
        Some i \<Rightarrow> Some i
      | None \<Rightarrow>
          (case ev_provider_tool_call_id e of
             Some p \<Rightarrow> Some p
           | None \<Rightarrow> correlation))"

definition scan_result :: "recovery_ports \<Rightarrow> EventEnvelope \<Rightarrow> scan \<Rightarrow> scan res" where
  "scan_result rp e s =
     (case result_context_id (sn_pending s) e of
        None \<Rightarrow> Inr s
      | Some i \<Rightarrow> bindR (tool_context_message rp (ev_payload e) i) (\<lambda>m. Inr (add_pair m e s)))"

definition scan_event :: "recovery_ports \<Rightarrow> str \<Rightarrow> EventEnvelope \<Rightarrow> scan \<Rightarrow> scan res" where
  "scan_event rp agent e s =
     (let payload = ev_payload e in
      if ev_agent_id e \<noteq> agent then Inr s
      else if is_type COMPACTION e then scan_compaction rp payload s
      else if is_type USER_MESSAGE e
      then Inr (add_pair [(lit ''role'', JStr (lit ''user'')),
                          (lit ''content'', JStr (str_or_empty rp (field_or_none payload ''text'')))] e s)
      else if is_type ASSISTANT_MESSAGE e then scan_assistant rp e s
      else if is_type TOOL_RESULT e then scan_result rp e s
      else if is_type ERROR e \<and> field_or_none payload ''reason'' = JStr (lit ''empty_assistant_response'')
      then Inr (add_pair (system_message protocol_error_notice) e s)
      else Inr s)"

fun scan_events :: "recovery_ports \<Rightarrow> str \<Rightarrow> scan \<Rightarrow> EventEnvelope list \<Rightarrow> scan res" where
  "scan_events rp agent s [] = Inr s"
| "scan_events rp agent s (e # es) = bindR (scan_event rp agent e s) (\<lambda>s'. scan_events rp agent s' es)"

definition scan_cutoff :: "scan \<Rightarrow> int" where
  "scan_cutoff s = max (sn_covered s) (sn_degraded s)"

text \<open>\<open>except ContextIntegrityError\<close>.\<close>

definition as_resume_error :: "'a res \<Rightarrow> 'a res" where
  "as_resume_error r =
     (case r of
        Inl (OtherError c m) \<Rightarrow>
          if c = lit ''ContextIntegrityError'' then Inl (SessionResumeError ''session context cannot be grouped'') else r
      | _ \<Rightarrow> r)"

text \<open>The end of \<open>_context_from_events\<close>: the messages after the cutoff, by groups.\<close>

definition scanned_messages :: "recovery_ports \<Rightarrow> scan \<Rightarrow> (message \<times> int) list res" where
  "scanned_messages rp s =
     bindR (as_resume_error (complete_message_groups rp (filter (\<lambda>p. scan_cutoff s < snd p) (sn_pairs s)))) (\<lambda>gs.
     Inr (concat (map (\<lambda>g. zip (mg_messages g) (mg_sequences g)) gs)))"

definition context_from_events ::
  "recovery_ports \<Rightarrow> EventEnvelope list \<Rightarrow> str \<Rightarrow> (scan \<times> (message \<times> int) list) res" where
  "context_from_events rp es agent =
     bindR (scan_events rp agent no_scan es) (\<lambda>s. bindR (scanned_messages rp s) (\<lambda>ms. Inr (s, ms)))"

section \<open>The plan\<close>

record SessionResumePlan =
  sp_session_id :: str
  sp_agent_id :: str
  sp_active_tools :: "str list"
  sp_model_steps :: int
  sp_tool_calls :: int
  sp_protocol_errors :: int
  sp_input_tokens :: int
  sp_output_tokens :: int
  sp_latest_summary :: "str option"
  sp_covered_through_sequence :: int
  sp_degraded_through_sequence :: int
  sp_degraded_notice :: "str option"
  sp_messages :: "(message \<times> int) list"
  sp_diagnostics :: "SessionDiagnostic list"
  sp_last_sequence :: int

text \<open>A format error passes through, any other \<open>SessionError\<close> becomes a \<open>ConfigError\<close>.\<close>

fun is_session_error :: "session_exn \<Rightarrow> bool" where
  "is_session_error (SessionFormatError _ _ _) = False"
| "is_session_error (Raised _) = False"
| "is_session_error _ = True"

definition ConfigError :: "string \<Rightarrow> exn" where
  "ConfigError m = OtherError (lit ''ConfigError'') (lit m)"

definition plan_from_read :: "recovery_ports \<Rightarrow> SessionReadResult \<Rightarrow> SessionResumePlan res" where
  "plan_from_read rp r =
     (if sr_events r = [] then Inl (SessionResumeError ''session file is empty'')
      else
        bindR (root_agent (sr_events r)) (\<lambda>(session, agent, active).
        bindR (budget_from_events rp (sr_events r) agent) (\<lambda>(steps, calls, errors, i, k).
        bindR (context_from_events rp (sr_events r) agent) (\<lambda>(s, ms).
        case last_valid_sequence r of
          None \<Rightarrow> Inl (SessionResumeError ''session file is empty'')
        | Some n \<Rightarrow>
            Inr \<lparr>sp_session_id = session, sp_agent_id = agent, sp_active_tools = active,
              sp_model_steps = steps, sp_tool_calls = calls, sp_protocol_errors = errors,
              sp_input_tokens = i, sp_output_tokens = k, sp_latest_summary = sn_summary s,
              sp_covered_through_sequence = sn_covered s, sp_degraded_through_sequence = sn_degraded s,
              sp_degraded_notice = sn_notice s, sp_messages = ms, sp_diagnostics = sr_diagnostics r,
              sp_last_sequence = n\<rparr>))))"

text \<open>\<open>recover_session_plan\<close>, on the bytes of the file.\<close>

definition recover_session_plan ::
  "recovery_ports \<Rightarrow> id_arg option \<Rightarrow> nat list option \<Rightarrow> session_exn + SessionResumePlan" where
  "recover_session_plan rp expected file =
     (case read_session (rv_platform rp) expected file of
        Inl e \<Rightarrow> Inl (if is_session_error e then Raised (ConfigError ''session file could not be read'') else e)
      | Inr r \<Rightarrow> (case plan_from_read rp r of Inl e \<Rightarrow> Inl (Raised e) | Inr p \<Rightarrow> Inr p))"

fun append_messages :: "ContextState \<Rightarrow> (message \<times> int) list \<Rightarrow> ContextState res" where
  "append_messages c [] = Inr c"
| "append_messages c ((m, n) # ps) = bindR (append_message c m (Some n)) (\<lambda>c'. append_messages c' ps)"

text \<open>\<open>_context_state_from_plan\<close>.\<close>

definition context_state_from_plan :: "SessionResumePlan \<Rightarrow> ContextState res" where
  "context_state_from_plan p =
     bindR (ContextState_post_init
              \<lparr>latest_summary = sp_latest_summary p, covered_through_sequence = sp_covered_through_sequence p,
               recent_messages = [], recent_message_sequences = [],
               degraded_through_sequence = sp_degraded_through_sequence p,
               degraded_notice = sp_degraded_notice p\<rparr>) (\<lambda>c. append_messages c (sp_messages p))"

end
