(* ===== verification/RecoveryProps.thy ===== *)
theory RecoveryProps
  imports Recovery ContextFacts AgentLoop
begin

text \<open>
  What resuming a session promises: the groups of the recovered messages are those of the
  context, up to an exchange that was left unfinished at the end; an assistant message comes
  back as the loop wrote it; the counters come back from the last snapshot.
\<close>

section \<open>Grouping\<close>

text \<open>A call message with results for some of its calls only.\<close>

definition unfinished :: "message list \<Rightarrow> bool" where
  "unfinished ms \<longleftrightarrow>
     (case ms of
        [] \<Rightarrow> False
      | m # results \<Rightarrow>
          \<not> has_role ''tool'' m \<and> list_all (has_role ''tool'') results \<and>
          (\<exists>ids js. expected_ids m = Inr ids \<and> map result_id results = map Some js \<and> distinct js \<and> set js \<subset> set ids))"

lemma expected_of_call_ids: "call_ids cs seen = Inr ids \<Longrightarrow> ids = seen @ expected_of rp cs"
  by (induction cs seen rule: call_ids.induct)
    (auto simp: field_or_none_def py_str_def split: option.splits json.splits if_splits)

lemma recovered_ids_expected: "expected_ids m = Inr ids \<Longrightarrow> recovered_ids rp m = Inr ids"
  using expected_of_call_ids [of _ "[]" ids rp]
  by (auto simp: expected_ids_def recovered_ids_def tool_call_ids_def field_or_none_def
      split: if_splits option.splits json.splits)

lemma recovered_results_Inr: "recovered_results expected seen ps = Inr x \<longleftrightarrow> take_results expected seen ps = Inr x"
  by (induction ps arbitrary: seen x)
    (auto simp: bindR_Inr_iff field_or_none_def split: option.splits json.splits)

lemma take_results_partial:
  assumes "list_all (has_role ''tool'') (map fst rs)" "map result_id (map fst rs) = map Some ids"
    and "distinct (ids @ seen)" "set ids \<union> set seen \<subseteq> set expected" "distinct expected"
    and "rest = [] \<or> \<not> has_role ''tool'' (fst (hd rest)) \<or> length seen + length rs = length expected"
  shows "take_results expected seen (rs @ rest) = Inr (rs, rev ids @ seen, rest)"
  using assms
proof (induction rs arbitrary: ids seen)
  case Nil
  then show ?case by (cases rest) auto
next
  case (Cons p rs)
  then obtain i ids' where ids: "ids = i # ids'" "result_id (fst p) = Some i" by (cases ids) auto
  then have get: "dget (fst p) (lit ''tool_call_id'') = Some (JStr i)"
    by (auto simp: result_id_def split: option.splits json.splits)
  have "card (set (ids @ seen)) \<le> card (set expected)" using Cons.prems(4) by (intro card_mono) auto
  then have "length (ids @ seen) \<le> length expected"
    using Cons.prems(3,5) by (simp only: distinct_card)
  moreover have "take_results expected (i # seen) (rs @ rest) = Inr (rs, rev ids' @ i # seen, rest)"
    using Cons.prems ids(1) by (intro Cons.IH) auto
  ultimately show ?case using Cons.prems get ids(1) by simp
qed

lemma recovered_groups_skip:
  "list_all group_ok gs \<Longrightarrow>
   recovered_groups rp first (zip (concat (map mg_messages gs)) (concat (map mg_sequences gs)) @ rest) =
     bindR (recovered_groups rp (first \<and> gs = []) rest) (\<lambda>gs'. Inr (gs @ gs'))"
proof (induction gs arbitrary: first)
  case Nil
  then show ?case by (simp add: bindR_def split: sum.splits)
next
  case (Cons g gs)
  let ?ps = "zip (concat (map mg_messages gs)) (concat (map mg_sequences gs))"
  have ok: "group_ok g" using Cons.prems by simp
  then obtain m ms s ss ids where g: "mg_messages g = m # ms" "mg_sequences g = s # ss" "length ms = length ss"
    "\<not> has_role ''tool'' m" "list_all (has_role ''tool'') ms" "expected_ids m = Inr ids"
    "mset (map result_id ms) = mset (map Some ids)"
    by (auto simp: group_ok_def whole_def split: list.splits) (metis length_Suc_conv)
  obtain js where js: "map result_id ms = map Some js" "mset js = mset ids" using whole_results [OF g(6,7)] by blast
  have d: "distinct ids" "distinct js" using expected_ids_distinct [OF g(6)] js(2) by (auto dest: mset_eq_imp_distinct_iff)
  have mk: "mk_MessageGroup (m # ms) (s # ss) = Inr g"
    using ok g by (cases g) (auto simp: mk_MessageGroup_Inr group_ok_def)
  have split: "zip (concat (map mg_messages (g # gs))) (concat (map mg_sequences (g # gs))) @ rest =
      (m, s) # zip ms ss @ ?ps @ rest"
    using g(1-3) by simp
  have IH: "recovered_groups rp False (?ps @ rest) = bindR (recovered_groups rp False rest) (\<lambda>gs'. Inr (gs @ gs'))"
    using Cons by simp
  have ids: "recovered_ids rp m = Inr ids" by (rule recovered_ids_expected [OF g(6)])
  show ?case
  proof (cases "ids = []")
    case True
    then have "ms = []" using js by simp
    then show ?thesis unfolding split using g mk IH True ids
      by (auto simp: bindR_def split: sum.splits)
  next
    case False
    have len: "length ms = length ids" using js mset_eq_length map_eq_imp_length_eq by metis
    have "take_results ids [] (zip ms ss @ ?ps @ rest) = Inr (zip ms ss, rev js @ [], ?ps @ rest)"
      using g(3,5) js d len by (intro take_results_partial) (auto dest: mset_eq_setD)
    then have "recovered_results ids [] (zip ms ss @ ?ps @ rest) = Inr (zip ms ss, rev js, ?ps @ rest)"
      by (simp add: recovered_results_Inr)
    then show ?thesis
      unfolding split using g mk IH False js(2) ids by (auto simp: bindR_def dest: mset_eq_setD split: sum.splits)
  qed
qed

lemma recovered_groups_unfinished:
  assumes "unfinished (map fst rest)"
  shows "recovered_groups rp first rest = Inr []"
proof -
  obtain p rs where rest: "rest = p # rs" using assms by (cases rest) (auto simp: unfinished_def)
  obtain ids js where r: "\<not> has_role ''tool'' (fst p)" "list_all (has_role ''tool'') (map fst rs)"
    "expected_ids (fst p) = Inr ids" "map result_id (map fst rs) = map Some js" "distinct js" "set js \<subset> set ids"
    using assms unfolding rest unfinished_def list.map list.case by blast
  have "take_results ids [] (rs @ []) = Inr (rs, rev js @ [], [])"
    using r by (intro take_results_partial) (auto dest: expected_ids_distinct)
  then have "recovered_results ids [] rs = Inr (rs, rev js, [])" by (simp add: recovered_results_Inr)
  then show ?thesis using r rest recovered_ids_expected [OF r(3), of rp] by auto
qed

lemma recovered_groups_sound:
  "recovered_groups rp first ps = Inr gs \<Longrightarrow> \<forall>p \<in> set ps. is_ok (expected_ids (fst p)) \<Longrightarrow>
   \<exists>kept rest. ps = kept @ rest \<and> concat (map mg_messages gs) = map fst kept \<and>
     concat (map mg_sequences gs) = map snd kept \<and> list_all group_ok gs \<and> (rest = [] \<or> unfinished (map fst rest))"
proof (induction rp first ps arbitrary: gs rule: recovered_groups.induct)
  case (1 rp first)
  then show ?case by simp
next
  case (2 rp first p ps)
  have tool: "\<not> has_role ''tool'' (fst p)" using "2.prems" by (auto split: if_splits)
  obtain ids where ids: "expected_ids (fst p) = Inr ids" using "2.prems"(2) by (auto simp: is_ok_iff)
  note rids = recovered_ids_expected [OF ids, of rp]
  show ?case
  proof (cases "ids = []")
    case True
    obtain g gs' where g: "mk_MessageGroup [fst p] [snd p] = Inr g" "recovered_groups rp False ps = Inr gs'" "gs = g # gs'"
      using "2.prems" tool rids True by (auto simp: bindR_Inr_iff)
    obtain kept rest where d: "ps = kept @ rest" "concat (map mg_messages gs') = map fst kept"
      "concat (map mg_sequences gs') = map snd kept" "list_all group_ok gs'" "rest = [] \<or> unfinished (map fst rest)"
      using "2.IH"(1) [OF tool rids True g(2)] "2.prems"(2) by auto
    have "group_ok g" using g(1) tool ids True by (auto simp: mk_MessageGroup_Inr group_ok_def whole_def)
    then have "p # ps = (p # kept) @ rest \<and> concat (map mg_messages gs) = map fst (p # kept) \<and>
        concat (map mg_sequences gs) = map snd (p # kept) \<and> list_all group_ok gs \<and> (rest = [] \<or> unfinished (map fst rest))"
      using g(1,3) d by (simp add: mk_MessageGroup_Inr)
    then show ?thesis by blast
  next
    case False
    obtain rs seen rest where r: "recovered_results ids [] ps = Inr (rs, seen, rest)"
      using "2.prems" tool rids False by (auto split: sum.splits)
    obtain js where js: "ps = rs @ rest" "list_all (has_role ''tool'') (map fst rs)"
      "map result_id (map fst rs) = map Some js" "seen = rev js" "distinct seen" "set seen \<subseteq> set ids"
      using take_results_sound r by (fastforce simp: recovered_results_Inr)
    show ?thesis
    proof (cases "set seen = set ids")
      case True
      obtain g gs' where g: "mk_MessageGroup (map fst (p # rs)) (map snd (p # rs)) = Inr g"
        "recovered_groups rp False rest = Inr gs'" "gs = g # gs'"
        using "2.prems" tool rids False r True by (auto simp: bindR_Inr_iff)
      obtain kept rest' where d: "rest = kept @ rest'" "concat (map mg_messages gs') = map fst kept"
        "concat (map mg_sequences gs') = map snd kept" "list_all group_ok gs'" "rest' = [] \<or> unfinished (map fst rest')"
        using "2.IH"(2) [OF tool rids False r refl refl _ g(2)] True "2.prems"(2) js(1) by auto
      have "mset js = mset ids"
        using js(4,5) True expected_ids_distinct [OF ids] set_eq_iff_mset_eq_distinct [of js ids] by auto
      then have "mset (map result_id (map fst rs)) = mset (map Some ids)" by (simp only: js(3) mset_map)
      then have "whole (map fst (p # rs))" using js(2) tool ids by (simp add: whole_def del: mset_map)
      then have "group_ok g" using g(1) by (auto simp: mk_MessageGroup_Inr group_ok_def)
      then have "p # ps = ((p # rs) @ kept) @ rest' \<and> concat (map mg_messages gs) = map fst ((p # rs) @ kept) \<and>
          concat (map mg_sequences gs) = map snd ((p # rs) @ kept) \<and> list_all group_ok gs \<and>
          (rest' = [] \<or> unfinished (map fst rest'))"
        using g(1,3) d js(1) by (simp add: mk_MessageGroup_Inr)
      then show ?thesis by blast
    next
      case ne: False
      then have "rest = []" "gs = []" using "2.prems" tool rids False r by (auto split: if_splits)
      moreover have "set js \<subset> set ids" using js(4,6) ne by auto
      then have "unfinished (map fst (p # rs))"
        using tool js(2-5) ids by (auto simp: unfinished_def)
      ultimately have "p # ps = [] @ (p # ps) \<and> concat (map mg_messages gs) = map fst ([] :: (message \<times> int) list) \<and>
          concat (map mg_sequences gs) = map snd ([] :: (message \<times> int) list) \<and> list_all group_ok gs \<and>
          (p # ps = [] \<or> unfinished (map fst (p # ps)))"
        using js(1) by simp
      then show ?thesis by blast
    qed
  qed
qed

lemma recovered_results_more:
  "recovered_results expected seen ps = Inr (rs, seen', rest) \<Longrightarrow> \<not> has_role ''tool'' (fst q) \<Longrightarrow>
   recovered_results expected seen (ps @ q # qs) = Inr (rs, seen', rest @ q # qs)"
  by (induction ps arbitrary: seen rs)
    (auto simp: bindR_Inr_iff split: if_splits json.splits)

lemma recovered_groups_blocked:
  "recovered_groups rp first ps = Inr gs \<Longrightarrow> length (concat (map mg_messages gs)) < length ps \<Longrightarrow>
   \<not> has_role ''tool'' (fst q) \<Longrightarrow>
   recovered_groups rp first (ps @ q # rest) = Inl (SessionResumeError ''session assistant tool calls are missing results'')"
proof (induction rp first ps arbitrary: gs rule: recovered_groups.induct)
  case (2 rp first p ps)
  have tool: "\<not> has_role ''tool'' (fst p)" using "2.prems"(1) by (auto split: if_splits)
  obtain ids where ids: "recovered_ids rp (fst p) = Inr ids"
    using "2.prems"(1) tool by (cases "recovered_ids rp (fst p)") auto
  show ?case
  proof (cases "ids = []")
    case True
    obtain g gs' where g: "mk_MessageGroup [fst p] [snd p] = Inr g" "recovered_groups rp False ps = Inr gs'" "gs = g # gs'"
      using "2.prems"(1) tool ids True by (auto simp: bindR_Inr_iff)
    have "length (concat (map mg_messages gs')) < length ps" using g "2.prems"(2) by (simp add: mk_MessageGroup_Inr)
    then show ?thesis using "2.IH"(1) [OF tool ids True g(2) _ "2.prems"(3)] tool ids True g(1) by simp
  next
    case False
    obtain rs seen rest' where r: "recovered_results ids [] ps = Inr (rs, seen, rest')"
      using "2.prems"(1) tool ids False by (auto split: sum.splits)
    note more = recovered_results_more [OF r "2.prems"(3), of rest]
    note split = recovered_results_split [OF r]
    show ?thesis
    proof (cases "set seen = set ids")
      case True
      obtain g gs' where g: "mk_MessageGroup (map fst (p # rs)) (map snd (p # rs)) = Inr g"
        "recovered_groups rp False rest' = Inr gs'" "gs = g # gs'"
        using "2.prems"(1) tool ids False r True by (auto simp: bindR_Inr_iff)
      have "length (concat (map mg_messages gs')) < length rest'"
        using g "2.prems"(2) split by (simp add: mk_MessageGroup_Inr)
      then show ?thesis
        using "2.IH"(2) [OF tool ids False r refl refl _ g(2) _ "2.prems"(3)] True tool ids False more g(1) by simp
    next
      case ne: False
      then show ?thesis using tool ids False more by simp
    qed
  qed
qed simp

section \<open>Messages\<close>

text \<open>A plan of the loop whose call names a registered tool, or none.\<close>

definition recordable :: "str list \<Rightarrow> PlannedToolCall \<Rightarrow> bool" where
  "recordable names p \<longleftrightarrow>
     pc_context_tool_call_id p = pc_context_tool_call_id (plan_for (pc_call p) (pc_correlation_id p)) \<and> pc_correlation_id p \<noteq> [] \<and>
     nc_provider_tool_call_id (pc_call p) \<noteq> Some [] \<and>
     (case nc_name (pc_call p) of None \<Rightarrow> True | Some n \<Rightarrow> n = [] \<or> n \<in> set names)"

lemma any_invalid_JStr: "any_invalid (map JStr ds) = Inr (list_ex (\<lambda>d. d \<in> set recovery_diagnostics) ds)"
  by (induction ds) auto

lemma same_diagnostics: "recovery_diagnostics = invalid_provider_diagnostics"
  by (simp add: recovery_diagnostics_def invalid_provider_diagnostics_def)

lemma planned_fields:
  assumes "planned_payload names p = JObj c"
  shows "field_or_none c ''correlation_id'' = JStr (pc_correlation_id p)"
    and "field_or_none c ''provider_tool_call_id'' = json_opt_str (nc_provider_tool_call_id (pc_call p))"
    and "field_or_none c ''diagnostics'' = JArr (map JStr (nc_diagnostics (pc_call p)))"
    and "field_or_none c ''raw_arguments'' = JStr (nc_raw_arguments (pc_call p))"
    and "field_or_none c ''name'' = JStr (case nc_name (pc_call p) of
            Some n \<Rightarrow> if n \<in> set names then n else lit ''<invalid-tool-name>''
          | None \<Rightarrow> lit ''<invalid-tool-name>'')"
  using assms by (auto simp: planned_payload_def field_or_none_def)

lemma planned_context_id:
  assumes "recordable names p" "planned_payload names p = JObj c"
  shows "context_tool_call_id c = Inr (Some (pc_context_tool_call_id p))"
proof -
  define bad where "bad = list_ex (\<lambda>d. d \<in> set invalid_provider_diagnostics) (nc_diagnostics (pc_call p))"
  have "pc_context_tool_call_id p =
      (if bad then pc_correlation_id p
       else case nc_provider_tool_call_id (pc_call p) of Some i \<Rightarrow> i | None \<Rightarrow> pc_correlation_id p)"
    using assms(1) by (simp add: recordable_def plan_for_def bad_def)
  moreover have "any_invalid (map JStr (nc_diagnostics (pc_call p))) = Inr bad"
    by (simp add: any_invalid_JStr same_diagnostics bad_def)
  ultimately show ?thesis
    using assms(1) unfolding context_tool_call_id_def Let_def planned_fields [OF assms(2)]
    by (cases bad; cases "nc_provider_tool_call_id (pc_call p)") (auto simp: recordable_def json_opt_str_def)
qed

lemma planned_call:
  assumes "recordable names p" "lit ''<invalid-tool-name>'' \<notin> set names" "planned_payload names p = JObj c"
  shows "recovered_call rp c (pc_context_tool_call_id p) = declared_call p"
proof -
  have "recovered_name rp (field_or_none c ''name'') = or_else (nc_name (pc_call p)) (lit ''invalid_tool_name'')"
    using assms(1,2) unfolding planned_fields [OF assms(3)]
    by (cases "nc_name (pc_call p)") (auto simp: recovered_name_def or_else_def recordable_def py_str_def)
  then show ?thesis
    by (simp add: recovered_call_def declared_call_def planned_fields [OF assms(3)] str_unless_none_def py_str_def)
qed

lemma planned_calls:
  assumes "lit ''<invalid-tool-name>'' \<notin> set names" "list_all (recordable names) plans"
  shows "recovered_calls rp (map (planned_payload names) plans) = Inr (map declared_call plans)"
  using assms(2)
proof (induction plans)
  case (Cons p plans)
  obtain c where c: "planned_payload names p = JObj c" by (simp add: planned_payload_def)
  show ?case
    using Cons planned_context_id [OF _ c] planned_call [OF _ assms(1) c, of rp] by (simp add: c)
qed simp

lemma planned_pending:
  assumes "list_all (recordable names) plans" "distinct (map fst pending @ map pc_correlation_id plans)"
  shows "pending_ids pending (map (planned_payload names) plans) =
    Inr (pending @ map (\<lambda>p. (pc_correlation_id p, pc_context_tool_call_id p)) plans)"
  using assms
proof (induction plans arbitrary: pending)
  case (Cons p plans)
  obtain c where c: "planned_payload names p = JObj c" by (simp add: planned_payload_def)
  have new: "dset pending (pc_correlation_id p) i = pending @ [(pc_correlation_id p, i)]" for i
    using Cons.prems(2) by (induction pending) auto
  show ?case
    using Cons.prems Cons.IH [of "pending @ [(pc_correlation_id p, pc_context_tool_call_id p)]"]
      planned_context_id [OF _ c] by (simp add: c planned_fields [OF c] new)
qed simp

lemma planned_message:
  assumes "lit ''<invalid-tool-name>'' \<notin> set names" "list_all (recordable names) plans"
  shows "assistant_context_message rp (assistant_payload r plans names) = Inr (assistant_message r plans)"
proof -
  have "field_or_none (assistant_payload r plans names) ''tool_calls'' = JArr (map (planned_payload names) plans)"
    and "field_or_none (assistant_payload r plans names) ''text'' = JStr (nr_text r)"
    by (simp_all add: assistant_payload_def field_or_none_def)
  then show ?thesis
    by (simp add: assistant_context_message_def planned_calls [OF assms] assistant_message_def
        str_unless_none_def py_str_def)
qed

section \<open>Scanning a log\<close>

lemma scan_events_append:
  "scan_events rp agent s (es @ fs) = bindR (scan_events rp agent s es) (\<lambda>s'. scan_events rp agent s' fs)"
  by (induction es arbitrary: s) (auto simp: bindR_def split: sum.splits)

lemma tally_events_append:
  "tally_events rp agent t (es @ fs) = bindR (tally_events rp agent t es) (\<lambda>t'. tally_events rp agent t' fs)"
  by (induction es arbitrary: t) (auto simp: bindR_def split: sum.splits)

text \<open>An event that is no compaction adds at most a message.\<close>

lemma scan_event_adds:
  assumes "scan_event rp agent e s = Inr s'" "\<not> (is_type COMPACTION e \<and> ev_agent_id e = agent)"
  shows "scan_cutoff s' = scan_cutoff s \<and> (\<exists>ps. sn_pairs s' = sn_pairs s @ ps)"
  using assms
  by (auto simp: scan_event_def Let_def scan_assistant_def scan_result_def add_pair_def scan_cutoff_def bindR_Inr_iff
      split: if_splits option.splits)

lemma scan_events_add:
  "scan_events rp agent s es = Inr s' \<Longrightarrow> \<forall>e \<in> set es. \<not> (is_type COMPACTION e \<and> ev_agent_id e = agent) \<Longrightarrow>
   scan_cutoff s' = scan_cutoff s \<and> (\<exists>ps. sn_pairs s' = sn_pairs s @ ps)"
proof (induction es arbitrary: s)
  case (Cons e es)
  then obtain s1 where s1: "scan_event rp agent e s = Inr s1" "scan_events rp agent s1 es = Inr s'"
    by (auto simp: bindR_Inr_iff)
  show ?case using scan_event_adds [OF s1(1)] Cons.IH [OF s1(2)] Cons.prems(2) by auto
qed auto

lemma flattened_length:
  "complete_message_groups rp ps = Inr gs \<Longrightarrow>
   length (concat (map (\<lambda>g. zip (mg_messages g) (mg_sequences g)) gs)) = length (concat (map mg_messages gs))"
proof -
  have "recovered_groups rp first qs = Inr gs \<Longrightarrow> list_all (\<lambda>g. length (mg_messages g) = length (mg_sequences g)) gs" for first qs gs
    by (induction rp first qs arbitrary: gs rule: recovered_groups.induct)
      (auto simp: bindR_Inr_iff mk_MessageGroup_Inr split: if_splits sum.splits)
  moreover assume "complete_message_groups rp ps = Inr gs"
  ultimately have "list_all (\<lambda>g. length (mg_messages g) = length (mg_sequences g)) gs"
    by (auto simp: complete_message_groups_def bindR_Inr_iff)
  then show ?thesis by (induction gs) auto
qed

lemma complete_message_groups_blocked:
  assumes "complete_message_groups rp ps = Inr gs" "length (concat (map mg_messages gs)) < length ps"
    and "\<not> has_role ''tool'' (fst q)"
  shows "\<not> is_ok (complete_message_groups rp (ps @ q # qs))"
proof -
  have "recovered_groups rp True ps = Inr gs"
    using assms(1) by (auto simp: complete_message_groups_def bindR_Inr_iff detach_all_Inr zip_map_fst_snd)
  then have "recovered_groups rp True (ps @ q # qs) =
      Inl (SessionResumeError ''session assistant tool calls are missing results'')"
    by (rule recovered_groups_blocked) (use assms in auto)
  then show ?thesis
    by (auto simp: is_ok_iff complete_message_groups_def bindR_Inr_iff detach_all_Inr zip_map_fst_snd
        simp del: map_append list.map)
qed

section \<open>Properties\<close>

text \<open>C27: The recovered context groups exactly as the context itself does, except that an exchange
  left unfinished at the end of the messages is dropped.\<close>

theorem recovery_grouping:
  assumes "\<forall>p \<in> set ps. detach_message (fst p) = Inr (fst p) \<and> is_ok (expected_ids (fst p))"
  shows "complete_message_groups rp ps = Inr gs \<longleftrightarrow>
    (\<exists>kept rest. ps = kept @ rest \<and> group_messages (map fst kept) (map snd kept) = Inr gs \<and>
       (rest = [] \<or> unfinished (map fst rest)))"
proof -
  have "detach_all (map fst ps) = Inr (map fst ps)" using assms by (simp add: detach_all_Inr list_all_iff)
  then have eq: "complete_message_groups rp ps = recovered_groups rp True ps"
    by (simp add: complete_message_groups_def zip_map_fst_snd)
  show ?thesis
  proof
    assume "complete_message_groups rp ps = Inr gs"
    then show "\<exists>kept rest. ps = kept @ rest \<and> group_messages (map fst kept) (map snd kept) = Inr gs \<and>
       (rest = [] \<or> unfinished (map fst rest))"
      using recovered_groups_sound [of rp True ps gs] assms by (simp add: eq group_messages_iff)
  next
    assume "\<exists>kept rest. ps = kept @ rest \<and> group_messages (map fst kept) (map snd kept) = Inr gs \<and>
       (rest = [] \<or> unfinished (map fst rest))"
    then obtain kept rest where k: "ps = kept @ rest" "concat (map mg_messages gs) = map fst kept"
      "concat (map mg_sequences gs) = map snd kept" "list_all group_ok gs" "rest = [] \<or> unfinished (map fst rest)"
      by (auto simp: group_messages_iff)
    have "recovered_groups rp f rest = Inr []" for f
      using k(5) recovered_groups_unfinished by auto
    then have "recovered_groups rp True ps = Inr gs"
      using recovered_groups_skip [OF k(4), of rp True rest] by (simp add: k(1-3) zip_map_fst_snd)
    then show "complete_message_groups rp ps = Inr gs" by (simp only: eq)
  qed
qed


text \<open>C29: A session whose log ends in an unfinished exchange resumes once, without that exchange; but
  when the resumed session has written its next user message, the log cannot be resumed again,
  whatever follows, as long as no compaction covers the exchange.\<close>

theorem second_resume_fails:
  assumes "context_from_events rp es agent = Inr (s, ms)"
    and "length ms < length (filter (\<lambda>p. scan_cutoff s < snd p) (sn_pairs s))"
    and "is_type USER_MESSAGE e" and "ev_agent_id e = agent" and "scan_cutoff s < ev_sequence e"
    and "\<forall>x \<in> set later. \<not> (is_type COMPACTION x \<and> ev_agent_id x = agent)"
  shows "\<not> is_ok (context_from_events rp (es @ e # later) agent)"
proof
  let ?cut = "filter (\<lambda>p. scan_cutoff s < snd p)"
  let ?m = "[(lit ''role'', JStr (lit ''user'')), (lit ''content'', JStr (str_or_empty rp (field_or_none (ev_payload e) ''text'')))]"
  assume "is_ok (context_from_events rp (es @ e # later) agent)"
  then obtain s' ms' where s': "scan_events rp agent no_scan (es @ e # later) = Inr s'" "scanned_messages rp s' = Inr ms'"
    by (auto simp: is_ok_iff context_from_events_def bindR_Inr_iff)
  have s: "scan_events rp agent no_scan es = Inr s" "scanned_messages rp s = Inr ms"
    using assms(1) by (auto simp: context_from_events_def bindR_Inr_iff)
  have "scan_event rp agent e s = Inr (add_pair ?m e s)"
    using assms(3,4) by (simp add: scan_event_def is_type_def)
  then have "scan_events rp agent (add_pair ?m e s) later = Inr s'"
    using s'(1) s(1) by (simp add: scan_events_append)
  then obtain ps where ps: "scan_cutoff s' = scan_cutoff s" "sn_pairs s' = sn_pairs s @ (?m, ev_sequence e) # ps"
    using scan_events_add [OF _ assms(6)] by (fastforce simp: add_pair_def scan_cutoff_def)
  obtain gs where gs: "complete_message_groups rp (?cut (sn_pairs s)) = Inr gs"
    "ms = concat (map (\<lambda>g. zip (mg_messages g) (mg_sequences g)) gs)"
    using s(2) by (auto simp: scanned_messages_def bindR_Inr_iff as_resume_error_def split: sum.splits exn.splits if_splits)
  have "\<not> is_ok (complete_message_groups rp (?cut (sn_pairs s) @ (?m, ev_sequence e) # ?cut ps))"
    using complete_message_groups_blocked [OF gs(1)] assms(2) flattened_length [OF gs(1)] gs(2)
    by (simp add: has_role_def)
  moreover have "is_ok (complete_message_groups rp (?cut (sn_pairs s')))"
    using s'(2) ps(1) by (auto simp: scanned_messages_def bindR_Inr_iff as_resume_error_def is_ok_iff
        split: sum.splits exn.splits if_splits)
  ultimately show False using ps(2) assms(5) by simp
qed

text \<open>An end event that records the budget.\<close>

definition closes :: "str \<Rightarrow> EventEnvelope \<Rightarrow> bool" where
  "closes agent e \<longleftrightarrow>
     ev_agent_id e = agent \<and> (is_type TURN_END e \<or> is_type AGENT_END e \<or> is_type SESSION_END e) \<and>
     (\<exists>b. field_or_none (ev_payload e) ''budget'' = JObj b)"

lemma tally_counts_snapshot: "tally_counts rp e t = Inr t' \<Longrightarrow> ta_snapshot t' = ta_snapshot t"
  by (auto simp: tally_counts_def tally_usage_def Let_def bindR_Inr_iff split: if_splits json.splits)

lemma tally_event_keep:
  assumes "tally_event rp agent e t = Inr t1" "\<not> closes agent e"
  shows "ta_snapshot t1 = ta_snapshot t"
proof (cases "ev_agent_id e = agent")
  case True
  then obtain t' where t': "tally_counts rp e t = Inr t'" using assms(1) by (auto simp: tally_event_def bindR_Inr_iff)
  then have "t1 = t' \<or> closes agent e"
    using True assms(1) by (cases "field_or_none (ev_payload e) ''budget''") (auto simp: tally_event_def closes_def split: if_splits)
  then show ?thesis using assms(2) tally_counts_snapshot [OF t'] by blast
qed (use assms in \<open>simp add: tally_event_def\<close>)

lemma tally_events_keep:
  "tally_events rp agent t es = Inr t' \<Longrightarrow> \<forall>e \<in> set es. \<not> closes agent e \<Longrightarrow> ta_snapshot t' = ta_snapshot t"
proof (induction es arbitrary: t)
  case (Cons e es)
  then obtain t1 where t1: "tally_event rp agent e t = Inr t1" "tally_events rp agent t1 es = Inr t'"
    by (auto simp: bindR_Inr_iff)
  then show ?case using Cons.IH [OF t1(2)] Cons.prems(2) tally_event_keep [OF t1(1)] by simp
qed simp

lemma int_or_JInt: "int_or rp (JInt i) 0 = Inr i"
  by (simp add: int_or_def)

text \<open>The counters of a resumed session are those of the last end event that recorded a budget,
  whatever was recorded before it, and also whatever steps and calls came after it.\<close>

theorem resumed_budget:
  assumes "is_ok (tally_events rp agent no_tally (es @ e # later))"
    and "closes agent e" and "field_or_none (ev_payload e) ''budget'' = JObj (snapshot b now)"
    and "\<forall>x \<in> set later. \<not> closes agent x"
  shows "budget_from_events rp (es @ e # later) agent =
    Inr (model_steps b, tool_calls b, protocol_errors b, input_tokens b, output_tokens b)"
proof -
  obtain t where t: "tally_events rp agent no_tally (es @ e # later) = Inr t" using assms(1) by (auto simp: is_ok_iff)
  then obtain t0 t1 where t1: "tally_event rp agent e t0 = Inr t1" "tally_events rp agent t1 later = Inr t"
    by (auto simp: tally_events_append bindR_Inr_iff)
  have "ta_snapshot t = ta_snapshot t1" by (rule tally_events_keep [OF t1(2) assms(4)])
  also have "ta_snapshot t1 = Some (snapshot b now)"
    using t1(1) assms(2,3) by (auto simp: tally_event_def closes_def bindR_Inr_iff)
  finally show ?thesis
    by (simp add: budget_from_events_def t snapshot_def field_or_none_def int_or_JInt)
qed

section \<open>Witnesses\<close>

definition plain_recovery :: recovery_ports where
  "plain_recovery =
     \<lparr>rv_platform = \<lparr>pl_frepr = (\<lambda>_. []), pl_fparse = (\<lambda>_. NaN), pl_json_error = (\<lambda>s. s), pl_fromiso = Some,
        pl_casefold = (\<lambda>s. s), pl_word = (\<lambda>_. False), pl_round = (\<lambda>q. q)\<rparr>,
      rv_str = (\<lambda>_. []), rv_parse_int = (\<lambda>_. None)\<rparr>"

definition log_event :: "EventType \<Rightarrow> int \<Rightarrow> str option \<Rightarrow> jobj \<Rightarrow> EventEnvelope" where
  "log_event ty n correlation payload =
     \<lparr>ev_schema_version = 1, ev_session_id = lit ''session_1'', ev_event_id = lit ''event_'' @ dec_int n,
      ev_agent_id = lit ''agent_1'', ev_sequence = n, ev_type = event_type_str ty,
      ev_timestamp = lit ''2025-01-01T00:00:00Z'', ev_parent_agent_id = None, ev_correlation_id = correlation,
      ev_provider_tool_call_id = None, ev_payload = payload\<rparr>"

definition sample_plan :: PlannedToolCall where
  "sample_plan = plan_for
     \<lparr>nc_provider_tool_call_id = None, nc_name = Some (lit ''bash''), nc_raw_arguments = lit ''{}'',
      nc_arguments_valid = True, nc_diagnostics = []\<rparr> (lit ''correlation_1'')"

definition sample_response :: NormalizedAssistantResponse where
  "sample_response = \<lparr>nr_text = lit ''ok'', nr_tool_calls = [pc_call sample_plan], nr_usage = None, nr_finish_reason = None,
     nr_diagnostics = []\<rparr>"

definition call_event :: EventEnvelope where
  "call_event = log_event ASSISTANT_MESSAGE 3 None (assistant_payload sample_response [sample_plan] [lit ''bash''])"

lemma sample_facts:
  "list_all (recordable [lit ''bash'']) [sample_plan]" "pc_correlation_id sample_plan = lit ''correlation_1''"
  "pc_context_tool_call_id sample_plan = lit ''correlation_1''" "sample_plan \<in> set [sample_plan]"
  by (simp_all add: recordable_def sample_plan_def plan_for_def)


definition user_message :: "str \<Rightarrow> message" where
  "user_message t = [(lit ''role'', JStr (lit ''user'')), (lit ''content'', JStr t)]"

theorem recovery_grouping_witness:
  "complete_message_groups plain_recovery
     [(user_message (lit ''go''), 2), (assistant_message sample_response [sample_plan], 3)] =
   Inr [\<lparr>mg_messages = [user_message (lit ''go'')], mg_sequences = [2]\<rparr>]"
proof -
  let ?u = "user_message (lit ''go'')" and ?a = "assistant_message sample_response [sample_plan]"
  have calls: "tool_call_ids ?a = Inr [lit ''correlation_1'']"
    by (simp add: tool_call_ids_def assistant_message_def declared_call_def sample_facts)
  have roles: "has_role ''assistant'' ?a" "\<not> has_role ''tool'' ?a" "\<not> has_role ''assistant'' ?u" "\<not> has_role ''tool'' ?u"
    by (simp_all add: has_role_def assistant_message_def user_message_def)
  have expected: "expected_ids ?a = Inr [lit ''correlation_1'']" "expected_ids ?u = Inr []"
    using calls roles by (simp_all add: expected_ids_def)
  have detached: "detach_message ?a = Inr ?a" "detach_message ?u = Inr ?u"
    by (simp_all add: detach_message_def assistant_message_def user_message_def)
  have "unfinished [?a]" using roles expected by (auto simp: unfinished_def)
  moreover have "group_messages [?u] [2] = Inr [\<lparr>mg_messages = [?u], mg_sequences = [2]\<rparr>]"
    using roles expected detached by (simp add: group_messages_iff group_ok_def whole_def)
  moreover have ok: "\<forall>p \<in> set [(?u, 2), (?a, 3 :: int)]. detach_message (fst p) = Inr (fst p) \<and> is_ok (expected_ids (fst p))"
    by (simp add: detached expected)
  ultimately show ?thesis
    unfolding recovery_grouping [OF ok]
    by - (rule exI [of _ "[(?u, 2)]"], rule exI [of _ "[(?a, 3)]"], simp)
qed

theorem second_resume_fails_witness:
  "is_ok (context_from_events plain_recovery [call_event] (lit ''agent_1'')) \<and>
   \<not> is_ok (context_from_events plain_recovery
       [call_event, log_event USER_MESSAGE 4 None [(lit ''text'', JStr (lit ''go on''))]] (lit ''agent_1''))"
proof -
  let ?a = "assistant_message sample_response [sample_plan]"
  let ?e = "log_event USER_MESSAGE 4 None [(lit ''text'', JStr (lit ''go on''))]"
  obtain s where s: "scan_event plain_recovery (lit ''agent_1'') call_event no_scan = Inr s" "sn_pairs s = [(?a, 3)]"
    "scan_cutoff s = 0"
    using planned_message [of "[lit ''bash'']" "[sample_plan]" plain_recovery sample_response] sample_facts
      planned_pending [of "[lit ''bash'']" "[sample_plan]" "[]"]
    by (auto simp: scan_event_def is_type_def scan_assistant_def call_event_def log_event_def add_pair_def no_scan_def
        assistant_payload_def field_or_none_def scan_cutoff_def)
  have groups: "complete_message_groups plain_recovery [(?a, 3)] = Inr []"
    by (simp add: complete_message_groups_def detach_message_def assistant_message_def has_role_def recovered_ids_def
        field_or_none_def declared_call_def py_str_def sample_facts)
  have first: "context_from_events plain_recovery [call_event] (lit ''agent_1'') = Inr (s, [])"
    by (simp add: context_from_events_def s scanned_messages_def groups as_resume_error_def)
  have "\<not> is_ok (context_from_events plain_recovery ([call_event] @ ?e # []) (lit ''agent_1''))"
    by (rule second_resume_fails [OF first]) (simp_all add: s is_type_def log_event_def)
  with first show ?thesis by simp
qed

definition spent_budget :: BudgetTracker where
  "spent_budget = \<lparr>max_steps = Some 5, max_tool_calls = None, max_protocol_errors = None, max_wall_seconds = None,
     model_steps = 2, tool_calls = 1, protocol_errors = 0, input_tokens = 7, output_tokens = 3,
     started_at = None, deadline = None\<rparr>"

theorem resumed_budget_witness:
  "budget_from_events plain_recovery
     [log_event TURN_END 2 None [(lit ''budget'', JObj (snapshot spent_budget 0))], call_event] (lit ''agent_1'') =
   Inr (2, 1, 0, 7, 3)"
proof -
  let ?e = "log_event TURN_END 2 None [(lit ''budget'', JObj (snapshot spent_budget 0))]"
  have "budget_from_events plain_recovery ([] @ ?e # [call_event]) (lit ''agent_1'') =
      Inr (model_steps spent_budget, tool_calls spent_budget, protocol_errors spent_budget,
           input_tokens spent_budget, output_tokens spent_budget)"
    by (rule resumed_budget [where now = 0])
      (simp_all add: closes_def log_event_def is_type_def field_or_none_def call_event_def tally_event_def
        tally_counts_def tally_usage_def assistant_payload_def sample_response_def)
  then show ?thesis by (simp add: spent_budget_def)
qed

end
