(* ===== verification/Stream.thy ===== *)
theory Stream
  imports Events
begin

text \<open>
  The event buffer of the backend service (\<open>EventStreamBuffer\<close> of \<open>backend_service.py\<close>): the
  state it derives from the events, and its readers.  A reader is the generator
  \<open>iter_since\<close> returns; publishing, closing and the reader's two atomic parts, the look at the
  buffer under its lock and the hand-over of one event, interleave in any order
  (\<open>stream_step\<close>).
\<close>

section \<open>The buffer\<close>

record EventStreamBuffer =
  eb_events :: "EventEnvelope list"
  eb_closed :: bool
  eb_last_state :: RuntimeState

definition EventStreamBuffer_init :: EventStreamBuffer where
  "EventStreamBuffer_init = \<lparr>eb_events = [], eb_closed = False, eb_last_state = RUNNING\<rparr>"

definition terminal_states :: "RuntimeState list" where
  "terminal_states = [FAILED, LIMIT_REACHED, INTERRUPTED]"

definition all_states :: "RuntimeState list" where
  "all_states = [RUNNING, WAITING_FOR_APPROVAL, COMPLETED_TURN, LIMIT_REACHED, INTERRUPTED, FAILED]"

text \<open>\<open>RuntimeState(value)\<close> of a string, and \<open>_coerce_state\<close>.\<close>

definition state_of_str :: "str \<Rightarrow> RuntimeState option" where
  "state_of_str s = find (\<lambda>st. runtime_state_str st = s) all_states"

definition coerce_state :: "json \<Rightarrow> RuntimeState option" where
  "coerce_state v = (case v of JStr s \<Rightarrow> state_of_str s | _ \<Rightarrow> None)"

definition has_type :: "EventType \<Rightarrow> EventEnvelope \<Rightarrow> bool" where
  "has_type ty e \<longleftrightarrow> ev_type e = event_type_str ty"

definition is_end :: "EventEnvelope \<Rightarrow> bool" where
  "is_end e \<longleftrightarrow> has_type TURN_END e \<or> has_type SESSION_END e \<or> has_type AGENT_END e"

definition is_start :: "EventEnvelope \<Rightarrow> bool" where
  "is_start e \<longleftrightarrow> has_type SESSION_START e \<or> has_type AGENT_START e \<or> has_type USER_MESSAGE e"

definition state_field :: "EventEnvelope \<Rightarrow> json" where
  "state_field e = (case dget (ev_payload e) (lit ''state'') of Some v \<Rightarrow> v | None \<Rightarrow> JNull)"

text \<open>\<open>_apply_state\<close>.\<close>

definition apply_state :: "EventEnvelope \<Rightarrow> RuntimeState \<Rightarrow> RuntimeState" where
  "apply_state e st =
     (if has_type APPROVAL_REQUEST e then (if st \<in> set terminal_states then st else WAITING_FOR_APPROVAL)
      else if has_type POLICY_DECISION e then (if st = WAITING_FOR_APPROVAL then RUNNING else st)
      else if is_end e then (case coerce_state (state_field e) of Some parsed \<Rightarrow> parsed | None \<Rightarrow> st)
      else if is_start e then (if st \<in> set terminal_states then st else RUNNING)
      else st)"

definition stream_publish :: "EventEnvelope \<Rightarrow> EventStreamBuffer \<Rightarrow> EventStreamBuffer" where
  "stream_publish e b =
     b\<lparr>eb_events := eb_events b @ [e], eb_last_state := apply_state e (eb_last_state b)\<rparr>"

definition stream_close :: "EventStreamBuffer \<Rightarrow> EventStreamBuffer" where
  "stream_close b = b\<lparr>eb_closed := True\<rparr>"

section \<open>Readers\<close>

text \<open>The generator: its cursor, the rest of its batch, what it has handed over, and whether it
  has returned.\<close>

record stream_reader =
  rd_cursor :: int
  rd_batch :: "EventEnvelope list"
  rd_yielded :: "EventEnvelope list"
  rd_returned :: bool

definition iter_since :: "int \<Rightarrow> rat \<Rightarrow> stream_reader res" where
  "iter_since since poll_timeout =
     bindR (guardR (0 < poll_timeout) (ValueError (lit ''poll_timeout must be a positive number''))) (\<lambda>_.
     Inr \<lparr>rd_cursor = since, rd_batch = [], rd_yielded = [], rd_returned = False\<rparr>)"

definition beyond :: "int \<Rightarrow> EventEnvelope list \<Rightarrow> EventEnvelope list" where
  "beyond cursor es = filter (\<lambda>e. cursor < ev_sequence e) es"

text \<open>One look at the buffer under its lock.\<close>

definition reader_poll :: "EventStreamBuffer \<Rightarrow> stream_reader \<Rightarrow> stream_reader" where
  "reader_poll b r =
     (let batch = beyond (rd_cursor r) (eb_events b) in
      if batch \<noteq> [] then r\<lparr>rd_batch := batch\<rparr>
      else if eb_closed b then r\<lparr>rd_returned := True\<rparr>
      else r)"

definition reader_yield :: "stream_reader \<Rightarrow> stream_reader" where
  "reader_yield r =
     (case rd_batch r of
        [] \<Rightarrow> r
      | e # es \<Rightarrow> r\<lparr>rd_cursor := ev_sequence e, rd_batch := es, rd_yielded := rd_yielded r @ [e]\<rparr>)"

text \<open>The next atomic part of a reader that has not returned.\<close>

definition reader_next :: "EventStreamBuffer \<Rightarrow> stream_reader \<Rightarrow> stream_reader" where
  "reader_next b r =
     (if rd_returned r then r else if rd_batch r = [] then reader_poll b r else reader_yield r)"

text \<open>The buffer's publisher, its closer and one reader; a published event is later than those
  before it, as the session store numbers them.\<close>

inductive stream_step :: "EventStreamBuffer \<times> stream_reader \<Rightarrow> EventStreamBuffer \<times> stream_reader \<Rightarrow> bool" where
  publishing: "\<forall>x \<in> set (eb_events b). ev_sequence x < ev_sequence e \<Longrightarrow> stream_step (b, r) (stream_publish e b, r)"
| closing: "stream_step (b, r) (stream_close b, r)"
| reading: "stream_step (b, r) (b, reader_next b r)"

inductive_cases stream_stepE: "stream_step (b, r) (b', r')"

section \<open>What a reader has seen\<close>

definition numbered :: "EventEnvelope list \<Rightarrow> bool" where
  "numbered es \<longleftrightarrow> sorted_wrt (<) (map ev_sequence es)"

lemma numbered_snoc: "numbered (es @ [e]) \<longleftrightarrow> numbered es \<and> (\<forall>x \<in> set es. ev_sequence x < ev_sequence e)"
  by (auto simp: numbered_def sorted_wrt_append)

lemma beyond_append [simp]: "beyond c (es @ fs) = beyond c es @ beyond c fs"
  by (simp add: beyond_def)

lemma beyond_rest:
  assumes "numbered es" "beyond since es = ys @ rest"
  shows "beyond (if ys = [] then since else ev_sequence (last ys)) es = rest"
proof (cases "ys = []")
  case False
  have in_es: "set ys \<subseteq> {e \<in> set es. since < ev_sequence e}"
    using assms(2) by (metis beyond_def set_append set_filter sup_ge1)
  have "numbered (beyond since es)"
    using assms(1) unfolding numbered_def beyond_def by (induction es) auto
  then have order: "numbered (ys @ rest)" by (simp add: assms(2))
  have "since < ev_sequence (last ys)" using in_es last_in_set [OF False] by blast
  then have "beyond (ev_sequence (last ys)) es = beyond (ev_sequence (last ys)) (beyond since es)"
    by (auto simp: beyond_def intro: filter_cong)
  also have "\<dots> = beyond (ev_sequence (last ys)) ys @ beyond (ev_sequence (last ys)) rest"
    by (simp add: assms(2))
  also have "beyond (ev_sequence (last ys)) ys = []"
  proof -
    obtain zs where zs: "ys = zs @ [last ys]" using False by (metis append_butlast_last_id)
    have "numbered (zs @ [last ys])"
      using order unfolding numbered_def zs [symmetric] by (simp add: sorted_wrt_append)
    then show ?thesis by (subst zs) (auto simp: numbered_snoc beyond_def filter_empty_conv)
  qed
  also have "beyond (ev_sequence (last ys)) rest = rest"
    using order False by (auto simp: numbered_def sorted_wrt_append beyond_def filter_id_conv)
  finally show ?thesis using False by simp
qed (use assms(2) in simp)

definition reader_inv :: "int \<Rightarrow> EventStreamBuffer \<Rightarrow> stream_reader \<Rightarrow> bool" where
  "reader_inv since b r \<longleftrightarrow>
     numbered (eb_events b) \<and>
     (\<exists>rest. beyond since (eb_events b) = rd_yielded r @ rd_batch r @ rest) \<and>
     rd_cursor r = (if rd_yielded r = [] then since else ev_sequence (last (rd_yielded r))) \<and>
     (rd_returned r \<longrightarrow> rd_batch r = [] \<and> eb_closed b)"

lemma reader_next_inv:
  assumes "reader_inv since b r"
  shows "reader_inv since b (reader_next b r)"
    and "\<not> rd_returned r \<Longrightarrow> rd_returned (reader_next b r) \<Longrightarrow> rd_yielded (reader_next b r) = beyond since (eb_events b)"
proof -
  obtain rest where rest: "numbered (eb_events b)" "beyond since (eb_events b) = rd_yielded r @ rd_batch r @ rest"
    "rd_cursor r = (if rd_yielded r = [] then since else ev_sequence (last (rd_yielded r)))"
    using assms by (auto simp: reader_inv_def)
  have nxt: "beyond (rd_cursor r) (eb_events b) = rd_batch r @ rest"
    using beyond_rest [OF rest(1,2)] by (simp add: rest(3))
  show "reader_inv since b (reader_next b r)"
    using assms rest nxt
    by (auto simp: reader_inv_def reader_next_def reader_poll_def reader_yield_def Let_def split: list.splits)
  show "\<not> rd_returned r \<Longrightarrow> rd_returned (reader_next b r) \<Longrightarrow> rd_yielded (reader_next b r) = beyond since (eb_events b)"
    using rest nxt
    by (auto simp: reader_next_def reader_poll_def reader_yield_def Let_def split: if_splits list.splits)
qed

lemma stream_step_inv: "stream_step (b, r) (b', r') \<Longrightarrow> reader_inv since b r \<Longrightarrow> reader_inv since b' r'"
proof (erule stream_stepE)
  fix e assume "\<forall>x \<in> set (eb_events b). ev_sequence x < ev_sequence e" "b' = stream_publish e b" "r' = r" "reader_inv since b r"
  then show "reader_inv since b' r'" by (auto simp: reader_inv_def stream_publish_def numbered_snoc)
next
  assume "b' = stream_close b" "r' = r" "reader_inv since b r"
  then show "reader_inv since b' r'" by (simp add: reader_inv_def stream_close_def)
next
  assume "b' = b" "r' = reader_next b r" "reader_inv since b r"
  then show "reader_inv since b' r'" by (simp only: reader_next_inv(1))
qed

lemma stream_steps_inv:
  "stream_step\<^sup>*\<^sup>* p q \<Longrightarrow> reader_inv since (fst p) (snd p) \<Longrightarrow> reader_inv since (fst q) (snd q)"
  by (induction rule: rtranclp_induct) (auto intro: stream_step_inv)

text \<open>A reader of a closed buffer returns, and has then seen everything.\<close>

lemma reader_finishes:
  assumes "reader_inv since b r" "eb_closed b" "\<not> rd_returned r"
  shows "\<exists>n. rd_returned ((reader_next b ^^ n) r) \<and> rd_yielded ((reader_next b ^^ n) r) = beyond since (eb_events b)"
  using assms
proof (induction "2 * length (beyond since (eb_events b)) - 2 * length (rd_yielded r) + (if rd_batch r = [] then 1 else 0)"
    arbitrary: r rule: less_induct)
  case less
  let ?r = "reader_next b r"
  obtain rest where rest: "beyond since (eb_events b) = rd_yielded r @ rd_batch r @ rest"
    "beyond (rd_cursor r) (eb_events b) = rd_batch r @ rest"
    using less.prems(1) beyond_rest by (fastforce simp: reader_inv_def)
  show ?case
  proof (cases "rd_returned ?r")
    case True
    then show ?thesis
      using reader_next_inv(2) [OF less.prems(1,3) True] by (intro exI [of _ 1]) simp
  next
    case False
    then have "2 * length (beyond since (eb_events b)) - 2 * length (rd_yielded ?r) + (if rd_batch ?r = [] then 1 else 0)
        < 2 * length (beyond since (eb_events b)) - 2 * length (rd_yielded r) + (if rd_batch r = [] then 1 else (0 :: nat))"
      using less.prems(2,3) rest
      by (auto simp: reader_next_def reader_poll_def reader_yield_def Let_def split: list.splits if_splits)
    from less.hyps [OF this reader_next_inv(1) [OF less.prems(1)] less.prems(2) False]
    obtain n where n: "rd_returned ((reader_next b ^^ n) ?r)"
      "rd_yielded ((reader_next b ^^ n) ?r) = beyond since (eb_events b)" by blast
    then show ?thesis by (intro exI [of _ "Suc n"]) (simp add: funpow_swap1)
  qed
qed

text \<open>C26: Whatever is published meanwhile, a reader hands over the events beyond its cursor in order,
  each once and none left out; and once the buffer is closed it returns, after all of them.\<close>

theorem subscription_complete:
  assumes "iter_since since poll_timeout = Inr r0" and "numbered (eb_events b0)"
    and "stream_step\<^sup>*\<^sup>* (b0, r0) (b, r)"
  shows "prefix (rd_yielded r) (beyond since (eb_events b)) \<and>
    (eb_closed b \<and> \<not> rd_returned r \<longrightarrow>
       (\<exists>n. rd_returned ((reader_next b ^^ n) r) \<and> rd_yielded ((reader_next b ^^ n) r) = beyond since (eb_events b)))"
proof -
  have "reader_inv since b0 r0" using assms(1,2) by (auto simp: iter_since_def bindR_Inr_iff reader_inv_def)
  then have inv: "reader_inv since b r" using stream_steps_inv [OF assms(3)] by simp
  then have "prefix (rd_yielded r) (beyond since (eb_events b))" by (auto simp: reader_inv_def)
  then show ?thesis using reader_finishes [OF inv] by blast
qed

definition sample_envelope :: "EventType \<Rightarrow> int \<Rightarrow> EventEnvelope" where
  "sample_envelope ty n =
     \<lparr>ev_schema_version = 1, ev_session_id = lit ''session_1'', ev_event_id = lit ''event_'' @ dec_int n,
      ev_agent_id = lit ''agent_1'', ev_sequence = n, ev_type = event_type_str ty,
      ev_timestamp = lit ''2025-01-01T00:00:00Z'', ev_parent_agent_id = None, ev_correlation_id = None,
      ev_provider_tool_call_id = None, ev_payload = []\<rparr>"

theorem subscription_complete_witness:
  "\<exists>n r. r = (reader_next (stream_close (stream_publish (sample_envelope USER_MESSAGE 2)
            (stream_publish (sample_envelope SESSION_START 1) EventStreamBuffer_init))) ^^ n)
          \<lparr>rd_cursor = 1, rd_batch = [], rd_yielded = [], rd_returned = False\<rparr> \<and>
     rd_returned r \<and> rd_yielded r = [sample_envelope USER_MESSAGE 2]"
proof -
  let ?r = "\<lparr>rd_cursor = 1, rd_batch = [], rd_yielded = [], rd_returned = False\<rparr> :: stream_reader"
  let ?b1 = "stream_publish (sample_envelope SESSION_START 1) EventStreamBuffer_init"
  let ?b2 = "stream_publish (sample_envelope USER_MESSAGE 2) ?b1"
  have events: "eb_events ?b2 = [sample_envelope SESSION_START 1, sample_envelope USER_MESSAGE 2]"
    by (simp add: stream_publish_def EventStreamBuffer_init_def)
  have s1: "stream_step (EventStreamBuffer_init, ?r) (?b1, ?r)"
    by (rule publishing) (simp add: EventStreamBuffer_init_def)
  have s2: "stream_step (?b1, ?r) (?b2, ?r)"
    by (rule publishing) (simp add: stream_publish_def EventStreamBuffer_init_def sample_envelope_def)
  have s3: "stream_step (?b2, ?r) (stream_close ?b2, ?r)" by (rule closing)
  have run: "stream_step\<^sup>*\<^sup>* (EventStreamBuffer_init, ?r) (stream_close ?b2, ?r)"
    using rtranclp.rtrancl_into_rtrancl [where r = stream_step] rtranclp.rtrancl_refl [where r = stream_step] s1 s2 s3 by metis
  have start: "iter_since 1 (1 / 10) = Inr ?r" by (simp add: iter_since_def)
  have empty: "numbered (eb_events EventStreamBuffer_init)" by (simp add: EventStreamBuffer_init_def numbered_def)
  have seen: "beyond 1 (eb_events (stream_close ?b2)) = [sample_envelope USER_MESSAGE 2]"
    using events by (simp add: stream_close_def beyond_def sample_envelope_def)
  have "eb_closed (stream_close ?b2)" "\<not> rd_returned ?r" by (simp_all add: stream_close_def)
  then show ?thesis using subscription_complete [OF start empty run] unfolding seen by blast
qed

end
