(* ===== verification/Backend.thy ===== *)
theory Backend
  imports Schema
begin

text \<open>
  The application port (\<open>backend.py\<close>): the commands a frontend sends, their JSON form and its
  decoding at the HTTP boundary (\<open>transports/http/commands.py\<close>), the errors of the provider, and
  the bounded history values that cross the port.
\<close>

section \<open>Commands\<close>

datatype AgentCommand =
    SubmitTask str
  | ApprovalResponse str bool
  | SetApprovalMode str
  | Interrupt str
  | CloseSession str

text \<open>The constructors, on field values as a JSON object holds them.\<close>

definition mk_SubmitTask :: "json \<Rightarrow> AgentCommand res" where
  "mk_SubmitTask v =
     (if is_jstr v \<and> strip (json_str v) \<noteq> [] then Inr (SubmitTask (json_str v))
      else Inl (ValueError (lit ''task text must be a non-empty string'')))"

definition mk_ApprovalResponse :: "json \<Rightarrow> json \<Rightarrow> AgentCommand res" where
  "mk_ApprovalResponse request_id approved =
     (if \<not> (is_jstr request_id \<and> json_str request_id \<noteq> [])
      then Inl (ValueError (lit ''request_id must be a non-empty string''))
      else (case approved of
              JBool b \<Rightarrow> Inr (ApprovalResponse (json_str request_id) b)
            | _ \<Rightarrow> Inl (TypeError (lit ''approved must be a boolean''))))"

definition approval_modes :: "str list" where
  "approval_modes = map lit [''ask'', ''auto'', ''deny'']"

definition mk_SetApprovalMode :: "json \<Rightarrow> AgentCommand res" where
  "mk_SetApprovalMode v =
     (if is_jstr v \<and> json_str v \<in> set approval_modes then Inr (SetApprovalMode (json_str v))
      else Inl (ValueError (lit ''approval mode must be ask, auto, or deny'')))"

definition mk_Interrupt :: "json \<Rightarrow> AgentCommand res" where
  "mk_Interrupt v =
     (if is_jstr v \<and> strip (json_str v) \<noteq> [] then Inr (Interrupt (json_str v))
      else Inl (ValueError (lit ''interrupt reason must be a non-empty string'')))"

definition mk_CloseSession :: "json \<Rightarrow> AgentCommand res" where
  "mk_CloseSession v =
     (if is_jstr v \<and> strip (json_str v) \<noteq> [] then Inr (CloseSession (json_str v))
      else Inl (ValueError (lit ''close reason must be a non-empty string'')))"

text \<open>What every constructed command satisfies.\<close>

fun command_ok :: "AgentCommand \<Rightarrow> bool" where
  "command_ok (SubmitTask t) = (strip t \<noteq> [])"
| "command_ok (ApprovalResponse i b) = (i \<noteq> [])"
| "command_ok (SetApprovalMode m) = (m \<in> set approval_modes)"
| "command_ok (Interrupt r) = (strip r \<noteq> [])"
| "command_ok (CloseSession r) = (strip r \<noteq> [])"

text \<open>The \<open>to_dict\<close> of the five classes.\<close>

fun command_to_dict :: "AgentCommand \<Rightarrow> jobj" where
  "command_to_dict (SubmitTask t) = [(lit ''type'', JStr (lit ''SubmitTask'')), (lit ''text'', JStr t)]"
| "command_to_dict (ApprovalResponse i b) =
     [(lit ''type'', JStr (lit ''ApprovalResponse'')), (lit ''request_id'', JStr i), (lit ''approved'', JBool b)]"
| "command_to_dict (SetApprovalMode m) = [(lit ''type'', JStr (lit ''SetApprovalMode'')), (lit ''mode'', JStr m)]"
| "command_to_dict (Interrupt r) = [(lit ''type'', JStr (lit ''Interrupt'')), (lit ''reason'', JStr r)]"
| "command_to_dict (CloseSession r) = [(lit ''type'', JStr (lit ''CloseSession'')), (lit ''reason'', JStr r)]"

section \<open>Decoding\<close>

definition CommandDecodeError :: "string \<Rightarrow> exn" where
  "CommandDecodeError m = OtherError (lit ''CommandDecodeError'') (lit m)"

text \<open>\<open>_COMMAND_FIELDS\<close>: the required and the optional fields of each type.\<close>

definition command_fields :: "(str \<times> str list \<times> str list) list" where
  "command_fields =
     [(lit ''SubmitTask'', map lit [''type'', ''text''], []),
      (lit ''ApprovalResponse'', map lit [''type'', ''request_id'', ''approved''], []),
      (lit ''SetApprovalMode'', map lit [''type'', ''mode''], []),
      (lit ''Interrupt'', [lit ''type''], [lit ''reason'']),
      (lit ''CloseSession'', [lit ''type''], [lit ''reason''])]"

definition command_type :: "jobj \<Rightarrow> str res" where
  "command_type d =
     (case dget d (lit ''type'') of
        Some (JStr t) \<Rightarrow>
          (case dget command_fields t of
             None \<Rightarrow> Inl (CommandDecodeError ''command type is not supported'')
           | Some (required, optional) \<Rightarrow>
               if list_all (has_key d) required \<and> list_all (\<lambda>k. k \<in> set (required @ optional)) (map fst d) then Inr t
               else Inl (CommandDecodeError ''command fields are invalid''))
      | _ \<Rightarrow> Inl (CommandDecodeError ''command type is not supported''))"

definition field_or :: "jobj \<Rightarrow> string \<Rightarrow> json \<Rightarrow> json" where
  "field_or d k v = (case dget d (lit k) of None \<Rightarrow> v | Some x \<Rightarrow> x)"

definition build_command :: "jobj \<Rightarrow> str \<Rightarrow> AgentCommand res" where
  "build_command d t =
     (if t = lit ''SubmitTask'' then mk_SubmitTask (field_or d ''text'' JNull)
      else if t = lit ''ApprovalResponse''
      then mk_ApprovalResponse (field_or d ''request_id'' JNull) (field_or d ''approved'' JNull)
      else if t = lit ''SetApprovalMode'' then mk_SetApprovalMode (field_or d ''mode'' JNull)
      else if t = lit ''Interrupt'' then mk_Interrupt (field_or d ''reason'' (JStr (lit ''interrupted'')))
      else mk_CloseSession (field_or d ''reason'' (JStr (lit ''session_closed''))))"

text \<open>\<open>decode_command\<close>.\<close>

definition decode_command :: "json \<Rightarrow> AgentCommand res" where
  "decode_command v =
     (case v of
        JObj d \<Rightarrow>
          bindR (command_type d) (\<lambda>t.
          case build_command d t of
            Inr c \<Rightarrow> Inr c
          | Inl e \<Rightarrow> Inl (if is_type_error e \<or> is_value_error e
                         then CommandDecodeError ''command fields are invalid'' else e))
      | _ \<Rightarrow> Inl (CommandDecodeError ''command must be a JSON object''))"

lemmas command_constructors =
  mk_SubmitTask_def mk_ApprovalResponse_def mk_SetApprovalMode_def mk_Interrupt_def mk_CloseSession_def

lemma build_command_ok: "build_command d t = Inr c \<Longrightarrow> command_ok c"
  by (auto simp: build_command_def command_constructors split: if_splits json.splits)

lemma build_command_error: "build_command d t = Inl e \<Longrightarrow> is_type_error e \<or> is_value_error e"
  by (auto simp: build_command_def command_constructors split: if_splits json.splits)

lemma decode_own: "command_ok c \<Longrightarrow> decode_command (JObj (command_to_dict c)) = Inr c"
  by (cases c)
    (auto simp: decode_command_def command_type_def command_fields_def build_command_def field_or_def
      has_key_def command_constructors)

lemma command_type_Inr:
  assumes "command_type d = Inr t"
  shows "dget d (lit ''type'') = Some (JStr t) \<and>
    (\<exists>required optional. dget command_fields t = Some (required, optional) \<and> list_all (has_key d) required \<and>
       fst ` set d \<subseteq> set (required @ optional))"
  using assms by (auto simp: command_type_def list_all_iff split: option.splits json.splits if_splits)

lemma command_type_Inl: "command_type d = Inl e \<Longrightarrow> exn_class e = lit ''CommandDecodeError''"
  by (auto simp: command_type_def CommandDecodeError_def split: option.splits json.splits if_splits)

lemma dget_key: "dget d k = Some v \<Longrightarrow> k \<in> fst ` set d"
  by (metis map_of_eq_None_iff not_Some_eq)

lemma jstr_same: "is_jstr v \<Longrightarrow> JStr (json_str v) = v"
  by (cases v) auto

text \<open>A decoded value holds no field but the command's own.\<close>

lemma build_command_exact:
  assumes "command_type d = Inr t" "build_command d t = Inr c" "dget d k = Some v"
  shows "dget (command_to_dict c) k = Some v"
proof -
  obtain required optional where f: "dget d (lit ''type'') = Some (JStr t)" "dget command_fields t = Some (required, optional)"
    "list_all (has_key d) required" "k \<in> set (required @ optional)"
    using command_type_Inr [OF assms(1)] dget_key [OF assms(3)] by blast
  have "t = lit ''SubmitTask'' \<or> t = lit ''ApprovalResponse'' \<or> t = lit ''SetApprovalMode'' \<or> t = lit ''Interrupt'' \<or>
      t = lit ''CloseSession''"
    using f(2) by (simp add: command_fields_def split: if_splits)
  then show ?thesis
    using assms(2,3) f
    by (elim disjE; simp add: command_fields_def build_command_def command_constructors field_or_def has_key_def)
      (auto simp: jstr_same split: if_splits json.splits)
qed

lemma decode_command_Inr:
  assumes "decode_command v = Inr c"
  shows "\<exists>d t. v = JObj d \<and> command_type d = Inr t \<and> build_command d t = Inr c"
proof -
  obtain d where d: "v = JObj d" using assms by (auto simp: decode_command_def split: json.splits)
  then obtain t where t: "command_type d = Inr t" using assms by (auto simp: decode_command_def bindR_Inr_iff)
  then show ?thesis using assms d by (cases "build_command d t") (auto simp: decode_command_def)
qed

lemma decode_command_Inl:
  assumes "decode_command v = Inl e"
  shows "exn_class e = lit ''CommandDecodeError''"
proof (cases "\<exists>d t. v = JObj d \<and> command_type d = Inr t")
  case True
  then obtain d t where d: "v = JObj d" "command_type d = Inr t" by blast
  then obtain e' where e': "build_command d t = Inl e'" using assms
    by (cases "build_command d t") (auto simp: decode_command_def)
  show ?thesis
    using assms build_command_error [OF e'] by (auto simp: decode_command_def d e' CommandDecodeError_def)
next
  case False
  then show ?thesis
    using assms
    by (auto simp: decode_command_def bindR_Inl_iff CommandDecodeError_def dest: command_type_Inl split: json.splits)
qed

section \<open>Provider errors\<close>

text \<open>The stable errors: a class and its fixed safe message.\<close>

definition InvalidSessionHistoryIdError :: exn where
  "InvalidSessionHistoryIdError = OtherError (lit ''InvalidSessionHistoryIdError'') (lit ''history session ID is invalid'')"

definition InvalidSessionHistoryCursorError :: exn where
  "InvalidSessionHistoryCursorError = OtherError (lit ''InvalidSessionHistoryCursorError'') (lit ''history cursor is invalid'')"

definition InvalidSessionHistoryLimitError :: exn where
  "InvalidSessionHistoryLimitError = OtherError (lit ''InvalidSessionHistoryLimitError'') (lit ''history limit is invalid'')"

definition SessionHistoryNotFoundError :: exn where
  "SessionHistoryNotFoundError = OtherError (lit ''SessionHistoryNotFoundError'') (lit ''session history was not found'')"

definition SessionHistoryUnavailableError :: exn where
  "SessionHistoryUnavailableError = OtherError (lit ''SessionHistoryUnavailableError'') (lit ''session history is unavailable'')"

definition SessionResumeUnavailableError :: exn where
  "SessionResumeUnavailableError = OtherError (lit ''SessionResumeUnavailableError'') (lit ''session cannot be resumed'')"

definition provider_errors :: "exn list" where
  "provider_errors =
     [InvalidSessionHistoryIdError, InvalidSessionHistoryCursorError, InvalidSessionHistoryLimitError,
      SessionHistoryNotFoundError, SessionHistoryUnavailableError, SessionResumeUnavailableError]"

section \<open>History values\<close>

text \<open>The pattern \<open>session_[A-Za-z0-9_-]{1,120}\<close>.\<close>

definition history_id_char :: "nat \<Rightarrow> bool" where
  "history_id_char c \<longleftrightarrow> (65 \<le> c \<and> c \<le> 90) \<or> (97 \<le> c \<and> c \<le> 122) \<or> (48 \<le> c \<and> c \<le> 57) \<or> c = 95 \<or> c = 45"

definition history_id_ok :: "str \<Rightarrow> bool" where
  "history_id_ok s \<longleftrightarrow>
     take 8 s = lit ''session_'' \<and> 9 \<le> length s \<and> length s \<le> 128 \<and> list_all history_id_char (drop 8 s)"

definition validate_history_session_id :: "str \<Rightarrow> unit res" where
  "validate_history_session_id s =
     guardR (history_id_ok s) (ValueError (lit ''session_id must be a valid opaque session ID''))"

record BoundedText =
  bt_text :: str
  bt_truncated :: bool
  bt_original_length :: int
  bt_limit :: int

definition mk_BoundedText :: "str \<Rightarrow> bool \<Rightarrow> int \<Rightarrow> int \<Rightarrow> BoundedText res" where
  "mk_BoundedText s truncated original_length limit =
     bindR (guardR (0 \<le> original_length) (ValueError (lit ''original_length must be a non-negative integer''))) (\<lambda>_.
     bindR (guardR (1 \<le> limit) (ValueError (lit ''limit must be a positive integer''))) (\<lambda>_.
     bindR (utf8_encode s) (\<lambda>encoded.
     bindR (guardR (int (length encoded) \<le> limit) (ValueError (lit ''text exceeds its bound''))) (\<lambda>_.
     bindR (guardR (truncated \<or> original_length = int (length encoded))
              (ValueError (lit ''untruncated text length does not match text''))) (\<lambda>_.
     bindR (guardR (\<not> truncated \<or> limit < original_length)
              (ValueError (lit ''truncated text must exceed its bound''))) (\<lambda>_.
     Inr \<lparr>bt_text = s, bt_truncated = truncated, bt_original_length = original_length, bt_limit = limit\<rparr>))))))"

definition BoundedText_to_dict :: "BoundedText \<Rightarrow> jobj" where
  "BoundedText_to_dict b =
     [(lit ''text'', JStr (bt_text b)), (lit ''truncated'', JBool (bt_truncated b)),
      (lit ''original_length'', JInt (bt_original_length b)), (lit ''limit'', JInt (bt_limit b)),
      (lit ''encoding'', JStr (lit ''utf-8''))]"

record HistoryDiagnostic =
  hd_code :: str
  hd_message :: str

definition mk_HistoryDiagnostic :: "str \<Rightarrow> str \<Rightarrow> HistoryDiagnostic res" where
  "mk_HistoryDiagnostic code message =
     bindR (guardR (code \<noteq> [] \<and> length code \<le> 64)
              (ValueError (lit ''diagnostic code must be a short non-empty string''))) (\<lambda>_.
     bindR (guardR (message \<noteq> [] \<and> length message \<le> 256)
              (ValueError (lit ''diagnostic message must be a short non-empty string''))) (\<lambda>_.
     bindR (guardR (list_all (\<lambda>c. 32 \<le> c) (code @ message))
              (ValueError (lit ''diagnostic values must not contain control characters''))) (\<lambda>_.
     Inr \<lparr>hd_code = code, hd_message = message\<rparr>)))"

definition HistoryDiagnostic_to_dict :: "HistoryDiagnostic \<Rightarrow> jobj" where
  "HistoryDiagnostic_to_dict d = [(lit ''code'', JStr (hd_code d)), (lit ''message'', JStr (hd_message d))]"

text \<open>\<open>_diagnostic_tuple\<close> of a sequence of diagnostics.\<close>

definition diagnostic_tuple :: "HistoryDiagnostic list \<Rightarrow> HistoryDiagnostic list res" where
  "diagnostic_tuple ds =
     bindR (guardR (length ds \<le> 8) (ValueError (lit ''history diagnostics are limited to 8 items''))) (\<lambda>_. Inr ds)"

record SessionHistoryItem =
  hi_session_id :: str
  hi_first_user_message :: "BoundedText option"
  hi_created_at :: "str option"
  hi_updated_at :: "str option"
  hi_last_sequence :: int
  hi_last_state :: "str option"
  hi_resumable :: bool
  hi_diagnostics :: "HistoryDiagnostic list"

text \<open>\<open>SessionHistoryItem.__post_init__\<close> on values of the right classes.\<close>

definition SessionHistoryItem_post_init :: "SessionHistoryItem \<Rightarrow> SessionHistoryItem res" where
  "SessionHistoryItem_post_init x =
     bindR (validate_history_session_id (hi_session_id x)) (\<lambda>_.
     bindR (guardR (0 \<le> hi_last_sequence x) (ValueError (lit ''last_sequence must be non-negative''))) (\<lambda>_.
     bindR (diagnostic_tuple (hi_diagnostics x)) (\<lambda>ds. Inr (x\<lparr>hi_diagnostics := ds\<rparr>))))"

definition SessionHistoryItem_to_dict :: "SessionHistoryItem \<Rightarrow> jobj" where
  "SessionHistoryItem_to_dict x =
     [(lit ''session_id'', JStr (hi_session_id x)),
      (lit ''first_user_message'',
         case hi_first_user_message x of None \<Rightarrow> JNull | Some b \<Rightarrow> JObj (BoundedText_to_dict b)),
      (lit ''created_at'', json_opt_str (hi_created_at x)), (lit ''updated_at'', json_opt_str (hi_updated_at x)),
      (lit ''last_sequence'', JInt (hi_last_sequence x)), (lit ''last_state'', json_opt_str (hi_last_state x)),
      (lit ''resumable'', JBool (hi_resumable x)),
      (lit ''diagnostics'', JArr (map (JObj \<circ> HistoryDiagnostic_to_dict) (hi_diagnostics x)))]"

text \<open>A list cursor: a short ASCII token.\<close>

definition cursor_token_ok :: "str \<Rightarrow> bool" where
  "cursor_token_ok s \<longleftrightarrow> s \<noteq> [] \<and> length s \<le> 256 \<and> list_all (\<lambda>c. c < 128) s"

record SessionHistoryPage =
  hp_sessions :: "SessionHistoryItem list"
  hp_next_cursor :: "str option"

definition mk_SessionHistoryPage :: "SessionHistoryItem list \<Rightarrow> str option \<Rightarrow> SessionHistoryPage res" where
  "mk_SessionHistoryPage items next_cursor =
     bindR (guardR (length items \<le> 100) (ValueError (lit ''sessions are limited to 100 items''))) (\<lambda>_.
     bindR (guardR (case next_cursor of None \<Rightarrow> True | Some s \<Rightarrow> cursor_token_ok s)
              (ValueError (lit ''next_cursor must be a non-empty ASCII token''))) (\<lambda>_.
     Inr \<lparr>hp_sessions = items, hp_next_cursor = next_cursor\<rparr>))"

definition SessionHistoryPage_to_dict :: "SessionHistoryPage \<Rightarrow> jobj" where
  "SessionHistoryPage_to_dict p =
     [(lit ''sessions'', JArr (map (JObj \<circ> SessionHistoryItem_to_dict) (hp_sessions p))),
      (lit ''next_cursor'', json_opt_str (hp_next_cursor p))]"

record SessionEventPage =
  ep_session_id :: str
  ep_events :: "EventEnvelope list"
  ep_next_cursor :: "int option"
  ep_has_more :: bool
  ep_diagnostics :: "HistoryDiagnostic list"

definition mk_SessionEventPage ::
  "str \<Rightarrow> EventEnvelope list \<Rightarrow> int option \<Rightarrow> bool \<Rightarrow> HistoryDiagnostic list \<Rightarrow> SessionEventPage res" where
  "mk_SessionEventPage session_id events next_cursor has_more diagnostics =
     bindR (validate_history_session_id session_id) (\<lambda>_.
     bindR (guardR (length events \<le> 200) (ValueError (lit ''events are limited to 200 items''))) (\<lambda>_.
     bindR (guardR (case next_cursor of None \<Rightarrow> True | Some n \<Rightarrow> 0 \<le> n)
              (ValueError (lit ''next_cursor must be a non-negative integer or None''))) (\<lambda>_.
     bindR (guardR (\<not> (has_more \<and> next_cursor = None))
              (ValueError (lit ''has_more pages require a next_cursor''))) (\<lambda>_.
     bindR (guardR (\<not> (\<not> has_more \<and> next_cursor \<noteq> None))
              (ValueError (lit ''pages without more events must have no next_cursor''))) (\<lambda>_.
     bindR (diagnostic_tuple diagnostics) (\<lambda>ds.
     Inr \<lparr>ep_session_id = session_id, ep_events = events, ep_next_cursor = next_cursor, ep_has_more = has_more,
          ep_diagnostics = ds\<rparr>))))))"

definition SessionEventPage_to_dict :: "SessionEventPage \<Rightarrow> jobj" where
  "SessionEventPage_to_dict p =
     [(lit ''session_id'', JStr (ep_session_id p)),
      (lit ''events'', JArr (map (JObj \<circ> EventEnvelope_to_dict) (ep_events p))),
      (lit ''next_cursor'', case ep_next_cursor p of None \<Rightarrow> JNull | Some n \<Rightarrow> JInt n),
      (lit ''has_more'', JBool (ep_has_more p)),
      (lit ''diagnostics'', JArr (map (JObj \<circ> HistoryDiagnostic_to_dict) (ep_diagnostics p)))]"

section \<open>Properties\<close>

text \<open>C31: Commands survive their JSON form.  Decoding the form of a constructed command gives it back;
  a value that decodes gives a command its constructor admits, of which the value holds no field
  but the command's own, with its value; everything else is a \<open>CommandDecodeError\<close>.\<close>

theorem command_roundtrip:
  "(command_ok c \<longrightarrow> decode_command (JObj (command_to_dict c)) = Inr c) \<and>
   (case decode_command v of
      Inr c' \<Rightarrow> command_ok c' \<and> (\<exists>d. v = JObj d \<and> (\<forall>k w. dget d k = Some w \<longrightarrow> dget (command_to_dict c') k = Some w))
    | Inl e \<Rightarrow> exn_class e = lit ''CommandDecodeError'')"
proof (cases "decode_command v")
  case (Inl e)
  then show ?thesis using decode_own decode_command_Inl [OF Inl] by simp
next
  case (Inr c')
  obtain d t where d: "v = JObj d" "command_type d = Inr t" "build_command d t = Inr c'"
    using decode_command_Inr [OF Inr] by blast
  then show ?thesis
    using decode_own build_command_ok [OF d(3)] build_command_exact [OF d(2,3)] d(1) Inr by (simp only: sum.case) blast
qed

theorem command_roundtrip_witness:
  "decode_command (JObj (command_to_dict (Interrupt (lit ''stop'')))) = Inr (Interrupt (lit ''stop''))"
  using command_roundtrip [of "Interrupt (lit ''stop'')"]
  by (simp add: strip_def is_space_def lit_def)

end
