(* ===== verification/Service.thy ===== *)
theory Service
  imports Stream Backend AgentLoop Dumps
begin

text \<open>
  The backend service (\<open>backend_service.py\<close>): the approval channel between the frontend and the
  worker, the approval port that waits on it, and \<open>AgentBackendService\<close> with its one worker.
  Every part under a lock is one atomic operation, and \<open>service_step\<close> interleaves them.
\<close>

section \<open>The approval channel\<close>

record ApprovalChannel =
  ch_pending :: "str option"
  ch_response :: "(str \<times> bool) option"
  ch_closed :: bool
  ch_interrupt :: "str option"
  ch_mismatch :: bool

definition ApprovalChannel_init :: ApprovalChannel where
  "ApprovalChannel_init =
     \<lparr>ch_pending = None, ch_response = None, ch_closed = False, ch_interrupt = None, ch_mismatch = False\<rparr>"

definition channel_begin :: "str \<Rightarrow> ApprovalChannel \<Rightarrow> ApprovalChannel" where
  "channel_begin i c = c\<lparr>ch_pending := Some i, ch_response := None, ch_mismatch := False\<rparr>"

definition channel_respond :: "str \<Rightarrow> bool \<Rightarrow> ApprovalChannel \<Rightarrow> ApprovalChannel" where
  "channel_respond i b c =
     (case ch_pending c of
        None \<Rightarrow> c
      | Some p \<Rightarrow> if i \<noteq> p then c\<lparr>ch_mismatch := True\<rparr> else c\<lparr>ch_response := Some (i, b)\<rparr>)"

definition channel_interrupt :: "str \<Rightarrow> ApprovalChannel \<Rightarrow> ApprovalChannel" where
  "channel_interrupt reason c = c\<lparr>ch_interrupt := Some reason\<rparr>"

definition channel_close :: "ApprovalChannel \<Rightarrow> ApprovalChannel" where
  "channel_close c = c\<lparr>ch_closed := True\<rparr>"

text \<open>One round of the loop of \<open>wait\<close>, with the time that remains; None goes on waiting.\<close>

definition channel_verdict :: "rat \<Rightarrow> ApprovalChannel \<Rightarrow> bool option" where
  "channel_verdict remaining c =
     (if ch_closed c \<or> ch_interrupt c \<noteq> None \<or> ch_mismatch c then Some False
      else
        (case ch_response c of
           Some (i, b) \<Rightarrow> Some (if Some i \<noteq> ch_pending c then False else b)
         | None \<Rightarrow> if remaining \<le> 0 then Some False else None))"

definition channel_reset :: "ApprovalChannel \<Rightarrow> ApprovalChannel" where
  "channel_reset c = c\<lparr>ch_pending := None, ch_response := None, ch_mismatch := False\<rparr>"

text \<open>What happens to a channel while the worker waits: a look with the time that remains, or an
  operation of another thread.\<close>

datatype channel_event = Looked rat | Responded str bool | Interrupted str | Closed

fun channel_act :: "channel_event \<Rightarrow> ApprovalChannel \<Rightarrow> ApprovalChannel \<times> bool option" where
  "channel_act (Looked t) c =
     (case channel_verdict t c of None \<Rightarrow> (c, None) | Some v \<Rightarrow> (channel_reset c, Some v))"
| "channel_act (Responded i b) c = (channel_respond i b c, None)"
| "channel_act (Interrupted r) c = (channel_interrupt r c, None)"
| "channel_act Closed c = (channel_close c, None)"

text \<open>\<open>wait\<close> against such a history: the answer, or None while it still waits.\<close>

fun channel_wait :: "channel_event list \<Rightarrow> ApprovalChannel \<Rightarrow> ApprovalChannel \<times> bool option" where
  "channel_wait [] c = (c, None)"
| "channel_wait (a # as) c =
     (case channel_act a c of (c', Some v) \<Rightarrow> (c', Some v) | (c', None) \<Rightarrow> channel_wait as c')"

section \<open>The approval port\<close>

definition approval_summary_limit :: nat where
  "approval_summary_limit = 300"

definition ellipsis :: str where
  "ellipsis = [8230]"

definition shorten :: "str \<Rightarrow> str" where
  "shorten s =
     (if approval_summary_limit < length s then take (approval_summary_limit - 3) s @ ellipsis else s)"

text \<open>\<open>_arguments_summary\<close>.\<close>

definition arguments_summary :: "platform \<Rightarrow> str \<Rightarrow> jobj \<Rightarrow> str" where
  "arguments_summary pl tool arguments =
     (let safe = safe_json pl 0 (OMap (payload_of arguments));
          command = (case safe of JObj d \<Rightarrow> dget d (lit ''command'') | _ \<Rightarrow> None) in
      case (tool = lit ''bash'', command) of
        (True, Some (JStr s)) \<Rightarrow> dumps_plain (pl_frepr pl) (JStr (shorten s))
      | _ \<Rightarrow> shorten (dumps_plain (pl_frepr pl) safe))"

definition approval_payload :: "platform \<Rightarrow> str \<Rightarrow> str \<Rightarrow> jobj \<Rightarrow> rat \<Rightarrow> jobj" where
  "approval_payload pl request_id tool arguments timeout =
     [(lit ''request_id'', JStr request_id), (lit ''tool_name'', JStr tool),
      (lit ''arguments_summary'', JStr (arguments_summary pl tool arguments)),
      (lit ''timeout_seconds'', JFloat (Finite timeout))]"

text \<open>\<open>ChannelApprovalPort.request_approval\<close>: the request is on the channel before its event is
  published; \<open>report\<close> is the emitter's answer, and a history is what happens afterwards.\<close>

definition ask_frontend ::
  "str \<Rightarrow> EmissionReport \<Rightarrow> channel_event list \<Rightarrow> ApprovalChannel \<Rightarrow> ApprovalChannel \<times> bool option" where
  "ask_frontend request_id report history c =
     (let c' = channel_begin request_id c in
      if er_event report = None then (c', Some False) else channel_wait history c')"

section \<open>The service\<close>

datatype worker_state = Waiting | Working str | Closing str | Exited

record AgentBackendService =
  sv_queue :: "AgentCommand list"
  sv_turn_in_progress :: bool
  sv_stopped :: bool
  sv_close_called :: bool
  sv_store_closed :: bool
  sv_worker :: worker_state
  sv_channel :: ApprovalChannel
  sv_signal :: CancellationSignal
  sv_policy :: DefaultExecutionPolicy
  sv_stream :: EventStreamBuffer

definition AgentBackendService_init :: "DefaultExecutionPolicy \<Rightarrow> CancellationSignal \<Rightarrow> EventStreamBuffer \<Rightarrow> AgentBackendService" where
  "AgentBackendService_init policy sig b =
     \<lparr>sv_queue = [], sv_turn_in_progress = False, sv_stopped = False, sv_close_called = False, sv_store_closed = False,
      sv_worker = Waiting, sv_channel = ApprovalChannel_init, sv_signal = sig, sv_policy = policy, sv_stream = b\<rparr>"

text \<open>The checks of the constructor.\<close>

definition mk_AgentBackendService ::
  "rat \<Rightarrow> rat \<Rightarrow> int \<Rightarrow> DefaultExecutionPolicy \<Rightarrow> CancellationSignal \<Rightarrow> EventStreamBuffer \<Rightarrow> AgentBackendService res" where
  "mk_AgentBackendService shutdown_timeout poll_timeout last_sequence policy sig b =
     bindR (guardR (0 < shutdown_timeout)
              (ValueError (lit ''worker_shutdown_timeout_seconds must be a positive number''))) (\<lambda>_.
     bindR (guardR (0 < poll_timeout) (ValueError (lit ''event_poll_timeout_seconds must be a positive number''))) (\<lambda>_.
     bindR (guardR (0 \<le> last_sequence) (ValueError (lit ''resume_last_sequence must be a non-negative integer''))) (\<lambda>_.
     Inr (AgentBackendService_init policy sig b))))"

text \<open>\<open>_request_stop_locked\<close>; an empty reason, which the signal refuses, is ignored.\<close>

definition request_stop :: "str \<Rightarrow> AgentBackendService \<Rightarrow> AgentBackendService" where
  "request_stop reason s =
     s\<lparr>sv_stopped := True, sv_channel := channel_close (sv_channel s),
       sv_signal := (if sv_turn_in_progress s
                     then (case cancel (sv_signal s) reason of Inr (sig, _) \<Rightarrow> sig | Inl _ \<Rightarrow> sv_signal s)
                     else sv_signal s),
       sv_queue := sv_queue s @ [CloseSession reason]\<rparr>"

definition BackendClosedError :: exn where
  "BackendClosedError = OtherError (lit ''BackendClosedError'') (lit ''backend session is closed'')"

definition TurnInProgressError :: exn where
  "TurnInProgressError =
     OtherError (lit ''TurnInProgressError'') (lit ''SubmitTask is refused while a turn is running'')"

text \<open>\<open>AgentBackendService.send\<close>.\<close>

definition send :: "AgentCommand \<Rightarrow> AgentBackendService \<Rightarrow> AgentBackendService \<times> unit res" where
  "send command s =
     (if sv_stopped s then (s, Inl BackendClosedError)
      else
        (case command of
           ApprovalResponse i b \<Rightarrow> (s\<lparr>sv_channel := channel_respond i b (sv_channel s)\<rparr>, Inr ())
         | SetApprovalMode m \<Rightarrow>
             (case set_approval_mode (JStr m) (sv_policy s) of
                Inl e \<Rightarrow> (s, Inl e)
              | Inr p \<Rightarrow> (s\<lparr>sv_policy := p\<rparr>, Inr ()))
         | Interrupt r \<Rightarrow>
             (let s' = s\<lparr>sv_channel := channel_interrupt r (sv_channel s)\<rparr> in
              case cancel (sv_signal s) r of
                Inl e \<Rightarrow> (s', Inl e)
              | Inr (sig, _) \<Rightarrow> (s'\<lparr>sv_signal := sig\<rparr>, Inr ()))
         | CloseSession r \<Rightarrow> (request_stop r s, Inr ())
         | SubmitTask t \<Rightarrow>
             if sv_turn_in_progress s then (s, Inl TurnInProgressError)
             else (s\<lparr>sv_turn_in_progress := True, sv_queue := sv_queue s @ [SubmitTask t]\<rparr>, Inr ())))"

text \<open>One round of \<open>_run_worker\<close>: the head of the queue.  The turn and the closing of the session run in
  the loop; what they raise is ignored.\<close>

definition worker_take :: "AgentBackendService \<Rightarrow> AgentBackendService" where
  "worker_take s =
     (case sv_queue s of
        [] \<Rightarrow> s
      | command # rest \<Rightarrow>
          (case command of
             CloseSession r \<Rightarrow> s\<lparr>sv_queue := rest, sv_worker := Closing r\<rparr>
           | SubmitTask t \<Rightarrow> s\<lparr>sv_queue := rest, sv_worker := Working t\<rparr>
           | _ \<Rightarrow> s\<lparr>sv_queue := rest\<rparr>))"

definition turn_done :: "AgentBackendService \<Rightarrow> AgentBackendService" where
  "turn_done s = s\<lparr>sv_turn_in_progress := False, sv_worker := Waiting\<rparr>"

definition worker_exit :: "AgentBackendService \<Rightarrow> AgentBackendService" where
  "worker_exit s = s\<lparr>sv_worker := Exited, sv_stream := stream_close (sv_stream s)\<rparr>"

text \<open>The worker's next atomic part.\<close>

definition worker_next :: "AgentBackendService \<Rightarrow> AgentBackendService" where
  "worker_next s =
     (case sv_worker s of
        Waiting \<Rightarrow> worker_take s | Working t \<Rightarrow> turn_done s | Closing r \<Rightarrow> worker_exit s | Exited \<Rightarrow> s)"

fun in_loop :: "worker_state \<Rightarrow> bool" where
  "in_loop (Working t) = True"
| "in_loop (Closing r) = True"
| "in_loop _ = False"

text \<open>\<open>close\<close>: the part under the lock, and what follows the bounded wait for the worker.\<close>

definition close_enter :: "AgentBackendService \<Rightarrow> AgentBackendService" where
  "close_enter s =
     (let s' = s\<lparr>sv_close_called := True\<rparr> in
      if sv_stopped s then s' else request_stop (lit ''session_closed'') s')"

definition close_leave :: "bool \<Rightarrow> AgentBackendService \<Rightarrow> AgentBackendService" where
  "close_leave already s =
     (if already \<and> sv_worker s = Exited then s\<lparr>sv_stream := stream_close (sv_stream s)\<rparr>
      else s\<lparr>sv_store_closed := True, sv_stream := stream_close (sv_stream s)\<rparr>)"

text \<open>\<open>events\<close>.\<close>

definition service_events :: "int \<Rightarrow> rat \<Rightarrow> stream_reader res" where
  "service_events since poll_timeout =
     bindR (guardR (0 \<le> since) (ValueError (lit ''since must be a non-negative integer''))) (\<lambda>_.
     iter_since since poll_timeout)"

fun task_of :: "AgentCommand \<Rightarrow> str list" where
  "task_of (SubmitTask t) = [t]"
| "task_of _ = []"

text \<open>The service with the tasks it has accepted and the tasks whose turn has begun, both in order.
  The worker's time in the loop publishes events; a turn's asks and waits on the channel.\<close>

inductive service_step ::
  "AgentBackendService \<times> str list \<times> str list \<Rightarrow> AgentBackendService \<times> str list \<times> str list \<Rightarrow> bool" where
  sending: "send command s = (s', r) \<Longrightarrow>
     service_step (s, accepted, started) (s', accepted @ (if is_ok r then task_of command else []), started)"
| taking: "sv_worker s = Waiting \<Longrightarrow> sv_queue s = command # rest \<Longrightarrow>
     service_step (s, accepted, started) (worker_next s, accepted, started @ task_of command)"
| ending: "in_loop (sv_worker s) \<Longrightarrow> service_step (s, accepted, started) (worker_next s, accepted, started)"
| publishing: "in_loop (sv_worker s) \<Longrightarrow>
     service_step (s, accepted, started) (s\<lparr>sv_stream := stream_publish e (sv_stream s)\<rparr>, accepted, started)"
| asking: "sv_worker s = Working t \<Longrightarrow>
     service_step (s, accepted, started) (s\<lparr>sv_channel := channel_begin i (sv_channel s)\<rparr>, accepted, started)"
| answering: "sv_worker s = Working t \<Longrightarrow> channel_verdict remaining (sv_channel s) = Some v \<Longrightarrow>
     service_step (s, accepted, started) (s\<lparr>sv_channel := channel_reset (sv_channel s)\<rparr>, accepted, started)"
| entering: "service_step (s, accepted, started) (close_enter s, accepted, started)"
| leaving: "sv_close_called s \<Longrightarrow> service_step (s, accepted, started) (close_leave already s, accepted, started)"

inductive_cases service_stepE: "service_step (s, accepted, started) (s', accepted', started')"

end
