(* ===== verification/ServiceProps.thy ===== *)
theory ServiceProps
  imports Service
begin

text \<open>
  What the backend service promises: an approval needs the frontend's own consent to the very
  request, one task runs at a time and none that was accepted is lost, and a stopped service
  comes to its end.
\<close>

section \<open>Approvals\<close>

text \<open>The other threads' part of a history.\<close>

fun channel_apply :: "channel_event \<Rightarrow> ApprovalChannel \<Rightarrow> ApprovalChannel" where
  "channel_apply (Looked t) c = c"
| "channel_apply (Responded i b) c = channel_respond i b c"
| "channel_apply (Interrupted r) c = channel_interrupt r c"
| "channel_apply Closed c = channel_close c"

text \<open>An answer comes from the first look that finds a verdict.\<close>

lemma channel_wait_verdict:
  "snd (channel_wait h c) = Some v \<Longrightarrow>
   \<exists>before t after. h = before @ Looked t # after \<and> channel_verdict t (fold channel_apply before c) = Some v"
proof (induction h arbitrary: c)
  case (Cons a h)
  show ?case
  proof (cases "\<exists>t v. a = Looked t \<and> channel_verdict t c = Some v")
    case True
    then have "a # h = [] @ a # h \<and> (\<exists>t. a = Looked t \<and> channel_verdict t (fold channel_apply [] c) = Some v)"
      using Cons.prems by auto
    then show ?thesis by blast
  next
    case False
    then have "channel_act a c = (channel_apply a c, None)" by (cases a) (auto split: option.splits)
    then obtain before t after where "h = before @ Looked t # after"
      "channel_verdict t (fold channel_apply before (channel_apply a c)) = Some v"
      using Cons.IH [of "channel_apply a c"] Cons.prems by auto
    then have "a # h = (a # before) @ Looked t # after \<and> channel_verdict t (fold channel_apply (a # before) c) = Some v"
      by simp
    then show ?thesis by blast
  qed
qed simp

fun response_of :: "channel_event \<Rightarrow> bool list" where
  "response_of (Responded i b) = [b]"
| "response_of _ = []"

definition undisturbed :: "str \<Rightarrow> channel_event \<Rightarrow> bool" where
  "undisturbed i a \<longleftrightarrow> (case a of Looked _ \<Rightarrow> True | Responded j _ \<Rightarrow> j = i | Interrupted _ \<Rightarrow> False | Closed \<Rightarrow> False)"

definition granting :: "str \<Rightarrow> ApprovalChannel \<Rightarrow> bool" where
  "granting i c \<longleftrightarrow> \<not> ch_closed c \<and> ch_interrupt c = None \<and> \<not> ch_mismatch c \<and> ch_pending c = Some i"

lemma granting_apply:
  assumes "ch_pending c = Some i"
  shows "granting i (channel_apply a c) \<longleftrightarrow> granting i c \<and> undisturbed i a"
    and "ch_pending (channel_apply a c) = Some i"
    and "undisturbed i a \<Longrightarrow> ch_response (channel_apply a c) =
          (if response_of a = [] then ch_response c else Some (i, last (response_of a)))"
  using assms
  by (cases a; auto simp: granting_def undisturbed_def channel_respond_def channel_interrupt_def channel_close_def)+

lemma granting_fold:
  "ch_pending c = Some i \<Longrightarrow>
     (granting i (fold channel_apply h c) \<longleftrightarrow> granting i c \<and> list_all (undisturbed i) h) \<and>
     ch_pending (fold channel_apply h c) = Some i \<and>
     (list_all (undisturbed i) h \<longrightarrow> ch_response (fold channel_apply h c) =
        (if concat (map response_of h) = [] then ch_response c else Some (i, last (concat (map response_of h)))))"
proof (induction h arbitrary: c)
  case (Cons a h)
  show ?case
    using Cons.IH [OF granting_apply(2) [OF Cons.prems]] granting_apply [OF Cons.prems, of a] by auto
qed simp

lemma channel_verdict_True:
  "channel_verdict t c = Some True \<longleftrightarrow>
     \<not> ch_closed c \<and> ch_interrupt c = None \<and> \<not> ch_mismatch c \<and> (\<exists>i. ch_response c = Some (i, True) \<and> ch_pending c = Some i)"
  by (auto simp: channel_verdict_def split: option.splits)

text \<open>C23: The approval port fails closed.  It answers yes only when the request was published, the
  channel was neither closed nor interrupted, and, before the look that answered, nothing else
  had happened than responses to this very request, the last of which approved it.  A look with
  no time left always answers.\<close>

theorem approval_fails_closed:
  assumes "snd (ask_frontend request_id report history c) = Some True"
  shows "er_event report \<noteq> None \<and> \<not> ch_closed c \<and> ch_interrupt c = None \<and>
    (\<exists>before t after. history = before @ Looked t # after \<and> list_all (undisturbed request_id) before \<and>
       concat (map response_of before) \<noteq> [] \<and> last (concat (map response_of before))) \<and>
    (\<forall>d t. t \<le> 0 \<longrightarrow> snd (channel_wait [Looked t] d) \<noteq> None)"
proof -
  let ?c = "channel_begin request_id c"
  have w: "er_event report \<noteq> None" "snd (channel_wait history ?c) = Some True"
    using assms by (auto simp: ask_frontend_def Let_def split: if_splits)
  obtain before t after where h: "history = before @ Looked t # after"
    "channel_verdict t (fold channel_apply before ?c) = Some True"
    using channel_wait_verdict [OF w(2)] by blast
  have pending: "ch_pending ?c = Some request_id" by (simp add: channel_begin_def)
  note after = granting_fold [OF pending, of before]
  have g: "granting request_id (fold channel_apply before ?c)"
    "ch_response (fold channel_apply before ?c) = Some (request_id, True)"
    using h(2) after by (auto simp: channel_verdict_True granting_def)
  then have "\<not> ch_closed c" "ch_interrupt c = None" "list_all (undisturbed request_id) before"
    "concat (map response_of before) \<noteq> [] \<and> last (concat (map response_of before))"
    using after by (auto simp: granting_def channel_begin_def split: if_splits)
  moreover have "snd (channel_wait [Looked t] d) \<noteq> None" if "t \<le> 0" for d t
    using that by (auto simp: channel_verdict_def split: option.splits)
  ultimately show ?thesis using w(1) h(1) by blast
qed

section \<open>The service's invariant\<close>

definition service_inv :: "AgentBackendService \<Rightarrow> str list \<Rightarrow> str list \<Rightarrow> bool" where
  "service_inv s accepted started \<longleftrightarrow>
     (\<exists>tasks stops. sv_queue s = map SubmitTask tasks @ map CloseSession stops \<and>
        accepted = started @ tasks \<and>
        length tasks + (if \<exists>t. sv_worker s = Working t then 1 else 0) \<le> 1 \<and>
        (sv_turn_in_progress s \<longleftrightarrow> tasks \<noteq> [] \<or> (\<exists>t. sv_worker s = Working t)) \<and>
        length stops + (if (\<exists>r. sv_worker s = Closing r) \<or> sv_worker s = Exited then 1 else 0) =
          (if sv_stopped s then 1 else 0) \<and>
        ((\<exists>r. sv_worker s = Closing r) \<or> sv_worker s = Exited \<longrightarrow> tasks = [])) \<and>
     (sv_stopped s \<longrightarrow> ch_closed (sv_channel s)) \<and>
     (sv_worker s = Exited \<longrightarrow> eb_closed (sv_stream s))"

lemma service_inv_init: "service_inv (AgentBackendService_init policy sig b) [] []"
  unfolding service_inv_def AgentBackendService_init_def by (intro conjI exI [of _ "[]"]) auto

text \<open>Only the queue, the worker and the three flags matter to the invariant's first part.\<close>

lemma service_inv_frame:
  assumes "service_inv s accepted started"
    and "sv_queue s' = sv_queue s" "sv_worker s' = sv_worker s" "sv_turn_in_progress s' = sv_turn_in_progress s"
    and "sv_stopped s' = sv_stopped s" "ch_closed (sv_channel s) \<longrightarrow> ch_closed (sv_channel s')"
    and "eb_closed (sv_stream s) \<longrightarrow> eb_closed (sv_stream s')"
  shows "service_inv s' accepted started"
  using assms unfolding service_inv_def by auto

lemma request_stop_inv:
  assumes "service_inv s accepted started" "\<not> sv_stopped s"
  shows "service_inv (request_stop r s) accepted started"
proof -
  obtain tasks stops where t: "sv_queue s = map SubmitTask tasks @ map CloseSession stops" "accepted = started @ tasks"
    "length tasks + (if \<exists>t. sv_worker s = Working t then 1 else 0) \<le> 1"
    "sv_turn_in_progress s \<longleftrightarrow> tasks \<noteq> [] \<or> (\<exists>t. sv_worker s = Working t)"
    "stops = [] \<and> \<not> (\<exists>r. sv_worker s = Closing r) \<and> sv_worker s \<noteq> Exited"
    using assms by (auto simp: service_inv_def split: if_splits)
  then show ?thesis
    unfolding service_inv_def
    by (intro conjI exI [of _ tasks] exI [of _ "[r]"]) (auto simp: request_stop_def channel_close_def)
qed

lemma send_inv:
  assumes "service_inv s accepted started" "send command s = (s', r)"
  shows "service_inv s' (accepted @ (if is_ok r then task_of command else [])) started"
proof (cases command)
  case (SubmitTask t)
  show ?thesis
  proof (cases "sv_stopped s \<or> sv_turn_in_progress s")
    case True
    then show ?thesis using assms SubmitTask by (auto simp: send_def split: if_splits)
  next
    case False
    obtain tasks stops where t: "sv_queue s = map SubmitTask tasks @ map CloseSession stops" "accepted = started @ tasks"
      "tasks = []" "stops = []" "\<forall>t. sv_worker s \<noteq> Working t" "\<forall>r. sv_worker s \<noteq> Closing r" "sv_worker s \<noteq> Exited"
      using assms(1) False by (auto simp: service_inv_def split: if_splits)
    show ?thesis
      using assms False t SubmitTask unfolding service_inv_def
      by (intro conjI exI [of _ "[t]"] exI [of _ "[]"]) (auto simp: send_def)
  qed
next
  case (ApprovalResponse i b)
  then show ?thesis
    using assms by (auto simp: send_def channel_respond_def split: if_splits option.splits elim: service_inv_frame)
next
  case (SetApprovalMode m)
  then show ?thesis
    using assms by (auto simp: send_def split: if_splits sum.splits elim: service_inv_frame)
next
  case (Interrupt m)
  then show ?thesis
    using assms by (auto simp: send_def Let_def channel_interrupt_def split: if_splits sum.splits elim: service_inv_frame)
next
  case (CloseSession m)
  then show ?thesis using assms request_stop_inv by (auto simp: send_def split: if_splits)
qed

lemma service_invI:
  assumes "sv_queue s = map SubmitTask tasks @ map CloseSession stops" "accepted = started @ tasks"
    and "length tasks + (if \<exists>t. sv_worker s = Working t then 1 else 0) \<le> 1"
    and "sv_turn_in_progress s \<longleftrightarrow> tasks \<noteq> [] \<or> (\<exists>t. sv_worker s = Working t)"
    and "length stops + (if (\<exists>r. sv_worker s = Closing r) \<or> sv_worker s = Exited then 1 else 0) =
       (if sv_stopped s then 1 else 0)"
    and "(\<exists>r. sv_worker s = Closing r) \<or> sv_worker s = Exited \<longrightarrow> tasks = []"
    and "sv_stopped s \<longrightarrow> ch_closed (sv_channel s)" "sv_worker s = Exited \<longrightarrow> eb_closed (sv_stream s)"
  shows "service_inv s accepted started"
  unfolding service_inv_def using assms by blast

lemma service_invE:
  assumes "service_inv s accepted started"
  obtains tasks stops where "sv_queue s = map SubmitTask tasks @ map CloseSession stops" "accepted = started @ tasks"
    "length tasks + (if \<exists>t. sv_worker s = Working t then 1 else 0) \<le> 1"
    "sv_turn_in_progress s \<longleftrightarrow> tasks \<noteq> [] \<or> (\<exists>t. sv_worker s = Working t)"
    "length stops + (if (\<exists>r. sv_worker s = Closing r) \<or> sv_worker s = Exited then 1 else 0) =
       (if sv_stopped s then 1 else 0)"
    "(\<exists>r. sv_worker s = Closing r) \<or> sv_worker s = Exited \<longrightarrow> tasks = []"
    "sv_stopped s \<longrightarrow> ch_closed (sv_channel s)" "sv_worker s = Exited \<longrightarrow> eb_closed (sv_stream s)"
  using assms unfolding service_inv_def by blast

lemma worker_next_loop:
  assumes inv: "service_inv s accepted started" and loop: "in_loop (sv_worker s)"
  shows "service_inv (worker_next s) accepted started"
  using inv
proof (rule service_invE)
  fix tasks stops
  assume t: "sv_queue s = map SubmitTask tasks @ map CloseSession stops" "accepted = started @ tasks"
    "length tasks + (if \<exists>t. sv_worker s = Working t then 1 else 0) \<le> 1"
    "sv_turn_in_progress s \<longleftrightarrow> tasks \<noteq> [] \<or> (\<exists>t. sv_worker s = Working t)"
    "length stops + (if (\<exists>r. sv_worker s = Closing r) \<or> sv_worker s = Exited then 1 else 0) =
       (if sv_stopped s then 1 else 0)"
    "(\<exists>r. sv_worker s = Closing r) \<or> sv_worker s = Exited \<longrightarrow> tasks = []"
    "sv_stopped s \<longrightarrow> ch_closed (sv_channel s)"
  show ?thesis
  proof (cases "sv_worker s")
    case (Working t0)
    then show ?thesis
      using t by (intro service_invI [of _ "[]" stops]) (simp_all add: worker_next_def turn_done_def)
  next
    case (Closing r)
    then show ?thesis
      using t by (intro service_invI [of _ "[]" "[]"]) (simp_all add: worker_next_def worker_exit_def stream_close_def split: if_splits)
  qed (use loop in simp_all)
qed

lemma worker_next_take:
  assumes inv: "service_inv s accepted started" and w: "sv_worker s = Waiting" "sv_queue s = command # rest"
  shows "service_inv (worker_next s) accepted (started @ task_of command)"
  using inv
proof (rule service_invE)
  fix tasks stops
  assume t: "sv_queue s = map SubmitTask tasks @ map CloseSession stops" "accepted = started @ tasks"
    "length tasks + (if \<exists>t. sv_worker s = Working t then 1 else 0) \<le> 1"
    "sv_turn_in_progress s \<longleftrightarrow> tasks \<noteq> [] \<or> (\<exists>t. sv_worker s = Working t)"
    "length stops + (if (\<exists>r. sv_worker s = Closing r) \<or> sv_worker s = Exited then 1 else 0) =
       (if sv_stopped s then 1 else 0)" "sv_stopped s \<longrightarrow> ch_closed (sv_channel s)"
  show ?thesis
  proof (cases tasks)
    case Nil
    have "length stops \<le> 1" using t(5) by (simp split: if_splits)
    then obtain r where r: "command = CloseSession r" "stops = [r]" "rest = []"
      using t(1) w(2) Nil by (cases stops) auto
    have "sv_stopped s" using t(5) r(2) by (simp split: if_splits)
    then show ?thesis
      using t w Nil r by (intro service_invI [of _ "[]" "[]"]) (simp_all add: worker_next_def worker_take_def)
  next
    case (Cons task tasks')
    then have c: "command = SubmitTask task" "tasks' = []" "rest = map CloseSession stops" using t(1,3) w by auto
    show ?thesis
      using t w Cons c by (intro service_invI [of _ "[]" stops]) (simp_all add: worker_next_def worker_take_def)
  qed
qed

lemma service_step_inv:
  "service_step (s, accepted, started) (s', accepted', started') \<Longrightarrow> service_inv s accepted started \<Longrightarrow>
   service_inv s' accepted' started'"
proof (erule service_stepE)
  fix command r
  assume "send command s = (s', r)" "accepted' = accepted @ (if is_ok r then task_of command else [])"
    "started' = started" "service_inv s accepted started"
  then show ?thesis using send_inv by simp
next
  fix command rest
  assume "sv_worker s = Waiting" "sv_queue s = command # rest" "s' = worker_next s" "accepted' = accepted"
    "started' = started @ task_of command" "service_inv s accepted started"
  then show ?thesis using worker_next_take by simp
next
  assume "s' = close_enter s" "accepted' = accepted" "started' = started" "service_inv s accepted started"
  then show ?thesis
    using request_stop_inv [of "s\<lparr>sv_close_called := True\<rparr>" accepted started] service_inv_frame [of s accepted started]
    by (simp add: close_enter_def Let_def)
qed (auto simp: worker_next_loop stream_publish_def stream_close_def channel_begin_def channel_reset_def close_leave_def
    elim: service_inv_frame)

lemma service_steps_inv:
  "service_step\<^sup>*\<^sup>* p q \<Longrightarrow> service_inv (fst p) (fst (snd p)) (snd (snd p)) \<Longrightarrow>
   service_inv (fst q) (fst (snd q)) (snd (snd q))"
  by (induction rule: rtranclp_induct) (auto intro: service_step_inv)

text \<open>C24: However commands, the worker and closing interleave, the turns begin in the order in which
  their tasks were accepted, each once; at most one accepted task has not had its turn to the
  end, and then the service says so; once the service is stopped no task is accepted and no
  approval is granted, and when the worker has exited every accepted task has had its turn and
  the stream is closed.\<close>

theorem service_invariant:
  assumes "service_step\<^sup>*\<^sup>* (AgentBackendService_init policy sig b, [], []) (s, accepted, started)"
  shows "(\<exists>waiting. accepted = started @ waiting \<and>
      length waiting + (if \<exists>t. sv_worker s = Working t then 1 else 0) \<le> 1 \<and>
      (sv_turn_in_progress s \<longleftrightarrow> waiting \<noteq> [] \<or> (\<exists>t. sv_worker s = Working t))) \<and>
    (sv_stopped s \<longrightarrow> (\<forall>command. send command s = (s, Inl BackendClosedError)) \<and>
       (\<forall>i r h. snd (ask_frontend i r h (sv_channel s)) \<noteq> Some True)) \<and>
    (sv_worker s = Exited \<longrightarrow> started = accepted \<and> sv_stopped s \<and> eb_closed (sv_stream s))"
proof -
  have "service_inv s accepted started"
    using service_steps_inv [OF assms] service_inv_init by simp
  then obtain tasks stops where f: "sv_queue s = map SubmitTask tasks @ map CloseSession stops" "accepted = started @ tasks"
    "length tasks + (if \<exists>t. sv_worker s = Working t then 1 else 0) \<le> 1"
    "sv_turn_in_progress s \<longleftrightarrow> tasks \<noteq> [] \<or> (\<exists>t. sv_worker s = Working t)"
    "length stops + (if (\<exists>r. sv_worker s = Closing r) \<or> sv_worker s = Exited then 1 else 0) =
       (if sv_stopped s then 1 else 0)"
    "(\<exists>r. sv_worker s = Closing r) \<or> sv_worker s = Exited \<longrightarrow> tasks = []"
    "sv_stopped s \<longrightarrow> ch_closed (sv_channel s)" "sv_worker s = Exited \<longrightarrow> eb_closed (sv_stream s)"
    by (rule service_invE)
  note t = f(2-8)
  have "snd (ask_frontend i r h (sv_channel s)) \<noteq> Some True" if "sv_stopped s" for i r h
  proof
    assume "snd (ask_frontend i r h (sv_channel s)) = Some True"
    then obtain before t after where h: "channel_verdict t (fold channel_apply before (channel_begin i (sv_channel s))) = Some True"
      using channel_wait_verdict [of h "channel_begin i (sv_channel s)" True] by (auto simp: ask_frontend_def Let_def split: if_splits)
    have "ch_pending (channel_begin i (sv_channel s)) = Some i" by (simp add: channel_begin_def)
    from granting_fold [OF this, of before] h
    have "granting i (channel_begin i (sv_channel s))" by (auto simp: channel_verdict_True granting_def)
    then show False using t(6) that by (simp add: granting_def channel_begin_def)
  qed
  moreover have "send command s = (s, Inl BackendClosedError)" if "sv_stopped s" for command
    using that by (simp add: send_def)
  moreover have "sv_stopped s" "tasks = []" if "sv_worker s = Exited"
    using that t(4,5) by (auto split: if_splits)
  ultimately show ?thesis using t(1-3,7) by (intro conjI impI exI [of _ tasks]) simp_all
qed

section \<open>The end of a stopped service\<close>

definition ends_in :: "nat \<Rightarrow> AgentBackendService \<Rightarrow> str list \<Rightarrow> str list \<Rightarrow> bool" where
  "ends_in n s accepted started \<longleftrightarrow>
     sv_worker ((worker_next ^^ n) s) = Exited \<and> eb_closed (sv_stream ((worker_next ^^ n) s)) \<and>
     service_step\<^sup>*\<^sup>* (s, accepted, started) ((worker_next ^^ n) s, accepted, accepted)"

lemma ends_in_Suc:
  "service_step (s, accepted, started) (worker_next s, accepted, started') \<Longrightarrow> ends_in n (worker_next s) accepted started' \<Longrightarrow>
   ends_in (Suc n) s accepted started"
  unfolding ends_in_def funpow_Suc_right comp_def by (blast intro: converse_rtranclp_into_rtranclp)

lemma ends_closing: "sv_worker s = Closing r \<Longrightarrow> ends_in 1 s accepted accepted"
  unfolding One_nat_def
  by (rule ends_in_Suc [OF ending]) (simp_all add: ends_in_def worker_next_def worker_exit_def stream_close_def)

lemma ends_waiting: "sv_worker s = Waiting \<Longrightarrow> sv_queue s = [CloseSession r] \<Longrightarrow> ends_in 2 s accepted accepted"
  using ends_in_Suc [of s accepted accepted accepted 1] taking [of s "CloseSession r" "[]" accepted accepted]
    ends_closing [of "worker_next s" r accepted]
  by (simp add: worker_next_def worker_take_def numeral_2_eq_2)

lemma ends_working: "sv_worker s = Working t \<Longrightarrow> sv_queue s = [CloseSession r] \<Longrightarrow> ends_in 3 s accepted accepted"
  using ends_in_Suc [of s accepted accepted accepted 2] ending [of s accepted accepted]
    ends_waiting [of "worker_next s" r accepted]
  by (simp add: worker_next_def turn_done_def numeral_3_eq_3 numeral_2_eq_2)

lemma ends_with_task:
  assumes "sv_worker s = Waiting" "sv_queue s = [SubmitTask t, CloseSession r]"
  shows "ends_in 4 s (started @ [t]) started"
proof -
  have "ends_in (Suc 3) s (started @ [t]) started"
    using taking [OF assms, of "started @ [t]" started] assms
    by (intro ends_in_Suc [where started' = "started @ [t]"] ends_working [of _ t r])
      (simp_all add: worker_next_def worker_take_def)
  then show ?thesis by simp
qed

text \<open>C25: A stopped service comes to its end by its worker alone, as long as turns end:
  within four of its parts it has begun every accepted turn, exited and closed
  the stream, so that every reader of it returns.\<close>

theorem closing_ends_worker:
  assumes "service_step\<^sup>*\<^sup>* (AgentBackendService_init policy sig b, [], []) (s, accepted, started)"
    and "sv_stopped s"
  shows "\<exists>n \<le> 4. sv_worker ((worker_next ^^ n) s) = Exited \<and> eb_closed (sv_stream ((worker_next ^^ n) s)) \<and>
    service_step\<^sup>*\<^sup>* (s, accepted, started) ((worker_next ^^ n) s, accepted, accepted)"
proof -
  have "service_inv s accepted started"
    using service_steps_inv [OF assms(1)] service_inv_init by simp
  then obtain tasks stops where f: "sv_queue s = map SubmitTask tasks @ map CloseSession stops" "accepted = started @ tasks"
    "length tasks + (if \<exists>t. sv_worker s = Working t then 1 else 0) \<le> 1"
    "sv_turn_in_progress s \<longleftrightarrow> tasks \<noteq> [] \<or> (\<exists>t. sv_worker s = Working t)"
    "length stops + (if (\<exists>r. sv_worker s = Closing r) \<or> sv_worker s = Exited then 1 else 0) =
       (if sv_stopped s then 1 else 0)"
    "(\<exists>r. sv_worker s = Closing r) \<or> sv_worker s = Exited \<longrightarrow> tasks = []"
    "sv_stopped s \<longrightarrow> ch_closed (sv_channel s)" "sv_worker s = Exited \<longrightarrow> eb_closed (sv_stream s)"
    by (rule service_invE)
  have one: "length stops + (if (\<exists>r. sv_worker s = Closing r) \<or> sv_worker s = Exited then 1 else 0) = 1"
    using f(5) assms(2) by simp
  have "\<exists>n \<le> 4. ends_in n s accepted started"
  proof (cases "sv_worker s")
    case Waiting
    then obtain r where r: "stops = [r]" using one by (cases stops) auto
    show ?thesis
    proof (cases tasks)
      case Nil
      then have "ends_in 2 s accepted started" using ends_waiting [OF Waiting, of r accepted] f(1,2) r by simp
      then show ?thesis by (intro exI [of _ 2]) simp
    next
      case (Cons t0 tasks')
      then have "tasks' = []" using f(3) by simp
      then have "ends_in 4 s accepted started"
        using ends_with_task [OF Waiting, of t0 r started] f(1,2) r Cons by simp
      then show ?thesis by (intro exI [of _ 4]) simp
    qed
  next
    case (Working t0)
    then obtain r where r: "stops = [r]" using one by (cases stops) auto
    have "tasks = []" using f(3) Working by simp
    then have "ends_in 3 s accepted started" using ends_working [OF Working, of r accepted] f(1,2) r by simp
    then show ?thesis by (intro exI [of _ 3]) simp
  next
    case (Closing r)
    then have "ends_in 1 s accepted started" using ends_closing [OF Closing, of accepted] f(2,6) by simp
    then show ?thesis by (intro exI [of _ 1]) simp
  next
    case Exited
    then show ?thesis using f(2,6,8) by (intro exI [of _ 0]) (simp add: ends_in_def)
  qed
  then show ?thesis by (auto simp: ends_in_def)
qed

section \<open>Witnesses\<close>

definition idle_policy :: DefaultExecutionPolicy where
  "idle_policy = \<lparr>dp_mode = ModeAsk, dp_interactive = Some True, dp_workspace = None\<rparr>"

definition fresh_service :: AgentBackendService where
  "fresh_service = AgentBackendService_init idle_policy CancellationSignal_init EventStreamBuffer_init"

definition stopped_service :: AgentBackendService where
  "stopped_service = close_enter (fst (send (SubmitTask (lit ''go'')) fresh_service))"

lemma stopped_service_reached:
  "service_step\<^sup>*\<^sup>* (fresh_service, [], []) (stopped_service, [lit ''go''], [])"
proof -
  let ?s = "fst (send (SubmitTask (lit ''go'')) fresh_service)"
  have "send (SubmitTask (lit ''go'')) fresh_service = (?s, Inr ())"
    by (simp add: send_def fresh_service_def AgentBackendService_init_def)
  from sending [OF this, of "[]" "[]"] have "service_step (fresh_service, [], []) (?s, [lit ''go''], [])" by simp
  moreover have "service_step (?s, [lit ''go''], []) (stopped_service, [lit ''go''], [])"
    unfolding stopped_service_def by (rule entering)
  ultimately show ?thesis by (rule converse_rtranclp_into_rtranclp [OF _ r_into_rtranclp])
qed

lemma stopped_service_fields:
  "sv_stopped stopped_service" "sv_worker stopped_service = Waiting" "sv_turn_in_progress stopped_service"
  "ch_closed (sv_channel stopped_service)"
  by (simp_all add: stopped_service_def close_enter_def send_def fresh_service_def AgentBackendService_init_def
      request_stop_def channel_close_def)

theorem service_invariant_witness:
  "(\<exists>waiting. [lit ''go''] = [] @ waiting \<and> waiting \<noteq> []) \<and>
   send (SubmitTask (lit ''more'')) stopped_service = (stopped_service, Inl BackendClosedError)"
  using service_invariant [OF stopped_service_reached [unfolded fresh_service_def]] stopped_service_fields by auto

theorem closing_ends_worker_witness:
  "\<exists>n \<le> 4. sv_worker ((worker_next ^^ n) stopped_service) = Exited"
  using closing_ends_worker [OF stopped_service_reached [unfolded fresh_service_def] stopped_service_fields(1)] by blast

definition published_report :: EmissionReport where
  "published_report = \<lparr>er_event = Some (sample_envelope APPROVAL_REQUEST 1), er_deliveries = []\<rparr>"

theorem approval_fails_closed_witness:
  "\<exists>before t after. [Looked 5, Responded (lit ''c1'') True, Looked 4] = before @ Looked t # after \<and>
     list_all (undisturbed (lit ''c1'')) before \<and> last (concat (map response_of before))"
proof -
  have "snd (ask_frontend (lit ''c1'') published_report [Looked 5, Responded (lit ''c1'') True, Looked 4] ApprovalChannel_init) = Some True"
    by (simp add: ask_frontend_def published_report_def channel_begin_def ApprovalChannel_init_def channel_verdict_def
        channel_respond_def)
  from approval_fails_closed [OF this] show ?thesis by blast
qed

end
