(* ===== verification/Pump.thy ===== *)
theory Pump
  imports Stream
begin

text \<open>
  The event pump of a transport session (\<open>_SessionEventPump\<close> and \<open>_EventSubscription\<close> of
  \<open>transports/http/registry.py\<close>): one thread reads the backend's iterator into a cache and into
  the queue of every subscriber.  Each part that runs under a lock, and each \<open>put\<close>, is one
  atomic operation; \<open>pump_step\<close> interleaves the pump's thread, new subscribers, departing ones
  and the closing of the session.  A subscription is named by its place in the order of
  subscribing.
\<close>

datatype queue_item = Item EventEnvelope | Done

record subscription =
  su_cursor :: int
  su_values :: "queue_item list"
  su_closed :: bool

text \<open>Where the pump's thread is: the subscribers it still has to put the last event, or the final
  mark, into.\<close>

datatype pump_phase =
    NotStarted
  | Fetching
  | Delivering EventEnvelope "nat list"
  | Finishing "nat list"
  | Finished

record event_pump =
  pm_subscriptions :: "subscription list"
  pm_subscribers :: "nat list"
  pm_cache :: "EventEnvelope list"
  pm_done :: bool
  pm_stop :: bool
  pm_phase :: pump_phase
  pm_closing :: "nat list"

definition event_pump_init :: event_pump where
  "event_pump_init =
     \<lparr>pm_subscriptions = [], pm_subscribers = [], pm_cache = [], pm_done = False, pm_stop = False,
      pm_phase = NotStarted, pm_closing = []\<rparr>"

section \<open>Operations\<close>

text \<open>\<open>_EventSubscription.put\<close>.\<close>

definition put_item :: "queue_item \<Rightarrow> subscription \<Rightarrow> subscription" where
  "put_item v u = (if su_closed u then u else u\<lparr>su_values := su_values u @ [v]\<rparr>)"

definition at_subscription :: "nat \<Rightarrow> (subscription \<Rightarrow> subscription) \<Rightarrow> event_pump \<Rightarrow> event_pump" where
  "at_subscription i f p = p\<lparr>pm_subscriptions := (pm_subscriptions p)[i := f (pm_subscriptions p ! i)]\<rparr>"

text \<open>\<open>subscribe\<close>: the cached events beyond the cursor, the final mark of a pump that is done, or the
  start of the thread.\<close>

definition pump_subscribe :: "int \<Rightarrow> event_pump \<Rightarrow> (event_pump \<times> nat) res" where
  "pump_subscribe cursor p =
     bindR (guardR (0 \<le> cursor) (ValueError (lit ''cursor must be a non-negative integer''))) (\<lambda>_.
     let i = length (pm_subscriptions p);
         u = \<lparr>su_cursor = cursor,
              su_values = map Item (beyond cursor (pm_cache p)) @ (if pm_done p then [Done] else []),
              su_closed = False\<rparr> in
     Inr (p\<lparr>pm_subscriptions := pm_subscriptions p @ [u], pm_subscribers := pm_subscribers p @ [i],
            pm_phase := (if \<not> pm_done p \<and> pm_phase p = NotStarted then Fetching else pm_phase p)\<rparr>, i))"

text \<open>\<open>_EventSubscription.close\<close> marks the subscription, then \<open>unsubscribe\<close> drops it.\<close>

definition subscription_close :: "nat \<Rightarrow> event_pump \<Rightarrow> event_pump" where
  "subscription_close i = at_subscription i (\<lambda>u. u\<lparr>su_closed := True\<rparr>)"

definition pump_unsubscribe :: "nat \<Rightarrow> event_pump \<Rightarrow> event_pump" where
  "pump_unsubscribe i p = p\<lparr>pm_subscribers := filter (\<lambda>j. j \<noteq> i) (pm_subscribers p)\<rparr>"

text \<open>The end of the thread's loop: by the stop flag, the iterator's end or any exception.\<close>

definition pump_end :: "event_pump \<Rightarrow> event_pump" where
  "pump_end p = p\<lparr>pm_done := True, pm_phase := Finishing (pm_subscribers p), pm_subscribers := []\<rparr>"

text \<open>The next event of the iterator, under the lock.\<close>

definition pump_fetch :: "EventEnvelope \<Rightarrow> event_pump \<Rightarrow> event_pump" where
  "pump_fetch e p =
     (if pm_stop p then pump_end p
      else p\<lparr>pm_cache := pm_cache p @ [e], pm_phase := Delivering e (pm_subscribers p)\<rparr>)"

text \<open>One \<open>put\<close> of the thread.\<close>

definition deliver_to :: "EventEnvelope \<Rightarrow> subscription \<Rightarrow> subscription" where
  "deliver_to e u = (if su_cursor u < ev_sequence e then put_item (Item e) u else u)"

definition pump_put :: "event_pump \<Rightarrow> event_pump" where
  "pump_put p =
     (case pm_phase p of
        Delivering e [] \<Rightarrow> p\<lparr>pm_phase := Fetching\<rparr>
      | Delivering e (i # is) \<Rightarrow> at_subscription i (deliver_to e) (p\<lparr>pm_phase := Delivering e is\<rparr>)
      | Finishing [] \<Rightarrow> p\<lparr>pm_phase := Finished\<rparr>
      | Finishing (i # is) \<Rightarrow> at_subscription i (put_item Done) (p\<lparr>pm_phase := Finishing is\<rparr>)
      | _ \<Rightarrow> p)"

text \<open>\<open>close\<close>: the part under the lock, and its puts.\<close>

definition pump_close :: "event_pump \<Rightarrow> event_pump" where
  "pump_close p =
     p\<lparr>pm_stop := True, pm_done := True, pm_closing := pm_closing p @ pm_subscribers p, pm_subscribers := []\<rparr>"

definition closing_put :: "event_pump \<Rightarrow> event_pump" where
  "closing_put p =
     (case pm_closing p of
        [] \<Rightarrow> p
      | i # is \<Rightarrow> at_subscription i (put_item Done) (p\<lparr>pm_closing := is\<rparr>))"

inductive pump_step :: "event_pump \<Rightarrow> event_pump \<Rightarrow> bool" where
  subscribe: "pump_subscribe cursor p = Inr (p', i) \<Longrightarrow> pump_step p p'"
| depart: "i < length (pm_subscriptions p) \<Longrightarrow> pump_step p (subscription_close i p)"
| unsubscribe: "i < length (pm_subscriptions p) \<Longrightarrow> su_closed (pm_subscriptions p ! i) \<Longrightarrow> pump_step p (pump_unsubscribe i p)"
| fetch: "pm_phase p = Fetching \<Longrightarrow> pump_step p (pump_fetch e p)"
| exhausted: "pm_phase p = Fetching \<Longrightarrow> pump_step p (pump_end p)"
| putting: "pump_step p (pump_put p)"
| closing: "pump_step p (pump_close p)"
| closing_put: "pump_step p (closing_put p)"

section \<open>What a subscriber gets\<close>

fun event_of :: "queue_item \<Rightarrow> EventEnvelope list" where
  "event_of (Item e) = [e]"
| "event_of Done = []"

definition received :: "subscription \<Rightarrow> EventEnvelope list" where
  "received u = concat (map event_of (su_values u))"

text \<open>What the thread still has to put into a subscription.\<close>

definition due :: "event_pump \<Rightarrow> nat \<Rightarrow> subscription \<Rightarrow> EventEnvelope list" where
  "due p i u =
     (case pm_phase p of
        Delivering e is \<Rightarrow> if i \<in> set is \<and> su_cursor u < ev_sequence e then [e] else []
      | _ \<Rightarrow> [])"

definition ended_phase :: "pump_phase \<Rightarrow> bool" where
  "ended_phase ph \<longleftrightarrow> (\<exists>is. ph = Finishing is) \<or> ph = Finished"

definition subscription_inv :: "event_pump \<Rightarrow> nat \<Rightarrow> subscription \<Rightarrow> bool" where
  "subscription_inv p i u \<longleftrightarrow>
     received u @ due p i u = beyond (su_cursor u) (pm_cache p) \<and>
     (i \<in> set (pm_subscribers p) \<or> pm_stop p \<or> ended_phase (pm_phase p)) \<and>
     (Done \<in> set (su_values u) \<or> i \<in> set (pm_closing p) \<or> (\<exists>is. pm_phase p = Finishing is \<and> i \<in> set is) \<or>
        i \<in> set (pm_subscribers p) \<and> \<not> pm_done p)"

definition pump_inv :: "event_pump \<Rightarrow> bool" where
  "pump_inv p \<longleftrightarrow>
     (\<forall>i < length (pm_subscriptions p). \<not> su_closed (pm_subscriptions p ! i) \<longrightarrow>
        subscription_inv p i (pm_subscriptions p ! i)) \<and>
     distinct (pm_subscribers p) \<and> set (pm_subscribers p) \<subseteq> {..< length (pm_subscriptions p)} \<and>
     (\<forall>e is. pm_phase p = Delivering e is \<longrightarrow> distinct is \<and> set is \<subseteq> {..< length (pm_subscriptions p)}) \<and>
     (\<forall>is. pm_phase p = Finishing is \<longrightarrow> set is \<subseteq> {..< length (pm_subscriptions p)}) \<and>
     set (pm_closing p) \<subseteq> {..< length (pm_subscriptions p)} \<and>
     (pm_stop p \<longrightarrow> pm_done p) \<and> (ended_phase (pm_phase p) \<longrightarrow> pm_done p)"

lemma received_put [simp]: "received (u\<lparr>su_values := su_values u @ [v]\<rparr>) = received u @ event_of v"
  by (simp add: received_def)

lemma length_at_subscription [simp]: "length (pm_subscriptions (at_subscription i f p)) = length (pm_subscriptions p)"
  by (simp add: at_subscription_def)

lemma at_subscription_fields [simp]:
  "pm_subscribers (at_subscription i f p) = pm_subscribers p" "pm_cache (at_subscription i f p) = pm_cache p"
  "pm_done (at_subscription i f p) = pm_done p" "pm_stop (at_subscription i f p) = pm_stop p"
  "pm_phase (at_subscription i f p) = pm_phase p" "pm_closing (at_subscription i f p) = pm_closing p"
  by (simp_all add: at_subscription_def)

lemma at_subscription_nth:
  "j < length (pm_subscriptions p) \<Longrightarrow>
   pm_subscriptions (at_subscription i f p) ! j = (if j = i then f (pm_subscriptions p ! i) else pm_subscriptions p ! j)"
  by (simp add: at_subscription_def nth_list_update)

lemma put_item_fields [simp]:
  "su_closed (put_item v u) = su_closed u" "su_cursor (put_item v u) = su_cursor u"
  "su_closed (deliver_to e u) = su_closed u" "su_cursor (deliver_to e u) = su_cursor u"
  by (simp_all add: put_item_def deliver_to_def)

lemma pump_inv_subscription:
  "pump_inv p \<Longrightarrow> i < length (pm_subscriptions p) \<Longrightarrow> \<not> su_closed (pm_subscriptions p ! i) \<Longrightarrow>
   subscription_inv p i (pm_subscriptions p ! i)"
  by (simp add: pump_inv_def)

text \<open>The part of the invariant that is not about the queues.\<close>

definition pump_shape :: "event_pump \<Rightarrow> bool" where
  "pump_shape p \<longleftrightarrow>
     distinct (pm_subscribers p) \<and> set (pm_subscribers p) \<subseteq> {..< length (pm_subscriptions p)} \<and>
     (\<forall>e is. pm_phase p = Delivering e is \<longrightarrow> distinct is \<and> set is \<subseteq> {..< length (pm_subscriptions p)}) \<and>
     (\<forall>is. pm_phase p = Finishing is \<longrightarrow> set is \<subseteq> {..< length (pm_subscriptions p)}) \<and>
     set (pm_closing p) \<subseteq> {..< length (pm_subscriptions p)} \<and>
     (pm_stop p \<longrightarrow> pm_done p) \<and> (ended_phase (pm_phase p) \<longrightarrow> pm_done p)"

lemma pump_invI:
  assumes "pump_shape p"
    and "\<And>i. i < length (pm_subscriptions p) \<Longrightarrow> \<not> su_closed (pm_subscriptions p ! i) \<Longrightarrow>
      subscription_inv p i (pm_subscriptions p ! i)"
  shows "pump_inv p"
  using assms unfolding pump_inv_def pump_shape_def by blast

lemma pump_inv_shape: "pump_inv p \<Longrightarrow> pump_shape p"
  unfolding pump_inv_def pump_shape_def by blast

lemma subscribe_inv:
  assumes "pump_inv p" "pump_subscribe cursor p = Inr (p', i)"
  shows "pump_inv p'"
proof -
  let ?n = "length (pm_subscriptions p)"
  let ?u = "\<lparr>su_cursor = cursor, su_values = map Item (beyond cursor (pm_cache p)) @ (if pm_done p then [Done] else []),
              su_closed = False\<rparr>"
  have p': "p' = p\<lparr>pm_subscriptions := pm_subscriptions p @ [?u], pm_subscribers := pm_subscribers p @ [?n],
            pm_phase := (if \<not> pm_done p \<and> pm_phase p = NotStarted then Fetching else pm_phase p)\<rparr>"
    using assms(2) by (auto simp: pump_subscribe_def bindR_Inr_iff Let_def)
  have shape: "pump_shape p" by (rule pump_inv_shape [OF assms(1)])
  show ?thesis
  proof (rule pump_invI)
    have grow: "A \<subseteq> {..< ?n} \<Longrightarrow> A \<subseteq> {..< Suc ?n}" for A by (auto simp: less_Suc_eq)
    have new: "?n \<notin> set (pm_subscribers p)" using shape by (auto simp: pump_shape_def)
    show "pump_shape p'"
      using shape new unfolding p' pump_shape_def
      by (cases "pm_phase p") (simp_all add: ended_phase_def grow, blast?)
  next
    fix j assume j: "j < length (pm_subscriptions p')" "\<not> su_closed (pm_subscriptions p' ! j)"
    show "subscription_inv p' j (pm_subscriptions p' ! j)"
    proof (cases "j = ?n")
      case True
      have "concat (map (event_of \<circ> Item) es) = es" for es by (induction es) auto
      moreover have "e \<noteq> e \<or> ?n \<notin> set is" if "pm_phase p = Delivering e is" for e "is"
        using shape that by (auto simp: pump_shape_def)
      ultimately show ?thesis
        using True by (auto simp: p' subscription_inv_def received_def due_def split: pump_phase.splits)
    next
      case False
      then have "subscription_inv p j (pm_subscriptions p ! j)"
        using j by (intro pump_inv_subscription [OF assms(1)]) (auto simp: p' nth_append)
      then show ?thesis
        using j False by (auto simp: p' subscription_inv_def due_def ended_phase_def nth_append split: pump_phase.splits)
    qed
  qed
qed

lemma fetch_inv:
  assumes "pump_inv p" "pm_phase p = Fetching"
  shows "pump_inv (pump_end p)" and "pump_inv (pump_fetch e p)"
proof -
  have shape: "pump_shape p" by (rule pump_inv_shape [OF assms(1)])
  show stop: "pump_inv (pump_end p)"
  proof (rule pump_invI)
    show "pump_shape (pump_end p)" using shape by (auto simp: pump_end_def pump_shape_def ended_phase_def)
  next
    fix j assume "j < length (pm_subscriptions (pump_end p))" "\<not> su_closed (pm_subscriptions (pump_end p) ! j)"
    then have "subscription_inv p j (pm_subscriptions p ! j)"
      by (intro pump_inv_subscription [OF assms(1)]) (auto simp: pump_end_def)
    then show "subscription_inv (pump_end p) j (pm_subscriptions (pump_end p) ! j)"
      using assms(2) by (auto simp: subscription_inv_def pump_end_def due_def ended_phase_def)
  qed
  show "pump_inv (pump_fetch e p)"
  proof (cases "pm_stop p")
    case False
    show ?thesis
    proof (rule pump_invI)
      show "pump_shape (pump_fetch e p)" using shape False by (auto simp: pump_fetch_def pump_shape_def ended_phase_def)
    next
      fix j assume "j < length (pm_subscriptions (pump_fetch e p))" "\<not> su_closed (pm_subscriptions (pump_fetch e p) ! j)"
      then have "subscription_inv p j (pm_subscriptions p ! j)"
        using False by (intro pump_inv_subscription [OF assms(1)]) (auto simp: pump_fetch_def)
      then show "subscription_inv (pump_fetch e p) j (pm_subscriptions (pump_fetch e p) ! j)"
        using assms(2) False by (auto simp: subscription_inv_def pump_fetch_def due_def ended_phase_def beyond_def)
    qed
  qed (use stop in \<open>simp add: pump_fetch_def\<close>)
qed

lemma pump_put_inv:
  assumes "pump_inv p"
  shows "pump_inv (pump_put p)"
proof (rule pump_invI)
  have shape: "pump_shape p" by (rule pump_inv_shape [OF assms])
  then show "pump_shape (pump_put p)"
    by (auto simp: pump_put_def pump_shape_def ended_phase_def split: pump_phase.splits list.splits)
  fix j assume j: "j < length (pm_subscriptions (pump_put p))" "\<not> su_closed (pm_subscriptions (pump_put p) ! j)"
  have "j < length (pm_subscriptions p)" "\<not> su_closed (pm_subscriptions p ! j)"
    using j by (auto simp: pump_put_def at_subscription_nth split: pump_phase.splits list.splits if_splits)
  note old = pump_inv_subscription [OF assms this] this
  show "subscription_inv (pump_put p) j (pm_subscriptions (pump_put p) ! j)"
  proof (cases "pm_phase p")
    case (Delivering e js)
    then show ?thesis
      using old shape
      by (cases js)
        (auto simp: pump_put_def subscription_inv_def due_def ended_phase_def at_subscription_nth deliver_to_def
          put_item_def pump_shape_def)
  next
    case (Finishing js)
    then show ?thesis
      using old
      by (cases js)
        (auto simp: pump_put_def subscription_inv_def due_def ended_phase_def at_subscription_nth put_item_def)
  qed (use old in \<open>simp_all add: pump_put_def\<close>)
qed

lemma closing_inv:
  assumes "pump_inv p"
  shows "pump_inv (pump_close p)" and "pump_inv (closing_put p)"
proof -
  have shape: "pump_shape p" by (rule pump_inv_shape [OF assms])
  show "pump_inv (pump_close p)"
  proof (rule pump_invI)
    show "pump_shape (pump_close p)" using shape by (auto simp: pump_close_def pump_shape_def)
  next
    fix j assume "j < length (pm_subscriptions (pump_close p))" "\<not> su_closed (pm_subscriptions (pump_close p) ! j)"
    then have "subscription_inv p j (pm_subscriptions p ! j)"
      by (intro pump_inv_subscription [OF assms]) (auto simp: pump_close_def)
    then show "subscription_inv (pump_close p) j (pm_subscriptions (pump_close p) ! j)"
      by (auto simp: subscription_inv_def pump_close_def due_def)
  qed
  show "pump_inv (closing_put p)"
  proof (cases "pm_closing p")
    case (Cons i js)
    show ?thesis
    proof (rule pump_invI)
      show "pump_shape (closing_put p)" using shape Cons by (auto simp: closing_put_def pump_shape_def)
    next
      fix j assume j: "j < length (pm_subscriptions (closing_put p))" "\<not> su_closed (pm_subscriptions (closing_put p) ! j)"
      then have "j < length (pm_subscriptions p)" "\<not> su_closed (pm_subscriptions p ! j)"
        using Cons by (auto simp: closing_put_def at_subscription_nth split: if_splits)
      from pump_inv_subscription [OF assms this] this
      show "subscription_inv (closing_put p) j (pm_subscriptions (closing_put p) ! j)"
        using Cons
        by (auto simp: subscription_inv_def closing_put_def due_def at_subscription_nth put_item_def split: pump_phase.splits)
    qed
  qed (use assms in \<open>simp add: closing_put_def\<close>)
qed

lemma pump_step_inv: "pump_step p p' \<Longrightarrow> pump_inv p \<Longrightarrow> pump_inv p'"
proof (induction rule: pump_step.induct)
  case (depart i p)
  show ?case
  proof (rule pump_invI)
    show "pump_shape (subscription_close i p)"
      using pump_inv_shape [OF depart.prems] by (simp add: subscription_close_def pump_shape_def)
  next
    fix j assume j: "j < length (pm_subscriptions (subscription_close i p))" "\<not> su_closed (pm_subscriptions (subscription_close i p) ! j)"
    then have "j < length (pm_subscriptions p)" "j \<noteq> i" "\<not> su_closed (pm_subscriptions p ! j)"
      by (auto simp: subscription_close_def at_subscription_nth split: if_splits)
    with pump_inv_subscription [OF depart.prems, of j]
    show "subscription_inv (subscription_close i p) j (pm_subscriptions (subscription_close i p) ! j)"
      by (auto simp: subscription_close_def at_subscription_nth subscription_inv_def due_def)
  qed
next
  case (unsubscribe i p)
  show ?case
  proof (rule pump_invI)
    show "pump_shape (pump_unsubscribe i p)"
      using pump_inv_shape [OF unsubscribe.prems] by (auto simp: pump_unsubscribe_def pump_shape_def)
  next
    fix j assume j: "j < length (pm_subscriptions (pump_unsubscribe i p))" "\<not> su_closed (pm_subscriptions (pump_unsubscribe i p) ! j)"
    then have "j \<noteq> i" using unsubscribe.hyps by (auto simp: pump_unsubscribe_def)
    with j pump_inv_subscription [OF unsubscribe.prems, of j]
    show "subscription_inv (pump_unsubscribe i p) j (pm_subscriptions (pump_unsubscribe i p) ! j)"
      by (auto simp: pump_unsubscribe_def subscription_inv_def due_def)
  qed
qed (auto intro: subscribe_inv fetch_inv pump_put_inv closing_inv)

lemma pump_reached: "pump_step\<^sup>*\<^sup>* event_pump_init p \<Longrightarrow> pump_inv p"
proof (induction rule: rtranclp_induct)
  case base
  show ?case by (simp add: pump_inv_def event_pump_init_def ended_phase_def)
qed (rule pump_step_inv)

text \<open>C30: Whoever subscribes when, departs or closes, a subscriber that has not departed has in its
  queue exactly the events of the backend's iterator beyond its cursor, in order and each once,
  except for one that the thread is just handing out; and when the stream is over and no put is
  left to make, its queue holds the final mark.\<close>

theorem pump_delivers:
  assumes "pump_step\<^sup>*\<^sup>* event_pump_init p" and "i < length (pm_subscriptions p)"
    and "\<not> su_closed (pm_subscriptions p ! i)"
  shows "received (pm_subscriptions p ! i) @ due p i (pm_subscriptions p ! i) =
      beyond (su_cursor (pm_subscriptions p ! i)) (pm_cache p) \<and>
    (pm_done p \<and> pm_closing p = [] \<and> (\<nexists>js. pm_phase p = Finishing js) \<longrightarrow>
       Done \<in> set (su_values (pm_subscriptions p ! i)))"
  using pump_inv_subscription [OF pump_reached [OF assms(1)] assms(2,3)]
  by (auto simp: subscription_inv_def)

section \<open>Witness\<close>

text \<open>A subscriber from the start and one that joins while an event is being handed out.\<close>

definition busy_pump :: event_pump where
  "busy_pump =
     \<lparr>pm_subscriptions =
        [\<lparr>su_cursor = 0, su_values = [], su_closed = False\<rparr>,
         \<lparr>su_cursor = 0, su_values = [Item (sample_envelope SESSION_START 1)], su_closed = False\<rparr>],
      pm_subscribers = [0, 1], pm_cache = [sample_envelope SESSION_START 1], pm_done = False, pm_stop = False,
      pm_phase = Delivering (sample_envelope SESSION_START 1) [0], pm_closing = []\<rparr>"

lemma busy_pump_reached: "pump_step\<^sup>*\<^sup>* event_pump_init busy_pump"
proof -
  let ?e = "sample_envelope SESSION_START 1"
  obtain p1 where p1: "pump_subscribe 0 event_pump_init = Inr (p1, 0)" by (simp add: pump_subscribe_def event_pump_init_def)
  have phase: "pm_phase p1 = Fetching" using p1 by (auto simp: pump_subscribe_def event_pump_init_def)
  have "pump_subscribe 0 (pump_fetch ?e p1) = Inr (busy_pump, 1)"
    using p1 by (auto simp: pump_subscribe_def event_pump_init_def pump_fetch_def busy_pump_def beyond_def sample_envelope_def)
  then have "pump_step (pump_fetch ?e p1) busy_pump" by (rule pump_step.subscribe)
  moreover have "pump_step p1 (pump_fetch ?e p1)" using phase by (rule pump_step.fetch)
  moreover have "pump_step event_pump_init p1" using p1 by (rule pump_step.subscribe)
  ultimately show ?thesis by (meson converse_rtranclp_into_rtranclp r_into_rtranclp)
qed

theorem pump_delivers_witness:
  "received (pm_subscriptions busy_pump ! 1) @ due busy_pump 1 (pm_subscriptions busy_pump ! 1) = [sample_envelope SESSION_START 1]"
  using pump_delivers [OF busy_pump_reached, of 1] by (simp add: busy_pump_def beyond_def sample_envelope_def)

end
