(* ===== verification/History.thy ===== *)
theory History
  imports Backend Stream Recovery Dumps "HOL-Library.Product_Lexorder"
begin

text \<open>
  The workspace's history (\<open>backend_provider.py\<close>): the repository of session files, the bounded
  pages of events, the summaries and their pages, and the creation of a session.  The file
  system is seen through a record of ports; a file's content is read by \<open>read_session\<close>.
\<close>

section \<open>Bounds and diagnostics\<close>

definition history_text_limit :: int where "history_text_limit = 4096"
definition history_list_limit :: int where "history_list_limit = 100"
definition history_event_limit :: int where "history_event_limit = 200"
definition history_sequence_limit :: int where "history_sequence_limit = 2 ^ 63 - 1"
definition history_event_payload_limit :: int where "history_event_payload_limit = 65536"
definition history_page_bytes_limit :: int where "history_page_bytes_limit = 8 * 1024 * 1024"
definition history_max_diagnostics :: nat where "history_max_diagnostics = 8"
definition cursor_cache_limit :: nat where "cursor_cache_limit = 128"

definition diagnostic_messages :: "(str \<times> str) list" where
  "diagnostic_messages =
     map (\<lambda>(c, m). (lit c, lit m))
       [(''incomplete_tail'', ''history has an incomplete final record''),
        (''invalid_record'', ''history contains an invalid record''),
        (''unsupported_schema'', ''history uses an unsupported schema''),
        (''missing_root_agent'', ''history is missing a root agent''),
        (''missing_first_user_message'', ''history has no canonical root user message''),
        (''unreadable_candidate'', ''history candidate could not be read''),
        (''not_resumable'', ''history session cannot be resumed'')]"

definition history_diagnostic :: "string \<Rightarrow> HistoryDiagnostic" where
  "history_diagnostic code =
     \<lparr>hd_code = lit code,
      hd_message = (case dget diagnostic_messages (lit code) of
                      Some m \<Rightarrow> m | None \<Rightarrow> lit ''history candidate has an invalid shape'')\<rparr>"

definition append_diagnostic :: "HistoryDiagnostic list \<Rightarrow> string \<Rightarrow> HistoryDiagnostic list" where
  "append_diagnostic ds code =
     (if history_max_diagnostics \<le> length ds \<or> list_ex (\<lambda>d. hd_code d = lit code) ds then ds
      else ds @ [history_diagnostic code])"

text \<open>\<open>_safe_diagnostics\<close>: the first of each code, at most eight.\<close>

fun safe_diagnostics_loop :: "HistoryDiagnostic list \<Rightarrow> HistoryDiagnostic list \<Rightarrow> HistoryDiagnostic list" where
  "safe_diagnostics_loop found [] = found"
| "safe_diagnostics_loop found (d # ds) =
     (if list_ex (\<lambda>x. hd_code x = hd_code d) found then safe_diagnostics_loop found ds
      else if history_max_diagnostics \<le> length (found @ [d]) then found @ [d]
      else safe_diagnostics_loop (found @ [d]) ds)"

definition safe_diagnostics :: "HistoryDiagnostic list \<Rightarrow> HistoryDiagnostic list" where
  "safe_diagnostics = safe_diagnostics_loop []"

section \<open>Bounded values\<close>

definition bounded_text :: "str \<Rightarrow> BoundedText res" where
  "bounded_text s =
     bindR (utf8_encode s) (\<lambda>encoded.
     let n = int (length encoded) in
     if n \<le> history_text_limit then mk_BoundedText s False n history_text_limit
     else mk_BoundedText (utf8_decode_ignore (take (nat history_text_limit) encoded)) True n history_text_limit)"

text \<open>\<open>encoded_size\<close>: the ASCII form bounds every ordinary encoding.\<close>

definition encoded_size :: "platform \<Rightarrow> jobj \<Rightarrow> int" where
  "encoded_size pl d = int (utf8_len (dumps_ascii (pl_frepr pl) (JObj d)))"

text \<open>\<open>_bounded_payload\<close>, with the payload's canonical text and its length in bytes.\<close>

definition history_payload :: "platform \<Rightarrow> jobj \<Rightarrow> int \<Rightarrow> str \<Rightarrow> int \<Rightarrow> jobj res" where
  "history_payload pl payload limit serialized original_length =
     (if original_length \<le> limit \<and> encoded_size pl payload \<le> limit then Inr payload
      else
        (let candidate = preview serialized original_length limit;
             best = search_preview candidate (\<lambda>c. encoded_size pl c \<le> limit) 0 (int (length serialized)) (candidate 0) in
         if limit < encoded_size pl best then Inl (ValueError (lit ''payload preview metadata exceeds its bound''))
         else Inr best))"

definition project_event :: "platform \<Rightarrow> int \<Rightarrow> EventEnvelope \<times> str \<times> int \<Rightarrow> EventEnvelope res" where
  "project_event pl limit x =
     (case x of (e, serialized, original_length) \<Rightarrow>
       bindR (history_payload pl (ev_payload e) limit serialized original_length) (\<lambda>p.
       Inr (e\<lparr>ev_payload := p\<rparr>)))"

section \<open>Event pages\<close>

text \<open>\<open>_serialized_page_size\<close>: the largest of three encodings.\<close>

definition serialized_page_size :: "platform \<Rightarrow> SessionEventPage \<Rightarrow> int res" where
  "serialized_page_size pl page =
     (let v = JObj (SessionEventPage_to_dict page) in
      bindR (canonical_json (pl_frepr pl) v) (\<lambda>canonical.
      bindR (utf8_encode canonical) (\<lambda>a.
      bindR (utf8_encode (dumps_plain (pl_frepr pl) v)) (\<lambda>b.
      Inr (max (int (length a)) (max (int (length b)) (int (utf8_len (dumps_ascii (pl_frepr pl) v)))))))))"

fun map_res :: "('a \<Rightarrow> 'b res) \<Rightarrow> 'a list \<Rightarrow> 'b list res" where
  "map_res f [] = Inr []"
| "map_res f (x # xs) = bindR (f x) (\<lambda>y. bindR (map_res f xs) (\<lambda>ys. Inr (y # ys)))"

text \<open>An event with its payload's canonical text and the text's length in bytes.\<close>

definition measured :: "platform \<Rightarrow> EventEnvelope \<Rightarrow> (EventEnvelope \<times> str \<times> int) res" where
  "measured pl e =
     bindR (canonical_json (pl_frepr pl) (JObj (ev_payload e))) (\<lambda>s.
     bindR (utf8_encode s) (\<lambda>bytes. Inr (e, s, int (length bytes))))"

definition page_cursor :: "bool \<Rightarrow> EventEnvelope list \<Rightarrow> int option" where
  "page_cursor has_more es = (if has_more \<and> es \<noteq> [] then Some (ev_sequence (last es)) else None)"

definition page_of ::
  "platform \<Rightarrow> str \<Rightarrow> (EventEnvelope \<times> str \<times> int) list \<Rightarrow> bool \<Rightarrow> HistoryDiagnostic list \<Rightarrow> int \<Rightarrow> SessionEventPage res" where
  "page_of pl session_id selected has_more diagnostics payload_limit =
     bindR (map_res (project_event pl payload_limit) selected) (\<lambda>es.
     mk_SessionEventPage session_id es (page_cursor has_more es) has_more (safe_diagnostics diagnostics))"

text \<open>The first bound on a payload: what the page with empty payloads leaves.\<close>

definition first_payload_limit :: "int \<Rightarrow> (EventEnvelope \<times> str \<times> int) list \<Rightarrow> int" where
  "first_payload_limit empty_size selected =
     (if empty_size + sum_list (map (\<lambda>(_, _, n). min n history_event_payload_limit) selected) \<le> history_page_bytes_limit
      then history_event_payload_limit
      else if selected \<noteq> []
      then min (max 128 ((history_page_bytes_limit - empty_size) div int (length selected) - 1)) history_event_payload_limit
      else history_event_payload_limit)"

text \<open>The loop that lowers the bound while the page is too large.\<close>

function shrink_page ::
  "platform \<Rightarrow> (int \<Rightarrow> SessionEventPage res) \<Rightarrow> int \<Rightarrow> SessionEventPage \<Rightarrow> SessionEventPage res" where
  "shrink_page pl build payload_limit page =
     (case serialized_page_size pl page of
        Inl e \<Rightarrow> Inl e
      | Inr nbytes \<Rightarrow>
          if history_page_bytes_limit < nbytes \<and> 128 < payload_limit
          then (let next_limit = max 128 (payload_limit * history_page_bytes_limit div nbytes - 1) in
                case build next_limit of Inl e \<Rightarrow> Inl e | Inr page' \<Rightarrow> shrink_page pl build next_limit page')
          else if history_page_bytes_limit < nbytes then Inl SessionHistoryUnavailableError
          else Inr page)"
  by pat_completeness auto

lemma lowered_limit:
  assumes "history_page_bytes_limit < nbytes" "128 < payload_limit"
  shows "max 128 (payload_limit * history_page_bytes_limit div nbytes - 1) < payload_limit"
proof -
  have "payload_limit * history_page_bytes_limit \<le> payload_limit * nbytes" using assms by (intro mult_left_mono) auto
  then have "payload_limit * history_page_bytes_limit div nbytes \<le> payload_limit * nbytes div nbytes"
    using assms by (intro zdiv_mono1) (auto simp: history_page_bytes_limit_def)
  also have "\<dots> = payload_limit" using assms by (simp add: history_page_bytes_limit_def)
  finally show ?thesis using assms by simp
qed

termination shrink_page
  by (relation "measure (\<lambda>(_, _, payload_limit, _). nat payload_limit)") (use lowered_limit in \<open>auto simp: Let_def\<close>)

declare shrink_page.simps [simp del]

text \<open>\<open>_event_page\<close>.\<close>

definition event_page ::
  "platform \<Rightarrow> str \<Rightarrow> EventEnvelope list \<Rightarrow> int \<Rightarrow> nat \<Rightarrow> HistoryDiagnostic list \<Rightarrow> SessionEventPage res" where
  "event_page pl session_id events since limit diagnostics =
     (let eligible = beyond since events;
          chosen = take limit eligible;
          has_more = (length chosen < length eligible) in
      bindR (map_res (measured pl) chosen) (\<lambda>selected.
      bindR (mk_SessionEventPage session_id (map (\<lambda>e. e\<lparr>ev_payload := []\<rparr>) chosen) (page_cursor has_more chosen) has_more
               (safe_diagnostics diagnostics)) (\<lambda>empty_page.
      bindR (serialized_page_size pl empty_page) (\<lambda>empty_size.
      let payload_limit = first_payload_limit empty_size selected;
          build = page_of pl session_id selected has_more diagnostics in
      bindR (build payload_limit) (shrink_page pl build payload_limit)))))"

section \<open>Summaries\<close>

definition validate_canonical_result :: "SessionReadResult \<Rightarrow> session_exn + unit" where
  "validate_canonical_result r =
     (if sr_events r \<noteq> [] \<and> ev_sequence (hd (sr_events r)) \<noteq> 1
      then Inl (SessionFormatError (lit ''session record violates identity or sequence invariants'') 1 0)
      else Inr ())"

text \<open>\<open>_state_from_events\<close>: the state, and whether it is terminal.\<close>

definition history_state_step :: "EventEnvelope \<Rightarrow> RuntimeState option \<times> bool \<Rightarrow> RuntimeState option \<times> bool" where
  "history_state_step e st =
     (case st of (state, terminal) \<Rightarrow>
        if has_type APPROVAL_REQUEST e then (if terminal then state else Some WAITING_FOR_APPROVAL, terminal)
        else if has_type POLICY_DECISION e
        then (if state = Some WAITING_FOR_APPROVAL then Some RUNNING else state, terminal)
        else if is_end e
        then (case coerce_state (state_field e) of
                None \<Rightarrow> (None, False)
              | Some parsed \<Rightarrow> (Some parsed, parsed \<in> set terminal_states))
        else if is_start e \<and> \<not> terminal then (Some RUNNING, terminal)
        else (state, terminal))"

definition state_from_events :: "EventEnvelope list \<Rightarrow> RuntimeState option" where
  "state_from_events es = fst (fold history_state_step es (None, False))"

definition root_agent_id :: "EventEnvelope list \<Rightarrow> str option" where
  "root_agent_id es =
     map_option ev_agent_id (find (\<lambda>e. has_type AGENT_START e \<and> ev_parent_agent_id e = None) es)"

text \<open>\<open>_first_user_message\<close>: the text, or the code of a diagnostic.\<close>

definition first_user_message :: "EventEnvelope list \<Rightarrow> str option \<Rightarrow> string + BoundedText" where
  "first_user_message es agent_id =
     (case agent_id of
        None \<Rightarrow> Inl ''missing_root_agent''
      | Some agent \<Rightarrow>
          (case find (\<lambda>e. has_type USER_MESSAGE e \<and> ev_agent_id e = agent) es of
             None \<Rightarrow> Inl ''missing_first_user_message''
           | Some e \<Rightarrow>
               (case field_or_none (ev_payload e) ''text'' of
                  JStr s \<Rightarrow> (case bounded_text s of Inl _ \<Rightarrow> Inl ''missing_first_user_message'' | Inr b \<Rightarrow> Inr b)
                | _ \<Rightarrow> Inl ''missing_first_user_message'')))"

section \<open>The repository\<close>

text \<open>A directory entry as \<open>lstat\<close> shows it: whether it is a link, and whether it is a regular file
  (None when the call fails).\<close>

record dir_entry =
  de_name :: str
  de_symlink :: bool
  de_regular :: "bool option"

text \<open>The fixed directory: whether it exists (an error when a component is damaged), its entries, and
  the content of a session's file, as three looks see it: regular before the read, its bytes,
  and still regular after it.\<close>

record repository =
  rp_root :: "bool res"
  rp_entries :: "dir_entry list res"
  rp_regular :: "str \<Rightarrow> bool"
  rp_bytes :: "str \<Rightarrow> nat list option"
  rp_still_regular :: "str \<Rightarrow> bool"

record candidate =
  cd_session_id :: str
  cd_unreadable :: bool

definition path_for :: "repository \<Rightarrow> str \<Rightarrow> unit res" where
  "path_for rp session_id =
     (if \<not> history_id_ok session_id then Inl InvalidSessionHistoryIdError
      else (case rp_root rp of Inl _ \<Rightarrow> Inl SessionHistoryUnavailableError | Inr _ \<Rightarrow> Inr ()))"

definition jsonl_suffix :: str where "jsonl_suffix = lit ''.jsonl''"

text \<open>One entry of \<open>candidates\<close>.\<close>

definition candidate_of :: "dir_entry \<Rightarrow> candidate list" where
  "candidate_of d =
     (if take 8 (de_name d) \<noteq> lit ''session_'' \<or> take_last 6 (de_name d) \<noteq> jsonl_suffix then []
      else
        (let session_id = take (length (de_name d) - 6) (de_name d) in
         if de_symlink d \<or> \<not> history_id_ok session_id then []
         else (case de_regular d of
                 None \<Rightarrow> [\<lparr>cd_session_id = session_id, cd_unreadable = True\<rparr>]
               | Some False \<Rightarrow> []
               | Some True \<Rightarrow> [\<lparr>cd_session_id = session_id, cd_unreadable = False\<rparr>])))"

definition repository_candidates :: "repository \<Rightarrow> candidate list res" where
  "repository_candidates rp =
     (case rp_root rp of
        Inl _ \<Rightarrow> Inl SessionHistoryUnavailableError
      | Inr False \<Rightarrow> Inr []
      | Inr True \<Rightarrow>
          (case rp_entries rp of
             Inl _ \<Rightarrow> Inl SessionHistoryUnavailableError
           | Inr ds \<Rightarrow> Inr (concat (map candidate_of ds))))"

definition candidate_error :: session_exn where
  "candidate_error = SessionError (lit ''history candidate could not be read'')"

definition is_format_error :: "session_exn \<Rightarrow> bool" where
  "is_format_error e = (case e of SessionFormatError _ _ _ \<Rightarrow> True | _ \<Rightarrow> False)"

text \<open>\<open>read\<close>: a session error passes, any other exception becomes one.\<close>

definition repository_read :: "platform \<Rightarrow> repository \<Rightarrow> candidate \<Rightarrow> session_exn + SessionReadResult" where
  "repository_read pl rp c =
     (if cd_unreadable c \<or> \<not> rp_regular rp (cd_session_id c) then Inl candidate_error
      else
        (case read_session pl (Some (PlainStr (cd_session_id c))) (rp_bytes rp (cd_session_id c)) of
           Inl (Raised _) \<Rightarrow> Inl candidate_error
         | Inl e \<Rightarrow> Inl e
         | Inr r \<Rightarrow>
             (case validate_canonical_result r of
                Inl e \<Rightarrow> Inl e
              | Inr _ \<Rightarrow> if rp_still_regular rp (cd_session_id c) then Inr r else Inl candidate_error)))"

definition read_by_id :: "platform \<Rightarrow> repository \<Rightarrow> str \<Rightarrow> SessionReadResult res" where
  "read_by_id pl rp session_id =
     bindR (path_for rp session_id) (\<lambda>_.
     if \<not> rp_regular rp session_id then Inl SessionHistoryNotFoundError
     else
       (case repository_read pl rp \<lparr>cd_session_id = session_id, cd_unreadable = False\<rparr> of
          Inl _ \<Rightarrow> Inl SessionHistoryUnavailableError
        | Inr r \<Rightarrow> Inr r))"

section \<open>List cursors\<close>

text \<open>\<open>_ListCursorCache\<close>: the least recently used first.  The token is the secret source's.\<close>

type_synonym cursor_cache = "(str \<times> str list \<times> nat) list"

definition cache_issue :: "str \<Rightarrow> str list \<Rightarrow> nat \<Rightarrow> cursor_cache \<Rightarrow> cursor_cache" where
  "cache_issue token ids position c =
     (let c' = ddel c token @ [(token, ids, position)] in drop (length c' - cursor_cache_limit) c')"

definition cache_resolve :: "str \<Rightarrow> cursor_cache \<Rightarrow> cursor_cache \<times> (str list \<times> nat) res" where
  "cache_resolve token c =
     (case dget c token of
        None \<Rightarrow> (c, Inl InvalidSessionHistoryCursorError)
      | Some v \<Rightarrow> (ddel c token @ [(token, v)], Inr v))"

section \<open>The provider\<close>

text \<open>\<open>validate\<close> is the resume validator of the composition.\<close>

definition history_summary ::
  "(str \<Rightarrow> 'p res) \<Rightarrow> candidate \<Rightarrow> SessionReadResult option \<Rightarrow> HistoryDiagnostic list \<Rightarrow> SessionHistoryItem res" where
  "history_summary validate c result ds =
     (let events = (case result of None \<Rightarrow> [] | Some r \<Rightarrow> sr_events r);
          ds1 = (case result of
                   None \<Rightarrow> ds
                 | Some r \<Rightarrow> if sr_diagnostics r = [] then ds else append_diagnostic ds ''incomplete_tail'');
          first = (case result of None \<Rightarrow> None | Some r \<Rightarrow> Some (first_user_message events (root_agent_id events)));
          ds2 = (case first of Some (Inl code) \<Rightarrow> append_diagnostic ds1 code | _ \<Rightarrow> ds1);
          valid = (events \<noteq> [] \<and> is_ok (validate (cd_session_id c)));
          ds3 = (if events \<noteq> [] \<and> \<not> valid then append_diagnostic ds2 ''not_resumable'' else ds2) in
      SessionHistoryItem_post_init
        \<lparr>hi_session_id = cd_session_id c,
         hi_first_user_message = (case first of Some (Inr b) \<Rightarrow> Some b | _ \<Rightarrow> None),
         hi_created_at = (if events = [] then None else Some (ev_timestamp (hd events))),
         hi_updated_at = (if events = [] then None else Some (ev_timestamp (last events))),
         hi_last_sequence = (if events = [] then 0 else ev_sequence (last events)),
         hi_last_state = map_option runtime_state_str (state_from_events events),
         hi_resumable = valid, hi_diagnostics = safe_diagnostics ds3\<rparr>)"

definition contains_text :: "string \<Rightarrow> str \<Rightarrow> bool" where
  "contains_text k s = sublist (lit k) s"

text \<open>The diagnostics of a candidate that could not be read.\<close>

definition failure_code :: "session_exn \<Rightarrow> string" where
  "failure_code e =
     (case e of
        SessionFormatError m _ _ \<Rightarrow> if contains_text ''schema'' m then ''unsupported_schema'' else ''invalid_record''
      | _ \<Rightarrow> ''unreadable_candidate'')"

definition discover_one ::
  "platform \<Rightarrow> repository \<Rightarrow> (str \<Rightarrow> 'p res) \<Rightarrow> candidate \<Rightarrow> SessionHistoryItem res" where
  "discover_one pl rp validate c =
     (if cd_unreadable c then history_summary validate c None [history_diagnostic ''unreadable_candidate'']
      else
        (case repository_read pl rp c of
           Inl e \<Rightarrow> history_summary validate c None [history_diagnostic (failure_code e)]
         | Inr r \<Rightarrow> history_summary validate c (Some r) []))"

definition recency :: "SessionHistoryItem \<Rightarrow> bool \<times> str \<times> str" where
  "recency x =
     (hi_updated_at x \<noteq> None, case hi_updated_at x of None \<Rightarrow> [] | Some t \<Rightarrow> t, hi_session_id x)"

text \<open>\<open>sorted(..., reverse=True)\<close> keeps the order of equal keys.\<close>

definition discover_summaries :: "platform \<Rightarrow> repository \<Rightarrow> (str \<Rightarrow> 'p res) \<Rightarrow> SessionHistoryItem list res" where
  "discover_summaries pl rp validate =
     bindR (repository_candidates rp) (\<lambda>cs.
     bindR (map_res (discover_one pl rp validate) cs) (\<lambda>items. Inr (rev (sort_key recency (rev items)))))"

definition validate_history_limit :: "int \<Rightarrow> int \<Rightarrow> unit res" where
  "validate_history_limit limit maximum = guardR (1 \<le> limit \<and> limit \<le> maximum) InvalidSessionHistoryLimitError"

definition validate_list_cursor :: "str option \<Rightarrow> unit res" where
  "validate_list_cursor cursor =
     guardR (case cursor of None \<Rightarrow> True | Some s \<Rightarrow> cursor_token_ok s) InvalidSessionHistoryCursorError"

definition validate_since :: "int \<Rightarrow> unit res" where
  "validate_since since = guardR (0 \<le> since \<and> since \<le> history_sequence_limit) InvalidSessionHistoryCursorError"

text \<open>The items of a snapshot that still exist, in its order.\<close>

definition snapshot_items :: "SessionHistoryItem list \<Rightarrow> str list \<Rightarrow> SessionHistoryItem list" where
  "snapshot_items discovered ids =
     concat (map (\<lambda>i. case dget (rev (map (\<lambda>x. (hi_session_id x, x)) discovered)) i of None \<Rightarrow> [] | Some x \<Rightarrow> [x]) ids)"

text \<open>The page and the cursor for the rest.\<close>

definition list_page ::
  "str \<Rightarrow> SessionHistoryItem list \<Rightarrow> nat \<Rightarrow> nat \<Rightarrow> cursor_cache \<Rightarrow> cursor_cache \<times> SessionHistoryPage res" where
  "list_page token ordered start limit c =
     (let items = take limit (drop start ordered);
          stop = start + length items in
      if stop < length ordered
      then (cache_issue token (map hi_session_id ordered) stop c, mk_SessionHistoryPage items (Some token))
      else (c, mk_SessionHistoryPage items None))"

definition list_sessions ::
  "platform \<Rightarrow> repository \<Rightarrow> (str \<Rightarrow> 'p res) \<Rightarrow> str \<Rightarrow> str option \<Rightarrow> int \<Rightarrow> cursor_cache
     \<Rightarrow> cursor_cache \<times> SessionHistoryPage res" where
  "list_sessions pl rp validate token cursor limit c =
     (case bindR (validate_history_limit limit history_list_limit) (\<lambda>_. bindR (validate_list_cursor cursor) (\<lambda>_.
             discover_summaries pl rp validate)) of
        Inl e \<Rightarrow> (c, Inl e)
      | Inr discovered \<Rightarrow>
          (case cursor of
             None \<Rightarrow> list_page token discovered 0 (nat limit) c
           | Some t \<Rightarrow>
               (case cache_resolve t c of
                  (c', Inl e) \<Rightarrow> (c', Inl e)
                | (c', Inr (ids, start)) \<Rightarrow> list_page token (snapshot_items discovered ids) start (nat limit) c')))"

text \<open>Only the provider's own errors leave it.\<close>

definition or_unavailable :: "'a res \<Rightarrow> 'a res" where
  "or_unavailable r =
     (case r of Inl e \<Rightarrow> Inl (if e \<in> set provider_errors then e else SessionHistoryUnavailableError) | Inr x \<Rightarrow> Inr x)"

definition read_session_events ::
  "platform \<Rightarrow> repository \<Rightarrow> str \<Rightarrow> int \<Rightarrow> int \<Rightarrow> SessionEventPage res" where
  "read_session_events pl rp session_id since limit =
     bindR (path_for rp session_id) (\<lambda>_.
     bindR (validate_since since) (\<lambda>_.
     bindR (validate_history_limit limit history_event_limit) (\<lambda>_.
     bindR (read_by_id pl rp session_id) (\<lambda>r.
     if sr_events r = [] then Inl SessionHistoryUnavailableError
     else or_unavailable
            (event_page pl session_id (sr_events r) since (nat limit)
               (map (\<lambda>_. history_diagnostic ''incomplete_tail'') (sr_diagnostics r)))))))"

text \<open>\<open>create_session\<close>: \<open>factory\<close> is the backend factory of the composition.\<close>

definition create_session ::
  "platform \<Rightarrow> repository \<Rightarrow> (str \<Rightarrow> 'p res) \<Rightarrow> (str option \<Rightarrow> 'b res) \<Rightarrow> str option \<Rightarrow> 'b res" where
  "create_session pl rp validate factory resume =
     (case resume of
        None \<Rightarrow> (case rp_root rp of Inl _ \<Rightarrow> Inl SessionHistoryUnavailableError | Inr _ \<Rightarrow> factory None)
      | Some session_id \<Rightarrow>
          (case read_by_id pl rp session_id of
             Inl e \<Rightarrow> Inl (if e = InvalidSessionHistoryIdError \<or> e = SessionHistoryNotFoundError then e
                         else SessionResumeUnavailableError)
           | Inr r \<Rightarrow>
               if sr_events r = [] then Inl SessionResumeUnavailableError
               else
                 (case bindR (validate session_id) (\<lambda>_. factory (Some session_id)) of
                    Inl e \<Rightarrow> Inl (if e \<in> set provider_errors then e else SessionResumeUnavailableError)
                  | Inr b \<Rightarrow> Inr b)))"

end
