(* ===== verification/HistoryFacts.thy ===== *)
theory HistoryFacts
  imports History DumpFacts SessionFacts
begin

text \<open>
  The sizes of event pages: what a page takes besides its payloads, the previews that always fit,
  and the loop that lowers the bound on the payloads until the page fits.
\<close>

section \<open>Sizes\<close>

definition ascii_size :: "platform \<Rightarrow> jobj \<Rightarrow> nat" where
  "ascii_size pl d = utf8_len (dumps_ascii (pl_frepr pl) (JObj d))"

definition envelope_size :: "platform \<Rightarrow> EventEnvelope \<Rightarrow> nat" where
  "envelope_size pl e = ascii_size pl (EventEnvelope_to_dict e)"

definition erased :: "EventEnvelope \<Rightarrow> EventEnvelope" where
  "erased e = e\<lparr>ev_payload := []\<rparr>"

lemma encoded_size_ascii: "encoded_size pl d = int (ascii_size pl d)"
  by (simp add: encoded_size_def ascii_size_def)

lemma ascii_size_obj:
  "ascii_size pl d =
     2 + sum_list (map (\<lambda>p. quoted_len escape_ascii (fst p) + 2 + utf8_len (dumps_with escape_ascii (pl_frepr pl) (snd p))) d) +
     2 * (length d - 1)"
  by (simp only: ascii_size_def dumps_ascii_def dumps_len)

lemma envelope_size_payload:
  "envelope_size pl (e\<lparr>ev_payload := p\<rparr>) + 2 = envelope_size pl (erased e) + ascii_size pl p"
proof -
  have "ascii_size pl p = utf8_len (dumps_with escape_ascii (pl_frepr pl) (JObj p))"
    by (simp only: ascii_size_def dumps_ascii_def)
  moreover have "utf8_len (dumps_with escape_ascii (pl_frepr pl) (JObj [])) = 2"
    by (simp only: dumps_len) simp
  ultimately show ?thesis
    unfolding envelope_size_def ascii_size_obj [of pl "EventEnvelope_to_dict _"]
    unfolding EventEnvelope_to_dict_def erased_def
    by (simp del: dumps_with.simps(7))
qed

definition page_size :: "platform \<Rightarrow> SessionEventPage \<Rightarrow> nat" where
  "page_size pl p = ascii_size pl (SessionEventPage_to_dict p)"

lemma page_size_events:
  "page_size pl p =
     page_size pl (p\<lparr>ep_events := []\<rparr>) + sum_list (map (envelope_size pl) (ep_events p)) + 2 * (length (ep_events p) - 1)"
  unfolding page_size_def ascii_size_obj
  by (simp add: SessionEventPage_to_dict_def dumps_len(2) del: dumps_with.simps)
    (simp add: envelope_size_def [abs_def] ascii_size_def dumps_ascii_def comp_def del: dumps_with.simps)

lemma dec_length: "n < 10 ^ k \<Longrightarrow> 0 < k \<Longrightarrow> length (dec n) \<le> k"
proof (induction n arbitrary: k rule: dec.induct)
  case (1 n)
  show ?case
  proof (cases "n < 10")
    case False
    then obtain j where j: "k = Suc j" "0 < j" using 1(2,3) by (cases k; cases "k - 1") auto
    have "n div 10 < 10 ^ j" using 1(2) j by (simp add: less_mult_imp_div_less)
    then show ?thesis using False 1(1) [of j] j by (subst dec.simps) simp
  qed (use 1 in \<open>simp add: dec.simps\<close>)
qed

lemma utf8_len_dec_int: "utf8_len (dec_int i) = length (dec_int i)"
  by (intro utf8_len_ascii) (auto simp: list_all_iff dec_int_def lit_def dest!: dec_digits)

section \<open>Pages that can be written\<close>

lemma serialized_page_size_ascii:
  assumes "writable (pl_frepr pl) (JObj (SessionEventPage_to_dict p))"
  shows "serialized_page_size pl p = Inr (int (page_size pl p))"
proof -
  let ?v = "JObj (SessionEventPage_to_dict p)"
  have "canonical_json (pl_frepr pl) ?v = Inr (render (pl_frepr pl) (sort_json ?v))"
    using writable_finite [OF assms] by (simp only: canonical_json_Inr)
  moreover have "encodable (render (pl_frepr pl) (sort_json ?v))" "encodable (dumps_plain (pl_frepr pl) ?v)"
    using assms by (simp_all only: encodable_render_writable writable_sort encodable_dumps_plain)
  moreover have "utf8_len (render (pl_frepr pl) (sort_json ?v)) \<le> page_size pl p"
    "utf8_len (dumps_plain (pl_frepr pl) ?v) \<le> page_size pl p"
    using canonical_shorter [of "pl_frepr pl" ?v] plain_shorter [of "pl_frepr pl" ?v]
    by (simp_all add: page_size_def ascii_size_def)
  ultimately show ?thesis
    by (simp add: serialized_page_size_def Let_def utf8_encode_def page_size_def ascii_size_def
        del: render.simps dumps_with.simps sort_json.simps flip: utf8_len_def)
qed

lemma writable_envelope_erased:
  "writable frepr (JObj (EventEnvelope_to_dict (e\<lparr>ev_payload := p\<rparr>))) \<longleftrightarrow>
     writable frepr (JObj (EventEnvelope_to_dict (erased e))) \<and> writable frepr (JObj p)"
  by (auto simp: EventEnvelope_to_dict_def erased_def)

section \<open>Previews\<close>

lemma preview_zero_size:
  "ascii_size pl (preview t n limit 0) = 96 + length (dec_int n) + length (dec_int limit)"
  by (simp add: ascii_size_obj preview_def Let_def dumps_len utf8_len_dec_int utf8_len_quoted quoted_len_def lit_def
      escape_ascii_def escape_char_def utf8_len_Cons length_enc_ascii)

lemma writable_preview: "encodable t \<Longrightarrow> writable frepr (JObj (preview t n limit k))"
proof -
  assume "encodable t"
  then have "encodable (take i t)" "encodable (take_last i t)" for i
    using encodable_prefix [OF take_is_prefix] encodable_suffix [OF suffix_drop] by (auto simp: take_last_def)
  then show ?thesis by (simp add: preview_def Let_def)
qed

lemma history_payload_fits:
  assumes "encodable t" "128 \<le> limit" "limit \<le> history_event_payload_limit" "length (dec_int n) \<le> 20"
    and "writable (pl_frepr pl) (JObj payload)"
  shows "\<exists>p. history_payload pl payload limit t n = Inr p \<and> int (ascii_size pl p) \<le> limit \<and>
    writable (pl_frepr pl) (JObj p) \<and> (p = payload \<or> (\<exists>k. p = preview t n limit k))"
proof (cases "n \<le> limit \<and> encoded_size pl payload \<le> limit")
  case True
  then show ?thesis using assms(5) by (simp add: history_payload_def encoded_size_ascii)
next
  case False
  let ?c = "preview t n limit" and ?fits = "\<lambda>c. encoded_size pl c \<le> limit"
  let ?best = "search_preview ?c ?fits 0 (int (length t)) (?c 0)"
  have "length (dec (nat limit)) \<le> 5"
    using assms(3) by (intro dec_length) (auto simp: history_event_payload_limit_def)
  then have "?fits (?c 0)"
    using assms(2,4) by (simp add: encoded_size_ascii preview_zero_size dec_int_def)
  then have best: "?fits ?best" "\<exists>k. ?best = ?c k"
    using search_preview_cases [of ?c ?fits 0 "int (length t)" "?c 0"] by metis+
  then have "history_payload pl payload limit t n = Inr ?best"
    unfolding history_payload_def if_not_P [OF False] by (simp add: Let_def)
  then show ?thesis using best writable_preview [OF assms(1)] by (force simp: encoded_size_ascii)
qed

section \<open>Building a page\<close>

lemma map_res_all2:
  "\<forall>x \<in> set xs. \<exists>y. f x = Inr y \<and> P x y \<Longrightarrow> \<exists>ys. map_res f xs = Inr ys \<and> list_all2 P xs ys"
proof (induction xs)
  case (Cons x xs)
  then obtain y ys where "f x = Inr y" "P x y" "map_res f xs = Inr ys" "list_all2 P xs ys" by auto
  then show ?case by (auto simp: bindR_def)
qed simp

text \<open>An envelope a page has room for: it can be written, without its payload it takes at most
  40000 bytes, and the length of its payload has at most twenty digits.\<close>

definition showable :: "platform \<Rightarrow> EventEnvelope \<Rightarrow> bool" where
  "showable pl e \<longleftrightarrow>
     writable (pl_frepr pl) (JObj (EventEnvelope_to_dict e)) \<and> envelope_size pl (erased e) \<le> 40000 \<and>
     length (dec_int (payload_size pl (ev_payload e))) \<le> 20 \<and>
     0 \<le> ev_sequence e \<and> ev_sequence e \<le> history_sequence_limit"

text \<open>How a page shows an envelope: whole, but for a payload that may be a preview.\<close>

definition fits :: "platform \<Rightarrow> int \<Rightarrow> EventEnvelope \<Rightarrow> EventEnvelope \<Rightarrow> bool" where
  "fits pl limit e e' \<longleftrightarrow>
     erased e' = erased e \<and> int (ascii_size pl (ev_payload e')) \<le> limit \<and> writable (pl_frepr pl) (JObj (ev_payload e'))"

definition shown :: "platform \<Rightarrow> int \<Rightarrow> EventEnvelope \<Rightarrow> EventEnvelope \<Rightarrow> bool" where
  "shown pl limit e e' \<longleftrightarrow>
     fits pl limit e e' \<and>
     (e' = e \<or> (\<exists>l k. ev_payload e' = preview (canonical_text pl (ev_payload e)) (payload_size pl (ev_payload e)) l k))"

definition measure_of :: "platform \<Rightarrow> EventEnvelope \<Rightarrow> EventEnvelope \<times> str \<times> int" where
  "measure_of pl e = (e, canonical_text pl (ev_payload e), payload_size pl (ev_payload e))"

lemma own_payload: "e\<lparr>ev_payload := ev_payload e\<rparr> = e"
  by simp

lemma erased_fields [simp]: "ev_sequence (erased e) = ev_sequence e"
  by (simp add: erased_def)

lemma erased_twice [simp]: "erased (e\<lparr>ev_payload := p\<rparr>) = erased e"
  by (simp add: erased_def)

lemma writable_parts:
  "writable frepr (JObj (EventEnvelope_to_dict e)) \<longleftrightarrow>
     writable frepr (JObj (EventEnvelope_to_dict (erased e))) \<and> writable frepr (JObj (ev_payload e))"
  using writable_envelope_erased [where e = e and p = "ev_payload e"] by (simp only: own_payload)

lemma showable_payload: "showable pl e \<Longrightarrow> writable (pl_frepr pl) (JObj (ev_payload e))"
  unfolding showable_def by (drule conjunct1, drule writable_parts [THEN iffD1], erule conjunct2)

lemma showable_text:
  assumes "showable pl e"
  shows "canonical_json (pl_frepr pl) (JObj (ev_payload e)) = Inr (canonical_text pl (ev_payload e))"
    "encodable (canonical_text pl (ev_payload e))"
proof -
  note w = showable_payload [OF assms]
  show "canonical_json (pl_frepr pl) (JObj (ev_payload e)) = Inr (canonical_text pl (ev_payload e))"
    using writable_finite [OF w] by (simp only: canonical_json_Inr canonical_text_def)
  show "encodable (canonical_text pl (ev_payload e))"
    unfolding canonical_text_def by (intro encodable_render_writable writable_sort w)
qed

lemma measured_showable: "showable pl e \<Longrightarrow> measured pl e = Inr (measure_of pl e)"
  using showable_text [of pl e]
  by (simp add: measured_def measure_of_def utf8_encode_def payload_size_def utf8_len_def)

lemma project_shown:
  assumes "showable pl e" "128 \<le> limit" "limit \<le> history_event_payload_limit"
  shows "\<exists>e'. project_event pl limit (measure_of pl e) = Inr e' \<and> shown pl limit e e'"
proof -
  note w = showable_payload [OF assms(1)]
  have n: "length (dec_int (payload_size pl (ev_payload e))) \<le> 20" using assms(1) by (simp add: showable_def)
  obtain p where p: "history_payload pl (ev_payload e) limit (canonical_text pl (ev_payload e)) (payload_size pl (ev_payload e)) = Inr p"
    "int (ascii_size pl p) \<le> limit" "writable (pl_frepr pl) (JObj p)"
    "p = ev_payload e \<or> (\<exists>k. p = preview (canonical_text pl (ev_payload e)) (payload_size pl (ev_payload e)) limit k)"
    using history_payload_fits [OF showable_text(2) [OF assms(1)] assms(2,3) n w] by blast
  have "project_event pl limit (measure_of pl e) = Inr (e\<lparr>ev_payload := p\<rparr>)"
    using p(1) by (simp add: project_event_def measure_of_def)
  moreover have "shown pl limit e (e\<lparr>ev_payload := p\<rparr>)"
    unfolding shown_def fits_def using p(2-4) by (auto simp del: writable.simps)
  ultimately show ?thesis by blast
qed

lemma erased_sequence: "erased e' = erased e \<Longrightarrow> ev_sequence e' = ev_sequence e"
  by (metis erased_fields)

lemma fits_erased: "list_all2 (fits pl limit) es es' \<Longrightarrow> map erased es' = map erased es"
  by (induction rule: list_all2_induct) (simp_all add: fits_def)

lemma shown_fits: "list_all2 (shown pl limit) es es' \<Longrightarrow> list_all2 (fits pl limit) es es'"
  by (erule list_all2_mono) (simp add: shown_def)

lemma page_cursor_erased:
  assumes "map erased es' = map erased es"
  shows "page_cursor has_more es' = page_cursor has_more es"
proof (cases "es = []")
  case False
  then have ne: "es' \<noteq> []" using assms by auto
  have "erased (last es') = erased (last es)" using assms False ne by (metis last_map)
  from erased_sequence [OF this] show ?thesis using False ne by (simp add: page_cursor_def)
qed (use assms in \<open>simp add: page_cursor_def\<close>)

lemma mk_SessionEventPage_ok:
  assumes "history_id_ok sid" "length es \<le> 200" "\<forall>e \<in> set es. 0 \<le> ev_sequence e" "has_more \<longrightarrow> es \<noteq> []" "length ds \<le> 8"
  shows "mk_SessionEventPage sid es (page_cursor has_more es) has_more ds =
    Inr \<lparr>ep_session_id = sid, ep_events = es, ep_next_cursor = page_cursor has_more es, ep_has_more = has_more, ep_diagnostics = ds\<rparr>"
proof -
  have c: "case page_cursor has_more es of None \<Rightarrow> True | Some n \<Rightarrow> 0 \<le> n"
    "\<not> (has_more \<and> page_cursor has_more es = None)" "\<not> (\<not> has_more \<and> page_cursor has_more es \<noteq> None)"
    using assms(3,4) by (simp_all add: page_cursor_def)
  show ?thesis
    using assms(1,2,5) c by (simp only: mk_SessionEventPage_def validate_history_session_id_def guardR_def if_True diagnostic_tuple_def bindR_simps simp_thms)
qed

lemma page_of_ok:
  assumes "\<forall>e \<in> set es. showable pl e" "128 \<le> limit" "limit \<le> history_event_payload_limit"
    and "history_id_ok sid" "length es \<le> 200" "has_more \<longrightarrow> es \<noteq> []" "length (safe_diagnostics ds) \<le> 8"
  shows "\<exists>es'. page_of pl sid (map (measure_of pl) es) has_more ds limit =
      Inr \<lparr>ep_session_id = sid, ep_events = es', ep_next_cursor = page_cursor has_more es, ep_has_more = has_more,
           ep_diagnostics = safe_diagnostics ds\<rparr> \<and> list_all2 (shown pl limit) es es'"
proof -
  have "\<forall>x \<in> set (map (measure_of pl) es). \<exists>y. project_event pl limit x = Inr y \<and> shown pl limit (fst x) y"
    using project_shown [OF _ assms(2,3)] assms(1) by (auto simp: measure_of_def)
  from map_res_all2 [OF this] obtain es' where es': "map_res (project_event pl limit) (map (measure_of pl) es) = Inr es'"
    "list_all2 (shown pl limit) es es'" by (auto simp: list_all2_map1 measure_of_def)
  note same = fits_erased [OF shown_fits [OF es'(2)]]
  have seqs: "\<forall>e \<in> set es'. 0 \<le> ev_sequence e"
  proof
    fix e assume "e \<in> set es'"
    then have "erased e \<in> set (map erased es)" using same by (metis image_eqI list.set_map)
    then obtain x where x: "x \<in> set es" "erased e = erased x" by auto
    have "0 \<le> ev_sequence x" using assms(1) x(1) by (simp add: showable_def)
    then show "0 \<le> ev_sequence e" using erased_sequence [OF x(2)] by simp
  qed
  have ne: "has_more \<longrightarrow> es' \<noteq> []" using assms(6) es'(2) by auto
  have "length es' \<le> 200" using assms(5) es'(2) by (simp add: list_all2_lengthD [symmetric])
  from mk_SessionEventPage_ok [OF assms(4) this seqs ne assms(7)] show ?thesis
    unfolding page_of_def es'(1) bindR_simps page_cursor_erased [OF same] using es'(2) by blast
qed

lemma page_sum_bound:
  assumes "list_all2 (fits pl limit) es es'" "\<forall>e \<in> set es. showable pl e" "0 \<le> limit"
  shows "sum_list (map (envelope_size pl) es') \<le> (40000 + nat limit) * length es"
  using assms(1,2)
proof (induction rule: list_all2_induct)
  case (Cons e es e' es')
  have "envelope_size pl e' + 2 = envelope_size pl (erased e) + ascii_size pl (ev_payload e')"
    using envelope_size_payload [where e = e' and p = "ev_payload e'" and pl = pl] Cons.hyps
    by (simp add: fits_def)
  moreover have "ascii_size pl (ev_payload e') \<le> nat limit" using Cons.hyps assms(3) by (auto simp: fits_def le_nat_iff)
  ultimately show ?case using Cons by (simp add: showable_def)
qed simp

section \<open>What a page takes besides its events\<close>

lemma quoted_id: "history_id_ok sid \<Longrightarrow> quoted_len escape_ascii sid \<le> 130 \<and> encodable sid"
proof -
  assume ok: "history_id_ok sid"
  have c: "list_all (\<lambda>c. history_id_char c) sid"
  proof -
    have "list_all history_id_char (take 8 sid)"
      using ok by (simp add: history_id_ok_def history_id_char_def lit_def)
    moreover have "list_all history_id_char (drop 8 sid)" using ok by (simp add: history_id_ok_def)
    ultimately show ?thesis by (metis append_take_drop_id list_all_append)
  qed
  have "history_id_char c \<Longrightarrow> utf8_len (escape_ascii c) = 1" for c
    by (auto simp: history_id_char_def escape_ascii_def escape_char_def utf8_len_Cons length_enc_ascii)
  then have "sum_list (map (\<lambda>c. utf8_len (escape_ascii c)) sid) = length sid" using c
    by (induction sid) auto
  moreover have "encodable sid" using c
    by (intro encodable_ascii) (auto simp: list_all_iff history_id_char_def)
  ultimately show ?thesis using ok by (simp add: quoted_len_def history_id_ok_def)
qed

definition tail_diagnostics :: "HistoryDiagnostic list \<Rightarrow> bool" where
  "tail_diagnostics ds \<longleftrightarrow> ds = [] \<or> ds = [history_diagnostic ''incomplete_tail'']"

lemma safe_tail: "tail_diagnostics ds \<Longrightarrow> safe_diagnostics ds = ds"
  by (auto simp: tail_diagnostics_def safe_diagnostics_def history_max_diagnostics_def)

lemma tail_diagnostic_len:
  "utf8_len (dumps_with escape_ascii frepr (JObj (HistoryDiagnostic_to_dict (history_diagnostic ''incomplete_tail'')))) \<le> 120"
  by (simp add: HistoryDiagnostic_to_dict_def history_diagnostic_def diagnostic_messages_def lit_def utf8_len_Cons
      length_enc_ascii quoted_def escape_ascii_def escape_char_def)

lemma frame_size:
  assumes "history_id_ok sid" "tail_diagnostics ds" "\<forall>n. c = Some n \<longrightarrow> length (dec_int n) \<le> 40000"
  shows "page_size pl \<lparr>ep_session_id = sid, ep_events = [], ep_next_cursor = c, ep_has_more = b, ep_diagnostics = ds\<rparr> \<le> 40400"
proof -
  have "utf8_len (dumps_with escape_ascii (pl_frepr pl) (case c of None \<Rightarrow> JNull | Some n \<Rightarrow> JInt n)) \<le> 40000"
    using assms(3) by (cases c) (simp_all add: utf8_len_dec_int lit_def utf8_len_Cons length_enc_ascii)
  moreover have "utf8_len (dumps_with escape_ascii (pl_frepr pl) (JBool b)) \<le> 5"
    by (simp add: lit_def utf8_len_Cons length_enc_ascii)
  moreover have "utf8_len (dumps_with escape_ascii (pl_frepr pl) (JArr (map (JObj \<circ> HistoryDiagnostic_to_dict) ds))) \<le> 122"
    using assms(2) tail_diagnostic_len [of "pl_frepr pl"] unfolding dumps_len(2)
    by (auto simp: tail_diagnostics_def comp_def simp del: dumps_with.simps)
  moreover have "utf8_len (dumps_with escape_ascii (pl_frepr pl) (JArr [])) = 2" unfolding dumps_len by simp
  moreover have "quoted_len escape_ascii (lit k) = length k + 2"
    if "k \<in> {''session_id'', ''events'', ''next_cursor'', ''has_more'', ''diagnostics''}" for k
    using that by (auto simp: quoted_len_def lit_def escape_ascii_def escape_char_def utf8_len_Cons length_enc_ascii)
  ultimately show ?thesis
    using quoted_id [OF assms(1)] unfolding page_size_def ascii_size_obj
    by (simp add: SessionEventPage_to_dict_def dumps_len(1) del: dumps_with.simps)
qed

section \<open>The loop\<close>

lemma shrink_page_fits:
  assumes build: "\<And>l. 128 \<le> l \<Longrightarrow> l \<le> cap \<Longrightarrow> \<exists>p. build l = Inr p \<and> P l p"
    and sizes: "\<And>l p. P l p \<Longrightarrow> serialized_page_size pl p = Inr (f p)" "\<And>p. P 128 p \<Longrightarrow> f p \<le> history_page_bytes_limit"
    and start: "128 \<le> l" "l \<le> cap" "P l p"
  shows "\<exists>l' p'. shrink_page pl build l p = Inr p' \<and> P l' p' \<and> 128 \<le> l' \<and> l' \<le> cap \<and> f p' \<le> history_page_bytes_limit"
  using start
proof (induction "nat l" arbitrary: l p rule: less_induct)
  case less
  show ?case
  proof (cases "f p \<le> history_page_bytes_limit")
    case True
    then have "shrink_page pl build l p = Inr p" by (subst shrink_page.simps) (simp add: sizes(1) [OF less.prems(3)])
    then show ?thesis using True less.prems by blast
  next
    case False
    then have l: "128 < l" using less.prems sizes(2) by (cases "l = 128") auto
    let ?next = "max 128 (l * history_page_bytes_limit div f p - 1)"
    have next_l: "?next < l" using lowered_limit [of "f p" l] False l by simp
    then obtain p' where p': "build ?next = Inr p'" "P ?next p'" using build [of ?next] less.prems by auto
    have "shrink_page pl build l p = shrink_page pl build ?next p'"
      using False l p'(1) by (subst shrink_page.simps) (simp add: sizes(1) [OF less.prems(3)] Let_def)
    then show ?thesis using less.hyps [of ?next p'] p'(2) next_l less.prems by auto
  qed
qed

lemma shown_mono: "shown pl l e e' \<Longrightarrow> l \<le> m \<Longrightarrow> shown pl m e e'"
  by (auto simp: shown_def fits_def)

lemma first_payload_limit_range: "128 \<le> first_payload_limit n xs \<and> first_payload_limit n xs \<le> history_event_payload_limit"
  by (simp add: first_payload_limit_def history_event_payload_limit_def)

text \<open>A page of showable envelopes can be written, and with the least bound on payloads it fits.\<close>

lemma fits_page_writable:
  assumes "list_all2 (fits pl limit) es es'" "\<forall>e \<in> set es. showable pl e"
    and "history_id_ok sid" "tail_diagnostics ds"
  shows "writable (pl_frepr pl) (JObj (SessionEventPage_to_dict
    \<lparr>ep_session_id = sid, ep_events = es', ep_next_cursor = page_cursor b es, ep_has_more = b, ep_diagnostics = ds\<rparr>))"
proof -
  have "writable (pl_frepr pl) (JObj (EventEnvelope_to_dict e'))" if "e' \<in> set es'" for e'
  proof -
    obtain e where e: "e \<in> set es" "fits pl limit e e'"
      using assms(1) \<open>e' \<in> set es'\<close> by (metis in_set_conv_nth list_all2_conv_all_nth)
    then have "writable (pl_frepr pl) (JObj (EventEnvelope_to_dict (erased e)))"
      using assms(2) unfolding showable_def by (blast dest: writable_parts [THEN iffD1])
    then show ?thesis using e(2) unfolding fits_def by (intro writable_parts [THEN iffD2]) (simp only: simp_thms)
  qed
  moreover have "encodable sid" using quoted_id [OF assms(3)] by simp
  moreover have "\<forall>d \<in> set ds. writable (pl_frepr pl) (JObj (HistoryDiagnostic_to_dict d))"
    using assms(4) by (auto simp: tail_diagnostics_def HistoryDiagnostic_to_dict_def history_diagnostic_def diagnostic_messages_def)
  moreover have "writable (pl_frepr pl) (case page_cursor b es of None \<Rightarrow> JNull | Some n \<Rightarrow> JInt n)"
    by (simp split: option.split)
  ultimately show ?thesis
    unfolding SessionEventPage_to_dict_def by (simp add: list_all_iff)
qed

lemma fits_page:
  assumes "list_all2 (fits pl limit) es es'" "\<forall>e \<in> set es. showable pl e" "128 \<le> limit" "length es \<le> 200"
    and "history_id_ok sid" "tail_diagnostics ds"
    and p: "p = \<lparr>ep_session_id = sid, ep_events = es', ep_next_cursor = page_cursor b es, ep_has_more = b, ep_diagnostics = ds\<rparr>"
  shows "serialized_page_size pl p = Inr (int (page_size pl p))"
    and "limit = 128 \<Longrightarrow> int (page_size pl p) \<le> history_page_bytes_limit"
proof -
  show "serialized_page_size pl p = Inr (int (page_size pl p))"
    unfolding p by (rule serialized_page_size_ascii) (rule fits_page_writable [OF assms(1,2,5,6)])
  assume limit: "limit = 128"
  have "\<forall>n. page_cursor b es = Some n \<longrightarrow> length (dec_int n) \<le> 40000"
  proof (intro allI impI)
    fix n assume "page_cursor b es = Some n"
    then have "es \<noteq> []" "n = ev_sequence (last es)" by (auto simp: page_cursor_def split: if_splits)
    then have "envelope_size pl (erased (last es)) \<le> 40000" "n = ev_sequence (erased (last es))"
      using assms(2) by (auto simp: showable_def)
    moreover have "length (dec_int (ev_sequence e)) \<le> envelope_size pl e" for e
      unfolding envelope_size_def ascii_size_obj by (simp add: EventEnvelope_to_dict_def utf8_len_dec_int)
    ultimately show "length (dec_int n) \<le> 40000" by (metis le_trans)
  qed
  from frame_size [OF assms(5,6) this, of pl b]
  have "page_size pl (p\<lparr>ep_events := []\<rparr>) \<le> 40400" by (simp add: p)
  moreover have "sum_list (map (envelope_size pl) es') \<le> 40128 * 200"
  proof -
    have "sum_list (map (envelope_size pl) es') \<le> 40128 * length es"
      using page_sum_bound [OF assms(1,2)] limit by simp
    also have "\<dots> \<le> 40128 * 200" using assms(4) by simp
    finally show ?thesis .
  qed
  moreover have "length es' \<le> 200" using assms(1,4) by (simp add: list_all2_lengthD [symmetric])
  ultimately show "int (page_size pl p) \<le> history_page_bytes_limit"
    unfolding page_size_events [of pl p] by (simp add: p history_page_bytes_limit_def)
qed

section \<open>A page of history\<close>

lemma erased_erased [simp]: "erased (erased e) = erased e"
  by (simp add: erased_def)

lemma erased_map [simp]: "erased \<circ> erased = erased"
  by (simp add: comp_def)

lemma page_cursor_map_erased: "page_cursor b (map erased es) = page_cursor b es"
  by (rule page_cursor_erased) simp

lemma fits_erasing: "fits pl 128 e (erased e)"
  by (simp add: fits_def erased_def ascii_size_def dumps_ascii_def utf8_len_Cons length_enc_ascii)

lemma measured_all: "\<forall>e \<in> set es. showable pl e \<Longrightarrow> map_res (measured pl) es = Inr (map (measure_of pl) es)"
  by (induction es) (simp_all add: measured_showable)

lemma event_page_shows:
  fixes events since limit
  defines "chosen \<equiv> take limit (beyond since events)" and "rest \<equiv> limit < length (beyond since events)"
  assumes "\<forall>e \<in> set events. showable pl e" "history_id_ok sid" "1 \<le> limit" "limit \<le> 200" "tail_diagnostics ds"
  shows "\<exists>es'. event_page pl sid events since limit ds =
      Inr \<lparr>ep_session_id = sid, ep_events = es', ep_next_cursor = page_cursor rest chosen, ep_has_more = rest,
           ep_diagnostics = ds\<rparr> \<and> list_all2 (shown pl history_event_payload_limit) chosen es'"
proof -
  have all: "\<forall>e \<in> set chosen. showable pl e"
    using assms(3) set_take_subset by (fastforce simp: chosen_def beyond_def)
  have len: "length chosen \<le> 200" and ne: "rest \<longrightarrow> chosen \<noteq> []" using assms(5,6) by (auto simp: chosen_def rest_def)
  have rest: "(length chosen < length (beyond since events)) = rest" by (auto simp: chosen_def rest_def min_def)
  have ds: "safe_diagnostics ds = ds" "length ds \<le> 8"
    subgoal using assms(7) by (rule safe_tail)
    subgoal using assms(7) unfolding tail_diagnostics_def by (elim disjE) simp_all
    done
  let ?page = "\<lambda>es. \<lparr>ep_session_id = sid, ep_events = es, ep_next_cursor = page_cursor rest chosen, ep_has_more = rest,
           ep_diagnostics = ds\<rparr>"
  let ?build = "page_of pl sid (map (measure_of pl) chosen) rest ds"
  define P where "P = (\<lambda>l p. \<exists>es'. p = ?page es' \<and> list_all2 (shown pl l) chosen es' \<and> 128 \<le> l \<and> l \<le> history_event_payload_limit)"
  have build: "\<exists>p. ?build l = Inr p \<and> P l p"
    if range: "128 \<le> l" "l \<le> history_event_payload_limit" for l
  proof -
    obtain es' where "?build l = Inr (?page es')" "list_all2 (shown pl l) chosen es'"
      using page_of_ok [OF all range assms(4) len ne, of ds] ds(2) unfolding ds(1) by blast
    then show ?thesis using range unfolding P_def by blast
  qed
  have sizes: "serialized_page_size pl p = Inr (int (page_size pl p))" "l = 128 \<Longrightarrow> int (page_size pl p) \<le> history_page_bytes_limit"
    if known: "P l p" for l p
  proof -
    obtain es' where p: "p = ?page es'" "list_all2 (shown pl l) chosen es'" "128 \<le> l" using known unfolding P_def by blast
    from fits_page [OF shown_fits [OF p(2)] all p(3) len assms(4,7) p(1)]
    show "serialized_page_size pl p = Inr (int (page_size pl p))"
      "l = 128 \<Longrightarrow> int (page_size pl p) \<le> history_page_bytes_limit" by blast+
  qed
  have erase: "list_all2 (fits pl 128) chosen (map erased chosen)"
    unfolding list_all2_map2 by (intro list_all2_same [THEN iffD2] ballI fits_erasing)
  have empty_page: "mk_SessionEventPage sid (map erased chosen) (page_cursor rest chosen) rest ds = Inr (?page (map erased chosen))"
    using mk_SessionEventPage_ok [of sid "map erased chosen" rest ds] assms(4) len ne ds all
    by (simp add: page_cursor_map_erased showable_def)
  obtain n where empty_size: "serialized_page_size pl (?page (map erased chosen)) = Inr n"
    using fits_page(1) [OF erase all order_refl len assms(4,7) refl] by blast
  define l where "l = first_payload_limit n (map (measure_of pl) chosen)"
  have l: "128 \<le> l" "l \<le> history_event_payload_limit" using first_payload_limit_range by (simp_all add: l_def)
  obtain p where p: "?build l = Inr p" "P l p" using build [OF l] by blast
  have "\<exists>l' p'. shrink_page pl ?build l p = Inr p' \<and> P l' p' \<and> 128 \<le> l' \<and> l' \<le> history_event_payload_limit \<and>
      int (page_size pl p') \<le> history_page_bytes_limit"
  proof (rule shrink_page_fits [where P = P and f = "\<lambda>p. int (page_size pl p)"])
    show "\<exists>p. ?build m = Inr p \<and> P m p" if "128 \<le> m" "m \<le> history_event_payload_limit" for m using build that .
    show "serialized_page_size pl q = Inr (int (page_size pl q))" if "P m q" for m q using sizes(1) that .
    show "int (page_size pl q) \<le> history_page_bytes_limit" if "P 128 q" for q using sizes(2) [OF that] by simp
  qed (use l p(2) in simp_all)
  then obtain l' p' where p': "shrink_page pl ?build l p = Inr p'" "P l' p'" by blast
  have "event_page pl sid events since limit ds = shrink_page pl ?build l p"
    unfolding event_page_def Let_def chosen_def [symmetric] rest measured_all [OF all] bindR_simps ds(1)
      erased_def [symmetric] empty_page empty_size l_def [symmetric] p(1) by (rule refl)
  moreover obtain es' where es': "p' = ?page es'" "list_all2 (shown pl l') chosen es'" "l' \<le> history_event_payload_limit"
    using p'(2) unfolding P_def by blast
  moreover have "list_all2 (shown pl history_event_payload_limit) chosen es'"
    using es'(2) by (rule list_all2_mono) (rule shown_mono [OF _ es'(3)])
  ultimately show ?thesis using p'(1) by (intro exI [of _ es']) simp
qed

end
