(* ===== verification/HistoryProps.thy ===== *)
theory HistoryProps
  imports HistoryFacts SessionStoreProps
begin

text \<open>
  What the history gives a client: following the cursors of the event pages shows the whole
  history, and the state it shows is the one a subscriber of the live session has seen.
\<close>

section \<open>Reading a session\<close>

lemma path_for_id: "path_for rp sid = Inr u \<Longrightarrow> history_id_ok sid"
  by (simp add: path_for_def split: if_splits)

lemma read_by_id_read:
  assumes "read_by_id pl rp sid = Inr r"
  shows "history_id_ok sid" "read_session pl (Some (PlainStr sid)) (rp_bytes rp sid) = Inr r"
proof -
  have p: "is_ok (path_for rp sid)" using assms by (auto simp: read_by_id_def bindR_Inr_iff)
  then show "history_id_ok sid" using path_for_id by (cases "path_for rp sid") auto
  show "read_session pl (Some (PlainStr sid)) (rp_bytes rp sid) = Inr r"
  proof (cases "read_session pl (Some (PlainStr sid)) (rp_bytes rp sid)")
    case (Inl e)
    then have "\<exists>e'. repository_read pl rp \<lparr>cd_session_id = sid, cd_unreadable = False\<rparr> = Inl e'"
      by (cases e) (simp_all add: repository_read_def)
    then show ?thesis using assms by (auto simp: read_by_id_def bindR_Inr_iff split: if_splits)
  next
    case (Inr x)
    then show ?thesis using assms
      by (auto simp: read_by_id_def repository_read_def bindR_Inr_iff split: if_splits sum.splits)
  qed
qed

lemma read_by_id_log:
  assumes "read_by_id pl rp sid = Inr r"
  shows "numbered (sr_events r)" "length (sr_diagnostics r) \<le> 1"
proof -
  from read_by_id_read(2) [OF assms]
  have "read_session pl (map_option PlainStr (Some sid)) (rp_bytes rp sid) = Inr r" by simp
  from read_session_expected [OF this] obtain es ds
    where "read_bytes pl (data_of (rp_bytes rp sid)) = Inr (es, ds)" "sr_events r = es" "sr_diagnostics r = ds" by blast
  then show "numbered (sr_events r)" "length (sr_diagnostics r) \<le> 1"
    using read_bytes_ok by (auto simp: log_ok_def numbered_def)
qed

section \<open>Following the cursors\<close>

text \<open>A client that asks for page after page; None when it has asked \<open>n\<close> times.\<close>

fun follow_pages :: "nat \<Rightarrow> (int \<Rightarrow> SessionEventPage res) \<Rightarrow> int \<Rightarrow> EventEnvelope list res option" where
  "follow_pages 0 ask since = None"
| "follow_pages (Suc n) ask since =
     (case ask since of
        Inl e \<Rightarrow> Some (Inl e)
      | Inr p \<Rightarrow>
          (case ep_next_cursor p of
             None \<Rightarrow> Some (Inr (ep_events p))
           | Some c \<Rightarrow> map_option (\<lambda>r. bindR r (\<lambda>es. Inr (ep_events p @ es))) (follow_pages n ask c)))"

lemma follow_shows:
  assumes "numbered events"
    and page: "\<And>c. 0 \<le> c \<Longrightarrow> c \<le> history_sequence_limit \<Longrightarrow>
      \<exists>p. ask c = Inr p \<and> list_all2 P (take limit (beyond c events)) (ep_events p) \<and>
        ep_next_cursor p = page_cursor (limit < length (beyond c events)) (take limit (beyond c events))"
    and "1 \<le> limit" "\<forall>e \<in> set events. 0 \<le> ev_sequence e \<and> ev_sequence e \<le> history_sequence_limit"
    and "0 \<le> c" "c \<le> history_sequence_limit" "length (beyond c events) < n"
  shows "\<exists>es. follow_pages n ask c = Some (Inr es) \<and> list_all2 P (beyond c events) es"
  using assms(5-)
proof (induction n arbitrary: c)
  case (Suc n)
  let ?b = "beyond c events" and ?chosen = "take limit (beyond c events)"
  obtain p where p: "ask c = Inr p" "list_all2 P ?chosen (ep_events p)"
    "ep_next_cursor p = page_cursor (limit < length ?b) ?chosen" using page Suc.prems by blast
  show ?case
  proof (cases "limit < length ?b")
    case False
    then show ?thesis using p by (simp add: page_cursor_def)
  next
    case True
    then have ne: "?chosen \<noteq> []" using assms(3) by (cases ?b) (auto simp: take_Cons')
    let ?c' = "ev_sequence (last ?chosen)"
    have "beyond c events = ?chosen @ drop limit ?b" by simp
    from beyond_rest [OF assms(1) this] have rest: "beyond ?c' events = drop limit ?b" using ne by simp
    have "last ?chosen \<in> set events"
      using last_in_set [OF ne] set_take_subset [of limit ?b] by (auto simp: beyond_def)
    then have c': "0 \<le> ?c'" "?c' \<le> history_sequence_limit" using assms(4) by auto
    have "length (beyond ?c' events) < n" using True assms(3) Suc.prems(3) by (simp add: rest)
    from Suc.IH [OF c' this] obtain es where es: "follow_pages n ask ?c' = Some (Inr es)" "list_all2 P (drop limit ?b) es"
      by (auto simp: rest)
    have "list_all2 P (?chosen @ drop limit ?b) (ep_events p @ es)" using p(2) es(2) by (rule list_all2_appendI)
    then show ?thesis using p(1,3) es(1) True ne by (simp add: page_cursor_def)
  qed
qed simp

section \<open>Every page is bounded\<close>

lemma shrink_page_bounded:
  "shrink_page pl build l p = Inr q \<Longrightarrow> \<exists>n. serialized_page_size pl q = Inr n \<and> n \<le> history_page_bytes_limit"
proof (induction pl build l p rule: shrink_page.induct)
  case (1 pl build l p)
  then show ?case
    by (subst (asm) (2) shrink_page.simps) (auto simp: Let_def not_less split: sum.splits if_splits)
qed

section \<open>The state\<close>

text \<open>The history's state and terminal flag against the live state.\<close>

definition same_state :: "RuntimeState option \<times> bool \<Rightarrow> RuntimeState \<Rightarrow> bool" where
  "same_state h live \<longleftrightarrow>
     live = (case fst h of None \<Rightarrow> RUNNING | Some st \<Rightarrow> st) \<and>
     (snd h \<longleftrightarrow> (\<exists>st. fst h = Some st \<and> st \<in> set terminal_states))"

lemma same_state_step:
  assumes "same_state h live" "is_end e \<longrightarrow> coerce_state (state_field e) \<noteq> None"
  shows "same_state (history_state_step e h) (apply_state e live)"
proof (cases h)
  case (Pair state terminal)
  then show ?thesis
    using assms
    by (cases state; cases "has_type APPROVAL_REQUEST e"; cases "has_type POLICY_DECISION e"; cases "is_end e"; cases "is_start e")
      (auto simp: same_state_def history_state_step_def apply_state_def terminal_states_def split: option.splits)
qed

lemma same_state_fold:
  "same_state h live \<Longrightarrow> \<forall>e \<in> set es. is_end e \<longrightarrow> coerce_state (state_field e) \<noteq> None \<Longrightarrow>
   same_state (fold history_state_step es h) (fold apply_state es live)"
proof (induction es arbitrary: h live)
  case (Cons e es)
  then show ?case using Cons.IH [OF same_state_step] by simp
qed simp

lemma publish_state: "eb_last_state (fold stream_publish es b) = fold apply_state es (eb_last_state b)"
  by (induction es arbitrary: b) (simp_all add: stream_publish_def)

section \<open>Properties\<close>

text \<open>C32: Following the cursors of a session's event pages shows its whole history: every event beyond
  the first cursor once and in order, with its envelope unchanged and its payload whole or a
  preview of at most 64 KiB.  No page fails, holds more than the events asked for or takes more
  than 8 MiB, whatever the encoder.\<close>

theorem history_complete:
  assumes "read_by_id pl rp sid = Inr r" and "sr_events r \<noteq> []" and "\<forall>e \<in> set (sr_events r). showable pl e"
    and "1 \<le> limit" and "limit \<le> history_event_limit" and "0 \<le> since" and "since \<le> history_sequence_limit"
  shows "(\<exists>es. follow_pages (Suc (length (sr_events r))) (\<lambda>c. read_session_events pl rp sid c limit) since = Some (Inr es) \<and>
      list_all2 (shown pl history_event_payload_limit) (beyond since (sr_events r)) es) \<and>
    (\<forall>c p. read_session_events pl rp sid c limit = Inr p \<longrightarrow>
      int (length (ep_events p)) \<le> limit \<and> (\<exists>n. serialized_page_size pl p = Inr n \<and> n \<le> history_page_bytes_limit))"
proof
  let ?ask = "\<lambda>c. read_session_events pl rp sid c limit" and ?ds = "map (\<lambda>_. history_diagnostic ''incomplete_tail'') (sr_diagnostics r)"
  note id = read_by_id_read(1) [OF assms(1)] and log = read_by_id_log [OF assms(1)]
  have path: "path_for rp sid = Inr ()" using assms(1) by (auto simp: read_by_id_def bindR_Inr_iff)
  have ds: "tail_diagnostics ?ds" using log(2) by (cases "sr_diagnostics r") (auto simp: tail_diagnostics_def)
  have limit: "1 \<le> nat limit" "nat limit \<le> 200" using assms(4,5) by (auto simp: history_event_limit_def)
  have ask: "?ask c = or_unavailable (event_page pl sid (sr_events r) c (nat limit) ?ds)"
    if "0 \<le> c" "c \<le> history_sequence_limit" for c
    using that assms(1,2,4,5) by (simp add: read_session_events_def path validate_since_def validate_history_limit_def)
  have page: "\<exists>p. ?ask c = Inr p \<and> list_all2 (shown pl history_event_payload_limit) (take (nat limit) (beyond c (sr_events r))) (ep_events p) \<and>
      ep_next_cursor p = page_cursor (nat limit < length (beyond c (sr_events r))) (take (nat limit) (beyond c (sr_events r)))"
    if "0 \<le> c" "c \<le> history_sequence_limit" for c
  proof -
    from event_page_shows [OF assms(3) id limit ds] obtain es' where
      "event_page pl sid (sr_events r) c (nat limit) ?ds =
         Inr \<lparr>ep_session_id = sid, ep_events = es',
           ep_next_cursor = page_cursor (nat limit < length (beyond c (sr_events r))) (take (nat limit) (beyond c (sr_events r))),
           ep_has_more = nat limit < length (beyond c (sr_events r)), ep_diagnostics = ?ds\<rparr>"
      "list_all2 (shown pl history_event_payload_limit) (take (nat limit) (beyond c (sr_events r))) es'" by blast
    then show ?thesis unfolding ask [OF that] by (simp add: or_unavailable_def)
  qed
  have range: "\<forall>e \<in> set (sr_events r). 0 \<le> ev_sequence e \<and> ev_sequence e \<le> history_sequence_limit"
    using assms(3) by (simp add: showable_def del: writable.simps)
  have "length (beyond since (sr_events r)) < Suc (length (sr_events r))"
    by (simp add: beyond_def less_Suc_eq_le)
  from follow_shows [OF log(1) page limit(1) range assms(6,7) this]
  show "\<exists>es. follow_pages (Suc (length (sr_events r))) ?ask since = Some (Inr es) \<and>
      list_all2 (shown pl history_event_payload_limit) (beyond since (sr_events r)) es" .
  show "\<forall>c p. ?ask c = Inr p \<longrightarrow> int (length (ep_events p)) \<le> limit \<and>
      (\<exists>n. serialized_page_size pl p = Inr n \<and> n \<le> history_page_bytes_limit)"
  proof (intro allI impI conjI)
    fix c p assume p: "?ask c = Inr p"
    then have c: "0 \<le> c" "c \<le> history_sequence_limit" by (auto simp: read_session_events_def bindR_Inr_iff validate_since_def)
    obtain q where q: "?ask c = Inr q" "list_all2 (shown pl history_event_payload_limit) (take (nat limit) (beyond c (sr_events r))) (ep_events q)"
      using page [OF c] by blast
    have "q = p" using q(1) p by simp
    then show "int (length (ep_events p)) \<le> limit"
      using list_all2_lengthD [OF q(2)] assms(4) by simp
    have "event_page pl sid (sr_events r) c (nat limit) ?ds = Inr p"
      using p unfolding ask [OF c] by (auto simp: or_unavailable_def split: sum.splits)
    then obtain build l p0 where "shrink_page pl build l p0 = Inr p" unfolding event_page_def Let_def bindR_Inr_iff by blast
    then show "\<exists>n. serialized_page_size pl p = Inr n \<and> n \<le> history_page_bytes_limit" by (rule shrink_page_bounded)
  qed
qed

text \<open>C33: The state the history derives from a session's log is the one the live session's stream has
  shown after the same events, provided every end event carries a valid state; before any of
  them says something the stream shows a running session and the history nothing.\<close>

theorem history_state_agrees:
  assumes "\<forall>e \<in> set es. is_end e \<longrightarrow> coerce_state (state_field e) \<noteq> None"
  shows "eb_last_state (fold stream_publish es EventStreamBuffer_init) =
    (case state_from_events es of None \<Rightarrow> RUNNING | Some st \<Rightarrow> st)"
proof -
  have "same_state (None, False) RUNNING" by (simp add: same_state_def)
  from same_state_fold [OF this assms] show ?thesis
    by (simp add: publish_state EventStreamBuffer_init_def same_state_def state_from_events_def)
qed

section \<open>Witnesses\<close>

definition first_envelope :: EventEnvelope where
  "first_envelope = sample_envelope USER_MESSAGE 1"

text \<open>A directory with one session of one event.\<close>

definition sample_repository :: repository where
  "sample_repository =
     \<lparr>rp_root = Inr True,
      rp_entries = Inr [\<lparr>de_name = lit ''session_1.jsonl'', de_symlink = False, de_regular = Some True\<rparr>],
      rp_regular = (\<lambda>_. True), rp_bytes = (\<lambda>_. Some (enc_str (record_line sample_platform False first_envelope))),
      rp_still_regular = (\<lambda>_. True)\<rparr>"

lemma first_envelope_dict:
  "EventEnvelope_to_dict first_envelope =
     [(lit ''schema_version'', JInt 1), (lit ''session_id'', JStr (lit ''session_1'')), (lit ''event_id'', JStr (lit ''event_1'')),
      (lit ''agent_id'', JStr (lit ''agent_1'')), (lit ''parent_agent_id'', JNull), (lit ''sequence'', JInt 1),
      (lit ''type'', JStr (lit ''user_message'')), (lit ''correlation_id'', JNull), (lit ''provider_tool_call_id'', JNull),
      (lit ''timestamp'', JStr (lit ''2025-01-01T00:00:00Z'')), (lit ''payload'', JObj [])]"
  by (simp add: EventEnvelope_to_dict_def first_envelope_def sample_envelope_def json_opt_str_def lit_def dec_int_def dec.simps)

lemma first_envelope_writable: "writable frepr (JObj (EventEnvelope_to_dict first_envelope))"
  by (simp add: first_envelope_dict)

lemma first_envelope_storable: "storable sample_platform first_envelope" "timestamps_canonical sample_platform"
  by (simp_all add: storable_def EventEnvelope_ok_def first_envelope_def sample_envelope_def event_floats_ok_def
      timestamps_canonical_def sample_platform_def lit_def dec_int_def dec.simps id_ok_def identifier_pattern_def id_char_def is_alnum_def)

lemma first_envelope_showable: "showable sample_platform first_envelope"
proof -
  have "erased first_envelope = first_envelope" by (simp add: erased_def first_envelope_def sample_envelope_def)
  moreover have "envelope_size sample_platform first_envelope \<le> 40000"
    by (simp add: envelope_size_def ascii_size_obj first_envelope_dict quoted_len_def lit_def escape_ascii_def escape_char_def
        quoted_def utf8_len_Cons length_enc_ascii dec_int_def dec.simps)
  moreover have "payload_size sample_platform (ev_payload first_envelope) = 2"
    by (simp add: payload_size_def canonical_text_def first_envelope_def sample_envelope_def utf8_len_Cons length_enc_ascii)
  moreover have "ev_sequence first_envelope = 1" by (simp add: first_envelope_def sample_envelope_def)
  ultimately show ?thesis
    using first_envelope_writable by (simp add: showable_def history_sequence_limit_def dec_int_def dec.simps del: writable.simps)
qed

lemma sample_read:
  "read_by_id sample_platform sample_repository (lit ''session_1'') =
     Inr \<lparr>sr_events = [first_envelope], sr_diagnostics = [], sr_ended_with_newline = True\<rparr>"
proof -
  let ?t = "enc_str (line_text sample_platform first_envelope)"
  have enc: "encodable (line_text sample_platform first_envelope)"
    unfolding line_text_def canonical_text_def by (intro encodable_render_writable writable_sort first_envelope_writable)
  have b: "10 \<notin> set ?t" "13 \<notin> set ?t" "?t \<noteq> []"
    using line_bytes first_envelope_storable(1) by (auto simp: storable_def)
  have "stored first_envelope = first_envelope" by (simp add: stored_def sort_obj_def first_envelope_def sample_envelope_def)
  then have p: "parse_record sample_platform ?t = Inr first_envelope"
    using parse_line [OF first_envelope_storable enc] by simp
  have bytes: "enc_str (record_line sample_platform False first_envelope) = ?t @ [10]"
    by (simp add: record_line_def line_text_def enc_cp_def)
  have fields: "ev_session_id first_envelope = lit ''session_1''" "ev_sequence first_envelope = 1"
    by (simp_all add: first_envelope_def sample_envelope_def)
  have "read_session sample_platform (Some (PlainStr (lit ''session_1''))) (Some (?t @ [10])) =
      Inr \<lparr>sr_events = [first_envelope], sr_diagnostics = [], sr_ended_with_newline = True\<rparr>"
    using split_lines_plain [OF b] line_content_plain [OF b(1,2)] p fields
    by (simp add: read_session_def optional_session_id_def new_identifier_def follows_def is_complete_def lit_def
        identifier_pattern_def id_char_def is_alnum_def)
  moreover have "history_id_ok (lit ''session_1'')" by (simp add: history_id_ok_def lit_def history_id_char_def)
  ultimately show ?thesis
    using fields by (simp add: read_by_id_def path_for_def repository_read_def sample_repository_def bytes validate_canonical_result_def)
qed

theorem history_complete_witness:
  "\<exists>es. follow_pages 2 (\<lambda>c. read_session_events sample_platform sample_repository (lit ''session_1'') c 1) 0 = Some (Inr es) \<and>
     list_all2 (shown sample_platform history_event_payload_limit) [first_envelope] es"
proof -
  have "beyond 0 [first_envelope] = [first_envelope]" by (simp add: beyond_def first_envelope_def sample_envelope_def)
  then show ?thesis
    using history_complete [OF sample_read, of 1 0] first_envelope_showable
    by (simp add: history_event_limit_def history_sequence_limit_def numeral_2_eq_2 del: follow_pages.simps)
qed

theorem history_state_agrees_witness:
  "eb_last_state (fold stream_publish [sample_envelope SESSION_START 1, sample_envelope APPROVAL_REQUEST 2] EventStreamBuffer_init) =
     WAITING_FOR_APPROVAL"
proof -
  let ?es = "[sample_envelope SESSION_START 1, sample_envelope APPROVAL_REQUEST 2]"
  have "\<forall>e \<in> set ?es. is_end e \<longrightarrow> coerce_state (state_field e) \<noteq> None"
    by (simp add: is_end_def has_type_def sample_envelope_def lit_def)
  from history_state_agrees [OF this] show ?thesis
    by (simp add: state_from_events_def history_state_step_def has_type_def is_end_def is_start_def sample_envelope_def lit_def)
qed

end
