(* ===== verification/Transport.thy ===== *)
theory Transport
  imports Pump Service
begin

text \<open>
  The sessions of the HTTP binding (\<open>transports/http/registry.py\<close>): a transport session around one
  backend, and the registry that owns at most one active session.  What a backend is stays open:
  it is a value with the operations of the port.  Each part under a lock is one atomic operation;
  closing a session is a thread of such parts, and \<open>transport_step\<close> interleaves them with
  everything else.
\<close>

section \<open>Transport sessions\<close>

text \<open>The port, with the two attributes the transport looks up by name: a missing one is None.\<close>

record 'b backend_ops =
  bo_is_port :: "'b \<Rightarrow> bool"
  bo_send :: "AgentCommand \<Rightarrow> 'b \<Rightarrow> 'b \<times> unit res"
  bo_close :: "'b \<Rightarrow> 'b"
  bo_last_state :: "'b \<Rightarrow> RuntimeState + json"
  bo_approval_mode :: "'b \<Rightarrow> json option"
  bo_resume_last_sequence :: "'b \<Rightarrow> json option"

record 'b transport_session =
  ts_backend :: 'b
  ts_closed :: bool
  ts_cursor :: int
  ts_pump :: event_pump
  ts_close_thread :: bool

definition mk_TransportSession :: "'b \<Rightarrow> int \<Rightarrow> 'b transport_session res" where
  "mk_TransportSession b initial_cursor =
     bindR (guardR (0 \<le> initial_cursor) (ValueError (lit ''initial_cursor must be a non-negative integer''))) (\<lambda>_.
     Inr \<lparr>ts_backend = b, ts_closed = False, ts_cursor = initial_cursor, ts_pump = event_pump_init, ts_close_thread = False\<rparr>)"

definition session_state :: "'b backend_ops \<Rightarrow> 'b transport_session \<Rightarrow> RuntimeState + json" where
  "session_state B t = bo_last_state B (ts_backend t)"

definition session_approval_mode :: "'b backend_ops \<Rightarrow> 'b transport_session \<Rightarrow> str" where
  "session_approval_mode B t =
     (case bo_approval_mode B (ts_backend t) of
        Some (JStr m) \<Rightarrow> if m \<in> set approval_modes then m else lit ''ask''
      | _ \<Rightarrow> lit ''ask'')"

definition record_event :: "int \<Rightarrow> 'b transport_session \<Rightarrow> 'b transport_session" where
  "record_event n t = (if n < 0 then t else if ts_cursor t < n then t\<lparr>ts_cursor := n\<rparr> else t)"

definition subscribe_events :: "int \<Rightarrow> 'b transport_session \<Rightarrow> ('b transport_session \<times> nat) res" where
  "subscribe_events cursor t =
     bindR (pump_subscribe cursor (ts_pump t)) (\<lambda>(p, i). Inr (t\<lparr>ts_pump := p\<rparr>, i))"

text \<open>\<open>mark_closed\<close>: the session, and whether this call won.\<close>

definition mark_closed :: "'b transport_session \<Rightarrow> 'b transport_session \<times> bool" where
  "mark_closed t = (if ts_closed t then (t, False) else (t\<lparr>ts_closed := True\<rparr>, True))"

text \<open>\<open>_close_backend\<close>: what the closing thread does; nothing it raises leaves it.\<close>

definition close_backend :: "'b backend_ops \<Rightarrow> str \<Rightarrow> bool \<Rightarrow> 'b \<Rightarrow> 'b" where
  "close_backend B reason send_command b =
     bo_close B
       (if send_command
        then (case mk_CloseSession (JStr reason) of Inl _ \<Rightarrow> b | Inr command \<Rightarrow> fst (bo_send B command b))
        else b)"

section \<open>The registry\<close>

record 'b session_registry =
  sr_sessions :: "(str \<times> 'b transport_session) list"
  sr_active :: "str option"

definition empty_registry :: "'b session_registry" where
  "empty_registry = \<lparr>sr_sessions = [], sr_active = None\<rparr>"

definition mk_TransportSessionRegistry :: "rat \<Rightarrow> 'b session_registry res" where
  "mk_TransportSessionRegistry close_timeout =
     bindR (guardR (0 < close_timeout) (ValueError (lit ''close_timeout_seconds must be a positive number''))) (\<lambda>_.
     Inr empty_registry)"

definition get_session :: "str \<Rightarrow> 'b session_registry \<Rightarrow> 'b transport_session option" where
  "get_session i g = dget (sr_sessions g) i"

definition active_session :: "'b session_registry \<Rightarrow> 'b transport_session option" where
  "active_session g =
     (case sr_active g of
        None \<Rightarrow> None
      | Some i \<Rightarrow> (case get_session i g of None \<Rightarrow> None | Some t \<Rightarrow> if ts_closed t then None else Some t))"

definition at_session :: "str \<Rightarrow> ('b transport_session \<Rightarrow> 'b transport_session) \<Rightarrow> 'b session_registry \<Rightarrow> 'b session_registry" where
  "at_session i f g =
     (case get_session i g of None \<Rightarrow> g | Some t \<Rightarrow> g\<lparr>sr_sessions := dset (sr_sessions g) i (f t)\<rparr>)"

definition SessionExistsError :: exn where
  "SessionExistsError = OtherError (lit ''SessionExistsError'') (lit ''an active transport session already exists'')"

text \<open>The cursor a resumed session starts from.\<close>

definition resume_cursor :: "'b backend_ops \<Rightarrow> str option \<Rightarrow> 'b \<Rightarrow> int res" where
  "resume_cursor B resume b =
     (if resume = None then Inr 0
      else
        (case bo_resume_last_sequence B b of
           None \<Rightarrow> Inr 0
         | Some JNull \<Rightarrow> Inr 0
         | Some (JInt n) \<Rightarrow>
             if 0 \<le> n then Inr n
             else Inl (TypeError (lit ''provider resume cursor must be a non-negative integer''))
         | Some _ \<Rightarrow> Inl (TypeError (lit ''provider resume cursor must be a non-negative integer''))))"

text \<open>\<open>create\<close>, all of it under the lock: \<open>provide\<close> is the provider's \<open>create_session\<close>, \<open>token\<close> the
  fresh transport id.  The backend of a session that could not be built is closed; the last
  component says so.\<close>

definition registry_create ::
  "'b backend_ops \<Rightarrow> (str option \<Rightarrow> 'b res) \<Rightarrow> str \<Rightarrow> str option \<Rightarrow> 'b session_registry
     \<Rightarrow> 'b session_registry \<times> str res \<times> 'b list" where
  "registry_create B provide token resume g =
     (if active_session g \<noteq> None then (g, Inl SessionExistsError, [])
      else
        (case provide resume of
           Inl e \<Rightarrow> (g, Inl e, [])
         | Inr b \<Rightarrow>
             if \<not> bo_is_port B b then (g, Inl (TypeError (lit ''provider must return an AgentBackend port'')), [])
             else
               (case resume_cursor B resume b of
                  Inl e \<Rightarrow> (g, Inl e, [])
                | Inr c \<Rightarrow>
                    (case mk_TransportSession b c of
                       Inl e \<Rightarrow> (g, Inl e, [close_backend B (lit ''session_start_failed'') False b])
                     | Inr t \<Rightarrow> (g\<lparr>sr_sessions := dset (sr_sessions g) token t, sr_active := Some token\<rparr>, Inr token, [])))))"

record registry_snapshot =
  rn_transport_session_id :: str
  rn_cursor :: int
  rn_closed :: bool

definition snapshot_session :: "str \<Rightarrow> 'b session_registry \<Rightarrow> registry_snapshot option" where
  "snapshot_session i g =
     map_option (\<lambda>t. \<lparr>rn_transport_session_id = i, rn_cursor = ts_cursor t, rn_closed = ts_closed t\<rparr>) (get_session i g)"

section \<open>Closing\<close>

text \<open>A call of \<open>close\<close> on a session: waiting for its lock, stopping the pump, or at the backend.\<close>

datatype close_phase = Entering | StoppingPump | AtBackend

record closer =
  cl_session :: str
  cl_reason :: str
  cl_send :: bool
  cl_phase :: close_phase

definition entering_closer :: "str \<Rightarrow> bool \<Rightarrow> str \<Rightarrow> closer" where
  "entering_closer reason send_command i = \<lparr>cl_session = i, cl_reason = reason, cl_send = send_command, cl_phase = Entering\<rparr>"

text \<open>The locked parts of \<open>close_session\<close> and \<open>close_all\<close>: the calls of \<open>close\<close> they go on to make.\<close>

definition release_session :: "str \<Rightarrow> str \<Rightarrow> bool \<Rightarrow> 'b session_registry \<Rightarrow> 'b session_registry \<times> closer list" where
  "release_session i reason send_command g =
     (if get_session i g = None then (g, [])
      else (g\<lparr>sr_active := if sr_active g = Some i then None else sr_active g\<rparr>, [entering_closer reason send_command i]))"

definition release_all :: "str \<Rightarrow> 'b session_registry \<Rightarrow> 'b session_registry \<times> closer list" where
  "release_all reason g = (g\<lparr>sr_active := None\<rparr>, map (entering_closer reason True) (map fst (sr_sessions g)))"

text \<open>The next part of a call of \<open>close\<close>; only the first call goes beyond the lock.\<close>

definition close_part :: "'b backend_ops \<Rightarrow> closer \<Rightarrow> 'b session_registry \<Rightarrow> 'b session_registry \<times> closer option" where
  "close_part B c g =
     (let i = cl_session c in
      case get_session i g of
        None \<Rightarrow> (g, None)
      | Some t \<Rightarrow>
          (case cl_phase c of
             Entering \<Rightarrow>
               if ts_closed t then (g, None)
               else (at_session i (\<lambda>t. t\<lparr>ts_closed := True\<rparr>) g, Some (c\<lparr>cl_phase := StoppingPump\<rparr>))
           | StoppingPump \<Rightarrow> (at_session i (\<lambda>t. t\<lparr>ts_pump := pump_close (ts_pump t)\<rparr>) g, Some (c\<lparr>cl_phase := AtBackend\<rparr>))
           | AtBackend \<Rightarrow>
               (at_session i (\<lambda>t. t\<lparr>ts_backend := close_backend B (cl_reason c) (cl_send c) (ts_backend t)\<rparr>) g, None)))"

text \<open>A whole call of \<open>close_session\<close> by one thread; without \<open>wait\<close> the last part is left to another.\<close>

definition close_session ::
  "'b backend_ops \<Rightarrow> str \<Rightarrow> str \<Rightarrow> bool \<Rightarrow> bool \<Rightarrow> 'b session_registry \<Rightarrow> 'b session_registry \<times> closer list \<times> bool" where
  "close_session B i reason send_command wait g =
     (case release_session i reason send_command g of
        (g1, []) \<Rightarrow> (g1, [], False)
      | (g1, c # _) \<Rightarrow>
          (case close_part B c g1 of
             (g2, None) \<Rightarrow> (g2, [], True)
           | (g2, Some c1) \<Rightarrow>
               (case close_part B c1 g2 of
                  (g3, None) \<Rightarrow> (g3, [], True)
                | (g3, Some c2) \<Rightarrow>
                    if wait then (fst (close_part B c2 g3), [], True)
                    else (at_session i (\<lambda>t. t\<lparr>ts_close_thread := True\<rparr>) g3, [c2], True))))"

section \<open>Interleaving\<close>

text \<open>The registry, the calls of \<open>close\<close> under way, and the sessions whose backend has been closed, in
  the order of closing.\<close>

record 'b transport_world =
  tw_registry :: "'b session_registry"
  tw_closers :: "closer list"
  tw_log :: "str list"

definition transport_start :: "'b transport_world" where
  "transport_start = \<lparr>tw_registry = empty_registry, tw_closers = [], tw_log = []\<rparr>"

definition advance :: "'b backend_ops \<Rightarrow> nat \<Rightarrow> 'b transport_world \<Rightarrow> 'b transport_world" where
  "advance B n w =
     (let c = tw_closers w ! n; rest = take n (tw_closers w) @ drop (Suc n) (tw_closers w) in
      case close_part B c (tw_registry w) of
        (g, None) \<Rightarrow>
          w\<lparr>tw_registry := g, tw_closers := rest,
            tw_log := (if cl_phase c = AtBackend then tw_log w @ [cl_session c] else tw_log w)\<rparr>
      | (g, Some c') \<Rightarrow> w\<lparr>tw_registry := g, tw_closers := (tw_closers w)[n := c']\<rparr>)"

inductive transport_step :: "'b backend_ops \<Rightarrow> 'b transport_world \<Rightarrow> 'b transport_world \<Rightarrow> bool"
  for B :: "'b backend_ops" where
  creating: "registry_create B provide token resume (tw_registry w) = (g, r, closing) \<Longrightarrow>
     get_session token (tw_registry w) = None \<Longrightarrow> transport_step B w (w\<lparr>tw_registry := g\<rparr>)"
| releasing: "release_session i reason send_command (tw_registry w) = (g, cs) \<Longrightarrow>
     transport_step B w (w\<lparr>tw_registry := g, tw_closers := tw_closers w @ cs\<rparr>)"
| releasing_all: "release_all reason (tw_registry w) = (g, cs) \<Longrightarrow>
     transport_step B w (w\<lparr>tw_registry := g, tw_closers := tw_closers w @ cs\<rparr>)"
| advancing: "n < length (tw_closers w) \<Longrightarrow> transport_step B w (advance B n w)"
| sending: "transport_step B w
     (w\<lparr>tw_registry := at_session i (\<lambda>t. t\<lparr>ts_backend := fst (bo_send B command (ts_backend t))\<rparr>) (tw_registry w)\<rparr>)"
| recording: "transport_step B w (w\<lparr>tw_registry := at_session i (record_event n) (tw_registry w)\<rparr>)"
| pumping: "get_session i (tw_registry w) = Some t \<Longrightarrow> pump_step (ts_pump t) p \<Longrightarrow>
     transport_step B w (w\<lparr>tw_registry := at_session i (\<lambda>t. t\<lparr>ts_pump := p\<rparr>) (tw_registry w)\<rparr>)"

inductive_cases transport_stepE: "transport_step B w w'"

end
