(* ===== verification/TransportProps.thy ===== *)
theory TransportProps
  imports Transport
begin

text \<open>
  The registry keeps its promises: at most one session is open without being closed, and every
  backend is closed exactly once, whatever calls of \<open>close\<close> race.
\<close>

section \<open>Sessions of a registry\<close>

lemma get_at_session:
  "get_session j (at_session i f g) = (if j = i then map_option f (get_session i g) else get_session j g)"
  by (cases "get_session i g") (simp_all add: at_session_def get_session_def dget_dset)

lemma active_at_session [simp]: "sr_active (at_session i f g) = sr_active g"
  by (simp add: at_session_def split: option.split)

lemma get_session_keys: "i \<in> set (map fst (sr_sessions g)) \<longleftrightarrow> get_session i g \<noteq> None"
  using map_of_eq_None_iff [of "sr_sessions g" i] by (auto simp: get_session_def)

definition known :: "'b session_registry \<Rightarrow> str \<Rightarrow> bool" where
  "known g i \<longleftrightarrow> get_session i g \<noteq> None"

definition open_session :: "'b session_registry \<Rightarrow> str \<Rightarrow> bool" where
  "open_session g i \<longleftrightarrow> (\<exists>t. get_session i g = Some t \<and> \<not> ts_closed t)"

lemma known_at_session [simp]: "known (at_session i f g) = known g"
  by (rule ext) (auto simp: known_def get_at_session)

lemma open_at_session:
  "(\<And>t. ts_closed (f t) = ts_closed t) \<Longrightarrow> open_session (at_session i f g) = open_session g"
  by (rule ext) (auto simp: open_session_def get_at_session)

lemma open_known: "open_session g i \<Longrightarrow> known g i"
  by (auto simp: open_session_def known_def)

section \<open>The invariant\<close>

definition owners :: "closer list \<Rightarrow> str \<Rightarrow> nat" where
  "owners cs i = length (filter (\<lambda>c. cl_session c = i \<and> cl_phase c \<noteq> Entering) cs)"

definition entering :: "closer list \<Rightarrow> str \<Rightarrow> bool" where
  "entering cs i \<longleftrightarrow> (\<exists>c \<in> set cs. cl_session c = i \<and> cl_phase c = Entering)"

lemma owners_append [simp]: "owners (cs @ ds) i = owners cs i + owners ds i"
  by (simp add: owners_def)

lemma owners_Nil [simp]: "owners [] i = 0"
  by (simp add: owners_def)

lemma owners_Cons: "owners (c # cs) i = (if cl_session c = i \<and> cl_phase c \<noteq> Entering then 1 else 0) + owners cs i"
  by (simp add: owners_def)

lemma entering_append [simp]: "entering (cs @ ds) i \<longleftrightarrow> entering cs i \<or> entering ds i"
  by (auto simp: entering_def)

lemma entering_Cons: "entering (c # cs) i \<longleftrightarrow> cl_session c = i \<and> cl_phase c = Entering \<or> entering cs i"
  by (auto simp: entering_def)

text \<open>The registry, the calls under way and the log, one property of each session.\<close>

definition closing_inv :: "'b session_registry \<Rightarrow> closer list \<Rightarrow> str list \<Rightarrow> bool" where
  "closing_inv g cs lg \<longleftrightarrow>
     (\<forall>c \<in> set cs. known g (cl_session c)) \<and> set lg \<subseteq> Collect (known g) \<and>
     (\<forall>i. known g i \<longrightarrow> owners cs i + count_list lg i = (if open_session g i then 0 else 1)) \<and>
     (\<forall>i. open_session g i \<longrightarrow> sr_active g = Some i \<or> entering cs i)"

lemma closing_invI:
  assumes "\<And>c. c \<in> set cs \<Longrightarrow> known g (cl_session c)" "\<And>i. i \<in> set lg \<Longrightarrow> known g i"
    and "\<And>i. known g i \<Longrightarrow> owners cs i + count_list lg i = (if open_session g i then 0 else 1)"
    and "\<And>i. open_session g i \<Longrightarrow> sr_active g = Some i \<or> entering cs i"
  shows "closing_inv g cs lg"
  using assms by (auto simp: closing_inv_def)

lemma closing_invE:
  assumes "closing_inv g cs lg"
  obtains "\<And>c. c \<in> set cs \<Longrightarrow> known g (cl_session c)" "\<And>i. i \<in> set lg \<Longrightarrow> known g i"
    and "\<And>i. known g i \<Longrightarrow> owners cs i + count_list lg i = (if open_session g i then 0 else 1)"
    and "\<And>i. open_session g i \<Longrightarrow> sr_active g = Some i \<or> entering cs i"
  using assms by (auto simp: closing_inv_def)

lemma closing_inv_frame:
  assumes "closing_inv g cs lg" "known g' = known g" "open_session g' = open_session g" "sr_active g' = sr_active g"
  shows "closing_inv g' cs lg"
  using assms by (simp add: closing_inv_def)

lemma created_session:
  assumes "registry_create B provide token resume g = (g', r, closing)"
  shows "g' = g \<or> (active_session g = None \<and>
    (\<exists>t. \<not> ts_closed t \<and> g' = g\<lparr>sr_sessions := dset (sr_sessions g) token t, sr_active := Some token\<rparr>))"
proof (cases "active_session g = None")
  case False
  then show ?thesis using assms by (simp add: registry_create_def)
next
  case True
  have "g' = g \<or> (\<exists>b c t. mk_TransportSession b c = Inr t \<and> g' = g\<lparr>sr_sessions := dset (sr_sessions g) token t, sr_active := Some token\<rparr>)"
    using assms unfolding registry_create_def by (simp add: True split: if_splits sum.splits) blast+
  then show ?thesis
  proof (elim disjE exE conjE)
    fix b c t assume "mk_TransportSession b c = Inr t"
      and "g' = g\<lparr>sr_sessions := dset (sr_sessions g) token t, sr_active := Some token\<rparr>"
    moreover from this have "\<not> ts_closed t" by (auto simp: mk_TransportSession_def bindR_Inr_iff)
    ultimately show ?thesis using True by blast
  qed simp
qed

lemma creating_inv:
  assumes inv: "closing_inv g cs lg" and created: "registry_create B provide token resume g = (g', r, closing)"
    and fresh: "get_session token g = None"
  shows "closing_inv g' cs lg"
  using created_session [OF created]
proof (elim disjE conjE exE)
  fix t assume none: "active_session g = None" and t: "\<not> ts_closed t"
    and g': "g' = g\<lparr>sr_sessions := dset (sr_sessions g) token t, sr_active := Some token\<rparr>"
  have get: "get_session i g' = (if i = token then Some t else get_session i g)" for i
    by (simp add: g' get_session_def dget_dset)
  have known: "known g' i \<longleftrightarrow> i = token \<or> known g i" and opens: "open_session g' i \<longleftrightarrow> i = token \<or> open_session g i" for i
    using t fresh by (auto simp: known_def open_session_def get)
  have new: "\<not> known g token" using fresh by (simp add: known_def)
  have busy: "entering cs i" if "open_session g i" for i
    using that inv none by (auto simp: closing_inv_def active_session_def open_session_def split: option.splits if_splits)
  show ?thesis
  proof (rule closing_invI)
    fix i assume i: "known g' i"
    show "owners cs i + count_list lg i = (if open_session g' i then 0 else 1)"
    proof (cases "i = token")
      case True
      have "owners cs token = 0" using inv new by (auto simp: closing_inv_def owners_def filter_empty_conv)
      moreover have "count_list lg token = 0" using inv new by (intro count_notin) (auto simp: closing_inv_def)
      ultimately show ?thesis using True opens by simp
    next
      case False
      then show ?thesis using i inv known opens by (simp add: closing_inv_def)
    qed
  qed (use inv known opens busy in \<open>auto simp: closing_inv_def g'\<close>)
qed (use inv in simp)

lemma entering_closer_simps [simp]:
  "cl_session (entering_closer reason send_command i) = i" "cl_phase (entering_closer reason send_command i) = Entering"
  by (simp_all add: entering_closer_def)

lemma releasing_inv:
  assumes inv: "closing_inv g cs lg" and r: "release_session i reason send_command g = (g', ds)"
  shows "closing_inv g' (cs @ ds) lg"
proof (cases "get_session i g")
  case None
  then show ?thesis using inv r by (simp add: release_session_def)
next
  case (Some t)
  then have g': "g' = g\<lparr>sr_active := if sr_active g = Some i then None else sr_active g\<rparr>" "ds = [entering_closer reason send_command i]"
    using r by (simp_all add: release_session_def)
  have same: "known g' = known g" "open_session g' = open_session g"
    by (auto simp: g' known_def open_session_def get_session_def)
  show ?thesis
    using inv Some unfolding closing_inv_def same by (auto simp: g' owners_Cons entering_Cons known_def)
qed

lemma releasing_all_inv:
  assumes inv: "closing_inv g cs lg" and r: "release_all reason g = (g', ds)"
  shows "closing_inv g' (cs @ ds) lg"
proof -
  have g': "g' = g\<lparr>sr_active := None\<rparr>" "ds = map (entering_closer reason True) (map fst (sr_sessions g))"
    using r by (simp_all add: release_all_def)
  have same: "known g' = known g" "open_session g' = open_session g"
    by (auto simp: g' known_def open_session_def get_session_def)
  have ds: "known g i \<longleftrightarrow> entering ds i" "owners ds i = 0" for i
    using get_session_keys [of i g] by (auto simp: g' entering_def owners_def known_def filter_empty_conv)
  show ?thesis
  proof (rule closing_invI)
    fix c assume "c \<in> set (cs @ ds)"
    then show "known g' (cl_session c)"
      using inv ds(1) [of "cl_session c"] unfolding same
      by (auto simp: closing_inv_def entering_def simp del: mem_Collect_eq) (auto simp: g')
  next
    fix i assume "open_session g' i"
    then show "sr_active g' = Some i \<or> entering (cs @ ds) i" using ds(1) open_known unfolding same by auto
  qed (use inv ds(2) same in \<open>auto simp: closing_inv_def\<close>)
qed

section \<open>Advancing a call\<close>

lemma split_nth: "n < length xs \<Longrightarrow> xs = take n xs @ xs ! n # drop (Suc n) xs"
  by (simp add: id_take_nth_drop)

lemma advance_inv:
  assumes inv: "closing_inv (tw_registry w) (tw_closers w) (tw_log w)" and n: "n < length (tw_closers w)"
  shows "closing_inv (tw_registry (advance B n w)) (tw_closers (advance B n w)) (tw_log (advance B n w))"
proof -
  define g xs c ys where "g = tw_registry w" and "xs = take n (tw_closers w)" and "c = tw_closers w ! n"
    and "ys = drop (Suc n) (tw_closers w)"
  have cs: "tw_closers w = xs @ c # ys" using n split_nth by (simp add: xs_def c_def ys_def)
  have upd: "(tw_closers w)[n := x] = xs @ x # ys" for x
    using n by (simp add: xs_def ys_def upd_conv_take_nth_drop)
  note I = inv [folded g_def, unfolded cs]
  obtain t where t: "get_session (cl_session c) g = Some t"
    using I by (auto simp: closing_inv_def known_def)
  have kn: "known g (cl_session c)" using t by (simp add: known_def)
  have shut: "\<not> open_session g (cl_session c)" if "cl_phase c \<noteq> Entering"
    using I kn that by (auto simp: closing_inv_def owners_Cons split: if_splits)
  show ?thesis
  proof (cases "cl_phase c")
    case Entering
    show ?thesis
    proof (cases "ts_closed t")
      case True
      then have "\<not> open_session g (cl_session c)" using t by (simp add: open_session_def)
      then have "closing_inv g (xs @ ys) (tw_log w)"
        using I Entering by (auto simp: closing_inv_def owners_Cons entering_Cons)
      moreover have "advance B n w = w\<lparr>tw_registry := g, tw_closers := xs @ ys, tw_log := tw_log w\<rparr>"
        using Entering True t by (simp add: advance_def Let_def close_part_def flip: g_def xs_def c_def ys_def)
      ultimately show ?thesis by simp
    next
      case False
      let ?g = "at_session (cl_session c) (\<lambda>t. t\<lparr>ts_closed := True\<rparr>) g"
      have opens: "open_session ?g i \<longleftrightarrow> i \<noteq> cl_session c \<and> open_session g i" for i
        by (auto simp: open_session_def get_at_session)
      have was: "open_session g (cl_session c)" using t False by (simp add: open_session_def)
      have "closing_inv ?g (xs @ c\<lparr>cl_phase := StoppingPump\<rparr> # ys) (tw_log w)"
        using I Entering was by (auto simp: closing_inv_def opens owners_Cons entering_Cons)
      moreover have "advance B n w = w\<lparr>tw_registry := ?g, tw_closers := xs @ c\<lparr>cl_phase := StoppingPump\<rparr> # ys\<rparr>"
        using Entering False t by (simp add: advance_def Let_def close_part_def upd flip: g_def c_def)
      ultimately show ?thesis by simp
    qed
  next
    case StoppingPump
    let ?g = "at_session (cl_session c) (\<lambda>t. t\<lparr>ts_pump := pump_close (ts_pump t)\<rparr>) g"
    have "closing_inv ?g (xs @ c\<lparr>cl_phase := AtBackend\<rparr> # ys) (tw_log w)"
      using I StoppingPump open_at_session [of "\<lambda>t. t\<lparr>ts_pump := pump_close (ts_pump t)\<rparr>" "cl_session c" g]
      by (auto simp: closing_inv_def owners_Cons entering_Cons)
    moreover have "advance B n w = w\<lparr>tw_registry := ?g, tw_closers := xs @ c\<lparr>cl_phase := AtBackend\<rparr> # ys\<rparr>"
      using StoppingPump t by (simp add: advance_def Let_def close_part_def upd flip: g_def c_def)
    ultimately show ?thesis by simp
  next
    case AtBackend
    let ?f = "\<lambda>t. t\<lparr>ts_backend := close_backend B (cl_reason c) (cl_send c) (ts_backend t)\<rparr>"
    have "closing_inv (at_session (cl_session c) ?f g) (xs @ ys) (tw_log w @ [cl_session c])"
      using I AtBackend kn open_at_session [of ?f "cl_session c" g]
      by (auto simp: closing_inv_def owners_Cons entering_Cons)
    moreover have "advance B n w =
        w\<lparr>tw_registry := at_session (cl_session c) ?f g, tw_closers := xs @ ys, tw_log := tw_log w @ [cl_session c]\<rparr>"
      using AtBackend t by (simp add: advance_def Let_def close_part_def flip: g_def xs_def c_def ys_def)
    ultimately show ?thesis by simp
  qed
qed

lemma record_event_closed [simp]: "ts_closed (record_event n t) = ts_closed t"
  by (simp add: record_event_def)

lemma transport_step_inv:
  "transport_step B w w' \<Longrightarrow> closing_inv (tw_registry w) (tw_closers w) (tw_log w) \<Longrightarrow>
   closing_inv (tw_registry w') (tw_closers w') (tw_log w')"
proof (induction rule: transport_step.induct)
  case (creating provide token resume w g r closing)
  then show ?case using creating_inv by simp
next
  case (releasing i reason send_command w g cs)
  then show ?case using releasing_inv by simp
next
  case (releasing_all reason w g cs)
  then show ?case using releasing_all_inv by simp
next
  case (advancing n w)
  then show ?case using advance_inv by blast
qed (auto elim!: closing_inv_frame simp: open_at_session)

lemma transport_reached: "(transport_step B)\<^sup>*\<^sup>* transport_start w \<Longrightarrow> closing_inv (tw_registry w) (tw_closers w) (tw_log w)"
proof (induction rule: rtranclp_induct)
  case base
  show ?case by (simp add: transport_start_def empty_registry_def closing_inv_def known_def open_session_def get_session_def)
qed (rule transport_step_inv)

section \<open>Draining the calls of close\<close>

text \<open>What is left to do of a call, and of all the calls.\<close>

fun parts_left :: "close_phase \<Rightarrow> nat" where
  "parts_left Entering = 3"
| "parts_left StoppingPump = 2"
| "parts_left AtBackend = 1"

definition work_left :: "closer list \<Rightarrow> nat" where
  "work_left cs = sum_list (map (\<lambda>c. parts_left (cl_phase c)) cs)"

lemma work_left_simps [simp]:
  "work_left [] = 0" "work_left (c # cs) = parts_left (cl_phase c) + work_left cs"
  "work_left (cs @ ds) = work_left cs + work_left ds"
  by (simp_all add: work_left_def)

lemma parts_left_pos: "0 < parts_left p"
  by (cases p) simp_all

lemma work_left_bound: "work_left cs \<le> 3 * length cs"
proof (induction cs)
  case (Cons c cs)
  have "parts_left (cl_phase c) \<le> 3" by (cases "cl_phase c") simp_all
  then show ?case using Cons by simp
qed simp

lemma close_part_left: "close_part B c g = (g', Some c') \<Longrightarrow> parts_left (cl_phase c') < parts_left (cl_phase c)"
  by (auto simp: close_part_def Let_def split: option.splits close_phase.splits if_splits)

lemma advance_less:
  assumes "n < length (tw_closers w)"
  shows "work_left (tw_closers (advance B n w)) < work_left (tw_closers w)"
proof -
  let ?cs = "tw_closers w" and ?c = "tw_closers w ! n"
  obtain g r where p: "close_part B ?c (tw_registry w) = (g, r)" by fastforce
  have cs: "work_left ?cs = work_left (take n ?cs) + parts_left (cl_phase ?c) + work_left (drop (Suc n) ?cs)"
    using arg_cong [OF split_nth [OF assms], of work_left] by simp
  show ?thesis
  proof (cases r)
    case None
    then show ?thesis using p cs parts_left_pos [of "cl_phase ?c"] by (simp add: advance_def Let_def)
  next
    case (Some c')
    then show ?thesis
      using p cs close_part_left [of B ?c "tw_registry w" g c'] assms
      by (simp add: advance_def Let_def upd_conv_take_nth_drop)
  qed
qed

lemma drains: "\<exists>n \<le> work_left (tw_closers w). tw_closers ((advance B 0 ^^ n) w) = []"
proof (induction "work_left (tw_closers w)" arbitrary: w rule: less_induct)
  case less
  show ?case
  proof (cases "tw_closers w")
    case Nil
    then show ?thesis by (intro exI [of _ 0]) simp
  next
    case (Cons c cs)
    then have "0 < length (tw_closers w)" by simp
    note small = advance_less [OF this, of B]
    obtain n where n: "n \<le> work_left (tw_closers (advance B 0 w))" "tw_closers ((advance B 0 ^^ n) (advance B 0 w)) = []"
      using less small by blast
    then have "tw_closers ((advance B 0 ^^ Suc n) w) = []" by (simp add: funpow_swap1 del: funpow.simps add: funpow_Suc_right)
    then show ?thesis using n(1) small by (intro exI [of _ "Suc n"]) simp
  qed
qed

section \<open>What holds of every session\<close>

lemma closing_facts:
  assumes "closing_inv g cs lg"
  shows "open_session g i \<Longrightarrow> sr_active g = Some i \<or> entering cs i"
    "count_list lg i \<le> 1" "open_session g i \<Longrightarrow> i \<notin> set lg"
    "known g i \<Longrightarrow> \<not> open_session g i \<Longrightarrow> \<not> (\<exists>c \<in> set cs. cl_session c = i) \<Longrightarrow> count_list lg i = 1"
    "active_session g = None \<Longrightarrow> open_session g i \<Longrightarrow> entering cs i"
proof -
  have c: "owners cs i + count_list lg i = (if open_session g i then 0 else 1)" if "known g i"
    using assms that by (simp add: closing_inv_def)
  have out: "count_list lg i = 0" if "\<not> known g i"
    using assms that by (intro count_notin) (auto simp: closing_inv_def)
  show "count_list lg i \<le> 1" using c out by (cases "known g i") (auto split: if_splits)
  show "i \<notin> set lg" if "open_session g i"
    using c [OF open_known [OF that]] that by (simp add: count_list_0_iff)
  show "count_list lg i = 1" if "known g i" "\<not> open_session g i" "\<not> (\<exists>c \<in> set cs. cl_session c = i)"
    using c [OF that(1)] that(2,3) by (auto simp: owners_def filter_empty_conv)
  show act: "sr_active g = Some i \<or> entering cs i" if "open_session g i"
    using assms that by (simp add: closing_inv_def)
  show "entering cs i" if "active_session g = None" "open_session g i"
    using act that by (auto simp: active_session_def open_session_def split: option.splits if_splits)
qed

lemma count_list_distinct: "(\<And>x. count_list xs x \<le> 1) \<Longrightarrow> distinct xs"
proof (induction xs)
  case (Cons x xs)
  have "count_list xs x = 0" using Cons.prems [of x] by simp
  moreover have "count_list xs y \<le> 1" for y using Cons.prems [of y] by (simp split: if_splits)
  ultimately show ?case using Cons.IH by (simp add: count_list_0_iff)
qed simp

lemma advances_reach:
  "(\<And>k. k < n \<Longrightarrow> tw_closers ((advance B 0 ^^ k) w) \<noteq> []) \<Longrightarrow>
   (transport_step B)\<^sup>*\<^sup>* w ((advance B 0 ^^ n) w)"
proof (induction n)
  case (Suc n)
  let ?v = "(advance B 0 ^^ n) w"
  have "(transport_step B)\<^sup>*\<^sup>* w ?v" using Suc.IH Suc.prems less_SucI by blast
  moreover have "0 < length (tw_closers ?v)" unfolding length_greater_0_conv by (rule Suc.prems) (rule lessI)
  then have "transport_step B ?v (advance B 0 ?v)" by (rule transport_step.advancing)
  ultimately have "(transport_step B)\<^sup>*\<^sup>* w (advance B 0 ?v)" by (rule rtranclp.rtrancl_into_rtrancl)
  then show ?case by (simp only: funpow.simps o_apply)
qed simp

lemma drained:
  assumes "(transport_step B)\<^sup>*\<^sup>* transport_start w"
  obtains n where "n \<le> 3 * length (tw_closers w)" "tw_closers ((advance B 0 ^^ n) w) = []"
    "(transport_step B)\<^sup>*\<^sup>* transport_start ((advance B 0 ^^ n) w)"
proof -
  define P where "P n \<longleftrightarrow> tw_closers ((advance B 0 ^^ n) w) = []" for n
  obtain n where n: "n \<le> work_left (tw_closers w)" "P n" using drains [of w B] P_def by blast
  obtain k where k: "P k" "\<And>j. j < k \<Longrightarrow> \<not> P j" using n(2) exists_least_iff [of P] by blast
  have "k \<le> n" using k(2) n(2) not_less by blast
  have "(transport_step B)\<^sup>*\<^sup>* w ((advance B 0 ^^ k) w)"
    using advances_reach [of k B w] k(2) unfolding P_def by blast
  then have "(transport_step B)\<^sup>*\<^sup>* transport_start ((advance B 0 ^^ k) w)" using assms by (meson rtranclp_trans)
  moreover have "k \<le> 3 * length (tw_closers w)"
    using \<open>k \<le> n\<close> n(1) work_left_bound [of "tw_closers w"] by linarith
  ultimately show ?thesis using that k(1) unfolding P_def by blast
qed

text \<open>C34: Closing the sessions of the HTTP binding.  In every state that creations, commands, streams
  and racing calls of \<open>close\<close> can reach: a session that is not closed is the active one, or a call
  that will close it is waiting at its lock; a backend is closed at most once and only after its
  session refuses clients; and when the calls under way are run to their ends, which takes at most
  three parts each, every session but the active one has had its backend closed exactly once.\<close>

theorem closed_exactly_once:
  assumes "(transport_step B)\<^sup>*\<^sup>* transport_start w"
  shows "(\<forall>i t. get_session i (tw_registry w) = Some t \<and> \<not> ts_closed t \<longrightarrow>
        i \<notin> set (tw_log w) \<and>
        (sr_active (tw_registry w) = Some i \<or> (\<exists>c \<in> set (tw_closers w). cl_session c = i \<and> cl_phase c = Entering))) \<and>
     distinct (tw_log w) \<and>
     (\<exists>n \<le> 3 * length (tw_closers w).
        let w' = (advance B 0 ^^ n) w in
        tw_closers w' = [] \<and>
        (\<forall>i t. get_session i (tw_registry w') = Some t \<longrightarrow>
           (if ts_closed t then count_list (tw_log w') i = 1
            else i \<notin> set (tw_log w') \<and> sr_active (tw_registry w') = Some i)))"
proof -
  note facts = closing_facts [OF transport_reached]
  obtain n where n: "n \<le> 3 * length (tw_closers w)" "tw_closers ((advance B 0 ^^ n) w) = []"
    "(transport_step B)\<^sup>*\<^sup>* transport_start ((advance B 0 ^^ n) w)"
    using drained [OF assms] .
  let ?w = "(advance B 0 ^^ n) w"
  have "if ts_closed t then count_list (tw_log ?w) i = 1 else i \<notin> set (tw_log ?w) \<and> sr_active (tw_registry ?w) = Some i"
    if t: "get_session i (tw_registry ?w) = Some t" for i t
    using facts(1,3,4) [OF n(3), of i] t n(2) by (auto simp: open_session_def known_def entering_def)
  then have "tw_closers ?w = [] \<and> (\<forall>i t. get_session i (tw_registry ?w) = Some t \<longrightarrow>
      (if ts_closed t then count_list (tw_log ?w) i = 1 else i \<notin> set (tw_log ?w) \<and> sr_active (tw_registry ?w) = Some i))"
    using n(2) by blast
  moreover have "distinct (tw_log w)" using facts(2) [OF assms] by (rule count_list_distinct)
  moreover have "i \<notin> set (tw_log w) \<and>
      (sr_active (tw_registry w) = Some i \<or> (\<exists>c \<in> set (tw_closers w). cl_session c = i \<and> cl_phase c = Entering))"
    if "get_session i (tw_registry w) = Some t" "\<not> ts_closed t" for i t
    using facts(1,3) [OF assms, of i] that by (auto simp: open_session_def entering_def)
  ultimately show ?thesis using n(1) unfolding Let_def by blast
qed

text \<open>A backend that counts how often it is closed, and a session closed by two calls at once.\<close>

definition counting_backend :: "nat backend_ops" where
  "counting_backend = \<lparr>bo_is_port = (\<lambda>_. True), bo_send = (\<lambda>_ b. (b, Inr ())), bo_close = Suc,
     bo_last_state = (\<lambda>_. Inl COMPLETED_TURN), bo_approval_mode = (\<lambda>_. None), bo_resume_last_sequence = (\<lambda>_. None)\<rparr>"

definition opened :: "nat session_registry" where
  "opened = fst (registry_create counting_backend (\<lambda>_. Inr 0) (lit ''t'') None empty_registry)"

definition raced_close :: "nat transport_world" where
  "raced_close =
     (let (g, cs) = release_session (lit ''t'') (lit ''session_deleted'') True opened;
          (g', ds) = release_all (lit ''app_shutdown'') g
      in transport_start\<lparr>tw_registry := g', tw_closers := cs @ ds\<rparr>)"

lemma opened_eq:
  "opened = \<lparr>sr_sessions = [(lit ''t'', \<lparr>ts_backend = 0, ts_closed = False, ts_cursor = 0, ts_pump = event_pump_init, ts_close_thread = False\<rparr>)],
     sr_active = Some (lit ''t'')\<rparr>"
  by (simp add: opened_def registry_create_def empty_registry_def active_session_def counting_backend_def resume_cursor_def
      mk_TransportSession_def guardR_def)

lemma raced_close_eq:
  "raced_close = \<lparr>tw_registry = opened\<lparr>sr_active := None\<rparr>,
     tw_closers = [entering_closer (lit ''session_deleted'') True (lit ''t''), entering_closer (lit ''app_shutdown'') True (lit ''t'')], tw_log = []\<rparr>"
  by (simp add: raced_close_def release_session_def release_all_def transport_start_def get_session_def opened_eq)

lemma raced_close_reached: "(transport_step counting_backend)\<^sup>*\<^sup>* transport_start raced_close"
proof -
  let ?w1 = "transport_start\<lparr>tw_registry := opened\<rparr>"
  obtain r closing where "registry_create counting_backend (\<lambda>_. Inr 0) (lit ''t'') None empty_registry = (opened, r, closing)"
    by (cases "registry_create counting_backend (\<lambda>_. Inr 0) (lit ''t'') None empty_registry") (simp add: opened_def)
  then have 1: "transport_step counting_backend transport_start ?w1"
    using transport_step.creating [of counting_backend _ "lit ''t''" None transport_start opened]
    by (simp add: transport_start_def) (simp add: empty_registry_def get_session_def)
  obtain g cs where r1: "release_session (lit ''t'') (lit ''session_deleted'') True opened = (g, cs)" by fastforce
  obtain g' ds where r2: "release_all (lit ''app_shutdown'') g = (g', ds)" by fastforce
  have 2: "transport_step counting_backend ?w1 (?w1\<lparr>tw_registry := g, tw_closers := cs\<rparr>)"
    using transport_step.releasing [of "lit ''t''" _ True ?w1, OF _] r1 by (simp add: transport_start_def)
  have 3: "transport_step counting_backend (?w1\<lparr>tw_registry := g, tw_closers := cs\<rparr>) raced_close"
    using transport_step.releasing_all [of "lit ''app_shutdown''" "?w1\<lparr>tw_registry := g, tw_closers := cs\<rparr>" g' ds] r1 r2
    by (simp add: raced_close_def)
  have "(transport_step counting_backend)\<^sup>*\<^sup>* transport_start (?w1\<lparr>tw_registry := g, tw_closers := cs\<rparr>)"
    using r_into_rtranclp [of "transport_step counting_backend", OF 1] 2 by (rule rtranclp.rtrancl_into_rtrancl)
  then show ?thesis using 3 by (rule rtranclp.rtrancl_into_rtrancl)
qed

lemma closed_exactly_once_witness:
  "length (tw_closers raced_close) = 2 \<and> distinct (tw_log raced_close) \<and>
   (\<exists>n \<le> 6. tw_closers ((advance counting_backend 0 ^^ n) raced_close) = [])"
  using closed_exactly_once [OF raced_close_reached] by (auto simp: raced_close_eq Let_def)

end
