(* ===== verification/Wire.thy ===== *)
theory Wire
  imports History
begin

text \<open>
  The values of the HTTP binding (\<open>transports/http/wire.py\<close>): responses, cursors and limits as
  they stand in a query, Server-Sent-Event frames, and the pages of history with the bound the
  transport itself keeps.
\<close>

section \<open>Responses\<close>

definition protocol_version :: int where "protocol_version = 1"

definition state_values :: "str list" where
  "state_values = map runtime_state_str all_states"

text \<open>\<open>_state_value\<close> of a state or of any other value.\<close>

definition state_value :: "RuntimeState + json \<Rightarrow> str" where
  "state_value v =
     (case v of
        Inl st \<Rightarrow> runtime_state_str st
      | Inr (JStr s) \<Rightarrow> if s \<in> set state_values then s else runtime_state_str FAILED
      | Inr _ \<Rightarrow> runtime_state_str FAILED)"

definition health_response :: jobj where
  "health_response = [(lit ''status'', JStr (lit ''ok'')), (lit ''protocol_version'', JInt protocol_version)]"

definition session_created_response :: "str \<Rightarrow> RuntimeState + json \<Rightarrow> int \<Rightarrow> str \<Rightarrow> jobj" where
  "session_created_response transport_session_id state cursor mode =
     [(lit ''transport_session_id'', JStr transport_session_id), (lit ''state'', JStr (state_value state)),
      (lit ''cursor'', JInt cursor), (lit ''approval_mode'', JStr mode)]"

definition session_status_response :: "RuntimeState + json \<Rightarrow> int \<Rightarrow> bool \<Rightarrow> str \<Rightarrow> jobj" where
  "session_status_response state cursor is_closed mode =
     [(lit ''state'', JStr (state_value state)), (lit ''cursor'', JInt cursor), (lit ''closed'', JBool is_closed),
      (lit ''approval_mode'', JStr mode)]"

definition accepted_response :: jobj where
  "accepted_response = [(lit ''accepted'', JBool True)]"

definition error_body :: "string \<Rightarrow> string \<Rightarrow> jobj" where
  "error_body code message = [(lit ''error'', JObj [(lit ''code'', JStr (lit code)), (lit ''message'', JStr (lit message))])]"

section \<open>Frames\<close>

text \<open>\<open>event_json\<close>: the compact form with the keys in the envelope's order.\<close>

definition event_json :: "platform \<Rightarrow> EventEnvelope \<Rightarrow> str res" where
  "event_json pl e = json_dumps (pl_frepr pl) (JObj (EventEnvelope_to_dict e))"

definition encode_sse :: "platform \<Rightarrow> EventEnvelope \<Rightarrow> str res" where
  "encode_sse pl e =
     bindR (guardR (0 \<le> ev_sequence e) (ValueError (lit ''event sequence must be a non-negative integer''))) (\<lambda>_.
     bindR (event_json pl e) (\<lambda>data.
     Inr (lit ''id: '' @ dec_int (ev_sequence e) @ [10] @ lit ''event: agent-event'' @ [10] @ lit ''data: '' @ data @ [10, 10])))"

definition encode_keepalive :: str where
  "encode_keepalive = lit '': keepalive'' @ [10, 10]"

section \<open>Cursors and limits\<close>

text \<open>A non-empty ASCII text of decimal digits, and \<open>int(value, 10)\<close> of one: the interpreter refuses
  more than 4300 digits.\<close>

definition decimal :: "str \<Rightarrow> bool" where
  "decimal s \<longleftrightarrow> s \<noteq> [] \<and> list_all is_digit s"

definition int_of_decimal :: "str \<Rightarrow> int option" where
  "int_of_decimal s = (if 4300 < length s then None else Some (int (digits_value s)))"

definition parse_decimal :: "exn \<Rightarrow> (int \<Rightarrow> bool) \<Rightarrow> str \<Rightarrow> int res" where
  "parse_decimal err admits s =
     (if \<not> decimal s then Inl err
      else (case int_of_decimal s of
              None \<Rightarrow> Inl err
            | Some n \<Rightarrow> if admits n then Inr n else Inl err))"

definition CursorError :: "string \<Rightarrow> exn" where
  "CursorError field = OtherError (lit ''CursorError'') (lit field @ lit '' must be a non-negative integer'')"

definition HistoryIdError :: exn where "HistoryIdError = OtherError (lit ''HistoryIdError'') []"
definition HistoryCursorError :: exn where "HistoryCursorError = OtherError (lit ''HistoryCursorError'') []"
definition HistoryLimitError :: exn where "HistoryLimitError = OtherError (lit ''HistoryLimitError'') []"

definition parse_cursor :: "str option \<Rightarrow> string \<Rightarrow> int res" where
  "parse_cursor value field =
     (case value of None \<Rightarrow> Inr 0 | Some s \<Rightarrow> parse_decimal (CursorError field) (\<lambda>n. 0 \<le> n) s)"

definition select_cursor :: "str option \<Rightarrow> str option \<Rightarrow> int res" where
  "select_cursor since last_event_id =
     bindR (parse_cursor since ''since'') (\<lambda>a. bindR (parse_cursor last_event_id ''Last-Event-ID'') (\<lambda>b. Inr (max a b)))"

definition parse_history_id :: "json \<Rightarrow> str res" where
  "parse_history_id v = (if is_jstr v \<and> history_id_ok (json_str v) then Inr (json_str v) else Inl HistoryIdError)"

definition parse_history_list_cursor :: "str option \<Rightarrow> str option res" where
  "parse_history_list_cursor value =
     (case value of None \<Rightarrow> Inr None | Some s \<Rightarrow> if cursor_token_ok s then Inr (Some s) else Inl HistoryCursorError)"

definition parse_history_sequence :: "str option \<Rightarrow> int res" where
  "parse_history_sequence value =
     (case value of
        None \<Rightarrow> Inr 0
      | Some s \<Rightarrow> parse_decimal HistoryCursorError (\<lambda>n. 0 \<le> n \<and> n \<le> history_sequence_limit) s)"

definition parse_history_limit :: "str option \<Rightarrow> int \<Rightarrow> int \<Rightarrow> int res" where
  "parse_history_limit value default_limit maximum =
     (case value of
        None \<Rightarrow> Inr default_limit
      | Some s \<Rightarrow> parse_decimal HistoryLimitError (\<lambda>n. 1 \<le> n \<and> n \<le> maximum) s)"

section \<open>Pages\<close>

text \<open>\<open>len(_canonical_json(value).encode("utf-8"))\<close>.\<close>

definition canonical_size :: "platform \<Rightarrow> jobj \<Rightarrow> int res" where
  "canonical_size pl d =
     bindR (canonical_json (pl_frepr pl) (JObj d)) (\<lambda>s. bindR (utf8_encode s) (\<lambda>bytes. Inr (int (length bytes))))"

text \<open>\<open>_payload_preview\<close>; the parts of a text that could be encoded can be encoded.\<close>

definition wire_preview :: "platform \<Rightarrow> jobj \<Rightarrow> int \<Rightarrow> jobj res" where
  "wire_preview pl payload limit =
     bindR (canonical_json (pl_frepr pl) (JObj payload)) (\<lambda>serialized.
     bindR (utf8_encode serialized) (\<lambda>bytes.
     let candidate = preview serialized (int (length bytes)) limit in
     Inr (search_preview candidate (\<lambda>c. int (utf8_len (render (pl_frepr pl) (JObj c))) \<le> limit)
            0 (int (length serialized)) (candidate 0))))"

definition bounded_history_event :: "platform \<Rightarrow> int \<Rightarrow> EventEnvelope \<Rightarrow> EventEnvelope res" where
  "bounded_history_event pl limit e =
     bindR (canonical_size pl (ev_payload e)) (\<lambda>n.
     if limit < n then bindR (wire_preview pl (ev_payload e) limit) (\<lambda>p. Inr (e\<lparr>ev_payload := p\<rparr>))
     else Inr e)"

definition wire_page :: "platform \<Rightarrow> SessionEventPage \<Rightarrow> int \<Rightarrow> jobj res" where
  "wire_page pl page limit =
     bindR (map_res (bounded_history_event pl limit) (ep_events page)) (\<lambda>es.
     Inr (SessionEventPage_to_dict (page\<lparr>ep_events := es\<rparr>)))"

text \<open>The loop over the bound on payloads, with the last check.\<close>

function wire_shrink :: "platform \<Rightarrow> (int \<Rightarrow> jobj res) \<Rightarrow> int \<Rightarrow> jobj \<Rightarrow> jobj res" where
  "wire_shrink pl build payload_limit v =
     (case canonical_size pl v of
        Inl e \<Rightarrow> Inl e
      | Inr nbytes \<Rightarrow>
          if history_page_bytes_limit < nbytes \<and> 128 < payload_limit
          then (let next_limit = max 128 (payload_limit * history_page_bytes_limit div nbytes - 1) in
                case build next_limit of Inl e \<Rightarrow> Inl e | Inr v' \<Rightarrow> wire_shrink pl build next_limit v')
          else if history_page_bytes_limit < nbytes
          then Inl (ValueError (lit ''history event page exceeds its response bound''))
          else Inr v)"
  by pat_completeness auto

termination wire_shrink
  by (relation "measure (\<lambda>(_, _, payload_limit, _). nat payload_limit)") (use lowered_limit in \<open>auto simp: Let_def\<close>)

declare wire_shrink.simps [simp del]

definition event_page_to_dict :: "platform \<Rightarrow> SessionEventPage \<Rightarrow> jobj res" where
  "event_page_to_dict pl page =
     (let build = wire_page pl page in
      bindR (build history_event_payload_limit) (\<lambda>v.
      bindR (canonical_size pl v) (\<lambda>nbytes.
      if nbytes \<le> history_page_bytes_limit then Inr v
      else
        bindR (build 128) (\<lambda>least.
        bindR (canonical_size pl least) (\<lambda>least_size.
        let payload_limit =
              min (max 128 ((history_page_bytes_limit - least_size) div max (int (length (ep_events page))) 1))
                history_event_payload_limit in
        bindR (build payload_limit) (wire_shrink pl build payload_limit))))))"

definition history_page_to_dict :: "SessionHistoryPage \<Rightarrow> jobj" where
  "history_page_to_dict = SessionHistoryPage_to_dict"

end
