(* ===== verification/HttpApp.thy ===== *)
theory HttpApp
  imports Transport Wire
begin

text \<open>
  The HTTP application (\<open>transports/http/app.py\<close>): what each route answers and what it does to the
  registry of sessions.  Routing, and the writing of a response to the socket, belong to the web
  framework; a handler here is a function of the parts of a request it reads.  \<open>transport_env\<close>
  holds what is configured: the platform, the operations of backend and provider, and the limit
  on bodies.
\<close>

section \<open>Responses\<close>

datatype content = NoContent | JsonContent jobj | JsonBytes "nat list" | EventStream int

record http_response =
  rs_status :: nat
  rs_content :: content

definition json_response :: "nat \<Rightarrow> jobj \<Rightarrow> http_response" where
  "json_response status d = \<lparr>rs_status = status, rs_content = JsonContent d\<rparr>"

definition json_error :: "nat \<Rightarrow> string \<Rightarrow> string \<Rightarrow> http_response" where
  "json_error status code message = json_response status (error_body code message)"

definition safe_error :: http_response where
  "safe_error = json_error 500 ''internal_error'' ''the Agent service could not complete the request''"

definition finite_json_response :: "platform \<Rightarrow> jobj \<Rightarrow> http_response" where
  "finite_json_response pl d =
     (case bindR (json_dumps (pl_frepr pl) (JObj d)) utf8_encode of
        Inl _ \<Rightarrow> safe_error
      | Inr payload \<Rightarrow>
          if 8 * 1024 * 1024 < length payload then safe_error
          else \<lparr>rs_status = 200, rs_content = JsonBytes payload\<rparr>)"

definition invalid_history_id :: http_response where
  "invalid_history_id = json_error 400 ''invalid_history_id'' ''history session ID is invalid''"

definition invalid_resume :: http_response where
  "invalid_resume = json_error 422 ''invalid_resume'' ''session cannot be resumed''"

definition session_closed_error :: http_response where
  "session_closed_error = json_error 410 ''session_closed'' ''transport session is closed''"

definition invalid_command :: http_response where
  "invalid_command = json_error 400 ''invalid_command'' ''command is invalid''"

definition invalid_session_request :: http_response where
  "invalid_session_request = json_error 400 ''invalid_session_request'' ''session request is invalid''"

text \<open>\<open>_provider_error\<close>.\<close>

definition provider_error :: "bool \<Rightarrow> exn \<Rightarrow> http_response" where
  "provider_error resume e =
     (if e = InvalidSessionHistoryIdError then invalid_history_id
      else if e = InvalidSessionHistoryCursorError then json_error 400 ''invalid_history_cursor'' ''history cursor is invalid''
      else if e = InvalidSessionHistoryLimitError then json_error 400 ''invalid_history_limit'' ''history limit is invalid''
      else if e = SessionHistoryNotFoundError
      then if resume then invalid_resume else json_error 404 ''history_not_found'' ''session history was not found''
      else if e = SessionResumeUnavailableError then invalid_resume
      else if e = SessionHistoryUnavailableError
      then if resume then invalid_resume else json_error 422 ''history_unavailable'' ''session history is unavailable''
      else safe_error)"

text \<open>\<open>except AgentBackendProviderError\<close>, then \<open>except Exception\<close>; anything else leaves the handler.\<close>

definition provider_failure :: "bool \<Rightarrow> exn \<Rightarrow> http_response res" where
  "provider_failure resume e =
     (if e \<in> set provider_errors then Inr (provider_error resume e)
      else if is_exception e then Inr safe_error else Inl e)"

section \<open>Queries\<close>

type_synonym query = "(str \<times> str) list"

definition query_values :: "query \<Rightarrow> string \<Rightarrow> str list" where
  "query_values q name = map snd (filter (\<lambda>p. fst p = lit name) q)"

definition first_value :: "str list \<Rightarrow> str option" where
  "first_value vs = (if vs = [] then None else Some (hd vs))"

definition history_query :: "bool \<Rightarrow> query \<Rightarrow> (str option \<times> int \<times> int) res" where
  "history_query event q =
     (let allowed = map lit (if event then [''since'', ''limit''] else [''cursor'', ''limit'']);
          unknown = filter (\<lambda>k. k \<notin> set allowed) (map fst q);
          limits = query_values q ''limit'' in
      bindR (guardR (unknown = [])
               (if \<exists>k \<in> set unknown. k \<in> set (map lit [''path'', ''filename'', ''session_dir''])
                then HistoryIdError else HistoryCursorError)) (\<lambda>_.
      bindR (guardR (length limits \<le> 1) HistoryLimitError) (\<lambda>_.
      bindR (parse_history_limit (first_value limits) (if event then 200 else 50) (if event then 200 else 100)) (\<lambda>limit.
      if event
      then bindR (guardR (length (query_values q ''since'') \<le> 1) HistoryCursorError) (\<lambda>_.
           bindR (parse_history_sequence (first_value (query_values q ''since''))) (\<lambda>since. Inr (None, since, limit)))
      else bindR (guardR (length (query_values q ''cursor'') \<le> 1) HistoryCursorError) (\<lambda>_.
           bindR (parse_history_list_cursor (first_value (query_values q ''cursor''))) (\<lambda>c. Inr (c, 0, limit)))))))"

definition query_error :: "exn \<Rightarrow> http_response" where
  "query_error e =
     (if e = HistoryIdError then invalid_history_id
      else if e = HistoryCursorError then json_error 400 ''invalid_history_cursor'' ''history cursor is invalid''
      else json_error 400 ''invalid_history_limit'' ''history limit is invalid'')"

section \<open>Bodies\<close>

text \<open>\<open>json.loads\<close> of bytes: the encoding is guessed, and surrogates are let through.\<close>

datatype json_encoding = Utf8 | Utf8Sig | Utf16 bool | Utf32 bool

text \<open>\<open>json.detect_encoding\<close>; the flag of an encoding says big-endian, and the number how long the
  mark is.\<close>

definition detect_encoding :: "nat list \<Rightarrow> json_encoding \<times> nat" where
  "detect_encoding b =
     (if take 4 b = [0, 0, 254, 255] then (Utf32 True, 4)
      else if take 4 b = [255, 254, 0, 0] then (Utf32 False, 4)
      else if take 2 b = [254, 255] then (Utf16 True, 2)
      else if take 2 b = [255, 254] then (Utf16 False, 2)
      else if take 3 b = [239, 187, 191] then (Utf8Sig, 3)
      else if 4 \<le> length b
      then (if b ! 0 = 0 then (if b ! 1 \<noteq> 0 then Utf16 True else Utf32 True)
            else if b ! 1 = 0 then (if b ! 2 \<noteq> 0 \<or> b ! 3 \<noteq> 0 then Utf16 False else Utf32 False)
            else Utf8, 0)
      else if length b = 2
      then (if b ! 0 = 0 then Utf16 True else if b ! 1 = 0 then Utf16 False else Utf8, 0)
      else (Utf8, 0))"

text \<open>\<open>surrogatepass\<close> in UTF-8: the three bytes of a surrogate stand for it.\<close>

fun utf8_pass :: "nat \<Rightarrow> nat list \<Rightarrow> str option" where
  "utf8_pass _ [] = Some []"
| "utf8_pass (Suc k) (b # bs) = utf8_pass k bs"
| "utf8_pass 0 (b # bs) =
     (case (b, bs) of
        (b1, b2 # b3 # _) \<Rightarrow>
          if b1 = 237 \<and> 160 \<le> b2 \<and> b2 < 192 \<and> is_cont b3
          then map_option ((#) ((b1 - 224) * 4096 + (b2 - 128) * 64 + (b3 - 128))) (utf8_pass 2 bs)
          else (case dec_step (b # bs) of
                  (None, _) \<Rightarrow> None
                | (Some c, n) \<Rightarrow> map_option ((#) c) (utf8_pass (n - 1) bs))
      | _ \<Rightarrow> (case dec_step (b # bs) of
                (None, _) \<Rightarrow> None
              | (Some c, n) \<Rightarrow> map_option ((#) c) (utf8_pass (n - 1) bs)))"

fun utf16_units :: "bool \<Rightarrow> nat list \<Rightarrow> (nat \<times> bool) list option" where
  "utf16_units be [] = Some []"
| "utf16_units be [_] = None"
| "utf16_units be (x # y # bs) =
     map_option ((#) (if be then x * 256 + y else y * 256 + x, True)) (utf16_units be bs)"

fun utf32_units :: "bool \<Rightarrow> nat list \<Rightarrow> str option" where
  "utf32_units be [] = Some []"
| "utf32_units be (w # x # y # z # bs) =
     (let c = (if be then ((w * 256 + x) * 256 + y) * 256 + z else ((z * 256 + y) * 256 + x) * 256 + w) in
      if 1114111 < c then None else map_option ((#) c) (utf32_units be bs))"
| "utf32_units be _ = None"

definition decode_body :: "nat list \<Rightarrow> str option" where
  "decode_body b =
     (case detect_encoding b of
        (Utf16 be, n) \<Rightarrow> map_option join_surrogates (utf16_units be (drop n b))
      | (Utf32 be, n) \<Rightarrow> utf32_units be (drop n b)
      | (_, n) \<Rightarrow> utf8_pass 0 (drop n b))"

definition loads_bytes :: "platform \<Rightarrow> nat list \<Rightarrow> json option" where
  "loads_bytes pl b = (case decode_body b of None \<Rightarrow> None | Some s \<Rightarrow> json_loads True (pl_fparse pl) s)"

text \<open>The reader of session requests: a repeated key of an object, and a constant like NaN, is an
  error.\<close>

fun closing_key :: "pstate \<Rightarrow> token \<Rightarrow> bool" where
  "closing_key (PAfter (FObj d s # st) v) k \<longleftrightarrow> (k = Comma \<or> k = RBrace) \<and> has_key d s"
| "closing_key _ _ \<longleftrightarrow> False"

definition strict_step :: "pstate \<Rightarrow> token \<Rightarrow> pstate" where
  "strict_step p k = (if closing_key p k then PFail else pstep p k)"

definition strict_loads :: "platform \<Rightarrow> nat list \<Rightarrow> json option" where
  "strict_loads pl b =
     (case decode_body b of
        None \<Rightarrow> None
      | Some s \<Rightarrow>
          if s \<noteq> [] \<and> hd s = 65279 then None
          else (case lex False (pl_fparse pl) s of
                  None \<Rightarrow> None
                | Some ts \<Rightarrow> (case foldl strict_step (PValue []) ts of PAfter [] v \<Rightarrow> Some v | _ \<Rightarrow> None)))"

definition SessionRequestError :: exn where
  "SessionRequestError = OtherError (lit ''_SessionRequestError'') []"

definition read_session_request :: "platform \<Rightarrow> nat \<Rightarrow> nat list \<Rightarrow> str option res" where
  "read_session_request pl max_bytes body =
     (if body = [] then Inr None
      else if max_bytes < length body then Inl SessionRequestError
      else
        (case strict_loads pl body of
           Some (JObj d) \<Rightarrow>
             if d = [] then Inr None
             else if set (map fst d) \<noteq> {lit ''resume_session_id''} then Inl SessionRequestError
             else bindR (parse_history_id (the (dget d (lit ''resume_session_id'')))) (\<lambda>i. Inr (Some i))
         | _ \<Rightarrow> Inl SessionRequestError))"

definition ensure_empty_history_body :: "nat list \<Rightarrow> unit res" where
  "ensure_empty_history_body body = guardR (body = []) SessionRequestError"

definition read_json :: "platform \<Rightarrow> nat \<Rightarrow> bool \<Rightarrow> nat list \<Rightarrow> json res" where
  "read_json pl max_bytes allow_empty body =
     (if body = [] then if allow_empty then Inr (JObj []) else Inl (CommandDecodeError ''request body is required'')
      else if max_bytes < length body then Inl (CommandDecodeError ''request body is too large'')
      else (case loads_bytes pl body of
              None \<Rightarrow> Inl (CommandDecodeError ''request body must be valid JSON'')
            | Some v \<Rightarrow> Inr v))"

section \<open>The event stream\<close>

text \<open>One round of the generator: what \<open>get\<close> returned, None for a timeout.\<close>

datatype stream_round = Yield str "int option" | Skip | Stop

definition stream_round :: "platform \<Rightarrow> int \<Rightarrow> queue_item option \<Rightarrow> stream_round" where
  "stream_round pl cursor item =
     (case item of
        None \<Rightarrow> Yield encode_keepalive None
      | Some Done \<Rightarrow> Stop
      | Some (Item e) \<Rightarrow>
          if ev_sequence e < 0 then Stop
          else if ev_sequence e \<le> cursor then Skip
          else (case encode_sse pl e of Inl _ \<Rightarrow> Stop | Inr f \<Rightarrow> Yield f (Some (ev_sequence e))))"

text \<open>The frames of a run, what they do to the session, and whether the generator has returned.  At its
  end the subscription is closed.\<close>

fun event_stream :: "platform \<Rightarrow> int \<Rightarrow> queue_item option list \<Rightarrow> 'b transport_session \<Rightarrow> str list \<times> 'b transport_session \<times> bool" where
  "event_stream pl cursor [] t = ([], t, False)"
| "event_stream pl cursor (x # xs) t =
     (case stream_round pl cursor x of
        Stop \<Rightarrow> ([], t, True)
      | Skip \<Rightarrow> event_stream pl cursor xs t
      | Yield f n \<Rightarrow>
          (case event_stream pl cursor xs (case n of None \<Rightarrow> t | Some k \<Rightarrow> record_event k t) of
             (fs, t', stopped) \<Rightarrow> (f # fs, t', stopped)))"

definition leave_stream :: "nat \<Rightarrow> 'b transport_session \<Rightarrow> 'b transport_session" where
  "leave_stream i t = t\<lparr>ts_pump := pump_unsubscribe i (subscription_close i (ts_pump t))\<rparr>"

section \<open>Handlers\<close>

text \<open>The provider's operations, over the state it keeps.\<close>

record ('p, 'b) provider_ops =
  po_list_sessions :: "str option \<Rightarrow> int \<Rightarrow> 'p \<Rightarrow> 'p \<times> SessionHistoryPage res"
  po_read_session_events :: "str \<Rightarrow> int \<Rightarrow> int \<Rightarrow> 'p \<Rightarrow> SessionEventPage res"
  po_create_session :: "str option \<Rightarrow> 'p \<Rightarrow> 'b res"

record ('p, 'b) transport_env =
  te_platform :: platform
  te_backend :: "'b backend_ops"
  te_provider :: "('p, 'b) provider_ops"
  te_max_body_bytes :: nat

record ('p, 'b) http_app =
  ha_provider :: 'p
  ha_registry :: "'b session_registry"

text \<open>\<open>_UnconfiguredProvider\<close>.\<close>

definition unconfigured_provider :: "('p, 'b) provider_ops" where
  "unconfigured_provider =
     (let e = RuntimeError (lit ''Agent backend provider is not configured'') in
      \<lparr>po_list_sessions = (\<lambda>_ _ p. (p, Inl e)), po_read_session_events = (\<lambda>_ _ _ _. Inl e), po_create_session = (\<lambda>_ _. Inl e)\<rparr>)"

text \<open>The checks of \<open>create_app\<close> on its settings.\<close>

definition create_app ::
  "'p \<Rightarrow> rat \<Rightarrow> int \<Rightarrow> rat \<Rightarrow> ('p, 'b) http_app res" where
  "create_app p keepalive_seconds max_body_bytes close_timeout =
     bindR (guardR (0 < keepalive_seconds) (ValueError (lit ''keepalive_seconds must be a positive number''))) (\<lambda>_.
     bindR (guardR (0 < max_body_bytes) (ValueError (lit ''max_body_bytes must be a positive integer''))) (\<lambda>_.
     bindR (mk_TransportSessionRegistry close_timeout) (\<lambda>g. Inr \<lparr>ha_provider = p, ha_registry = g\<rparr>)))"

definition secured :: "bool \<Rightarrow> bool \<Rightarrow> http_response res \<Rightarrow> http_response res" where
  "secured host_allowed origin_allowed answer =
     (if \<not> host_allowed then Inr (json_error 400 ''invalid_host'' ''request host is not allowed'')
      else if \<not> origin_allowed then Inr (json_error 400 ''invalid_origin'' ''request origin is not allowed'')
      else (case answer of Inr r \<Rightarrow> Inr r | Inl e \<Rightarrow> if is_exception e then Inr safe_error else Inl e))"

definition health :: http_response where
  "health = json_response 200 health_response"

text \<open>A session that is known and open, or the answer that it is not.\<close>

definition session_or_error :: "str \<Rightarrow> 'b session_registry \<Rightarrow> http_response + 'b transport_session" where
  "session_or_error i g =
     (case get_session i g of
        None \<Rightarrow> Inl (json_error 404 ''session_not_found'' ''transport session was not found'')
      | Some t \<Rightarrow> if ts_closed t then Inl session_closed_error else Inr t)"

definition session_history ::
  "('p, 'b) transport_env \<Rightarrow> query \<Rightarrow> nat list \<Rightarrow> ('p, 'b) http_app \<Rightarrow> ('p, 'b) http_app \<times> http_response res" where
  "session_history env q body a =
     (case history_query False q of
        Inl e \<Rightarrow> (a, Inr (query_error e))
      | Inr (cursor, _, limit) \<Rightarrow>
          (case ensure_empty_history_body body of
             Inl _ \<Rightarrow> (a, Inr invalid_session_request)
           | Inr _ \<Rightarrow>
               (case po_list_sessions (te_provider env) cursor limit (ha_provider a) of
                  (p, Inl e) \<Rightarrow> (a\<lparr>ha_provider := p\<rparr>, provider_failure False e)
                | (p, Inr page) \<Rightarrow>
                    (a\<lparr>ha_provider := p\<rparr>, Inr (finite_json_response (te_platform env) (history_page_to_dict page))))))"

definition session_history_events ::
  "('p, 'b) transport_env \<Rightarrow> str \<Rightarrow> query \<Rightarrow> nat list \<Rightarrow> ('p, 'b) http_app \<Rightarrow> http_response res" where
  "session_history_events env session_id q body a =
     (case parse_history_id (JStr session_id) of
        Inl _ \<Rightarrow> Inr invalid_history_id
      | Inr selected_id \<Rightarrow>
          (case history_query True q of
             Inl e \<Rightarrow> Inr (query_error e)
           | Inr (_, since, limit) \<Rightarrow>
               (case ensure_empty_history_body body of
                  Inl _ \<Rightarrow> Inr invalid_session_request
                | Inr _ \<Rightarrow>
                    (case bindR (po_read_session_events (te_provider env) selected_id since limit (ha_provider a))
                            (event_page_to_dict (te_platform env)) of
                       Inl e \<Rightarrow> provider_failure False e
                     | Inr d \<Rightarrow> Inr (finite_json_response (te_platform env) d)))))"

text \<open>The session is there when the response is built: nothing in building it raises.\<close>

definition post_session ::
  "('p, 'b) transport_env \<Rightarrow> str \<Rightarrow> nat list \<Rightarrow> ('p, 'b) http_app \<Rightarrow> ('p, 'b) http_app \<times> http_response res" where
  "post_session env token body a =
     (let B = te_backend env in
      case read_session_request (te_platform env) (te_max_body_bytes env) body of
        Inl e \<Rightarrow> (a, Inr (if e = HistoryIdError then invalid_history_id else invalid_session_request))
      | Inr resume \<Rightarrow>
          (case registry_create B (\<lambda>r. po_create_session (te_provider env) r (ha_provider a)) token resume (ha_registry a) of
             (g, Inl e, _) \<Rightarrow>
               (a\<lparr>ha_registry := g\<rparr>,
                if e = SessionExistsError
                then Inr (json_error 409 ''session_exists'' ''an active transport session already exists'')
                else provider_failure (resume \<noteq> None) e)
           | (g, Inr i, _) \<Rightarrow>
               (a\<lparr>ha_registry := g\<rparr>,
                case get_session i g of
                  None \<Rightarrow> Inr safe_error
                | Some t \<Rightarrow>
                    Inr (json_response 201 (session_created_response i (session_state B t) (ts_cursor t) (session_approval_mode B t))))))"

definition session_status :: "('p, 'b) transport_env \<Rightarrow> str \<Rightarrow> ('p, 'b) http_app \<Rightarrow> http_response" where
  "session_status env i a =
     (let B = te_backend env in
      case session_or_error i (ha_registry a) of
        Inl r \<Rightarrow> r
      | Inr t \<Rightarrow> json_response 200 (session_status_response (session_state B t) (ts_cursor t) (ts_closed t) (session_approval_mode B t)))"

definition session_events :: "str option \<Rightarrow> str option \<Rightarrow> str \<Rightarrow> ('p, 'b) http_app \<Rightarrow> http_response" where
  "session_events since last_event_id i a =
     (case select_cursor since last_event_id of
        Inl _ \<Rightarrow> json_error 400 ''invalid_cursor'' ''event cursor is invalid''
      | Inr cursor \<Rightarrow>
          (case session_or_error i (ha_registry a) of
             Inl r \<Rightarrow> r
           | Inr _ \<Rightarrow> \<lparr>rs_status = 200, rs_content = EventStream cursor\<rparr>))"

text \<open>The command route, with the calls of \<open>close\<close> it leaves to another thread.\<close>

definition send_to :: "'b backend_ops \<Rightarrow> str \<Rightarrow> AgentCommand \<Rightarrow> 'b session_registry \<Rightarrow> 'b session_registry \<times> unit res" where
  "send_to B i command g =
     (case get_session i g of
        None \<Rightarrow> (g, Inr ())
      | Some t \<Rightarrow>
          (case bo_send B command (ts_backend t) of
             (b, r) \<Rightarrow> (at_session i (\<lambda>t. t\<lparr>ts_backend := b\<rparr>) g, r)))"

definition accepted :: http_response where
  "accepted = json_response 202 accepted_response"

definition command_answer ::
  "'b backend_ops \<Rightarrow> str \<Rightarrow> AgentCommand \<Rightarrow> 'b session_registry \<Rightarrow> 'b session_registry \<times> closer list \<times> http_response res" where
  "command_answer B i command g =
     (case send_to B i command g of
        (g', Inr _) \<Rightarrow>
          (case command of
             CloseSession reason \<Rightarrow>
               (case close_session B i reason False False g' of (g2, cs, _) \<Rightarrow> (g2, cs, Inr accepted))
           | _ \<Rightarrow> (g', [], Inr accepted))
      | (g', Inl e) \<Rightarrow>
          if e = TurnInProgressError then (g', [], Inr (json_error 409 ''turn_in_progress'' ''a turn is already running''))
          else if e = BackendClosedError
          then (case close_session B i (lit ''backend_closed'') False True g' of (g2, cs, _) \<Rightarrow> (g2, cs, Inr session_closed_error))
          else if is_type_error e \<or> is_value_error e then (g', [], Inr invalid_command)
          else (g', [], if is_exception e then Inr safe_error else Inl e))"

definition post_command ::
  "('p, 'b) transport_env \<Rightarrow> str \<Rightarrow> nat list \<Rightarrow> ('p, 'b) http_app \<Rightarrow> ('p, 'b) http_app \<times> closer list \<times> http_response res" where
  "post_command env i body a =
     (case session_or_error i (ha_registry a) of
        Inl r \<Rightarrow> (a, [], Inr r)
      | Inr _ \<Rightarrow>
          (case bindR (read_json (te_platform env) (te_max_body_bytes env) False body) decode_command of
             Inl e \<Rightarrow> (a, [], Inr invalid_command)
           | Inr command \<Rightarrow>
               (case command_answer (te_backend env) i command (ha_registry a) of
                  (g, cs, r) \<Rightarrow> (a\<lparr>ha_registry := g\<rparr>, cs, r))))"

definition delete_session :: "('p, 'b) transport_env \<Rightarrow> str \<Rightarrow> ('p, 'b) http_app \<Rightarrow> ('p, 'b) http_app \<times> http_response" where
  "delete_session env i a =
     (case close_session (te_backend env) i (lit ''session_deleted'') True True (ha_registry a) of
        (g, _, found) \<Rightarrow>
          (a\<lparr>ha_registry := g\<rparr>,
           if found then \<lparr>rs_status = 204, rs_content = NoContent\<rparr>
           else json_error 404 ''session_not_found'' ''transport session was not found''))"

end
