(* ===== verification/WireProps.thy ===== *)
theory WireProps
  imports Wire HistoryProps
begin

text \<open>
  The frames of the HTTP binding read by a Server-Sent-Events client, and the pages of history
  on the wire.
\<close>

section \<open>A client of the stream\<close>

text \<open>The lines of a stream that have ended: by a line feed, a carriage return or both; the flag says
  that the character before was a carriage return.\<close>

fun sse_lines :: "bool \<Rightarrow> str \<Rightarrow> str \<Rightarrow> str list" where
  "sse_lines cr cur [] = []"
| "sse_lines cr cur (c # cs) =
     (if c = 10 then (if cr then [] else [cur]) @ sse_lines False [] cs
      else if c = 13 then cur # sse_lines True [] cs
      else sse_lines False (cur @ [c]) cs)"

text \<open>The client's last event id, and the event type and data lines of the event being read.\<close>

record sse_client =
  sc_id :: str
  sc_event :: str
  sc_data :: "str list"

definition sse_start :: sse_client where
  "sse_start = \<lparr>sc_id = [], sc_event = [], sc_data = []\<rparr>"

definition sse_field_of :: "str \<Rightarrow> str \<times> str" where
  "sse_field_of l =
     (let name = takeWhile (\<lambda>c. c \<noteq> 58) l; rest = drop (length name + 1) l in
      (name, if rest \<noteq> [] \<and> hd rest = 32 then tl rest else rest))"

definition sse_field :: "str \<times> str \<Rightarrow> sse_client \<Rightarrow> sse_client" where
  "sse_field f c =
     (if fst f = lit ''id'' then c\<lparr>sc_id := snd f\<rparr>
      else if fst f = lit ''event'' then c\<lparr>sc_event := snd f\<rparr>
      else if fst f = lit ''data'' then c\<lparr>sc_data := sc_data c @ [snd f]\<rparr>
      else c)"

text \<open>The messages of a list of lines: a line without text ends one, which is dropped if it has no
  data; a line that starts with a colon is a comment.\<close>

fun sse_messages :: "sse_client \<Rightarrow> str list \<Rightarrow> (str \<times> str \<times> str) list" where
  "sse_messages c [] = []"
| "sse_messages c (l # ls) =
     (if l = []
      then (if sc_data c = [] then [] else [(sc_id c, sc_event c, join_with 10 (sc_data c))]) @
             sse_messages (c\<lparr>sc_event := [], sc_data := []\<rparr>) ls
      else if hd l = 58 then sse_messages c ls
      else sse_messages (sse_field (sse_field_of l) c) ls)"

definition sse_read :: "str \<Rightarrow> (str \<times> str \<times> str) list" where
  "sse_read s = sse_messages sse_start (sse_lines False [] s)"

section \<open>Reading frames\<close>

lemma sse_lines_plain:
  "10 \<notin> set l \<Longrightarrow> 13 \<notin> set l \<Longrightarrow> sse_lines False cur (l @ 10 # s) = (cur @ l) # sse_lines False [] s"
  by (induction l arbitrary: cur) auto

definition resting :: "sse_client \<Rightarrow> bool" where
  "resting c \<longleftrightarrow> sc_event c = [] \<and> sc_data c = []"

lemma read_keepalive:
  "resting c \<Longrightarrow> sse_messages c (sse_lines False [] (encode_keepalive @ s)) = sse_messages c (sse_lines False [] s)"
  by (cases c) (simp add: resting_def encode_keepalive_def lit_def)

lemma dec_plain: "d \<notin> {48..57} \<Longrightarrow> d \<notin> set (dec n)"
  by (auto dest: dec_digits)

lemma encode_sse_lines:
  assumes "encode_sse pl e = Inr f" "event_floats_ok pl e"
  defines "data \<equiv> render (pl_frepr pl) (JObj (EventEnvelope_to_dict e))"
  shows "0 \<le> ev_sequence e \<and> finite_json (JObj (EventEnvelope_to_dict e)) \<and>
    sse_lines False [] (f @ s) =
      (lit ''id: '' @ dec_int (ev_sequence e)) # lit ''event: agent-event'' # (lit ''data: '' @ data) # [] # sse_lines False [] s"
proof -
  have f: "f = lit ''id: '' @ dec_int (ev_sequence e) @ [10] @ lit ''event: agent-event'' @ [10] @ lit ''data: '' @ data @ [10, 10]"
    and ok: "0 \<le> ev_sequence e" "finite_json (JObj (EventEnvelope_to_dict e))"
    using assms(1) by (auto simp: encode_sse_def event_json_def json_dumps_def bindR_Inr_iff data_def split: if_splits)
  have "\<forall>c \<in> set data. 32 \<le> c"
    unfolding data_def using render_printable envelope_dict_floats [OF assms(2)] by blast
  then have d: "10 \<notin> set (lit ''data: '' @ data)" "13 \<notin> set (lit ''data: '' @ data)" by (auto simp: lit_def)
  have i: "10 \<notin> set (lit ''id: '' @ dec_int (ev_sequence e))" "13 \<notin> set (lit ''id: '' @ dec_int (ev_sequence e))"
    using ok(1) by (simp_all add: dec_int_def lit_def dec_plain)
  have t: "10 \<notin> set (lit ''event: agent-event'')" "13 \<notin> set (lit ''event: agent-event'')" by (simp_all add: lit_def)
  have "f @ s = (lit ''id: '' @ dec_int (ev_sequence e)) @ 10 # (lit ''event: agent-event'' @ 10 # ((lit ''data: '' @ data) @ 10 # ([] @ 10 # s)))"
    by (simp add: f)
  then show ?thesis
    using ok by (simp only: sse_lines_plain [OF i] sse_lines_plain [OF t] sse_lines_plain [OF d] sse_lines.simps append_Nil) simp
qed

lemma sse_field_of_parts: "58 \<notin> set name \<Longrightarrow> sse_field_of (name @ [58, 32] @ v) = (name, v)"
  by (simp add: sse_field_of_def takeWhile_append)

lemma read_frame:
  assumes "encode_sse pl e = Inr f" "event_floats_ok pl e" "resting c"
  shows "sse_messages c (sse_lines False [] (f @ s)) =
      (dec_int (ev_sequence e), lit ''agent-event'', render (pl_frepr pl) (JObj (EventEnvelope_to_dict e))) #
      sse_messages (c\<lparr>sc_id := dec_int (ev_sequence e)\<rparr>) (sse_lines False [] s)"
proof -
  have i: "sse_field_of (lit ''id: '' @ v) = (lit ''id'', v)" "sse_field_of (lit ''event: '' @ v) = (lit ''event'', v)"
    "sse_field_of (lit ''data: '' @ v) = (lit ''data'', v)" for v
    using sse_field_of_parts [of "lit ''id''" v] sse_field_of_parts [of "lit ''event''" v] sse_field_of_parts [of "lit ''data''" v]
    by (simp_all add: lit_def)
  have t: "lit ''event: agent-event'' = lit ''event: '' @ lit ''agent-event''" by (simp add: lit_def)
  have h: "lit ''id: '' @ v \<noteq> []" "hd (lit ''id: '' @ v) \<noteq> 58" "lit ''event: '' @ v \<noteq> []" "hd (lit ''event: '' @ v) \<noteq> 58"
    "lit ''data: '' @ v \<noteq> []" "hd (lit ''data: '' @ v) \<noteq> 58" for v
    by (simp_all add: lit_def)
  have k: "lit ''event'' \<noteq> lit ''id''" "lit ''data'' \<noteq> lit ''id''" "lit ''data'' \<noteq> lit ''event''" by (simp_all add: lit_def)
  note lines = encode_sse_lines [OF assms(1,2), of s, THEN conjunct2, THEN conjunct2]
  show ?thesis
    using assms(3) unfolding lines t resting_def
    by (simp only: sse_messages.simps h if_False i) (cases c, simp add: sse_field_def k)
qed

section \<open>Cursors\<close>

lemma decimal_dec: "decimal (dec n)"
  by (auto simp: decimal_def list_all_iff is_digit_def dest: dec_digits)

lemma parse_decimal_dec:
  assumes "length (dec n) \<le> 4300"
  shows "parse_decimal err admits (dec n) = (if admits (int n) then Inr (int n) else Inl err)"
  using assms by (simp add: parse_decimal_def decimal_dec int_of_decimal_def digits_value_dec)

section \<open>Properties\<close>

text \<open>What the generator of a stream yields: a frame for an event, or the heartbeat.\<close>

definition stream_item :: "platform \<Rightarrow> EventEnvelope option \<Rightarrow> str res" where
  "stream_item pl x = (case x of None \<Rightarrow> Inr encode_keepalive | Some e \<Rightarrow> encode_sse pl e)"

text \<open>A client's message is the event: its data reads back as the envelope's dictionary, its type is
  the binding's, and its id, sent back as \<open>Last-Event-ID\<close>, selects the event's sequence.\<close>

definition carries :: "platform \<Rightarrow> EventEnvelope \<Rightarrow> str \<times> str \<times> str \<Rightarrow> bool" where
  "carries pl e m \<longleftrightarrow>
     (case m of (i, t, data) \<Rightarrow>
        select_cursor None (Some i) = Inr (ev_sequence e) \<and> t = lit ''agent-event'' \<and>
        json_loads False (pl_fparse pl) data = Some (JObj (EventEnvelope_to_dict e)))"

definition wire_event :: "platform \<Rightarrow> EventEnvelope \<Rightarrow> bool" where
  "wire_event pl e \<longleftrightarrow> json_wf (JObj (ev_payload e)) \<and> event_floats_ok pl e \<and> length (dec_int (ev_sequence e)) \<le> 4300"

lemma frame_carries:
  assumes "encode_sse pl e = Inr f" "wire_event pl e"
  shows "carries pl e (dec_int (ev_sequence e), lit ''agent-event'', render (pl_frepr pl) (JObj (EventEnvelope_to_dict e)))"
proof -
  have seq: "0 \<le> ev_sequence e" using encode_sse_lines [OF assms(1)] assms(2) by (simp add: wire_event_def)
  have "parse_cursor (Some (dec_int (ev_sequence e))) ''Last-Event-ID'' = Inr (ev_sequence e)"
    using seq assms(2) by (simp add: parse_cursor_def dec_int_def parse_decimal_dec wire_event_def)
  moreover have "json_loads False (pl_fparse pl) (render (pl_frepr pl) (JObj (EventEnvelope_to_dict e))) = Some (JObj (EventEnvelope_to_dict e))"
    using assms(2) by (intro loads_render envelope_dict_wf envelope_dict_floats) (simp_all add: wire_event_def)
  ultimately show ?thesis using seq by (simp add: carries_def select_cursor_def parse_cursor_def [of None] max_def)
qed

lemma stream_carries:
  assumes "map_res (stream_item pl) xs = Inr fs" "resting c" "\<forall>e. Some e \<in> set xs \<longrightarrow> wire_event pl e"
  shows "list_all2 (carries pl) (concat (map (case_option [] (\<lambda>e. [e])) xs)) (sse_messages c (sse_lines False [] (concat fs)))"
  using assms
proof (induction xs arbitrary: fs c)
  case (Cons x xs)
  from Cons.prems(1) obtain f gs where f: "stream_item pl x = Inr f" "map_res (stream_item pl) xs = Inr gs" "fs = f # gs"
    by (auto simp: bindR_Inr_iff)
  have rest: "\<forall>e. Some e \<in> set xs \<longrightarrow> wire_event pl e" using Cons.prems(3) by simp
  show ?case
  proof (cases x)
    case None
    then show ?thesis
      using f Cons.IH [OF f(2) Cons.prems(2) rest] by (simp add: stream_item_def read_keepalive [OF Cons.prems(2)])
  next
    case (Some e)
    then have e: "encode_sse pl e = Inr f" "wire_event pl e" using f(1) Cons.prems(3) by (simp_all add: stream_item_def)
    have "resting (c\<lparr>sc_id := dec_int (ev_sequence e)\<rparr>)" using Cons.prems(2) by (simp add: resting_def)
    from Cons.IH [OF f(2) this rest] show ?thesis
      using Some f(3) read_frame [OF e(1) _ Cons.prems(2), of "concat gs"] e(2) frame_carries [OF e] by (simp add: wire_event_def)
  qed
qed simp

text \<open>A client of the event stream reads exactly the events: whatever heartbeats stand between the
  frames, each frame is one message whose id selects the event's sequence as a cursor and whose
  data is the JSON of the whole envelope; nothing in an event can end its frame or start another.\<close>

lemma stream_messages:
  assumes "map_res (stream_item pl) xs = Inr frames" and "\<forall>e. Some e \<in> set xs \<longrightarrow> wire_event pl e"
  shows "list_all2 (carries pl) (concat (map (case_option [] (\<lambda>e. [e])) xs)) (sse_read (concat frames))"
  unfolding sse_read_def using assms by (intro stream_carries) (simp_all add: resting_def sse_start_def)

section \<open>Pages on the wire\<close>

lemma canonical_size_le:
  assumes "writable (pl_frepr pl) (JObj d)"
  shows "\<exists>n. canonical_size pl d = Inr n \<and> n \<le> int (ascii_size pl d)"
proof -
  let ?s = "render (pl_frepr pl) (sort_json (JObj d))"
  have "canonical_json (pl_frepr pl) (JObj d) = Inr ?s" using writable_finite [OF assms] by (simp only: canonical_json_Inr)
  moreover have "encodable ?s" by (intro encodable_render_writable writable_sort assms)
  moreover have "utf8_len ?s \<le> ascii_size pl d"
    using canonical_shorter [of "pl_frepr pl" "JObj d"] plain_shorter [of "pl_frepr pl" "JObj d"]
    by (simp only: ascii_size_def)
  ultimately show ?thesis
    by (simp add: canonical_size_def utf8_encode_def utf8_len_def del: render.simps sort_json.simps)
qed

text \<open>A page whose payloads and whose whole fit, in the most generous of the encodings.\<close>

definition page_fits :: "platform \<Rightarrow> SessionEventPage \<Rightarrow> bool" where
  "page_fits pl p \<longleftrightarrow>
     writable (pl_frepr pl) (JObj (SessionEventPage_to_dict p)) \<and> int (page_size pl p) \<le> history_page_bytes_limit \<and>
     (\<forall>e \<in> set (ep_events p). writable (pl_frepr pl) (JObj (ev_payload e)) \<and>
        int (ascii_size pl (ev_payload e)) \<le> history_event_payload_limit)"

lemma map_res_same: "\<forall>x \<in> set xs. f x = Inr x \<Longrightarrow> map_res f xs = Inr xs"
  by (induction xs) simp_all

lemma event_page_passes:
  assumes "page_fits pl p"
  shows "event_page_to_dict pl p = Inr (SessionEventPage_to_dict p)"
proof -
  have "bounded_history_event pl history_event_payload_limit e = Inr e" if "e \<in> set (ep_events p)" for e
  proof -
    have w: "writable (pl_frepr pl) (JObj (ev_payload e))" "int (ascii_size pl (ev_payload e)) \<le> history_event_payload_limit"
      using that assms by (simp_all add: page_fits_def del: writable.simps)
    from canonical_size_le [OF w(1)] w(2) show ?thesis by (auto simp: bounded_history_event_def)
  qed
  then have build: "wire_page pl p history_event_payload_limit = Inr (SessionEventPage_to_dict p)"
    by (simp add: wire_page_def map_res_same)
  from canonical_size_le assms obtain n where "canonical_size pl (SessionEventPage_to_dict p) = Inr n"
    "n \<le> history_page_bytes_limit" unfolding page_fits_def page_size_def by (meson order_trans)
  then show ?thesis by (simp add: event_page_to_dict_def Let_def build)
qed

end
