(* ===== verification/HttpStreamProps.thy ===== *)
theory HttpStreamProps
  imports HttpApp WireProps
begin

text \<open>
  The event stream from the backend's events to the client that reconnects: the pump's queues, the
  generator's frames, and the ids the client sends back.
\<close>

section \<open>What a generator yields\<close>

definition got :: "queue_item option list \<Rightarrow> queue_item list" where
  "got xs = concat (map (case_option [] (\<lambda>x. [x])) xs)"

lemma got_simps [simp]: "got [] = []" "got (None # xs) = got xs" "got (Some x # xs) = x # got xs"
  by (simp_all add: got_def)

lemma stream_item_simps [simp]: "stream_item pl None = Inr encode_keepalive" "stream_item pl (Some e) = encode_sse pl e"
  by (simp_all add: stream_item_def)

lemma open_stream:
  "event_stream pl cursor xs t = (fs, t', False) \<Longrightarrow>
   \<exists>ys. map_res (stream_item pl) ys = Inr fs \<and> Done \<notin> set (got xs) \<and>
     concat (map (case_option [] (\<lambda>e. [e])) ys) = beyond cursor (concat (map event_of (got xs)))"
proof (induction xs arbitrary: fs t)
  case Nil
  then show ?case by (intro exI [of _ "[]"]) (simp add: beyond_def)
next
  case (Cons x xs)
  show ?case
  proof (cases "stream_round pl cursor x")
    case (Yield f n)
    obtain gs u b where r: "event_stream pl cursor xs (case n of None \<Rightarrow> t | Some k \<Rightarrow> record_event k t) = (gs, u, b)"
      by (cases "event_stream pl cursor xs (case n of None \<Rightarrow> t | Some k \<Rightarrow> record_event k t)")
    then have fs: "fs = f # gs" "u = t'" "b = False" using Cons.prems Yield by simp_all
    from Cons.IH [OF r [unfolded fs(2,3)]] obtain ys where ys: "map_res (stream_item pl) ys = Inr gs" "Done \<notin> set (got xs)"
      "concat (map (case_option [] (\<lambda>e. [e])) ys) = beyond cursor (concat (map event_of (got xs)))" by blast
    show ?thesis
    proof (cases x)
      case None
      then show ?thesis using Yield ys fs by (intro exI [of _ "None # ys"]) (simp add: stream_round_def)
    next
      case (Some q)
      then obtain e where e: "x = Some (Item e)" "cursor < ev_sequence e" "encode_sse pl e = Inr f"
        using Yield by (cases q) (auto simp: stream_round_def split: if_splits sum.splits)
      then show ?thesis using ys fs by (intro exI [of _ "Some e # ys"]) (simp add: beyond_def)
    qed
  next
    case Skip
    then obtain e where e: "x = Some (Item e)" "ev_sequence e \<le> cursor"
      by (auto simp: stream_round_def split: option.splits queue_item.splits if_splits sum.splits)
    then show ?thesis using Cons.IH Cons.prems Skip by (simp add: beyond_def)
  next
    case Stop
    then show ?thesis using Cons.prems by simp
  qed
qed

lemma stream_cursor:
  "event_stream pl cursor xs t = (fs, t', b) \<Longrightarrow> ts_cursor t \<le> ts_cursor t' \<and> ts_pump t' = ts_pump t"
proof (induction xs arbitrary: t fs)
  case (Cons x xs)
  show ?case
  proof (cases "stream_round pl cursor x")
    case (Yield f n)
    obtain gs u c where r: "event_stream pl cursor xs (case n of None \<Rightarrow> t | Some k \<Rightarrow> record_event k t) = (gs, u, c)"
      by (cases "event_stream pl cursor xs (case n of None \<Rightarrow> t | Some k \<Rightarrow> record_event k t)")
    then have "u = t'" "c = b" using Cons.prems Yield by simp_all
    from Cons.IH [OF r [unfolded this]] show ?thesis by (cases n) (auto simp: record_event_def split: if_splits)
  qed (use Cons in auto)
qed simp

section \<open>One connection\<close>

lemma beyond_twice: "beyond c (beyond c es) = beyond c es"
  by (simp add: beyond_def)

text \<open>A client that has read a part of its queue has read the first of the events it asked for.\<close>

lemma connection_reads:
  assumes "event_stream pl cursor xs t = (fs, t', False)" and "got xs = take n (su_values u)"
    and "received u @ ds = beyond cursor cache" and "\<forall>e \<in> set cache. wire_event pl e"
  obtains es rest where "beyond cursor cache = es @ rest" "list_all2 (carries pl) es (sse_read (concat fs))"
    "concat (map event_of (drop n (su_values u))) @ ds = rest"
proof -
  let ?es = "concat (map event_of (got xs))" and ?rest = "concat (map event_of (drop n (su_values u)))"
  have "received u = ?es @ ?rest"
    using arg_cong [OF append_take_drop_id [of n "su_values u"], of "\<lambda>z. concat (map event_of z)"]
    by (simp add: received_def assms(2) del: append_take_drop_id)
  then have split: "beyond cursor cache = ?es @ (?rest @ ds)" using assms(3) by simp
  have "set ?es \<subseteq> set (beyond cursor cache)" unfolding split by simp
  then have same: "beyond cursor ?es = ?es" unfolding beyond_def by (intro filter_True) auto
  obtain ys where ys: "map_res (stream_item pl) ys = Inr fs" "concat (map (case_option [] (\<lambda>e. [e])) ys) = ?es"
    using open_stream [OF assms(1)] same by auto
  have "\<forall>e. Some e \<in> set ys \<longrightarrow> wire_event pl e"
  proof (intro allI impI)
    fix e assume "Some e \<in> set ys"
    then have "e \<in> set (concat (map (case_option [] (\<lambda>e. [e])) ys))" by (force split: option.splits)
    then have "e \<in> set (beyond cursor cache)" unfolding ys(2) split by simp
    then show "wire_event pl e" using assms(4) by (simp add: beyond_def)
  qed
  from stream_messages [OF ys(1) this] show ?thesis using that split unfolding ys(2) by blast
qed

section \<open>Two connections\<close>

lemma pump_cache_grows: "pump_step p q \<Longrightarrow> \<exists>es. pm_cache q = pm_cache p @ es"
proof (induction rule: pump_step.induct)
  case (subscribe cursor p p' i)
  then show ?case by (auto simp: pump_subscribe_def bindR_Inr_iff Let_def)
next
  case (putting p)
  then show ?case by (auto simp: pump_put_def split: pump_phase.splits list.splits)
next
  case (closing_put p)
  then show ?case by (auto simp: closing_put_def split: list.splits)
qed (simp_all add: subscription_close_def pump_unsubscribe_def pump_fetch_def pump_end_def pump_close_def)

lemma pump_cache_prefix: "pump_step\<^sup>*\<^sup>* p q \<Longrightarrow> \<exists>es. pm_cache q = pm_cache p @ es"
proof (induction rule: rtranclp_induct)
  case (step q r)
  then show ?case using pump_cache_grows [OF step(2)] by fastforce
qed simp

lemma delivered:
  assumes "pump_step\<^sup>*\<^sup>* event_pump_init p" "i < length (pm_subscriptions p)" "\<not> su_closed (pm_subscriptions p ! i)"
  shows "received (pm_subscriptions p ! i) @ due p i (pm_subscriptions p ! i) = beyond (su_cursor (pm_subscriptions p ! i)) (pm_cache p)"
  using pump_inv_subscription [OF pump_reached [OF assms(1)] assms(2,3)] by (simp add: subscription_inv_def)

text \<open>The id a client sends back selects the place it has reached.\<close>

lemma last_id_selects:
  assumes "select_cursor since None = Inr c" "list_all2 (carries pl) es msgs" "\<forall>e \<in> set es. c < ev_sequence e"
    and "select_cursor since (if msgs = [] then None else Some (fst (last msgs))) = Inr c'"
  shows "c' = (if es = [] then c else ev_sequence (last es))"
proof (cases "es = []")
  case True
  then show ?thesis using assms(1,2,4) by simp
next
  case False
  then have ne: "msgs \<noteq> []" using assms(2) by auto
  have "carries pl (last es) (last msgs)"
    using assms(2) False ne list_all2_lengthD [OF assms(2)] by (simp add: last_conv_nth list_all2_nthD2)
  then have id: "select_cursor None (Some (fst (last msgs))) = Inr (ev_sequence (last es))"
    by (simp add: carries_def split: prod.splits)
  have "parse_cursor since ''since'' = Inr c" "0 \<le> c"
    using assms(1) by (auto simp: select_cursor_def parse_cursor_def parse_decimal_def bindR_Inr_iff max_def split: option.splits if_splits)
  moreover have "c < ev_sequence (last es)" using assms(3) False by simp
  ultimately show ?thesis
    using assms(4) id False ne by (auto simp: select_cursor_def parse_cursor_def [of None] bindR_Inr_iff max_def split: if_splits)
qed

text \<open>C35: No event is lost or repeated when a client of the event stream reconnects.  It reads a part of
  what its first subscription holds, loses the connection at any moment, and comes back, later
  and with the id of the last message it has read, to a subscription that has been served in
  full: the messages of the two connections together carry, in order, exactly the session's
  events beyond the cursor of the first request.\<close>

theorem reconnect_complete:
  assumes "pump_step\<^sup>*\<^sup>* event_pump_init p" and "pump_step\<^sup>*\<^sup>* p q" and "numbered (pm_cache q)"
    and "\<forall>e \<in> set (pm_cache q). wire_event pl e"
    and "i < length (pm_subscriptions p)" and "u = pm_subscriptions p ! i" and "\<not> su_closed u"
    and "k < length (pm_subscriptions q)" and "v = pm_subscriptions q ! k" and "\<not> su_closed v" and "due q k v = []"
    and "select_cursor since None = Inr (su_cursor u)"
    and "event_stream pl (su_cursor u) xs t = (fs, t', False)" and "got xs = take n (su_values u)"
    and "msgs = sse_read (concat fs)"
    and "select_cursor since (if msgs = [] then None else Some (fst (last msgs))) = Inr (su_cursor v)"
    and "event_stream pl (su_cursor v) ys t2 = (gs, t2', False)" and "got ys = su_values v"
  shows "list_all2 (carries pl) (beyond (su_cursor u) (pm_cache q)) (msgs @ sse_read (concat gs))"
proof -
  obtain more_events where grown: "pm_cache q = pm_cache p @ more_events" using pump_cache_prefix [OF assms(2)] by blast
  have wire: "\<forall>e \<in> set (pm_cache p). wire_event pl e" using assms(4) grown by simp
  note first = delivered [OF assms(1,5), folded assms(6), OF assms(7)]
  obtain es rest where es: "beyond (su_cursor u) (pm_cache p) = es @ rest" "list_all2 (carries pl) es msgs"
    using connection_reads [OF assms(13,14) first wire] assms(15) by blast
  then have all: "beyond (su_cursor u) (pm_cache q) = es @ (rest @ beyond (su_cursor u) more_events)" by (simp add: grown)
  have "set es \<subseteq> set (beyond (su_cursor u) (pm_cache p))" using es(1) by simp
  then have "\<forall>e \<in> set es. su_cursor u < ev_sequence e" by (auto simp: beyond_def)
  from last_id_selects [OF assms(12) es(2) this assms(16)]
  have left: "beyond (su_cursor v) (pm_cache q) = rest @ beyond (su_cursor u) more_events"
    using beyond_rest [OF assms(3) all] by simp
  have reach: "pump_step\<^sup>*\<^sup>* event_pump_init q" using assms(1,2) by (rule rtranclp_trans)
  note second = delivered [OF reach assms(8), folded assms(9), OF assms(10)]
  have "got ys = take (length (su_values v)) (su_values v)" using assms(18) by simp
  from connection_reads [OF assms(17) this second assms(4)] obtain es2 rest2 where
    es2: "beyond (su_cursor v) (pm_cache q) = es2 @ rest2" "list_all2 (carries pl) es2 (sse_read (concat gs))" "rest2 = []"
    using assms(11) by auto
  then show ?thesis using all es(2) left by (simp add: list_all2_appendI)
qed

section \<open>Witness\<close>

text \<open>A client that reads the first event, and reconnects to read the second.\<close>

definition second_envelope :: EventEnvelope where
  "second_envelope = first_envelope\<lparr>ev_sequence := 2\<rparr>"

definition pump_before :: event_pump where
  "pump_before =
     \<lparr>pm_subscriptions = [\<lparr>su_cursor = 0, su_values = [Item first_envelope], su_closed = False\<rparr>],
      pm_subscribers = [0], pm_cache = [first_envelope], pm_done = False, pm_stop = False,
      pm_phase = Delivering first_envelope [], pm_closing = []\<rparr>"

definition pump_after :: event_pump where
  "pump_after =
     \<lparr>pm_subscriptions = [\<lparr>su_cursor = 0, su_values = [Item first_envelope, Item second_envelope], su_closed = False\<rparr>,
        \<lparr>su_cursor = 1, su_values = [Item second_envelope], su_closed = False\<rparr>],
      pm_subscribers = [0, 1], pm_cache = [first_envelope, second_envelope], pm_done = False, pm_stop = False,
      pm_phase = Delivering second_envelope [], pm_closing = []\<rparr>"

lemma envelope_sequences: "ev_sequence first_envelope = 1" "ev_sequence second_envelope = 2"
  by (simp_all add: second_envelope_def first_envelope_def sample_envelope_def)

lemma pump_before_reached: "pump_step\<^sup>*\<^sup>* event_pump_init pump_before"
proof -
  obtain p1 where p1: "pump_subscribe 0 event_pump_init = Inr (p1, 0)" by (simp add: pump_subscribe_def event_pump_init_def)
  have phase: "pm_phase p1 = Fetching" using p1 by (auto simp: pump_subscribe_def event_pump_init_def)
  have "pump_put (pump_fetch first_envelope p1) = pump_before"
    using p1 by (auto simp: pump_subscribe_def event_pump_init_def pump_fetch_def pump_put_def at_subscription_def deliver_to_def
        put_item_def pump_before_def beyond_def envelope_sequences)
  then have "pump_step (pump_fetch first_envelope p1) pump_before" using pump_step.putting [of "pump_fetch first_envelope p1"] by simp
  moreover have "pump_step p1 (pump_fetch first_envelope p1)" using phase by (rule pump_step.fetch)
  moreover have "pump_step event_pump_init p1" using p1 by (rule pump_step.subscribe)
  ultimately show ?thesis by (meson converse_rtranclp_into_rtranclp r_into_rtranclp)
qed

lemma pump_after_reached: "pump_step\<^sup>*\<^sup>* pump_before pump_after"
proof -
  let ?p1 = "pump_put pump_before"
  obtain p2 where p2: "pump_subscribe 1 ?p1 = Inr (p2, 1)"
    by (simp add: pump_subscribe_def pump_put_def pump_before_def)
  let ?p3 = "pump_fetch second_envelope p2"
  have phase: "pm_phase p2 = Fetching" using p2 by (auto simp: pump_subscribe_def pump_put_def pump_before_def)
  have "pump_put (pump_put ?p3) = pump_after"
    using p2 by (auto simp: pump_subscribe_def pump_before_def pump_fetch_def pump_put_def at_subscription_def deliver_to_def
        put_item_def pump_after_def beyond_def envelope_sequences)
  then have "pump_step (pump_put ?p3) pump_after" using pump_step.putting [of "pump_put ?p3"] by simp
  moreover have "pump_step ?p3 (pump_put ?p3)" by (rule pump_step.putting)
  moreover have "pump_step p2 ?p3" using phase by (rule pump_step.fetch)
  moreover have "pump_step ?p1 p2" using p2 by (rule pump_step.subscribe)
  moreover have "pump_step pump_before ?p1" by (rule pump_step.putting)
  ultimately show ?thesis by (meson converse_rtranclp_into_rtranclp r_into_rtranclp)
qed

lemma envelopes_wire: "wire_event sample_platform first_envelope" "wire_event sample_platform second_envelope"
  by (simp_all add: wire_event_def event_floats_ok_def second_envelope_def first_envelope_def sample_envelope_def dec_int_def dec.simps)

lemma envelopes_encode: "\<exists>f. encode_sse sample_platform first_envelope = Inr f" "\<exists>f. encode_sse sample_platform second_envelope = Inr f"
  by (simp_all add: encode_sse_def event_json_def json_dumps_def envelope_sequences EventEnvelope_to_dict_def second_envelope_def
      first_envelope_def sample_envelope_def json_opt_str_def del: render.simps)

theorem reconnect_complete_witness:
  "\<exists>fs gs t t'. event_stream sample_platform 0 [None, Some (Item first_envelope)] \<lparr>ts_backend = (), ts_closed = False, ts_cursor = 0,
        ts_pump = pump_before, ts_close_thread = False\<rparr> = (fs, t, False) \<and>
     event_stream sample_platform 1 [Some (Item second_envelope)] t = (gs, t', False) \<and>
     list_all2 (carries sample_platform) [first_envelope, second_envelope] (sse_read (concat fs) @ sse_read (concat gs))"
proof -
  let ?t = "\<lparr>ts_backend = (), ts_closed = False, ts_cursor = 0, ts_pump = pump_before, ts_close_thread = False\<rparr>"
  let ?xs = "[None, Some (Item first_envelope)]" and ?ys = "[Some (Item second_envelope)]"
  obtain f g where f: "encode_sse sample_platform first_envelope = Inr f" "encode_sse sample_platform second_envelope = Inr g"
    using envelopes_encode by blast
  obtain fs t where 1: "event_stream sample_platform 0 ?xs ?t = (fs, t, False)"
    by (simp add: stream_round_def f envelope_sequences)
  obtain gs t' where 2: "event_stream sample_platform 1 ?ys t = (gs, t', False)"
    by (simp add: stream_round_def f envelope_sequences)
  let ?u = "pm_subscriptions pump_before ! 0" and ?v = "pm_subscriptions pump_after ! 1"
  have u: "su_cursor ?u = 0" "su_values ?u = [Item first_envelope]" and v: "su_cursor ?v = 1" "su_values ?v = [Item second_envelope]"
    by (simp_all add: pump_before_def pump_after_def)
  note first = delivered [OF pump_before_reached, of 0]
  obtain es rest where es: "beyond 0 [first_envelope] = es @ rest" "list_all2 (carries sample_platform) es (sse_read (concat fs))" "rest = []"
    using connection_reads [OF 1, of 1 ?u "[]" "[first_envelope]"] u envelopes_wire by (auto simp: received_def beyond_def envelope_sequences)
  then have "list_all2 (carries sample_platform) [first_envelope] (sse_read (concat fs))" by (simp add: beyond_def envelope_sequences)
  then obtain m where m: "sse_read (concat fs) = [m]" "carries sample_platform first_envelope m" by (auto simp: list_all2_Cons1)
  then have id: "select_cursor None (Some (fst m)) = Inr 1" by (simp add: carries_def envelope_sequences split: prod.splits)
  have "list_all2 (carries sample_platform) (beyond (su_cursor ?u) (pm_cache pump_after)) (sse_read (concat fs) @ sse_read (concat gs))"
    using reconnect_complete [OF pump_before_reached pump_after_reached, where i = 0 and k = 1 and u = ?u and v = ?v and since = None
        and xs = ?xs and ys = ?ys and pl = sample_platform and t = ?t and fs = fs and t' = t and n = 1 and msgs = "sse_read (concat fs)"
        and ?t2.0 = t and gs = gs and ?t2'.0 = t'] 1 2 u v m(1) id envelopes_wire
    by (simp add: pump_before_def pump_after_def numbered_def envelope_sequences due_def select_cursor_def [of None None] parse_cursor_def
        del: event_stream.simps)
  then show ?thesis using 1 2 u by (intro exI conjI) (simp_all add: pump_after_def beyond_def envelope_sequences del: event_stream.simps)
qed

end
