(* ===== verification/HttpProps.thy ===== *)
theory HttpProps
  imports HttpApp WireProps TransportProps
begin

text \<open>
  What the routes answer: the outcomes of a command, the life of a session seen through HTTP, and the
  pages of history.
\<close>

section \<open>Sessions through the registry\<close>

lemma get_active [simp]: "get_session i (g\<lparr>sr_active := x\<rparr>) = get_session i g"
  by (simp add: get_session_def)

text \<open>The session after a call of \<open>close_session\<close> on one that is open, and the rest of the registry.\<close>

definition stopped_session :: "'b transport_session \<Rightarrow> 'b transport_session" where
  "stopped_session t = t\<lparr>ts_closed := True, ts_pump := pump_close (ts_pump t)\<rparr>"

lemma close_open_session:
  assumes "get_session i g = Some t" "\<not> ts_closed t" "close_session B i reason send_command wait g = (g', cs, found)"
  shows "found" "sr_active g' = (if sr_active g = Some i then None else sr_active g)"
    "get_session i g' = Some (if wait then (stopped_session t)\<lparr>ts_backend := close_backend B reason send_command (ts_backend t)\<rparr>
       else (stopped_session t)\<lparr>ts_close_thread := True\<rparr>)"
    "j \<noteq> i \<Longrightarrow> get_session j g' = get_session j g"
    "cs = (if wait then [] else [\<lparr>cl_session = i, cl_reason = reason, cl_send = send_command, cl_phase = AtBackend\<rparr>])"
  using assms
  by (auto simp: close_session_def release_session_def close_part_def Let_def entering_closer_def get_at_session stopped_session_def
      split: if_splits)

lemma close_closed_session:
  assumes "get_session i g = Some t" "ts_closed t"
  shows "close_session B i reason send_command wait g = (g\<lparr>sr_active := if sr_active g = Some i then None else sr_active g\<rparr>, [], True)"
  using assms by (simp add: close_session_def release_session_def close_part_def Let_def entering_closer_def)

lemma send_to_open:
  assumes "get_session i g = Some t" "bo_send B command (ts_backend t) = (b, r)"
  shows "send_to B i command g = (at_session i (\<lambda>t. t\<lparr>ts_backend := b\<rparr>) g, r)"
  using assms by (simp add: send_to_def)

lemma at_session_same:
  assumes "get_session i g = Some t" "f t = t"
  shows "at_session i f g = g"
proof -
  have "dset d k v = d" if "dget d k = Some v" for d k and v :: "'b transport_session" using that
  proof (induction d)
    case (Cons p d)
    then show ?case by (cases p) (auto split: if_splits)
  qed simp
  from this [of "sr_sessions g" i t] show ?thesis using assms by (cases g) (simp add: at_session_def get_session_def)
qed

section \<open>The contract of a backend\<close>

text \<open>What the transport relies on: a stopped backend refuses every command, closing and an accepted
  close command stop it, and the only refusal of a running backend is that a turn is running.\<close>

locale port_contract =
  fixes B :: "'b backend_ops" and stopped :: "'b \<Rightarrow> bool" and busy :: "'b \<Rightarrow> bool"
  assumes refuses: "stopped b \<Longrightarrow> bo_send B c b = (b, Inl BackendClosedError)"
    and running: "\<not> stopped b \<Longrightarrow> command_ok c \<Longrightarrow>
      bo_send B c b = (if busy b \<and> task_of c \<noteq> [] then (b, Inl TurnInProgressError) else (fst (bo_send B c b), Inr ()))"
    and close_command: "\<not> stopped b \<Longrightarrow> stopped (fst (bo_send B (CloseSession r) b))"
    and closing: "stopped (bo_close B b)"
begin

lemma answer_stopped:
  assumes "get_session i g = Some t" "\<not> ts_closed t" "stopped (ts_backend t)"
  shows "\<exists>g'. command_answer B i c g = (g', [], Inr session_closed_error) \<and>
    get_session i g' = Some ((stopped_session t)\<lparr>ts_backend := close_backend B (lit ''backend_closed'') False (ts_backend t)\<rparr>)"
proof -
  have "send_to B i c g = (g, Inl BackendClosedError)"
    using send_to_open [OF assms(1) refuses [OF assms(3)], of c] at_session_same [OF assms(1)] by simp
  moreover obtain g' cs found where c: "close_session B i (lit ''backend_closed'') False True g = (g', cs, found)" by (metis prod_cases3)
  ultimately show ?thesis
    using close_open_session(3,5) [OF assms(1,2) c]
    by (simp add: command_answer_def BackendClosedError_def TurnInProgressError_def lit_def)
qed

lemma answer_busy:
  assumes "get_session i g = Some t" "\<not> stopped (ts_backend t)" "command_ok c" "busy (ts_backend t)" "task_of c \<noteq> []"
  shows "command_answer B i c g = (g, [], Inr (json_error 409 ''turn_in_progress'' ''a turn is already running''))"
proof -
  have "bo_send B c (ts_backend t) = (ts_backend t, Inl TurnInProgressError)" using running [OF assms(2,3)] assms(4,5) by simp
  then show ?thesis using send_to_open [OF assms(1)] at_session_same [OF assms(1)] by (simp add: command_answer_def)
qed

lemma answer_accepted:
  assumes "get_session i g = Some t" "\<not> ts_closed t" "\<not> stopped (ts_backend t)" "command_ok c" "\<not> (busy (ts_backend t) \<and> task_of c \<noteq> [])"
  defines "b \<equiv> fst (bo_send B c (ts_backend t))"
  shows "\<exists>g' cs. command_answer B i c g = (g', cs, Inr accepted) \<and>
    (case c of
       CloseSession r \<Rightarrow> cs = [\<lparr>cl_session = i, cl_reason = r, cl_send = False, cl_phase = AtBackend\<rparr>] \<and> stopped b \<and>
         get_session i g' = Some ((stopped_session t)\<lparr>ts_backend := b, ts_close_thread := True\<rparr>)
     | _ \<Rightarrow> cs = [] \<and> get_session i g' = Some (t\<lparr>ts_backend := b\<rparr>))"
proof -
  have "bo_send B c (ts_backend t) = (b, Inr ())" using running [OF assms(3,4)] assms(5) by (simp add: b_def)
  then have s: "send_to B i c g = (at_session i (\<lambda>t. t\<lparr>ts_backend := b\<rparr>) g, Inr ())" by (rule send_to_open [OF assms(1)])
  let ?g = "at_session i (\<lambda>t. t\<lparr>ts_backend := b\<rparr>) g"
  have t: "get_session i ?g = Some (t\<lparr>ts_backend := b\<rparr>)" by (simp add: get_at_session assms(1))
  show ?thesis
  proof (cases c)
    case (CloseSession r)
    obtain g' cs found where k: "close_session B i r False False ?g = (g', cs, found)" by (metis prod_cases3)
    have "stopped b" using close_command [OF assms(3)] CloseSession by (simp add: b_def)
    then show ?thesis
      using s close_open_session(3,5) [OF t _ k] assms(2) CloseSession
      by (simp add: command_answer_def k stopped_session_def)
  qed (use s t in \<open>simp_all add: command_answer_def\<close>)
qed

end

section \<open>The service behind the port\<close>

text \<open>The application service as the backend of a transport session: \<open>n\<close> parts of its worker run while
  \<open>close\<close> waits for it, and \<open>resumed\<close> is the sequence a resumed session starts from.\<close>

definition service_close :: "nat \<Rightarrow> AgentBackendService \<Rightarrow> AgentBackendService" where
  "service_close n s = close_leave (sv_close_called s) ((worker_next ^^ n) (close_enter s))"

definition service_ops :: "nat \<Rightarrow> int \<Rightarrow> AgentBackendService backend_ops" where
  "service_ops n resumed =
     \<lparr>bo_is_port = (\<lambda>_. True), bo_send = send, bo_close = service_close n,
      bo_last_state = (\<lambda>s. Inl (eb_last_state (sv_stream s))),
      bo_approval_mode = (\<lambda>s. Some (JStr (mode_str (dp_mode (sv_policy s))))),
      bo_resume_last_sequence = (\<lambda>_. Some (JInt resumed))\<rparr>"

lemma worker_next_keeps: "sv_stopped s \<Longrightarrow> sv_stopped (worker_next s)"
  by (auto simp: worker_next_def worker_take_def turn_done_def worker_exit_def split: worker_state.splits list.splits AgentCommand.splits)

lemma workers_keep: "sv_stopped s \<Longrightarrow> sv_stopped ((worker_next ^^ n) s)"
  by (induction n) (simp_all add: worker_next_keeps)

lemma service_close_stops: "sv_stopped (service_close n s)"
proof -
  have "sv_stopped (close_enter s)" by (simp add: close_enter_def request_stop_def Let_def)
  from workers_keep [OF this] show ?thesis by (simp add: service_close_def close_leave_def)
qed

lemma mode_accepted: "m \<in> set approval_modes \<Longrightarrow> \<exists>p. set_approval_mode (JStr m) policy = Inr p"
  by (auto simp: approval_modes_def set_approval_mode_def find_mode_def lit_def lower_def)

lemma send_running:
  assumes "\<not> sv_stopped s" "command_ok c"
  shows "send c s = (if sv_turn_in_progress s \<and> task_of c \<noteq> [] then (s, Inl TurnInProgressError) else (fst (send c s), Inr ()))"
proof (cases c)
  case (SetApprovalMode m)
  then show ?thesis using assms mode_accepted [of m "sv_policy s"] by (auto simp: send_def)
next
  case (Interrupt r)
  then show ?thesis using assms by (simp add: send_def Let_def cancel_def)
qed (use assms in \<open>simp_all add: send_def\<close>)

interpretation sv: port_contract "service_ops n resumed" sv_stopped sv_turn_in_progress for n resumed
proof unfold_locales
  show "bo_send (service_ops n resumed) c b =
      (if sv_turn_in_progress b \<and> task_of c \<noteq> [] then (b, Inl TurnInProgressError) else (fst (bo_send (service_ops n resumed) c b), Inr ()))"
    if "\<not> sv_stopped b" "command_ok c" for b c
    using send_running [OF that] unfolding service_ops_def by (simp only: backend_ops.select_convs)
qed (simp_all add: service_ops_def send_def service_close_stops request_stop_def)

section \<open>Commands\<close>

lemma decode_command_ok: "decode_command v = Inr c \<Longrightarrow> command_ok c"
  using decode_command_Inr build_command_ok by blast

text \<open>C36: The outcome of a command sent to an open session.  A body that is no command is answered 400
  and changes nothing.  A command is answered 410 exactly if the service has been stopped, and the
  session is closed; 409 exactly if it is a task and a turn is running, and nothing changes;
  otherwise 202, and the service has taken it.  An accepted close command closes the session,
  leaving the rest of the cleanup to one call under way.  No other answer is possible.\<close>

theorem command_outcome:
  fixes env :: "('p, AgentBackendService) transport_env"
  assumes "get_session i (ha_registry a) = Some t" and "\<not> ts_closed t" and "te_backend env = service_ops n resumed"
  shows "case bindR (read_json (te_platform env) (te_max_body_bytes env) False body) decode_command of
      Inl _ \<Rightarrow> post_command env i body a = (a, [], Inr invalid_command)
    | Inr c \<Rightarrow>
        let s = ts_backend t in
        if \<not> sv_stopped s \<and> sv_turn_in_progress s \<and> task_of c \<noteq> []
        then post_command env i body a = (a, [], Inr (json_error 409 ''turn_in_progress'' ''a turn is already running''))
        else \<exists>g cs u. post_command env i body a =
               (a\<lparr>ha_registry := g\<rparr>, cs, Inr (if sv_stopped s then session_closed_error else accepted)) \<and>
             get_session i g = Some u \<and> (ts_closed u \<longleftrightarrow> sv_stopped s \<or> (\<exists>r. c = CloseSession r)) \<and>
             (\<not> sv_stopped s \<longrightarrow> ts_backend u = fst (send c s)) \<and>
             cs = (case c of CloseSession r \<Rightarrow>
                 (if sv_stopped s then [] else [\<lparr>cl_session = i, cl_reason = r, cl_send = False, cl_phase = AtBackend\<rparr>]) | _ \<Rightarrow> [])"
proof (cases "bindR (read_json (te_platform env) (te_max_body_bytes env) False body) decode_command")
  case (Inl e)
  then show ?thesis using assms by (simp add: post_command_def session_or_error_def)
next
  case (Inr c)
  let ?s = "ts_backend t" and ?answer = "command_answer (service_ops n resumed) i c (ha_registry a)"
  have post: "post_command env i body a = (case ?answer of (g, cs, r) \<Rightarrow> (a\<lparr>ha_registry := g\<rparr>, cs, r))"
    using assms Inr by (simp add: post_command_def session_or_error_def)
  obtain v where "decode_command v = Inr c" using Inr by (auto simp: bindR_Inr_iff)
  then have ok: "command_ok c" by (rule decode_command_ok)
  show ?thesis
  proof (cases "sv_stopped ?s")
    case True
    from sv.answer_stopped [OF assms(1,2) this, of n resumed c] obtain g where
      g: "?answer = (g, [], Inr session_closed_error)"
        "get_session i g = Some ((stopped_session t)\<lparr>ts_backend := close_backend (service_ops n resumed) (lit ''backend_closed'') False ?s\<rparr>)"
      by blast
    have "post_command env i body a = (a\<lparr>ha_registry := g\<rparr>, [], Inr session_closed_error)" by (simp add: post g(1))
    then show ?thesis
      using True g(2) unfolding Inr Let_def
      by (simp, intro exI [of _ g] conjI refl exI [of _ "(stopped_session t)\<lparr>ts_backend :=
        close_backend (service_ops n resumed) (lit ''backend_closed'') False ?s\<rparr>"]) (simp_all add: stopped_session_def split: AgentCommand.split)
  next
    case running: False
    show ?thesis
    proof (cases "sv_turn_in_progress ?s \<and> task_of c \<noteq> []")
      case True
      then show ?thesis
        using sv.answer_busy [OF assms(1) running ok, of n resumed] running by (simp add: Inr post Let_def)
    next
      case False
      from sv.answer_accepted [OF assms(1,2) running ok False, of n resumed] obtain g cs where
        g: "?answer = (g, cs, Inr accepted)" and c: "case c of
          CloseSession r \<Rightarrow> cs = [\<lparr>cl_session = i, cl_reason = r, cl_send = False, cl_phase = AtBackend\<rparr>] \<and>
            sv_stopped (fst (bo_send (service_ops n resumed) c ?s)) \<and>
            get_session i g = Some ((stopped_session t)\<lparr>ts_backend := fst (bo_send (service_ops n resumed) c ?s), ts_close_thread := True\<rparr>)
        | _ \<Rightarrow> cs = [] \<and> get_session i g = Some (t\<lparr>ts_backend := fst (bo_send (service_ops n resumed) c ?s)\<rparr>)" by blast
      have "bo_send (service_ops n resumed) = send" by (simp add: service_ops_def)
      then show ?thesis
        using c False running assms(2) unfolding Inr post g by (cases c) (auto simp: Let_def stopped_session_def)
    qed
  qed
qed

section \<open>Bodies\<close>

lemma utf8_pass_skip: "k \<le> length bs \<Longrightarrow> utf8_pass k bs = utf8_pass 0 (drop k bs)"
proof (induction k arbitrary: bs)
  case (Suc k)
  then show ?case by (cases bs) auto
qed simp

lemma utf8_pass_step:
  assumes "dec_step (b # bs) = (Some c, n)"
  shows "utf8_pass 0 (b # bs) = map_option ((#) c) (utf8_pass (n - 1) bs)"
proof -
  have "\<not> (b = 237 \<and> 160 \<le> b2 \<and> b2 < 192)" if "bs = b2 # r" for b2 r
    using assms that by (auto simp: second_ok_def split: if_splits list.splits)
  then show ?thesis
    using assms by (cases bs rule: list.exhaust; cases "tl bs") (auto simp del: dec_step.simps)
qed

lemma utf8_pass_enc: "encodable s \<Longrightarrow> utf8_pass 0 (enc_str s) = Some s"
proof (induction s)
  case (Cons c s)
  then have c: "valid_cp c" "encodable s" by simp_all
  obtain b bs where e: "enc_cp c = b # bs" by (cases "enc_cp c") simp_all
  have "dec_step (b # (bs @ enc_str s)) = (Some c, Suc (length bs))"
    using dec_step_enc_cp [OF c(1), of "enc_str s"] by (simp add: e)
  from utf8_pass_step [OF this] show ?case
    using utf8_pass_skip [of "length bs" "bs @ enc_str s"] Cons.IH [OF c(2)] by (simp add: e)
qed simp

lemma detect_utf8: "b \<noteq> 0 \<Longrightarrow> b < 128 \<Longrightarrow> b' \<noteq> 0 \<Longrightarrow> detect_encoding (b # b' # bs) = (Utf8, 0)"
  by (cases bs; cases "tl bs") (simp_all add: detect_encoding_def)

lemma render_object_start:
  "\<exists>b s. render frepr (JObj d) = 123 # b # s \<and> (b = 34 \<or> b = 125)"
proof (cases d)
  case (Cons p d')
  have "\<exists>z. join_with 44 ((34 # y) # xs) @ [125] = 34 # z" for y xs by (cases xs) simp_all
  then obtain z where "render frepr (JObj d) = 123 # 34 # z" by (simp add: Cons render_string_def) blast
  then show ?thesis by blast
qed simp

text \<open>A client's JSON object, as UTF-8, is read as that object.\<close>

lemma loads_object:
  assumes "json_wf (JObj d)" "floats_ok (float_text_ok (pl_frepr pl) (pl_fparse pl)) (JObj d)"
    and "encodable (render (pl_frepr pl) (JObj d))"
  shows "loads_bytes pl (enc_str (render (pl_frepr pl) (JObj d))) = Some (JObj d)"
proof -
  obtain b s where r: "render (pl_frepr pl) (JObj d) = 123 # b # s" "b = 34 \<or> b = 125" using render_object_start by blast
  then have "enc_str (render (pl_frepr pl) (JObj d)) = 123 # b # enc_str s" by (auto simp: enc_cp_def)
  then have "detect_encoding (enc_str (render (pl_frepr pl) (JObj d))) = (Utf8, 0)" using r(2) detect_utf8 [of 123 b] by auto
  then have "decode_body (enc_str (render (pl_frepr pl) (JObj d))) = Some (render (pl_frepr pl) (JObj d))"
    by (simp add: decode_body_def utf8_pass_enc [OF assms(3)] del: render.simps)
  then show ?thesis using loads_render [OF assms(1,2)] by (simp add: loads_bytes_def del: render.simps)
qed

definition command_body :: "platform \<Rightarrow> AgentCommand \<Rightarrow> nat list" where
  "command_body pl c = enc_str (render (pl_frepr pl) (JObj (command_to_dict c)))"

lemma command_body_read:
  assumes "command_ok c" "length (command_body pl c) \<le> n" "writable (pl_frepr pl) (JObj (command_to_dict c))"
  shows "bindR (read_json pl n allow (command_body pl c)) decode_command = Inr c"
proof -
  have "json_wf (JObj (command_to_dict c))" "floats_ok (float_text_ok (pl_frepr pl) (pl_fparse pl)) (JObj (command_to_dict c))"
    by (cases c; simp add: lit_def)+
  from loads_object [OF this encodable_render_writable [OF assms(3)]]
  have "loads_bytes pl (command_body pl c) = Some (JObj (command_to_dict c))" by (simp add: command_body_def)
  moreover have "command_body pl c \<noteq> []"
    using render_object_start [of "pl_frepr pl" "command_to_dict c"] by (auto simp: command_body_def enc_cp_def)
  ultimately show ?thesis using assms(2) decode_own [OF assms(1)] by (simp add: read_json_def)
qed

text \<open>A service with a turn running, behind a session.\<close>

definition busy_service :: AgentBackendService where
  "busy_service = (AgentBackendService_init \<lparr>dp_mode = ModeAsk, dp_interactive = None, dp_workspace = None\<rparr>
     CancellationSignal_init EventStreamBuffer_init)\<lparr>sv_turn_in_progress := True\<rparr>"

definition busy_app :: "(unit, AgentBackendService) http_app" where
  "busy_app = \<lparr>ha_provider = (), ha_registry = \<lparr>sr_sessions = [(lit ''t'', \<lparr>ts_backend = busy_service, ts_closed = False,
     ts_cursor = 0, ts_pump = event_pump_init, ts_close_thread = False\<rparr>)], sr_active = Some (lit ''t'')\<rparr>\<rparr>"

definition sample_env :: "'b backend_ops \<Rightarrow> (unit, 'b) transport_env" where
  "sample_env B = \<lparr>te_platform = sample_platform, te_backend = B, te_provider = unconfigured_provider, te_max_body_bytes = 1000\<rparr>"

lemma sample_command_read:
  "bindR (read_json sample_platform 1000 False (command_body sample_platform (SubmitTask (lit ''x'')))) decode_command = Inr (SubmitTask (lit ''x''))"
  by (rule command_body_read) (simp_all add: command_body_def lit_def strip_def is_space_def render_string_def enc_cp_def escape_char_def valid_cp_def is_surrogate_def)

theorem command_outcome_witness:
  "post_command (sample_env (service_ops 0 0)) (lit ''t'') (command_body sample_platform (SubmitTask (lit ''x''))) busy_app =
     (busy_app, [], Inr (json_error 409 ''turn_in_progress'' ''a turn is already running''))"
proof -
  have t: "get_session (lit ''t'') (ha_registry busy_app) = Some \<lparr>ts_backend = busy_service, ts_closed = False,
     ts_cursor = 0, ts_pump = event_pump_init, ts_close_thread = False\<rparr>" by (simp add: busy_app_def get_session_def)
  have s: "\<not> sv_stopped busy_service" "sv_turn_in_progress busy_service" by (simp_all add: busy_service_def AgentBackendService_init_def)
  show ?thesis
    using command_outcome [OF t, of "sample_env (service_ops 0 0)" 0 0 "command_body sample_platform (SubmitTask (lit ''x''))"] s sample_command_read
    by (simp add: sample_env_def Let_def)
qed

section \<open>The life of a session\<close>

lemma created_open:
  assumes "active_session g = None" "provide resume = Inr b" "bo_is_port B b" "resume_cursor B resume b = Inr c"
  shows "\<exists>g' t. registry_create B provide token resume g = (g', Inr token, []) \<and> get_session token g' = Some t \<and>
    ts_backend t = b \<and> \<not> ts_closed t \<and> ts_cursor t = c \<and> sr_active g' = Some token \<and> active_session g' = Some t"
proof -
  have "0 \<le> c" using assms(4) by (auto simp: resume_cursor_def split: if_splits option.splits json.splits)
  then show ?thesis
    using assms by (simp add: registry_create_def mk_TransportSession_def get_session_def active_session_def)
qed


section \<open>History over HTTP\<close>

text \<open>The history provider of a directory, with the listing's cursors as its state.\<close>

definition directory_provider ::
  "platform \<Rightarrow> repository \<Rightarrow> (str \<Rightarrow> 'c res) \<Rightarrow> (str option \<Rightarrow> 'b res) \<Rightarrow> str \<Rightarrow> (cursor_cache, 'b) provider_ops" where
  "directory_provider pl rp validate factory token =
     \<lparr>po_list_sessions = list_sessions pl rp validate token,
      po_read_session_events = (\<lambda>sid since limit _. read_session_events pl rp sid since limit),
      po_create_session = (\<lambda>resume _. create_session pl rp validate factory resume)\<rparr>"

lemma read_page_shows:
  assumes "read_by_id pl rp sid = Inr r" "sr_events r \<noteq> []" "\<forall>e \<in> set (sr_events r). showable pl e"
    and "1 \<le> limit" "limit \<le> history_event_limit" "0 \<le> c" "c \<le> history_sequence_limit"
  shows "\<exists>p es. read_session_events pl rp sid c limit = Inr p \<and> page_fits pl p \<and>
    list_all2 (shown pl history_event_payload_limit) es (ep_events p) \<and> set es \<subseteq> set (sr_events r)"
proof -
  let ?ds = "map (\<lambda>_. history_diagnostic ''incomplete_tail'') (sr_diagnostics r)" and ?b = "beyond c (sr_events r)"
  note id = read_by_id_read(1) [OF assms(1)] and records = read_by_id_log [OF assms(1)]
  have path: "path_for rp sid = Inr ()" using assms(1) by (auto simp: read_by_id_def bindR_Inr_iff)
  have ds: "tail_diagnostics ?ds" using records(2) by (cases "sr_diagnostics r") (auto simp: tail_diagnostics_def)
  have limit: "1 \<le> nat limit" "nat limit \<le> 200" using assms(4,5) by (auto simp: history_event_limit_def)
  obtain es' where es': "event_page pl sid (sr_events r) c (nat limit) ?ds =
      Inr \<lparr>ep_session_id = sid, ep_events = es', ep_next_cursor = page_cursor (nat limit < length ?b) (take (nat limit) ?b),
        ep_has_more = nat limit < length ?b, ep_diagnostics = ?ds\<rparr>" (is "_ = Inr ?p")
    "list_all2 (shown pl history_event_payload_limit) (take (nat limit) ?b) es'"
    using event_page_shows [OF assms(3) id limit ds] by blast
  then obtain build l p0 where "shrink_page pl build l p0 = Inr ?p" unfolding event_page_def Let_def bindR_Inr_iff by blast
  from shrink_page_bounded [OF this] obtain n where n: "serialized_page_size pl ?p = Inr n" "n \<le> history_page_bytes_limit" by blast
  have part: "set (take (nat limit) ?b) \<subseteq> set (sr_events r)" using set_take_subset by (fastforce simp: beyond_def)
  then have all: "\<forall>e \<in> set (take (nat limit) ?b). showable pl e" using assms(3) by blast
  note fit = shown_fits [OF es'(2)]
  note w = fits_page_writable [OF fit all id ds, of "nat limit < length ?b"]
  have "writable (pl_frepr pl) (JObj (ev_payload e)) \<and> int (ascii_size pl (ev_payload e)) \<le> history_event_payload_limit"
    if "e \<in> set es'" for e
  proof -
    obtain e0 where "fits pl history_event_payload_limit e0 e" using fit \<open>e \<in> set es'\<close> by (metis in_set_conv_nth list_all2_conv_all_nth)
    then show ?thesis by (simp add: fits_def del: writable.simps)
  qed
  then have "page_fits pl ?p"
    using w n serialized_page_size_ascii [OF w] by (simp add: page_fits_def del: writable.simps)
  moreover have "read_session_events pl rp sid c limit = Inr ?p"
    using assms(1,2,4-7) es'(1) by (simp add: read_session_events_def path validate_since_def validate_history_limit_def or_unavailable_def)
  moreover have "list_all2 (shown pl history_event_payload_limit) (take (nat limit) ?b) (ep_events ?p)" using es'(2) by simp
  ultimately show ?thesis using part by blast
qed

lemma render_sort_len: "utf8_len (render frepr (sort_json v)) = utf8_len (render frepr v)"
proof (induction v rule: json_induct)
  case (JArr xs)
  then have "sum_list (map (\<lambda>x. utf8_len (render frepr (sort_json x))) xs) = sum_list (map (\<lambda>x. utf8_len (render frepr x)) xs)"
    by (intro arg_cong [where f = sum_list] map_cong) simp_all
  then show ?case by (simp only: sort_json.simps render_len length_map map_map comp_def)
next
  case (JObj d)
  then have "sum_list (map (\<lambda>p. quoted_len escape_char (fst p) + 1 + utf8_len (render frepr (sort_json (snd p)))) d) =
      sum_list (map (\<lambda>p. quoted_len escape_char (fst p) + 1 + utf8_len (render frepr (snd p))) d)"
    by (intro arg_cong [where f = sum_list] map_cong) auto
  then show ?case
    by (simp only: sort_json.simps render_len sum_list_sort_key length_map length_sort map_map comp_def fst_conv snd_conv)
qed simp_all

lemma finite_response_of_page:
  assumes "page_fits pl p"
  shows "finite_json_response pl (SessionEventPage_to_dict p) =
    \<lparr>rs_status = 200, rs_content = JsonBytes (enc_str (render (pl_frepr pl) (JObj (SessionEventPage_to_dict p))))\<rparr>"
    "encodable (render (pl_frepr pl) (JObj (SessionEventPage_to_dict p)))"
proof -
  let ?v = "JObj (SessionEventPage_to_dict p)"
  have w: "writable (pl_frepr pl) ?v" "int (page_size pl p) \<le> history_page_bytes_limit"
    using assms by (simp_all add: page_fits_def del: writable.simps)
  show enc: "encodable (render (pl_frepr pl) ?v)" using encodable_render_writable [OF w(1)] .
  have "utf8_len (render (pl_frepr pl) ?v) \<le> page_size pl p"
    using plain_shorter [of "pl_frepr pl" ?v] canonical_shorter [of "pl_frepr pl" ?v]
    by (simp only: page_size_def ascii_size_def render_sort_len)
  then show "finite_json_response pl (SessionEventPage_to_dict p) = \<lparr>rs_status = 200, rs_content = JsonBytes (enc_str (render (pl_frepr pl) ?v))\<rparr>"
    using w enc writable_finite [OF w(1)]
    by (simp add: finite_json_response_def json_dumps_def utf8_encode_def utf8_len_def history_page_bytes_limit_def
        del: render.simps writable.simps finite_json.simps)
qed

lemma page_dict_json:
  assumes "\<forall>e \<in> set (ep_events p). json_wf (JObj (ev_payload e)) \<and> event_floats_ok pl e"
  shows "json_wf (JObj (SessionEventPage_to_dict p))"
    "floats_ok (float_text_ok (pl_frepr pl) (pl_fparse pl)) (JObj (SessionEventPage_to_dict p))"
proof -
  have "list_all json_wf (map (\<lambda>e. JObj (EventEnvelope_to_dict e)) (ep_events p))"
    "list_all (floats_ok (float_text_ok (pl_frepr pl) (pl_fparse pl))) (map (\<lambda>e. JObj (EventEnvelope_to_dict e)) (ep_events p))"
    unfolding list_all_iff set_map using assms envelope_dict_wf envelope_dict_floats by blast+
  then show "json_wf (JObj (SessionEventPage_to_dict p))"
    "floats_ok (float_text_ok (pl_frepr pl) (pl_fparse pl)) (JObj (SessionEventPage_to_dict p))"
    unfolding SessionEventPage_to_dict_def
    by (simp_all add: HistoryDiagnostic_to_dict_def lit_def list_all_iff split: option.splits)
qed

lemma shown_json:
  assumes "shown pl limit e e'" "json_wf (JObj (ev_payload e))" "event_floats_ok pl e"
  shows "json_wf (JObj (ev_payload e')) \<and> event_floats_ok pl e'"
  using assms by (auto simp: shown_def event_floats_ok_def preview_def Let_def lit_def)

lemma query_of:
  assumes "0 \<le> since" "since \<le> history_sequence_limit" "1 \<le> limit" "limit \<le> history_event_limit"
  shows "history_query True [(lit ''since'', dec_int since), (lit ''limit'', dec_int limit)] = Inr (None, since, limit)"
proof -
  have s: "length (dec (nat since)) \<le> 4300"
    using dec_length [of "nat since" 19] assms(1,2) by (simp add: history_sequence_limit_def nat_less_iff)
  have l: "length (dec (nat limit)) \<le> 4300"
    using dec_length [of "nat limit" 3] assms(3,4) by (simp add: history_event_limit_def nat_less_iff)
  have d: "dec_int since = dec (nat since)" "dec_int limit = dec (nat limit)" using assms by (simp_all add: dec_int_def)
  have "parse_history_sequence (Some (dec_int since)) = Inr since"
    unfolding parse_history_sequence_def d using assms(1,2) by (simp add: parse_decimal_dec [OF s])
  moreover have "parse_history_limit (Some (dec_int limit)) 200 200 = Inr limit"
    unfolding parse_history_limit_def d using assms(3,4) by (simp add: parse_decimal_dec [OF l] history_event_limit_def)
  moreover have "lit ''limit'' \<noteq> lit ''since''" by (simp add: lit_def)
  ultimately show ?thesis by (simp add: history_query_def Let_def query_values_def first_value_def guardR_def)
qed

text \<open>C38: A page of history over HTTP is the provider's page.  For a session whose log can be read, a
  request for its events within the bounds on the query is answered 200, whatever the events hold,
  with at most 8 MiB of UTF-8 that read as JSON is the page the provider made: the transport's own
  checks neither refuse it nor shorten what is in it.\<close>

theorem history_served:
  fixes env :: "(cursor_cache, 'b) transport_env" and validate :: "str \<Rightarrow> 'c res"
  assumes "read_by_id (te_platform env) rp sid = Inr r" and "sr_events r \<noteq> []"
    and "\<forall>e \<in> set (sr_events r). showable (te_platform env) e \<and> wire_event (te_platform env) e"
    and "1 \<le> limit" and "limit \<le> history_event_limit" and "0 \<le> since" and "since \<le> history_sequence_limit"
    and "te_provider env = directory_provider (te_platform env) rp validate factory token"
  shows "\<exists>p payload s. read_session_events (te_platform env) rp sid since limit = Inr p \<and>
    session_history_events env sid [(lit ''since'', dec_int since), (lit ''limit'', dec_int limit)] [] a =
      Inr \<lparr>rs_status = 200, rs_content = JsonBytes payload\<rparr> \<and>
    length payload \<le> 8 * 1024 * 1024 \<and> utf8_decode payload = Inr s \<and>
    json_loads False (pl_fparse (te_platform env)) s = Some (JObj (SessionEventPage_to_dict p))"
proof -
  let ?pl = "te_platform env"
  have showable: "\<forall>e \<in> set (sr_events r). showable ?pl e" using assms(3) by blast
  obtain p es where p: "read_session_events ?pl rp sid since limit = Inr p" "page_fits ?pl p"
    and es: "list_all2 (shown ?pl history_event_payload_limit) es (ep_events p)" "set es \<subseteq> set (sr_events r)"
    using read_page_shows [OF assms(1,2) showable assms(4-7)] by blast
  note out = finite_response_of_page [OF p(2)]
  let ?v = "JObj (SessionEventPage_to_dict p)"
  let ?payload = "enc_str (render (pl_frepr ?pl) ?v)"
  have id: "parse_history_id (JStr sid) = Inr sid"
    using read_by_id_read(1) [OF assms(1)] by (simp add: parse_history_id_def)
  have answer: "session_history_events env sid [(lit ''since'', dec_int since), (lit ''limit'', dec_int limit)] [] a =
      Inr \<lparr>rs_status = 200, rs_content = JsonBytes ?payload\<rparr>"
    using id query_of [OF assms(6,7,4,5)] p event_page_passes [OF p(2)] out(1) assms(8)
    by (simp add: session_history_events_def ensure_empty_history_body_def directory_provider_def guardR_def del: render.simps)
  have "\<forall>e \<in> set (ep_events p). json_wf (JObj (ev_payload e)) \<and> event_floats_ok ?pl e"
  proof
    fix e assume "e \<in> set (ep_events p)"
    then obtain e0 where e0: "e0 \<in> set es" "shown ?pl history_event_payload_limit e0 e"
      using es(1) by (metis in_set_conv_nth list_all2_conv_all_nth)
    then have "wire_event ?pl e0" using es(2) assms(3) by blast
    then show "json_wf (JObj (ev_payload e)) \<and> event_floats_ok ?pl e"
      using shown_json [OF e0(2)] by (simp add: wire_event_def del: json_wf.simps)
  qed
  note page = page_dict_json [OF this]
  have "length ?payload \<le> 8 * 1024 * 1024"
    using answer out(1) by (auto simp: finite_json_response_def json_dumps_def utf8_encode_def safe_error_def json_error_def
        json_response_def simp del: render.simps finite_json.simps split: if_splits)
  moreover have "utf8_decode ?payload = Inr (render (pl_frepr ?pl) ?v)" using out(2) by (rule utf8_decode_enc_str)
  moreover have "json_loads False (pl_fparse ?pl) (render (pl_frepr ?pl) ?v) = Some ?v" using page by (rule loads_render)
  ultimately show ?thesis using p(1) answer by blast
qed

section \<open>Witnesses\<close>

definition counting_env :: "(unit, nat) transport_env" where
  "counting_env = (sample_env counting_backend)\<lparr>te_provider := unconfigured_provider\<lparr>po_create_session := \<lambda>_ _. Inr 0\<rparr>\<rparr>"


definition history_env :: "(cursor_cache, unit) transport_env" where
  "history_env = \<lparr>te_platform = sample_platform, te_backend = \<lparr>bo_is_port = \<lambda>_. True, bo_send = \<lambda>_ b. (b, Inr ()), bo_close = id,
       bo_last_state = \<lambda>_. Inl RUNNING, bo_approval_mode = \<lambda>_. None, bo_resume_last_sequence = \<lambda>_. None\<rparr>,
     te_provider = directory_provider sample_platform sample_repository (\<lambda>_. Inr ()) (\<lambda>_. Inr ()) (lit ''c''), te_max_body_bytes = 1000\<rparr>"

theorem history_served_witness:
  "\<forall>a. \<exists>payload. session_history_events history_env (lit ''session_1'') [(lit ''since'', dec_int 0), (lit ''limit'', dec_int 1)] [] a =
     Inr \<lparr>rs_status = 200, rs_content = JsonBytes payload\<rparr> \<and> length payload \<le> 8388608"
proof
  fix a
  have w: "wire_event sample_platform first_envelope"
    by (simp add: wire_event_def event_floats_ok_def first_envelope_def sample_envelope_def dec_int_def dec.simps)
  show "\<exists>payload. session_history_events history_env (lit ''session_1'') [(lit ''since'', dec_int 0), (lit ''limit'', dec_int 1)] [] a =
     Inr \<lparr>rs_status = 200, rs_content = JsonBytes payload\<rparr> \<and> length payload \<le> 8388608"
    using history_served [of history_env sample_repository "lit ''session_1''"
        "\<lparr>sr_events = [first_envelope], sr_diagnostics = [], sr_ended_with_newline = True\<rparr>" 1 0 "\<lambda>_. Inr ()" "\<lambda>_. Inr ()" "lit ''c''" a]
      sample_read first_envelope_showable w
    by (auto simp: history_env_def history_event_limit_def history_sequence_limit_def)
qed

end
