(* ===== verification/Config.thy ===== *)
theory Config
  imports Runtime Utf8
begin

text \<open>
  Loading and validating the configuration (\<open>config.py\<close>): defaults, a TOML file, the environment and
  the command line, in that order of precedence.  The text of a number, the URL and the paths are
  read by the standard library or the file system: they are the ports of \<open>config_ports\<close>.
  A value is a JSON value; the dates of TOML, which every option refuses, are left out, and so is the
  order in which options of one kind are checked (the source iterates over sets).
\<close>

section \<open>Parts\<close>

definition config_error :: "string \<Rightarrow> exn" where
  "config_error m = OtherError (lit ''ConfigError'') (lit m)"

definition option_error :: "string \<Rightarrow> string \<Rightarrow> exn" where
  "option_error name m = config_error (name @ m)"

record AppConfig =
  cf_model :: str
  cf_api_base :: str
  cf_api_key_env :: str
  cf_workspace :: str
  cf_approval_mode :: str
  cf_max_steps :: int
  cf_max_tool_calls :: int
  cf_max_wall_seconds :: rat
  cf_command_timeout :: rat
  cf_context_window :: int
  cf_reserved_output_tokens :: int
  cf_model_output_limit :: int
  cf_session_output_limit :: int
  cf_api_key :: str

text \<open>\<open>int(text)\<close> and \<open>float(value)\<close>; \<open>Path.exists\<close> and reading a file; the parser of TOML; \<open>urlparse\<close>,
  giving scheme and network location; \<open>Path.expanduser\<close>, \<open>Path.resolve\<close> and \<open>is_dir\<close>.\<close>

record config_ports =
  cp_int :: "str \<Rightarrow> int option"
  cp_float :: "str \<Rightarrow> pyfloat option"
  cp_float_of_int :: "int \<Rightarrow> rat option"
  cp_read :: "str \<Rightarrow> nat list option res"
  cp_toml :: "str \<Rightarrow> jobj option"
  cp_url :: "str \<Rightarrow> (str \<times> str) res"
  cp_expanduser :: "str \<Rightarrow> str res"
  cp_resolve :: "str \<Rightarrow> str res"
  cp_is_dir :: "str \<Rightarrow> bool"

definition config_defaults :: jobj where
  "config_defaults =
     [(lit ''model'', JStr (lit ''gpt-4o-mini'')), (lit ''api_base'', JStr (lit ''https://api.openai.com/v1'')),
      (lit ''api_key_env'', JStr (lit ''OPENAI_API_KEY'')), (lit ''workspace'', JStr (lit ''.'')),
      (lit ''approval_mode'', JStr (lit ''ask'')), (lit ''max_steps'', JInt 32), (lit ''max_tool_calls'', JInt 64),
      (lit ''max_wall_seconds'', JFloat (Finite 900)), (lit ''command_timeout'', JFloat (Finite 120)),
      (lit ''context_window'', JInt 128000), (lit ''reserved_output_tokens'', JInt 4096),
      (lit ''model_output_limit'', JInt 12000), (lit ''session_output_limit'', JInt 50000)]"

definition config_fields :: "str list" where
  "config_fields = map fst config_defaults"

definition env_prefix :: str where "env_prefix = lit ''CODING_AGENT_NEO_''"

text \<open>\<open>name.upper()\<close> of a field's name.\<close>

definition upper_name :: "str \<Rightarrow> str" where
  "upper_name s = map (\<lambda>c. if 97 \<le> c \<and> c \<le> 122 then c - 32 else c) s"

text \<open>\<open>_ENV_NAME\<close>.\<close>

definition env_name_ok :: "str \<Rightarrow> bool" where
  "env_name_ok s \<longleftrightarrow>
     (case s of
        [] \<Rightarrow> False
      | c # cs \<Rightarrow>
          let letter = (\<lambda>c. (65 \<le> c \<and> c \<le> 90) \<or> (97 \<le> c \<and> c \<le> 122) \<or> c = 95) in
          letter c \<and> list_all (\<lambda>c. letter c \<or> (48 \<le> c \<and> c \<le> 57)) cs)"

section \<open>Sources\<close>

definition read_toml :: "config_ports \<Rightarrow> str \<Rightarrow> jobj res" where
  "read_toml P path =
     (case cp_read P path of
        Inl _ \<Rightarrow> Inl (config_error ''configuration file could not be read'')
      | Inr None \<Rightarrow> Inr []
      | Inr (Some bytes) \<Rightarrow>
          bindR (utf8_decode bytes) (\<lambda>s.
          case cp_toml P s of
            None \<Rightarrow> Inl (config_error ''configuration file could not be read'')
          | Some d \<Rightarrow>
              if list_all (\<lambda>k. k \<in> set config_fields) (map fst d) then Inr d
              else Inl (config_error ''configuration file contains an unknown option'')))"

definition environment_values :: "(str \<times> str) list \<Rightarrow> jobj res" where
  "environment_values environ =
     (if has_key environ (env_prefix @ lit ''SESSION_DIR'') then Inl (config_error ''configuration contains an unknown option'')
      else Inr (concat (map (\<lambda>name. case dget environ (env_prefix @ upper_name name) of
                                      None \<Rightarrow> [] | Some v \<Rightarrow> [(name, JStr v)]) config_fields)))"

definition cli_given :: "(str \<times> json option) list \<Rightarrow> jobj" where
  "cli_given cli = concat (map (\<lambda>(k, v). case v of None \<Rightarrow> [] | Some w \<Rightarrow> [(k, w)]) cli)"

text \<open>\<open>a | b\<close>: the entries of \<open>b\<close> win.\<close>

definition dmerge :: "jobj \<Rightarrow> jobj \<Rightarrow> jobj" where
  "dmerge a b = foldl (\<lambda>d p. dset d (fst p) (snd p)) a b"

section \<open>Validation\<close>

definition truncated :: "rat \<Rightarrow> int" where
  "truncated q = (if 0 \<le> q then \<lfloor>q\<rfloor> else \<lceil>q\<rceil>)"

text \<open>\<open>int(value)\<close>, None for the errors it raises.\<close>

definition int_of_value :: "config_ports \<Rightarrow> json \<Rightarrow> int option" where
  "int_of_value P v =
     (case v of
        JInt i \<Rightarrow> Some i
      | JBool b \<Rightarrow> Some (if b then 1 else 0)
      | JFloat (Finite q) \<Rightarrow> Some (truncated q)
      | JStr s \<Rightarrow> cp_int P s
      | _ \<Rightarrow> None)"

definition positive_int :: "config_ports \<Rightarrow> json \<Rightarrow> string \<Rightarrow> int res" where
  "positive_int P v name =
     (case int_of_value P v of
        None \<Rightarrow> Inl (option_error name '' must be a positive integer'')
      | Some i \<Rightarrow>
          if (case v of JBool _ \<Rightarrow> True | _ \<Rightarrow> False) \<or> i \<le> 0 \<or> (case v of JFloat (Finite q) \<Rightarrow> of_int i \<noteq> q | _ \<Rightarrow> False)
          then Inl (option_error name '' must be a positive integer'')
          else Inr i)"

text \<open>\<open>float(value)\<close>.\<close>

definition float_of_value :: "config_ports \<Rightarrow> json \<Rightarrow> pyfloat option" where
  "float_of_value P v =
     (case v of
        JInt i \<Rightarrow> map_option Finite (cp_float_of_int P i)
      | JBool b \<Rightarrow> Some (Finite (if b then 1 else 0))
      | JFloat f \<Rightarrow> Some f
      | JStr s \<Rightarrow> cp_float P s
      | _ \<Rightarrow> None)"

definition positive_float :: "config_ports \<Rightarrow> json \<Rightarrow> string \<Rightarrow> rat res" where
  "positive_float P v name =
     (case float_of_value P v of
        Some (Finite q) \<Rightarrow>
          if (case v of JBool _ \<Rightarrow> True | _ \<Rightarrow> False) \<or> q \<le> 0 then Inl (option_error name '' must be a positive number'')
          else Inr q
      | _ \<Rightarrow> Inl (option_error name '' must be a positive number''))"

definition text_option :: "json \<Rightarrow> string \<Rightarrow> str res" where
  "text_option v name =
     (case v of
        JStr s \<Rightarrow>
          if strip s = [] \<or> has_nul s then Inl (option_error name '' must be a non-empty string'') else Inr (strip s)
      | _ \<Rightarrow> Inl (option_error name '' must be a non-empty string''))"

definition workspace_option :: "config_ports \<Rightarrow> json \<Rightarrow> str res" where
  "workspace_option P v =
     (case v of
        JStr s \<Rightarrow>
          bindR (cp_expanduser P s) (\<lambda>path.
          if has_nul path then Inl (option_error ''workspace'' '' must be a valid path'') else cp_resolve P path)
      | _ \<Rightarrow> Inl (option_error ''workspace'' '' must be a path''))"

text \<open>The option's value: the defaults have every option.\<close>

definition opt :: "jobj \<Rightarrow> string \<Rightarrow> json" where
  "opt values name = (case dget values (lit name) of None \<Rightarrow> JNull | Some v \<Rightarrow> v)"

definition validated :: "config_ports \<Rightarrow> jobj \<Rightarrow> (str \<times> str) list \<Rightarrow> AppConfig res" where
  "validated P values environ =
     (let pint = (\<lambda>name. positive_int P (opt values name) name);
          pfloat = (\<lambda>name. positive_float P (opt values name) name);
          txt = (\<lambda>name. text_option (opt values name) name) in
      bindR (pint ''max_steps'') (\<lambda>max_steps.
      bindR (pint ''max_tool_calls'') (\<lambda>max_tool_calls.
      bindR (pint ''context_window'') (\<lambda>context_window.
      bindR (pint ''reserved_output_tokens'') (\<lambda>reserved_output_tokens.
      bindR (pint ''model_output_limit'') (\<lambda>model_output_limit.
      bindR (pint ''session_output_limit'') (\<lambda>session_output_limit.
      bindR (pfloat ''max_wall_seconds'') (\<lambda>max_wall_seconds.
      bindR (pfloat ''command_timeout'') (\<lambda>command_timeout.
      bindR (txt ''model'') (\<lambda>model.
      bindR (txt ''api_base'') (\<lambda>api_base.
      bindR (txt ''api_key_env'') (\<lambda>api_key_env.
      bindR (txt ''approval_mode'') (\<lambda>mode.
      bindR (guardR (mode \<in> set (map lit [''ask'', ''auto'', ''deny''])) (config_error ''approval_mode must be ask, auto, or deny'')) (\<lambda>_.
      bindR (cp_url P api_base) (\<lambda>(scheme, netloc).
      bindR (guardR (scheme \<in> set (map lit [''http'', ''https'']) \<and> netloc \<noteq> []) (config_error ''api_base must be an HTTP(S) URL'')) (\<lambda>_.
      bindR (guardR (env_name_ok api_key_env) (config_error ''api_key_env must be an environment variable name'')) (\<lambda>_.
      let api_key = (case dget environ api_key_env of None \<Rightarrow> [] | Some k \<Rightarrow> k) in
      bindR (guardR (api_key \<noteq> []) (config_error ''API key environment variable is missing or empty'')) (\<lambda>_.
      bindR (guardR (\<not> has_nul api_key) (config_error ''API key environment variable is invalid'')) (\<lambda>_.
      bindR (workspace_option P (opt values ''workspace'')) (\<lambda>workspace.
      bindR (guardR (cp_is_dir P workspace) (config_error ''workspace must be an existing directory'')) (\<lambda>_.
      bindR (guardR (reserved_output_tokens < context_window)
               (config_error ''reserved_output_tokens must be smaller than context_window'')) (\<lambda>_.
      bindR (guardR (128 \<le> session_output_limit) (config_error ''session_output_limit must be at least 128'')) (\<lambda>_.
      Inr \<lparr>cf_model = model, cf_api_base = api_base, cf_api_key_env = api_key_env, cf_workspace = workspace,
           cf_approval_mode = mode, cf_max_steps = max_steps, cf_max_tool_calls = max_tool_calls,
           cf_max_wall_seconds = max_wall_seconds, cf_command_timeout = command_timeout,
           cf_context_window = context_window, cf_reserved_output_tokens = reserved_output_tokens,
           cf_model_output_limit = model_output_limit, cf_session_output_limit = session_output_limit,
           cf_api_key = api_key\<rparr>)))))))))))))))))))))))"

definition config_values ::
  "config_ports \<Rightarrow> jobj \<Rightarrow> (str \<times> str) list \<Rightarrow> str \<Rightarrow> jobj res" where
  "config_values P cli environ path =
     bindR (read_toml P path) (\<lambda>file.
     bindR (environment_values environ) (\<lambda>env.
     Inr (dmerge (dmerge (dmerge config_defaults file) env) cli)))"

definition load_config ::
  "config_ports \<Rightarrow> (str \<times> json option) list \<Rightarrow> (str \<times> str) list \<Rightarrow> str option \<Rightarrow> AppConfig res" where
  "load_config P cli_values environ config_path =
     (let cli = cli_given cli_values;
          selected = (case config_path of
                        Some p \<Rightarrow> p
                      | None \<Rightarrow> (case dget environ (env_prefix @ lit ''CONFIG'') of
                                   None \<Rightarrow> lit ''.coding-agent-neo.toml'' | Some p \<Rightarrow> p)) in
      bindR (guardR (list_all (\<lambda>k. k \<in> set config_fields) (map fst cli))
               (config_error ''CLI contains an unknown configuration option'')) (\<lambda>_.
      bindR (cp_expanduser P selected) (\<lambda>path.
      bindR (config_values P cli environ path) (\<lambda>values. validated P values environ))))"

section \<open>Properties\<close>

text \<open>What a resolved configuration satisfies.\<close>

definition config_ok :: "config_ports \<Rightarrow> AppConfig \<Rightarrow> bool" where
  "config_ok P c \<longleftrightarrow>
     0 < cf_max_steps c \<and> 0 < cf_max_tool_calls c \<and> 0 < cf_model_output_limit c \<and> 128 \<le> cf_session_output_limit c \<and>
     0 < cf_reserved_output_tokens c \<and> cf_reserved_output_tokens c < cf_context_window c \<and>
     0 < cf_max_wall_seconds c \<and> 0 < cf_command_timeout c \<and>
     strip (cf_model c) = cf_model c \<and> cf_model c \<noteq> [] \<and> \<not> has_nul (cf_model c) \<and>
     cf_approval_mode c \<in> set (map lit [''ask'', ''auto'', ''deny'']) \<and> env_name_ok (cf_api_key_env c) \<and>
     cf_api_key c \<noteq> [] \<and> \<not> has_nul (cf_api_key c) \<and> cp_is_dir P (cf_workspace c)"

lemma positive_int_pos: "positive_int P v name = Inr i \<Longrightarrow> 0 < i"
  by (auto simp: positive_int_def split: option.splits if_splits)

lemma positive_float_pos: "positive_float P v name = Inr q \<Longrightarrow> 0 < q"
  by (auto simp: positive_float_def split: option.splits pyfloat.splits if_splits)

text \<open>The value of an option in the first source that has it.\<close>

fun winning :: "jobj list \<Rightarrow> string \<Rightarrow> json" where
  "winning [] name = JNull"
| "winning (d # ds) name = (case dget d (lit name) of Some v \<Rightarrow> v | None \<Rightarrow> winning ds name)"

text \<open>The fields of a configuration are the options' values.\<close>

definition resolves :: "config_ports \<Rightarrow> (string \<Rightarrow> json) \<Rightarrow> AppConfig \<Rightarrow> bool" where
  "resolves P v c \<longleftrightarrow>
     positive_int P (v ''max_steps'') ''max_steps'' = Inr (cf_max_steps c) \<and> positive_int P (v ''max_tool_calls'') ''max_tool_calls'' = Inr (cf_max_tool_calls c) \<and>
     positive_int P (v ''context_window'') ''context_window'' = Inr (cf_context_window c) \<and> positive_int P (v ''reserved_output_tokens'') ''reserved_output_tokens'' = Inr (cf_reserved_output_tokens c) \<and>
     positive_int P (v ''model_output_limit'') ''model_output_limit'' = Inr (cf_model_output_limit c) \<and> positive_int P (v ''session_output_limit'') ''session_output_limit'' = Inr (cf_session_output_limit c) \<and>
     positive_float P (v ''max_wall_seconds'') ''max_wall_seconds'' = Inr (cf_max_wall_seconds c) \<and> positive_float P (v ''command_timeout'') ''command_timeout'' = Inr (cf_command_timeout c) \<and>
     text_option (v ''model'') ''model'' = Inr (cf_model c) \<and> text_option (v ''api_base'') ''api_base'' = Inr (cf_api_base c) \<and>
     text_option (v ''api_key_env'') ''api_key_env'' = Inr (cf_api_key_env c) \<and> text_option (v ''approval_mode'') ''approval_mode'' = Inr (cf_approval_mode c) \<and>
     workspace_option P (v ''workspace'') = Inr (cf_workspace c)"

lemma text_option_ok: "text_option v name = Inr s \<Longrightarrow> s \<noteq> [] \<and> \<not> has_nul s \<and> strip s = s"
proof -
  assume t: "text_option v name = Inr s"
  then obtain r where r: "v = JStr r" "s = strip r" "strip r \<noteq> []" "\<not> has_nul r"
    by (auto simp: text_option_def split: json.splits if_splits)
  have "set (strip r) \<subseteq> set r" by (simp add: strip_def subset_iff) (metis set_dropWhileD set_rev)
  moreover have "strip (strip r) = strip r"
  proof -
    define m where "m = dropWhile is_space r"
    have m: "m = [] \<or> \<not> is_space (hd m)" using hd_dropWhile [of is_space r] by (auto simp: m_def)
    define n where "n = dropWhile is_space (rev m)"
    have n: "n = [] \<or> \<not> is_space (hd n)" using hd_dropWhile [of is_space "rev m"] by (auto simp: n_def)
    obtain w where w: "rev m = w @ n" unfolding n_def using takeWhile_dropWhile_id by metis
    have "rev n = [] \<or> \<not> is_space (hd (rev n))"
    proof (cases "n = []")
      case False
      have "m = rev n @ rev w" using arg_cong [OF w, of rev] by simp
      then have "hd m = hd (rev n)" using False by simp
      then show ?thesis using m False \<open>m = rev n @ rev w\<close> by auto
    qed simp
    then have "dropWhile is_space (rev n) = rev n" by (metis dropWhile_eq_self_iff)
    moreover have "dropWhile is_space n = n" using n by (metis dropWhile_eq_self_iff)
    ultimately show ?thesis by (simp add: strip_def flip: m_def n_def)
  qed
  ultimately show ?thesis using r by (auto simp: has_nul_def)
qed

lemma bindR_InrE: "bindR r f = Inr b \<Longrightarrow> (\<And>a. r = Inr a \<Longrightarrow> f a = Inr b \<Longrightarrow> Q) \<Longrightarrow> Q"
  by (auto simp: bindR_Inr_iff)

lemma bindR_pairE: "bindR r (\<lambda>(x, y). f x y) = Inr b \<Longrightarrow> (\<And>x y. r = Inr (x, y) \<Longrightarrow> f x y = Inr b \<Longrightarrow> Q) \<Longrightarrow> Q"
  by (auto simp: bindR_Inr_iff)

lemma validated_resolves:
  assumes "validated P values environ = Inr c"
  shows "config_ok P c" "resolves P (opt values) c"
proof -
  have "config_ok P c \<and> resolves P (opt values) c"
    using assms unfolding validated_def Let_def
    apply (elim bindR_pairE bindR_InrE)
    subgoal premises parts
      using parts positive_int_pos [OF parts(1)] positive_int_pos [OF parts(2)] positive_int_pos [OF parts(4)]
        positive_int_pos [OF parts(5)] positive_float_pos [OF parts(7)] positive_float_pos [OF parts(8)] text_option_ok [OF parts(9)]
      by (clarsimp simp: config_ok_def resolves_def)
    done
  then show "config_ok P c" "resolves P (opt values) c" by simp_all
qed

lemma dget_dmerge: "distinct (map fst b) \<Longrightarrow> dget (dmerge a b) k = (case dget b k of None \<Rightarrow> dget a k | s \<Rightarrow> s)"
  unfolding dmerge_def
proof (induction b arbitrary: a)
  case (Cons p b)
  obtain k' v where p: "p = (k', v)" by (cases p)
  have rest: "distinct (map fst b)" and new: "dget b k' = None" using Cons.prems by (auto simp: p map_of_eq_None_iff)
  show ?case using Cons.IH [OF rest] new by (cases "k = k'") (simp_all add: p split: option.split)
qed simp

lemma option_names: "distinct config_fields"
  by (simp add: config_fields_def config_defaults_def lit_def)

lemma environment_distinct: "environment_values environ = Inr env \<Longrightarrow> distinct (map fst env)"
proof -
  assume "environment_values environ = Inr env"
  then have env: "env = concat (map (\<lambda>name. case dget environ (env_prefix @ upper_name name) of
      None \<Rightarrow> [] | Some v \<Rightarrow> [(name, JStr v)]) config_fields)"
    by (auto simp: environment_values_def split: if_splits)
  have "distinct ns \<Longrightarrow> distinct (map fst (concat (map (\<lambda>name. case f name of None \<Rightarrow> [] | Some v \<Rightarrow> [(name, JStr v)]) ns)))"
    for ns :: "str list" and f
    by (induction ns) (auto split: option.splits)
  from this [OF option_names] show ?thesis by (simp add: env)
qed

lemma cli_distinct: "distinct (map fst cli) \<Longrightarrow> distinct (map fst (cli_given cli))"
proof -
  have keys: "fst ` set (cli_given cs) \<subseteq> fst ` set cs" for cs by (auto simp: cli_given_def image_iff split: option.splits) force
  show "distinct (map fst cli) \<Longrightarrow> distinct (map fst (cli_given cli))"
  proof (induction cli)
    case (Cons x cli)
    have "cli_given (x # cli) = (case snd x of None \<Rightarrow> [] | Some w \<Rightarrow> [(fst x, w)]) @ cli_given cli"
      by (cases x; cases "snd x") (simp_all add: cli_given_def)
    then show ?case using Cons keys [of cli] by (auto split: option.splits)
  qed (simp add: cli_given_def)
qed

lemma opt_winning:
  assumes "distinct (map fst tbl)" "distinct (map fst env)" "distinct (map fst cli)"
  shows "opt (dmerge (dmerge (dmerge config_defaults tbl) env) cli) = winning [cli, env, tbl, config_defaults]"
  by (rule ext) (simp add: opt_def dget_dmerge assms split: option.split)


text \<open>A file that is not UTF-8 is not reported as a configuration error: the decoder's own error leaves
  \<open>load_config\<close>, and so does that of a URL which \<open>urlparse\<close> refuses.\<close>

lemma undecodable_file_escapes:
  assumes "cp_read P path = Inr (Some bytes)" "utf8_decode bytes = Inl e"
  shows "read_toml P path = Inl e" "exn_class e = lit ''UnicodeEncodeError''"
  using assms by (auto simp: read_toml_def utf8_decode_def split: if_splits)

section \<open>Witness\<close>

text \<open>A machine without a configuration file, on which the texts of numbers are not read.\<close>

definition sample_ports :: config_ports where
  "sample_ports = \<lparr>cp_int = \<lambda>_. None, cp_float = \<lambda>_. None, cp_float_of_int = \<lambda>i. Some (of_int i), cp_read = \<lambda>_. Inr None,
     cp_toml = \<lambda>_. None, cp_url = \<lambda>s. Inr (takeWhile (\<lambda>c. c \<noteq> 58) s, drop 8 s), cp_expanduser = Inr, cp_resolve = Inr,
     cp_is_dir = \<lambda>_. True\<rparr>"

definition sample_environ :: "(str \<times> str) list" where
  "sample_environ = [(lit ''OPENAI_API_KEY'', lit ''k''), (lit ''CODING_AGENT_NEO_MODEL'', lit ''m1''),
     (lit ''CODING_AGENT_NEO_APPROVAL_MODE'', lit ''deny'')]"

definition sample_cli :: "(str \<times> json option) list" where
  "sample_cli = [(lit ''model'', Some (JStr (lit '' m2 ''))), (lit ''max_steps'', Some (JInt 5)), (lit ''max_tool_calls'', None)]"

lemma sample_parts:
  "environment_values sample_environ = Inr [(lit ''model'', JStr (lit ''m1'')), (lit ''approval_mode'', JStr (lit ''deny''))]"
  "cli_given sample_cli = [(lit ''model'', JStr (lit '' m2 '')), (lit ''max_steps'', JInt 5)]"
  "read_toml sample_ports p = Inr []"
  by (simp_all add: environment_values_def sample_environ_def has_key_def env_prefix_def config_fields_def config_defaults_def
      upper_name_def lit_def cli_given_def sample_cli_def read_toml_def sample_ports_def)

lemma sample_values:
  "opt (dmerge (dmerge (dmerge config_defaults []) [(lit ''model'', JStr (lit ''m1'')), (lit ''approval_mode'', JStr (lit ''deny''))])
     [(lit ''model'', JStr (lit '' m2 '')), (lit ''max_steps'', JInt 5)]) =
   winning [[(lit ''model'', JStr (lit '' m2 '')), (lit ''max_steps'', JInt 5)],
     [(lit ''model'', JStr (lit ''m1'')), (lit ''approval_mode'', JStr (lit ''deny''))], [], config_defaults]"
  by (rule opt_winning) (simp_all add: lit_def)

definition sample_options :: "string \<Rightarrow> json" where
  "sample_options = winning [[(lit ''model'', JStr (lit '' m2 '')), (lit ''max_steps'', JInt 5)],
     [(lit ''model'', JStr (lit ''m1'')), (lit ''approval_mode'', JStr (lit ''deny''))], [], config_defaults]"

lemma sample_option_values:
    "sample_options ''model'' = JStr (lit '' m2 '')"
    "sample_options ''api_base'' = JStr (lit ''https://api.openai.com/v1'')"
    "sample_options ''api_key_env'' = JStr (lit ''OPENAI_API_KEY'')"
    "sample_options ''workspace'' = JStr (lit ''.'')"
    "sample_options ''approval_mode'' = JStr (lit ''deny'')"
    "sample_options ''max_steps'' = JInt 5"
    "sample_options ''max_tool_calls'' = JInt 64"
    "sample_options ''max_wall_seconds'' = JFloat (Finite 900)"
    "sample_options ''command_timeout'' = JFloat (Finite 120)"
    "sample_options ''context_window'' = JInt 128000"
    "sample_options ''reserved_output_tokens'' = JInt 4096"
    "sample_options ''model_output_limit'' = JInt 12000"
    "sample_options ''session_output_limit'' = JInt 50000"
  by (simp_all add: sample_options_def config_defaults_def lit_def)

lemma sample_loads:
  "\<exists>c. load_config sample_ports sample_cli sample_environ None = Inr c \<and> cf_model c = lit ''m2''"
proof -
  have f: "lit ''model'' \<in> set config_fields" "lit ''max_steps'' \<in> set config_fields"
    by (simp_all add: config_fields_def config_defaults_def)
  have e: "dget sample_environ (lit ''OPENAI_API_KEY'') = Some (lit ''k'')" by (simp add: sample_environ_def)
  have i: "positive_int sample_ports (JInt n) name = Inr n" if "0 < n" for n name
    using that by (simp add: positive_int_def int_of_value_def)
  have q: "positive_float sample_ports (JFloat (Finite q)) name = Inr q" if "0 < q" for q name
    using that by (simp add: positive_float_def float_of_value_def)
  have t: "text_option (JStr (lit '' m2 '')) ''model'' = Inr (lit ''m2'')"
    "text_option (JStr (lit ''https://api.openai.com/v1'')) ''api_base'' = Inr (lit ''https://api.openai.com/v1'')"
    "text_option (JStr (lit ''OPENAI_API_KEY'')) ''api_key_env'' = Inr (lit ''OPENAI_API_KEY'')"
    "text_option (JStr (lit ''deny'')) ''approval_mode'' = Inr (lit ''deny'')"
    by (simp_all add: text_option_def strip_def is_space_def has_nul_def lit_def)
  have u: "cp_url sample_ports (lit ''https://api.openai.com/v1'') = Inr (lit ''https'', lit ''api.openai.com/v1'')"
    by (simp add: sample_ports_def lit_def)
  have n: "env_name_ok (lit ''OPENAI_API_KEY'')" by (simp add: env_name_ok_def lit_def)
  have w: "workspace_option sample_ports (JStr (lit ''.'')) = Inr (lit ''.'')" "cp_is_dir sample_ports s" "cp_expanduser sample_ports s = Inr s" for s
    by (simp_all add: workspace_option_def sample_ports_def has_nul_def lit_def)
  have k: "lit ''k'' \<noteq> []" "\<not> has_nul (lit ''k'')" "lit ''deny'' \<in> set (map lit [''ask'', ''auto'', ''deny''])"
    "lit ''https'' \<in> set (map lit [''http'', ''https''])" "lit ''api.openai.com/v1'' \<noteq> []"
    by (simp_all add: has_nul_def lit_def)
  show ?thesis
    unfolding load_config_def config_values_def Let_def sample_parts bindR_simps validated_def sample_values [folded sample_options_def]
    by (simp add: sample_parts sample_values [folded sample_options_def] sample_option_values f e i q t u n w k guardR_def)
qed


end
