(* ===== verification/FileSystem.thy ===== *)
theory FileSystem
  imports Paths "HOL-Library.Sublist"
begin

text \<open>
  The file system the local environment works on: a tree of files, directories and symbolic links,
  each at its absolute path.  \<open>walk\<close> follows a path component by component, the way
  \<open>os.path.realpath\<close> does with and without \<open>strict\<close>, and the way the kernel does when it opens a
  path.  Following a link takes from \<open>k\<close>, the number of links a walk may follow; a walk that
  would follow more, round a loop for instance, fails.  Names are non-empty and are no dots; a
  link's target may hold \<open>..\<close>.
\<close>

datatype node = Regular "nat list" | Directory | Symlink bool "str list"

type_synonym path = "str list"
type_synonym files = "(path \<times> node) list"

definition node_at :: "files \<Rightarrow> path \<Rightarrow> node option" where
  "node_at fs p = (if p = [] then Some Directory else dget fs p)"

fun is_link :: "node option \<Rightarrow> bool" where
  "is_link (Some (Symlink _ _)) = True"
| "is_link _ = False"

fun is_regular :: "node option \<Rightarrow> bool" where
  "is_regular (Some (Regular _)) = True"
| "is_regular _ = False"

datatype walk_mode = Strict | Lenient | Kernel
datatype walk_error = NotFound | NotDirectory | TooManyLinks

function walk :: "files \<Rightarrow> walk_mode \<Rightarrow> nat \<Rightarrow> path \<Rightarrow> path \<Rightarrow> walk_error + path" where
  "walk fs m k cur [] = Inr cur"
| "walk fs m k cur (c # rest) =
     (if c = dotdot then walk fs m k (butlast cur) rest
      else
        (let p = cur @ [c] in
         case node_at fs p of
           None \<Rightarrow>
             (case m of
                Lenient \<Rightarrow> walk fs m k p rest
              | Strict \<Rightarrow> Inl (if is_regular (node_at fs cur) then NotDirectory else NotFound)
              | Kernel \<Rightarrow> if rest = [] then Inr p else Inl NotFound)
         | Some (Symlink absolute target) \<Rightarrow>
             (case k of 0 \<Rightarrow> Inl TooManyLinks | Suc j \<Rightarrow> walk fs m j (if absolute then [] else cur) (target @ rest))
         | Some (Regular _) \<Rightarrow> if m = Kernel \<and> rest \<noteq> [] then Inl NotDirectory else walk fs m k p rest
         | Some Directory \<Rightarrow> walk fs m k p rest))"
  by pat_completeness auto

termination
  by (relation "measures [\<lambda>(_, _, k, _, _). k, \<lambda>(_, _, _, _, rest). length rest]") auto

lemma walk_step [simp]: "walk fs m k cur (c # rest) =
     (if c = dotdot then walk fs m k (butlast cur) rest
      else
        (case node_at fs (cur @ [c]) of
           None \<Rightarrow>
             (case m of
                Lenient \<Rightarrow> walk fs m k (cur @ [c]) rest
              | Strict \<Rightarrow> Inl (if is_regular (node_at fs cur) then NotDirectory else NotFound)
              | Kernel \<Rightarrow> if rest = [] then Inr (cur @ [c]) else Inl NotFound)
         | Some (Symlink absolute target) \<Rightarrow>
             (case k of 0 \<Rightarrow> Inl TooManyLinks | Suc j \<Rightarrow> walk fs m j (if absolute then [] else cur) (target @ rest))
         | Some (Regular _) \<Rightarrow> if m = Kernel \<and> rest \<noteq> [] then Inl NotDirectory else walk fs m k (cur @ [c]) rest
         | Some Directory \<Rightarrow> walk fs m k (cur @ [c]) rest))"
  by (simp add: Let_def)

declare walk.simps(2) [simp del]

text \<open>\<open>Path.resolve\<close> with and without \<open>strict\<close>; what the kernel opens; \<open>exists\<close>, \<open>is_symlink\<close>,
  \<open>is_file\<close> and \<open>is_dir\<close>.\<close>

definition resolve_strict :: "files \<Rightarrow> nat \<Rightarrow> path \<Rightarrow> walk_error + path" where
  "resolve_strict fs k p = walk fs Strict k [] p"

definition resolve_lenient :: "files \<Rightarrow> nat \<Rightarrow> path \<Rightarrow> walk_error + path" where
  "resolve_lenient fs k p = walk fs Lenient k [] p"

definition opened :: "files \<Rightarrow> nat \<Rightarrow> path \<Rightarrow> walk_error + path" where
  "opened fs k p = walk fs Kernel k [] p"

definition stat :: "files \<Rightarrow> nat \<Rightarrow> path \<Rightarrow> node option" where
  "stat fs k p = (case opened fs k p of Inl _ \<Rightarrow> None | Inr q \<Rightarrow> node_at fs q)"

definition path_exists :: "files \<Rightarrow> nat \<Rightarrow> path \<Rightarrow> bool" where
  "path_exists fs k p \<longleftrightarrow> stat fs k p \<noteq> None"

definition path_is_symlink :: "files \<Rightarrow> nat \<Rightarrow> path \<Rightarrow> bool" where
  "path_is_symlink fs k p \<longleftrightarrow>
     p \<noteq> [] \<and> (case opened fs k (butlast p) of Inl _ \<Rightarrow> False | Inr d \<Rightarrow> is_link (node_at fs (d @ [last p])))"

section \<open>Walks\<close>

text \<open>A place on which no link lies, and which can be named.\<close>

definition plain :: "files \<Rightarrow> path \<Rightarrow> bool" where
  "plain fs p \<longleftrightarrow> dotdot \<notin> set p \<and> (\<forall>q. prefix q p \<longrightarrow> \<not> is_link (node_at fs q))"

lemma plain_Nil [simp]: "plain fs []"
  by (simp add: plain_def node_at_def)

lemma plain_butlast: "plain fs p \<Longrightarrow> plain fs (butlast p)"
  unfolding plain_def by (meson in_set_butlastD prefixeq_butlast prefix_order.trans)

lemma plain_snoc: "plain fs (p @ [c]) \<longleftrightarrow> plain fs p \<and> c \<noteq> dotdot \<and> \<not> is_link (node_at fs (p @ [c]))"
  by (auto simp: plain_def)

lemma walk_plain: "walk fs m k cur rest = Inr q \<Longrightarrow> plain fs cur \<Longrightarrow> plain fs q"
proof (induction fs m k cur rest rule: walk.induct)
  case (2 fs m k cur c rest)
  show ?case
  proof (cases "c = dotdot")
    case True
    then show ?thesis using 2 plain_butlast by simp
  next
    case False
    note IH = "2.IH"(2-) [OF False refl]
    show ?thesis
    proof (cases "node_at fs (cur @ [c])")
      case None
      then have "plain fs (cur @ [c])" using False 2(7) by (simp add: plain_snoc)
      then show ?thesis using None False 2(6) IH(1) by (auto split: walk_mode.splits if_splits)
    next
      case (Some x)
      show ?thesis
      proof (cases x)
        case (Symlink absolute target)
        then show ?thesis using Some False 2(6,7) IH(4) [OF Some Symlink] by (cases k) (auto split: if_splits)
      next
        case (Regular b)
        then have "plain fs (cur @ [c])" using False Some 2(7) by (simp add: plain_snoc)
        then show ?thesis using Some Regular False 2(6) IH(2) [OF Some Regular] by (auto split: if_splits)
      next
        case Directory
        then have "plain fs (cur @ [c])" using False Some 2(7) by (simp add: plain_snoc)
        then show ?thesis using Some Directory False 2(6) IH(3) [OF Some Directory] by simp
      qed
    qed
  qed
qed simp

text \<open>Where a stricter walk arrives, the lenient one arrives as well.\<close>

lemma walk_lenient: "walk fs m k cur rest = Inr q \<Longrightarrow> walk fs Lenient k cur rest = Inr q"
proof (induction fs m k cur rest rule: walk.induct)
  case (2 fs m k cur c rest)
  show ?case
  proof (cases "c = dotdot")
    case True
    then show ?thesis using "2.IH"(1) "2.prems" by simp
  next
    case False
    note IH = "2.IH"(2-) [OF False refl]
    show ?thesis
    proof (cases "node_at fs (cur @ [c])")
      case None
      then show ?thesis using False "2.prems" IH(1) by (cases m) (auto split: if_splits)
    next
      case (Some x)
      show ?thesis
      proof (cases x)
        case (Symlink absolute target)
        then show ?thesis using Some False "2.prems" IH(4) [OF Some Symlink] by (cases k) simp_all
      next
        case (Regular b)
        then show ?thesis using Some False "2.prems" IH(2) [OF Some Regular] by (simp split: if_splits)
      next
        case Directory
        then show ?thesis using Some False "2.prems" IH(3) [OF Some Directory] by simp
      qed
    qed
  qed
qed simp

text \<open>A walk along a place without links stays on it.\<close>

lemma walk_along:
  "plain fs (cur @ rest) \<Longrightarrow> walk fs m k cur rest = Inr q \<Longrightarrow> q = cur @ rest"
proof (induction rest arbitrary: cur)
  case (Cons c rest)
  have p: "plain fs (cur @ [c])"
    using Cons.prems(1) by (auto simp: plain_def intro: prefix_order.trans)
  have "walk fs m k (cur @ [c]) rest = Inr q \<or> q = cur @ [c] \<and> rest = []"
    using Cons.prems(2) p by (cases "node_at fs (cur @ [c])") (auto simp: plain_snoc Let_def split: node.splits walk_mode.splits if_splits)
  then show ?case using Cons.IH [of "cur @ [c]"] Cons.prems(1) by auto
qed simp

text \<open>A file system in which everything lies in a directory.\<close>

definition tree :: "files \<Rightarrow> bool" where
  "tree fs \<longleftrightarrow> (\<forall>p c. node_at fs (p @ [c]) \<noteq> None \<longrightarrow> node_at fs p = Some Directory)"

lemma tree_butlast: "tree fs \<Longrightarrow> node_at fs p \<noteq> None \<Longrightarrow> node_at fs (butlast p) = Some Directory"
  unfolding tree_def by (cases p rule: rev_cases) (simp add: node_at_def, metis butlast_snoc)

text \<open>The kernel passes through directories only.\<close>

lemma kernel_append:
  "tree fs \<Longrightarrow> node_at fs cur = Some Directory \<Longrightarrow> ys \<noteq> [] \<Longrightarrow> walk fs Kernel k cur (xs @ ys) = Inr q \<Longrightarrow>
   \<exists>j d. walk fs Kernel k cur xs = Inr d \<and> walk fs Kernel j d ys = Inr q \<and> node_at fs d = Some Directory"
proof (induction fs Kernel k cur xs rule: walk.induct)
  case (1 fs k cur)
  then show ?case by auto
next
  case (2 fs k cur c rest)
  show ?case
  proof (cases "c = dotdot")
    case True
    then show ?thesis using 2(1) [OF True 2(6) tree_butlast 2(8)] 2(6-9) by simp
  next
    case False
    show ?thesis
    proof (cases "node_at fs (cur @ [c])")
      case None
      then show ?thesis using 2(8,9) False by simp
    next
      case (Some x)
      show ?thesis
      proof (cases x)
        case (Symlink absolute target)
        obtain j where j: "k = Suc j" using 2(9) False Some Symlink by (cases k) (simp_all add: Let_def)
        have "node_at fs (if absolute then [] else cur) = Some Directory" using 2(7) by (simp add: node_at_def [of fs "[]"])
        from 2(5) [OF False refl Some Symlink j 2(6) this 2(8)] show ?thesis
          using 2(9) False Some Symlink j by (simp add: Let_def)
      next
        case (Regular b)
        then show ?thesis using 2(8,9) False Some by (simp add: Let_def)
      next
        case Directory
        then show ?thesis using 2(4) [OF False refl Some Directory 2(6) _ 2(8)] 2(9) False Some by (simp add: Let_def)
      qed
    qed
  qed
qed

end
