(* ===== verification/LocalEnv.thy ===== *)
theory LocalEnv
  imports FileSystem Truncation Environment
begin

text \<open>
  The local environment (\<open>environment/local.py\<close>): its state, resolving logical paths inside the
  workspace, and reading, writing and editing files.  An operation takes the environment, with the
  file system as it is, and returns the environment after it with its result, or with an exception
  no handler catches.  \<open>local_ports\<close> holds what the machine adds: how many links a walk may follow,
  which paths cannot be opened, how much of a write a device takes, the clock, the processes, the
  regular expressions.  Only the operation, and the processes it starts, change the files while
  it runs.
\<close>

section \<open>State\<close>

text \<open>
  A process is what the environment sees of it: the times, since the operation began, of the polls
  that find it running; the time of the poll at which its output is complete, with that output; what
  a blocking \<open>communicate\<close> returns after it was told to stop; its return code; whether it is still
  there after \<open>SIGTERM\<close>, and half a second later; and what it does to the files.
\<close>

record process =
  pr_ticks :: "rat list"
  pr_last :: rat
  pr_output :: "nat list \<times> nat list"
  pr_final :: "nat list \<times> nat list"
  pr_returncode :: "int option"
  pr_alive :: bool
  pr_lingers :: bool
  pr_effect :: "files \<Rightarrow> files"

datatype signal_sent = SIGTERM | SIGKILL

datatype command_line = Shell str | Argv "str list"

record local_ports =
  lp_links :: nat
  lp_fault :: "path \<Rightarrow> str option"
  lp_room :: "path \<Rightarrow> nat option"
  lp_elapsed :: rat
  lp_spawn :: "nat \<Rightarrow> path \<Rightarrow> command_line \<Rightarrow> process res"
  lp_which :: "str \<Rightarrow> str option res"
  lp_executable :: "str \<Rightarrow> bool"
  lp_regex :: "str \<Rightarrow> str + (str \<Rightarrow> bool)"
  lp_platform :: platform

text \<open>What a look at the cancellation signal, or at the closed flag, sees: nothing, the signal set, or
  that another thread has closed the environment in between.\<close>

datatype glance = Quiet | Signalled | ClosedMeanwhile

record local_env =
  lv_input :: path
  lv_root :: "path option"
  lv_started :: bool
  lv_closed :: bool
  lv_max_file_bytes :: int
  lv_max_list_entries :: nat
  lv_max_search_results :: nat
  lv_max_search_bytes :: "int option"
  lv_max_command_output_bytes :: int
  lv_command_timeout :: rat
  lv_use_rg :: bool
  lv_rg_input :: str
  lv_rg :: "str option option"
  lv_active :: "(nat \<times> process) list"
  lv_spawned :: nat
  lv_signals :: "(nat \<times> signal_sent) list"
  lv_reason :: "str option"
  lv_files :: files
  lv_glances :: "glance list"

section \<open>Construction\<close>

text \<open>The keyword arguments of \<open>__init__\<close>; an argument that was not given is its default.  The
  workspace and \<open>rg_path\<close> are text paths, the workspace as its absolute components.\<close>

record local_arguments =
  la_max_file_bytes :: json
  la_max_read_bytes :: json
  la_max_list_entries :: json
  la_max_search_results :: json
  la_max_search_bytes :: json
  la_max_command_output_bytes :: json
  la_max_output_bytes :: json
  la_command_timeout_seconds :: json
  la_command_timeout :: json
  la_rg_path :: "str option"
  la_use_rg :: json

definition count_arg :: "json \<Rightarrow> string \<Rightarrow> string \<Rightarrow> int res" where
  "count_arg v name kind =
     (case v of
        JInt i \<Rightarrow> if i < 0 then Inl (ValueError (lit (name @ '' must be non-negative''))) else Inr i
      | _ \<Rightarrow> Inl (TypeError (lit (name @ '' must be a non-negative '' @ kind))))"

definition optional_count :: "json \<Rightarrow> string \<Rightarrow> int option res" where
  "optional_count v name = (if v = JNull then Inr None else bindR (count_arg v name ''integer or None'') (\<lambda>i. Inr (Some i)))"

text \<open>A NaN passes the first check of a timeout, and the check that it is finite refuses it.\<close>

definition seconds_arg :: "json \<Rightarrow> string \<Rightarrow> string \<Rightarrow> pyfloat res" where
  "seconds_arg v name kind =
     (case v of
        JInt i \<Rightarrow> if i < 0 then Inl (ValueError (lit (name @ '' must be non-negative''))) else Inr (Finite (of_int i))
      | JFloat f \<Rightarrow>
          (case f of
             Finite q \<Rightarrow> if q < 0 then Inl (ValueError (lit (name @ '' must be non-negative''))) else Inr f
           | NegInf \<Rightarrow> Inl (ValueError (lit (name @ '' must be non-negative'')))
           | _ \<Rightarrow> Inr f)
      | _ \<Rightarrow> Inl (TypeError (lit (name @ '' must be a non-negative '' @ kind))))"

definition local_init :: "path \<Rightarrow> local_arguments \<Rightarrow> files \<Rightarrow> local_env res" where
  "local_init workspace a fs =
     bindR (guardR (\<not> list_ex has_nul workspace) (ValueError (lit ''workspace must not contain NUL''))) (\<lambda>_.
     bindR (count_arg (la_max_file_bytes a) ''max_file_bytes'' ''integer'') (\<lambda>max_file_bytes.
     bindR (optional_count (la_max_read_bytes a) ''max_read_bytes'') (\<lambda>max_read_bytes.
     bindR (count_arg (la_max_list_entries a) ''max_list_entries'' ''integer'') (\<lambda>max_list_entries.
     bindR (count_arg (la_max_search_results a) ''max_search_results'' ''integer'') (\<lambda>max_search_results.
     bindR (count_arg (la_max_command_output_bytes a) ''max_command_output_bytes'' ''integer'') (\<lambda>max_command_output_bytes.
     bindR (optional_count (la_max_output_bytes a) ''max_output_bytes'') (\<lambda>max_output_bytes.
     bindR (optional_count (la_max_search_bytes a) ''max_search_bytes'') (\<lambda>max_search_bytes.
     bindR (seconds_arg (la_command_timeout_seconds a) ''command_timeout_seconds'' ''number'') (\<lambda>seconds.
     bindR (if la_command_timeout a = JNull then Inr seconds
            else seconds_arg (la_command_timeout a) ''command_timeout'' ''number or None'') (\<lambda>timeout.
     case timeout of
       Finite t \<Rightarrow>
         bindR (guardR (is_jbool (la_use_rg a)) (TypeError (lit ''use_rg must be a boolean''))) (\<lambda>_.
         Inr
           \<lparr>lv_input = workspace, lv_root = None, lv_started = False, lv_closed = False,
            lv_max_file_bytes = (case max_read_bytes of None \<Rightarrow> max_file_bytes | Some n \<Rightarrow> n),
            lv_max_list_entries = nat max_list_entries, lv_max_search_results = nat max_search_results,
            lv_max_search_bytes = max_search_bytes,
            lv_max_command_output_bytes = (case max_output_bytes of None \<Rightarrow> max_command_output_bytes | Some n \<Rightarrow> n),
            lv_command_timeout = t, lv_use_rg = (la_use_rg a = JBool True),
            lv_rg_input = (case la_rg_path a of None \<Rightarrow> lit ''rg'' | Some r \<Rightarrow> r), lv_rg = None,
            lv_active = [], lv_spawned = 0, lv_signals = [], lv_reason = None, lv_files = fs, lv_glances = []\<rparr>)
     | _ \<Rightarrow> Inl (ValueError (lit ''command_timeout_seconds must be finite''))))))))))))"

section \<open>Looks, closing and starting\<close>

text \<open>\<open>_terminate_process\<close> on a POSIX host: the signals go to the process group.\<close>

definition terminate_process :: "nat \<times> process \<Rightarrow> local_env \<Rightarrow> local_env" where
  "terminate_process q s =
     s\<lparr>lv_signals := lv_signals s @ [(fst q, SIGTERM)] @
        (if pr_alive (snd q) \<and> pr_lingers (snd q) then [(fst q, SIGKILL)] else [])\<rparr>"

definition local_close :: "local_env \<Rightarrow> local_env" where
  "local_close s =
     (if lv_closed s then s else fold terminate_process (lv_active s) (s\<lparr>lv_closed := True\<rparr>))"

definition take_glance :: "local_env \<Rightarrow> glance \<times> local_env" where
  "take_glance s =
     (case lv_glances s of
        [] \<Rightarrow> (Quiet, s)
      | g # gs \<Rightarrow> (g, if g = ClosedMeanwhile then local_close (s\<lparr>lv_glances := gs\<rparr>) else s\<lparr>lv_glances := gs\<rparr>))"

text \<open>\<open>_cancelled\<close>, and a look at \<open>_closed\<close> alone.\<close>

definition look :: "local_env \<Rightarrow> bool \<times> local_env" where
  "look s = (if lv_closed s then (True, s) else (case take_glance s of (g, s') \<Rightarrow> (g \<noteq> Quiet, s')))"

definition look_closed :: "local_env \<Rightarrow> bool \<times> local_env" where
  "look_closed s = (if lv_closed s then (True, s) else (case take_glance s of (_, s') \<Rightarrow> (lv_closed s', s')))"

definition duration :: "local_ports \<Rightarrow> pyfloat option" where
  "duration P = Some (Finite (max 0 (lp_elapsed P)))"

text \<open>\<open>_detect_rg\<close>.\<close>

definition detect_rg :: "local_ports \<Rightarrow> local_env \<Rightarrow> local_env" where
  "detect_rg P s =
     (if lv_rg s \<noteq> None then s
      else s\<lparr>lv_rg := Some
        (if \<not> lv_use_rg s then None
         else if 47 \<in> set (lv_rg_input s)
         then (if lp_executable P (lv_rg_input s) then Some (lv_rg_input s) else None)
         else (case lp_which P (lv_rg_input s) of Inr found \<Rightarrow> found | Inl _ \<Rightarrow> None))\<rparr>)"

definition local_start :: "local_ports \<Rightarrow> local_env \<Rightarrow> local_env \<times> unit res" where
  "local_start P s =
     (if lv_closed s then (s, Inl (RuntimeError (lit ''environment is closed'')))
      else if lv_started s then (s, Inr ())
      else
        (case resolve_strict (lv_files s) (lp_links P) (lv_input s) of
           Inl _ \<Rightarrow> (s, Inl (ValueError (lit ''workspace does not exist or cannot be resolved'')))
         | Inr rt \<Rightarrow>
             if stat (lv_files s) (lp_links P) rt = Some Directory
             then ((detect_rg P (s\<lparr>lv_root := Some rt\<rparr>))\<lparr>lv_started := True\<rparr>, Inr ())
             else (s, Inl (ValueError (lit ''workspace must be a directory'')))))"

definition reason_of :: "string \<Rightarrow> jobj" where
  "reason_of r = [(lit ''reason'', JStr (lit r))]"

text \<open>\<open>_state_error\<close>: the message and reason of the result every operation starts with.\<close>

definition state_error :: "local_env \<Rightarrow> (string \<times> string) option" where
  "state_error s =
     (if lv_closed s then Some (''environment is closed'', ''closed'')
      else if \<not> lv_started s \<or> lv_root s = None then Some (''environment is not started'', ''not_started'')
      else None)"

definition root_of :: "local_env \<Rightarrow> path" where
  "root_of s = (case lv_root s of None \<Rightarrow> [] | Some r \<Rightarrow> r)"

section \<open>Resolving\<close>

definition is_within :: "path \<Rightarrow> path \<Rightarrow> bool" where
  "is_within p rt = prefix rt p"

definition path_escapes :: exn where
  "path_escapes = path_boundary_error ''path escapes workspace''"

definition resolve_existing :: "local_ports \<Rightarrow> local_env \<Rightarrow> str \<Rightarrow> string \<Rightarrow> bool \<Rightarrow> path res" where
  "resolve_existing P s logical kind allow_empty =
     bindR (logical_relative_path (JStr logical) allow_empty) (\<lambda>relative.
     case resolve_strict (lv_files s) (lp_links P) (root_of s @ relative) of
       Inl NotFound \<Rightarrow> Inl (path_boundary_error (kind @ '' does not exist''))
     | Inl _ \<Rightarrow> Inl (path_boundary_error (kind @ '' cannot be resolved''))
     | Inr resolved \<Rightarrow> if is_within resolved (root_of s) then Inr resolved else Inl path_escapes)"

function nearest_parent :: "files \<Rightarrow> nat \<Rightarrow> path \<Rightarrow> path" where
  "nearest_parent fs k p =
     (if path_exists fs k p \<or> path_is_symlink fs k p \<or> p = [] then p else nearest_parent fs k (butlast p))"
  by pat_completeness auto
termination by (relation "measure (\<lambda>(_, _, p). length p)") auto

declare nearest_parent.simps [simp del]

text \<open>\<open>_resolve_for_write\<close>: the path that is opened.\<close>

definition resolve_for_write :: "local_ports \<Rightarrow> local_env \<Rightarrow> str \<Rightarrow> path res" where
  "resolve_for_write P s logical =
     bindR (logical_relative_path (JStr logical) False) (\<lambda>relative.
     let fs = lv_files s; k = lp_links P; rt = root_of s; candidate = rt @ relative in
     if path_exists fs k candidate \<or> path_is_symlink fs k candidate
     then
       (case resolve_strict fs k candidate of
          Inr resolved \<Rightarrow> if is_within resolved rt then Inr resolved else Inl path_escapes
        | Inl NotFound \<Rightarrow>
            (case resolve_lenient fs k candidate of
               Inl _ \<Rightarrow> Inl (RuntimeError (lit ''Symlink loop''))
             | Inr resolved \<Rightarrow> if is_within resolved rt then Inr candidate else Inl path_escapes)
        | Inl _ \<Rightarrow> Inl (path_boundary_error ''path cannot be resolved''))
     else
       (case resolve_lenient fs k (nearest_parent fs k (butlast candidate)) of
          Inl _ \<Rightarrow> Inl (path_boundary_error ''parent path cannot be resolved'')
        | Inr parent \<Rightarrow> if is_within parent rt then Inr candidate else Inl path_escapes))"

text \<open>\<open>_safe_result_path\<close>.\<close>

definition safe_result_path :: "str \<Rightarrow> str option" where
  "safe_result_path p = (if is_safe_result_path p then Some p else None)"

text \<open>\<open>_public_os_error\<close>; an error of the codec has no text of the system's.\<close>

definition public_os_error :: "exn \<Rightarrow> string \<Rightarrow> str" where
  "public_os_error e prefix_text =
     (case e of OSError m \<Rightarrow> if m = [] then lit prefix_text else lit prefix_text @ lit '': '' @ m | _ \<Rightarrow> lit prefix_text)"

fun is_os_error :: "exn \<Rightarrow> bool" where
  "is_os_error (OSError _) = True"
| "is_os_error (TimeoutError _) = True"
| "is_os_error _ = False"

fun is_unicode_error :: "exn \<Rightarrow> bool" where
  "is_unicode_error (UnicodeError _) = True"
| "is_unicode_error _ = False"

definition boundary_reason :: "exn \<Rightarrow> str option" where
  "boundary_reason e = (case e of OtherError c m \<Rightarrow> if c = lit ''_PathBoundaryError'' then Some m else None | _ \<Rightarrow> None)"

section \<open>Files\<close>

definition open_fault :: "local_ports \<Rightarrow> files \<Rightarrow> path \<Rightarrow> path res" where
  "open_fault P fs p =
     (case lp_fault P p of
        Some m \<Rightarrow> Inl (OSError m)
      | None \<Rightarrow>
          (case opened fs (lp_links P) p of
             Inl NotFound \<Rightarrow> Inl (OSError (lit ''No such file or directory''))
           | Inl NotDirectory \<Rightarrow> Inl (OSError (lit ''Not a directory''))
           | Inl TooManyLinks \<Rightarrow> Inl (OSError (lit ''Too many levels of symbolic links''))
           | Inr q \<Rightarrow> if node_at fs q = Some Directory then Inl (OSError (lit ''Is a directory'')) else Inr q))"

text \<open>\<open>_read_bytes\<close>: a look at the signal before every chunk; None when cancelled.\<close>

function read_chunks :: "nat list \<Rightarrow> local_env \<Rightarrow> nat list option \<times> local_env" where
  "read_chunks bytes s =
     (case look s of
        (True, s') \<Rightarrow> (None, s')
      | (False, s') \<Rightarrow>
          if bytes = [] then (Some [], s')
          else (case read_chunks (drop 65536 bytes) s' of
                  (r, s'') \<Rightarrow> (map_option (\<lambda>rest. take 65536 bytes @ rest) r, s'')))"
  by pat_completeness auto
termination by (relation "measure (\<lambda>(bytes, _). length bytes)") auto

declare read_chunks.simps [simp del]

definition file_bytes :: "local_ports \<Rightarrow> path \<Rightarrow> local_env \<Rightarrow> (nat list option \<times> local_env) res" where
  "file_bytes P p s =
     bindR (open_fault P (lv_files s) p) (\<lambda>q.
     case node_at (lv_files s) q of
       Some (Regular bytes) \<Rightarrow> Inr (read_chunks bytes s)
     | _ \<Rightarrow> Inl (OSError (lit ''No such file or directory'')))"

text \<open>\<open>open("w")\<close> empties or creates the file; then the text is encoded, and the device takes what it
  can.\<close>

definition write_text :: "local_ports \<Rightarrow> path \<Rightarrow> str \<Rightarrow> local_env \<Rightarrow> local_env \<times> unit res" where
  "write_text P p content s =
     (case open_fault P (lv_files s) p of
        Inl e \<Rightarrow> (s, Inl e)
      | Inr q \<Rightarrow>
          let put = (\<lambda>bytes. s\<lparr>lv_files := dset (lv_files s) q (Regular bytes)\<rparr>) in
          case utf8_encode content of
            Inl e \<Rightarrow> (put [], Inl e)
          | Inr bytes \<Rightarrow>
              (case lp_room P q of
                 Some n \<Rightarrow>
                   if n < length bytes then (put (take n bytes), Inl (OSError (lit ''No space left on device'')))
                   else (put bytes, Inr ())
               | None \<Rightarrow> (put bytes, Inr ())))"

text \<open>\<open>str.splitlines(keepends=True)\<close>.\<close>

definition is_line_end :: "nat \<Rightarrow> bool" where
  "is_line_end c \<longleftrightarrow> (10 \<le> c \<and> c \<le> 13) \<or> (28 \<le> c \<and> c \<le> 30) \<or> c = 133 \<or> c = 8232 \<or> c = 8233"

fun text_lines :: "str \<Rightarrow> str list" where
  "text_lines [] = []"
| "text_lines (c # cs) =
     (if c = 13 \<and> cs \<noteq> [] \<and> hd cs = 10
      then (case text_lines cs of [] \<Rightarrow> [[13]] | l # ls \<Rightarrow> (13 # l) # ls)
      else if is_line_end c then [c] # text_lines cs
      else (case text_lines cs of [] \<Rightarrow> [[c]] | l # ls \<Rightarrow> (c # l) # ls))"

definition select_lines :: "str \<Rightarrow> int option \<Rightarrow> int option \<Rightarrow> str" where
  "select_lines s start_line end_line =
     (if start_line = None \<and> end_line = None then s
      else
        (let ls = text_lines s;
             start = (case start_line of None \<Rightarrow> 0 | Some n \<Rightarrow> nat (n - 1)) in
         concat (case end_line of None \<Rightarrow> drop start ls | Some e \<Rightarrow> drop start (take (nat e) ls))))"

text \<open>A result: \<open>FileResult(...)\<close> with the measured duration.\<close>

definition file_res ::
  "local_ports \<Rightarrow> EnvironmentStatus \<Rightarrow> str \<Rightarrow> str option \<Rightarrow> (str \<times> bool \<times> int) option \<Rightarrow> jobj \<Rightarrow> FileResult res" where
  "file_res P status message p text_part metadata =
     FileResult_post_init
       \<lparr>fr_status = status, fr_message = message, fr_metadata = metadata, fr_duration_seconds = duration P, fr_path = p,
        fr_content = (case text_part of None \<Rightarrow> [] | Some (t, _, _) \<Rightarrow> t),
        fr_truncated = (case text_part of None \<Rightarrow> False | Some (_, b, _) \<Rightarrow> b),
        fr_original_length = (case text_part of None \<Rightarrow> None | Some (_, _, n) \<Rightarrow> Some n)\<rparr>"

definition state_file_res :: "local_ports \<Rightarrow> string \<times> string \<Rightarrow> FileResult res" where
  "state_file_res P e = file_res P EnvError (lit (fst e)) None None (reason_of (snd e))"

definition request_limit :: "local_env \<Rightarrow> int option \<Rightarrow> int option" where
  "request_limit s limit = (case limit of None \<Rightarrow> Some (lv_max_file_bytes s) | Some l \<Rightarrow> Some l)"

text \<open>The handlers of \<open>read_file\<close> and \<open>write_file\<close>.\<close>

definition file_handler :: "local_ports \<Rightarrow> string \<Rightarrow> str \<Rightarrow> exn \<Rightarrow> FileResult res" where
  "file_handler P prefix_text p e =
     (case boundary_reason e of
        Some m \<Rightarrow> file_res P EnvError m (safe_result_path p) None (reason_of ''path_boundary'')
      | None \<Rightarrow>
          if is_os_error e \<or> is_unicode_error e
          then file_res P EnvError (public_os_error e prefix_text) (safe_result_path p) None (reason_of ''file_error'')
          else Inl e)"

definition local_read_file :: "local_ports \<Rightarrow> ReadFileRequest \<Rightarrow> local_env \<Rightarrow> local_env \<times> FileResult res" where
  "local_read_file P r s0 =
     (case state_error s0 of
        Some e \<Rightarrow> (s0, state_file_res P e)
      | None \<Rightarrow>
          (case look s0 of
             (True, s) \<Rightarrow> (s, file_res P EnvCancelled (lit ''operation cancelled before reading'') (safe_result_path (rf_path r)) None [])
           | (False, s) \<Rightarrow>
               (case bindR (resolve_existing P s (rf_path r) ''file'' False) (\<lambda>resolved.
                       bindR (guardR (is_regular (stat (lv_files s) (lp_links P) resolved)) (path_boundary_error ''path is not a regular file'')) (\<lambda>_.
                       file_bytes P resolved s)) of
                  Inl e \<Rightarrow> (s, file_handler P ''unable to read file'' (rf_path r) e)
                | Inr (None, s') \<Rightarrow> (s', file_res P EnvCancelled (lit ''operation cancelled while reading'') (Some (rf_path r)) None [])
                | Inr (Some raw, s') \<Rightarrow>
                    (s', case truncate_text (select_lines (utf8_decode_replace raw) (rf_start_line r) (rf_end_line r))
                                (request_limit s' (rf_max_bytes r)) of
                           Inl e \<Rightarrow> file_handler P ''unable to read file'' (rf_path r) e
                         | Inr (t, truncated, n, nbytes) \<Rightarrow>
                             file_res P EnvSuccess (lit ''file read'') (Some (rf_path r)) (Some (t, truncated, int n))
                               [(lit ''original_length_bytes'', JInt (int nbytes))]))))"

definition local_write_file :: "local_ports \<Rightarrow> WriteFileRequest \<Rightarrow> local_env \<Rightarrow> local_env \<times> FileResult res" where
  "local_write_file P r s0 =
     (let p = wf_path r;
          cancelled = file_res P EnvCancelled (lit ''operation cancelled before writing'') (Some p) None [] in
      case state_error s0 of
        Some e \<Rightarrow> (s0, state_file_res P e)
      | None \<Rightarrow>
          (case look s0 of
             (True, s) \<Rightarrow> (s, cancelled)
           | (False, s) \<Rightarrow>
               (case bindR (resolve_for_write P s p) (\<lambda>target.
                       bindR (guardR (stat (lv_files s) (lp_links P) target \<noteq> Some Directory) (path_boundary_error ''path is a directory'')) (\<lambda>_.
                       Inr target)) of
                  Inl e \<Rightarrow> (s, file_handler P ''unable to write file'' p e)
                | Inr target \<Rightarrow>
                    (case look s of
                       (True, s1) \<Rightarrow> (s1, cancelled)
                     | (False, s1) \<Rightarrow>
                         (case write_text P target (wf_content r) s1 of
                            (s2, Inl e) \<Rightarrow> (s2, file_handler P ''unable to write file'' p e)
                          | (s2, Inr _) \<Rightarrow>
                              (s2, case truncate_text (wf_content r) (request_limit s2 (wf_max_bytes r)) of
                                     Inl e \<Rightarrow> file_handler P ''unable to write file'' p e
                                   | Inr (t, truncated, n, nbytes) \<Rightarrow>
                                       file_res P EnvSuccess (lit ''file written'') (Some p) (Some (t, truncated, int n))
                                         [(lit ''original_length_bytes'', JInt (int nbytes)),
                                          (lit ''bytes_written'', JInt (int nbytes))]))))))"

section \<open>Editing\<close>

text \<open>\<open>str.count\<close> and \<open>str.replace\<close> of a non-empty text: from left to right, without overlaps.\<close>

function occurrences :: "str \<Rightarrow> str \<Rightarrow> nat" where
  "occurrences old s =
     (if s = [] \<or> old = [] then 0
      else if take (length old) s = old then Suc (occurrences old (drop (length old) s))
      else occurrences old (tl s))"
  by pat_completeness auto
termination by (relation "measure (\<lambda>(_, s). length s)") (auto simp: diff_less)

function replace_all :: "str \<Rightarrow> str \<Rightarrow> str \<Rightarrow> str" where
  "replace_all old new s =
     (if s = [] \<or> old = [] then s
      else if take (length old) s = old then new @ replace_all old new (drop (length old) s)
      else hd s # replace_all old new (tl s))"
  by pat_completeness auto
termination by (relation "measure (\<lambda>(_, _, s). length s)") (auto simp: diff_less)

declare occurrences.simps [simp del] replace_all.simps [simp del]

definition edit_handler :: "local_ports \<Rightarrow> str \<Rightarrow> exn \<Rightarrow> FileResult res" where
  "edit_handler P p e =
     (case boundary_reason e of
        Some m \<Rightarrow> file_res P EnvError m (safe_result_path p) None (reason_of ''path_boundary'')
      | None \<Rightarrow>
          if is_unicode_error e
          then file_res P EnvError (lit ''unable to edit non-UTF-8 text file'') (safe_result_path p) None (reason_of ''file_encoding'')
          else if is_os_error e
          then file_res P EnvError (public_os_error e ''unable to edit file'') (safe_result_path p) None (reason_of ''file_error'')
          else Inl e)"

definition mismatch_res :: "local_ports \<Rightarrow> EditFileRequest \<Rightarrow> nat \<Rightarrow> FileResult res" where
  "mismatch_res P r found =
     file_res P EnvError
       (lit ''edit target occurrence count mismatch: expected '' @
        (case ef_expected_replacements r of None \<Rightarrow> lit ''None'' | Some n \<Rightarrow> dec_int n) @ lit '', found '' @ dec found)
       (Some (ef_path r)) None
       (reason_of ''edit_occurrence_mismatch'' @
        [(lit ''expected_replacements'', case ef_expected_replacements r of None \<Rightarrow> JNull | Some n \<Rightarrow> JInt n),
         (lit ''actual_replacements'', JInt (int found))])"

text \<open>The text of the file and how often the old text occurs in it.\<close>

definition local_edit_file :: "local_ports \<Rightarrow> EditFileRequest \<Rightarrow> local_env \<Rightarrow> local_env \<times> FileResult res" where
  "local_edit_file P r s0 =
     (let p = ef_path r; old = ef_old_text r;
          cancelled = (\<lambda>m. file_res P EnvCancelled (lit m) (Some p) None []) in
      case state_error s0 of
        Some e \<Rightarrow> (s0, state_file_res P e)
      | None \<Rightarrow>
          (case look s0 of
             (True, s) \<Rightarrow> (s, cancelled ''operation cancelled before editing'')
           | (False, s) \<Rightarrow>
               (case bindR (resolve_existing P s p ''file'' False) (\<lambda>target.
                       bindR (guardR (is_regular (stat (lv_files s) (lp_links P) target)) (path_boundary_error ''path is not a regular file'')) (\<lambda>_.
                       bindR (file_bytes P target s) (\<lambda>raw. Inr (target, raw)))) of
                  Inl e \<Rightarrow> (s, edit_handler P p e)
                | Inr (target, None, s') \<Rightarrow> (s', cancelled ''operation cancelled while editing'')
                | Inr (target, Some raw, s') \<Rightarrow>
                    (case utf8_decode raw of
                       Inl e \<Rightarrow> (s', edit_handler P p e)
                     | Inr original \<Rightarrow>
                         let found = occurrences old original in
                         if Some (int found) \<noteq> ef_expected_replacements r then (s', mismatch_res P r found)
                         else
                           (case look s' of
                              (True, s1) \<Rightarrow> (s1, cancelled ''operation cancelled before editing'')
                            | (False, s1) \<Rightarrow>
                                let updated = replace_all old (ef_new_text r) original in
                                (case write_text P target updated s1 of
                                   (s2, Inl e) \<Rightarrow> (s2, edit_handler P p e)
                                 | (s2, Inr _) \<Rightarrow>
                                     (s2, case truncate_text updated (Some (lv_max_file_bytes s2)) of
                                            Inl e \<Rightarrow> edit_handler P p e
                                          | Inr (t, truncated, n, nbytes) \<Rightarrow>
                                              file_res P EnvSuccess (lit ''file edited'') (Some p) (Some (t, truncated, int n))
                                                [(lit ''original_length_bytes'', JInt (int nbytes)),
                                                 (lit ''replacements'', JInt (int found))])))))))"

end
