(* ===== verification/LocalList.thy ===== *)
theory LocalList
  imports LocalEnv Redaction "HOL-Library.List_Lexorder" "HOL-Library.Multiset"
begin

text \<open>
  Listing and searching of the local environment without \<open>rg\<close>: both walk the workspace breadth
  first, a directory's children in the order of their names, and neither goes through a link to a
  directory.  A listing leaves out the links that lead outside the workspace, and counts them.
\<close>

section \<open>Directories\<close>

text \<open>\<open>sorted(os.scandir(current), key=lambda entry: entry.name)\<close>.\<close>

definition names_in :: "files \<Rightarrow> path \<Rightarrow> str list" where
  "names_in fs d = sort (remdups (map last (filter (\<lambda>p. p \<noteq> [] \<and> butlast p = d) (map fst fs))))"

definition scandir :: "local_ports \<Rightarrow> files \<Rightarrow> path \<Rightarrow> str list res" where
  "scandir P fs d =
     (case lp_fault P d of
        Some m \<Rightarrow> Inl (OSError m)
      | None \<Rightarrow>
          (case stat fs (lp_links P) d of
             Some Directory \<Rightarrow> Inr (names_in fs d)
           | Some _ \<Rightarrow> Inl (OSError (lit ''Not a directory''))
           | None \<Rightarrow> Inl (OSError (lit ''No such file or directory''))))"

definition join_logical :: "str \<Rightarrow> str \<Rightarrow> str" where
  "join_logical current_logical name = (if current_logical = [] then name else current_logical @ [47] @ name)"

text \<open>The logical name a walk starts from.\<close>

definition logical_start :: "str \<Rightarrow> str" where
  "logical_start p = (let v = normalise_search_path p in if v = [46] then [] else v)"

section \<open>Listing\<close>

text \<open>The loop over a directory's children: the entries, the directories to visit, how many links
  were left out, and whether the walk was cancelled.\<close>

fun list_children ::
  "local_ports \<Rightarrow> bool \<Rightarrow> path \<Rightarrow> str \<Rightarrow> str list \<Rightarrow> local_env \<Rightarrow>
   (str list \<times> (path \<times> str) list \<times> nat \<times> bool) \<times> local_env" where
  "list_children P recursive current current_logical [] s = (([], [], 0, False), s)"
| "list_children P recursive current current_logical (name # names) s =
     (case look s of
        (True, s') \<Rightarrow> (([], [], 0, True), s')
      | (False, s') \<Rightarrow>
          let child = current @ [name]; logical = join_logical current_logical name;
              go = list_children P recursive current current_logical names s' in
          case go of ((entries, pending, skipped, cancelled), s'') \<Rightarrow>
            if is_link (node_at (lv_files s') child)
            then
              (case resolve_lenient (lv_files s') (lp_links P) child of
                 Inl _ \<Rightarrow> ((entries, pending, Suc skipped, cancelled), s'')
               | Inr target \<Rightarrow>
                   if is_within target (root_of s') then ((logical # entries, pending, skipped, cancelled), s'')
                   else ((entries, pending, Suc skipped, cancelled), s''))
            else
              ((logical # entries,
                if recursive \<and> node_at (lv_files s') child = Some Directory then (child, logical) # pending else pending,
                skipped, cancelled), s''))"

text \<open>A look leaves the files alone, and so does the loop.\<close>

lemma fold_terminate_same [simp]:
  "lv_files (fold terminate_process qs s) = lv_files s" "lv_root (fold terminate_process qs s) = lv_root s"
  "lv_started (fold terminate_process qs s) = lv_started s" "lv_closed (fold terminate_process qs s) = lv_closed s"
  "lv_active (fold terminate_process qs s) = lv_active s" "lv_rg (fold terminate_process qs s) = lv_rg s"
  by (induction qs arbitrary: s) (simp_all add: terminate_process_def)

lemma look_same [simp]:
  "look s = (b, s') \<Longrightarrow> lv_files s' = lv_files s" "look s = (b, s') \<Longrightarrow> lv_root s' = lv_root s"
  "look s = (b, s') \<Longrightarrow> lv_active s' = lv_active s"
  by (auto simp: look_def take_glance_def local_close_def split: if_splits list.splits)

lemma look_root [simp]: "look s = (b, s') \<Longrightarrow> root_of s' = root_of s"
  by (simp add: root_of_def)

text \<open>The loop over the pending directories; a directory's entries are among the files, so that only
  finitely many are visited.\<close>

definition deepest :: "files \<Rightarrow> nat" where
  "deepest fs = Max (insert 0 (length ` set (map fst fs)))"

definition pending_measure :: "files \<Rightarrow> (path \<times> str) list \<Rightarrow> nat multiset" where
  "pending_measure fs pending = image_mset (\<lambda>(d, _). deepest fs - length d) (mset pending)"

lemma list_children_pending:
  "list_children P recursive d l names s = ((es, pending, k, c), s') \<Longrightarrow> (e, l') \<in> set pending \<Longrightarrow>
   \<exists>n \<in> set names. e = d @ [n] \<and> node_at (lv_files s) e = Some Directory"
proof (induction names arbitrary: s s' es pending k c)
  case (Cons n names)
  obtain b s1 where l: "look s = (b, s1)" by (cases "look s")
  show ?case
  proof (cases b)
    case True
    then show ?thesis using Cons.prems l by auto
  next
    case False
    obtain es1 p1 k1 c1 s2 where g: "list_children P recursive d l names s1 = ((es1, p1, k1, c1), s2)"
      by (metis prod.collapse)
    have "(e, l') \<in> set p1 \<or> e = d @ [n] \<and> node_at (lv_files s) e = Some Directory"
      using Cons.prems l g False look_same(1) [OF l]
      by (auto simp: Let_def split: if_splits sum.splits)
    then show ?thesis using Cons.IH [OF g] look_same(1) [OF l] by auto
  qed
qed simp

lemma list_children_files:
  "list_children P recursive d l names s = (r, s') \<Longrightarrow> lv_files s' = lv_files s \<and> lv_root s' = lv_root s \<and> lv_active s' = lv_active s"
proof (induction names arbitrary: s s' r)
  case (Cons n names)
  obtain b s1 where l: "look s = (b, s1)" by (cases "look s")
  obtain es1 p1 k1 c1 s2 where g: "list_children P recursive d l names s1 = ((es1, p1, k1, c1), s2)"
    by (metis prod.collapse)
  have "s' = s1 \<or> s' = s2" using Cons.prems l g by (auto simp: Let_def split: if_splits sum.splits bool.splits)
  then show ?case using Cons.IH [OF g] look_same [OF l] by auto
qed simp

lemma node_length: "node_at fs p \<noteq> None \<Longrightarrow> length p \<le> deepest fs"
proof (cases "p = []")
  case False
  assume "node_at fs p \<noteq> None"
  then have "p \<in> set (map fst fs)" using False by (metis map_of_eq_None_iff node_at_def set_map)
  then show ?thesis by (auto simp: deepest_def intro: Max_ge)
qed simp

lemma pending_decreases:
  assumes "\<And>e l'. (e, l') \<in> set found \<Longrightarrow> \<exists>n. e = d @ [n] \<and> node_at fs e \<noteq> None"
  shows "(pending_measure fs (pending @ found), pending_measure fs ((d, l) # pending)) \<in> mult less_than"
proof -
  have "\<forall>k \<in># image_mset (\<lambda>(d, _). deepest fs - length d) (mset found). k < deepest fs - length d"
  proof
    fix k assume "k \<in># image_mset (\<lambda>(d, _). deepest fs - length d) (mset found)"
    then obtain e l' where e: "(e, l') \<in> set found" "k = deepest fs - length e" by auto
    from assms [OF e(1)] obtain n where "e = d @ [n]" "node_at fs e \<noteq> None" by auto
    then show "k < deepest fs - length d" using e(2) node_length [of fs e] by simp
  qed
  then have "(pending_measure fs pending + image_mset (\<lambda>(d, _). deepest fs - length d) (mset found),
      pending_measure fs pending + {#deepest fs - length d#}) \<in> mult less_than"
    by (intro one_step_implies_mult) auto
  then show ?thesis by (simp add: pending_measure_def ac_simps)
qed

lemma collect_step:
  assumes g: "list_children P recursive d l names s = ((es, found, skipped, cancelled), s')"
  shows "(pending_measure (lv_files s') (pending @ found), pending_measure (lv_files s) ((d, l) # pending)) \<in> mult less_than"
  using list_children_pending [OF g] list_children_files [OF g] by (auto intro!: pending_decreases) blast

function collect_loop ::
  "local_ports \<Rightarrow> bool \<Rightarrow> (path \<times> str) list \<Rightarrow> local_env \<Rightarrow> (str list \<times> bool \<times> nat) res \<times> local_env" where
  "collect_loop P recursive [] s = (Inr ([], False, 0), s)"
| "collect_loop P recursive ((d, l) # pending) s =
     (case scandir P (lv_files s) d of
        Inl e \<Rightarrow> (Inl e, s)
      | Inr names \<Rightarrow>
          (case list_children P recursive d l names s of
             ((entries, found, skipped, cancelled), s') \<Rightarrow>
               if cancelled then (Inr (entries, True, skipped), s')
               else
                 (case collect_loop P recursive (pending @ found) s' of
                    (Inl e, s'') \<Rightarrow> (Inl e, s'')
                  | (Inr (entries', cancelled', skipped'), s'') \<Rightarrow>
                      (Inr (entries @ entries', cancelled', skipped + skipped'), s''))))"
  by pat_completeness auto

termination
  by (relation "inv_image (mult less_than) (\<lambda>(_, _, pending, s). pending_measure (lv_files s) pending)")
    (auto simp: wf_mult intro: collect_step [OF sym])

text \<open>\<open>ListResult(...)\<close> and \<open>list_files\<close>; \<open>min\<close> of a missing limit and a number is a \<open>TypeError\<close>.\<close>

fun validate_entries :: "str list \<Rightarrow> unit res" where
  "validate_entries [] = Inr ()"
| "validate_entries (e # es) = bindR (validate_logical_path (JStr e) (lit ''path'') False) (\<lambda>_. validate_entries es)"

definition ListResult_post_init :: "ListResult \<Rightarrow> ListResult res" where
  "ListResult_post_init r =
     bindR (case lr_duration_seconds r of None \<Rightarrow> Inr ()
            | Some d \<Rightarrow> validate_nonnegative (JFloat d) (lit ''duration_seconds'') False) (\<lambda>_.
     bindR (validate_entries (lr_entries r)) (\<lambda>_.
     bindR (case lr_original_length r of None \<Rightarrow> Inr ()
            | Some n \<Rightarrow> validate_nonnegative (JInt n) (lit ''original_length'') True) (\<lambda>_.
     Inr r)))"

definition list_res ::
  "local_ports \<Rightarrow> EnvironmentStatus \<Rightarrow> str \<Rightarrow> (str list \<times> bool \<times> nat) option \<Rightarrow> jobj \<Rightarrow> ListResult res" where
  "list_res P status message listed metadata =
     ListResult_post_init
       \<lparr>lr_status = status, lr_message = message, lr_metadata = metadata, lr_duration_seconds = duration P,
        lr_entries = (case listed of None \<Rightarrow> [] | Some (es, _, _) \<Rightarrow> es),
        lr_truncated = (case listed of None \<Rightarrow> False | Some (_, b, _) \<Rightarrow> b),
        lr_original_length = map_option (\<lambda>(_, _, n). int n) listed\<rparr>"

definition type_quote :: "string \<Rightarrow> str" where
  "type_quote s = [39] @ lit s @ [39]"

definition min_limit :: "int option \<Rightarrow> nat \<Rightarrow> nat res" where
  "min_limit limit own =
     (case limit of
        None \<Rightarrow> Inl (TypeError (type_quote ''<'' @ lit '' not supported between instances of '' @ type_quote ''int'' @ lit '' and '' @ type_quote ''NoneType''))
      | Some n \<Rightarrow> Inr (nat (min n (int own))))"

definition collect_entries ::
  "local_ports \<Rightarrow> bool \<Rightarrow> path \<Rightarrow> str \<Rightarrow> local_env \<Rightarrow> (str list \<times> bool \<times> nat) res \<times> local_env" where
  "collect_entries P recursive d logical_root s =
     (case collect_loop P recursive [(d, logical_start logical_root)] s of
        (Inr (entries, cancelled, skipped), s') \<Rightarrow> (Inr (if cancelled then entries else sort entries, cancelled, skipped), s')
      | (Inl e, s') \<Rightarrow> (Inl e, s'))"

definition list_handler :: "local_ports \<Rightarrow> exn \<Rightarrow> ListResult res" where
  "list_handler P e =
     (case boundary_reason e of
        Some m \<Rightarrow> list_res P EnvError m None (reason_of ''path_boundary'')
      | None \<Rightarrow>
          if is_os_error e then list_res P EnvError (public_os_error e ''unable to list files'') None (reason_of ''file_error'')
          else Inl e)"

definition local_list_files :: "local_ports \<Rightarrow> ListFilesRequest \<Rightarrow> local_env \<Rightarrow> local_env \<times> ListResult res" where
  "local_list_files P r s0 =
     (case state_error s0 of
        Some e \<Rightarrow> (s0, list_res P EnvError (lit (fst e)) None (reason_of (snd e)))
      | None \<Rightarrow>
          (case look s0 of
             (True, s) \<Rightarrow> (s, list_res P EnvCancelled (lit ''operation cancelled before listing'') None (reason_of ''cancelled''))
           | (False, s) \<Rightarrow>
               (case bindR (resolve_existing P s (lf_path r) ''directory'' True) (\<lambda>resolved.
                       bindR (guardR (stat (lv_files s) (lp_links P) resolved = Some Directory)
                                (path_boundary_error ''path is not a directory'')) (\<lambda>_.
                       Inr resolved)) of
                  Inl e \<Rightarrow> (s, list_handler P e)
                | Inr resolved \<Rightarrow>
                    (case collect_entries P (lf_recursive r) resolved (lf_path r) s of
                       (Inl e, s') \<Rightarrow> (s', list_handler P e)
                     | (Inr (entries, cancelled, skipped), s') \<Rightarrow>
                         (s', bindR (min_limit (lf_max_entries r) (lv_max_list_entries s')) (\<lambda>limit.
                            let bounded = bound_sequence entries limit;
                                metadata = [(lit ''original_length'', JInt (int (length entries))),
                                            (lit ''recursive'', JBool (lf_recursive r))] @
                                           (if skipped > 0 then [(lit ''skipped_symlinks'', JInt (int skipped))] else []) in
                            if cancelled
                            then list_res P EnvCancelled (lit ''operation cancelled while listing'')
                                   (Some (fst bounded, snd bounded, length entries)) metadata
                            else list_res P EnvSuccess (lit ''files listed'')
                                   (Some (fst bounded, snd bounded, length entries)) metadata))))))"

end
