(* ===== verification/LocalSearch.thy ===== *)
theory LocalSearch
  imports LocalList HttpApp
begin

text \<open>
  Searching of the local environment without \<open>rg\<close>: the walk that gathers the files, the lines of a
  text as the standard library cuts them, and the matches, with the errors of the files it skips.
\<close>

section \<open>Searching without rg\<close>

text \<open>The loop over a directory's children: the files to search, the directories to visit, and
  whether it was cancelled.\<close>

fun search_children ::
  "local_ports \<Rightarrow> path \<Rightarrow> str \<Rightarrow> str list \<Rightarrow> local_env \<Rightarrow>
   ((path \<times> str) list \<times> (path \<times> str) list \<times> bool) \<times> local_env" where
  "search_children P current logical_root [] s = (([], [], False), s)"
| "search_children P current logical_root (name # names) s =
     (case look s of
        (True, s') \<Rightarrow> (([], [], True), s')
      | (False, s') \<Rightarrow>
          let child = current @ [name]; logical = join_logical logical_root name in
          case search_children P current logical_root names s' of ((files, pending, cancelled), s'') \<Rightarrow>
            (case node_at (lv_files s') child of
               Some (Symlink absolute link_target) \<Rightarrow>
                 (case resolve_lenient (lv_files s') (lp_links P) child of
                    Inl _ \<Rightarrow> ((files, pending, cancelled), s'')
                  | Inr target \<Rightarrow>
                      if is_within target (root_of s') \<and> is_regular (stat (lv_files s') (lp_links P) target)
                      then (((target, logical) # files, pending, cancelled), s'')
                      else ((files, pending, cancelled), s''))
             | Some Directory \<Rightarrow>
                 if name = lit ''.git'' then ((files, pending, cancelled), s'')
                 else ((files, (child, logical) # pending, cancelled), s'')
             | Some (Regular bytes) \<Rightarrow> (((child, logical) # files, pending, cancelled), s'')
             | None \<Rightarrow> ((files, pending, cancelled), s'')))"

lemma search_children_files:
  "search_children P d l names s = (r, s') \<Longrightarrow> lv_files s' = lv_files s \<and> lv_root s' = lv_root s \<and> lv_active s' = lv_active s"
proof (induction names arbitrary: s s' r)
  case (Cons n names)
  obtain b s1 where l: "look s = (b, s1)" by (cases "look s")
  obtain f1 p1 c1 s2 where g: "search_children P d l names s1 = ((f1, p1, c1), s2)"
    by (metis prod.collapse)
  have "s' = s1 \<or> s' = s2" using Cons.prems l g
    by (auto simp: Let_def split: if_splits sum.splits bool.splits option.splits node.splits)
  then show ?case using Cons.IH [OF g] look_same [OF l] by auto
qed simp

lemma search_children_pending:
  "search_children P d l names s = ((fs, pending, c), s') \<Longrightarrow> (e, l') \<in> set pending \<Longrightarrow>
   \<exists>n \<in> set names. e = d @ [n] \<and> node_at (lv_files s) e = Some Directory"
proof (induction names arbitrary: s s' fs pending c)
  case (Cons n names)
  obtain b s1 where l: "look s = (b, s1)" by (cases "look s")
  show ?case
  proof (cases b)
    case True
    then show ?thesis using Cons.prems l by auto
  next
    case False
    obtain f1 p1 c1 s2 where g: "search_children P d l names s1 = ((f1, p1, c1), s2)"
      by (metis prod.collapse)
    have "(e, l') \<in> set p1 \<or> e = d @ [n] \<and> node_at (lv_files s) e = Some Directory"
      using Cons.prems l g False look_same(1) [OF l]
      by (auto simp: Let_def split: if_splits sum.splits option.splits node.splits)
    then show ?thesis using Cons.IH [OF g] look_same(1) [OF l] by auto
  qed
qed simp

text \<open>The loop over the pending directories; a directory that cannot be read, or a cancellation, ends
  the search.\<close>

datatype gathered = Files "(path \<times> str) list" | Unreadable exn | Interrupted

lemma gather_step:
  assumes g: "search_children P d l names s = ((files, found, cancelled), s')"
  shows "(pending_measure (lv_files s') (pending @ found), pending_measure (lv_files s) ((d, l) # pending)) \<in> mult less_than"
  using search_children_pending [OF g] search_children_files [OF g] by (auto intro!: pending_decreases) blast

function gather_loop :: "local_ports \<Rightarrow> (path \<times> str) list \<Rightarrow> local_env \<Rightarrow> gathered \<times> local_env" where
  "gather_loop P [] s = (Files [], s)"
| "gather_loop P ((d, l) # pending) s =
     (case scandir P (lv_files s) d of
        Inl e \<Rightarrow> (Unreadable e, s)
      | Inr names \<Rightarrow>
          (case search_children P d l names s of
             ((files, found, cancelled), s') \<Rightarrow>
               if cancelled then (Interrupted, s')
               else
                 (case gather_loop P (pending @ found) s' of
                    (Files files', s'') \<Rightarrow> (Files (files @ files'), s'')
                  | r \<Rightarrow> r)))"
  by pat_completeness auto

termination
  by (relation "inv_image (mult less_than) (\<lambda>(_, pending, s). pending_measure (lv_files s) pending)")
    (auto simp: wf_mult intro: gather_step [OF sym])

text \<open>\<open>_relative_logical\<close>.\<close>

fun slash_joined :: "str list \<Rightarrow> str" where
  "slash_joined [] = [46]"
| "slash_joined [p] = p"
| "slash_joined (p # q # ps) = p @ [47] @ slash_joined (q # ps)"

definition relative_logical :: "path \<Rightarrow> path \<Rightarrow> str" where
  "relative_logical p rt =
     (if is_within p rt then slash_joined (drop (length rt) p) else if p = [] then [] else last p)"

definition gather_files :: "local_ports \<Rightarrow> path \<Rightarrow> str \<Rightarrow> local_env \<Rightarrow> gathered \<times> local_env" where
  "gather_files P resolved logical s =
     (let node = stat (lv_files s) (lp_links P) resolved in
      if is_regular node then (Files [(resolved, relative_logical resolved (root_of s))], s)
      else if node = Some Directory then gather_loop P [(resolved, logical_start logical)] s
      else (Files [], s))"

text \<open>The lines of a file opened as text: \<open>\r\n\<close> and \<open>\r\<close> are read as \<open>\n\<close>, which ends each line but
  perhaps the last.\<close>

fun universal_newlines :: "str \<Rightarrow> str" where
  "universal_newlines [] = []"
| "universal_newlines (c # cs) =
     (if c = 13 then (if cs \<noteq> [] \<and> hd cs = 10 then universal_newlines cs else 10 # universal_newlines cs)
      else c # universal_newlines cs)"

fun newline_lines :: "str \<Rightarrow> str list" where
  "newline_lines [] = []"
| "newline_lines (c # cs) =
     (if c = 10 then [10] # newline_lines cs
      else (case newline_lines cs of [] \<Rightarrow> [[c]] | l # ls \<Rightarrow> (c # l) # ls))"

definition rstrip_newline :: "str \<Rightarrow> str" where
  "rstrip_newline l = rev (dropWhile (\<lambda>c. c = 10) (rev l))"

text \<open>The loop over a file's lines; the flag tells that it was cancelled.\<close>

fun search_lines ::
  "(str \<Rightarrow> bool) \<Rightarrow> str \<Rightarrow> nat \<Rightarrow> str list \<Rightarrow> local_env \<Rightarrow> (SearchMatch list \<times> bool) \<times> local_env" where
  "search_lines test logical n [] s = (([], False), s)"
| "search_lines test logical n (l # ls) s =
     (case look s of
        (True, s') \<Rightarrow> (([], True), s')
      | (False, s') \<Rightarrow>
          (case search_lines test logical (Suc n) ls s' of
             ((matches, cancelled), s'') \<Rightarrow>
               ((if test l then \<lparr>sm_path = logical, sm_line_number = n, sm_text = rstrip_newline l\<rparr> # matches else matches,
                 cancelled), s'')))"

definition file_text :: "local_ports \<Rightarrow> files \<Rightarrow> path \<Rightarrow> str res" where
  "file_text P fs p =
     bindR (open_fault P fs p) (\<lambda>q.
     case node_at fs q of
       Some (Regular bytes) \<Rightarrow> Inr (universal_newlines (utf8_decode_replace bytes))
     | _ \<Rightarrow> Inl (OSError (lit ''No such file or directory'')))"

text \<open>The loop over the files: the matches, the errors of the files it skips, and whether it was
  cancelled.\<close>

fun search_files ::
  "local_ports \<Rightarrow> (str \<Rightarrow> bool) \<Rightarrow> (path \<times> str) list \<Rightarrow> local_env \<Rightarrow> (SearchMatch list \<times> str list \<times> bool) \<times> local_env" where
  "search_files P test [] s = (([], [], False), s)"
| "search_files P test ((p, logical) # rest) s =
     (case look s of
        (True, s') \<Rightarrow> (([], [], True), s')
      | (False, s') \<Rightarrow>
          (case file_text P (lv_files s') p of
             Inl e \<Rightarrow>
               (case search_files P test rest s' of
                  ((matches, errors, cancelled), s'') \<Rightarrow>
                    ((matches, public_os_error e ''file read failed'' # errors, cancelled), s''))
           | Inr content \<Rightarrow>
               (case search_lines test logical 1 (newline_lines content) s' of
                  ((matches, True), s'') \<Rightarrow> ((matches, [], True), s'')
                | ((matches, False), s'') \<Rightarrow>
                    (case search_files P test rest s'' of
                       ((matches', errors, cancelled), s3) \<Rightarrow> ((matches @ matches', errors, cancelled), s3)))))"

type_synonym found = "SearchMatch list \<times> jobj \<times> EnvironmentStatus \<times> str"

definition search_cancelled :: str where
  "search_cancelled = lit ''operation cancelled while searching''"

definition outcome_message :: "SearchMatch list \<Rightarrow> str" where
  "outcome_message matches = (if matches = [] then lit ''no matches found'' else lit ''matches found'')"

definition search_with_python :: "local_ports \<Rightarrow> SearchRequest \<Rightarrow> path \<Rightarrow> local_env \<Rightarrow> found \<times> local_env" where
  "search_with_python P r resolved s =
     (let metadata = [(lit ''engine'', JStr (lit ''stdlib'')),
                      (lit ''rg_available'', JBool (case lv_rg s of Some (Some _) \<Rightarrow> True | _ \<Rightarrow> False)),
                      (lit ''fallback'', JStr (lit ''python''))] in
      case (if sr_use_regex r then lp_regex P (sr_query r) else Inr (contains (sr_query r))) of
        Inl m \<Rightarrow> (([], metadata, EnvError, lit ''invalid search pattern: '' @ m), s)
      | Inr test \<Rightarrow>
          (case gather_files P resolved (sr_path r) s of
             (Unreadable e, s') \<Rightarrow> (([], metadata, EnvError, public_os_error e ''unable to search files''), s')
           | (Interrupted, s') \<Rightarrow> (([], metadata, EnvCancelled, search_cancelled), s')
           | (Files files, s') \<Rightarrow>
               (case search_files P test (sort_key snd files) s' of
                  ((matches, errors, cancelled), s'') \<Rightarrow>
                    ((matches,
                      metadata @
                      (if errors = [] then []
                       else [(lit ''skipped_files'', JInt (int (length errors))), (lit ''errors'', JArr (map JStr errors))]),
                      if cancelled then EnvCancelled else EnvSuccess,
                      if cancelled then search_cancelled else outcome_message matches), s''))))"

end
