(* ===== verification/LocalCommand.thy ===== *)
theory LocalCommand
  imports LocalSearch
begin

text \<open>
  The processes of the local environment: the loops that watch a command and an \<open>rg\<close> search, each
  look at the signal before a poll and after the last; the search, with \<open>rg\<close> where it is found; the
  commands; and the six operations together as the environment the executor works with.
\<close>

section \<open>Watching a process\<close>

text \<open>\<open>Popen\<close>, and the process under the lock: it is stopped at once when the environment has been
  closed meanwhile, and remembered as active otherwise.\<close>

definition popen :: "local_ports \<Rightarrow> path \<Rightarrow> command_line \<Rightarrow> local_env \<Rightarrow> (nat \<times> process) res \<times> local_env" where
  "popen P cwd c s =
     (case lp_spawn P (lv_spawned s) cwd c of
        Inl e \<Rightarrow> (Inl e, s)
      | Inr q \<Rightarrow>
          (Inr (lv_spawned s, q), s\<lparr>lv_spawned := Suc (lv_spawned s), lv_files := pr_effect q (lv_files s)\<rparr>))"

definition adopt :: "nat \<times> process \<Rightarrow> local_env \<Rightarrow> local_env" where
  "adopt q s =
     (case look_closed s of
        (True, s') \<Rightarrow> terminate_process q s'
      | (False, s') \<Rightarrow> s'\<lparr>lv_active := q # lv_active s'\<rparr>)"

definition discard :: "nat \<times> process \<Rightarrow> local_env \<Rightarrow> local_env" where
  "discard q s = s\<lparr>lv_active := filter (\<lambda>a. fst a \<noteq> fst q) (lv_active s)\<rparr>"

text \<open>A time limit: None for no limit; a float that is infinite or no number never runs out.\<close>

fun ran_out :: "pynum option \<Rightarrow> rat \<Rightarrow> bool" where
  "ran_out None elapsed = False"
| "ran_out (Some (PInt n)) elapsed = (of_int n \<le> elapsed)"
| "ran_out (Some (PFloat f)) elapsed = (case f of Finite q \<Rightarrow> q \<le> elapsed | NegInf \<Rightarrow> True | _ \<Rightarrow> False)"

datatype watched = Completed | StoppedByCancel | StoppedByTime | CancelledAtEnd

text \<open>The loop of \<open>_communicate_process\<close> and \<open>_run_capture\<close>: over the polls that find the process
  running, and then the one that finds it complete.\<close>

fun watch :: "pynum option \<Rightarrow> nat \<times> process \<Rightarrow> rat list \<Rightarrow> local_env \<Rightarrow> watched \<times> local_env" where
  "watch limit q [] s =
     (case look s of
        (True, s') \<Rightarrow> (StoppedByCancel, terminate_process q s')
      | (False, s') \<Rightarrow>
          if ran_out limit (pr_last (snd q)) then (StoppedByTime, terminate_process q s')
          else (case look s' of (b, s'') \<Rightarrow> (if b then CancelledAtEnd else Completed, s'')))"
| "watch limit q (t # ts) s =
     (case look s of
        (True, s') \<Rightarrow> (StoppedByCancel, terminate_process q s')
      | (False, s') \<Rightarrow>
          if ran_out limit t then (StoppedByTime, terminate_process q s') else watch limit q ts s')"

text \<open>The output a watched process leaves: a stopped one is read to its end.\<close>

definition watched_output :: "watched \<Rightarrow> process \<Rightarrow> nat list \<times> nat list" where
  "watched_output w q = (if w = StoppedByCancel \<or> w = StoppedByTime then pr_final q else pr_output q)"

section \<open>Searching with rg\<close>

definition run_capture ::
  "local_ports \<Rightarrow> command_line \<Rightarrow> local_env \<Rightarrow>
   ((nat list \<times> nat list) \<times> EnvironmentStatus \<times> str \<times> int option) res \<times> local_env" where
  "run_capture P c s =
     (case popen P (root_of s) c s of
        (Inl e, s1) \<Rightarrow> (Inl e, s1)
      | (Inr q, s1) \<Rightarrow>
          (case watch None q (pr_ticks (snd q)) (adopt q s1) of
             (w, s2) \<Rightarrow>
               (Inr (watched_output w (snd q),
                     case w of Completed \<Rightarrow> EnvSuccess | StoppedByTime \<Rightarrow> EnvError | _ \<Rightarrow> EnvCancelled,
                     case w of Completed \<Rightarrow> lit ''search complete'' | StoppedByTime \<Rightarrow> lit ''search timed out''
                       | _ \<Rightarrow> search_cancelled,
                     pr_returncode (snd q)),
                discard q s2)))"

text \<open>\<open>bytes.splitlines\<close>, and \<open>rstrip("\n")\<close>.\<close>

fun byte_lines :: "nat list \<Rightarrow> nat list list" where
  "byte_lines [] = []"
| "byte_lines (c # cs) =
     (if c = 13 \<and> cs \<noteq> [] \<and> hd cs = 10 then [] # byte_lines (tl cs)
      else if c = 10 \<or> c = 13 then [] # byte_lines cs
      else (case byte_lines cs of [] \<Rightarrow> [[c]] | l # ls \<Rightarrow> (c # l) # ls))"

text \<open>Python's truth of a value, \<open>v.get(key)\<close> and \<open>v or {}\<close>.\<close>

fun truthy :: "json \<Rightarrow> bool" where
  "truthy JNull = False"
| "truthy (JBool b) = b"
| "truthy (JInt i) = (i \<noteq> 0)"
| "truthy (JFloat f) = (f \<noteq> Finite 0)"
| "truthy (JStr t) = (t \<noteq> [])"
| "truthy (JArr vs) = (vs \<noteq> [])"
| "truthy (JObj d) = (d \<noteq> [])"

definition no_attribute :: "string \<Rightarrow> exn" where
  "no_attribute a = OtherError (lit ''AttributeError'') (lit (''no attribute '' @ a))"

definition get_value :: "json \<Rightarrow> string \<Rightarrow> json res" where
  "get_value v key =
     (case v of
        JObj d \<Rightarrow> Inr (case dget d (lit key) of None \<Rightarrow> JNull | Some x \<Rightarrow> x)
      | _ \<Rightarrow> Inl (no_attribute ''get''))"

definition or_empty :: "json \<Rightarrow> json" where
  "or_empty v = (if truthy v then v else JObj [])"

text \<open>\<open>PureWindowsPath(p).is_absolute()\<close>: a drive and a root.\<close>

definition unc_rooted :: "str \<Rightarrow> bool" where
  "unc_rooted r =
     (let ps = split_on is_slash r;
          long_prefix = 2 \<le> length ps \<and> hd ps = [63] \<and> (ps ! 1 = lit ''UNC'' \<or> map (\<lambda>c. if 97 \<le> c \<and> c \<le> 122 then c - 32 else c) (ps ! 1) = lit ''UNC'') in
      if long_prefix \<and> 3 \<le> length ps
      then 5 \<le> length ps \<or> length ps = 4 \<and> last ps \<noteq> []
      else 3 \<le> length ps \<or> length ps = 2 \<and> last ps \<noteq> [] \<and> hd ps \<notin> {[], [63], [46], [63, 46]})"

definition windows_absolute :: "str \<Rightarrow> bool" where
  "windows_absolute p =
     (case p of
        a # b # r \<Rightarrow> if is_slash a then is_slash b \<and> unc_rooted r else b = 58 \<and> starts_slash r
      | _ \<Rightarrow> False)"

fun is_int_value :: "json \<Rightarrow> bool" where
  "is_int_value (JInt _) = True"
| "is_int_value (JBool _) = True"
| "is_int_value _ = False"

text \<open>One line of the output: None for a line that is passed over.  The exceptions that are not
  caught end the search.\<close>

definition rg_line :: "local_ports \<Rightarrow> local_env \<Rightarrow> nat list \<Rightarrow> SearchMatch option res" where
  "rg_line P s line =
     (case loads_bytes (lp_platform P) line of
        None \<Rightarrow> Inr None
      | Some event \<Rightarrow>
          bindR (get_value event ''type'') (\<lambda>kind.
          if kind \<noteq> JStr (lit ''match'') then Inr None
          else
            bindR (get_value event ''data'') (\<lambda>found. let data = or_empty found in
            bindR (get_value data ''path'') (\<lambda>p.
            bindR (get_value (or_empty p) ''text'') (\<lambda>path_text.
            bindR (get_value data ''line_number'') (\<lambda>line_number.
            bindR (get_value data ''lines'') (\<lambda>ls.
            bindR (case or_empty ls of
                     JObj d \<Rightarrow> (case dget d (lit ''text'') of
                                None \<Rightarrow> Inr [] | Some (JStr t) \<Rightarrow> Inr (rstrip_newline t) | Some _ \<Rightarrow> Inl (no_attribute ''rstrip''))
                   | _ \<Rightarrow> Inl (no_attribute ''get'')) (\<lambda>line_text.
            case path_text of
              JStr t \<Rightarrow>
                if \<not> is_int_value line_number \<or> (t \<noteq> [] \<and> hd t = 47) \<or> windows_absolute t then Inr None
                else
                  (case resolve_existing P s (normalise_search_path t) ''search result'' False of
                     Inl e \<Rightarrow> Inr None
                   | Inr actual \<Rightarrow>
                       Inr (case line_number of
                              JInt n \<Rightarrow> if n < 0 then None
                                else Some \<lparr>sm_path = normalise_search_path t, sm_line_number = nat n, sm_text = line_text\<rparr>
                            | _ \<Rightarrow> None))
            | _ \<Rightarrow> Inr None))))))))"

fun rg_lines :: "local_ports \<Rightarrow> local_env \<Rightarrow> nat list list \<Rightarrow> SearchMatch list res" where
  "rg_lines P s [] = Inr []"
| "rg_lines P s (l # ls) =
     bindR (rg_line P s l) (\<lambda>m. bindR (rg_lines P s ls) (\<lambda>ms. Inr (case m of None \<Rightarrow> ms | Some x \<Rightarrow> x # ms)))"

definition rg_command :: "str \<Rightarrow> SearchRequest \<Rightarrow> command_line" where
  "rg_command rg r =
     Argv ([rg, lit ''--json'', lit ''--hidden'', lit ''--glob'', lit ''!.git'', lit ''--no-messages''] @
           (if sr_use_regex r then [] else [lit ''--fixed-strings'']) @
           [lit ''--'', sr_query r, if sr_path r = [] then [46] else sr_path r])"

text \<open>None: the program cannot be started any more.\<close>

definition search_with_rg :: "local_ports \<Rightarrow> str \<Rightarrow> SearchRequest \<Rightarrow> local_env \<Rightarrow> found option res \<times> local_env" where
  "search_with_rg P rg r s =
     (let metadata = [(lit ''engine'', JStr (lit ''rg'')), (lit ''rg_available'', JBool True)] in
      case run_capture P (rg_command rg r) s of
        (Inl e, s') \<Rightarrow> (if is_os_error e \<or> is_unicode_error e then Inr None else Inl e, s')
      | (Inr ((stdout, stderr), status, message, returncode), s') \<Rightarrow>
          if status = EnvCancelled then (Inr (Some ([], metadata, status, message)), s')
          else if returncode \<noteq> Some 0 \<and> returncode \<noteq> Some 1
          then
            (let detail = strip (utf8_decode_replace stderr) in
             (Inr (Some ([], metadata @ [(lit ''return_code'', case returncode of None \<Rightarrow> JNull | Some n \<Rightarrow> JInt n)], EnvError,
                         if detail = [] then lit ''search command failed'' else detail)), s'))
          else
            (bindR (rg_lines P s' (byte_lines stdout)) (\<lambda>matches.
               Inr (Some (matches, metadata, EnvSuccess, outcome_message matches))), s'))"

section \<open>search\<close>

definition SearchResult_post_init :: "SearchResult \<Rightarrow> SearchResult res" where
  "SearchResult_post_init r =
     bindR (case sr_duration_seconds r of None \<Rightarrow> Inr ()
            | Some d \<Rightarrow> validate_nonnegative (JFloat d) (lit ''duration_seconds'') False) (\<lambda>_.
     bindR (case sr_original_length r of None \<Rightarrow> Inr ()
            | Some n \<Rightarrow> validate_nonnegative (JInt n) (lit ''original_length'') True) (\<lambda>_.
     Inr r))"

definition search_res ::
  "local_ports \<Rightarrow> EnvironmentStatus \<Rightarrow> str \<Rightarrow> (SearchMatch list \<times> bool \<times> nat) option \<Rightarrow> jobj \<Rightarrow> SearchResult res" where
  "search_res P status message matched metadata =
     SearchResult_post_init
       \<lparr>sr_status = status, sr_message = message, sr_metadata = metadata, sr_duration_seconds = duration P,
        sr_matches = (case matched of None \<Rightarrow> [] | Some (ms, _, _) \<Rightarrow> ms),
        sr_truncated = (case matched of None \<Rightarrow> False | Some (_, b, _) \<Rightarrow> b),
        sr_original_length = map_option (\<lambda>(_, _, n). int n) matched\<rparr>"

definition search_handler :: "local_ports \<Rightarrow> exn \<Rightarrow> SearchResult res" where
  "search_handler P e =
     (case boundary_reason e of
        Some m \<Rightarrow> search_res P EnvError m None (reason_of ''path_boundary'')
      | None \<Rightarrow>
          if is_os_error e then search_res P EnvError (public_os_error e ''unable to search files'') None (reason_of ''file_error'')
          else Inl e)"

text \<open>The engine: \<open>rg\<close> where it was found, and the other one when there is none or it has gone.\<close>

definition search_engine :: "local_ports \<Rightarrow> SearchRequest \<Rightarrow> path \<Rightarrow> local_env \<Rightarrow> found res \<times> local_env" where
  "search_engine P r resolved s0 =
     (let s = detect_rg P s0;
          plainly = (\<lambda>s'. case search_with_python P r resolved s' of (f, s'') \<Rightarrow> (Inr f, s'')) in
      case (lv_use_rg s, lv_rg s) of
        (True, Some (Some rg)) \<Rightarrow>
          (case search_with_rg P rg r s of
             (Inl e, s') \<Rightarrow> (Inl e, s')
           | (Inr (Some f), s') \<Rightarrow> (Inr f, s')
           | (Inr None, s') \<Rightarrow> plainly s')
      | _ \<Rightarrow> plainly s)"

definition found_result :: "local_ports \<Rightarrow> SearchRequest \<Rightarrow> found \<Rightarrow> local_env \<Rightarrow> SearchResult res" where
  "found_result P r f s =
     (case f of (matches, metadata0, status, message) \<Rightarrow>
        bindR (min_limit (sr_max_results r) (lv_max_search_results s)) (\<lambda>limit.
        bindR (bound_search_matches matches limit
                 (case sr_max_bytes r of None \<Rightarrow> lv_max_search_bytes s | Some b \<Rightarrow> Some b)) (\<lambda>(bounded, truncated).
        let metadata = dset metadata0 (lit ''original_length'') (JInt (int (length matches)));
            whole = Some (bounded, truncated, length matches) in
        if status = EnvCancelled \<or> status = EnvError then search_res P status message whole metadata
        else if matches = []
        then search_res P EnvError (lit ''no matches found'') (Some ([], False, 0))
               (dset metadata (lit ''reason'') (JStr (lit ''no_matches'')))
        else search_res P EnvSuccess (lit ''matches found'') whole metadata)))"

definition local_search :: "local_ports \<Rightarrow> SearchRequest \<Rightarrow> local_env \<Rightarrow> local_env \<times> SearchResult res" where
  "local_search P r s0 =
     (case state_error s0 of
        Some e \<Rightarrow> (s0, search_res P EnvError (lit (fst e)) None (reason_of (snd e)))
      | None \<Rightarrow>
          (case look s0 of
             (True, s) \<Rightarrow>
               (s, search_res P EnvCancelled (lit ''operation cancelled before searching'') None (reason_of ''cancelled''))
           | (False, s) \<Rightarrow>
               (case resolve_existing P s (sr_path r) ''search target'' True of
                  Inl e \<Rightarrow> (s, search_handler P e)
                | Inr resolved \<Rightarrow>
                    (case search_engine P r resolved s of
                       (Inl e, s') \<Rightarrow> (s', search_handler P e)
                     | (Inr f, s') \<Rightarrow>
                         (s', case found_result P r f s' of Inl e \<Rightarrow> search_handler P e | Inr x \<Rightarrow> Inr x)))))"

section \<open>run_command\<close>

definition CommandResult_post_init :: "CommandResult \<Rightarrow> CommandResult res" where
  "CommandResult_post_init r =
     bindR (case cr_duration_seconds r of None \<Rightarrow> Inr ()
            | Some d \<Rightarrow> validate_nonnegative (JFloat d) (lit ''duration_seconds'') False) (\<lambda>_.
     bindR (case cr_original_output_length r of None \<Rightarrow> Inr ()
            | Some n \<Rightarrow> validate_nonnegative (JInt n) (lit ''original_output_length'') True) (\<lambda>_.
     Inr r))"

text \<open>A result without output.\<close>

definition command_res :: "local_ports \<Rightarrow> EnvironmentStatus \<Rightarrow> str \<Rightarrow> jobj \<Rightarrow> CommandResult res" where
  "command_res P status message metadata =
     CommandResult_post_init
       \<lparr>cr_status = status, cr_message = message, cr_metadata = metadata, cr_duration_seconds = duration P,
        cr_stdout = [], cr_stderr = [], cr_exit_code = None, cr_timed_out = False, cr_truncated = False,
        cr_original_output_length = None\<rparr>"

definition watched_status :: "watched \<Rightarrow> EnvironmentStatus" where
  "watched_status w =
     (case w of Completed \<Rightarrow> EnvSuccess | StoppedByTime \<Rightarrow> EnvTimeout | _ \<Rightarrow> EnvCancelled)"

definition watched_message :: "watched \<Rightarrow> str" where
  "watched_message w =
     (case w of Completed \<Rightarrow> lit ''command completed'' | StoppedByTime \<Rightarrow> lit ''command timed out''
      | _ \<Rightarrow> lit ''command cancelled during execution'')"

definition command_limit :: "local_env \<Rightarrow> RunCommandRequest \<Rightarrow> int" where
  "command_limit s r = (case rc_max_output_bytes r of None \<Rightarrow> lv_max_command_output_bytes s | Some n \<Rightarrow> n)"

text \<open>The result of a process that was watched to its end.\<close>

definition command_outcome_res ::
  "local_ports \<Rightarrow> RunCommandRequest \<Rightarrow> str \<Rightarrow> watched \<Rightarrow> process \<Rightarrow> local_env \<Rightarrow> CommandResult res" where
  "command_outcome_res P r logical_cwd w q s =
     (let failed = (w = Completed \<and> pr_returncode q \<noteq> Some 0 \<and> pr_returncode q \<noteq> None);
          output = watched_output w q in
      bindR (truncate_command_output (utf8_decode_replace (fst output)) (utf8_decode_replace (snd output))
               (Some (command_limit s r))) (\<lambda>(stdout, stderr, truncated, original_length).
      CommandResult_post_init
        \<lparr>cr_status = (if failed then EnvError else watched_status w),
         cr_message = (if failed then lit ''command exited with code '' @ dec_int (case pr_returncode q of None \<Rightarrow> 0 | Some n \<Rightarrow> n)
                       else watched_message w),
         cr_metadata = [(lit ''working_directory'', JStr (if logical_cwd = [] then [46] else logical_cwd)),
                        (lit ''shell'', JStr (lit ''host'')),
                        (lit ''original_output_length_bytes'', JInt (int (length (fst output) + length (snd output))))],
         cr_duration_seconds = duration P, cr_stdout = stdout, cr_stderr = stderr, cr_exit_code = pr_returncode q,
         cr_timed_out = (w = StoppedByTime), cr_truncated = truncated,
         cr_original_output_length = Some (int original_length)\<rparr>))"

definition process_handler :: "local_ports \<Rightarrow> exn \<Rightarrow> CommandResult res" where
  "process_handler P e =
     (if is_os_error e \<or> is_unicode_error e
      then command_res P EnvError (public_os_error e ''unable to start command'') (reason_of ''process_error'')
      else Inl e)"

definition command_timeout :: "local_env \<Rightarrow> RunCommandRequest \<Rightarrow> pynum" where
  "command_timeout s r = (case rc_timeout_seconds r of None \<Rightarrow> PFloat (Finite (lv_command_timeout s)) | Some t \<Rightarrow> t)"

definition local_run_command :: "local_ports \<Rightarrow> RunCommandRequest \<Rightarrow> local_env \<Rightarrow> local_env \<times> CommandResult res" where
  "local_run_command P r s0 =
     (case state_error s0 of
        Some e \<Rightarrow> (s0, command_res P EnvError (lit (fst e)) (reason_of (snd e)))
      | None \<Rightarrow>
          (case look s0 of
             (True, s) \<Rightarrow> (s, command_res P EnvCancelled (lit ''command cancelled before start'') [])
           | (False, s) \<Rightarrow>
               let logical_cwd = (case rc_working_directory r of None \<Rightarrow> [] | Some d \<Rightarrow> d) in
               (case bindR (resolve_existing P s logical_cwd ''working directory'' True) (\<lambda>cwd.
                       bindR (guardR (stat (lv_files s) (lp_links P) cwd = Some Directory)
                                (path_boundary_error ''working directory is not a directory'')) (\<lambda>_.
                       Inr cwd)) of
                  Inl e \<Rightarrow>
                    (s, case boundary_reason e of
                          Some m \<Rightarrow> command_res P EnvError m (reason_of ''path_boundary'')
                        | None \<Rightarrow> Inl e)
                | Inr cwd \<Rightarrow>
                    (case popen P cwd (Shell (rc_command r)) s of
                       (Inl e, s1) \<Rightarrow> (s1, process_handler P e)
                     | (Inr q, s1) \<Rightarrow>
                         (case watch (Some (command_timeout s r)) q (pr_ticks (snd q)) (adopt q s1) of
                            (w, s2) \<Rightarrow>
                              (discard q s2,
                               case command_outcome_res P r logical_cwd w (snd q) s2 of
                                 Inl e \<Rightarrow> process_handler P e
                               | Inr x \<Rightarrow> Inr x))))))"

section \<open>The environment\<close>

definition local_environment :: "local_ports \<Rightarrow> local_env environment" where
  "local_environment P =
     \<lparr>env_read_file = local_read_file P, env_list_files = local_list_files P, env_search = local_search P,
      env_write_file = local_write_file P, env_edit_file = local_edit_file P, env_run_command = local_run_command P,
      env_cancel_reason = lv_reason\<rparr>"

end
