(* ===== verification/LocalFacts.thy ===== *)
theory LocalFacts
  imports LocalCommand
begin

text \<open>
  Facts about the local environment: where the file that an operation opens lies, and what each of
  the operations leaves alone.
\<close>

section \<open>Opening\<close>

text \<open>What the kernel opens exists or can be made in a directory.\<close>

lemma kernel_parent:
  "tree fs \<Longrightarrow> node_at fs cur = Some Directory \<Longrightarrow> walk fs Kernel k cur p = Inr q \<Longrightarrow>
   node_at fs q \<noteq> None \<or> q \<noteq> [] \<and> node_at fs (butlast q) = Some Directory"
proof (induction fs Kernel k cur p rule: walk.induct)
  case (2 fs k cur c rest)
  show ?case
  proof (cases "c = dotdot")
    case True
    then show ?thesis using 2(1) [OF True 2(6) tree_butlast] 2(6-8) by simp
  next
    case False
    show ?thesis
    proof (cases "node_at fs (cur @ [c])")
      case None
      then show ?thesis using 2(7,8) False by (auto split: if_splits)
    next
      case (Some x)
      show ?thesis
      proof (cases x)
        case (Symlink absolute target)
        obtain j where j: "k = Suc j" using 2(8) False Some Symlink by (cases k) simp_all
        have "node_at fs (if absolute then [] else cur) = Some Directory" using 2(7) by (simp add: node_at_def [of fs "[]"])
        from 2(5) [OF False refl Some Symlink j 2(6) this] show ?thesis using 2(8) False Some Symlink j by simp
      next
        case (Regular b)
        then show ?thesis using 2(8) False Some by (cases rest) auto
      next
        case Directory
        then show ?thesis using 2(4) [OF False refl Some Directory 2(6)] 2(8) False Some by simp
      qed
    qed
  qed
qed auto

lemma opened_plain: "opened fs k p = Inr q \<Longrightarrow> plain fs q"
  unfolding opened_def by (rule walk_plain, assumption) simp

lemma resolved_plain: "resolve_strict fs k p = Inr q \<Longrightarrow> plain fs q"
  unfolding resolve_strict_def by (rule walk_plain, assumption) simp

lemma opened_resolved: "plain fs p \<Longrightarrow> opened fs k p = Inr q \<Longrightarrow> q = p"
  using walk_along [of fs "[]" p] by (simp add: opened_def)

lemma opened_lenient: "opened fs k p = Inr q \<Longrightarrow> resolve_lenient fs k p = Inr q"
  unfolding opened_def resolve_lenient_def by (rule walk_lenient)

lemma open_fault_Inr: "open_fault P fs p = Inr q \<Longrightarrow>
    opened fs (lp_links P) p = Inr q \<and> node_at fs q \<noteq> Some Directory \<and> lp_fault P p = None"
  by (auto simp: open_fault_def split: option.splits sum.splits walk_error.splits if_splits)

text \<open>A path that opens has a parent that opens, and opens inside it.\<close>

lemma opened_last:
  assumes "tree fs" "opened fs k p = Inr q" "p \<noteq> []"
  shows "\<exists>j d. opened fs k (butlast p) = Inr d \<and> node_at fs d = Some Directory \<and> walk fs Kernel j d [last p] = Inr q"
  using kernel_append [of fs "[]" "[last p]" k "butlast p" q] assms
  unfolding opened_def node_at_def [of fs "[]"] by (auto simp del: walk_step)

lemma new_within:
  assumes "tree fs" "opened fs k p = Inr q" "\<not> path_exists fs k p" "\<not> path_is_symlink fs k p" "last p \<noteq> dotdot"
  shows "\<exists>d. nearest_parent fs k (butlast p) = butlast p \<and> resolve_lenient fs k (butlast p) = Inr d \<and> prefix d q"
proof -
  have "p \<noteq> []" using assms(3) by (auto simp: path_exists_def stat_def opened_def node_at_def)
  from opened_last [OF assms(1,2) this] obtain j d where
    d: "opened fs k (butlast p) = Inr d" "node_at fs d = Some Directory" "walk fs Kernel j d [last p] = Inr q" by blast
  have "\<not> is_link (node_at fs (d @ [last p]))" using assms(4) d(1) \<open>p \<noteq> []\<close> by (simp add: path_is_symlink_def)
  then have "q = d @ [last p]" using d(3) assms(5) by (auto split: option.splits node.splits)
  moreover have "path_exists fs k (butlast p)" using d(1,2) by (simp add: path_exists_def stat_def)
  ultimately show ?thesis using opened_lenient [OF d(1)] by (auto simp: nearest_parent.simps [of fs k "butlast p"])
qed

section \<open>The confinement of a write\<close>

lemma bind_InrE: "bindR r f = Inr y \<Longrightarrow> (\<And>a. r = Inr a \<Longrightarrow> f a = Inr y \<Longrightarrow> thesis) \<Longrightarrow> thesis"
  by (auto simp: bindR_Inr_iff)

lemma resolve_existing_Inr:
  "resolve_existing P s l kind e = Inr t \<Longrightarrow>
     prefix (root_of s) t \<and> plain (lv_files s) t \<and>
     (\<exists>relative. logical_relative_path (JStr l) e = Inr relative \<and>
        resolve_strict (lv_files s) (lp_links P) (root_of s @ relative) = Inr t)"
  unfolding resolve_existing_def
  by (erule bind_InrE) (auto simp: is_within_def resolved_plain split: sum.splits walk_error.splits if_splits)

lemma write_target_within:
  assumes "tree (lv_files s)" "plain (lv_files s) (root_of s)"
    and "resolve_for_write P s l = Inr t" "open_fault P (lv_files s) t = Inr q"
  shows "prefix (root_of s) q"
proof -
  let ?fs = "lv_files s" and ?k = "lp_links P"
  note o = open_fault_Inr [OF assms(4), THEN conjunct1]
  obtain relative where rel: "logical_relative_path (JStr l) False = Inr relative"
    using assms(3) by (auto simp: resolve_for_write_def bindR_Inr_iff)
  let ?c = "root_of s @ relative"
  show ?thesis
  proof (cases "path_exists ?fs ?k ?c \<or> path_is_symlink ?fs ?k ?c")
    case True
    then have main: "(case resolve_strict ?fs ?k ?c of
          Inr resolved \<Rightarrow> if is_within resolved (root_of s) then Inr resolved else Inl path_escapes
        | Inl NotFound \<Rightarrow>
            (case resolve_lenient ?fs ?k ?c of
               Inl _ \<Rightarrow> Inl (RuntimeError (lit ''Symlink loop''))
             | Inr resolved \<Rightarrow> if is_within resolved (root_of s) then Inr ?c else Inl path_escapes)
        | Inl _ \<Rightarrow> Inl (path_boundary_error ''path cannot be resolved'')) = Inr t"
      using assms(3) rel by (simp add: resolve_for_write_def Let_def)
    show ?thesis
    proof (cases "resolve_strict ?fs ?k ?c")
      case (Inr r)
      then have "t = r" "prefix (root_of s) t" using main by (auto simp: is_within_def split: if_splits)
      moreover from this have "q = r" using opened_resolved [OF resolved_plain [OF Inr]] o by blast
      ultimately show ?thesis by simp
    next
      case (Inl e)
      then obtain resolved where "resolve_lenient ?fs ?k ?c = Inr resolved" "prefix (root_of s) resolved" "t = ?c"
        using main by (cases e) (auto simp: is_within_def split: sum.splits if_splits)
      then show ?thesis using opened_lenient [OF o] by simp
    qed
  next
    case False
    then have t: "t = ?c" and p: "\<And>d. resolve_lenient ?fs ?k (nearest_parent ?fs ?k (butlast ?c)) = Inr d \<Longrightarrow> prefix (root_of s) d"
      using assms(3) rel by (auto simp: resolve_for_write_def is_within_def Let_def split: sum.splits if_splits)
    have "?c \<noteq> []" using False by (auto simp: path_exists_def stat_def opened_def node_at_def)
    then have "last ?c \<in> set ?c" by (rule last_in_set)
    then have "last ?c \<noteq> dotdot"
      using logical_relative_path_clean [OF rel] assms(2) by (auto simp: plain_def)
    then obtain d where "nearest_parent ?fs ?k (butlast ?c) = butlast ?c" "resolve_lenient ?fs ?k (butlast ?c) = Inr d" "prefix d q"
      using new_within [OF assms(1)] o t False by blast
    then show ?thesis using p [of d] prefix_order.trans by simp
  qed
qed

text \<open>Two states of one workspace: nothing outside it has changed.\<close>

definition orderly :: "local_env \<Rightarrow> bool" where
  "orderly s \<longleftrightarrow> tree (lv_files s) \<and> plain (lv_files s) (root_of s)"

definition confined :: "local_env \<Rightarrow> local_env \<Rightarrow> bool" where
  "confined s s' \<longleftrightarrow> (orderly s \<longrightarrow>
     orderly s' \<and> root_of s' = root_of s \<and>
     (\<forall>p. \<not> prefix (root_of s) p \<longrightarrow> node_at (lv_files s') p = node_at (lv_files s) p))"

lemma confined_refl [simp]: "confined s s"
  by (simp add: confined_def)

lemma confined_trans: "confined s s' \<Longrightarrow> confined s' s'' \<Longrightarrow> confined s s''"
  by (auto simp: confined_def)

lemma confined_same: "lv_files s' = lv_files s \<Longrightarrow> root_of s' = root_of s \<Longrightarrow> confined s s'"
  by (simp add: confined_def orderly_def)

lemma look_confined: "look s = (b, s') \<Longrightarrow> confined s s'"
  by (rule confined_same) simp_all

lemma node_dset: "q \<noteq> [] \<Longrightarrow> node_at (dset fs q x) p = (if p = q then Some x else node_at fs p)"
  by (simp add: node_at_def)

lemma regular_write_orderly:
  assumes "orderly s" "opened (lv_files s) k p = Inr q" "node_at (lv_files s) q \<noteq> Some Directory"
    and files: "lv_files s' = dset (lv_files s) q (Regular b)" "root_of s' = root_of s"
  shows "orderly s'"
proof -
  let ?fs = "lv_files s"
  have q: "q \<noteq> []" using assms(3) by (auto simp: node_at_def)
  have parent: "node_at ?fs (butlast q) = Some Directory"
    using kernel_parent [of ?fs "[]" k p q] tree_butlast [of ?fs q] assms(1,2)
    by (auto simp: orderly_def opened_def node_at_def [of ?fs "[]"])
  have "tree (lv_files s')"
    unfolding tree_def files node_dset [OF q]
  proof (intro allI impI)
    fix r c assume "(if r @ [c] = q then Some (Regular b) else node_at ?fs (r @ [c])) \<noteq> None"
    then have "node_at ?fs r = Some Directory"
      using parent assms(1) by (auto simp: orderly_def tree_def split: if_splits)
    then show "(if r = q then Some (Regular b) else node_at ?fs r) = Some Directory" using assms(3) by auto
  qed
  moreover have "plain (lv_files s') (root_of s')"
    using assms(1) by (auto simp: orderly_def plain_def files node_dset [OF q])
  ultimately show ?thesis by (simp add: orderly_def)
qed

text \<open>A write changes at most the file it opens.\<close>

lemma write_text_cases:
  assumes "write_text P p content s = (s', r)"
  obtains (refused) e where "s' = s" "r = Inl e"
  | (opened) q b where "open_fault P (lv_files s) p = Inr q" "s' = s\<lparr>lv_files := dset (lv_files s) q (Regular b)\<rparr>"
  using assms by (auto simp: write_text_def Let_def split: sum.splits option.splits if_splits)

lemma write_text_confined:
  assumes "write_text P p content s = (s', r)"
    and "\<And>q. orderly s \<Longrightarrow> open_fault P (lv_files s) p = Inr q \<Longrightarrow> prefix (root_of s) q"
  shows "confined s s'"
  using assms(1)
proof (cases rule: write_text_cases)
  case (opened q b)
  note o = open_fault_Inr [OF opened(1)]
  have q: "q \<noteq> []" using o by (auto simp: node_at_def)
  show ?thesis
    using o opened assms(2) regular_write_orderly [of s "lp_links P" p q s' b]
    by (auto simp: confined_def root_of_def node_dset [OF q])
qed simp

lemma read_chunks_same:
  "read_chunks bytes s = (r, s') \<Longrightarrow> lv_files s' = lv_files s \<and> lv_root s' = lv_root s \<and> lv_active s' = lv_active s"
proof (induction bytes s arbitrary: r s' rule: read_chunks.induct)
  case (1 bytes s)
  obtain b s1 where l: "look s = (b, s1)" by (cases "look s")
  show ?case
  proof (cases "b \<or> bytes = []")
    case True
    then show ?thesis using "1.prems" l look_same [OF l] by (subst (asm) read_chunks.simps) (auto split: bool.splits)
  next
    case False
    obtain r2 s2 where g: "read_chunks (drop 65536 bytes) s1 = (r2, s2)" by (cases "read_chunks (drop 65536 bytes) s1")
    have "s' = s2" using "1.prems" l False g by (subst (asm) read_chunks.simps) simp
    moreover have "lv_files s2 = lv_files s1 \<and> lv_root s2 = lv_root s1 \<and> lv_active s2 = lv_active s1"
      by (rule "1.IH" [OF l [symmetric] _ _ g]) (use False in auto)
    ultimately show ?thesis using look_same [OF l] by simp
  qed
qed

lemma file_bytes_same:
  "file_bytes P p s = Inr (r, s') \<Longrightarrow> lv_files s' = lv_files s \<and> lv_root s' = lv_root s \<and> lv_active s' = lv_active s"
  unfolding file_bytes_def
  by (erule bind_InrE) (auto dest!: read_chunks_same split: option.splits node.splits)

section \<open>What the other operations leave alone\<close>

definition unmoved :: "local_env \<Rightarrow> local_env \<Rightarrow> bool" where
  "unmoved s s' \<longleftrightarrow> lv_files s' = lv_files s \<and> lv_root s' = lv_root s"

lemma unmoved_refl [simp]: "unmoved s s"
  by (simp add: unmoved_def)

lemma unmoved_trans: "unmoved s s' \<Longrightarrow> unmoved s' s'' \<Longrightarrow> unmoved s s''"
  by (simp add: unmoved_def)

lemma unmoved_confined: "unmoved s s' \<Longrightarrow> confined s s'"
  by (rule confined_same) (simp_all add: unmoved_def root_of_def)

lemma look_unmoved: "look s = (b, s') \<Longrightarrow> unmoved s s'"
  by (simp add: unmoved_def)

lemma collect_loop_unmoved: "collect_loop P recursive pending s = (r, s') \<Longrightarrow> unmoved s s'"
proof (induction P recursive pending s arbitrary: r s' rule: collect_loop.induct)
  case (2 P recursive d l pending s)
  show ?case
  proof (cases "scandir P (lv_files s) d")
    case (Inr names)
    obtain es found k c s1 where g: "list_children P recursive d l names s = ((es, found, k, c), s1)" by (metis prod.collapse)
    obtain r2 s2 where g2: "collect_loop P recursive (pending @ found) s1 = (r2, s2)" by (cases "collect_loop P recursive (pending @ found) s1")
    have "unmoved s s1" using list_children_files [OF g] by (simp add: unmoved_def)
    moreover have "\<not> c \<Longrightarrow> unmoved s1 s2" using "2.IH" [OF Inr] g g2 by simp
    ultimately show ?thesis using "2.prems" Inr g g2 by (auto intro: unmoved_trans split: if_splits sum.splits)
  qed (use "2.prems" in simp)
qed simp

lemma gather_loop_unmoved: "gather_loop P pending s = (r, s') \<Longrightarrow> unmoved s s'"
proof (induction P pending s arbitrary: r s' rule: gather_loop.induct)
  case (2 P d l pending s)
  show ?case
  proof (cases "scandir P (lv_files s) d")
    case (Inr names)
    obtain fs found c s1 where g: "search_children P d l names s = ((fs, found, c), s1)" by (metis prod.collapse)
    obtain r2 s2 where g2: "gather_loop P (pending @ found) s1 = (r2, s2)" by (cases "gather_loop P (pending @ found) s1")
    have "unmoved s s1" using search_children_files [OF g] by (simp add: unmoved_def)
    moreover have "\<not> c \<Longrightarrow> unmoved s1 s2" using "2.IH" [OF Inr] g g2 by simp
    ultimately show ?thesis using "2.prems" Inr g g2 by (auto intro: unmoved_trans split: if_splits gathered.splits)
  qed (use "2.prems" in simp)
qed simp

declare collect_loop.simps(2) [simp del] gather_loop.simps(2) [simp del]

lemma search_lines_unmoved: "search_lines test l n ls s = (r, s') \<Longrightarrow> unmoved s s'"
proof (induction ls arbitrary: n s r s')
  case (Cons x ls)
  obtain b s1 where k: "look s = (b, s1)" by (cases "look s")
  obtain r2 s2 where g: "search_lines test l (Suc n) ls s1 = (r2, s2)" by (cases "search_lines test l (Suc n) ls s1")
  have "s' = s1 \<or> s' = s2" using Cons.prems k g by (auto split: bool.splits prod.splits)
  then show ?case using Cons.IH [OF g] look_unmoved [OF k] by (auto intro: unmoved_trans)
qed simp

lemma search_files_unmoved: "search_files P test fs s = (r, s') \<Longrightarrow> unmoved s s'"
proof (induction fs arbitrary: s r s')
  case (Cons f fs)
  obtain p l where f: "f = (p, l)" by (cases f)
  obtain b s1 where k: "look s = (b, s1)" by (cases "look s")
  show ?case
  proof (cases "b \<or> (\<exists>e. file_text P (lv_files s1) p = Inl e)")
    case True
    obtain r2 s2 where g: "search_files P test fs s1 = (r2, s2)" by (cases "search_files P test fs s1")
    have "s' = s1 \<or> s' = s2" using Cons.prems f k True g by (auto split: bool.splits prod.splits)
    then show ?thesis using Cons.IH [OF g] look_unmoved [OF k] by (auto intro: unmoved_trans)
  next
    case False
    then obtain c where c: "file_text P (lv_files s1) p = Inr c" by (cases "file_text P (lv_files s1) p") auto
    obtain r2 s2 where g: "search_lines test l 1 (newline_lines c) s1 = (r2, s2)" by (cases "search_lines test l 1 (newline_lines c) s1")
    obtain r3 s3 where h: "search_files P test fs s2 = (r3, s3)" by (cases "search_files P test fs s2")
    have "s' = s2 \<or> s' = s3" using Cons.prems f k False c g h by (auto split: bool.splits prod.splits)
    then show ?thesis using Cons.IH [OF h] look_unmoved [OF k] search_lines_unmoved [OF g] by (auto intro: unmoved_trans)
  qed
qed simp

lemma terminate_unmoved [simp]: "unmoved s (terminate_process q s)"
  by (simp add: unmoved_def terminate_process_def)

lemma look_closed_unmoved: "look_closed s = (b, s') \<Longrightarrow> unmoved s s'"
  by (auto simp: look_closed_def take_glance_def local_close_def unmoved_def split: if_splits list.splits)

lemma adopt_unmoved: "unmoved s (adopt q s)"
proof (cases "look_closed s")
  case (Pair b s')
  have "unmoved s' (adopt q s)" using Pair by (cases b) (simp_all add: adopt_def unmoved_def terminate_process_def)
  then show ?thesis using look_closed_unmoved [OF Pair] unmoved_trans by blast
qed

lemma discard_unmoved [simp]: "unmoved s (discard q s)"
  by (simp add: unmoved_def discard_def)

lemma watch_unmoved: "watch limit q ts s = (w, s') \<Longrightarrow> unmoved s s'"
proof (induction ts arbitrary: s)
  case Nil
  obtain b s1 where k: "look s = (b, s1)" by (cases "look s")
  obtain b2 s2 where k2: "look s1 = (b2, s2)" by (cases "look s1")
  have "s' = s2 \<or> s' = terminate_process q s1"
    using Nil k k2 by (auto split: bool.splits if_splits)
  then show ?case using look_unmoved [OF k] look_unmoved [OF k2] terminate_unmoved unmoved_trans by blast
next
  case (Cons t ts)
  obtain b s1 where k: "look s = (b, s1)" by (cases "look s")
  have "s' = terminate_process q s1 \<or> watch limit q ts s1 = (w, s')"
    using Cons.prems k by (auto split: bool.splits if_splits)
  then show ?case using Cons.IH look_unmoved [OF k] terminate_unmoved unmoved_trans by blast
qed

lemma watched_unmoved:
  "watch limit q ts (adopt q s) = (w, s') \<Longrightarrow> unmoved s (discard q s')"
  by (rule unmoved_trans [OF unmoved_trans [OF adopt_unmoved watch_unmoved] discard_unmoved])

section \<open>The operations\<close>

text \<open>An \<open>rg\<close> process only reads.\<close>

definition rg_reads_only :: "local_ports \<Rightarrow> bool" where
  "rg_reads_only P \<longleftrightarrow> (\<forall>n cwd args q fs. lp_spawn P n cwd (Argv args) = Inr q \<longrightarrow> pr_effect q fs = fs)"

lemma read_file_unmoved: "unmoved s (fst (local_read_file P r s))"
proof (cases "state_error s")
  case None
  obtain b s1 where k: "look s = (b, s1)" by (cases "look s")
  have "unmoved s1 s2" if "bindR (resolve_existing P s1 l ''file'' False) (\<lambda>resolved.
      bindR (guardR (g resolved) e) (\<lambda>_. file_bytes P resolved s1)) = Inr (x, s2)" for l g e x s2
    using that by (auto simp: bindR_Inr_iff unmoved_def dest: file_bytes_same)
  then show ?thesis using None k look_unmoved [OF k]
    by (auto simp: local_read_file_def intro: unmoved_trans split: bool.splits sum.splits option.splits)
qed (simp add: local_read_file_def)

lemma collect_entries_unmoved: "collect_entries P b d l s = (r, s') \<Longrightarrow> unmoved s s'"
  by (auto simp: collect_entries_def dest: collect_loop_unmoved split: prod.splits sum.splits)

lemma list_files_unmoved: "unmoved s (fst (local_list_files P r s))"
proof (cases "state_error s")
  case None
  obtain b s1 where k: "look s = (b, s1)" by (cases "look s")
  show ?thesis using None k look_unmoved [OF k]
    by (auto simp: local_list_files_def intro: unmoved_trans dest: collect_entries_unmoved
        split: bool.splits sum.splits prod.splits)
qed (simp add: local_list_files_def)

lemma gather_files_unmoved: "gather_files P p l s = (r, s') \<Longrightarrow> unmoved s s'"
  by (auto simp: gather_files_def Let_def dest: gather_loop_unmoved split: if_splits)

lemma search_with_python_unmoved: "search_with_python P r p s = (f, s') \<Longrightarrow> unmoved s s'"
  by (auto simp: search_with_python_def Let_def intro: unmoved_trans dest!: gather_files_unmoved search_files_unmoved
      split: sum.splits prod.splits gathered.splits)

lemma run_capture_unmoved:
  assumes "rg_reads_only P" "run_capture P (Argv args) s = (x, s')"
  shows "unmoved s s'"
proof (cases "lp_spawn P (lv_spawned s) (root_of s) (Argv args)")
  case (Inr q)
  let ?s = "s\<lparr>lv_spawned := Suc (lv_spawned s), lv_files := pr_effect q (lv_files s)\<rparr>" and ?q = "(lv_spawned s, q)"
  obtain w s2 where w: "watch None ?q (pr_ticks q) (adopt ?q ?s) = (w, s2)" by (metis prod.collapse)
  have "unmoved s ?s" using assms(1) Inr by (simp add: unmoved_def rg_reads_only_def)
  moreover have "s' = discard ?q s2" using assms(2) Inr w by (auto simp: run_capture_def popen_def)
  ultimately show ?thesis using watched_unmoved [OF w] unmoved_trans by blast
qed (use assms(2) in \<open>simp add: run_capture_def popen_def\<close>)

lemma search_with_rg_unmoved:
  "rg_reads_only P \<Longrightarrow> search_with_rg P rg r s = (x, s') \<Longrightarrow> unmoved s s'"
  by (auto simp: search_with_rg_def rg_command_def Let_def dest!: run_capture_unmoved split: prod.splits sum.splits if_splits)

lemma detect_rg_unmoved [simp]: "unmoved s (detect_rg P s)"
  by (simp add: detect_rg_def unmoved_def)

lemma search_engine_unmoved:
  assumes "rg_reads_only P" "search_engine P r p s = (x, s')"
  shows "unmoved s s'"
proof -
  let ?d = "detect_rg P s"
  have plainly: "unmoved t s2" if "(case search_with_python P r p t of (f, s'') \<Rightarrow> (Inr f, s'')) = (y, s2)" for t y s2
    using that by (auto dest: search_with_python_unmoved split: prod.splits)
  have "unmoved ?d s'"
  proof (cases "\<exists>rg. (lv_use_rg ?d, lv_rg ?d) = (True, Some (Some rg))")
    case True
    then obtain rg where rg: "lv_use_rg ?d" "lv_rg ?d = Some (Some rg)" by auto
    obtain y s2 where y: "search_with_rg P rg r ?d = (y, s2)" by (metis prod.collapse)
    note moved = search_with_rg_unmoved [OF assms(1) y]
    show ?thesis
    proof (cases "y = Inr None")
      case True
      then have "(case search_with_python P r p s2 of (f, s'') \<Rightarrow> (Inr f, s'')) = (x, s')"
        using assms(2) rg y by (simp add: search_engine_def Let_def)
      then show ?thesis using moved plainly unmoved_trans by blast
    next
      case False
      then have "s' = s2"
        using assms(2) rg y by (auto simp: search_engine_def Let_def split: sum.splits option.splits)
      then show ?thesis using moved by simp
    qed
  next
    case False
    then have "(case search_with_python P r p ?d of (f, s'') \<Rightarrow> (Inr f, s'')) = (x, s')"
      using assms(2) by (auto simp: search_engine_def Let_def split: bool.splits option.splits)
    then show ?thesis by (rule plainly)
  qed
  then show ?thesis using detect_rg_unmoved unmoved_trans by blast
qed

lemma search_unmoved:
  assumes "rg_reads_only P"
  shows "unmoved s (fst (local_search P r s))"
proof (cases "state_error s")
  case None
  obtain b s1 where k: "look s = (b, s1)" by (cases "look s")
  show ?thesis using None k look_unmoved [OF k]
    by (auto simp: local_search_def intro: unmoved_trans dest: search_engine_unmoved [OF assms]
        split: bool.splits sum.splits prod.splits)
qed (simp add: local_search_def)

lemma write_file_confined: "confined s (fst (local_write_file P r s))"
proof (cases "state_error s")
  case None
  obtain b s1 where k: "look s = (b, s1)" by (cases "look s")
  note c1 = unmoved_confined [OF look_unmoved [OF k]]
  show ?thesis
  proof (cases "b \<or> (\<exists>e. bindR (resolve_for_write P s1 (wf_path r)) (\<lambda>target.
      bindR (guardR (stat (lv_files s1) (lp_links P) target \<noteq> Some Directory) (path_boundary_error ''path is a directory'')) (\<lambda>_.
      Inr target)) = Inl e)")
    case True
    then show ?thesis using None k c1 by (cases b) (auto simp: local_write_file_def Let_def simp del: look_same)
  next
    case False
    then obtain target where t: "resolve_for_write P s1 (wf_path r) = Inr target"
        "stat (lv_files s1) (lp_links P) target \<noteq> Some Directory" and b: "\<not> b"
      by (cases "resolve_for_write P s1 (wf_path r)") (auto simp: guardR_def split: if_splits)
    obtain b2 s2 where k2: "look s1 = (b2, s2)" by (cases "look s1")
    note c2 = unmoved_confined [OF look_unmoved [OF k2]]
    obtain s3 x where w: "write_text P target (wf_content r) s2 = (s3, x)" by (cases "write_text P target (wf_content r) s2")
    have "confined s2 s3"
      using write_target_within [of s1 P "wf_path r" target] t(1) look_same [OF k2] look_root [OF k2]
      by (intro write_text_confined [OF w]) (simp add: orderly_def)
    moreover have "fst (local_write_file P r s) = s2 \<or> fst (local_write_file P r s) = s3"
      using None k b t k2 w by (cases b2; cases x) (auto simp: local_write_file_def Let_def guardR_def)
    ultimately show ?thesis using c1 c2 confined_trans by metis
  qed
qed (simp add: local_write_file_def Let_def)

lemma edit_file_confined: "confined s (fst (local_edit_file P r s))"
proof (cases "state_error s")
  case None
  obtain b s1 where k: "look s = (b, s1)" by (cases "look s")
  note c1 = unmoved_confined [OF look_unmoved [OF k]]
  let ?got = "bindR (resolve_existing P s1 (ef_path r) ''file'' False) (\<lambda>target.
      bindR (guardR (is_regular (stat (lv_files s1) (lp_links P) target)) (path_boundary_error ''path is not a regular file'')) (\<lambda>_.
      bindR (file_bytes P target s1) (\<lambda>raw. Inr (target, raw))))"
  show ?thesis
  proof (cases "b \<or> (\<exists>e. ?got = Inl e)")
    case True
    then show ?thesis using None k c1 by (cases b) (auto simp: local_edit_file_def Let_def simp del: look_same)
  next
    case False
    then obtain target raw s2 where got: "?got = Inr (target, raw, s2)" and b: "\<not> b"
      by (cases ?got) auto
    then have t: "resolve_existing P s1 (ef_path r) ''file'' False = Inr target" and rd: "file_bytes P target s1 = Inr (raw, s2)"
      by (auto simp: bindR_Inr_iff)
    have c2: "unmoved s1 s2" using file_bytes_same [OF rd] by (simp add: unmoved_def)
    obtain b3 s3 where k3: "look s2 = (b3, s3)" by (cases "look s2")
    have c3: "unmoved s1 s3" using c2 look_unmoved [OF k3] unmoved_trans by blast
    have w: "confined s3 s4" if "write_text P target content s3 = (s4, x)" for content s4 x
    proof (rule write_text_confined [OF that])
      fix q assume "open_fault P (lv_files s3) target = Inr q"
      then have "opened (lv_files s1) (lp_links P) target = Inr q" using open_fault_Inr c3 by (metis unmoved_def)
      moreover have "prefix (root_of s1) target \<and> plain (lv_files s1) target" using resolve_existing_Inr [OF t] by blast
      ultimately have "prefix (root_of s1) q" using opened_resolved by blast
      then show "prefix (root_of s3) q" using c3 by (simp add: unmoved_def root_of_def)
    qed
    have "fst (local_edit_file P r s) \<in> {s2, s3} \<or> (\<exists>content x. write_text P target content s3 = (fst (local_edit_file P r s), x))"
      using None k b got k3
      by (auto simp: local_edit_file_def Let_def split: option.splits sum.splits bool.splits prod.splits if_splits)
    then show ?thesis using c1 unmoved_confined [OF c2] unmoved_confined [OF c3] w confined_trans by blast
  qed
qed (simp add: local_edit_file_def Let_def)

end
