(* ===== verification/LocalEnvProps.thy ===== *)
theory LocalEnvProps
  imports LocalFacts ExecutorRun Frames
begin

text \<open>
  What tool calls keep of the local environment.  An environment whose operations other than commands keep
  a relation between its states is a \<open>kept_environment\<close>, and then every tool call through the
  registry and the executor keeps it, as long as \<open>bash\<close> is not active.  The local environment is
  one for \<open>confined\<close>: nothing outside the workspace changes.
\<close>

section \<open>Tools that keep a relation\<close>

locale kept_environment =
  fixes env :: "'s environment" and R :: "'s \<Rightarrow> 's \<Rightarrow> bool"
  assumes same: "R s s" and further: "R s s' \<Longrightarrow> R s' s'' \<Longrightarrow> R s s''"
    and read_file: "R s (fst (env_read_file env q1 s))"
    and list_files: "R s (fst (env_list_files env q2 s))"
    and search: "R s (fst (env_search env q3 s))"
    and write_file: "R s (fst (env_write_file env q4 s))"
    and edit_file: "R s (fst (env_edit_file env q5 s))"
begin

lemma operation_keeps: "R s (fst (op s)) \<Longrightarrow> R s (fst (call_operation c reason op shown s))"
  by (auto simp: call_operation_def Let_def split: prod.splits sum.splits exn.splits)

lemma request_keeps: "(\<And>r. q = Inr r \<Longrightarrow> R s (fst (f r s))) \<Longrightarrow> R s (fst (with_request q f s))"
  by (auto simp: with_request_def same split: sum.splits)

lemma validated_keeps: "t \<noteq> BashTool \<Longrightarrow> R s (fst (execute_validated env t a c s))"
  by (cases t) (auto intro!: request_keeps operation_keeps read_file list_files search write_file edit_file)

lemma builtin_keeps: "t \<noteq> BashTool \<Longrightarrow> R s (fst (builtin_execute pl env t a c s))"
  using validated_keeps by (auto simp: builtin_execute_def Let_def same split_beta split: sum.splits)

lemma dispatch_keeps: "t \<noteq> BashTool \<Longrightarrow> R s (fst (dispatch (builtin_tool pl env t) n a c s))"
  using builtin_keeps [of t s pl a c]
  by (auto simp: dispatch_def builtin_tool_def Let_def split: prod.splits sum.splits option.splits)

lemma registry_keeps:
  assumes "BashTool \<notin> act"
  shows "R s (fst (registry_execute (builtin_registry pl env ts act) (Inl name) a (Some c) None None fresh s))"
proof -
  have "R s (fst (dispatch t n v c' s))" if "dget (rg_tools (builtin_registry pl env ts act)) n = Some t"
      "n \<in> rg_active (builtin_registry pl env ts act)" for t n v c'
  proof -
    note known = that
    obtain b where b: "b \<in> set ts" "t = builtin_tool pl env b" "n = tool_name b"
      using map_of_SomeD [OF known(1)] by (auto simp: builtin_registry_def)
    have "b \<in> act" using known(2) b(3) by (auto simp: builtin_registry_def)
    then have "b \<noteq> BashTool" using assms by auto
    then show ?thesis using dispatch_keeps b(2) by simp
  qed
  then show ?thesis
    by (auto simp: registry_execute_def Let_def same dest!: refusal_None split: prod.splits option.splits sum.splits)
qed

end

locale shell_free = kept_environment +
  fixes active :: "BuiltinTool list"
  assumes no_shell: "BashTool \<notin> set active"

sublocale shell_free \<subseteq> ports: quiet_ports "recorder_ports pl env active pol ask now stamp" "\<lambda>w w'. R (rw_env w) (rw_env w')"
  for pl pol ask now stamp
proof
  fix n d c
  show "steps (\<lambda>w w'. R (rw_env w) (rw_env w')) (\<lambda>_. True) (xp_execute (recorder_ports pl env active pol ask now stamp) n d c)"
    using registry_keeps [OF no_shell]
    by (auto simp: steps_def recorder_ports_def Let_def split_beta split: sum.splits)
qed (auto simp: recorder_ports_def Let_def same steps_def ret_def lift_res_def default_new_id_def EventRecorder_publish_def modify_def
    split: prod.splits sum.splits intro: further)

section \<open>The local environment keeps its workspace\<close>

definition keeps_workspace :: "local_ports \<Rightarrow> local_env \<Rightarrow> local_env \<Rightarrow> bool" where
  "keeps_workspace P s s' \<longleftrightarrow> (rg_reads_only P \<longrightarrow> confined s s')"

interpretation workspace: kept_environment "local_environment P" "keeps_workspace P" for P
  by unfold_locales
    (auto simp: keeps_workspace_def local_environment_def intro: confined_trans unmoved_confined
      read_file_unmoved list_files_unmoved search_unmoved write_file_confined edit_file_confined)

interpretation workspace: shell_free "local_environment P" "keeps_workspace P" "filter (\<lambda>t. t \<noteq> BashTool) active" for P active
  by unfold_locales simp

end
