(* ===== verification/LocalFileProps.thy ===== *)
theory LocalFileProps
  imports LocalEnvProps
begin

text \<open>
  What the file operations of the local environment do: an edit replaces exactly the occurrences it
  was told to expect or changes nothing, a read shows a file of the workspace, and a text that cannot
  be encoded costs the file its content.
\<close>

section \<open>Walking to what exists\<close>

lemma tree_prefix: "tree fs \<Longrightarrow> node_at fs (p @ q) \<noteq> None \<Longrightarrow> q \<noteq> [] \<Longrightarrow> node_at fs p = Some Directory"
proof (induction q rule: rev_induct)
  case (snoc c q)
  then have "node_at fs (p @ q) = Some Directory" by (auto simp: tree_def simp flip: append_assoc)
  then show ?case using snoc.IH snoc.prems(1) by (cases "q = []") auto
qed simp

lemma plain_prefix: "plain fs (p @ q) \<Longrightarrow> plain fs p"
  by (auto simp: plain_def intro: prefix_order.trans)

lemma walk_found:
  "tree fs \<Longrightarrow> plain fs (cur @ rest) \<Longrightarrow> node_at fs (cur @ rest) \<noteq> None \<Longrightarrow> walk fs m k cur rest = Inr (cur @ rest)"
proof (induction rest arbitrary: cur)
  case (Cons c rest)
  have p: "plain fs (cur @ [c])" using plain_prefix [of fs "cur @ [c]" rest] Cons.prems(2) by simp
  have d: "rest \<noteq> [] \<Longrightarrow> node_at fs (cur @ [c]) = Some Directory"
    using tree_prefix [of fs "cur @ [c]" rest] Cons.prems(1,3) by simp
  have n: "node_at fs (cur @ [c]) \<noteq> None" using d Cons.prems(3) by (cases "rest = []") simp_all
  have "walk fs m k (cur @ [c]) rest = Inr (cur @ c # rest)" using Cons.IH [of "cur @ [c]"] Cons.prems by simp
  then show ?case using p n d by (cases "rest = []") (auto simp: plain_snoc split: option.splits node.splits)
qed simp

lemma opened_found: "tree fs \<Longrightarrow> plain fs p \<Longrightarrow> node_at fs p \<noteq> None \<Longrightarrow> opened fs k p = Inr p"
  using walk_found [of fs "[]" p] by (simp add: opened_def)

lemma stat_found: "tree fs \<Longrightarrow> plain fs p \<Longrightarrow> node_at fs p \<noteq> None \<Longrightarrow> stat fs k p = node_at fs p"
  by (simp add: stat_def opened_found)

section \<open>Undisturbed operations\<close>

text \<open>A started environment that nobody closes or cancels.\<close>

declare look_same [simp del] look_root [simp del]

definition undisturbed :: "local_env \<Rightarrow> bool" where
  "undisturbed s \<longleftrightarrow> state_error s = None \<and> lv_glances s = []"

lemma undisturbed_look [simp]: "undisturbed s \<Longrightarrow> look s = (False, s)"
  by (simp add: undisturbed_def look_def take_glance_def state_error_def split: if_splits)

lemma undisturbed_state [simp]: "undisturbed s \<Longrightarrow> state_error s = None"
  by (simp add: undisturbed_def)

lemma read_chunks_undisturbed: "undisturbed s \<Longrightarrow> read_chunks bytes s = (Some bytes, s)"
proof (induction "length bytes" arbitrary: bytes rule: less_induct)
  case less
  then show ?case
    using less.hyps [of "drop 65536 bytes"] by (subst read_chunks.simps) (cases bytes; simp)
qed

lemma file_res_made:
  assumes "\<And>q. p = Some q \<Longrightarrow> path_ok q" "\<And>t b n. shown = Some (t, b, n) \<Longrightarrow> 0 \<le> n"
  shows "\<exists>x. file_res P st m p shown md = Inr x \<and> fr_status x = st \<and> fr_metadata x = md \<and> fr_path x = p \<and>
     fr_content x = (case shown of None \<Rightarrow> [] | Some (t, _, _) \<Rightarrow> t)"
  using assms
  by (cases p; cases shown)
    (auto simp: file_res_def FileResult_post_init_def duration_def path_ok_def nonneg_int_field_def bindR_def split: sum.split)

section \<open>Replacing\<close>

text \<open>The pieces between the occurrences, and putting them together around a text.\<close>

function pieces :: "str \<Rightarrow> str \<Rightarrow> str list" where
  "pieces old s =
     (if s = [] \<or> old = [] then [s]
      else if take (length old) s = old then [] # pieces old (drop (length old) s)
      else (case pieces old (tl s) of [] \<Rightarrow> [s] | p # ps \<Rightarrow> (hd s # p) # ps))"
  by pat_completeness auto
termination by (relation "measure (\<lambda>(_, s). length s)") (auto simp: diff_less)

declare pieces.simps [simp del]

fun rejoin :: "str \<Rightarrow> str list \<Rightarrow> str" where
  "rejoin between [] = []"
| "rejoin between [p] = p"
| "rejoin between (p # q # ps) = p @ between @ rejoin between (q # ps)"

lemma pieces_nonempty [simp]: "pieces old s \<noteq> []"
  by (subst pieces.simps) (auto split: list.splits)

lemma rejoin_Cons: "ps \<noteq> [] \<Longrightarrow> rejoin b (p # ps) = p @ b @ rejoin b ps"
  by (cases ps) simp_all

lemma rejoin_hd: "rejoin b ((c # p) # ps) = c # rejoin b (p # ps)"
  by (cases ps) simp_all

lemma pieces_spec:
  "old \<noteq> [] \<Longrightarrow> rejoin old (pieces old s) = s \<and> rejoin new (pieces old s) = replace_all old new s \<and>
     length (pieces old s) = Suc (occurrences old s)"
proof (induction old s rule: pieces.induct)
  case (1 old s)
  consider (empty) "s = []" | (found) "s \<noteq> []" "take (length old) s = old"
    | (other) "s \<noteq> []" "take (length old) s \<noteq> old" by blast
  then show ?case
  proof cases
    case empty
    then show ?thesis by (simp add: pieces.simps replace_all.simps occurrences.simps)
  next
    case found
    have "s = old @ drop (length old) s" using found(2) append_take_drop_id [of "length old" s] by simp
    then show ?thesis
      using 1 found
      by (simp add: pieces.simps [of old s] replace_all.simps [of old _ s] occurrences.simps [of old s] rejoin_Cons)
  next
    case other
    obtain p ps where p: "pieces old (tl s) = p # ps" by (cases "pieces old (tl s)") auto
    then show ?thesis
      using 1 other
      by (simp add: pieces.simps [of old s] replace_all.simps [of old _ s] occurrences.simps [of old s] rejoin_hd)
  qed
qed

lemma rejoin_prefix: "prefix p (rejoin b (p # ps))"
  by (cases ps) auto

lemma pieces_free: "old \<noteq> [] \<Longrightarrow> p \<in> set (pieces old s) \<Longrightarrow> occurrences old p = 0"
proof (induction old s arbitrary: p rule: pieces.induct)
  case (1 old s)
  consider (empty) "s = []" | (found) "s \<noteq> []" "take (length old) s = old"
    | (other) "s \<noteq> []" "take (length old) s \<noteq> old" by blast
  then show ?case
  proof cases
    case empty
    then show ?thesis using "1.prems" by (simp add: pieces.simps occurrences.simps)
  next
    case found
    then show ?thesis using 1 by (auto simp: pieces.simps [of old s] occurrences.simps [of old "[]"])
  next
    case other
    obtain q qs where q: "pieces old (tl s) = q # qs" by (cases "pieces old (tl s)") auto
    have free: "occurrences old q = 0" using "1.IH"(2) other "1.prems"(1) q by simp
    have "prefix (hd s # q) s"
      using pieces_spec [OF "1.prems"(1), of "tl s", THEN conjunct1] q rejoin_prefix [of q old qs] other(1)
      by (cases s) auto
    then have "take (length old) (hd s # q) \<noteq> old"
      using other(2) by (metis prefix_def take_is_prefix append_eq_conv_conj append.assoc)
    then have "occurrences old (hd s # q) = 0" using free by (simp add: occurrences.simps [of old "hd s # q"])
    moreover have "p \<in> insert (hd s # q) (set qs)" using "1.prems"(2) other "1.prems"(1) q by (simp add: pieces.simps [of old s])
    ultimately show ?thesis using "1.IH"(2) other "1.prems"(1) q by auto
  qed
qed

lemma replace_encodable: "encodable s \<Longrightarrow> encodable new \<Longrightarrow> encodable (replace_all old new s)"
proof (induction old new s rule: replace_all.induct)
  case (1 old new s)
  have "encodable (drop (length old) s)"
    using "1.prems"(1) by (auto simp: encodable_def list_all_iff dest: in_set_dropD)
  moreover have "encodable (tl s)" "s \<noteq> [] \<Longrightarrow> valid_cp (hd s)" using "1.prems"(1) by (cases s; simp)+
  ultimately show ?case using 1 by (subst replace_all.simps) simp
qed

section \<open>Edits\<close>

lemma found_file:
  assumes "tree (lv_files s)" "resolve_existing P s l kind e = Inr target"
    and "node_at (lv_files s) target = Some (Regular bytes)" "lp_fault P target = None"
  shows "open_fault P (lv_files s) target = Inr target" "stat (lv_files s) (lp_links P) target = Some (Regular bytes)"
  using assms resolve_existing_Inr [OF assms(2)] opened_found [of "lv_files s" target] stat_found [of "lv_files s" target]
  by (simp_all add: open_fault_def)

lemma write_text_whole:
  "open_fault P (lv_files s) p = Inr q \<Longrightarrow> encodable content \<Longrightarrow> lp_room P q = None \<Longrightarrow>
     write_text P p content s = (s\<lparr>lv_files := dset (lv_files s) q (Regular (enc_str content))\<rparr>, Inr ())"
  by (simp add: write_text_def utf8_encode_def)


section \<open>Reads\<close>

lemma read_chunks_Some: "read_chunks bytes s = (Some raw, s') \<Longrightarrow> raw = bytes"
proof (induction bytes s arbitrary: raw s' rule: read_chunks.induct)
  case (1 bytes s)
  obtain b s1 where l: "look s = (b, s1)" by (cases "look s")
  show ?case
  proof (cases "b \<or> bytes = []")
    case True
    then show ?thesis using "1.prems" l by (subst (asm) read_chunks.simps) (auto split: bool.splits)
  next
    case False
    obtain r2 s2 where g: "read_chunks (drop 65536 bytes) s1 = (r2, s2)" by (cases "read_chunks (drop 65536 bytes) s1")
    then obtain rest where "r2 = Some rest" "raw = take 65536 bytes @ rest"
      using "1.prems" l False by (subst (asm) read_chunks.simps) (auto split: bool.splits)
    then show ?thesis using "1.IH" [OF l [symmetric], of rest s2] False g by auto
  qed
qed

lemma file_res_status: "file_res P st m p shown md = Inr x \<Longrightarrow> fr_status x = st \<and>
    fr_content x = (case shown of None \<Rightarrow> [] | Some (t, _, _) \<Rightarrow> t) \<and>
    fr_truncated x = (case shown of None \<Rightarrow> False | Some (_, b, _) \<Rightarrow> b)"
  by (auto simp: file_res_def FileResult_post_init_def bindR_Inr_iff)

lemmas file_res_dest = file_res_status file_res_status [OF sym]

lemma file_handler_status: "file_handler P pre p e = Inr x \<Longrightarrow> fr_status x = EnvError"
  by (auto simp: file_handler_def dest: file_res_status split: option.splits if_splits)

lemma file_bytes_found:
  assumes "file_bytes P p s = Inr (Some raw, s')" "plain (lv_files s) p"
  shows "node_at (lv_files s) p = Some (Regular raw)"
proof -
  obtain q where q: "open_fault P (lv_files s) p = Inr q"
      "(case node_at (lv_files s) q of Some (Regular bytes) \<Rightarrow> Inr (read_chunks bytes s)
        | _ \<Rightarrow> Inl (OSError (lit ''No such file or directory''))) = Inr (Some raw, s')"
    using assms(1) unfolding file_bytes_def by (rule bind_InrE)
  have "q = p" using open_fault_Inr [OF q(1)] opened_resolved [OF assms(2)] by blast
  then show ?thesis using q(2) read_chunks_Some by (auto split: option.splits node.splits)
qed

text \<open>C14: What a read shows comes from a file of the workspace.  When \<open>read_file\<close> succeeds there is a
  regular file inside the root, not merely one whose logical path looks so, and the shown text is what
  the bounds leave of the requested lines of that file's text.\<close>

theorem read_file_confined:
  assumes "local_read_file P r s = (s', Inr x)" "fr_status x = EnvSuccess"
  shows "\<exists>q bytes n m. prefix (root_of s) q \<and> plain (lv_files s) q \<and> node_at (lv_files s) q = Some (Regular bytes) \<and>
     truncate_text (select_lines (utf8_decode_replace bytes) (rf_start_line r) (rf_end_line r))
       (request_limit s' (rf_max_bytes r)) = Inr (fr_content x, fr_truncated x, n, m)"
proof (cases "state_error s")
  case None
  obtain b s1 where k: "look s = (b, s1)" by (cases "look s")
  have b: "\<not> b"
  proof
    assume b
    then have "file_res P EnvCancelled (lit ''operation cancelled before reading'') (safe_result_path (rf_path r)) None [] = Inr x"
      using assms(1) None k by (simp add: local_read_file_def)
    then show False using file_res_status assms(2) by fastforce
  qed
  let ?got = "bindR (resolve_existing P s1 (rf_path r) ''file'' False) (\<lambda>resolved.
      bindR (guardR (is_regular (stat (lv_files s1) (lp_links P) resolved)) (path_boundary_error ''path is not a regular file'')) (\<lambda>_.
      file_bytes P resolved s1))"
  have run: "local_read_file P r s = (case ?got of
       Inl e \<Rightarrow> (s1, file_handler P ''unable to read file'' (rf_path r) e)
     | Inr (None, s') \<Rightarrow> (s', file_res P EnvCancelled (lit ''operation cancelled while reading'') (Some (rf_path r)) None [])
     | Inr (Some raw, s') \<Rightarrow>
         (s', case truncate_text (select_lines (utf8_decode_replace raw) (rf_start_line r) (rf_end_line r))
                     (request_limit s' (rf_max_bytes r)) of
                Inl e \<Rightarrow> file_handler P ''unable to read file'' (rf_path r) e
              | Inr (t, truncated, n, nbytes) \<Rightarrow>
                  file_res P EnvSuccess (lit ''file read'') (Some (rf_path r)) (Some (t, truncated, int n))
                    [(lit ''original_length_bytes'', JInt (int nbytes))]))"
    using None k b by (simp add: local_read_file_def)
  show ?thesis
  proof (cases ?got)
    case (Inl e)
    then show ?thesis using run assms file_handler_status by fastforce
  next
    case (Inr y)
    then obtain raw where y: "y = (Some raw, s')"
      using run assms by (cases y; cases "fst y") (auto dest: file_res_dest)
    then obtain p where p: "resolve_existing P s1 (rf_path r) ''file'' False = Inr p" "file_bytes P p s1 = Inr (Some raw, s')"
      using Inr by (auto simp: bindR_Inr_iff)
    obtain t c n m where t: "truncate_text (select_lines (utf8_decode_replace raw) (rf_start_line r) (rf_end_line r))
        (request_limit s' (rf_max_bytes r)) = Inr (t, c, n, m)"
      using run assms Inr y file_handler_status
      by (cases "truncate_text (select_lines (utf8_decode_replace raw) (rf_start_line r) (rf_end_line r))
        (request_limit s' (rf_max_bytes r))") fastforce+
    have "fr_content x = t \<and> fr_truncated x = c"
      using run assms Inr y t by (auto dest: file_res_dest)
    moreover have "prefix (root_of s) p \<and> plain (lv_files s) p \<and> node_at (lv_files s) p = Some (Regular raw)"
      using resolve_existing_Inr [OF p(1)] file_bytes_found [OF p(2)] look_same [OF k] look_root [OF k] by simp
    ultimately show ?thesis using t by blast
  qed
qed (use assms in \<open>auto simp: local_read_file_def state_file_res_def dest: file_res_status\<close>)

section \<open>A workspace with one file\<close>

text \<open>The directory \<open>/w\<close> holds the file \<open>a\<close>, whose text is \<open>xax\<close>, and a link to \<open>/\<close>.\<close>

definition sample_files :: files where
  "sample_files = [([[119]], Directory), ([[119], [97]], Regular [120, 97, 120]), ([[119], [108]], Symlink True [])]"

definition still_ports :: local_ports where
  "still_ports = \<lparr>lp_links = 40, lp_fault = (\<lambda>_. None), lp_room = (\<lambda>_. None), lp_elapsed = 0,
     lp_spawn = (\<lambda>_ _ _. Inl (OSError [])), lp_which = (\<lambda>_. Inr None), lp_executable = (\<lambda>_. False),
     lp_regex = (\<lambda>_. Inl []), lp_platform = sample_platform\<rparr>"

definition sample_local :: local_env where
  "sample_local = \<lparr>lv_input = [[119]], lv_root = Some [[119]], lv_started = True, lv_closed = False,
     lv_max_file_bytes = 100, lv_max_list_entries = 10, lv_max_search_results = 10, lv_max_search_bytes = None,
     lv_max_command_output_bytes = 100, lv_command_timeout = 30, lv_use_rg = True, lv_rg_input = lit ''rg'',
     lv_rg = Some None, lv_active = [], lv_spawned = 0, lv_signals = [], lv_reason = None,
     lv_files = sample_files, lv_glances = []\<rparr>"

lemma sample_node: "node_at sample_files p =
    (if p = [] \<or> p = [[119]] then Some Directory else if p = [[119], [97]] then Some (Regular [120, 97, 120])
     else if p = [[119], [108]] then Some (Symlink True []) else None)"
  by (simp add: node_at_def sample_files_def)

lemma sample_orderly: "orderly sample_local"
proof -
  have "tree sample_files" unfolding tree_def sample_node by (auto simp: append_eq_Cons_conv)
  moreover have "plain sample_files [[119]]"
    by (auto simp: plain_def sample_node dotdot_def prefix_Cons)
  ultimately show ?thesis by (simp add: orderly_def sample_local_def root_of_def)
qed

lemma sample_undisturbed: "undisturbed sample_local"
  by (simp add: undisturbed_def state_error_def sample_local_def)

lemma sample_relative: "logical_relative_path (JStr [97]) e = Inr [[97]]" "logical_relative_path (JStr []) True = Inr []"
  by (simp_all add: logical_relative_path_def has_nul_def normalise_def path_parts_def dotdot_def)

lemma sample_resolved: "resolve_existing still_ports sample_local [97] kind e = Inr [[119], [97]]"
  by (simp add: resolve_existing_def sample_relative bindR_def sample_local_def root_of_def resolve_strict_def
      still_ports_def sample_node dotdot_def is_within_def)

definition sample_edit :: EditFileRequest where
  "sample_edit = \<lparr>ef_path = [97], ef_old_text = [120], ef_new_text = [121, 121], ef_expected_replacements = Some 2\<rparr>"

lemma ascii_content: "enc_str [120, 97, 120] = [120, 97, 120]"
  by (simp add: enc_cp_def)


definition sample_read :: ReadFileRequest where
  "sample_read = \<lparr>rf_path = [97], rf_start_line = None, rf_end_line = None, rf_max_bytes = None\<rparr>"

lemma sample_reads:
  "\<exists>x. local_read_file still_ports sample_read sample_local = (sample_local, Inr x) \<and> fr_status x = EnvSuccess"
proof -
  have f: "tree (lv_files sample_local)" "node_at (lv_files sample_local) [[119], [97]] = Some (Regular [120, 97, 120])"
    using sample_orderly by (simp_all add: orderly_def) (simp add: sample_local_def sample_node)
  have o: "open_fault still_ports (lv_files sample_local) [[119], [97]] = Inr [[119], [97]]"
      "stat (lv_files sample_local) (lp_links still_ports) [[119], [97]] = Some (Regular [120, 97, 120])"
    using found_file [OF f(1) sample_resolved f(2)] by (simp_all add: still_ports_def)
  have r: "file_bytes still_ports [[119], [97]] sample_local = Inr (Some [120, 97, 120], sample_local)"
    using o(1) f(2) read_chunks_undisturbed [OF sample_undisturbed] by (simp add: file_bytes_def)
  let ?t = "select_lines (utf8_decode_replace [120, 97, 120]) None None"
  obtain t c where t: "truncate_text ?t (request_limit sample_local None) = Inr (t, c, length ?t, utf8_len ?t)"
    using decode_replace_encodable by (metis select_lines_def truncate_text_Inr)
  show ?thesis
    using sample_undisturbed sample_resolved o(2) r t
      file_res_made [of "Some [97]" "Some (t, c, int (length ?t))" still_ports EnvSuccess "lit ''file read''"]
    by (simp add: local_read_file_def sample_read_def path_ok_def has_nul_def) blast
qed

theorem read_file_confined_witness:
  "\<exists>x q bytes. local_read_file still_ports sample_read sample_local = (sample_local, Inr x) \<and>
     fr_status x = EnvSuccess \<and> prefix [[119]] q \<and> node_at sample_files q = Some (Regular bytes)"
proof -
  obtain x where x: "local_read_file still_ports sample_read sample_local = (sample_local, Inr x)" "fr_status x = EnvSuccess"
    using sample_reads by blast
  then show ?thesis using read_file_confined [OF x] by (auto simp: sample_local_def root_of_def)
qed

section \<open>A text that cannot be encoded\<close>

text \<open>A write opens the file, which empties it, before it encodes the text: when the text holds a lone
  surrogate the result is an error, and the content is gone.\<close>

lemma unencodable_write_empties:
  assumes "undisturbed s" "tree (lv_files s)" "WriteFileRequest_ok r" "\<not> encodable (wf_content r)"
    and "resolve_for_write P s (wf_path r) = Inr target" "plain (lv_files s) target"
    and "node_at (lv_files s) target = Some (Regular bytes)" "lp_fault P target = None"
  shows "\<exists>x. local_write_file P r s = (s\<lparr>lv_files := dset (lv_files s) target (Regular [])\<rparr>, Inr x) \<and> fr_status x = EnvError"
proof -
  let ?s = "s\<lparr>lv_files := dset (lv_files s) target (Regular [])\<rparr>" and ?e = "UnicodeError (lit ''surrogates not allowed'')"
  have o: "open_fault P (lv_files s) target = Inr target" "stat (lv_files s) (lp_links P) target = Some (Regular bytes)"
    using assms(2,6,7,8) opened_found [of "lv_files s" target] stat_found [of "lv_files s" target] by (simp_all add: open_fault_def)
  have w: "write_text P target (wf_content r) s = (?s, Inl ?e)"
    using o(1) assms(4) by (simp add: write_text_def utf8_encode_def)
  have "local_write_file P r s = (?s, file_handler P ''unable to write file'' (wf_path r) ?e)"
    using assms(1,5) o(2) w by (simp add: local_write_file_def Let_def)
  moreover have "\<exists>x. file_handler P ''unable to write file'' (wf_path r) ?e = Inr x \<and> fr_status x = EnvError"
    using file_res_made [of "safe_result_path (wf_path r)" None P EnvError] assms(3)
    by (auto simp: file_handler_def boundary_reason_def safe_result_path_def WriteFileRequest_ok_def) blast+
  ultimately show ?thesis by auto
qed

section \<open>Tool calls\<close>

text \<open>C10: As long as \<open>bash\<close> is not among the active tools, no tool call changes anything outside the
  workspace.  Whatever the call, its arguments, the policy and the user's answer, after \<open>execute\<close> every
  path outside the root holds what it held before, links in the workspace that lead outside included;
  the workspace is still the same resolved directory.  \<open>rg\<close> is taken to write nothing.\<close>

theorem tool_calls_confined:
  fixes s :: "local_env run_world exec_state"
  assumes "BashTool \<notin> set active" "rg_reads_only P" "orderly (rw_env (xs_world s))"
    and "e' = rw_env (xs_world (fst (execute cfg (recorder_ports pl (local_environment P) active pol ask now stamp)
                 call arguments provider correlation s)))"
  shows "orderly e' \<and> root_of e' = root_of (rw_env (xs_world s)) \<and>
     (\<forall>p. \<not> prefix (root_of (rw_env (xs_world s))) p \<longrightarrow>
        node_at (lv_files e') p = node_at (lv_files (rw_env (xs_world s))) p)"
proof -
  have active: "filter (\<lambda>t. t \<noteq> BashTool) active = active" using assms(1) by (auto simp: filter_id_conv)
  have "keeps_workspace P (rw_env (xs_world s)) e'"
    using workspace.ports.execute_steps [where ?P = P and ?active = active and ?cfg = cfg and ?pl = pl and ?pol = pol and
        ?ask = ask and ?now = now and ?stamp = stamp and ?call = call and ?arguments = arguments and
        ?provider = provider and ?correlation = correlation]
    unfolding assms(4) active steps_def workspace.ports.moved_def by (auto split: prod.splits sum.splits)
  then show ?thesis using assms(2,3) by (simp add: keeps_workspace_def confined_def)
qed

definition sample_call_state :: "local_env run_world exec_state" where
  "sample_call_state =
     \<lparr>xs_world = \<lparr>rw_events = [], rw_env = sample_local, rw_dispatched = 0, rw_draws = 0\<rparr>,
      xs_issued = {}, xs_event_ids = {}, xs_errors = [], xs_last_result = None,
      xs_last_published = False, xs_result = XNone, xs_policy_emitted = False\<rparr>"

text \<open>A write through the link \<open>l\<close>, which leads to \<open>/\<close>.\<close>

theorem tool_calls_confined_witness:
  "node_at (lv_files (rw_env (xs_world (fst (execute sample_config
      (recorder_ports sample_platform (local_environment still_ports) [WriteFileTool] sample_policy None 0 (lit ''t''))
      (Inl (JStr (lit ''write_file''))) (Some (JObj [(lit ''path'', JStr (lit ''l/x'')), (lit ''content'', JStr (lit ''c''))]))
      None None sample_call_state))))) [[120]] = None"
proof -
  have r: "rg_reads_only still_ports" by (simp add: rg_reads_only_def still_ports_def)
  have o: "orderly (rw_env (xs_world sample_call_state))" using sample_orderly by (simp add: sample_call_state_def)
  have b: "BashTool \<notin> set [WriteFileTool]" by simp
  show ?thesis
    using tool_calls_confined [OF b r o refl, THEN conjunct2, THEN conjunct2, rule_format, of "[[120]]"]
    by (simp add: sample_call_state_def sample_local_def root_of_def sample_node)
qed

end
