(* ===== verification/LocalWalkProps.thy ===== *)
theory LocalWalkProps
  imports LocalFileProps
begin

text \<open>
  The walk of a listing: it shows every entry below the directory except the links that lead outside,
  each once and in order.
\<close>

section \<open>The entries of a directory\<close>

text \<open>The components of the paths are names: not empty, no \<open>..\<close>, and without NUL.\<close>

definition named :: "files \<Rightarrow> bool" where
  "named fs \<longleftrightarrow> (\<forall>p c. node_at fs p \<noteq> None \<longrightarrow> c \<in> set p \<longrightarrow> c \<noteq> dotdot \<and> path_ok c)"

lemma names_in_set: "n \<in> set (names_in fs d) \<longleftrightarrow> node_at fs (d @ [n]) \<noteq> None"
proof -
  have "n \<in> set (names_in fs d) \<longleftrightarrow> (\<exists>p \<in> fst ` set fs. p \<noteq> [] \<and> butlast p = d \<and> last p = n)"
    by (auto simp: names_in_def)
  also have "\<dots> \<longleftrightarrow> d @ [n] \<in> fst ` set fs"
    by (metis append_butlast_last_id butlast_snoc last_snoc snoc_eq_iff_butlast)
  finally show ?thesis by (simp add: node_at_def map_of_eq_None_iff)
qed

lemma names_in_distinct [simp]: "distinct (names_in fs d)"
  by (simp add: names_in_def)

text \<open>An entry is shown unless it is a link that does not lead into the workspace.\<close>

definition shown :: "local_ports \<Rightarrow> local_env \<Rightarrow> path \<Rightarrow> bool" where
  "shown P s p \<longleftrightarrow> \<not> is_link (node_at (lv_files s) p) \<or>
     (\<exists>t. resolve_lenient (lv_files s) (lp_links P) p = Inr t \<and> prefix (root_of s) t)"

lemma list_children_undisturbed:
  "undisturbed s \<Longrightarrow>
   \<exists>k. list_children P recursive d l names s =
     ((map (join_logical l) (filter (\<lambda>n. shown P s (d @ [n])) names),
       if recursive then map (\<lambda>n. (d @ [n], join_logical l n)) (filter (\<lambda>n. node_at (lv_files s) (d @ [n]) = Some Directory) names)
       else [], k, False), s)"
proof (induction names)
  case (Cons n names)
  then obtain k where k: "list_children P recursive d l names s =
     ((map (join_logical l) (filter (\<lambda>n. shown P s (d @ [n])) names),
       if recursive then map (\<lambda>n. (d @ [n], join_logical l n)) (filter (\<lambda>n. node_at (lv_files s) (d @ [n]) = Some Directory) names)
       else [], k, False), s)" by blast
  show ?case
  proof (cases "is_link (node_at (lv_files s) (d @ [n]))")
    case True
    then have "node_at (lv_files s) (d @ [n]) \<noteq> Some Directory" by auto
    then show ?thesis using Cons.prems k True
      by (cases "resolve_lenient (lv_files s) (lp_links P) (d @ [n])") (auto simp: shown_def is_within_def Let_def)
  next
    case False
    then show ?thesis using Cons.prems k by (auto simp: shown_def Let_def)
  qed
qed simp

text \<open>Everything below a place, as the walk names it.\<close>

definition below :: "local_ports \<Rightarrow> bool \<Rightarrow> local_env \<Rightarrow> path \<times> str \<Rightarrow> (path \<times> str) set" where
  "below P recursive s q =
     {(fst q @ rel, foldl join_logical (snd q) rel) | rel.
        rel \<noteq> [] \<and> node_at (lv_files s) (fst q @ rel) \<noteq> None \<and> (recursive \<or> length rel = 1) \<and> shown P s (fst q @ rel)}"

definition apart :: "path \<times> str \<Rightarrow> path \<times> str \<Rightarrow> bool" where
  "apart q q' \<longleftrightarrow> \<not> prefix (fst q) (fst q') \<and> \<not> prefix (fst q') (fst q)"

lemma prefix_snoc_cases: "prefix e (d @ [n]) \<Longrightarrow> prefix e d \<or> e = d @ [n]"
  by (metis prefix_snoc)

lemma below_step:
  assumes "tree (lv_files s)"
  shows "below P recursive s (d, l) =
     {(d @ [n], join_logical l n) | n. node_at (lv_files s) (d @ [n]) \<noteq> None \<and> shown P s (d @ [n])} \<union>
     (if recursive
      then \<Union> (below P recursive s ` {(d @ [n], join_logical l n) | n. node_at (lv_files s) (d @ [n]) = Some Directory})
      else {})" (is "?L = ?C \<union> ?R")
proof
  show "?L \<subseteq> ?C \<union> ?R"
  proof
    fix x assume "x \<in> ?L"
    then obtain rel where rel: "x = (d @ rel, foldl join_logical l rel)" "rel \<noteq> []" "node_at (lv_files s) (d @ rel) \<noteq> None"
        "recursive \<or> length rel = 1" "shown P s (d @ rel)" by (auto simp: below_def)
    then obtain n rest where n: "rel = n # rest" by (cases rel) auto
    show "x \<in> ?C \<union> ?R"
    proof (cases "rest = []")
      case True
      then show ?thesis using rel n by auto
    next
      case False
      then have r: "recursive" using rel(4) n by auto
      have dir: "node_at (lv_files s) (d @ [n]) = Some Directory"
        using tree_prefix [OF assms, of "d @ [n]" rest] rel(3) n False by simp
      have "x \<in> below P recursive s (d @ [n], join_logical l n)"
        using rel n False r by (auto simp: below_def intro!: exI [of _ rest])
      then show ?thesis using r dir by auto
    qed
  qed
next
  show "?C \<union> ?R \<subseteq> ?L"
  proof
    fix x assume "x \<in> ?C \<union> ?R"
    then consider (child) n where "x = (d @ [n], join_logical l n)" "node_at (lv_files s) (d @ [n]) \<noteq> None" "shown P s (d @ [n])"
      | (deep) n rel where recursive "x = (d @ n # rel, foldl join_logical l (n # rel))" "rel \<noteq> []"
          "node_at (lv_files s) (d @ n # rel) \<noteq> None" "shown P s (d @ n # rel)"
      by (auto simp: below_def split: if_splits)
    then show "x \<in> ?L"
    proof cases
      case child
      then show ?thesis unfolding below_def by (intro CollectI exI [of _ "[n]"]) simp
    next
      case deep
      then show ?thesis unfolding below_def by (intro CollectI exI [of _ "n # rel"]) simp
    qed
  qed
qed

lemma below_apart: "x \<in> below P recursive s q \<Longrightarrow> y \<in> below P recursive s q' \<Longrightarrow> apart q q' \<Longrightarrow> fst x \<noteq> fst y"
  using prefix_same_cases [of "fst q" "fst x" "fst q'"] by (auto simp: below_def apart_def)

section \<open>Listings are complete\<close>

text \<open>The pending directories are resolved, and no one lies in another.\<close>

definition waiting :: "local_env \<Rightarrow> (path \<times> str) list \<Rightarrow> bool" where
  "waiting s pending \<longleftrightarrow>
     (\<forall>q \<in> set pending. plain (lv_files s) (fst q) \<and> node_at (lv_files s) (fst q) = Some Directory) \<and>
     sorted_wrt apart pending"

lemma waiting_found:
  assumes "waiting s ((d, l) # pending)" "named (lv_files s)" "distinct ns"
    and "\<forall>n \<in> set ns. node_at (lv_files s) (d @ [n]) = Some Directory"
  shows "waiting s (pending @ map (\<lambda>n. (d @ [n], join_logical l n)) ns)"
proof -
  have "plain (lv_files s) (d @ [n]) \<and> n \<noteq> dotdot" if "n \<in> set ns" for n
  proof -
    have "n \<noteq> dotdot" using assms(2,4) that unfolding named_def by (metis in_set_conv_decomp option.distinct(1))
    then show ?thesis using assms(1,4) that by (auto simp: waiting_def plain_snoc)
  qed
  moreover have "sorted_wrt apart (map (\<lambda>n. (d @ [n], join_logical l n)) ns)"
    using assms(3) by (induction ns) (auto simp: apart_def prefix_snoc)
  moreover have "apart q (d @ [n], join_logical l n)" if "q \<in> set pending" for q n
    using assms(1) that
    by (auto simp: waiting_def apart_def dest: prefix_snoc_cases prefix_order.trans [OF prefixI [OF refl], of d "[n]"])
  ultimately show ?thesis using assms(1,4) by (auto simp: waiting_def sorted_wrt_append)
qed

lemma collect_undisturbed:
  assumes "undisturbed s" "tree (lv_files s)" "named (lv_files s)" "\<And>p. lp_fault P p = None" "waiting s pending"
  shows "\<exists>ps k. collect_loop P recursive pending s = (Inr (map snd ps, False, k), s) \<and> distinct (map fst ps) \<and>
     set ps = \<Union> (below P recursive s ` set pending)"
  using assms
proof (induction P recursive pending s rule: collect_loop.induct)
  case (1 P recursive s)
  show ?case by (intro exI [of _ "[]"] exI [of _ 0]) simp
next
  case (2 P recursive d l pending s)
  let ?fs = "lv_files s" and ?names = "names_in (lv_files s) d"
  let ?seen = "filter (\<lambda>n. shown P s (d @ [n])) ?names"
  let ?dirs = "filter (\<lambda>n. node_at ?fs (d @ [n]) = Some Directory) ?names"
  let ?found = "if recursive then map (\<lambda>n. (d @ [n], join_logical l n)) ?dirs else []"
  have not_False: "\<not> False" by simp
  have d: "plain ?fs d" "node_at ?fs d = Some Directory" using "2.prems"(5) by (auto simp: waiting_def)
  have scan: "scandir P ?fs d = Inr ?names"
    using "2.prems"(2,4) d stat_found [of ?fs d] by (simp add: scandir_def)
  obtain k where k: "list_children P recursive d l ?names s = ((map (join_logical l) ?seen, ?found, k, False), s)"
    using list_children_undisturbed [OF "2.prems"(1)] by blast
  have "waiting s (pending @ ?found)"
  proof (cases recursive)
    case True
    have dirs: "distinct ?dirs" "\<forall>n \<in> set ?dirs. node_at ?fs (d @ [n]) = Some Directory" by simp_all
    show ?thesis unfolding if_P [OF True] by (rule waiting_found [OF "2.prems"(5,3) dirs])
  next
    case False
    then show ?thesis using "2.prems"(5) by (simp add: waiting_def)
  qed
  from "2.IH" [OF scan k [symmetric] refl refl refl not_False "2.prems"(1,2,3,4) this]
  obtain ps k' where ps: "collect_loop P recursive (pending @ ?found) s = (Inr (map snd ps, False, k'), s)"
      "distinct (map fst ps)" "set ps = \<Union> (below P recursive s ` set (pending @ ?found))"
    by blast
  let ?here = "map (\<lambda>n. (d @ [n], join_logical l n)) ?seen"
  have "collect_loop P recursive ((d, l) # pending) s = (Inr (map snd (?here @ ps), False, k + k'), s)"
    using scan k ps(1) by (simp add: collect_loop.simps(2) comp_def)
  moreover have "distinct (map fst (?here @ ps))"
  proof -
    have "d @ [n] \<noteq> fst x" if x: "x \<in> set ps" for n x
    proof
      assume e: "d @ [n] = fst x"
      obtain q where q: "q \<in> set (pending @ ?found)" "x \<in> below P recursive s q"
        using x unfolding ps(3) by (rule UN_E)
      then have strict: "strict_prefix (fst q) (d @ [n])" using e by (auto simp: below_def strict_prefix_def)
      show False
      proof (cases "q \<in> set pending")
        case True
        then show ?thesis using "2.prems"(5) strict prefix_snoc_cases [of "fst q" d n]
          by (auto simp: waiting_def apart_def strict_prefix_def)
      next
        case False
        then show ?thesis using q(1) strict by (auto simp: strict_prefix_def split: if_splits dest!: prefix_length_le)
      qed
    qed
    then show ?thesis using ps(2) by (auto simp: distinct_map inj_on_def)
  qed
  moreover have "set (?here @ ps) = \<Union> (below P recursive s ` set ((d, l) # pending))"
  proof -
    have "below P recursive s (d, l) = set ?here \<union> \<Union> (below P recursive s ` set ?found)"
      unfolding below_step [OF "2.prems"(2)] by (auto simp: names_in_set)
    then show ?thesis using ps(3) by auto
  qed
  ultimately show ?case by blast
qed

text \<open>The names a walk makes are logical paths without NUL.\<close>

lemma has_nul_append [simp]: "has_nul (a @ b) \<longleftrightarrow> has_nul a \<or> has_nul b"
  by (auto simp: has_nul_def)

lemma join_path_ok: "path_ok n \<Longrightarrow> \<not> has_nul l \<Longrightarrow> path_ok (join_logical l n)"
  by (auto simp: path_ok_def join_logical_def) (simp_all add: has_nul_def)

lemma foldl_path_ok: "rel \<noteq> [] \<Longrightarrow> \<forall>c \<in> set rel. path_ok c \<Longrightarrow> \<not> has_nul l \<Longrightarrow> path_ok (foldl join_logical l rel)"
proof (induction rel arbitrary: l)
  case (Cons c rel)
  have "path_ok (join_logical l c)" using Cons.prems join_path_ok by simp
  then show ?case using Cons.IH [of "join_logical l c"] Cons.prems by (cases "rel = []") (auto simp: path_ok_def)
qed simp

lemma drop_dot_slash_set: "set (drop_dot_slash s) \<subseteq> set s"
  by (induction s rule: drop_dot_slash.induct) (subst drop_dot_slash.simps, auto dest: in_set_dropD)

lemma logical_start_nul: "\<not> has_nul p \<Longrightarrow> \<not> has_nul (logical_start p)"
proof -
  assume p: "\<not> has_nul p"
  have "set (strip_slashes (drop_dot_slash (normalise p))) \<subseteq> set (normalise p)"
    using drop_dot_slash_set [of "normalise p"] unfolding strip_slashes_def by (auto dest!: set_dropWhileD)
  then have "0 \<notin> set (strip_slashes (drop_dot_slash (normalise p)))"
    using p by (auto simp: normalise_def has_nul_def)
  then show ?thesis by (auto simp: logical_start_def normalise_search_path_def Let_def has_nul_def)
qed

lemma validate_entries_ok: "\<forall>e \<in> set es. path_ok e \<Longrightarrow> validate_entries es = Inr ()"
  by (induction es) (auto simp: path_ok_def bindR_def)

lemma list_res_made:
  assumes "\<forall>e \<in> set es. path_ok e"
  shows "\<exists>x. list_res P st m (Some (es, b, n)) md = Inr x \<and> lr_status x = st \<and> lr_entries x = es \<and>
     lr_truncated x = b \<and> lr_original_length x = Some (int n)"
  using validate_entries_ok [OF assms]
  by (simp add: list_res_def ListResult_post_init_def duration_def bindR_def)

text \<open>C12: An undisturbed listing shows every entry, and no link that leads outside.  The shown names are
  the sorted logical names of exactly the places below the directory, or directly in it when the
  listing is not recursive, without the links whose target is not in the workspace, each once; the
  limit cuts their list at its end, and the result says whether it did and how many there are.\<close>

theorem list_files_complete:
  assumes "undisturbed s" "tree (lv_files s)" "named (lv_files s)" "\<And>p. lp_fault P p = None" "ListFilesRequest_ok r"
    and "resolve_existing P s (lf_path r) ''directory'' True = Inr d" "node_at (lv_files s) d = Some Directory"
    and "lf_max_entries r = Some n"
  shows "\<exists>x rels. local_list_files P r s = (s, Inr x) \<and> lr_status x = EnvSuccess \<and> distinct rels \<and>
     set rels = {rel. rel \<noteq> [] \<and> node_at (lv_files s) (d @ rel) \<noteq> None \<and> (lf_recursive r \<or> length rel = 1) \<and>
                      shown P s (d @ rel)} \<and>
     lr_original_length x = Some (int (length rels)) \<and>
     lr_entries x = take (nat (min n (int (lv_max_list_entries s))))
       (sort (map (foldl join_logical (logical_start (lf_path r))) rels)) \<and>
     lr_truncated x = (nat (min n (int (lv_max_list_entries s))) < length rels)"
proof -
  let ?l = "logical_start (lf_path r)" and ?m = "nat (min n (int (lv_max_list_entries s)))"
  have plain: "plain (lv_files s) d" using resolve_existing_Inr [OF assms(6)] by blast
  have "waiting s [(d, ?l)]" using assms(7) plain by (simp add: waiting_def)
  then obtain ps k where ps: "collect_loop P (lf_recursive r) [(d, ?l)] s = (Inr (map snd ps, False, k), s)"
      "distinct (map fst ps)" "set ps = below P (lf_recursive r) s (d, ?l)"
    using collect_undisturbed [OF assms(1,2,3,4)] by fastforce
  let ?rels = "map (\<lambda>q. drop (length d) (fst q)) ps"
  have shape: "\<exists>rel. q = (d @ rel, foldl join_logical ?l rel) \<and> rel \<noteq> [] \<and> node_at (lv_files s) (d @ rel) \<noteq> None \<and>
      (lf_recursive r \<or> length rel = 1) \<and> shown P s (d @ rel)" if "q \<in> set ps" for q
    using that unfolding ps(3) below_def by auto
  have "inj_on (\<lambda>q. drop (length d) (fst q)) (set ps)" by (rule inj_onI) (force dest!: shape)
  moreover have "distinct ps" using ps(2) by (simp add: distinct_map)
  ultimately have "distinct ?rels" by (simp add: distinct_map)
  moreover have "set ?rels = {rel. rel \<noteq> [] \<and> node_at (lv_files s) (d @ rel) \<noteq> None \<and> (lf_recursive r \<or> length rel = 1) \<and>
      shown P s (d @ rel)}"
    unfolding set_map ps(3) below_def by force
  moreover have names: "map snd ps = map (foldl join_logical ?l) ?rels"
    unfolding map_map by (rule map_cong) (auto dest!: shape)
  moreover have "\<forall>e \<in> set (map snd ps). path_ok e"
  proof -
    have "\<not> has_nul ?l" using assms(5) by (intro logical_start_nul) (simp add: ListFilesRequest_ok_def)
    moreover have comps: "path_ok c" if "node_at (lv_files s) (d @ rel) = Some y" "c \<in> set rel" for rel y c
      using assms(3) that unfolding named_def by fastforce
    ultimately show ?thesis by (auto dest!: shape intro!: foldl_path_ok intro: comps)
  qed
  then have made: "\<exists>x. list_res P st msg (Some (take ?m (sort (map snd ps)), b, length ps)) md = Inr x \<and> lr_status x = st \<and>
      lr_entries x = take ?m (sort (map snd ps)) \<and> lr_truncated x = b \<and> lr_original_length x = Some (int (length ps))" for st msg b md
    by (intro list_res_made) (metis in_set_takeD set_sort)
  have bound: "bound_sequence (sort (map snd ps)) ?m = (take ?m (sort (map snd ps)), ?m < length ps)"
    by (simp add: bound_sequence_def)
  have "\<exists>md. local_list_files P r s = (s, list_res P EnvSuccess (lit ''files listed'')
      (Some (take ?m (sort (map snd ps)), ?m < length ps, length ps)) md)"
    using assms(1,6,7,8) ps(1) bound stat_found [OF assms(2) plain]
    by (simp add: local_list_files_def collect_entries_def min_limit_def Let_def) blast
  then obtain x where x: "local_list_files P r s = (s, Inr x)" "lr_status x = EnvSuccess" "lr_entries x = take ?m (sort (map snd ps))"
      "lr_truncated x = (?m < length ps)" "lr_original_length x = Some (int (length ps))"
    using made by metis
  moreover have "lr_entries x = take ?m (sort (map (foldl join_logical ?l) ?rels))"
    using x(3) unfolding names .
  ultimately show ?thesis by (intro exI [of _ x] exI [of _ ?rels] conjI) simp_all
qed

definition sample_list :: ListFilesRequest where
  "sample_list = \<lparr>lf_path = [], lf_recursive = True, lf_max_entries = Some 5\<rparr>"

lemma sample_root: "resolve_existing still_ports sample_local [] kind True = Inr [[119]]"
  by (simp add: resolve_existing_def sample_relative bindR_def sample_local_def root_of_def resolve_strict_def
      still_ports_def sample_node dotdot_def is_within_def)

lemma sample_named: "named (lv_files sample_local)"
  by (auto simp: named_def sample_local_def sample_node dotdot_def path_ok_def has_nul_def split: if_splits)

theorem list_files_complete_witness:
  "\<exists>x. local_list_files still_ports sample_list sample_local = (sample_local, Inr x) \<and> lr_status x = EnvSuccess \<and>
     lr_entries x = [[97]] \<and> \<not> lr_truncated x"
proof -
  have facts: "tree (lv_files sample_local)" "\<And>p. lp_fault still_ports p = None" "ListFilesRequest_ok sample_list"
      "resolve_existing still_ports sample_local (lf_path sample_list) ''directory'' True = Inr [[119]]"
      "node_at (lv_files sample_local) [[119]] = Some Directory" "lf_max_entries sample_list = Some 5"
    using sample_orderly sample_root
    by (simp_all add: orderly_def ListFilesRequest_ok_def has_nul_def nonneg_option_def sample_list_def still_ports_def)
       (simp add: sample_local_def sample_node)
  obtain x rels where x: "local_list_files still_ports sample_list sample_local = (sample_local, Inr x)"
      "lr_status x = EnvSuccess" "distinct rels"
      "set rels = {rel. rel \<noteq> [] \<and> node_at (lv_files sample_local) ([[119]] @ rel) \<noteq> None \<and>
         (lf_recursive sample_list \<or> length rel = 1) \<and> shown still_ports sample_local ([[119]] @ rel)}"
      "lr_entries x = take (nat (min 5 (int (lv_max_list_entries sample_local))))
         (sort (map (foldl join_logical (logical_start (lf_path sample_list))) rels))"
      "lr_truncated x = (nat (min 5 (int (lv_max_list_entries sample_local))) < length rels)"
    using list_files_complete [OF sample_undisturbed facts(1) sample_named facts(2,3,4,5,6)] by blast
  have "shown still_ports sample_local [[119], [97]]" "\<not> shown still_ports sample_local [[119], [108]]"
    by (simp_all add: shown_def sample_local_def sample_node resolve_lenient_def still_ports_def root_of_def dotdot_def)
  then have "set rels = {[[97]]}" unfolding x(4) sample_list_def
    by (auto simp: sample_node sample_local_def split: if_splits)
  then have "rels = [[[97]]]" using x(3) by (cases rels; cases "tl rels") auto
  then show ?thesis
    using x(1,2,5,6) by (simp add: sample_local_def sample_list_def logical_start_def normalise_search_path_def
        strip_slashes_def drop_dot_slash.simps normalise_def join_logical_def)
qed

end
