(* ===== verification/LocalSearchProps.thy ===== *)
theory LocalSearchProps
  imports LocalWalkProps
begin

text \<open>
  What the searches and the commands of the local environment show and leave behind: a match without
  \<open>rg\<close> is a line of a file of the workspace, and a command is over, in time or stopped, when its
  result is there.
\<close>

section \<open>Matches are lines of the workspace\<close>

definition inside :: "local_env \<Rightarrow> path \<Rightarrow> bool" where
  "inside s p \<longleftrightarrow> plain (lv_files s) p \<and> prefix (root_of s) p"

lemma inside_unmoved: "unmoved s s' \<Longrightarrow> inside s' = inside s"
  by (auto simp: inside_def unmoved_def root_of_def fun_eq_iff)

lemma inside_child:
  "named (lv_files s) \<Longrightarrow> inside s d \<Longrightarrow> node_at (lv_files s) (d @ [n]) = Some x \<Longrightarrow> \<not> is_link (Some x) \<Longrightarrow> inside s (d @ [n])"
  unfolding inside_def plain_snoc named_def by (metis in_set_conv_decomp option.distinct(1) prefix_order.trans prefixI)

lemma lenient_plain: "resolve_lenient fs k p = Inr t \<Longrightarrow> plain fs t"
  unfolding resolve_lenient_def by (rule walk_plain, assumption) simp

lemma search_children_inside:
  "search_children P d l names s = ((fs, pending, c), s') \<Longrightarrow> named (lv_files s) \<Longrightarrow> inside s d \<Longrightarrow>
   \<forall>q \<in> set fs \<union> set pending. inside s (fst q)"
proof (induction names arbitrary: s s' fs pending c)
  case (Cons n names)
  obtain b s1 where l: "look s = (b, s1)" by (cases "look s")
  have m: "lv_files s1 = lv_files s" "root_of s1 = root_of s" "inside s1 = inside s"
    using look_unmoved [OF l] inside_unmoved [OF look_unmoved [OF l]] by (simp_all add: unmoved_def root_of_def)
  show ?case
  proof (cases b)
    case True
    then show ?thesis using Cons.prems(1) l by auto
  next
    case False
    obtain f1 p1 c1 s2 where g: "search_children P d l names s1 = ((f1, p1, c1), s2)" by (metis prod.collapse)
    have ih: "\<forall>q \<in> set f1 \<union> set p1. inside s (fst q)" using Cons.IH [OF g] Cons.prems(2,3) m by simp
    show ?thesis
    proof (cases "node_at (lv_files s) (d @ [n])")
      case None
      then show ?thesis using Cons.prems(1) l g False m ih by simp
    next
      case (Some x)
      show ?thesis
      proof (cases x)
        case (Symlink absolute target)
        have t: "inside s t" if "resolve_lenient (lv_files s) (lp_links P) (d @ [n]) = Inr t" "is_within t (root_of s)" for t
          using that lenient_plain by (auto simp: inside_def is_within_def)
        show ?thesis
        proof (cases "resolve_lenient (lv_files s) (lp_links P) (d @ [n])")
          case (Inl e)
          then show ?thesis using Cons.prems(1) l g False m ih Some Symlink by simp
        next
          case (Inr t)
          then show ?thesis using Cons.prems(1) l g False m ih Some Symlink t [OF Inr] by (auto split: if_splits)
        qed
      qed (use inside_child [OF Cons.prems(2,3) Some] Cons.prems(1) l g False m ih Some in \<open>auto split: if_splits\<close>)
    qed
  qed
qed simp

lemma gather_loop_inside:
  "gather_loop P pending s = (Files fs, s') \<Longrightarrow> named (lv_files s) \<Longrightarrow> \<forall>q \<in> set pending. inside s (fst q) \<Longrightarrow>
   \<forall>q \<in> set fs. inside s (fst q)"
proof (induction P pending s arbitrary: fs s' rule: gather_loop.induct)
  case (2 P d l pending s)
  obtain names where scan: "scandir P (lv_files s) d = Inr names"
    using "2.prems"(1) by (cases "scandir P (lv_files s) d") (auto simp: gather_loop.simps(2))
  obtain f1 found c s1 where g: "search_children P d l names s = ((f1, found, c), s1)" by (metis prod.collapse)
  have c: "\<not> c" using "2.prems"(1) scan g by (auto simp: gather_loop.simps(2))
  obtain f2 s2 where h: "gather_loop P (pending @ found) s1 = (Files f2, s2)" and fs: "fs = f1 @ f2"
    using "2.prems"(1) scan g c by (auto simp: gather_loop.simps(2) split: prod.splits gathered.splits)
  have u: "unmoved s s1" using search_children_files [OF g] by (simp add: unmoved_def)
  have in1: "\<forall>q \<in> set f1 \<union> set found. inside s (fst q)" using search_children_inside [OF g "2.prems"(2)] "2.prems"(3) by simp
  have "named (lv_files s1)" "\<forall>q \<in> set (pending @ found). inside s1 (fst q)"
    using u in1 "2.prems"(2,3) inside_unmoved [OF u] by (auto simp: unmoved_def)
  from "2.IH" [OF scan g [symmetric] refl refl c h this] have "\<forall>q \<in> set f2. inside s (fst q)"
    using inside_unmoved [OF u] by simp
  then show ?case using fs in1 by auto
qed simp

text \<open>A line that a file of the workspace has, and that passes the test.\<close>

definition line_of :: "local_env \<Rightarrow> (str \<Rightarrow> bool) \<Rightarrow> SearchMatch \<Rightarrow> bool" where
  "line_of s test m \<longleftrightarrow>
     (\<exists>q bytes. inside s q \<and> node_at (lv_files s) q = Some (Regular bytes) \<and>
        (let ls = newline_lines (universal_newlines (utf8_decode_replace bytes)) in
         1 \<le> sm_line_number m \<and> sm_line_number m \<le> length ls \<and> test (ls ! (sm_line_number m - 1)) \<and>
         sm_text m = rstrip_newline (ls ! (sm_line_number m - 1))))"

lemma search_lines_sound:
  "search_lines test l n ls s = ((ms, c), s') \<Longrightarrow> m \<in> set ms \<Longrightarrow>
   n \<le> sm_line_number m \<and> sm_line_number m < n + length ls \<and> test (ls ! (sm_line_number m - n)) \<and>
   sm_text m = rstrip_newline (ls ! (sm_line_number m - n))"
proof (induction ls arbitrary: n s ms c s')
  case (Cons x ls)
  obtain b s1 where k: "look s = (b, s1)" by (cases "look s")
  obtain ms1 c1 s2 where g: "search_lines test l (Suc n) ls s1 = ((ms1, c1), s2)" by (metis prod.collapse)
  have "m \<in> set ms1 \<or> test x \<and> sm_line_number m = n \<and> sm_text m = rstrip_newline x"
    using Cons.prems k g by (cases b) (auto split: if_splits)
  then show ?case
  proof
    assume "m \<in> set ms1"
    from Cons.IH [OF g this] show ?thesis by (auto simp: nth_Cons' Suc_diff_le not_less_eq_eq)
  qed simp
qed simp

lemma file_text_line:
  assumes "file_text P (lv_files s) p = Inr content" "inside s p"
  shows "\<exists>bytes. node_at (lv_files s) p = Some (Regular bytes) \<and> content = universal_newlines (utf8_decode_replace bytes)"
proof -
  obtain q where q: "open_fault P (lv_files s) p = Inr q"
      "(case node_at (lv_files s) q of Some (Regular bytes) \<Rightarrow> Inr (universal_newlines (utf8_decode_replace bytes))
        | _ \<Rightarrow> Inl (OSError (lit ''No such file or directory''))) = Inr content"
    using assms(1) unfolding file_text_def by (rule bind_InrE)
  have "q = p" using open_fault_Inr [OF q(1)] opened_resolved assms(2) by (auto simp: inside_def)
  then show ?thesis using q(2) by (auto split: option.splits node.splits)
qed

lemma search_files_sound:
  "search_files P test fs s = ((ms, es, c), s') \<Longrightarrow> \<forall>q \<in> set fs. inside s (fst q) \<Longrightarrow> m \<in> set ms \<Longrightarrow> line_of s test m"
proof (induction fs arbitrary: s ms es c s')
  case (Cons f fs)
  obtain p l where f: "f = (p, l)" by (cases f)
  obtain b s1 where k: "look s = (b, s1)" by (cases "look s")
  have u: "unmoved s s1" by (rule look_unmoved [OF k])
  have same: "line_of s2 test = line_of s test" if "unmoved s s2" for s2
    using that inside_unmoved [OF that] by (auto simp: line_of_def unmoved_def fun_eq_iff)
  have b: "\<not> b" using Cons.prems(1,3) f k by auto
  show ?case
  proof (cases "file_text P (lv_files s1) p")
    case (Inl e)
    obtain ms1 es1 c1 s2 where g: "search_files P test fs s1 = ((ms1, es1, c1), s2)" by (metis prod.collapse)
    have "m \<in> set ms1" using Cons.prems(1,3) f k b Inl g by auto
    then show ?thesis using Cons.IH [OF g] Cons.prems(2) inside_unmoved [OF u] same [OF u] by simp
  next
    case (Inr content)
    obtain ms1 c1 s2 where g: "search_lines test l 1 (newline_lines content) s1 = ((ms1, c1), s2)" by (metis prod.collapse)
    obtain ms2 es2 c2 s3 where h: "search_files P test fs s2 = ((ms2, es2, c2), s3)" by (metis prod.collapse)
    have u2: "unmoved s s2" using u search_lines_unmoved [OF g] by (rule unmoved_trans)
    have "m \<in> set ms1 \<or> m \<in> set ms2" using Cons.prems(1,3) f k b Inr g h by (cases c1) auto
    then show ?thesis
    proof
      assume m: "m \<in> set ms1"
      have "inside s1 p" using Cons.prems(2) f inside_unmoved [OF u] by simp
      from file_text_line [OF Inr this] obtain bytes where
        "node_at (lv_files s1) p = Some (Regular bytes)" "content = universal_newlines (utf8_decode_replace bytes)" by blast
      then show ?thesis
        using search_lines_sound [OF g m] Cons.prems(2) f u by (fastforce simp: line_of_def unmoved_def Let_def)
    next
      assume "m \<in> set ms2"
      then show ?thesis using Cons.IH [OF h] Cons.prems(2) inside_unmoved [OF u2] same [OF u2] by simp
    qed
  qed
qed simp

lemma fold_terminate_engine [simp]:
  "lv_use_rg (fold terminate_process qs s) = lv_use_rg s" "lv_max_command_output_bytes (fold terminate_process qs s) = lv_max_command_output_bytes s"
  by (induction qs arbitrary: s) (simp_all add: terminate_process_def)

lemma look_engine: "look s = (b, s') \<Longrightarrow> lv_use_rg s' = lv_use_rg s \<and> lv_rg s' = lv_rg s"
  by (auto simp: look_def take_glance_def local_close_def split: if_splits list.splits)

lemma search_with_python_sound:
  assumes "search_with_python P r p s = ((ms, md, st, msg), s')" "named (lv_files s)" "inside s p" "m \<in> set ms"
  shows "\<exists>test. (if sr_use_regex r then lp_regex P (sr_query r) else Inr (contains (sr_query r))) = Inr test \<and> line_of s test m"
proof -
  obtain test where test: "(if sr_use_regex r then lp_regex P (sr_query r) else Inr (contains (sr_query r))) = Inr test"
    using assms(1,4) by (cases "if sr_use_regex r then lp_regex P (sr_query r) else Inr (contains (sr_query r))")
      (auto simp: search_with_python_def Let_def)
  obtain g s1 where g: "gather_files P p (sr_path r) s = (g, s1)" by (metis prod.collapse)
  obtain fs where fs: "g = Files fs" using assms(1,4) test g by (cases g) (auto simp: search_with_python_def Let_def)
  have "\<forall>q \<in> set fs. inside s (fst q)"
    using g fs assms(2,3) gather_loop_inside [of P "[(p, logical_start (sr_path r))]" s fs s1]
    by (auto simp: gather_files_def Let_def split: if_splits)
  moreover obtain es c s2 ms' where h: "search_files P test (sort_key snd fs) s1 = ((ms', es, c), s2)" by (metis prod.collapse)
  have "ms' = ms" using assms(1) test g fs h by (simp add: search_with_python_def Let_def)
  moreover have u: "unmoved s s1" by (rule gather_files_unmoved [OF g])
  ultimately have "line_of s1 test m"
    using search_files_sound [OF h] assms(4) inside_unmoved [OF u] by auto
  then have "line_of s test m" using u inside_unmoved [OF u] by (auto simp: line_of_def unmoved_def)
  then show ?thesis using test by blast
qed

lemma bound_loop_subset: "bound_matches_loop ms used l = Inr (out, t) \<Longrightarrow> set out \<subseteq> set ms"
proof (induction ms arbitrary: used out t)
  case (Cons m ms)
  then show ?case by (auto simp: bindR_Inr_iff split: if_splits prod.splits) blast
qed simp

lemma bound_matches_subset: "bound_search_matches ms n l = Inr (out, t) \<Longrightarrow> set out \<subseteq> set ms"
  using bound_loop_subset set_take_subset
  by (fastforce simp: bound_search_matches_def Let_def bindR_Inr_iff split: option.splits prod.splits)

lemma search_res_matches: "search_res P st msg whole md = Inr x \<Longrightarrow>
    sr_matches x = (case whole of None \<Rightarrow> [] | Some (ms, _, _) \<Rightarrow> ms) \<and> sr_status x = st"
  by (auto simp: search_res_def SearchResult_post_init_def bindR_Inr_iff)

lemma search_handler_matches: "search_handler P e = Inr x \<Longrightarrow> sr_matches x = []"
  by (auto simp: search_handler_def dest: search_res_matches split: option.splits if_splits)

lemma found_result_matches:
  assumes "found_result P r (ms, md, st, msg) s = Inr x"
  shows "set (sr_matches x) \<subseteq> set ms"
proof -
  obtain n out t where b: "bound_search_matches ms n (case sr_max_bytes r of None \<Rightarrow> lv_max_search_bytes s | Some b \<Rightarrow> Some b) = Inr (out, t)"
    and x: "sr_matches x = out \<or> sr_matches x = []"
    using assms by (auto simp: found_result_def bindR_Inr_iff Let_def dest!: search_res_matches split: if_splits)
  show ?thesis using x bound_matches_subset [OF b] by auto
qed

text \<open>C15: A match of a search without \<open>rg\<close> is a line of a file of the workspace.  For every match in the
  result, whatever links lie in the workspace and whoever cancels meanwhile, there is a regular file
  inside the root whose line of that number passes the test of the query and is the text shown.\<close>

theorem search_confined:
  assumes "local_search P r s = (s', Inr x)" "m \<in> set (sr_matches x)" "named (lv_files s)"
    and "\<not> lv_use_rg s \<or> lv_rg s = Some None"
  shows "\<exists>test. (if sr_use_regex r then lp_regex P (sr_query r) else Inr (contains (sr_query r))) = Inr test \<and> line_of s test m"
proof (cases "state_error s")
  case None
  obtain b s1 where k: "look s = (b, s1)" by (cases "look s")
  have u: "unmoved s s1" by (rule look_unmoved [OF k])
  have b: "\<not> b" using assms(1,2) None k search_res_matches by (fastforce simp: local_search_def)
  obtain p where p: "resolve_existing P s1 (sr_path r) ''search target'' True = Inr p"
    using assms(1,2) None k b search_handler_matches
    by (cases "resolve_existing P s1 (sr_path r) ''search target'' True") (fastforce simp: local_search_def)+
  obtain f s2 where f: "search_engine P r p s1 = (f, s2)" by (metis prod.collapse)
  obtain ms md st msg where found: "f = Inr (ms, md, st, msg)" "found_result P r (ms, md, st, msg) s2 = Inr x"
    using assms(1,2) None k b p f search_handler_matches
    by (cases f) (fastforce simp: local_search_def split: sum.splits)+
  let ?d = "detect_rg P s1"
  have "\<not> lv_use_rg ?d \<or> lv_rg ?d = Some None"
    using assms(4) look_engine [OF k] by (auto simp: detect_rg_def)
  then have "search_with_python P r p ?d = ((ms, md, st, msg), s2)"
    using f found(1) by (auto simp: search_engine_def Let_def split: prod.splits bool.splits option.splits)
  moreover have d: "unmoved s ?d" using u detect_rg_unmoved by (rule unmoved_trans)
  moreover have "inside s1 p" using resolve_existing_Inr [OF p] by (simp add: inside_def)
  then have "inside ?d p" using inside_unmoved [OF d] inside_unmoved [OF u] by simp
  moreover have "m \<in> set ms" using found_result_matches [OF found(2)] assms(2) by auto
  ultimately obtain test where "(if sr_use_regex r then lp_regex P (sr_query r) else Inr (contains (sr_query r))) = Inr test"
      "line_of ?d test m"
    using search_with_python_sound [of P r p ?d ms md st msg s2 m] assms(3) by (auto simp: unmoved_def)
  moreover from this have "line_of s test m" using d inside_unmoved [OF d] by (auto simp: line_of_def unmoved_def)
  ultimately show ?thesis by blast
qed (use assms(1,2) search_res_matches in \<open>fastforce simp: local_search_def\<close>)

definition sample_search :: SearchRequest where
  "sample_search = \<lparr>sr_query = [97], sr_path = [97], sr_use_regex = False, sr_max_results = Some 5, sr_max_bytes = None\<rparr>"

lemma sample_search_found:
  "\<exists>x. local_search still_ports sample_search sample_local = (sample_local, Inr x) \<and>
     sr_matches x = [\<lparr>sm_path = [97], sm_line_number = 1, sm_text = [120, 97, 120]\<rparr>]"
proof -
  have f: "tree (lv_files sample_local)" "node_at (lv_files sample_local) [[119], [97]] = Some (Regular [120, 97, 120])"
    using sample_orderly by (simp_all add: orderly_def) (simp add: sample_local_def sample_node)
  have o: "open_fault still_ports (lv_files sample_local) [[119], [97]] = Inr [[119], [97]]"
      "stat (lv_files sample_local) (lp_links still_ports) [[119], [97]] = Some (Regular [120, 97, 120])"
    using found_file [OF f(1) sample_resolved f(2)] by (simp_all add: still_ports_def)
  have g: "gather_files still_ports [[119], [97]] [97] sample_local = (Files [([[119], [97]], [97])], sample_local)"
    using o(2) by (simp add: gather_files_def relative_logical_def is_within_def) (simp add: sample_local_def root_of_def)
  have "ascii [120, 97, 120]" by (simp add: ascii_def)
  then have d: "utf8_decode_replace [120, 97, 120] = [120, 97, 120]"
    by (simp add: utf8_decode_replace_def utf8_scan.simps)
  have t: "file_text still_ports (lv_files sample_local) [[119], [97]] = Inr [120, 97, 120]"
    using o(1) f(2) d by (simp add: file_text_def bindR_def)
  have h: "search_files still_ports (contains [97]) [([[119], [97]], [97])] sample_local =
      (([\<lparr>sm_path = [97], sm_line_number = 1, sm_text = [120, 97, 120]\<rparr>], [], False), sample_local)"
    using sample_undisturbed t by (simp add: rstrip_newline_def)
  have e: "lv_use_rg sample_local" "lv_rg sample_local = Some None" "detect_rg still_ports sample_local = sample_local"
    by (simp_all add: sample_local_def detect_rg_def)
  have "search_engine still_ports sample_search [[119], [97]] sample_local =
      (Inr ([\<lparr>sm_path = [97], sm_line_number = 1, sm_text = [120, 97, 120]\<rparr>],
        [(lit ''engine'', JStr (lit ''stdlib'')), (lit ''rg_available'', JBool False), (lit ''fallback'', JStr (lit ''python''))],
        EnvSuccess, lit ''matches found''), sample_local)"
    using g h e by (simp add: search_engine_def search_with_python_def sample_search_def Let_def outcome_message_def)
  moreover have "lv_max_search_results sample_local = 10" "lv_max_search_bytes sample_local = None" "lp_elapsed still_ports = 0"
    by (simp_all add: sample_local_def still_ports_def)
  ultimately show ?thesis
    using sample_undisturbed sample_resolved
    by (simp add: local_search_def sample_search_def)
      (simp add: found_result_def min_limit_def bindR_def bound_search_matches_def Let_def
        search_res_def SearchResult_post_init_def duration_def)
qed

theorem search_confined_witness:
  "\<exists>x m. local_search still_ports sample_search sample_local = (sample_local, Inr x) \<and> m \<in> set (sr_matches x) \<and>
     line_of sample_local (contains [97]) m"
proof -
  obtain x where x: "local_search still_ports sample_search sample_local = (sample_local, Inr x)"
      "sr_matches x = [\<lparr>sm_path = [97], sm_line_number = 1, sm_text = [120, 97, 120]\<rparr>]"
    using sample_search_found by blast
  have e: "\<not> lv_use_rg sample_local \<or> lv_rg sample_local = Some None" by (simp add: sample_local_def)
  have "\<lparr>sm_path = [97], sm_line_number = 1, sm_text = [120, 97, 120]\<rparr> \<in> set (sr_matches x)" using x(2) by simp
  from search_confined [OF x(1) this sample_named e] show ?thesis
    using x by (auto simp: sample_search_def)
qed

section \<open>Commands\<close>

lemma adopt_undisturbed: "undisturbed s \<Longrightarrow> adopt q s = s\<lparr>lv_active := q # lv_active s\<rparr>"
  by (auto simp: undisturbed_def adopt_def look_closed_def take_glance_def state_error_def split: if_splits)

lemma undisturbed_updates [simp]:
  "undisturbed (s\<lparr>lv_active := a\<rparr>) = undisturbed s" "undisturbed (s\<lparr>lv_spawned := n\<rparr>) = undisturbed s"
  "undisturbed (s\<lparr>lv_files := fs\<rparr>) = undisturbed s"
  by (simp_all add: undisturbed_def state_error_def)

lemma watch_undisturbed:
  "undisturbed s \<Longrightarrow> watch limit q ts s =
     (if \<exists>t \<in> set (ts @ [pr_last (snd q)]). ran_out limit t then (StoppedByTime, terminate_process q s) else (Completed, s))"
  by (induction ts) auto

lemma truncated_output:
  "\<exists>out err b. truncate_command_output (utf8_decode_replace o') (utf8_decode_replace e) (Some l) =
       Inr (out, err, b, utf8_len (utf8_decode_replace o') + utf8_len (utf8_decode_replace e)) \<and>
     int (utf8_len out + utf8_len err) \<le> max 0 l"
  by (rule truncate_command_output_Inr [OF decode_replace_encodable decode_replace_encodable, of o' e "Some l"]) blast

text \<open>C13: An undisturbed command that can be started ends in time or is stopped.  When each poll comes
  before the time limit, the result is a success, or an error when the return code is not 0, and no
  signal is sent; when some poll comes at or after it, the result is a timeout and the process group
  has been sent \<open>SIGTERM\<close>, and \<open>SIGKILL\<close> when it lingered.  In both cases the process is no longer
  among the active ones, and the two texts together have no more bytes than the limit on the output.\<close>

theorem command_in_time:
  assumes "undisturbed s"
    and "resolve_existing P s (case rc_working_directory r of None \<Rightarrow> [] | Some d \<Rightarrow> d) ''working directory'' True = Inr cwd"
    and "stat (lv_files s) (lp_links P) cwd = Some Directory"
    and "lp_spawn P (lv_spawned s) cwd (Shell (rc_command r)) = Inr q"
    and "\<forall>a \<in> set (lv_active s). fst a \<noteq> lv_spawned s"
    and "late = (\<exists>t \<in> set (pr_ticks q @ [pr_last q]). ran_out (Some (command_timeout s r)) t)"
  shows "\<exists>s' x. local_run_command P r s = (s', Inr x) \<and> lv_active s' = lv_active s \<and>
     cr_timed_out x = late \<and> cr_exit_code x = pr_returncode q \<and>
     cr_status x = (if late then EnvTimeout else if pr_returncode q \<in> {None, Some 0} then EnvSuccess else EnvError) \<and>
     lv_signals s' = lv_signals s @
       (if late then (lv_spawned s, SIGTERM) # (if pr_alive q \<and> pr_lingers q then [(lv_spawned s, SIGKILL)] else []) else []) \<and>
     int (utf8_len (cr_stdout x) + utf8_len (cr_stderr x)) \<le> max 0 (command_limit s r)"
proof -
  let ?q = "(lv_spawned s, q)" and ?s1 = "s\<lparr>lv_spawned := Suc (lv_spawned s), lv_files := pr_effect q (lv_files s)\<rparr>"
  let ?s2 = "?s1\<lparr>lv_active := ?q # lv_active s\<rparr>"
  let ?w = "if late then StoppedByTime else Completed"
  let ?s3 = "if late then terminate_process ?q ?s2 else ?s2"
  have "adopt ?q ?s1 = ?s2" using adopt_undisturbed [of ?s1 ?q] assms(1) by simp
  then have w: "watch (Some (command_timeout s r)) ?q (pr_ticks q) (adopt ?q ?s1) = (?w, ?s3)"
    using watch_undisturbed [of ?s2] assms(1,6) by simp
  have l: "command_limit ?s3 r = command_limit s r" by (cases "rc_max_output_bytes r") (simp_all add: command_limit_def terminate_process_def)
  obtain out err b where t: "truncate_command_output (utf8_decode_replace (fst (watched_output ?w q)))
        (utf8_decode_replace (snd (watched_output ?w q))) (Some (command_limit s r)) =
      Inr (out, err, b, utf8_len (utf8_decode_replace (fst (watched_output ?w q))) + utf8_len (utf8_decode_replace (snd (watched_output ?w q))))"
      "int (utf8_len out + utf8_len err) \<le> max 0 (command_limit s r)"
    using truncated_output by blast
  have "local_run_command P r s =
     (discard ?q ?s3,
      case command_outcome_res P r (case rc_working_directory r of None \<Rightarrow> [] | Some d \<Rightarrow> d) ?w q ?s3 of
        Inl e \<Rightarrow> process_handler P e | Inr x \<Rightarrow> Inr x)"
    using assms(1,2,3,4) w by (simp add: local_run_command_def popen_def Let_def)
  moreover have "\<exists>x. command_outcome_res P r cwd' ?w q ?s3 = Inr x \<and> cr_timed_out x = late \<and>
      cr_exit_code x = pr_returncode q \<and> cr_stdout x = out \<and> cr_stderr x = err \<and>
      cr_status x = (if late then EnvTimeout else if pr_returncode q \<in> {None, Some 0} then EnvSuccess else EnvError)" for cwd'
    using t(1) unfolding command_outcome_res_def l
    by (simp add: Let_def CommandResult_post_init_def duration_def bindR_def watched_status_def)
  moreover have "lv_active (discard ?q ?s3) = lv_active s"
    using assms(5) by (auto simp: discard_def terminate_process_def filter_id_conv)
  moreover have "lv_signals (discard ?q ?s3) = lv_signals s @
       (if late then (lv_spawned s, SIGTERM) # (if pr_alive q \<and> pr_lingers q then [(lv_spawned s, SIGKILL)] else []) else [])"
    by (simp add: discard_def terminate_process_def)
  ultimately show ?thesis using t(2) by (metis sum.case(2))
qed

definition sample_process :: process where
  "sample_process = \<lparr>pr_ticks = [1, 31], pr_last = 32, pr_output = ([], []), pr_final = (replicate 200 97, []),
     pr_returncode = Some (- 15), pr_alive = True, pr_lingers = True, pr_effect = (\<lambda>fs. fs)\<rparr>"

definition sample_command :: RunCommandRequest where
  "sample_command = \<lparr>rc_command = lit ''sleep 60'', rc_timeout_seconds = None, rc_max_output_bytes = None, rc_working_directory = None\<rparr>"

definition busy_ports :: local_ports where
  "busy_ports = still_ports\<lparr>lp_spawn := (\<lambda>_ _ _. Inr sample_process)\<rparr>"

theorem command_in_time_witness:
  "\<exists>s' x. local_run_command busy_ports sample_command sample_local = (s', Inr x) \<and> cr_status x = EnvTimeout \<and>
     lv_signals s' = [(0, SIGTERM), (0, SIGKILL)] \<and> lv_active s' = [] \<and> utf8_len (cr_stdout x) \<le> 100"
proof -
  have facts: "resolve_existing busy_ports sample_local
        (case rc_working_directory sample_command of None \<Rightarrow> [] | Some d \<Rightarrow> d) ''working directory'' True = Inr [[119]]"
      "stat (lv_files sample_local) (lp_links busy_ports) [[119]] = Some Directory"
      "lp_spawn busy_ports (lv_spawned sample_local) [[119]] (Shell (rc_command sample_command)) = Inr sample_process"
      "\<forall>a \<in> set (lv_active sample_local). fst a \<noteq> lv_spawned sample_local"
  proof -
    have "resolve_existing busy_ports = resolve_existing still_ports"
      by (simp add: fun_eq_iff resolve_existing_def busy_ports_def)
    then show "resolve_existing busy_ports sample_local
        (case rc_working_directory sample_command of None \<Rightarrow> [] | Some d \<Rightarrow> d) ''working directory'' True = Inr [[119]]"
      using sample_root by (simp add: sample_command_def)
    have "tree (lv_files sample_local)" "plain (lv_files sample_local) [[119]]"
      using sample_orderly by (simp_all add: orderly_def) (simp add: sample_local_def root_of_def)
    then show "stat (lv_files sample_local) (lp_links busy_ports) [[119]] = Some Directory"
      using stat_found [of "lv_files sample_local" "[[119]]"] by (simp add: sample_local_def sample_node)
  qed (simp_all add: busy_ports_def sample_local_def)
  have late: "\<exists>t \<in> set (pr_ticks sample_process @ [pr_last sample_process]).
      ran_out (Some (command_timeout sample_local sample_command)) t"
    by (simp add: sample_process_def command_timeout_def sample_command_def sample_local_def)
  obtain s' x where "local_run_command busy_ports sample_command sample_local = (s', Inr x)" "lv_active s' = lv_active sample_local"
      "cr_status x = EnvTimeout"
      "lv_signals s' = lv_signals sample_local @ (lv_spawned sample_local, SIGTERM) #
         (if pr_alive sample_process \<and> pr_lingers sample_process then [(lv_spawned sample_local, SIGKILL)] else [])"
      "int (utf8_len (cr_stdout x) + utf8_len (cr_stderr x)) \<le> max 0 (command_limit sample_local sample_command)"
    using command_in_time [OF sample_undisturbed facts refl] late by auto
  then show ?thesis by (intro exI [of _ s'] exI [of _ x]) (simp add: sample_process_def sample_local_def command_limit_def sample_command_def)
qed

text \<open>Whatever happens meanwhile, a command leaves no process of its own among the active ones, and one
  whose result says that it ran out of time has been told to stop.\<close>

lemma watch_active: "watch limit q ts s = (w, s') \<Longrightarrow> lv_active s' = lv_active s"
proof (induction ts arbitrary: s)
  case Nil
  obtain b s1 where k: "look s = (b, s1)" by (cases "look s")
  obtain b2 s2 where k2: "look s1 = (b2, s2)" by (cases "look s1")
  show ?case using Nil k k2 look_same(3) [OF k] look_same(3) [OF k2]
    by (auto simp: terminate_process_def split: bool.splits if_splits)
next
  case (Cons t ts)
  obtain b s1 where k: "look s = (b, s1)" by (cases "look s")
  show ?case using Cons k look_same(3) [OF k] by (auto simp: terminate_process_def split: bool.splits if_splits)
qed

lemma adopt_active: "set (lv_active (adopt q s)) \<subseteq> insert q (set (lv_active s))"
  by (auto simp: adopt_def look_closed_def take_glance_def local_close_def terminate_process_def
      split: if_splits list.splits bool.splits)

lemma watch_stopped:
  "watch limit q ts s = (w, s') \<Longrightarrow> w = StoppedByTime \<or> w = StoppedByCancel \<Longrightarrow> (fst q, SIGTERM) \<in> set (lv_signals s')"
proof (induction ts arbitrary: s)
  case Nil
  obtain b s1 where k: "look s = (b, s1)" by (cases "look s")
  show ?case using Nil k by (auto simp: terminate_process_def split: bool.splits if_splits prod.splits)
next
  case (Cons t ts)
  obtain b s1 where k: "look s = (b, s1)" by (cases "look s")
  show ?case using Cons k by (auto simp: terminate_process_def split: bool.splits if_splits)
qed

end
