(* ===== verification/Spec2Isabelle.thy ===== *)
theory Spec2Isabelle
  imports ExecutorRun SessionStoreProps PayloadBound ContextProps ModelClientProps TurnProps Paths Runtime Output JsonRoundtrip RecoveryProps ServiceProps Pump HistoryProps TransportProps HttpStreamProps HttpProps Config LocalSearchProps
begin

text \<open>
  CodingAgentNeo is a coding agent: a loop asks a language model for the next step, executes the
  tools the model calls inside one workspace, records every step as an event in an append-only log,
  and shows the events to a frontend over a backend port and an HTTP binding.  This development
  models that program, from \<open>src/src/coding_agent_neo/\<close>, definition by definition.  The root
  theory only brings the components together; each of the other theories opens with what it holds.
  File names below are relative to \<open>src/src/coding_agent_neo/\<close>.

  \<^bold>\<open>How the program works, and how the model follows it.\<close>
  A frontend sends commands to the backend service (\<open>backend_service.py\<close>).  The service's worker
  takes the accepted tasks in order and runs one turn of the agent loop (\<open>agent_loop.py\<close>) for each.
  A turn projects the conversation onto a request that fits the model's window (\<open>context.py\<close>,
  \<open>compactor.py\<close>), sends it through the model client (\<open>model_client.py\<close>), and hands the
  declared calls to the tool executor (\<open>executor.py\<close>).  The executor asks the policy (\<open>policy.py\<close>)
  and, through the approval port, the frontend; it then dispatches the call through the registry
  (\<open>tools/registry.py\<close>, \<open>tools/schema.py\<close>, \<open>tools/builtins.py\<close>) to the environment
  (\<open>environment/local.py\<close>).  Results are bounded (\<open>tools/output.py\<close>), every step is an event
  (\<open>events.py\<close>) that is stored (\<open>session.py\<close>) before subscribers see it, and a stored session can
  be resumed (\<open>assembly.py\<close>).  The service's stream, the history of stored sessions
  (\<open>backend_provider.py\<close>) and the sessions of the HTTP binding (\<open>transports/http/\<close>) show the
  events to clients.

  \<^bold>\<open>Conventions.\<close>
  A Python string is a list of code points (\<open>str\<close>), bytes are naturals below 256, an int is \<open>int\<close>,
  and a float (\<open>pyfloat\<close>) is the rational it denotes, an infinity or not a number; rounding is a
  function of the platform record, so no theorem rests on a particular one.  A dict whose order is
  visible is an association list, JSON values are the datatype \<open>json\<close>.  A raise is a left
  value of a sum (\<open>res\<close>), and code that changes state is an \<open>effect\<close>, a function from the state
  to the state and such a result; the state survives the exception, as an object's fields do in
  Python.  Lock-protected parts of threads are single steps, and threads interleave as the step
  relations or runs of such parts allow.  What the source calls but does not define is an argument
  of the model: a field of a ports record (\<open>loop_ports\<close>, \<open>exec_ports\<close>, \<open>local_ports\<close>,
  \<open>config_ports\<close>, \<open>recovery_ports\<close> and so on) or of \<open>platform\<close>.

  \<^bold>\<open>Foundations.\<close>
  \<^item> \<open>Prelude\<close>: strings, JSON values, exceptions, slices, lookups, sorting of keys.
  \<^item> \<open>Utf8\<close>: Python's codec with the error handlers the source names; round trip, prefixes,
    and that decoding with replacement yields text that can be encoded.
  \<^item> \<open>Json\<close>, \<open>JsonRoundtrip\<close>, \<open>JsonPrefix\<close>, \<open>Dumps\<close>, \<open>DumpFacts\<close>: the writer and the reader of
    the \<open>json\<close> module; reading back a rendered record, that no proper prefix of an object is JSON,
    and the lengths of the three rendered forms.
  \<^item> \<open>Effects\<close>, \<open>Frames\<close>: sequencing, \<open>try\<close> forms and the predicate transformer of effects;
    frame conditions proved once for any preorder.

  \<^bold>\<open>Tools and their execution.\<close>
  \<^item> \<open>Models\<close>, \<open>Responses\<close> (\<open>models.py\<close>): identifiers, enumerations, requests, results and the
    normalized output of the model.
  \<^item> \<open>Schema\<close>, \<open>Builtins\<close>, \<open>Registry\<close> (\<open>tools/\<close>): arguments, the six tools over an environment,
    registration and dispatch.
  \<^item> \<open>Environment\<close>: the six operations a tool may call.
  \<^item> \<open>Truncation\<close>, \<open>Output\<close>, \<open>Paths\<close>, \<open>Policy\<close>, \<open>Redaction\<close>: the bounds on texts, the projections
    of a result, the syntactic path checks and their agreement, the decision on a call, and the keys
    that are secret.
  \<^item> \<open>Executor\<close>, \<open>ExecutorFacts\<close>, \<open>ExecutorRun\<close> (\<open>executor.py\<close>): the life cycle of one call.  The
    locale \<open>tool_ports\<close> states what the executor relies on (a publisher that appends one event, a
    registry whose dispatches can be counted); its interpretation \<open>recorder\<close> is on the recorder, the
    registry and the policy of the source.

  \<^bold>\<open>The local environment\<close> (\<open>environment/local.py\<close>).
  \<^item> \<open>FileSystem\<close>: a tree of directories, files and symbolic links.  \<open>walk\<close> follows a path the way
    the kernel does, or the way \<open>Path.resolve\<close> does, up to the number of links a walk may follow.
  \<^item> \<open>LocalEnv\<close>: the environment's state, its construction, start and close, the resolution of
    logical paths, reading, writing and editing.
  \<^item> \<open>LocalList\<close>, \<open>LocalSearch\<close>: the two walks of the workspace, the listing and the search
    without \<open>rg\<close>.
  \<^item> \<open>LocalCommand\<close>: processes, the search with \<open>rg\<close>, \<open>bash\<close>, and \<open>local_environment\<close>, the six
    operations as the record the tools call.
  \<^item> \<open>LocalFacts\<close>, \<open>LocalEnvProps\<close>: an operation other than a command changes nothing outside the
    workspace.  The locale \<open>kept_environment\<close> carries a relation that the five operations keep
    through the tools, the registry and the executor, and \<open>shell_free\<close> adds that \<open>bash\<close> is not
    active; \<open>workspace\<close> interprets both on \<open>local_environment\<close>.
  \<^item> \<open>LocalFileProps\<close>, \<open>LocalWalkProps\<close>, \<open>LocalSearchProps\<close>: what edits and reads do, that a
    listing is complete, that a match is a line of the workspace, and that a command ends in time or
    is stopped.  These are stated for an \<open>undisturbed\<close> operation: one that no signal, closing or
    fault of the device interrupts.  The confinement of tool calls needs no such assumption.

  \<^bold>\<open>Events and sessions.\<close>
  \<^item> \<open>Events\<close> (\<open>events.py\<close>): the canonical, redacted form of an event and the emitter.
  \<^item> \<open>Session\<close>, \<open>SessionFacts\<close>, \<open>SessionStoreProps\<close>, \<open>PayloadBound\<close> (\<open>session.py\<close>): reading and
    cutting a log, the bound on a payload, and the store.  The abstract state of a store is the list
    of events that its file reads as; the locale \<open>failing_log\<close> is a log whose appends may fail
    anywhere, and \<open>session_log\<close> interprets it on \<open>store_append\<close>.
  \<^item> \<open>Recovery\<close>, \<open>RecoveryProps\<close> (\<open>assembly.py\<close>): what a log says about the agent, the budget and
    the conversation of the session that resumes.

  \<^bold>\<open>The agent.\<close>
  \<^item> \<open>Runtime\<close> (\<open>runtime.py\<close>): cancellation, budgets, the state of the conversation.
  \<^item> \<open>Context\<close>, \<open>ContextFacts\<close>, \<open>ContextProps\<close>, \<open>Compactor\<close>: grouping, the token estimate, the
    projection and the summary.  What the grouping's scan finds is characterised without it: the one
    decomposition of the messages into groups that are \<open>group_ok\<close>.
  \<^item> \<open>ModelClient\<close>, \<open>ModelClientProps\<close>: requests, normal form of answers, failures and retries.
  \<^item> \<open>AgentLoop\<close>, \<open>AgentTurn\<close>, \<open>LoopFacts\<close>, \<open>TurnFacts\<close>, \<open>TurnProps\<close> (\<open>agent_loop.py\<close>): one turn
    of a user.  Frame conditions (the locales \<open>step_order\<close> and \<open>quiet_ports\<close> of \<open>Frames\<close>,
    interpreted as \<open>neutral\<close>, \<open>closed\<close>, \<open>outside\<close> and \<open>executor\<close>) say which steps keep the books as
    they are; the turn's invariant needs only the remaining steps.

  \<^bold>\<open>Service, history, transport, configuration.\<close>
  \<^item> \<open>Backend\<close>, \<open>Stream\<close>, \<open>Service\<close>, \<open>ServiceProps\<close> (\<open>backend.py\<close>, \<open>backend_service.py\<close>,
    \<open>transports/http/commands.py\<close>): commands and their JSON form, the event buffer and its readers,
    approvals, the worker.
  \<^item> \<open>History\<close>, \<open>HistoryFacts\<close>, \<open>HistoryProps\<close> (\<open>backend_provider.py\<close>): summaries, pages and
    cursors, previews that fit, and the state of a stored session.
  \<^item> \<open>Pump\<close>, \<open>Transport\<close>, \<open>TransportProps\<close> (\<open>transports/http/registry.py\<close>): the pump between a
    backend's stream and its subscribers, the sessions and their registry.
  \<^item> \<open>Wire\<close>, \<open>WireProps\<close>, \<open>HttpApp\<close>, \<open>HttpStreamProps\<close>, \<open>HttpProps\<close> (\<open>transports/http/wire.py\<close>,
    \<open>app.py\<close>): responses, frames, routes.  The reader of an event stream is a specification of the
    client's side.  The locale \<open>port_contract\<close> is what the routes rely on of a backend; \<open>sv\<close>
    interprets it on the service.
  \<^item> \<open>Config\<close> (\<open>config.py\<close>): the four sources of a configuration and its validation.

  \<^bold>\<open>Fuel, bounds and termination.\<close>
  The loop of a turn has fuel and answers None without it; it is proved that fuel beyond the
  remaining steps of the budget is enough.  Following event pages takes fuel beyond the number of
  events.  A walk through the file system carries the number of links it may still follow, as the
  kernel does.  The breadth-first walks terminate because each directory taken from the queue is
  replaced by deeper ones, which a multiset order decreases.  A stopped service ends within four
  parts of its worker, and one call that closes a transport session takes at most three parts.
  Retries are bounded by the configured number, the payload search by the length of the payload.

  \<^bold>\<open>Not modelled.\<close>
  The command lines (\<open>cli.py\<close>, \<open>http_cli.py\<close>, \<open>__main__.py\<close>), terminal rendering (\<open>renderer.py\<close>)
  and the launcher (\<open>web_launcher.py\<close>) are input and output.  \<open>transports/in_process.py\<close> forwards
  every call.  \<open>transports/http/security.py\<close> checks hosts and origins in front of the routes and is
  left out.  Of \<open>assembly.py\<close> the wiring of objects is left out, of \<open>backend_service.py\<close> the factory,
  of \<open>model_client.py\<close> the construction of the SDK's client, and wherever an injected callable's
  signature is inspected, the inspection.  The web framework, the TOML reader, the regular expression
  engine, \<open>rg\<close> and the processes are arguments of the model, and so is the branch of
  \<open>_terminate_process\<close> for Windows, which does not exist on the modelled platform.  The join of a
  thread is only the bound on how long a call waits.  The symbolic-link checks on the session
  directory in \<open>session.py\<close> are left out, and other programs do not change the workspace while
  an operation runs, except through the processes that the operation starts.
\<close>

end
